(* ===== verification/Prelude.thy ===== *)
theory Prelude
  imports Main "HOL-Library.AList" "HOL-Library.Char_ord" "HOL-Library.List_Lexorder"
    "HOL-Library.Product_Lexorder" "HOL-Library.Multiset"
begin

text \<open>
  Shared vocabulary of the development.

  \<^item> \<open>dict\<close>: a Python \<open>dict\<close> as an association list in insertion order; \<open>AList.update\<close>
    replaces in place or appends, exactly as assignment to a key does.  A Python \<open>set\<close> that the
    code iterates over is a list without duplicates in an arbitrary but fixed iteration order.
  \<^item> results: every operation that can raise returns a sum, \<open>Inl\<close> the exception and \<open>Inr\<close> the
    value; \<open>rbind\<close> sequences, \<open>rmap\<close> and \<open>rfold\<close> are the comprehension and the \<open>for\<close>
    loop, \<open>wp E Q m\<close> says that \<open>m\<close> returns a value in \<open>Q\<close> or raises an exception in \<open>E\<close>.
  \<^item> \<open>heappush\<close>, \<open>heappop\<close>: \<open>heapq\<close> as an ordered list, with the interface
    \<open>event_queue\<close> that the timing loops rely on.
  \<^item> \<open>fetch\<close>: subscription \<open>d[k]\<close>, which raises when the key is missing.
  \<^item> list minima with the first-index rule of \<open>min(range(n), key=...)\<close>.
\<close>

named_theorems wp_simps "weakest preconditions of the result combinators"

section \<open>Dictionaries\<close>

type_synonym ('k, 'v) dict = "('k \<times> 'v) list"

definition keys :: "('k, 'v) dict \<Rightarrow> 'k list" where
  "keys d = map fst d"

definition counter_get :: "('k, int) dict \<Rightarrow> 'k \<Rightarrow> int" where
  "counter_get c k = (case map_of c k of None \<Rightarrow> 0 | Some n \<Rightarrow> n)"

definition counter_add :: "('k, int) dict \<Rightarrow> 'k \<Rightarrow> int \<Rightarrow> ('k, int) dict" where
  "counter_add c k n = AList.update k (counter_get c k + n) c"

text \<open>\<open>tuple(dict.fromkeys(xs))\<close>: the first occurrence of every value, in order.\<close>

fun ordered_unique_from :: "'a list \<Rightarrow> 'a list \<Rightarrow> 'a list" where
  "ordered_unique_from seen [] = []"
| "ordered_unique_from seen (x # xs) =
     (if x \<in> set seen then ordered_unique_from seen xs
      else x # ordered_unique_from (x # seen) xs)"

definition ordered_unique :: "'a list \<Rightarrow> 'a list" where
  "ordered_unique xs = ordered_unique_from [] xs"

lemma set_ordered_unique_from: "set (ordered_unique_from seen xs) = set xs - set seen"
  by (induction xs arbitrary: seen) auto

lemma distinct_ordered_unique_from: "distinct (ordered_unique_from seen xs)"
  by (induction xs arbitrary: seen) (auto simp: set_ordered_unique_from)

lemma set_ordered_unique [simp]: "set (ordered_unique xs) = set xs"
  by (simp add: ordered_unique_def set_ordered_unique_from)

lemma distinct_ordered_unique [simp]: "distinct (ordered_unique xs)"
  by (simp add: ordered_unique_def distinct_ordered_unique_from)

lemma ordered_unique_from_distinct:
  "distinct xs \<Longrightarrow> set xs \<inter> set seen = {} \<Longrightarrow> ordered_unique_from seen xs = xs"
  by (induction xs arbitrary: seen) auto

lemma ordered_unique_distinct: "distinct xs \<Longrightarrow> ordered_unique xs = xs"
  by (simp add: ordered_unique_def ordered_unique_from_distinct)

lemma map_of_update [simp]: "map_of (AList.update k v d) = (map_of d)(k \<mapsto> v)"
  by (rule ext) (simp add: update_conv')

lemma keys_update_mem: "k \<in> set (keys d) \<Longrightarrow> keys (AList.update k v d) = keys d"
  by (simp add: keys_def update_keys)

lemma keys_map_of: "k \<in> set (keys d) \<longleftrightarrow> map_of d k \<noteq> None"
  by (simp add: keys_def map_of_eq_None_iff)

lemma map_of_keys: "map_of d k = Some v \<Longrightarrow> k \<in> set (keys d)"
  by (simp add: keys_map_of)

lemma distinct_keys_update: "distinct (keys d) \<Longrightarrow> distinct (keys (AList.update k v d))"
  by (simp add: keys_def distinct_update)

lemma set_update_subset: "set (AList.update k v d) \<subseteq> insert (k, v) (set d)"
  by (induction d) auto

lemma map_filter_Nil: "List.map_filter f xs = [] \<longleftrightarrow> (\<forall>x\<in>set xs. f x = None)"
  by (induction xs) (auto simp: List.map_filter_simps split: option.split)

lemma map_of_const: "map_of (map (\<lambda>i. (i, c)) is) i = (if i \<in> set is then Some c else None)"
  by (induction "is") auto

lemma counter_get_Nil [simp]: "counter_get [] k = 0"
  by (simp add: counter_get_def)

lemma counter_get_add:
  "counter_get (counter_add c k n) k' = (if k' = k then counter_get c k + n else counter_get c k')"
  by (simp add: counter_get_def counter_add_def)

section \<open>Results\<close>

definition rbind :: "'e + 'a \<Rightarrow> ('a \<Rightarrow> 'e + 'b) \<Rightarrow> 'e + 'b" where
  "rbind m f = (case m of Inl e \<Rightarrow> Inl e | Inr x \<Rightarrow> f x)"

fun rmap :: "('a \<Rightarrow> 'e + 'b) \<Rightarrow> 'a list \<Rightarrow> 'e + 'b list" where
  "rmap f [] = Inr []"
| "rmap f (x # xs) = rbind (f x) (\<lambda>y. rbind (rmap f xs) (\<lambda>ys. Inr (y # ys)))"

fun rfold :: "('a \<Rightarrow> 's \<Rightarrow> 'e + 's) \<Rightarrow> 'a list \<Rightarrow> 's \<Rightarrow> 'e + 's" where
  "rfold f [] s = Inr s"
| "rfold f (x # xs) s = rbind (f x s) (\<lambda>s'. rfold f xs s')"

fun rall :: "('a \<Rightarrow> 'e + unit) \<Rightarrow> 'a list \<Rightarrow> 'e + unit" where
  "rall f [] = Inr ()"
| "rall f (x # xs) = rbind (f x) (\<lambda>_. rall f xs)"

definition fetch :: "('k \<Rightarrow> 'e) \<Rightarrow> ('k, 'v) dict \<Rightarrow> 'k \<Rightarrow> 'e + 'v" where
  "fetch e d k = (case map_of d k of None \<Rightarrow> Inl (e k) | Some v \<Rightarrow> Inr v)"

definition rguard :: "bool \<Rightarrow> 'e \<Rightarrow> 'e + unit" where
  "rguard c e = (if c then Inr () else Inl e)"

definition wp :: "('e \<Rightarrow> bool) \<Rightarrow> ('a \<Rightarrow> bool) \<Rightarrow> 'e + 'a \<Rightarrow> bool" where
  "wp E Q m = (case m of Inl e \<Rightarrow> E e | Inr x \<Rightarrow> Q x)"

lemma rbind_simps [simp]: "rbind (Inl e) f = Inl e" "rbind (Inr x) f = f x"
  by (simp_all add: rbind_def)

lemma rbind_Inr [simp]: "rbind m Inr = m"
  by (cases m) simp_all

lemma rbind_assoc: "rbind (rbind m f) g = rbind m (\<lambda>x. rbind (f x) g)"
  by (cases m) simp_all

lemma rbind_eq_Inr_iff: "rbind m f = Inr y \<longleftrightarrow> (\<exists>x. m = Inr x \<and> f x = Inr y)"
  by (cases m) simp_all

lemma rbind_eq_Inl_iff: "rbind m f = Inl e \<longleftrightarrow> m = Inl e \<or> (\<exists>x. m = Inr x \<and> f x = Inl e)"
  by (cases m) simp_all

lemma rall_Inr_iff [simp]: "rall f xs = Inr u \<longleftrightarrow> (\<forall>x\<in>set xs. f x = Inr ())"
  by (induction xs) (auto simp: rbind_eq_Inr_iff)

lemma fetch_Inr_iff [simp]: "fetch e d k = Inr v \<longleftrightarrow> map_of d k = Some v"
  by (simp add: fetch_def split: option.splits)

lemma fetch_Inl_iff: "fetch e d k = Inl e' \<longleftrightarrow> map_of d k = None \<and> e' = e k"
  by (auto simp: fetch_def split: option.splits)

lemma rbind_cong [fundef_cong]:
  "m = m' \<Longrightarrow> (\<And>x. m' = Inr x \<Longrightarrow> f x = f' x) \<Longrightarrow> rbind m f = rbind m' f'"
  by (cases m') simp_all

lemma rguard_simps [simp]: "rguard True e = Inr ()" "rguard False e = Inl e"
  by (simp_all add: rguard_def)

lemma rguard_Inr_iff [simp]: "rguard c e = Inr u \<longleftrightarrow> c"
  by (simp add: rguard_def)

lemma rguard_Inl_iff [simp]: "rguard c e = Inl e' \<longleftrightarrow> \<not> c \<and> e' = e"
  by (auto simp: rguard_def)

lemma wp_Inl [simp, wp_simps]: "wp E Q (Inl e) = E e"
  and wp_Inr [simp, wp_simps]: "wp E Q (Inr x) = Q x"
  by (simp_all add: wp_def)

lemma wp_rbind [simp, wp_simps]: "wp E Q (rbind m f) = wp E (\<lambda>x. wp E Q (f x)) m"
  by (cases m) simp_all

lemma wp_rguard [simp, wp_simps]: "wp E Q (rguard c e) = (if c then Q () else E e)"
  by simp

lemma wp_fetch [simp, wp_simps]:
  "wp E Q (fetch e d k) = (case map_of d k of None \<Rightarrow> E (e k) | Some v \<Rightarrow> Q v)"
  by (simp add: fetch_def split: option.splits)

lemma wp_if [wp_simps]: "wp E Q (if c then a else b) = (if c then wp E Q a else wp E Q b)"
  by simp

lemma wp_mono: "wp E Q m \<Longrightarrow> (\<And>x. Q x \<Longrightarrow> Q' x) \<Longrightarrow> (\<And>e. E e \<Longrightarrow> E' e) \<Longrightarrow> wp E' Q' m"
  by (cases m) simp_all

lemma wp_weaken: "wp E Q m \<Longrightarrow> (\<And>x. Q x \<Longrightarrow> Q' x) \<Longrightarrow> wp E Q' m"
  by (cases m) simp_all

lemma wp_conj: "wp E Q m \<Longrightarrow> wp E R m \<Longrightarrow> wp E (\<lambda>x. Q x \<and> R x) m"
  by (cases m) simp_all

lemma wp_Inr_eqD: "wp E Q m \<Longrightarrow> m = Inr x \<Longrightarrow> Q x"
  by simp

lemma wp_Inl_eqD: "wp E Q m \<Longrightarrow> m = Inl e \<Longrightarrow> E e"
  by simp

lemma wpI: "(\<And>x. m = Inr x \<Longrightarrow> Q x) \<Longrightarrow> (\<And>e. m = Inl e \<Longrightarrow> E e) \<Longrightarrow> wp E Q m"
  by (cases m) simp_all

lemma wp_rfold:
  assumes "I s" and "\<And>x s. x \<in> set xs \<Longrightarrow> I s \<Longrightarrow> wp E I (f x s)"
  shows "wp E I (rfold f xs s)"
  using assms
proof (induction xs arbitrary: s)
  case (Cons x xs)
  have "wp E I (f x s)" using Cons.prems by simp
  moreover have "wp E I (rfold f xs s')" if "I s'" for s' using Cons that by simp
  ultimately show ?case by (simp add: wp_weaken)
qed simp

lemma wp_rmap:
  assumes "\<And>x. x \<in> set xs \<Longrightarrow> wp E (Q x) (f x)"
  shows "wp E (\<lambda>ys. list_all2 Q xs ys) (rmap f xs)"
  using assms
proof (induction xs)
  case (Cons x xs)
  have "wp E (Q x) (f x)" "wp E (\<lambda>ys. list_all2 Q xs ys) (rmap f xs)" using Cons by simp_all
  then show ?case by (auto elim!: wp_weaken)
qed simp

lemma rmap_Inr_iff: "rmap f xs = Inr ys \<longleftrightarrow> list_all2 (\<lambda>x y. f x = Inr y) xs ys"
proof (induction xs arbitrary: ys)
  case (Cons x xs)
  then show ?case by (cases ys) (auto simp: rbind_eq_Inr_iff)
qed auto

lemma rmap_total: "(\<And>x. x \<in> set xs \<Longrightarrow> f x = Inr (g x)) \<Longrightarrow> rmap f xs = Inr (map g xs)"
  by (induction xs) simp_all

lemma rfold_append: "rfold f (xs @ ys) s = rbind (rfold f xs s) (rfold f ys)"
proof (induction xs arbitrary: s)
  case (Cons x xs)
  then have "rfold f (xs @ ys) = (\<lambda>s. rbind (rfold f xs s) (rfold f ys))" by (rule ext)
  then show ?case by (simp add: rbind_assoc)
qed simp

lemma count_list_replicate [simp]: "count_list (replicate n x) y = (if x = y then n else 0)"
  by (induction n) auto

section \<open>Order\<close>

text \<open>\<open>min(xs)\<close> and \<open>max(xs)\<close> of a nonempty list, and the index \<open>min(range(n), key=xs.__getitem__)\<close>.\<close>

fun min_of :: "'a::linorder \<Rightarrow> 'a list \<Rightarrow> 'a" where
  "min_of x [] = x"
| "min_of x (y # ys) = min_of (if y < x then y else x) ys"

fun max_of :: "'a::linorder \<Rightarrow> 'a list \<Rightarrow> 'a" where
  "max_of x [] = x"
| "max_of x (y # ys) = max_of (if x < y then y else x) ys"

lemma min_of_le: "y \<in> insert x (set xs) \<Longrightarrow> min_of x xs \<le> y"
proof (induction xs arbitrary: x y)
  case (Cons z xs)
  have "min_of (if z < x then z else x) xs \<le> (if z < x then z else x)"
    by (rule Cons.IH) simp
  moreover have "y \<in> set xs \<Longrightarrow> min_of (if z < x then z else x) xs \<le> y" by (rule Cons.IH) simp
  ultimately show ?case using Cons.prems by (auto split: if_splits)
qed simp

lemma min_of_mem: "min_of x xs \<in> insert x (set xs)"
proof (induction xs arbitrary: x)
  case (Cons z xs)
  have "min_of (if z < x then z else x) xs \<in> insert (if z < x then z else x) (set xs)"
    by (rule Cons.IH)
  then show ?case by (auto split: if_splits)
qed simp

lemma max_of_ge: "y \<in> insert x (set xs) \<Longrightarrow> y \<le> max_of x xs"
proof (induction xs arbitrary: x y)
  case (Cons z xs)
  have "(if x < z then z else x) \<le> max_of (if x < z then z else x) xs"
    by (rule Cons.IH) simp
  moreover have "y \<in> set xs \<Longrightarrow> y \<le> max_of (if x < z then z else x) xs" by (rule Cons.IH) simp
  ultimately show ?case using Cons.prems by (auto split: if_splits)
qed simp

lemma max_of_mem: "max_of x xs \<in> insert x (set xs)"
proof (induction xs arbitrary: x)
  case (Cons z xs)
  have "max_of (if x < z then z else x) xs \<in> insert (if x < z then z else x) (set xs)"
    by (rule Cons.IH)
  then show ?case by (auto split: if_splits)
qed simp

lemma max_of_Max: "max_of x xs = Max (insert x (set xs))"
  by (rule Max_eqI [symmetric]) (auto simp: max_of_ge max_of_mem simp del: insert_iff)

lemma min_of_Min: "min_of x xs = Min (insert x (set xs))"
  by (rule Min_eqI [symmetric]) (auto simp: min_of_le min_of_mem simp del: insert_iff)

lemma less_min_of_iff: "y < min_of x xs \<longleftrightarrow> y < x \<and> (\<forall>z\<in>set xs. y < z)"
  using min_of_le [of _ x xs] min_of_mem [of x xs] by fastforce

lemma max_of_le_iff: "max_of x xs \<le> y \<longleftrightarrow> x \<le> y \<and> (\<forall>z\<in>set xs. z \<le> y)"
  using max_of_ge [of _ x xs] max_of_mem [of x xs] by fastforce

fun argmin_from :: "nat \<Rightarrow> nat \<Rightarrow> 'a::linorder \<Rightarrow> 'a list \<Rightarrow> nat" where
  "argmin_from i best v [] = best"
| "argmin_from i best v (x # xs) =
     (if x < v then argmin_from (Suc i) i x xs else argmin_from (Suc i) best v xs)"

definition argmin :: "'a::linorder list \<Rightarrow> nat" where
  "argmin xs = (case xs of [] \<Rightarrow> 0 | x # ys \<Rightarrow> argmin_from 1 0 x ys)"

lemma argmin_from_bound: "best < i \<Longrightarrow> argmin_from i best v xs < i + length xs"
proof (induction xs arbitrary: i best v)
  case (Cons x xs)
  show ?case using Cons.IH [of i "Suc i" x] Cons.IH [of best "Suc i" v] Cons.prems by simp
qed simp

lemma argmin_bound: "xs \<noteq> [] \<Longrightarrow> argmin xs < length xs"
  using argmin_from_bound [of 0 1] by (cases xs) (auto simp: argmin_def)

lemma argmin_from_least:
  assumes "best < length ys" and "ys ! best = v" and "\<forall>y\<in>set ys. v \<le> y"
  shows "(ys @ xs) ! argmin_from (length ys) best v xs = min_of v xs"
  using assms
proof (induction xs arbitrary: ys best v)
  case (Cons x xs)
  show ?case
  proof (cases "x < v")
    case True
    have "((ys @ [x]) @ xs) ! argmin_from (length (ys @ [x])) (length ys) x xs = min_of x xs"
      using Cons.prems True by (intro Cons.IH) (auto intro: order.strict_implies_order order.trans)
    then show ?thesis using True by simp
  next
    case False
    have "((ys @ [x]) @ xs) ! argmin_from (length (ys @ [x])) best v xs = min_of v xs"
      using Cons.prems False by (intro Cons.IH) (auto simp: nth_append)
    then show ?thesis using False by simp
  qed
qed (simp add: nth_append)

lemma argmin_nth: "(x # ys) ! argmin (x # ys) = min_of x ys"
  using argmin_from_least [of 0 "[x]" x ys] by (simp add: argmin_def)

section \<open>Event queues\<close>

text \<open>
  \<open>heapq\<close> keeps a list whose first element is the least; the code only pushes, reads the first
  element and pops it.  The layout of the rest is not observable, so the queue is kept ordered.
\<close>

definition heappush :: "'a::linorder \<Rightarrow> 'a list \<Rightarrow> 'a list" where
  "heappush x h = insort x h"

fun heappop :: "'a list \<Rightarrow> ('a \<times> 'a list) option" where
  "heappop [] = None"
| "heappop (x # h) = Some (x, h)"

locale event_queue =
  fixes push :: "'a::linorder \<Rightarrow> 'q \<Rightarrow> 'q"
    and pop :: "'q \<Rightarrow> ('a \<times> 'q) option"
    and elems :: "'q \<Rightarrow> 'a multiset"
    and invar :: "'q \<Rightarrow> bool"
  assumes elems_push: "invar q \<Longrightarrow> elems (push x q) = add_mset x (elems q)"
    and invar_push: "invar q \<Longrightarrow> invar (push x q)"
    and pop_None: "invar q \<Longrightarrow> pop q = None \<longleftrightarrow> elems q = {#}"
    and pop_Some: "invar q \<Longrightarrow> pop q = Some (x, q') \<Longrightarrow>
      invar q' \<and> elems q = add_mset x (elems q') \<and> (\<forall>y\<in>#elems q. x \<le> y)"
begin

lemma pop_least: "invar q \<Longrightarrow> pop q = Some (x, q') \<Longrightarrow> y \<in># elems q \<Longrightarrow> x \<le> y"
  using pop_Some by blast

lemma pop_smaller: "invar q \<Longrightarrow> pop q = Some (x, q') \<Longrightarrow> size (elems q') < size (elems q)"
  using pop_Some [of q x q'] by simp

lemma pop_push: "invar q \<Longrightarrow> \<exists>y q'. pop (push x q) = Some (y, q') \<and> y \<le> x"
proof -
  assume q: "invar q"
  then have "pop (push x q) \<noteq> None" by (simp add: pop_None invar_push elems_push)
  then obtain y q' where yq: "pop (push x q) = Some (y, q')" by auto
  have "y \<le> x" using pop_least [OF invar_push [OF q] yq] by (simp add: elems_push [OF q])
  with yq show ?thesis by blast
qed

end

interpretation heap: event_queue heappush heappop mset sorted
proof (unfold_locales, goal_cases)
  case (1 q x) show ?case by (simp add: heappush_def)
next
  case (2 q x) then show ?case by (simp add: heappush_def sorted_insort)
next
  case (3 q) show ?case by (cases q) auto
next
  case (4 q x q') then show ?case by (cases q) auto
qed

lemma set_heappush [simp]: "set (heappush x h) = insert x (set h)"
  by (simp add: heappush_def set_insort_key)

lemma length_heappush [simp]: "length (heappush x h) = Suc (length h)"
  by (simp add: heappush_def)

section \<open>Shared measures and rules\<close>

lemma remaining_decreases:
  "d \<in> set ks \<Longrightarrow> d \<notin> set visited \<Longrightarrow>
     length (filter (\<lambda>k. k \<noteq> d \<and> k \<notin> set visited) ks) < length (filter (\<lambda>k. k \<notin> set visited) ks)"
proof (induction ks)
  case (Cons k ks)
  have "length (filter (\<lambda>k. k \<noteq> d \<and> k \<notin> set visited) ks) \<le> length (filter (\<lambda>k. k \<notin> set visited) ks)"
    by (induction ks) auto
  then show ?case using Cons by (cases "k = d") auto
qed simp

lemma wp_ifI: "(c \<Longrightarrow> wp E Q a) \<Longrightarrow> (\<not> c \<Longrightarrow> wp E Q b) \<Longrightarrow> wp E Q (if c then a else b)"
  by simp

lemma wp_bindI: "wp E P m \<Longrightarrow> (\<And>x. P x \<Longrightarrow> wp E Q (f x)) \<Longrightarrow> wp E Q (rbind m f)"
  by (cases m) simp_all

lemma wp_InrI: "Q x \<Longrightarrow> wp E Q (Inr x)"
  by simp

lemma wp_InlI: "wp (\<lambda>_. True) Q (Inl e)"
  by simp

lemma wp_skipI: "(\<And>x. wp (\<lambda>_. True) Q (f x)) \<Longrightarrow> wp (\<lambda>_. True) Q (rbind m f)"
  by (cases m) simp_all

lemma wp_optionI:
  "(x = None \<Longrightarrow> wp E Q a) \<Longrightarrow> (\<And>y. x = Some y \<Longrightarrow> wp E Q (f y)) \<Longrightarrow>
     wp E Q (case x of None \<Rightarrow> a | Some y \<Rightarrow> f y)"
  by (cases x) simp_all

lemma wp_prodI: "(\<And>a b. x = (a, b) \<Longrightarrow> wp E Q (f a b)) \<Longrightarrow> wp E Q (case x of (a, b) \<Rightarrow> f a b)"
  by (cases x) simp

lemmas wp_rules = wp_InrI wp_InlI wp_ifI wp_optionI wp_prodI wp_skipI

end
