(* ===== verification/TraceModel.thy ===== *)
theory TraceModel
  imports Prelude
begin

text \<open>
  The data model shared by the frontends, the profile binder and the timing engines
  (\<open>src/simulator/model.py\<close> and the JSON objects of a dynamic trace).

  Record fields carry a prefix (\<open>u_\<close> execution uop, \<open>m_\<close> macro-op, \<open>i_\<close> source
  instruction, \<open>s_\<close> semantic uop, \<open>bt_\<close> bound trace, \<open>mr_\<close> memory reference) because
  Isabelle field names are global.  \<open>int | None\<close> is \<open>int option\<close>; a \<open>set[str]\<close> is the list
  of its elements in iteration order, so that every theorem holds for every such order.
\<close>

section \<open>JSON values\<close>

text \<open>\<open>JFloat m k\<close> is the number whose decimal representation is \<open>m\<close> times ten to \<open>-k\<close>.\<close>

datatype json =
    JNull
  | JBool bool
  | JInt int
  | JFloat int nat
  | JStr string
  | JList "json list"
  | JObj "(string \<times> json) list"

section \<open>Source instructions\<close>

record mem_ref =
  mr_address :: int
  mr_region :: string
  mr_offset :: int
  mr_bytes :: int
  mr_cache_lines :: "int list"
  mr_access :: string
  mr_address_registers :: "string list"
  mr_flow_index :: "int option"
  mr_flow_count :: "int option"

record semantic_uop =
  s_local_id :: string
  s_kind :: string
  s_depends_on_local :: "string list"
  s_reads_old_destination :: bool
  s_old_destination_registers :: "string list option"

record vector_state =
  vs_vlen_bits :: int
  vs_sew_bits :: "int option"
  vs_lmul :: "string option"
  vs_vlmax :: "int option"
  vs_vl :: "int option"
  vs_tail_policy :: "string option"
  vs_mask_policy :: "string option"

record instruction =
  i_id :: string
  i_sequence :: int
  i_static_index :: int
  i_source_line :: int
  i_mnemonic :: string
  i_form :: string
  i_operands :: "string list"
  i_assembly :: string
  i_register_reads :: "string list"
  i_register_writes :: "string list"
  i_depends_on_instructions :: "string list"
  i_register_dependencies :: "(string, string) dict"
  i_flags_dependency :: "string option"
  i_memory_dependencies :: "string list"
  i_memory :: "mem_ref option"
  i_semantic_uops :: "semantic_uop list"
  i_old_destination_registers :: "string list option"
  i_old_destination_dependencies :: "(string, string) dict option"
  i_vector_destination_registers :: "string list option"
  i_vector_destination_dependencies :: "(string, string) dict option"
  i_vector_state :: "vector_state option"
  i_active_vector_bits :: "int option"

section \<open>Bound traces\<close>

definition VECTOR_RESOURCE_KINDS :: "string list" where
  "VECTOR_RESOURCE_KINDS =
     [''vector_fp'', ''vector_integer'', ''conversion'', ''shuffle'', ''vector_control'',
      ''vector_divide'']"

record execution_uop =
  u_id :: string
  u_sequence :: int
  u_parent_id :: string
  u_parent_sequence :: int
  u_mnemonic :: string
  u_assembly :: string
  u_semantic_kinds :: "string list"
  u_kind :: string
  u_scheduling_class :: string
  u_part_index :: "int option"
  u_latency_ticks :: int
  u_issue_interval_ticks :: int
  u_occupancy_ticks :: int
  u_resource_choices :: "string list"
  u_issue_domains :: "string list"
  u_issue_domain_demands :: "(string, int) dict"
  u_rename_allocations :: "(string, int) dict"
  u_scheduler_partition_choices :: "string list"
  u_execution_unit_choices :: "string list"
  u_requires_completion_token :: bool
  u_requires_vector_read_token :: bool
  u_part_count :: "int option"
  u_semantic_ids :: "string list"
  u_dependencies :: "string list"
  u_vector_state_dependencies :: "string list"
  u_old_destination_dependencies :: "string list"
  u_requires_vector_state :: bool
  u_reads_old_destination :: bool
  u_issue_after_uop :: "string option"
  u_issue_gap_ticks :: int
  u_memory :: "mem_ref option"
  u_dispatch_tick :: "int option"
  u_ready_tick :: "int option"
  u_issue_tick :: "int option"
  u_complete_tick :: "int option"
  u_resource :: "string option"
  u_resource_lane :: "nat option"
  u_scheduler_partition :: "string option"
  u_execution_unit :: "string option"
  u_vector_read_domain :: "string option"
  u_completion_domain :: "string option"
  u_memory_level :: "string option"
  u_stall_reason :: "string option"
  u_stall_reasons :: "(string, int) dict"

record macro_op =
  m_id :: string
  m_sequence :: int
  m_mnemonic :: string
  m_assembly :: string
  m_uop_ids :: "string list"
  m_decoded_macro_ops :: int
  m_retire_macro_ops :: int
  m_uses_vector_scheduler :: bool
  m_uses_load_queue :: bool
  m_uses_store_queue :: bool
  m_dispatch_domains :: "string list"
  m_dispatch_domain_demands :: "(string, int) dict"
  m_rename_allocations :: "(string, int) dict"
  m_dispatch_units :: "int option"
  m_rob_entries :: "int option"
  m_dispatch_tick :: "int option"
  m_complete_tick :: "int option"
  m_retire_tick :: "int option"
  m_dispatch_blocker :: "string option"
  m_dispatch_blocker_domain :: "string option"
  m_dispatch_blocker_count :: int

definition dispatch_width_units :: "macro_op \<Rightarrow> int" where
  "dispatch_width_units m =
     (case m_dispatch_units m of None \<Rightarrow> m_decoded_macro_ops m | Some n \<Rightarrow> n)"

definition rob_entry_count :: "macro_op \<Rightarrow> int" where
  "rob_entry_count m =
     (case m_rob_entries m of None \<Rightarrow> m_decoded_macro_ops m | Some n \<Rightarrow> n)"

record resource =
  r_id :: string
  r_capacity :: nat
  r_bytes_per_cycle :: "int option"

record bound_trace =
  bt_trace_version :: int
  bt_profile_id :: string
  bt_profile_sha256 :: string
  bt_ticks_per_cycle :: int
  bt_macros :: "macro_op list"
  bt_uops :: "execution_uop list"
  bt_resources :: "(string, resource) dict"
  bt_workload :: json
  bt_source_trace :: "instruction list"

text \<open>A reference that Python tests for truth: \<open>None\<close> and the empty string count as absent.\<close>

definition truthy :: "string option \<Rightarrow> string option" where
  "truthy r = (if r = Some '''' then None else r)"

section \<open>Neutral records for examples\<close>

definition blank_uop :: execution_uop where
  "blank_uop =
     \<lparr>u_id = ''u'', u_sequence = 0, u_parent_id = ''i'', u_parent_sequence = 0,
      u_mnemonic = ''op'', u_assembly = ''op'', u_semantic_kinds = [], u_kind = ''scalar_alu'',
      u_scheduling_class = ''op:alu'', u_part_index = None, u_latency_ticks = 1,
      u_issue_interval_ticks = 0, u_occupancy_ticks = 1, u_resource_choices = [],
      u_issue_domains = [], u_issue_domain_demands = [], u_rename_allocations = [],
      u_scheduler_partition_choices = [], u_execution_unit_choices = [],
      u_requires_completion_token = False, u_requires_vector_read_token = False,
      u_part_count = None, u_semantic_ids = [], u_dependencies = [],
      u_vector_state_dependencies = [], u_old_destination_dependencies = [],
      u_requires_vector_state = False, u_reads_old_destination = False,
      u_issue_after_uop = None, u_issue_gap_ticks = 0, u_memory = None,
      u_dispatch_tick = None, u_ready_tick = None, u_issue_tick = None,
      u_complete_tick = None, u_resource = None, u_resource_lane = None,
      u_scheduler_partition = None, u_execution_unit = None, u_vector_read_domain = None,
      u_completion_domain = None, u_memory_level = None, u_stall_reason = None,
      u_stall_reasons = []\<rparr>"

definition blank_macro :: macro_op where
  "blank_macro =
     \<lparr>m_id = ''i'', m_sequence = 0, m_mnemonic = ''op'', m_assembly = ''op'',
      m_uop_ids = [], m_decoded_macro_ops = 1, m_retire_macro_ops = 1,
      m_uses_vector_scheduler = False, m_uses_load_queue = False, m_uses_store_queue = False,
      m_dispatch_domains = [], m_dispatch_domain_demands = [], m_rename_allocations = [],
      m_dispatch_units = None, m_rob_entries = None, m_dispatch_tick = None,
      m_complete_tick = None, m_retire_tick = None, m_dispatch_blocker = None,
      m_dispatch_blocker_domain = None, m_dispatch_blocker_count = 0\<rparr>"

definition blank_instruction :: instruction where
  "blank_instruction =
     \<lparr>i_id = ''i'', i_sequence = 0, i_static_index = 0, i_source_line = 1, i_mnemonic = ''op'',
      i_form = ''op'', i_operands = [], i_assembly = ''op'', i_register_reads = [],
      i_register_writes = [], i_depends_on_instructions = [], i_register_dependencies = [],
      i_flags_dependency = None, i_memory_dependencies = [], i_memory = None,
      i_semantic_uops = [], i_old_destination_registers = None,
      i_old_destination_dependencies = None, i_vector_destination_registers = None,
      i_vector_destination_dependencies = None, i_vector_state = None,
      i_active_vector_bits = None\<rparr>"

end
