(* ===== verification/TraceCheck.thy ===== *)
theory TraceCheck
  imports TraceModel
begin

text \<open>
  \<open>src/simulator/trace.py\<close>: \<open>validate_bound_trace\<close>, the gate every engine passes a bound
  trace through before it simulates it.  The macro-op loop, the execution-uop loop (which also
  counts in-degrees and collects consumers) and the final topological sweep are one function
  each.  The \<open>isinstance\<close> tests of the source are the types of the records here; the value
  tests are kept.  The main result is that the validator accepts exactly the well-formed traces,
  acyclicity of the dependency graph included.
\<close>

datatype trace_error =
    DuplicateMacroId
  | DuplicateUopId
  | InvalidCount string string int
  | DuplicateDispatchDomains string
  | UnlistedDispatchDemands string
  | InvalidDispatchDemand string string int
  | InvalidMacroRename string string int
  | MacroWithoutUops string
  | UnknownUop string string
  | ParentMismatch string
  | OrphanUops
  | UnknownParent string
  | VectorStateOutsideDependencies string
  | OldDestinationOutsideDependencies string
  | UnlistedIssueDemands string
  | DuplicatePartitionChoices string
  | DuplicateUnitChoices string
  | PartCountWithoutIndex string
  | InvalidPartIndex string int int
  | InvalidIssueDemand string string int
  | InvalidUopRename string string int
  | UnknownResource string string
  | UnknownDependency string string
  | UnknownIssuePredecessor string string
  | DependencyCycle
  | TraceKeyError string

section \<open>Macro-ops\<close>

definition uop_dict :: "bound_trace \<Rightarrow> (string, execution_uop) dict" where
  "uop_dict t = map (\<lambda>u. (u_id u, u)) (bt_uops t)"

definition macro_counts :: "macro_op \<Rightarrow> (string \<times> int) list" where
  "macro_counts m =
     [(''decoded_macro_ops'', m_decoded_macro_ops m),
      (''dispatch_units'', dispatch_width_units m),
      (''rob_entries'', rob_entry_count m),
      (''retire_macro_ops'', m_retire_macro_ops m)]"

definition check_macro :: "(string, execution_uop) dict \<Rightarrow> macro_op \<Rightarrow> trace_error + unit" where
  "check_macro uops m =
     rbind (rall (\<lambda>(name, count). rguard (\<not> count < 1) (InvalidCount (m_id m) name count))
       (macro_counts m)) (\<lambda>_.
     rbind (rguard (distinct (m_dispatch_domains m)) (DuplicateDispatchDomains (m_id m))) (\<lambda>_.
     rbind (rguard (set (keys (m_dispatch_domain_demands m)) \<subseteq> set (m_dispatch_domains m))
       (UnlistedDispatchDemands (m_id m))) (\<lambda>_.
     rbind (rall (\<lambda>(domain_id, demand).
         rguard (\<not> demand < 1) (InvalidDispatchDemand (m_id m) domain_id demand))
       (m_dispatch_domain_demands m)) (\<lambda>_.
     rbind (rall (\<lambda>(name, demand).
         rguard (\<not> demand < 1) (InvalidMacroRename (m_id m) name demand))
       (m_rename_allocations m)) (\<lambda>_.
     rbind (rguard (m_uop_ids m \<noteq> []) (MacroWithoutUops (m_id m))) (\<lambda>_.
     rall (\<lambda>uop_id. case map_of uops uop_id of
         None \<Rightarrow> Inl (UnknownUop (m_id m) uop_id)
       | Some u \<Rightarrow> rguard (u_parent_id u = m_id m) (ParentMismatch uop_id))
       (m_uop_ids m)))))))"

section \<open>Execution uops and the dependency graph\<close>

type_synonym graph = "(string, int) dict \<times> (string, string list) dict"

definition check_uop_fields :: "string list \<Rightarrow> execution_uop \<Rightarrow> trace_error + unit" where
  "check_uop_fields macro_ids u =
     rbind (rguard (u_parent_id u \<in> set macro_ids) (UnknownParent (u_parent_id u))) (\<lambda>_.
     rbind (rguard (set (u_vector_state_dependencies u) \<subseteq> set (u_dependencies u))
       (VectorStateOutsideDependencies (u_id u))) (\<lambda>_.
     rbind (rguard (set (u_old_destination_dependencies u) \<subseteq> set (u_dependencies u))
       (OldDestinationOutsideDependencies (u_id u))) (\<lambda>_.
     rbind (rguard (set (keys (u_issue_domain_demands u)) \<subseteq> set (u_issue_domains u))
       (UnlistedIssueDemands (u_id u))) (\<lambda>_.
     rbind (rguard (distinct (u_scheduler_partition_choices u))
       (DuplicatePartitionChoices (u_id u))) (\<lambda>_.
     rbind (rguard (distinct (u_execution_unit_choices u)) (DuplicateUnitChoices (u_id u))) (\<lambda>_.
     rbind (rguard (\<not> (u_part_count u \<noteq> None \<and> u_part_index u = None))
       (PartCountWithoutIndex (u_id u))) (\<lambda>_.
     rbind (case (u_part_index u, u_part_count u) of
         (Some i, Some n) \<Rightarrow> rguard (0 \<le> i \<and> i < n) (InvalidPartIndex (u_id u) i n)
       | _ \<Rightarrow> Inr ()) (\<lambda>_.
     rbind (rall (\<lambda>(domain_id, demand).
         rguard (\<not> demand < 1) (InvalidIssueDemand (u_id u) domain_id demand))
       (u_issue_domain_demands u)) (\<lambda>_.
     rall (\<lambda>(name, demand). rguard (\<not> demand < 1) (InvalidUopRename (u_id u) name demand))
       (u_rename_allocations u))))))))))"

definition add_dependency ::
  "(string, execution_uop) dict \<Rightarrow> string \<Rightarrow> string \<Rightarrow> graph \<Rightarrow> trace_error + graph" where
  "add_dependency uops uid dependency g =
     (case g of (indegree, consumers) \<Rightarrow>
       rbind (rguard (dependency \<in> set (keys uops)) (UnknownDependency uid dependency)) (\<lambda>_.
       rbind (fetch TraceKeyError indegree uid) (\<lambda>n.
       rbind (fetch TraceKeyError consumers dependency) (\<lambda>cs.
       Inr (AList.update uid (n + 1) indegree,
            AList.update dependency (cs @ [uid]) consumers)))))"

definition check_uop ::
  "bound_trace \<Rightarrow> execution_uop \<Rightarrow> graph \<Rightarrow> trace_error + graph" where
  "check_uop t u g =
     rbind (check_uop_fields (map m_id (bt_macros t)) u) (\<lambda>_.
     rbind (rall (\<lambda>r. rguard (r \<in> set (keys (bt_resources t))) (UnknownResource (u_id u) r))
       (u_resource_choices u)) (\<lambda>_.
     rbind (rfold (\<lambda>d. add_dependency (uop_dict t) (u_id u) d) (u_dependencies u) g) (\<lambda>g'.
     rbind (case truthy (u_issue_after_uop u) of
         None \<Rightarrow> Inr ()
       | Some p \<Rightarrow> rguard (p \<in> set (keys (uop_dict t))) (UnknownIssuePredecessor (u_id u) p)) (\<lambda>_.
     Inr g'))))"

section \<open>The topological sweep\<close>

definition relax :: "string \<Rightarrow> (string, int) dict \<times> string list
    \<Rightarrow> trace_error + (string, int) dict \<times> string list" where
  "relax consumer st =
     (case st of (indegree, ready) \<Rightarrow>
       rbind (fetch TraceKeyError indegree consumer) (\<lambda>n.
       Inr (AList.update consumer (n - 1) indegree,
            if n - 1 = 0 then ready @ [consumer] else ready)))"

definition positive :: "(string, int) dict \<Rightarrow> nat" where
  "positive indegree = length (filter (\<lambda>(k, n). 0 < n) indegree)"

lemma positive_update:
  "map_of d k = Some n \<Longrightarrow> 0 < n \<Longrightarrow>
     (if n = 1 then Suc (positive (AList.update k (n - 1) d)) = positive d
      else positive (AList.update k (n - 1) d) = positive d)"
  by (induction d) (auto simp: positive_def split: if_splits)

lemma positive_update_nonpos:
  "map_of d k = Some n \<Longrightarrow> \<not> 0 < n \<Longrightarrow> positive (AList.update k (n - 1) d) = positive d"
  by (induction d) (auto simp: positive_def split: if_splits)

lemma positive_pos: "map_of d k = Some n \<Longrightarrow> 0 < n \<Longrightarrow> 0 < positive d"
  by (induction d) (auto simp: positive_def split: if_splits)

lemma relax_measure:
  assumes "relax c (d, r) = Inr (d', r')"
  shows "2 * positive d' + length r' \<le> 2 * positive d + length r"
proof -
  obtain n where n: "map_of d c = Some n" and d': "d' = AList.update c (n - 1) d"
    and r': "r' = (if n - 1 = 0 then r @ [c] else r)"
    using assms by (auto simp: relax_def rbind_eq_Inr_iff)
  show ?thesis
    using n d' r' positive_update [OF n] positive_update_nonpos [OF n]
    by (cases "0 < n") (auto split: if_splits)
qed

lemma rfold_relax_measure:
  "rfold relax cs (d, r) = Inr (d', r') \<Longrightarrow>
     2 * positive d' + length r' \<le> 2 * positive d + length r"
proof (induction cs arbitrary: d r)
  case (Cons c cs)
  then obtain d1 r1 where 1: "relax c (d, r) = Inr (d1, r1)"
    and 2: "rfold relax cs (d1, r1) = Inr (d', r')"
    by (auto simp: rbind_eq_Inr_iff)
  show ?case using relax_measure [OF 1] Cons.IH [OF 2] by simp
qed simp

function sweep :: "(string, string list) dict \<Rightarrow> (string, int) dict \<Rightarrow> string list \<Rightarrow> nat
    \<Rightarrow> trace_error + nat" where
  "sweep consumers indegree [] visited = Inr visited"
| "sweep consumers indegree (producer # ready) visited =
     rbind (fetch TraceKeyError consumers producer) (\<lambda>cs.
     rbind (rfold relax cs (indegree, ready)) (\<lambda>(indegree', ready').
       sweep consumers indegree' ready' (Suc visited)))"
  by pat_completeness auto
termination
proof (relation "measure (\<lambda>(c, d, r, v). 2 * positive d + length r)", goal_cases)
  case (2 consumers indegree producer ready visited cs p d' r')
  then show ?case using rfold_relax_measure [of cs indegree ready d' r'] by auto
qed auto

definition validate_bound_trace :: "bound_trace \<Rightarrow> trace_error + unit" where
  "validate_bound_trace t =
     rbind (rguard (distinct (map m_id (bt_macros t))) DuplicateMacroId) (\<lambda>_.
     rbind (rguard (distinct (map u_id (bt_uops t))) DuplicateUopId) (\<lambda>_.
     rbind (rall (check_macro (uop_dict t)) (bt_macros t)) (\<lambda>_.
     rbind (rguard (set (concat (map m_uop_ids (bt_macros t))) = set (keys (uop_dict t)))
       OrphanUops) (\<lambda>_.
     rbind (rfold (check_uop t) (bt_uops t)
       (map (\<lambda>i. (i, 0)) (keys (uop_dict t)), map (\<lambda>i. (i, [])) (keys (uop_dict t))))
       (\<lambda>(indegree, consumers).
     rbind (sweep consumers indegree
         (sort (map fst (filter (\<lambda>(i, degree). degree = 0) indegree))) 0) (\<lambda>visited.
     rguard (visited = length (keys (uop_dict t))) DependencyCycle))))))"

section \<open>The sweep is Kahn's algorithm\<close>

text \<open>
  \<open>graph_of\<close> describes the dictionaries the uop loop builds: \<open>deps\<close> lists the dependencies
  of a node, the in-degree is their number and the consumer list of \<open>d\<close> holds \<open>i\<close> as often
  as \<open>i\<close> depends on \<open>d\<close>.  \<open>sweep_inv\<close> is the loop invariant, with \<open>p\<close> the
  producers visited so far.
\<close>

definition consumers_of ::
  "string set \<Rightarrow> (string \<Rightarrow> string list) \<Rightarrow> (string, string list) dict \<Rightarrow> bool" where
  "consumers_of nodes deps consumers \<longleftrightarrow>
     (\<forall>d\<in>nodes. \<exists>cs. map_of consumers d = Some cs \<and> set cs \<subseteq> nodes \<and>
        (\<forall>i\<in>nodes. count_list cs i = count_list (deps i) d))"

definition sweep_inv :: "string set \<Rightarrow> (string \<Rightarrow> string list) \<Rightarrow> string list \<Rightarrow> string list
    \<Rightarrow> (string, int) dict \<Rightarrow> bool" where
  "sweep_inv nodes deps p ready indegree \<longleftrightarrow>
     distinct (p @ ready) \<and> set (p @ ready) \<subseteq> nodes \<and>
     (\<forall>i\<in>nodes. map_of indegree i = Some (int (length (filter (\<lambda>d. d \<notin> set p) (deps i))))) \<and>
     (\<forall>i\<in>nodes. i \<in> set (p @ ready) \<longleftrightarrow> set (deps i) \<subseteq> set p) \<and>
     (\<forall>k<length p. set (deps (p ! k)) \<subseteq> set (take k p))"

lemma filter_new_length:
  "x \<notin> set p \<Longrightarrow> length (filter (\<lambda>d. d \<notin> set p) ds) =
     length (filter (\<lambda>d. d \<notin> set (p @ [x])) ds) + count_list ds x"
  by (induction ds) auto

lemma relax_all:
  assumes "\<forall>c\<in>set cs. \<exists>n. map_of ind c = Some n \<and> int (count_list cs c) \<le> n"
  shows "\<exists>ind' new. rfold relax cs (ind, ready) = Inr (ind', ready @ new) \<and> distinct new \<and>
     set new = {c \<in> set cs. map_of ind c = Some (int (count_list cs c))} \<and>
     (\<forall>i. map_of ind' i = map_option (\<lambda>n. n - int (count_list cs i)) (map_of ind i))"
  using assms
proof (induction cs arbitrary: ind ready)
  case Nil
  show ?case by (auto simp: option.map_ident)
next
  case (Cons c cs)
  obtain n where n: "map_of ind c = Some n" "int (count_list cs c) + 1 \<le> n"
    using Cons.prems by auto
  define ind1 where "ind1 = AList.update c (n - 1) ind"
  define ready1 where "ready1 = (if n - 1 = 0 then ready @ [c] else ready)"
  have step: "relax c (ind, ready) = Inr (ind1, ready1)"
    by (simp add: relax_def fetch_def n ind1_def ready1_def)
  have pre: "\<forall>c'\<in>set cs. \<exists>m. map_of ind1 c' = Some m \<and> int (count_list cs c') \<le> m"
    using Cons.prems n by (force simp: ind1_def)
  obtain ind' new where IH: "rfold relax cs (ind1, ready1) = Inr (ind', ready1 @ new)"
    "distinct new" "set new = {c' \<in> set cs. map_of ind1 c' = Some (int (count_list cs c'))}"
    "\<forall>i. map_of ind' i = map_option (\<lambda>n. n - int (count_list cs i)) (map_of ind1 i)"
    using Cons.IH [OF pre] by blast
  define new' where "new' = (if n - 1 = 0 then c # new else new)"
  have zero: "c \<notin> set cs" if "n - 1 = 0" using n that by (simp add: count_list_0_iff)
  have count_pos: "c \<in> set cs" if "0 < count_list cs c"
    using that by (metis count_notin less_irrefl)
  have "rfold relax (c # cs) (ind, ready) = Inr (ind', ready @ new')"
    using IH(1) by (simp add: step new'_def ready1_def split: if_splits)
  moreover have "distinct new'" using IH zero by (auto simp: new'_def)
  moreover have "set new' = {c' \<in> set (c # cs).
      map_of ind c' = Some (int (count_list (c # cs) c'))}"
    using zero n count_pos by (auto simp: new'_def IH ind1_def split: if_splits)
  moreover have "\<forall>i. map_of ind' i =
      map_option (\<lambda>n. n - int (count_list (c # cs) i)) (map_of ind i)"
    using n by (auto simp: IH ind1_def option.map_comp o_def)
  ultimately show ?case by blast
qed

lemma sweep_inv_step:
  assumes inv: "sweep_inv nodes deps p (x # ready) ind"
    and cons: "consumers_of nodes deps consumers"
  shows "\<exists>cs ind' new. map_of consumers x = Some cs \<and>
     rfold relax cs (ind, ready) = Inr (ind', ready @ new) \<and>
     sweep_inv nodes deps (p @ [x]) (ready @ new) ind'"
proof -
  have x: "x \<in> nodes" "x \<notin> set p" and dist: "distinct (p @ x # ready)"
    and sub: "set (p @ x # ready) \<subseteq> nodes"
    and ind: "\<And>i. i \<in> nodes \<Longrightarrow>
      map_of ind i = Some (int (length (filter (\<lambda>d. d \<notin> set p) (deps i))))"
    and rdy: "\<And>i. i \<in> nodes \<Longrightarrow> i \<in> set (p @ x # ready) \<longleftrightarrow> set (deps i) \<subseteq> set p"
    and topo: "\<And>k. k < length p \<Longrightarrow> set (deps (p ! k)) \<subseteq> set (take k p)"
    using inv by (auto simp: sweep_inv_def)
  obtain cs where cs: "map_of consumers x = Some cs" "set cs \<subseteq> nodes"
    "\<And>i. i \<in> nodes \<Longrightarrow> count_list cs i = count_list (deps i) x"
    using cons x by (auto simp: consumers_of_def)
  define rest where "rest i = length (filter (\<lambda>d. d \<notin> set (p @ [x])) (deps i))" for i
  have ind2: "map_of ind i = Some (int (rest i) + int (count_list cs i))" if "i \<in> nodes" for i
    using ind [OF that] cs(3) [OF that] filter_new_length [OF x(2), of "deps i"]
    by (simp add: rest_def)
  have pre: "\<forall>c\<in>set cs. \<exists>n. map_of ind c = Some n \<and> int (count_list cs c) \<le> n"
    using cs(2) ind2 by fastforce
  obtain ind' new where new: "rfold relax cs (ind, ready) = Inr (ind', ready @ new)"
    "distinct new" "set new = {c \<in> set cs. map_of ind c = Some (int (count_list cs c))}"
    "\<forall>i. map_of ind' i = map_option (\<lambda>n. n - int (count_list cs i)) (map_of ind i)"
    using relax_all [OF pre] by blast
  have rest0: "rest i = 0 \<longleftrightarrow> set (deps i) \<subseteq> set (p @ [x])" for i
    by (auto simp: rest_def filter_empty_conv)
  have set_new: "set new = {i \<in> nodes. x \<in> set (deps i) \<and> set (deps i) \<subseteq> set (p @ [x])}"
  proof -
    have mem: "i \<in> set cs \<longleftrightarrow> x \<in> set (deps i)" if "i \<in> nodes" for i
      using cs(3) [OF that] count_list_0_iff [of cs i] count_list_0_iff [of "deps i" x] by simp
    have "map_of ind i = Some (int (count_list cs i)) \<longleftrightarrow> set (deps i) \<subseteq> set (p @ [x])"
      if "i \<in> nodes" for i
      using ind2 [OF that] rest0 [of i] by simp
    with mem cs(2) show ?thesis unfolding new(3) by blast
  qed
  have fresh: "set new \<inter> set (p @ x # ready) = {}"
    using set_new rdy x(2) by auto
  have "sweep_inv nodes deps (p @ [x]) (ready @ new) ind'"
    unfolding sweep_inv_def
  proof (intro conjI ballI allI impI)
    show "distinct ((p @ [x]) @ ready @ new)" using dist new(2) fresh by auto
    show "set ((p @ [x]) @ ready @ new) \<subseteq> nodes" using sub set_new by auto
    fix i assume i: "i \<in> nodes"
    show "map_of ind' i = Some (int (length (filter (\<lambda>d. d \<notin> set (p @ [x])) (deps i))))"
      using ind2 [OF i] new(4) by (simp add: rest_def)
    show "i \<in> set ((p @ [x]) @ ready @ new) \<longleftrightarrow> set (deps i) \<subseteq> set (p @ [x])"
      using rdy [OF i] set_new i by auto
  next
    fix k assume "k < length (p @ [x])"
    then show "set (deps ((p @ [x]) ! k)) \<subseteq> set (take k (p @ [x]))"
      using topo rdy [OF x(1)] by (auto simp: nth_append less_Suc_eq)
  qed
  then show ?thesis using cs new by blast
qed

lemma sweep_runs:
  assumes "sweep_inv nodes deps p ready ind" and "consumers_of nodes deps consumers"
    and "v = length p"
  shows "\<exists>p' ind'. sweep consumers ind ready v = Inr (length p') \<and>
     sweep_inv nodes deps p' [] ind'"
  using assms
proof (induction consumers ind ready v arbitrary: p rule: sweep.induct)
  case (1 consumers ind v)
  then show ?case by auto
next
  case (2 consumers ind x ready v)
  obtain cs ind' new where step: "map_of consumers x = Some cs"
    "rfold relax cs (ind, ready) = Inr (ind', ready @ new)"
    "sweep_inv nodes deps (p @ [x]) (ready @ new) ind'"
    using sweep_inv_step [OF "2.prems"(1,2)] by blast
  have "\<exists>p' ind''. sweep consumers ind' (ready @ new) (Suc v) = Inr (length p') \<and>
     sweep_inv nodes deps p' [] ind''"
    using step "2.prems" by (intro "2.IH" [of cs _ ind' "ready @ new" "p @ [x]"]) auto
  with step show ?case by (simp add: fetch_def)
qed

definition depends :: "string set \<Rightarrow> (string \<Rightarrow> string list) \<Rightarrow> (string \<times> string) set" where
  "depends nodes deps = {(d, i). i \<in> nodes \<and> d \<in> set (deps i)}"

lemma topological_acyclic:
  assumes all: "set p = nodes" and topo: "\<forall>k<length p. set (deps (p ! k)) \<subseteq> set (take k p)"
    and dist: "distinct p"
  shows "acyclic (depends nodes deps)"
proof -
  define rank where "rank i = (THE k. k < length p \<and> p ! k = i)" for i
  have rank: "rank (p ! k) = k" if "k < length p" for k
    unfolding rank_def using that dist by (auto simp: nth_eq_iff_index_eq)
  have "depends nodes deps \<subseteq> measure rank"
  proof
    fix e assume "e \<in> depends nodes deps"
    then obtain d i where e: "e = (d, i)" "i \<in> set p" "d \<in> set (deps i)"
      by (auto simp: depends_def all)
    then obtain k where k: "k < length p" "p ! k = i" by (auto simp: in_set_conv_nth)
    then have "d \<in> set (take k p)" using topo e by blast
    then obtain j where "j < k" "p ! j = d" using k by (auto simp: in_set_conv_nth)
    then show "e \<in> measure rank" using k rank [of j] rank [of k] e by simp
  qed
  then show ?thesis by (meson acyclic_subset wf_acyclic wf_measure)
qed

lemma acyclic_all_visited:
  assumes inv: "sweep_inv nodes deps p [] ind" and fin: "finite nodes"
    and closed: "\<And>i. i \<in> nodes \<Longrightarrow> set (deps i) \<subseteq> nodes"
    and acyc: "acyclic (depends nodes deps)"
  shows "set p = nodes"
proof (rule ccontr)
  assume neq: "set p \<noteq> nodes"
  have sub: "set p \<subseteq> nodes" using inv by (simp add: sweep_inv_def)
  have "depends nodes deps \<subseteq> nodes \<times> nodes" using closed by (auto simp: depends_def)
  then have "finite (depends nodes deps)" using fin finite_subset by blast
  then have "wf (depends nodes deps)" using acyc by (rule finite_acyclic_wf)
  moreover obtain z where "z \<in> nodes - set p" using neq sub by auto
  ultimately obtain i where i: "i \<in> nodes - set p"
    and least: "\<And>d. (d, i) \<in> depends nodes deps \<Longrightarrow> d \<notin> nodes - set p"
    using wfE_min [of "depends nodes deps" z "nodes - set p"] by blast
  have "set (deps i) \<subseteq> set p" using least i closed by (auto simp: depends_def)
  then show False using inv i by (auto simp: sweep_inv_def)
qed

section \<open>What the validator accepts\<close>

definition macro_well_formed :: "bound_trace \<Rightarrow> macro_op \<Rightarrow> bool" where
  "macro_well_formed t m \<longleftrightarrow>
     1 \<le> m_decoded_macro_ops m \<and> 1 \<le> dispatch_width_units m \<and> 1 \<le> rob_entry_count m \<and>
     1 \<le> m_retire_macro_ops m \<and>
     distinct (m_dispatch_domains m) \<and>
     set (keys (m_dispatch_domain_demands m)) \<subseteq> set (m_dispatch_domains m) \<and>
     (\<forall>d\<in>set (m_dispatch_domain_demands m). 1 \<le> snd d) \<and>
     (\<forall>d\<in>set (m_rename_allocations m). 1 \<le> snd d) \<and>
     m_uop_ids m \<noteq> [] \<and>
     (\<forall>i\<in>set (m_uop_ids m). \<exists>u. map_of (uop_dict t) i = Some u \<and> u_parent_id u = m_id m)"

definition uop_well_formed :: "bound_trace \<Rightarrow> execution_uop \<Rightarrow> bool" where
  "uop_well_formed t u \<longleftrightarrow>
     u_parent_id u \<in> set (map m_id (bt_macros t)) \<and>
     set (u_vector_state_dependencies u) \<subseteq> set (u_dependencies u) \<and>
     set (u_old_destination_dependencies u) \<subseteq> set (u_dependencies u) \<and>
     set (keys (u_issue_domain_demands u)) \<subseteq> set (u_issue_domains u) \<and>
     distinct (u_scheduler_partition_choices u) \<and> distinct (u_execution_unit_choices u) \<and>
     (u_part_count u \<noteq> None \<longrightarrow> u_part_index u \<noteq> None) \<and>
     (\<forall>i n. u_part_index u = Some i \<longrightarrow> u_part_count u = Some n \<longrightarrow> 0 \<le> i \<and> i < n) \<and>
     (\<forall>d\<in>set (u_issue_domain_demands u). 1 \<le> snd d) \<and>
     (\<forall>d\<in>set (u_rename_allocations u). 1 \<le> snd d) \<and>
     set (u_resource_choices u) \<subseteq> set (keys (bt_resources t)) \<and>
     set (u_dependencies u) \<subseteq> set (map u_id (bt_uops t)) \<and>
     (\<forall>p. truthy (u_issue_after_uop u) = Some p \<longrightarrow> p \<in> set (map u_id (bt_uops t)))"

definition dependency_edges :: "bound_trace \<Rightarrow> (string \<times> string) set" where
  "dependency_edges t = {(d, u_id u) | d u. u \<in> set (bt_uops t) \<and> d \<in> set (u_dependencies u)}"

definition well_formed_trace :: "bound_trace \<Rightarrow> bool" where
  "well_formed_trace t \<longleftrightarrow>
     distinct (map m_id (bt_macros t)) \<and> distinct (map u_id (bt_uops t)) \<and>
     (\<forall>m\<in>set (bt_macros t). macro_well_formed t m) \<and>
     (\<Union>m\<in>set (bt_macros t). set (m_uop_ids m)) = u_id ` set (bt_uops t) \<and>
     (\<forall>u\<in>set (bt_uops t). uop_well_formed t u) \<and>
     acyclic (dependency_edges t)"

lemma keys_uop_dict [simp]: "keys (uop_dict t) = map u_id (bt_uops t)"
  by (simp add: keys_def uop_dict_def)

lemma check_macro_iff: "check_macro (uop_dict t) m = Inr () \<longleftrightarrow> macro_well_formed t m"
proof -
  have "(case map_of (uop_dict t) i of None \<Rightarrow> Inl (UnknownUop (m_id m) i)
       | Some u \<Rightarrow> rguard (u_parent_id u = m_id m) (ParentMismatch i)) = Inr () \<longleftrightarrow>
      (\<exists>u. map_of (uop_dict t) i = Some u \<and> u_parent_id u = m_id m)" for i
    by (simp split: option.split)
  then show ?thesis
    unfolding check_macro_def macro_well_formed_def
    by (simp add: macro_counts_def rbind_eq_Inr_iff case_prod_unfold not_less)
qed

lemma check_uop_fields_iff:
  "check_uop_fields ids u = Inr () \<longleftrightarrow>
     u_parent_id u \<in> set ids \<and>
     set (u_vector_state_dependencies u) \<subseteq> set (u_dependencies u) \<and>
     set (u_old_destination_dependencies u) \<subseteq> set (u_dependencies u) \<and>
     set (keys (u_issue_domain_demands u)) \<subseteq> set (u_issue_domains u) \<and>
     distinct (u_scheduler_partition_choices u) \<and> distinct (u_execution_unit_choices u) \<and>
     (u_part_count u \<noteq> None \<longrightarrow> u_part_index u \<noteq> None) \<and>
     (\<forall>i n. u_part_index u = Some i \<longrightarrow> u_part_count u = Some n \<longrightarrow> 0 \<le> i \<and> i < n) \<and>
     (\<forall>d\<in>set (u_issue_domain_demands u). 1 \<le> snd d) \<and>
     (\<forall>d\<in>set (u_rename_allocations u). 1 \<le> snd d)"
  unfolding check_uop_fields_def
  by (simp add: rbind_eq_Inr_iff case_prod_unfold not_less split: option.split)

definition deps_of :: "bound_trace \<Rightarrow> string \<Rightarrow> string list" where
  "deps_of t i = (case map_of (uop_dict t) i of None \<Rightarrow> [] | Some u \<Rightarrow> u_dependencies u)"

definition graph_inv :: "bound_trace \<Rightarrow> string set \<Rightarrow> graph \<Rightarrow> bool" where
  "graph_inv t seen g \<longleftrightarrow>
     (\<forall>i. map_of (fst g) i = (if i \<in> u_id ` set (bt_uops t)
        then Some (if i \<in> seen then int (length (deps_of t i)) else 0) else None)) \<and>
     (\<forall>d\<in>u_id ` set (bt_uops t). \<exists>cs. map_of (snd g) d = Some cs \<and>
        set cs \<subseteq> u_id ` set (bt_uops t) \<and>
        (\<forall>i. count_list cs i = (if i \<in> seen then count_list (deps_of t i) d else 0)))"

lemma deps_of_uop:
  "distinct (map u_id (bt_uops t)) \<Longrightarrow> u \<in> set (bt_uops t) \<Longrightarrow> deps_of t (u_id u) = u_dependencies u"
proof -
  assume "distinct (map u_id (bt_uops t))" and "u \<in> set (bt_uops t)"
  then have "map_of (uop_dict t) (u_id u) = Some u"
    by (intro map_of_is_SomeI) (auto simp: uop_dict_def o_def)
  then show ?thesis by (simp add: deps_of_def)
qed

lemma add_dependencies:
  assumes "map_of ind uid = Some n" and "\<forall>d\<in>set (keys uops). map_of cons d \<noteq> None"
  shows "(if set ds \<subseteq> set (keys uops)
     then \<exists>ind' cons'. rfold (add_dependency uops uid) ds (ind, cons) = Inr (ind', cons') \<and>
       map_of ind' = (map_of ind)(uid \<mapsto> n + int (length ds)) \<and>
       (\<forall>d. map_of cons' d =
         map_option (\<lambda>cs. cs @ replicate (count_list ds d) uid) (map_of cons d))
     else \<exists>e. rfold (add_dependency uops uid) ds (ind, cons) = Inl e)"
  using assms
proof (induction ds arbitrary: ind cons n)
  case Nil
  then show ?case by (auto simp: option.map_ident)
next
  case (Cons d ds)
  show ?case
  proof (cases "d \<in> set (keys uops)")
    case False
    then show ?thesis by (simp add: add_dependency_def)
  next
    case True
    then obtain cs where cs: "map_of cons d = Some cs" using Cons.prems by blast
    let ?ind = "AList.update uid (n + 1) ind"
    let ?cons = "AList.update d (cs @ [uid]) cons"
    have step: "add_dependency uops uid d (ind, cons) = Inr (?ind, ?cons)"
      using True cs Cons.prems(1) by (simp add: add_dependency_def fetch_def)
    have IH: "if set ds \<subseteq> set (keys uops)
     then \<exists>ind' cons'. rfold (add_dependency uops uid) ds (?ind, ?cons) = Inr (ind', cons') \<and>
       map_of ind' = (map_of ?ind)(uid \<mapsto> (n + 1) + int (length ds)) \<and>
       (\<forall>d'. map_of cons' d' =
         map_option (\<lambda>cs. cs @ replicate (count_list ds d') uid) (map_of ?cons d'))
     else \<exists>e. rfold (add_dependency uops uid) ds (?ind, ?cons) = Inl e"
      by (rule Cons.IH) (use Cons.prems in auto)
    have rep: "uid # replicate k uid = replicate k uid @ [uid]" for k
      by (simp add: replicate_append_same)
    show ?thesis
    proof (cases "set ds \<subseteq> set (keys uops)")
      case True
      with IH obtain ind' cons' where
        "rfold (add_dependency uops uid) ds (?ind, ?cons) = Inr (ind', cons')"
        "map_of ind' = (map_of ?ind)(uid \<mapsto> (n + 1) + int (length ds))"
        "\<forall>d'. map_of cons' d' =
           map_option (\<lambda>cs. cs @ replicate (count_list ds d') uid) (map_of ?cons d')"
        by auto
      then show ?thesis using True \<open>d \<in> set (keys uops)\<close> step cs
        by (auto simp: algebra_simps option.map_comp o_def)
    next
      case False
      then show ?thesis using IH step by auto
    qed
  qed
qed

lemma check_uop_graph:
  assumes dist: "distinct (map u_id (bt_uops t))" and u: "u \<in> set (bt_uops t)"
    and fresh: "u_id u \<notin> seen" and inv: "graph_inv t seen g"
  shows "if uop_well_formed t u
     then \<exists>g'. check_uop t u g = Inr g' \<and> graph_inv t (insert (u_id u) seen) g'
     else \<exists>e. check_uop t u g = Inl e"
proof -
  obtain ind cons where g: "g = (ind, cons)" by (cases g)
  have ids: "set (keys (uop_dict t)) = u_id ` set (bt_uops t)" by simp
  have ind: "map_of ind (u_id u) = Some 0" using inv u fresh by (simp add: graph_inv_def g)
  have cons: "\<forall>d\<in>set (keys (uop_dict t)). map_of cons d \<noteq> None"
    using inv by (fastforce simp: graph_inv_def g)
  note add = add_dependencies [OF ind cons, of "u_dependencies u"]
  let ?pre = "rbind (check_uop_fields (map m_id (bt_macros t)) u) (\<lambda>_.
     rall (\<lambda>r. rguard (r \<in> set (keys (bt_resources t))) (UnknownResource (u_id u) r))
       (u_resource_choices u))"
  let ?post = "case truthy (u_issue_after_uop u) of None \<Rightarrow> Inr ()
     | Some p \<Rightarrow> rguard (p \<in> set (keys (uop_dict t))) (UnknownIssuePredecessor (u_id u) p)"
  have split: "check_uop t u g = rbind ?pre (\<lambda>_.
     rbind (rfold (add_dependency (uop_dict t) (u_id u)) (u_dependencies u) g) (\<lambda>g'.
     rbind ?post (\<lambda>_. Inr g')))"
    by (simp add: check_uop_def rbind_assoc)
  have wf: "uop_well_formed t u \<longleftrightarrow> ?pre = Inr () \<and>
     set (u_dependencies u) \<subseteq> set (keys (uop_dict t)) \<and> ?post = Inr ()"
    by (auto simp: uop_well_formed_def rbind_eq_Inr_iff check_uop_fields_iff split: option.split)
  show ?thesis
  proof (cases "uop_well_formed t u")
    case True
    with add wf obtain ind' cons' where
      fold: "rfold (add_dependency (uop_dict t) (u_id u)) (u_dependencies u) (ind, cons) =
        Inr (ind', cons')"
      and ind': "map_of ind' = (map_of ind)(u_id u \<mapsto> 0 + int (length (u_dependencies u)))"
      and cons': "\<And>d. map_of cons' d =
         map_option (\<lambda>cs. cs @ replicate (count_list (u_dependencies u) d) (u_id u))
           (map_of cons d)"
      by auto
    have "check_uop t u g = Inr (ind', cons')" using True wf fold by (simp add: split [unfolded g] g)
    moreover have "graph_inv t (insert (u_id u) seen) (ind', cons')"
      unfolding graph_inv_def
    proof (intro conjI allI ballI)
      fix i show "map_of (fst (ind', cons')) i = (if i \<in> u_id ` set (bt_uops t)
        then Some (if i \<in> insert (u_id u) seen then int (length (deps_of t i)) else 0) else None)"
        using inv u by (simp add: graph_inv_def g ind' deps_of_uop [OF dist u])
    next
      fix d assume d: "d \<in> u_id ` set (bt_uops t)"
      then obtain cs where cs: "map_of cons d = Some cs" "set cs \<subseteq> u_id ` set (bt_uops t)"
        "\<forall>i. count_list cs i = (if i \<in> seen then count_list (deps_of t i) d else 0)"
        using inv by (auto simp: graph_inv_def g)
      show "\<exists>cs. map_of (snd (ind', cons')) d = Some cs \<and> set cs \<subseteq> u_id ` set (bt_uops t) \<and>
        (\<forall>i. count_list cs i =
          (if i \<in> insert (u_id u) seen then count_list (deps_of t i) d else 0))"
        using cs u fresh
        by (auto simp: cons' deps_of_uop [OF dist u] count_list_replicate)
    qed
    ultimately show ?thesis using True by auto
  next
    case False
    have "\<not> (\<exists>g'. check_uop t u g = Inr g')"
    proof
      assume "\<exists>g'. check_uop t u g = Inr g'"
      then have "?pre = Inr ()" "?post = Inr ()"
        "\<exists>g'. rfold (add_dependency (uop_dict t) (u_id u)) (u_dependencies u) g = Inr g'"
        by (auto simp: split rbind_eq_Inr_iff)
      then show False using False wf add by (auto simp: g split: if_splits)
    qed
    then show ?thesis using False by (cases "check_uop t u g") auto
  qed
qed

lemma check_uops_graph:
  assumes "distinct (map u_id (bt_uops t))" and "set us \<subseteq> set (bt_uops t)"
    and "distinct (map u_id us)" and "u_id ` set us \<inter> seen = {}" and "graph_inv t seen g"
  shows "if \<forall>u\<in>set us. uop_well_formed t u
     then \<exists>g'. rfold (check_uop t) us g = Inr g' \<and> graph_inv t (seen \<union> u_id ` set us) g'
     else \<exists>e. rfold (check_uop t) us g = Inl e"
  using assms
proof (induction us arbitrary: seen g)
  case (Cons u us)
  note head = check_uop_graph [of t u seen g]
  show ?case
  proof (cases "uop_well_formed t u")
    case True
    then obtain g1 where g1: "check_uop t u g = Inr g1" "graph_inv t (insert (u_id u) seen) g1"
      using head Cons.prems by auto
    have "if \<forall>u\<in>set us. uop_well_formed t u
     then \<exists>g'. rfold (check_uop t) us g1 = Inr g' \<and>
       graph_inv t (insert (u_id u) seen \<union> u_id ` set us) g'
     else \<exists>e. rfold (check_uop t) us g1 = Inl e"
      using Cons.prems g1 by (intro Cons.IH) auto
    then show ?thesis using True g1 by (auto split: if_splits)
  next
    case False
    then show ?thesis using head Cons.prems by auto
  qed
qed simp

lemma sort_filter_set: "set (sort (map fst (filter P xs))) = fst ` {x \<in> set xs. P x}"
  by auto

lemma graph_inv_start:
  assumes inv: "graph_inv t (u_id ` set (bt_uops t)) (ind, cons)"
    and keys: "distinct (keys ind)"
  shows "sweep_inv (u_id ` set (bt_uops t)) (deps_of t) []
       (sort (map fst (filter (\<lambda>(i, degree). degree = 0) ind))) ind"
    and "consumers_of (u_id ` set (bt_uops t)) (deps_of t) cons"
proof -
  let ?N = "u_id ` set (bt_uops t)"
  let ?ready = "sort (map fst (filter (\<lambda>(i, degree). degree = 0) ind))"
  have ind: "map_of ind i = (if i \<in> ?N then Some (int (length (deps_of t i))) else None)" for i
    using inv by (simp add: graph_inv_def)
  have mem: "(i, n) \<in> set ind \<longleftrightarrow> map_of ind i = Some n" for i n
    using keys by (simp add: keys_def)
  have ready: "set ?ready = {i \<in> ?N. deps_of t i = []}"
    by (auto simp: mem ind image_iff split: if_splits)
  have "distinct (map fst (filter (\<lambda>(i, degree). degree = 0) ind))"
    using keys by (simp add: keys_def distinct_map_filter)
  then show "sweep_inv ?N (deps_of t) [] ?ready ind"
    unfolding sweep_inv_def using ready by (auto simp: ind simp del: set_sort set_map)
  show "consumers_of ?N (deps_of t) cons"
    using inv by (fastforce simp: graph_inv_def consumers_of_def)
qed

lemma dependency_edges_depends:
  "distinct (map u_id (bt_uops t)) \<Longrightarrow>
     dependency_edges t = depends (u_id ` set (bt_uops t)) (deps_of t)"
  by (auto simp: dependency_edges_def depends_def deps_of_uop)

lemma rfold_check_uop_keys:
  "rfold (check_uop t) us g = Inr g' \<Longrightarrow> distinct (keys (fst g)) \<Longrightarrow> distinct (keys (fst g'))"
proof (induction us arbitrary: g)
  case (Cons u us)
  have dep: "rfold (add_dependency uops uid) ds g = Inr g' \<Longrightarrow> distinct (keys (fst g)) \<Longrightarrow>
    distinct (keys (fst g'))" for uops uid ds g g'
  proof (induction ds arbitrary: g)
    case (Cons d ds)
    then show ?case
      by (cases g) (auto simp: add_dependency_def rbind_eq_Inr_iff distinct_keys_update)
  qed simp
  obtain g1 where "check_uop t u g = Inr g1" "rfold (check_uop t) us g1 = Inr g'"
    using Cons.prems by (auto simp: rbind_eq_Inr_iff)
  moreover from calculation(1) have
    "rfold (add_dependency (uop_dict t) (u_id u)) (u_dependencies u) g = Inr g1"
    by (auto simp: check_uop_def rbind_eq_Inr_iff)
  then have "distinct (keys (fst g1))" using Cons.prems(2) by (rule dep)
  ultimately show ?case using Cons.IH by blast
qed simp

lemma uop_well_formed_deps:
  "uop_well_formed t u \<Longrightarrow> d \<in> set (u_dependencies u) \<Longrightarrow> d \<in> u_id ` set (bt_uops t)"
  by (auto simp: uop_well_formed_def)

lemma sweep_decides:
  assumes dist: "distinct (map u_id (bt_uops t))"
    and uops: "\<forall>u\<in>set (bt_uops t). uop_well_formed t u"
    and inv: "graph_inv t (u_id ` set (bt_uops t)) (ind, cons)" and keys: "distinct (keys ind)"
  shows "\<exists>v. sweep cons ind (sort (map fst (filter (\<lambda>(i, degree). degree = 0) ind))) 0 = Inr v \<and>
     (v = length (bt_uops t) \<longleftrightarrow> acyclic (dependency_edges t))"
proof -
  let ?N = "u_id ` set (bt_uops t)"
  note start = graph_inv_start [OF inv keys]
  obtain p ind' where p: "sweep cons ind
      (sort (map fst (filter (\<lambda>(i, degree). degree = 0) ind))) 0 = Inr (length p)"
    "sweep_inv ?N (deps_of t) p [] ind'"
    using sweep_runs [OF start, of 0] by auto
  have sub: "set p \<subseteq> ?N" "distinct p" using p(2) by (auto simp: sweep_inv_def)
  have card: "card ?N = length (bt_uops t)"
    using dist by (metis card_image distinct_card distinct_map length_map)
  have all: "length p = length (bt_uops t) \<longleftrightarrow> set p = ?N"
    using sub card by (metis card_subset_eq distinct_card finite_imageI List.finite_set)
  have "set p = ?N \<longleftrightarrow> acyclic (dependency_edges t)"
  proof
    assume "set p = ?N"
    then show "acyclic (dependency_edges t)"
      using topological_acyclic [of p ?N "deps_of t"] p(2) sub
      by (simp add: dependency_edges_depends [OF dist] sweep_inv_def)
  next
    assume "acyclic (dependency_edges t)"
    moreover have "set (deps_of t i) \<subseteq> ?N" if "i \<in> ?N" for i
      using that uops uop_well_formed_deps by (auto simp: deps_of_uop [OF dist])
    ultimately show "set p = ?N"
      using acyclic_all_visited [OF p(2)] by (simp add: dependency_edges_depends [OF dist])
  qed
  with p(1) all show ?thesis by auto
qed

lemma validate_iff:
  "validate_bound_trace t = Inr () \<longleftrightarrow> well_formed_trace t"
proof -
  let ?g0 = "(map (\<lambda>i. (i, 0)) (keys (uop_dict t)), map (\<lambda>i. (i, [])) (keys (uop_dict t)))"
  let ?head = "distinct (map m_id (bt_macros t)) \<and> distinct (map u_id (bt_uops t)) \<and>
     (\<forall>m\<in>set (bt_macros t). macro_well_formed t m) \<and>
     (\<Union>m\<in>set (bt_macros t). set (m_uop_ids m)) = u_id ` set (bt_uops t)"
  have split: "validate_bound_trace t = Inr () \<longleftrightarrow> ?head \<and>
     (\<exists>ind cons v. rfold (check_uop t) (bt_uops t) ?g0 = Inr (ind, cons) \<and>
        sweep cons ind (sort (map fst (filter (\<lambda>(i, degree). degree = 0) ind))) 0 = Inr v \<and>
        v = length (bt_uops t))"
    unfolding validate_bound_trace_def
    by (auto simp: rbind_eq_Inr_iff check_macro_iff split: prod.splits)
  show ?thesis
  proof (cases ?head)
    case True
    then have dist: "distinct (map u_id (bt_uops t))" by simp
    have keys0: "distinct (keys (fst ?g0))" using dist by (simp add: keys_def o_def uop_dict_def)
    have g0: "graph_inv t {} ?g0"
      unfolding graph_inv_def by (auto simp: map_of_const simp del: map_map)
    note run = check_uops_graph [OF dist order_refl dist _ g0]
    show ?thesis
    proof (cases "\<forall>u\<in>set (bt_uops t). uop_well_formed t u")
      case wf: True
      then obtain ind cons where run1: "rfold (check_uop t) (bt_uops t) ?g0 = Inr (ind, cons)"
        "graph_inv t (u_id ` set (bt_uops t)) (ind, cons)" using run by auto
      have "distinct (keys ind)" using rfold_check_uop_keys [OF run1(1) keys0] by simp
      from sweep_decides [OF dist wf run1(2) this] show ?thesis
        using True wf run1(1) by (auto simp: split well_formed_trace_def)
    next
      case False
      then have "\<exists>e. rfold (check_uop t) (bt_uops t) ?g0 = Inl e"
        using run by (simp del: map_map keys_uop_dict)
      then show ?thesis using False
        by (auto simp: split well_formed_trace_def simp del: map_map keys_uop_dict)
    qed
  next
    case False
    then show ?thesis by (auto simp: split well_formed_trace_def)
  qed
qed

text \<open>
  C8. The bound-trace validator accepts exactly the well-formed traces: unique ids, positive
  accounting counts, demands only on listed domains, consistent part indices, every reference
  resolved, every uop owned by its parent macro-op, and an acyclic dependency graph.
\<close>

theorem validate_bound_trace_correct:
  "validate_bound_trace t = Inr () \<longleftrightarrow> well_formed_trace t"
  by (rule validate_iff)

end
