(* ===== verification/Cache.thy ===== *)
theory Cache
  imports TraceModel
begin

text \<open>
  \<open>SetAssociativeCache\<close> of \<open>src/simulator/memory.py\<close>.  A cache set is an \<open>OrderedDict\<close>
  whose keys are kept here as a list, least recently used first.  Subscripting \<open>sets[line %
  set_count]\<close> raises when the cache has no sets, so every operation returns a result.

  The lemmas show that under \<open>cache_wf\<close> no operation raises, that a touch inserts its line and
  evicts at most the least recently used line of its set, and that after any history of touches a
  set holds exactly its most recent \<open>ways\<close> distinct lines (\<open>lru_contents\<close>, the abstract
  specification).  The interface \<open>line_store\<close> is what the memory hierarchy relies on.
\<close>

datatype mem_error =
    MemZeroDivision
  | MemIndexError
  | MemKeyError string
  | MemValueError string
  | CacheSizeError int int int
  | UnknownCacheMode string
  | WorkingSetNotResident string
  | WorkingSetExceedsCapacity
  | NonMemoryUop
  | AccessWhileBlocked string
  | NonIntegerTicks int nat

section \<open>Operations\<close>

record cache =
  c_ways :: int
  c_set_count :: int
  c_sets :: "int list list"

definition make_cache :: "int \<Rightarrow> int \<Rightarrow> int \<Rightarrow> mem_error + cache" where
  "make_cache size_bytes ways line_bytes =
     (if ways * line_bytes = 0 then Inl MemZeroDivision
      else if size_bytes mod (ways * line_bytes) \<noteq> 0
      then Inl (CacheSizeError size_bytes ways line_bytes)
      else let set_count = size_bytes div (ways * line_bytes) in
        Inr \<lparr>c_ways = ways, c_set_count = set_count, c_sets = replicate (nat set_count) []\<rparr>)"

definition py_index :: "'a list \<Rightarrow> int \<Rightarrow> nat option" where
  "py_index xs i =
     (if 0 \<le> i \<and> i < int (length xs) then Some (nat i)
      else if i < 0 \<and> 0 \<le> i + int (length xs) then Some (nat (i + int (length xs)))
      else None)"

definition cache_slot :: "cache \<Rightarrow> int \<Rightarrow> mem_error + nat" where
  "cache_slot c line =
     (if c_set_count c = 0 then Inl MemZeroDivision
      else case py_index (c_sets c) (line mod c_set_count c) of
             None \<Rightarrow> Inl MemIndexError | Some i \<Rightarrow> Inr i)"

definition contains :: "cache \<Rightarrow> int \<Rightarrow> mem_error + bool" where
  "contains c line = rbind (cache_slot c line) (\<lambda>i. Inr (line \<in> set (c_sets c ! i)))"

definition cache_remove :: "cache \<Rightarrow> int \<Rightarrow> mem_error + cache" where
  "cache_remove c line = rbind (cache_slot c line) (\<lambda>i.
     Inr (c\<lparr>c_sets := (c_sets c)[i := removeAll line (c_sets c ! i)]\<rparr>))"

definition touch :: "cache \<Rightarrow> int \<Rightarrow> mem_error + cache \<times> int option" where
  "touch c line = rbind (cache_slot c line) (\<lambda>i.
     let cache_set = c_sets c ! i in
     if line \<in> set cache_set
     then Inr (c\<lparr>c_sets := (c_sets c)[i := removeAll line cache_set @ [line]]\<rparr>, None)
     else let grown = cache_set @ [line] in
       if int (length grown) > c_ways c
       then Inr (c\<lparr>c_sets := (c_sets c)[i := tl grown]\<rparr>, Some (hd grown))
       else Inr (c\<lparr>c_sets := (c_sets c)[i := grown]\<rparr>, None))"

fun can_hold_from :: "cache \<Rightarrow> (int, int) dict \<Rightarrow> int list \<Rightarrow> mem_error + bool" where
  "can_hold_from c occupancy [] = Inr True"
| "can_hold_from c occupancy (line # lines) =
     (if c_set_count c = 0 then Inl MemZeroDivision
      else let index = line mod c_set_count c; occupancy' = counter_add occupancy index 1 in
        if counter_get occupancy' index > c_ways c then Inr False
        else can_hold_from c occupancy' lines)"

definition can_hold :: "cache \<Rightarrow> int list \<Rightarrow> mem_error + bool" where
  "can_hold c lines = can_hold_from c [] lines"

section \<open>Invariant\<close>

definition cache_wf :: "cache \<Rightarrow> bool" where
  "cache_wf c \<longleftrightarrow> 0 < c_ways c \<and> 0 < c_set_count c \<and>
     length (c_sets c) = nat (c_set_count c) \<and>
     (\<forall>i<length (c_sets c). distinct (c_sets c ! i) \<and>
        int (length (c_sets c ! i)) \<le> c_ways c \<and>
        (\<forall>l\<in>set (c_sets c ! i). l mod c_set_count c = int i))"

definition lines_of :: "cache \<Rightarrow> int set" where
  "lines_of c = \<Union> (set ` set (c_sets c))"

definition slot :: "cache \<Rightarrow> int \<Rightarrow> nat" where
  "slot c line = nat (line mod c_set_count c)"

lemma slot_bound: "cache_wf c \<Longrightarrow> slot c line < length (c_sets c)"
  by (simp add: cache_wf_def slot_def nat_less_iff)

lemma cache_slot_eq: "cache_wf c \<Longrightarrow> cache_slot c line = Inr (slot c line)"
proof -
  assume "cache_wf c"
  then have "0 < c_set_count c" "int (length (c_sets c)) = c_set_count c"
    by (simp_all add: cache_wf_def)
  then show ?thesis
    by (simp add: cache_slot_def py_index_def slot_def)
qed

lemma slot_mem: "cache_wf c \<Longrightarrow> i < length (c_sets c) \<Longrightarrow> l \<in> set (c_sets c ! i) \<Longrightarrow> slot c l = i"
  by (simp add: cache_wf_def slot_def)

lemma lines_of_slot: "cache_wf c \<Longrightarrow> l \<in> lines_of c \<longleftrightarrow> l \<in> set (c_sets c ! slot c l)"
proof
  assume wf: "cache_wf c" and "l \<in> lines_of c"
  then obtain i where i: "i < length (c_sets c)" "l \<in> set (c_sets c ! i)"
    by (auto simp: lines_of_def in_set_conv_nth [of _ "c_sets c"])
  then have "slot c l = i" using slot_mem [OF wf] by simp
  with i show "l \<in> set (c_sets c ! slot c l)" by simp
next
  assume wf: "cache_wf c" and "l \<in> set (c_sets c ! slot c l)"
  then show "l \<in> lines_of c" using slot_bound [OF wf, of l] by (auto simp: lines_of_def)
qed

lemma lines_of_update:
  assumes wf: "cache_wf c" and new: "set new \<subseteq> {l. slot c l = i}" and i: "i < length (c_sets c)"
    and wf': "cache_wf (c\<lparr>c_sets := (c_sets c)[i := new]\<rparr>)"
  shows "lines_of (c\<lparr>c_sets := (c_sets c)[i := new]\<rparr>) =
     {l \<in> lines_of c. slot c l \<noteq> i} \<union> set new"
proof -
  have s: "slot (c\<lparr>c_sets := (c_sets c)[i := new]\<rparr>) l = slot c l" for l by (simp add: slot_def)
  show ?thesis
    using lines_of_slot [OF wf'] lines_of_slot [OF wf] new i
    by (auto simp: s nth_list_update split: if_splits)
qed

lemma cache_wf_update:
  assumes wf: "cache_wf c" and i: "i < length (c_sets c)"
    and "distinct new" "int (length new) \<le> c_ways c" "\<forall>l\<in>set new. slot c l = i"
  shows "cache_wf (c\<lparr>c_sets := (c_sets c)[i := new]\<rparr>)"
proof -
  have "l mod c_set_count c = int i" if "l \<in> set new" for l
    using that assms by (auto simp: slot_def cache_wf_def)
  then show ?thesis using assms by (auto simp: cache_wf_def nth_list_update)
qed

lemma make_cache_wf:
  "make_cache sz ways line = Inr c \<Longrightarrow> 0 < ways \<Longrightarrow> 0 < line \<Longrightarrow> 0 < sz \<Longrightarrow>
     cache_wf c \<and> lines_of c = {} \<and> c_ways c = ways"
proof -
  assume mk: "make_cache sz ways line = Inr c" and pos: "0 < ways" "0 < line" "0 < sz"
  then have c: "c = \<lparr>c_ways = ways, c_set_count = sz div (ways * line),
      c_sets = replicate (nat (sz div (ways * line))) []\<rparr>" and "sz mod (ways * line) = 0"
    by (auto simp: make_cache_def Let_def split: if_splits)
  moreover have "0 < sz div (ways * line)"
    using pos calculation(2) by (metis mod_0_imp_dvd mult_pos_pos pos_imp_zdiv_pos_iff zdvd_imp_le)
  ultimately show ?thesis using pos by (auto simp: cache_wf_def lines_of_def)
qed

lemma contains_eq: "cache_wf c \<Longrightarrow> contains c line = Inr (line \<in> lines_of c)"
  by (simp add: contains_def cache_slot_eq lines_of_slot)

lemma cache_remove_eq:
  assumes wf: "cache_wf c"
  shows "\<exists>c'. cache_remove c line = Inr c' \<and> cache_wf c' \<and> lines_of c' = lines_of c - {line} \<and>
     c_ways c' = c_ways c \<and> c_set_count c' = c_set_count c"
proof -
  let ?i = "slot c line" and ?new = "removeAll line (c_sets c ! slot c line)"
  have i: "?i < length (c_sets c)" by (rule slot_bound [OF wf])
  have mem: "\<forall>l\<in>set (c_sets c ! ?i). slot c l = ?i"
    using slot_mem [OF wf i] by simp
  have wf': "cache_wf (c\<lparr>c_sets := (c_sets c)[?i := ?new]\<rparr>)"
  proof (rule cache_wf_update [OF wf i])
    show "distinct ?new" using wf i by (simp add: cache_wf_def distinct_removeAll)
    show "int (length ?new) \<le> c_ways c"
    proof -
      have "int (length (c_sets c ! ?i)) \<le> c_ways c" using wf i by (simp add: cache_wf_def)
      moreover have "length ?new \<le> length (c_sets c ! ?i)" by simp
      ultimately show ?thesis by linarith
    qed
  qed (use mem in auto)
  have "lines_of (c\<lparr>c_sets := (c_sets c)[?i := ?new]\<rparr>) =
      {l \<in> lines_of c. slot c l \<noteq> ?i} \<union> set ?new"
    by (rule lines_of_update [OF wf _ i wf']) (use mem in auto)
  also have "\<dots> = lines_of c - {line}"
    using lines_of_slot [OF wf] mem by (auto simp: lines_of_slot [OF wf])
  finally show ?thesis using wf' by (simp add: cache_remove_def cache_slot_eq wf)
qed

lemma touch_eq:
  assumes wf: "cache_wf c"
  shows "\<exists>c' ev. touch c line = Inr (c', ev) \<and> cache_wf c' \<and>
     lines_of c' = insert line (lines_of c) - set_option ev \<and>
     (\<forall>e. ev = Some e \<longrightarrow> e \<in> lines_of c \<and> e \<noteq> line \<and> line \<notin> lines_of c \<and> slot c e = slot c line) \<and>
     c_ways c' = c_ways c \<and> c_set_count c' = c_set_count c"
proof -
  let ?i = "slot c line" and ?s = "c_sets c ! slot c line"
  have i: "?i < length (c_sets c)" by (rule slot_bound [OF wf])
  have mem: "\<forall>l\<in>set ?s. slot c l = ?i" using slot_mem [OF wf i] by simp
  have dist: "distinct ?s" and len: "int (length ?s) \<le> c_ways c" and ways: "0 < c_ways c"
    using wf i by (auto simp: cache_wf_def)
  have main: "cache_wf (c\<lparr>c_sets := (c_sets c)[?i := new]\<rparr>) \<and>
      lines_of (c\<lparr>c_sets := (c_sets c)[?i := new]\<rparr>) = {l \<in> lines_of c. slot c l \<noteq> ?i} \<union> set new"
    if "distinct new" "int (length new) \<le> c_ways c" "\<forall>l\<in>set new. slot c l = ?i" for new
    using cache_wf_update [OF wf i that] lines_of_update [OF wf _ i cache_wf_update [OF wf i that]] that
    by auto
  let ?other = "{l \<in> lines_of c. slot c l \<noteq> ?i}"
  have part: "lines_of c = ?other \<union> set ?s"
    using lines_of_slot [OF wf] mem by auto
  have disj: "?other \<inter> set ?s = {}" and line: "line \<notin> ?other" using mem by auto
  show ?thesis
  proof (cases "line \<in> set ?s")
    case True
    have step: "touch c line = Inr (c\<lparr>c_sets := (c_sets c)[?i := removeAll line ?s @ [line]]\<rparr>, None)"
      using True by (simp add: touch_def cache_slot_eq [OF wf])
    have "length (removeAll line ?s @ [line]) = length ?s"
      using True dist length_pos_if_in_set [OF True]
      by (simp add: distinct_remove1_removeAll [symmetric] length_remove1)
    then have "int (length (removeAll line ?s @ [line])) \<le> c_ways c" using len by simp
    then have "cache_wf (c\<lparr>c_sets := (c_sets c)[?i := removeAll line ?s @ [line]]\<rparr>) \<and>
      lines_of (c\<lparr>c_sets := (c_sets c)[?i := removeAll line ?s @ [line]]\<rparr>) =
        ?other \<union> set (removeAll line ?s @ [line])"
      using mem dist by (intro main) (auto simp: distinct_removeAll)
    then show ?thesis using step True part by auto
  next
    case new: False
    then have absent: "line \<notin> lines_of c" using part line by auto
    show ?thesis
    proof (cases "int (length (?s @ [line])) > c_ways c")
      case False
      have step: "touch c line = Inr (c\<lparr>c_sets := (c_sets c)[?i := ?s @ [line]]\<rparr>, None)"
        using new False by (simp add: touch_def cache_slot_eq [OF wf])
      have "cache_wf (c\<lparr>c_sets := (c_sets c)[?i := ?s @ [line]]\<rparr>) \<and>
        lines_of (c\<lparr>c_sets := (c_sets c)[?i := ?s @ [line]]\<rparr>) = ?other \<union> set (?s @ [line])"
        using mem dist new False by (intro main) auto
      then show ?thesis using step part by auto
    next
      case True
      then obtain e rest where s: "?s = e # rest" using ways by (cases ?s) auto
      have step: "touch c line = Inr (c\<lparr>c_sets := (c_sets c)[?i := rest @ [line]]\<rparr>, Some e)"
        using new True by (simp add: touch_def cache_slot_eq [OF wf] s)
      have upd: "cache_wf (c\<lparr>c_sets := (c_sets c)[?i := rest @ [line]]\<rparr>) \<and>
        lines_of (c\<lparr>c_sets := (c_sets c)[?i := rest @ [line]]\<rparr>) = ?other \<union> set (rest @ [line])"
        using mem dist new len s by (intro main) auto
      have "e \<in> lines_of c" "e \<noteq> line" "slot c e = ?i" using s part new mem by auto
      moreover have "?other \<union> set (rest @ [line]) = insert line (lines_of c) - {e}"
        using part s disj dist calculation(2) by auto
      ultimately show ?thesis using step upd absent by auto
    qed
  qed
qed

section \<open>Least recently used\<close>

text \<open>
  The specification of one cache set: of the touches that map to it, the most recent \<open>ways\<close>
  distinct lines, oldest first.
\<close>

definition lru_contents :: "nat \<Rightarrow> int list \<Rightarrow> int list" where
  "lru_contents ways history = rev (take ways (ordered_unique (rev history)))"

definition slot_history :: "cache \<Rightarrow> nat \<Rightarrow> int list \<Rightarrow> int list" where
  "slot_history c i history = filter (\<lambda>l. slot c l = i) history"

fun touch_all :: "cache \<Rightarrow> int list \<Rightarrow> mem_error + cache" where
  "touch_all c [] = Inr c"
| "touch_all c (l # ls) = rbind (touch c l) (\<lambda>(c', evicted). touch_all c' ls)"

lemma ordered_unique_from_cong:
  "set a = set b \<Longrightarrow> ordered_unique_from a xs = ordered_unique_from b xs"
proof (induction xs arbitrary: a b)
  case (Cons z xs)
  have "ordered_unique_from (z # a) xs = ordered_unique_from (z # b) xs"
    by (rule Cons.IH) (simp add: Cons.prems)
  then show ?case using Cons.IH [OF Cons.prems] Cons.prems by simp
qed simp

lemma ordered_unique_from_Cons:
  "ordered_unique_from (x # seen) xs = removeAll x (ordered_unique_from seen xs)"
proof (induction xs arbitrary: seen)
  case (Cons y xs)
  have "ordered_unique_from (y # x # seen) xs = ordered_unique_from (x # y # seen) xs"
    "ordered_unique_from (x # x # seen) xs = ordered_unique_from (x # seen) xs"
    by (rule ordered_unique_from_cong, auto)+
  then show ?case using Cons.IH [of seen] Cons.IH [of "y # seen"] by (cases "x = y") auto
qed simp

lemma ordered_unique_Cons: "ordered_unique (x # xs) = x # removeAll x (ordered_unique xs)"
  by (simp add: ordered_unique_def ordered_unique_from_Cons)

lemma lru_contents_touch:
  assumes "0 < ways"
  shows "lru_contents ways (history @ [line]) =
     (let s = lru_contents ways history in
      if line \<in> set s then removeAll line s @ [line]
      else if ways < length (s @ [line]) then tl (s @ [line]) else s @ [line])"
proof -
  define u where "u = ordered_unique (rev history)"
  obtain k where ways: "ways = Suc k" using assms by (cases ways) auto
  have u': "ordered_unique (line # rev history) = line # removeAll line u"
    by (simp add: ordered_unique_Cons u_def)
  have dist: "distinct u" by (simp add: u_def)
  have new: "lru_contents ways (history @ [line]) = rev (take k (removeAll line u)) @ [line]"
    by (simp add: lru_contents_def u' ways)
  have old: "lru_contents ways history = rev (take (Suc k) u)"
    by (simp add: lru_contents_def u_def ways)
  show ?thesis
  proof (cases "line \<in> set (take (Suc k) u)")
    case True
    then obtain a b where ab: "take (Suc k) u = a @ line # b" by (auto simp: in_set_conv_decomp)
    define d where "d = drop (Suc k) u"
    have u: "u = a @ line # b @ d" using append_take_drop_id [of "Suc k" u] ab by (simp add: d_def)
    have la: "line \<notin> set a" "line \<notin> set b" "line \<notin> set d" using dist u by auto
    have "length (a @ line # b) \<le> Suc k" by (metis ab length_take min.cobounded2)
    moreover have "d = [] \<or> length (a @ line # b) = Suc k"
      using ab u by (metis d_def drop_eq_Nil length_take linear min_absorb2)
    ultimately have "take k (removeAll line u) = a @ b" using la u by auto
    then show ?thesis unfolding new old Let_def using True la by (simp add: ab)
  next
    case False
    show ?thesis
    proof (cases "length u \<le> k")
      case True
      then have "line \<notin> set u" using False by simp
      then show ?thesis unfolding new old Let_def using True False by (simp add: ways)
    next
      case long: False
      then obtain x where x: "take (Suc k) u = take k u @ [x]"
        by (metis not_le take_Suc_conv_app_nth)
      then have "line \<notin> set (take k u)" using False by simp
      have "take k (removeAll line u) = take k u"
      proof -
        have "removeAll line u = take k u @ removeAll line (drop k u)"
          using \<open>line \<notin> set (take k u)\<close>
          by (metis append_take_drop_id removeAll_append removeAll_id)
        then show ?thesis using long by simp
      qed
      then show ?thesis unfolding new old Let_def using False long x by (simp add: ways)
    qed
  qed
qed

lemma touch_slots:
  assumes wf: "cache_wf c" and t: "touch c line = Inr (c', ev)" and i: "i < length (c_sets c)"
  shows "c_sets c' ! i = (if slot c line \<noteq> i then c_sets c ! i
     else let s = c_sets c ! i in
       if line \<in> set s then removeAll line s @ [line]
       else if c_ways c < int (length (s @ [line])) then tl (s @ [line]) else s @ [line])"
  using t i slot_bound [OF wf, of line]
  by (auto simp: touch_def cache_slot_eq [OF wf] Let_def split: if_splits)

lemma touch_all_slots:
  assumes "make_cache sz ways line_bytes = Inr c" and "0 < ways" and "0 < line_bytes" and "0 < sz"
  shows "\<exists>c'. touch_all c history = Inr c' \<and>
     (\<forall>i<length (c_sets c). c_sets c' ! i = lru_contents (nat ways) (slot_history c i history))"
proof -
  have mk: "cache_wf c" "c_ways c = ways" using make_cache_wf [OF assms] by auto
  have empty: "\<forall>i<length (c_sets c). c_sets c ! i = []"
    using assms(1) by (auto simp: make_cache_def Let_def split: if_splits)
  have "\<exists>c'. touch_all c1 rest = Inr c' \<and>
     (\<forall>i<length (c_sets c). c_sets c' ! i = lru_contents (nat ways) (slot_history c i (past @ rest)))"
    if "cache_wf c1" "c_ways c1 = ways" "c_set_count c1 = c_set_count c"
      "\<forall>i<length (c_sets c). c_sets c1 ! i = lru_contents (nat ways) (slot_history c i past)"
    for c1 past rest
    using that
  proof (induction rest arbitrary: c1 past)
    case (Cons l ls)
    obtain c2 ev where t: "touch c1 l = Inr (c2, ev)" "cache_wf c2" "c_ways c2 = ways"
      "c_set_count c2 = c_set_count c" using touch_eq [OF Cons.prems(1), of l] Cons.prems by auto
    have len: "length (c_sets c1) = length (c_sets c)"
      using Cons.prems(1,3) mk(1) by (simp add: cache_wf_def)
    have slots: "slot c1 l = slot c l" using Cons.prems(3) by (simp add: slot_def)
    have upd: "\<forall>i<length (c_sets c). c_sets c2 ! i =
        lru_contents (nat ways) (slot_history c i (past @ [l]))"
    proof (intro allI impI)
      fix i assume i: "i < length (c_sets c)"
      let ?h = "slot_history c i past"
      have "(c_ways c1 < int (length (s @ [l]))) = (nat ways < length (s @ [l]))" for s :: "int list"
        using Cons.prems(2) assms(2) by (simp add: nat_less_iff del: length_append)
      then show "c_sets c2 ! i = lru_contents (nat ways) (slot_history c i (past @ [l]))"
        using touch_slots [OF Cons.prems(1) t(1), of i] i len slots Cons.prems(4)
          lru_contents_touch [of "nat ways" ?h l] assms(2)
        by (simp add: slot_history_def Let_def del: length_append)
    qed
    have "\<exists>c'. touch_all c2 ls = Inr c' \<and> (\<forall>i<length (c_sets c). c_sets c' ! i =
        lru_contents (nat ways) (slot_history c i ((past @ [l]) @ ls)))"
      using t upd by (intro Cons.IH) auto
    then show ?case using t(1) by simp
  qed simp
  from this [of c "[]" history] show ?thesis
    using mk empty by (simp add: slot_history_def lru_contents_def ordered_unique_def)
qed

text \<open>
  C17. The set-associative cache implements least-recently-used replacement: after any history of
  touches of an empty cache no touch has raised, and every set holds exactly the most recent
  \<open>ways\<close> distinct lines that map to it, oldest first.
\<close>

theorem touch_all_lru:
  assumes "make_cache sz ways line_bytes = Inr c" and "0 < ways" and "0 < line_bytes" and "0 < sz"
  shows "\<exists>c'. touch_all c history = Inr c' \<and>
     (\<forall>i<length (c_sets c). c_sets c' ! i = lru_contents (nat ways) (slot_history c i history))"
  using touch_all_slots [OF assms] .

theorem touch_all_lru_witness:
  "\<exists>c'. touch_all \<lparr>c_ways = 2, c_set_count = 1, c_sets = [[]]\<rparr> [1, 2, 1, 3] = Inr c' \<and>
     c_sets c' ! 0 = [1, 3]"
proof -
  have mk: "make_cache 128 2 64 = Inr \<lparr>c_ways = 2, c_set_count = 1, c_sets = [[]]\<rparr>"
    by (simp add: make_cache_def)
  have "lru_contents 2 [1, 2, 1, 3] = [1, 3]"
    by (simp add: lru_contents_def ordered_unique_def)
  then show ?thesis
    using touch_all_lru [OF mk, of "[1, 2, 1, 3]"] by (auto simp: slot_history_def slot_def)
qed

section \<open>Working sets\<close>

lemma count_list_filter: "count_list (filter P xs) x = (if P x then count_list xs x else 0)"
  by (induction xs) auto

lemma can_hold_from_eq:
  assumes wf: "cache_wf c" and occ: "\<And>i. 0 \<le> i \<Longrightarrow> counter_get occ i \<le> c_ways c"
  shows "can_hold_from c occ lines = Inr (\<forall>i. 0 \<le> i \<longrightarrow>
     counter_get occ i + int (length (filter (\<lambda>l. l mod c_set_count c = i) lines)) \<le> c_ways c)"
  using occ
proof (induction lines arbitrary: occ)
  case (Cons l ls)
  let ?i = "l mod c_set_count c"
  let ?n = "\<lambda>i ls. int (length (filter (\<lambda>l. l mod c_set_count c = i) ls))"
  have sc: "0 < c_set_count c" using wf by (simp add: cache_wf_def)
  define occ' where "occ' = counter_add occ ?i 1"
  have get: "counter_get occ' i = (if i = ?i then counter_get occ i + 1 else counter_get occ i)" for i
    by (simp add: occ'_def counter_get_add)
  have count: "?n i (l # ls) = (if i = ?i then 1 + ?n i ls else ?n i ls)" for i by simp
  show ?case
  proof (cases "counter_get occ' ?i > c_ways c")
    case True
    then have "\<not> counter_get occ ?i + ?n ?i (l # ls) \<le> c_ways c" by (simp add: get)
    moreover have "0 \<le> ?i" using sc by simp
    ultimately have "\<not> (\<forall>i\<ge>0. counter_get occ i + ?n i (l # ls) \<le> c_ways c)" by blast
    then show ?thesis using True sc by (simp add: occ'_def del: filter.simps)
  next
    case False
    have "can_hold_from c occ' ls = Inr (\<forall>i\<ge>0. counter_get occ' i + ?n i ls \<le> c_ways c)"
      using False Cons.prems by (intro Cons.IH) (auto simp: get)
    moreover have "counter_get occ' i + ?n i ls = counter_get occ i + ?n i (l # ls)" for i
      by (simp add: get)
    ultimately show ?thesis using False sc by (simp add: occ'_def del: filter.simps)
  qed
qed simp

lemma can_hold_eq:
  assumes wf: "cache_wf c"
  shows "can_hold c lines =
     Inr (\<forall>i<length (c_sets c). int (length (slot_history c i lines)) \<le> c_ways c)"
proof -
  have sc: "0 < c_set_count c" "length (c_sets c) = nat (c_set_count c)" "0 \<le> c_ways c"
    using wf by (simp_all add: cache_wf_def)
  have hist: "filter (\<lambda>l. l mod c_set_count c = i) lines =
      (if i < c_set_count c then slot_history c (nat i) lines else [])" if "0 \<le> i" for i
  proof -
    have "l mod c_set_count c = i \<longleftrightarrow> i < c_set_count c \<and> slot c l = nat i" for l
      using that sc(1) pos_mod_bound [OF sc(1), of l] pos_mod_sign [OF sc(1), of l]
      by (auto simp: slot_def eq_nat_nat_iff)
    then show ?thesis by (simp add: slot_history_def)
  qed
  have "(\<forall>i\<ge>0. int (length (filter (\<lambda>l. l mod c_set_count c = i) lines)) \<le> c_ways c) \<longleftrightarrow>
      (\<forall>i<length (c_sets c). int (length (slot_history c i lines)) \<le> c_ways c)" (is "?A \<longleftrightarrow> ?B")
  proof
    assume A: ?A
    show ?B
    proof (intro allI impI)
      fix i assume "i < length (c_sets c)"
      then show "int (length (slot_history c i lines)) \<le> c_ways c"
        using A [rule_format, of "int i"] hist [of "int i"] sc
        by (simp add: zless_nat_eq_int_zless)
    qed
  next
    assume B: ?B
    show ?A
    proof (intro allI impI)
      fix i :: int assume "0 \<le> i"
      then show "int (length (filter (\<lambda>l. l mod c_set_count c = i) lines)) \<le> c_ways c"
        using B [rule_format, of "nat i"] hist [of i] sc by (auto simp: nat_less_iff)
    qed
  qed
  then show ?thesis
    using can_hold_from_eq [OF wf, of "[]" lines] sc by (simp add: can_hold_def counter_get_def)
qed

lemma lru_contents_distinct:
  "distinct history \<Longrightarrow> set (lru_contents ways history) = set history \<longleftrightarrow> length history \<le> ways"
proof -
  assume dist: "distinct history"
  have "set (lru_contents ways history) = set (take ways (rev history))"
    using dist by (simp add: lru_contents_def ordered_unique_distinct)
  moreover have "set (take ways (rev history)) = set history \<longleftrightarrow> length history \<le> ways"
  proof
    assume "set (take ways (rev history)) = set history"
    then have "length (take ways (rev history)) = length history"
      using dist by (metis distinct_card distinct_rev distinct_take)
    then show "length history \<le> ways" by simp
  qed simp
  ultimately show ?thesis by simp
qed

text \<open>
  \<open>can_hold\<close> decides residency: it answers \<open>True\<close> exactly when touching the distinct lines
  of a working set, in any order, leaves all of them in the initially empty cache.
\<close>

theorem can_hold_iff_resident:
  assumes mk: "make_cache sz ways line_bytes = Inr c" and "0 < ways" "0 < line_bytes" "0 < sz"
    and dist: "distinct lines"
  shows "\<exists>c'. touch_all c lines = Inr c' \<and>
     can_hold c lines = Inr (\<forall>l\<in>set lines. contains c' l = Inr True)"
proof -
  have wf: "cache_wf c" and ways: "c_ways c = ways" using make_cache_wf [OF assms(1-4)] by auto
  obtain c' where c': "touch_all c lines = Inr c'"
    "\<And>i. i < length (c_sets c) \<Longrightarrow> c_sets c' ! i = lru_contents (nat ways) (slot_history c i lines)"
    using touch_all_slots [OF assms(1-4)] by blast
  have keep: "touch_all c ls = Inr c2 \<Longrightarrow> cache_wf c \<Longrightarrow> cache_wf c2 \<and> c_set_count c2 = c_set_count c"
    for ls c c2
  proof (induction ls arbitrary: c)
    case (Cons l ls)
    then show ?case using touch_eq [of c l] by (force simp: rbind_eq_Inr_iff)
  qed simp
  have wf': "cache_wf c'" and sc: "c_set_count c' = c_set_count c" using keep [OF c'(1) wf] by auto
  have mem: "contains c' l = Inr True \<longleftrightarrow>
      l \<in> set (lru_contents (nat ways) (slot_history c (slot c l) lines))" for l
    using contains_eq [OF wf'] lines_of_slot [OF wf'] c'(2) [OF slot_bound [OF wf], of l]
    by (simp add: slot_def sc)
  have sub: "set (lru_contents (nat ways) (slot_history c i lines)) \<subseteq> set (slot_history c i lines)" for i
    using set_take_subset [of "nat ways" "ordered_unique (rev (slot_history c i lines))"]
    by (auto simp: lru_contents_def)
  have each: "int (length (slot_history c i lines)) \<le> ways \<longleftrightarrow>
      (\<forall>l\<in>set (slot_history c i lines). l \<in> set (lru_contents (nat ways) (slot_history c i lines)))"
    for i
    using lru_contents_distinct [of "slot_history c i lines" "nat ways"] dist sub [of i] assms(2)
    by (auto simp: slot_history_def le_nat_iff)
  have "(\<forall>i<length (c_sets c). int (length (slot_history c i lines)) \<le> c_ways c) \<longleftrightarrow>
      (\<forall>l\<in>set lines. contains c' l = Inr True)"
    unfolding each mem ways using slot_bound [OF wf] by (auto simp: slot_history_def)
  then show ?thesis using c'(1) can_hold_eq [OF wf] by simp
qed

theorem can_hold_iff_resident_witness:
  "\<exists>c'. touch_all \<lparr>c_ways = 2, c_set_count = 1, c_sets = [[]]\<rparr> [5, 6] = Inr c' \<and>
     can_hold \<lparr>c_ways = 2, c_set_count = 1, c_sets = [[]]\<rparr> [5, 6] =
       Inr (\<forall>l\<in>set [5, 6]. contains c' l = Inr True)"
  by (rule can_hold_iff_resident [of 128 2 64]) (simp_all add: make_cache_def)

section \<open>The interface of the memory hierarchy\<close>

text \<open>
  A line store: membership, insertion with at most one eviction, and removal.  Inclusion between
  an upper and a lower store survives an insertion into the lower one if its victim is removed
  from the upper one.
\<close>

locale line_store =
  fixes has :: "'c \<Rightarrow> int \<Rightarrow> 'e + bool"
    and ins :: "'c \<Rightarrow> int \<Rightarrow> 'e + 'c \<times> int option"
    and del :: "'c \<Rightarrow> int \<Rightarrow> 'e + 'c"
    and invar :: "'c \<Rightarrow> bool"
    and lns :: "'c \<Rightarrow> int set"
  assumes has_eq: "invar c \<Longrightarrow> has c l = Inr (l \<in> lns c)"
    and ins_eq: "invar c \<Longrightarrow> \<exists>c' ev. ins c l = Inr (c', ev) \<and> invar c' \<and>
      lns c' = insert l (lns c) - set_option ev \<and> (\<forall>e. ev = Some e \<longrightarrow> e \<in> lns c \<and> e \<noteq> l \<and> l \<notin> lns c)"
    and del_eq: "invar c \<Longrightarrow> \<exists>c'. del c l = Inr c' \<and> invar c' \<and> lns c' = lns c - {l}"
begin

lemma ins_has: "invar c \<Longrightarrow> ins c l = Inr (c', ev) \<Longrightarrow> has c' l = Inr True"
  using ins_eq [of c l] has_eq by (auto simp: has_eq)

lemma ins_keeps: "invar c \<Longrightarrow> ins c l = Inr (c', ev) \<Longrightarrow> x \<in> lns c \<Longrightarrow> ev \<noteq> Some x \<Longrightarrow> x \<in> lns c'"
  using ins_eq [of c l] by auto

lemma inclusion_step:
  assumes low: "invar low" and up: "invar up" and sub: "lns up \<subseteq> insert l (lns low)"
    and ins: "ins low l = Inr (low', ev)"
  shows "case ev of None \<Rightarrow> lns up \<subseteq> lns low'
     | Some e \<Rightarrow> \<exists>up'. del up e = Inr up' \<and> invar up' \<and> lns up' \<subseteq> lns low' \<and>
         (l \<in> lns up \<longrightarrow> l \<in> lns up')"
  using ins_eq [OF low, of l] del_eq [OF up] sub ins by (fastforce split: option.split)

end

interpretation lru: line_store contains touch cache_remove cache_wf lines_of
proof (unfold_locales, goal_cases)
  case (1 c l) then show ?case by (rule contains_eq)
next
  case (2 c l) then show ?case using touch_eq [of c l] by blast
next
  case (3 c l) then show ?case using cache_remove_eq [of c l] by blast
qed

end
