(* ===== verification/Memory.thy ===== *)
theory Memory
  imports Cache
begin

text \<open>
  \<open>MemoryHierarchy\<close> of \<open>src/simulator/memory.py\<close>: an inclusive LRU hierarchy with pending
  fills, one bandwidth token per (level, access) and a bounded list of outstanding misses per
  level.  The state record carries the profile values the class reads (\<open>mh_entries\<close>, the
  \<open>levels\<close> and \<open>dram\<close> entries); latencies are decimals \<open>(m, k)\<close>, the number \<open>m\<close> times
  ten to \<open>-k\<close>, as \<open>Fraction(str(cycles))\<close> reads them.  Every operation returns a result and
  the updated state, since \<open>peek_level\<close> already completes fills.
\<close>

type_synonym decimal = "int \<times> nat"

definition ticks :: "int \<Rightarrow> decimal \<Rightarrow> mem_error + int" where
  "ticks ticks_per_cycle cycles =
     (case cycles of (m, k) \<Rightarrow>
       if (m * ticks_per_cycle) mod 10 ^ k \<noteq> 0 then Inl (NonIntegerTicks m k)
       else Inr ((m * ticks_per_cycle) div 10 ^ k))"

record level_entry =
  le_size_bytes :: int
  le_ways :: int
  le_latency_cycles :: decimal
  le_read_bytes_per_cycle :: int
  le_write_bytes_per_cycle :: int
  le_max_outstanding :: int

datatype cache_mode = HotL1 | HotCapacity | Cold | OtherMode string

record mem_profile =
  mp_line_bytes :: int
  mp_levels :: "(string, level_entry) dict"
  mp_dram :: level_entry
  mp_ticks_per_cycle :: int

record memory_hierarchy =
  mh_profile :: mem_profile
  mh_mode :: cache_mode
  mh_level_order :: "string list"
  mh_caches :: "(string, cache) dict"
  mh_bandwidth_free :: "(string \<times> string, int) dict"
  mh_outstanding :: "(string, int list) dict"
  mh_pending_fills :: "(int, int \<times> string) dict"
  mh_hits :: "(string, int) dict"

record memory_access =
  ma_level :: string
  ma_latency_ticks :: int
  ma_bandwidth_ticks :: int
  ma_completion_tick :: int

section \<open>Lookups\<close>

definition dram :: string where "dram = ''dram''"

fun index_of :: "'a list \<Rightarrow> 'a \<Rightarrow> nat option" where
  "index_of [] x = None"
| "index_of (y # ys) x = (if x = y then Some 0 else map_option Suc (index_of ys x))"

definition level_index :: "memory_hierarchy \<Rightarrow> string \<Rightarrow> mem_error + nat" where
  "level_index h level =
     (case index_of (mh_level_order h) level of None \<Rightarrow> Inl (MemValueError level) | Some i \<Rightarrow> Inr i)"

definition source_index :: "memory_hierarchy \<Rightarrow> string \<Rightarrow> mem_error + nat" where
  "source_index h level =
     (if level = dram then Inr (length (mh_level_order h)) else level_index h level)"

definition level_cache :: "memory_hierarchy \<Rightarrow> string \<Rightarrow> mem_error + cache" where
  "level_cache h level = fetch MemKeyError (mh_caches h) level"

definition level_entry_of :: "memory_hierarchy \<Rightarrow> string \<Rightarrow> mem_error + level_entry" where
  "level_entry_of h level =
     (if level = dram then Inr (mp_dram (mh_profile h))
      else fetch MemKeyError (mp_levels (mh_profile h)) level)"

definition outstanding_limit :: "memory_hierarchy \<Rightarrow> string \<Rightarrow> mem_error + int" where
  "outstanding_limit h level = rbind (level_entry_of h level) (\<lambda>e. Inr (le_max_outstanding e))"

definition miss_path :: "memory_hierarchy \<Rightarrow> string \<Rightarrow> mem_error + string list" where
  "miss_path h hit_level =
     (if hit_level = dram then Inr (mh_level_order h @ [dram])
      else rbind (level_index h hit_level) (\<lambda>i. Inr (take i (mh_level_order h))))"

section \<open>Fills\<close>

definition touch_level :: "memory_hierarchy \<Rightarrow> string \<Rightarrow> int
    \<Rightarrow> mem_error + memory_hierarchy \<times> int option" where
  "touch_level h level line =
     rbind (level_cache h level) (\<lambda>c. rbind (touch c line) (\<lambda>(c', evicted).
       Inr (h\<lparr>mh_caches := AList.update level c' (mh_caches h)\<rparr>, evicted)))"

definition remove_level :: "int \<Rightarrow> string \<Rightarrow> memory_hierarchy \<Rightarrow> mem_error + memory_hierarchy" where
  "remove_level line level h =
     rbind (level_cache h level) (\<lambda>c. rbind (cache_remove c line) (\<lambda>c'.
       Inr (h\<lparr>mh_caches := AList.update level c' (mh_caches h)\<rparr>)))"

definition fill_level :: "int \<Rightarrow> nat \<times> string \<Rightarrow> memory_hierarchy
    \<Rightarrow> mem_error + memory_hierarchy" where
  "fill_level line indexed h =
     (case indexed of (i, level) \<Rightarrow>
       rbind (touch_level h level line) (\<lambda>(h', evicted).
         case evicted of None \<Rightarrow> Inr h'
         | Some e \<Rightarrow> rfold (remove_level e) (take i (mh_level_order h')) h'))"

definition fill_lower :: "int \<Rightarrow> string \<Rightarrow> memory_hierarchy \<Rightarrow> mem_error + memory_hierarchy" where
  "fill_lower line level h =
     rbind (touch_level h level line) (\<lambda>(h', evicted).
       case evicted of None \<Rightarrow> Inr h'
       | Some e \<Rightarrow> rbind (level_index h' level) (\<lambda>i.
           rfold (remove_level e) (take i (mh_level_order h')) h'))"

definition fill_inclusive :: "memory_hierarchy \<Rightarrow> int \<Rightarrow> string
    \<Rightarrow> mem_error + memory_hierarchy" where
  "fill_inclusive h line source_level =
     rbind (source_index h source_level) (\<lambda>i.
     rbind (rfold (fill_level line)
         (List.enumerate 0 (take (Suc i) (mh_level_order h))) h) (\<lambda>h'.
     rfold (fill_lower line) (drop (Suc i) (mh_level_order h)) h'))"

definition complete_one :: "int \<times> string \<Rightarrow> memory_hierarchy \<Rightarrow> mem_error + memory_hierarchy" where
  "complete_one p h = (case p of (line, source) \<Rightarrow>
     rbind (fill_inclusive h line source) (\<lambda>h'.
     rbind (fetch (\<lambda>_. MemKeyError ''pending_fills'') (mh_pending_fills h') line) (\<lambda>_.
     Inr (h'\<lparr>mh_pending_fills := AList.delete line (mh_pending_fills h')\<rparr>))))"

definition complete_fills :: "memory_hierarchy \<Rightarrow> int \<Rightarrow> mem_error + memory_hierarchy" where
  "complete_fills h now =
     (let completed = map (\<lambda>(line, completion, source). (line, source))
            (filter (\<lambda>(line, completion, source). completion \<le> now) (mh_pending_fills h)) in
      rfold complete_one (sort completed) h)"

section \<open>Construction\<close>

definition levels_and_dram :: "mem_profile \<Rightarrow> string list" where
  "levels_and_dram p = keys (mp_levels p) @ [dram]"

definition trace_lines :: "instruction list \<Rightarrow> int list" where
  "trace_lines source =
     ordered_unique (concat (map (\<lambda>i. case i_memory i of None \<Rightarrow> [] | Some m \<Rightarrow> mr_cache_lines m)
       source))"

fun first_holding :: "memory_hierarchy \<Rightarrow> int list \<Rightarrow> string list \<Rightarrow> mem_error + string option" where
  "first_holding h lines [] = Inr None"
| "first_holding h lines (level # levels) =
     rbind (level_cache h level) (\<lambda>c. rbind (can_hold c lines) (\<lambda>ok.
       if ok then Inr (Some level) else first_holding h lines levels))"

definition touch_into :: "int \<Rightarrow> string \<Rightarrow> memory_hierarchy \<Rightarrow> mem_error + memory_hierarchy" where
  "touch_into line level h = rbind (touch_level h level line) (\<lambda>(h', evicted). Inr h')"

definition initialize :: "instruction list \<Rightarrow> memory_hierarchy \<Rightarrow> mem_error + memory_hierarchy" where
  "initialize source h =
     (let lines = trace_lines source; order = mh_level_order h in
      if mh_mode h = Cold then Inr h
      else
        rbind (if mh_mode h = HotL1
               then (case order of [] \<Rightarrow> Inl MemIndexError
                     | level # _ \<Rightarrow>
                         rbind (level_cache h level) (\<lambda>c. rbind (can_hold c lines) (\<lambda>ok.
                         if ok then Inr level else Inl (WorkingSetNotResident level))))
               else rbind (first_holding h lines order) (\<lambda>found.
                      case found of None \<Rightarrow> Inl WorkingSetExceedsCapacity
                      | Some level \<Rightarrow> Inr level)) (\<lambda>level.
        rbind (level_index h level) (\<lambda>target.
        rfold (\<lambda>line h1.
            rbind (rfold (touch_into line) (drop target order) h1) (\<lambda>h2.
            if mh_mode h = HotL1 then rfold (touch_into line) (take target order) h2
            else Inr h2))
          (sort lines) h)))"

definition make_hierarchy :: "mem_profile \<Rightarrow> instruction list \<Rightarrow> cache_mode
    \<Rightarrow> mem_error + memory_hierarchy" where
  "make_hierarchy p source mode =
     (case mode of OtherMode s \<Rightarrow> Inl (UnknownCacheMode s) | _ \<Rightarrow>
       rbind (rmap (\<lambda>(level, e).
           rbind (make_cache (le_size_bytes e) (le_ways e) (mp_line_bytes p)) (\<lambda>c.
           Inr (level, c))) (mp_levels p)) (\<lambda>caches.
       initialize source
         \<lparr>mh_profile = p, mh_mode = mode, mh_level_order = keys (mp_levels p),
          mh_caches = caches,
          mh_bandwidth_free =
            concat (map (\<lambda>l. [((l, ''load''), 0), ((l, ''store''), 0)]) (levels_and_dram p)),
          mh_outstanding = map (\<lambda>l. (l, [])) (levels_and_dram p),
          mh_pending_fills = [],
          mh_hits = map (\<lambda>l. (l, 0)) (levels_and_dram p)\<rparr>))"

section \<open>Accesses\<close>

fun first_level_with :: "memory_hierarchy \<Rightarrow> int \<Rightarrow> nat \<Rightarrow> string list \<Rightarrow> mem_error + nat" where
  "first_level_with h line offset [] = Inr offset"
| "first_level_with h line offset (level # levels) =
     rbind (level_cache h level) (\<lambda>c. rbind (contains c line) (\<lambda>found.
       if found then Inr offset else first_level_with h line (Suc offset) levels))"

definition line_level :: "memory_hierarchy \<Rightarrow> int \<Rightarrow> mem_error + nat" where
  "line_level h line =
     (case map_of (mh_pending_fills h) line of
        Some (completion, level) \<Rightarrow> source_index h level
      | None \<Rightarrow> first_level_with h line 0 (mh_level_order h))"

definition peek_level :: "memory_hierarchy \<Rightarrow> mem_ref option \<Rightarrow> int
    \<Rightarrow> mem_error + memory_hierarchy \<times> string" where
  "peek_level h memory now =
     rbind (complete_fills h now) (\<lambda>h.
     case memory of None \<Rightarrow> Inl NonMemoryUop
     | Some m \<Rightarrow>
       rbind (rfold (\<lambda>line worst. rbind (line_level h line) (\<lambda>i. Inr (max worst (int i))))
         (mr_cache_lines m) (-1)) (\<lambda>worst.
       if worst = int (length (mh_level_order h)) then Inr (h, dram)
       else case py_index (mh_level_order h) worst of
              None \<Rightarrow> Inl MemIndexError
            | Some i \<Rightarrow> Inr (h, mh_level_order h ! i)))"

definition has_pending :: "memory_hierarchy \<Rightarrow> mem_ref \<Rightarrow> bool" where
  "has_pending h m \<longleftrightarrow> (\<exists>line\<in>set (mr_cache_lines m). line \<in> set (keys (mh_pending_fills h)))"

fun outstanding_blocker :: "string list \<Rightarrow> memory_hierarchy \<Rightarrow> int
    \<Rightarrow> mem_error + memory_hierarchy \<times> (string option \<times> int)" where
  "outstanding_blocker [] h now = Inr (h, None, now)"
| "outstanding_blocker (level # levels) h now =
     rbind (fetch MemKeyError (mh_outstanding h) level) (\<lambda>ts.
     let pending = filter (\<lambda>tick. tick > now) ts;
         h' = h\<lparr>mh_outstanding := AList.update level pending (mh_outstanding h)\<rparr> in
     rbind (outstanding_limit h' level) (\<lambda>limit.
     if int (length pending) \<ge> limit
     then (case pending of [] \<Rightarrow> Inl (MemValueError ''min'')
           | t # ts \<Rightarrow> Inr (h', Some ''memory_outstanding'', min_of t ts))
     else outstanding_blocker levels h' now))"

definition blocker :: "memory_hierarchy \<Rightarrow> mem_ref option \<Rightarrow> int
    \<Rightarrow> mem_error + memory_hierarchy \<times> (string option \<times> int)" where
  "blocker h memory now =
     rbind (peek_level h memory now) (\<lambda>(h, level).
     case memory of None \<Rightarrow> Inl NonMemoryUop
     | Some m \<Rightarrow>
       if has_pending h m then Inr (h, None, now)
       else rbind (fetch (\<lambda>_. MemKeyError level) (mh_bandwidth_free h) (level, mr_access m)) (\<lambda>free.
         if free > now then Inr (h, Some ''memory_bandwidth'', free)
         else rbind (miss_path h level) (\<lambda>path. outstanding_blocker path h now)))"

definition ceil_div :: "int \<Rightarrow> int \<Rightarrow> int" where
  "ceil_div a b = - ((- a) div b)"

definition add_hits :: "memory_hierarchy \<Rightarrow> string \<Rightarrow> int \<Rightarrow> mem_error + memory_hierarchy" where
  "add_hits h level n =
     rbind (fetch MemKeyError (mh_hits h) level) (\<lambda>old.
     Inr (h\<lparr>mh_hits := AList.update level (old + n) (mh_hits h)\<rparr>))"

definition note_line :: "string \<Rightarrow> int \<Rightarrow> int \<Rightarrow> memory_hierarchy
    \<Rightarrow> mem_error + memory_hierarchy" where
  "note_line level completion line h =
     (case mh_level_order h of [] \<Rightarrow> Inl MemIndexError
      | l1 # _ \<Rightarrow>
        if level = l1 then touch_into line level h
        else Inr (h\<lparr>mh_pending_fills :=
               AList.update line (completion, level) (mh_pending_fills h)\<rparr>))"

definition issue_request :: "memory_hierarchy \<Rightarrow> mem_ref \<Rightarrow> string \<Rightarrow> int
    \<Rightarrow> mem_error + memory_hierarchy \<times> memory_access" where
  "issue_request h m level now =
     rbind (level_entry_of h level) (\<lambda>e.
     rbind (ticks (mp_ticks_per_cycle (mh_profile h)) (le_latency_cycles e)) (\<lambda>latency_ticks.
     let bytes_per_cycle = (if mr_access m = ''store'' then le_write_bytes_per_cycle e
                            else le_read_bytes_per_cycle e) in
     if bytes_per_cycle = 0 then Inl MemZeroDivision
     else let bandwidth_ticks =
            ceil_div (mr_bytes m * mp_ticks_per_cycle (mh_profile h)) bytes_per_cycle;
          h1 = h\<lparr>mh_bandwidth_free :=
            AList.update (level, mr_access m) (now + bandwidth_ticks) (mh_bandwidth_free h)\<rparr>;
          completion = now + latency_ticks in
     rbind (miss_path h1 level) (\<lambda>path.
     rbind (rfold (\<lambda>missed h. rbind (fetch MemKeyError (mh_outstanding h) missed) (\<lambda>ts.
         Inr (h\<lparr>mh_outstanding := AList.update missed (ts @ [completion]) (mh_outstanding h)\<rparr>)))
       path h1) (\<lambda>h2.
     rbind (add_hits h2 level (int (length (mr_cache_lines m)))) (\<lambda>h3.
     rbind (rfold (note_line level completion) (mr_cache_lines m) h3) (\<lambda>h4.
     Inr (h4, \<lparr>ma_level = level, ma_latency_ticks = latency_ticks,
               ma_bandwidth_ticks = bandwidth_ticks, ma_completion_tick = completion\<rparr>)))))))"

definition access :: "memory_hierarchy \<Rightarrow> mem_ref option \<Rightarrow> int
    \<Rightarrow> mem_error + memory_hierarchy \<times> memory_access" where
  "access h memory now =
     rbind (blocker h memory now) (\<lambda>(h, reason, _).
     case reason of Some r \<Rightarrow> Inl (AccessWhileBlocked r)
     | None \<Rightarrow>
       rbind (peek_level h memory now) (\<lambda>(h, level).
       case memory of None \<Rightarrow> Inl NonMemoryUop
       | Some m \<Rightarrow>
         let pending = List.map_filter (\<lambda>line. map_of (mh_pending_fills h) line)
               (mr_cache_lines m) in
         (case pending of
            p # ps \<Rightarrow>
              let completion = max_of (fst p) (map fst ps) in
              rbind (add_hits h level (int (length (mr_cache_lines m)))) (\<lambda>h.
              Inr (h, \<lparr>ma_level = level, ma_latency_ticks = completion - now,
                       ma_bandwidth_ticks = 0, ma_completion_tick = completion\<rparr>))
          | [] \<Rightarrow> issue_request h m level now)))"

end
