(* ===== verification/Semantic.thy ===== *)
theory Semantic
  imports TraceModel
begin

text \<open>
  Binding of ISA-neutral semantic uops to the execution uops of a profile recipe
  (\<open>src/simulator/semantic.py\<close>).  A \<open>frozenset\<close> of kinds is the list of its elements; only
  membership is used.  An execution entry is the pair of its optional \<open>id\<close>, which only the
  error message prints, and its \<open>kind\<close>.
\<close>

datatype semantic_error =
    NoSemanticUops string
  | NoCompatible string "string option" string
  | Ambiguous string "string option" string
  | Unimplemented string "string list"

definition SEMANTIC_EXECUTION_KINDS :: "(string, string list) dict" where
  "SEMANTIC_EXECUTION_KINDS =
     [(''scalar_alu'', [''scalar_alu'']),
      (''scalar_load'', [''load_data'']),
      (''scalar_store'', [''store_data'']),
      (''scalar_fp_add'', [''scalar_fp_add'', ''scalar_fp'']),
      (''scalar_fp_div'', [''scalar_fp_div'', ''scalar_fp'']),
      (''scalar_move'', [''scalar_move'', ''scalar_alu'']),
      (''branch'', [''branch'']),
      (''return'', [''return'', ''branch'']),
      (''vector_config'', [''vector_config'', ''vector_control'', ''vector_integer'']),
      (''address_generation'', [''address_generation'']),
      (''vector_load'', [''load_data'']),
      (''vector_store'', [''store_data'']),
      (''vector_broadcast'', [''vector_fp'', ''vector_integer'']),
      (''vector_move'', [''vector_fp'', ''vector_integer'']),
      (''vector_fp_add'', [''vector_fp'']),
      (''vector_fp_sub'', [''vector_fp'']),
      (''vector_fp_mul'', [''vector_fp'']),
      (''vector_fp_fma'', [''vector_fp'']),
      (''vector_fp_max'', [''vector_fp'']),
      (''vector_reduce_add'', [''vector_fp'']),
      (''vector_reduce_max'', [''vector_fp'']),
      (''vector_convert'', [''conversion'']),
      (''vector_integer'', [''vector_integer'']),
      (''vector_shift'', [''vector_integer'']),
      (''vector_shuffle'', [''shuffle''])]"

definition SEMANTIC_RESOURCES :: "(string, string) dict" where
  "SEMANTIC_RESOURCES =
     [(''scalar_alu'', ''scalar integer ALU''),
      (''scalar_load'', ''load data path''),
      (''scalar_store'', ''store data path''),
      (''scalar_fp_add'', ''scalar FP add/sub''),
      (''scalar_fp_div'', ''scalar FP divide''),
      (''scalar_move'', ''scalar integer ALU''),
      (''branch'', ''branch unit''),
      (''return'', ''branch unit''),
      (''vector_config'', ''vector control''),
      (''address_generation'', ''address generation unit''),
      (''vector_load'', ''load data path''),
      (''vector_store'', ''store data path''),
      (''vector_broadcast'', ''vector move/broadcast''),
      (''vector_move'', ''vector move''),
      (''vector_fp_add'', ''vector FP add/sub''),
      (''vector_fp_sub'', ''vector FP add/sub''),
      (''vector_fp_mul'', ''vector FP multiply''),
      (''vector_fp_fma'', ''vector FP FMA''),
      (''vector_fp_max'', ''vector FP compare/max''),
      (''vector_reduce_add'', ''vector FP reduction''),
      (''vector_reduce_max'', ''vector FP reduction''),
      (''vector_convert'', ''vector conversion''),
      (''vector_integer'', ''vector integer ALU''),
      (''vector_shift'', ''vector integer shift''),
      (''vector_shuffle'', ''vector shuffle'')]"

definition semantic_id :: "string \<Rightarrow> string \<Rightarrow> string" where
  "semantic_id instruction_id local_id =
     (let suffix = (case local_id of [] \<Rightarrow> local_id
        | c # rest \<Rightarrow> if [c] = ''u'' then ''s'' @ rest else local_id) in
      instruction_id @ ''.'' @ suffix)"

definition implements_kind :: "string \<Rightarrow> string \<Rightarrow> bool" where
  "implements_kind execution_kind semantic_kind \<longleftrightarrow>
     (case map_of SEMANTIC_EXECUTION_KINDS semantic_kind of None \<Rightarrow> False
      | Some kinds \<Rightarrow> execution_kind \<in> set kinds)"

definition semantic_candidates :: "(string \<times> string) list \<Rightarrow> string \<Rightarrow> string list" where
  "semantic_candidates semantics execution_kind =
     map fst (filter (\<lambda>(current_id, semantic_kind). implements_kind execution_kind semantic_kind)
       semantics)"

definition bind_entry :: "string \<Rightarrow> (string \<times> string) list \<Rightarrow> string option \<times> string
    \<Rightarrow> semantic_error + string list" where
  "bind_entry instruction_id semantics entry =
     (case entry of (entry_id, kind) \<Rightarrow>
       (case semantic_candidates semantics kind of
          [c] \<Rightarrow> Inr [c]
        | [] \<Rightarrow> Inl (NoCompatible instruction_id entry_id kind)
        | _ \<Rightarrow> Inl (Ambiguous instruction_id entry_id kind)))"

definition semantics_of :: "string \<Rightarrow> semantic_uop list \<Rightarrow> (string \<times> string) list" where
  "semantics_of instruction_id entries =
     map (\<lambda>e. (semantic_id instruction_id (s_local_id e), s_kind e)) entries"

definition bind_execution_semantics ::
    "instruction \<Rightarrow> (string option \<times> string) list \<Rightarrow> semantic_error + string list list" where
  "bind_execution_semantics instruction execution_entries =
     (let semantics = semantics_of (i_id instruction) (i_semantic_uops instruction) in
      if semantics = [] then Inl (NoSemanticUops (i_id instruction))
      else rbind (rmap (bind_entry (i_id instruction) semantics) execution_entries) (\<lambda>result.
        let covered = concat result;
            missing = filter (\<lambda>current_id. current_id \<notin> set covered) (map fst semantics) in
        if missing \<noteq> [] then Inl (Unimplemented (i_id instruction) missing)
        else Inr result))"

section \<open>The binding relation\<close>

text \<open>
  The specification: every execution uop has exactly one semantic uop of a compatible kind, and
  every semantic uop is implemented by at least one execution uop.
\<close>

definition implementers :: "(string \<times> string) list \<Rightarrow> string \<Rightarrow> (string \<times> string) list" where
  "implementers semantics kind = filter (\<lambda>(i, k). implements_kind kind k) semantics"

definition bindable :: "instruction \<Rightarrow> (string option \<times> string) list \<Rightarrow> bool" where
  "bindable instruction entries \<longleftrightarrow>
     (let semantics = semantics_of (i_id instruction) (i_semantic_uops instruction) in
      semantics \<noteq> [] \<and>
      (\<forall>(i, kind)\<in>set entries. length (implementers semantics kind) = 1) \<and>
      (\<forall>(sid, k)\<in>set semantics. \<exists>(i, kind)\<in>set entries. sid \<in> fst ` set (implementers semantics kind)))"

lemma bind_entry_Inr:
  "bind_entry i semantics (eid, kind) = Inr ids \<longleftrightarrow>
     length (implementers semantics kind) = 1 \<and> ids = map fst (implementers semantics kind)"
  by (auto simp: bind_entry_def semantic_candidates_def implementers_def length_Suc_conv
      split: list.splits)

lemma bind_entries_Inr:
  "rmap (bind_entry i semantics) entries = Inr result \<longleftrightarrow>
     (\<forall>(eid, kind)\<in>set entries. length (implementers semantics kind) = 1) \<and>
     result = map (\<lambda>(eid, kind). map fst (implementers semantics kind)) entries"
proof (induction entries arbitrary: result)
  case (Cons e entries)
  obtain eid kind where e: "e = (eid, kind)" by (cases e)
  show ?case
    by (auto simp: rbind_eq_Inr_iff bind_entry_Inr e Cons.IH)
qed auto

text \<open>
  C16. Binding succeeds exactly when it is determined: every execution uop has one compatible
  semantic uop and every semantic uop is covered; the result then lists, entry by entry, that
  unique semantic uop.
\<close>

theorem bind_execution_semantics_correct:
  "bind_execution_semantics instruction entries = Inr result \<longleftrightarrow>
     bindable instruction entries \<and>
     result = map (\<lambda>(eid, kind). map fst (implementers
       (semantics_of (i_id instruction) (i_semantic_uops instruction)) kind)) entries"
proof -
  let ?sem = "semantics_of (i_id instruction) (i_semantic_uops instruction)"
  have "set (concat (map (\<lambda>(eid, kind). map fst (implementers ?sem kind)) entries)) =
      {sid. \<exists>(i, kind)\<in>set entries. sid \<in> fst ` set (implementers ?sem kind)}"
    by (auto simp: case_prod_unfold)
  then have cover: "filter (\<lambda>c. c \<notin> set (concat (map (\<lambda>(eid, kind). map fst (implementers ?sem kind)) entries)))
      (map fst ?sem) = [] \<longleftrightarrow>
      (\<forall>(sid, k)\<in>set ?sem. \<exists>(i, kind)\<in>set entries. sid \<in> fst ` set (implementers ?sem kind))"
    by (simp add: filter_empty_conv case_prod_unfold del: set_concat)
  show ?thesis
    unfolding bind_execution_semantics_def bindable_def Let_def
    using cover by (auto simp: rbind_eq_Inr_iff bind_entries_Inr simp del: set_concat)
qed

section \<open>The vocabulary\<close>

text \<open>
  Every semantic kind has an execution class and a resource name, and every kind a bound trace
  classifies as using the vector scheduler implements some semantic kind except the divider.
\<close>

lemma vocabulary_closed:
  "keys SEMANTIC_EXECUTION_KINDS = keys SEMANTIC_RESOURCES"
  "\<forall>kind\<in>set VECTOR_RESOURCE_KINDS - {''vector_divide''}.
     \<exists>s\<in>set (keys SEMANTIC_EXECUTION_KINDS). implements_kind kind s"
  by (simp add: keys_def SEMANTIC_EXECUTION_KINDS_def SEMANTIC_RESOURCES_def)
    (auto simp: keys_def SEMANTIC_EXECUTION_KINDS_def VECTOR_RESOURCE_KINDS_def implements_kind_def)

end
