(* ===== verification/Zen4.thy ===== *)
theory Zen4
  imports TraceCheck Memory Semantic
begin

text \<open>
  The Zen 4 timing engine (\<open>src/backend/zen4.py\<close>).

  \<open>zen4_env\<close> holds what a run never changes (profile values, execution model, the discovered
  memory-compute groups, the order of the trace), \<open>zen4_state\<close> the attributes a run mutates.
  \<open>self.uops\<close> and \<open>trace.uops\<close> share their objects, so the list is the list of ids
  \<open>e_uop_order\<close> and the objects are in the dictionary; the same holds for the macro-ops.  \<open>unissued_dispatched\<close> is the list of the elements of the set.  Ticks
  are integers and \<open>math.inf\<close> is \<open>None\<close>.  Float divisions by \<open>ticks_per_cycle\<close> are reported
  as the pair of both integers.
\<close>

datatype zen4_error =
    UnknownExecutionModel string
  | InvalidTrace trace_error
  | MemoryFailure mem_error
  | UnknownIssueDomains "string list"
  | NotConverged
  | NoForwardProgress int
  | Deadlock "string list"
  | DemandExceedsDomain string int string nat
  | DomainTokenUnavailable string
  | ResourceUnavailable
  | EngineKeyError string
  | EngineValueError
  | EngineIndexError
  | EngineZeroDivision

datatype event =
    UopEvent string int execution_uop
  | RetireEvent int macro_op

record zen4_profile =
  zp_dispatch_width :: int
  zp_retire_width :: int
  zp_rob_entries :: int
  zp_vector_scheduler_entries :: int
  zp_load_queue_entries :: int
  zp_store_queue_entries :: int
  zp_issue_domains :: "(string, int) dict"
  zp_overlap_enabled :: bool
  zp_overlap_max_pending :: int
  zp_overlap_kinds :: "string list"
  zp_memory :: mem_profile

record zen4_env =
  e_profile :: zen4_profile
  e_in_order :: bool
  e_tpc :: int
  e_overlap_enabled :: bool
  e_groups :: "(string, string list) dict"
  e_macro_order :: "string list"
  e_uop_order :: "string list"

record zen4_state =
  z_uops :: "(string, execution_uop) dict"
  z_macros :: "(string, macro_op) dict"
  z_memory :: memory_hierarchy
  z_rob :: "string list"
  z_unissued :: "string list"
  z_heap :: "(int \<times> int \<times> string) list"
  z_resource_free :: "(string, int list) dict"
  z_last_class :: "(string, int) dict"
  z_domain_free :: "(string, int list) dict"
  z_pending_groups :: "string list"
  z_next_dispatch :: nat
  z_issue_index :: nat
  z_rob_occupancy :: int
  z_vector_occupancy :: int
  z_load_occupancy :: int
  z_store_occupancy :: int
  z_peaks :: "(string, int) dict"
  z_stalls :: "(string, int) dict"
  z_events :: "event list"

type_synonym 'a zresult = "zen4_error + 'a"

abbreviation zget :: "(string, 'v) dict \<Rightarrow> string \<Rightarrow> 'v zresult" where
  "zget d k \<equiv> fetch EngineKeyError d k"

definition lift_mem :: "mem_error + 'a \<Rightarrow> 'a zresult" where
  "lift_mem m = (case m of Inl e \<Rightarrow> Inl (MemoryFailure e) | Inr x \<Rightarrow> Inr x)"

definition lift_trace :: "trace_error + 'a \<Rightarrow> 'a zresult" where
  "lift_trace m = (case m of Inl e \<Rightarrow> Inl (InvalidTrace e) | Inr x \<Rightarrow> Inr x)"

definition put_uop :: "execution_uop \<Rightarrow> zen4_state \<Rightarrow> zen4_state" where
  "put_uop u s = s\<lparr>z_uops := AList.update (u_id u) u (z_uops s)\<rparr>"

definition put_macro :: "macro_op \<Rightarrow> zen4_state \<Rightarrow> zen4_state" where
  "put_macro m s = s\<lparr>z_macros := AList.update (m_id m) m (z_macros s)\<rparr>"

definition log_event :: "event \<Rightarrow> zen4_state \<Rightarrow> zen4_state" where
  "log_event e s = s\<lparr>z_events := z_events s @ [e]\<rparr>"

lemma put_uop_fields [simp]:
  "z_uops (put_uop u s) = AList.update (u_id u) u (z_uops s)"
  "z_macros (put_uop u s) = z_macros s" "z_memory (put_uop u s) = z_memory s"
  "z_rob (put_uop u s) = z_rob s" "z_unissued (put_uop u s) = z_unissued s"
  "z_heap (put_uop u s) = z_heap s" "z_resource_free (put_uop u s) = z_resource_free s"
  "z_last_class (put_uop u s) = z_last_class s" "z_domain_free (put_uop u s) = z_domain_free s"
  "z_pending_groups (put_uop u s) = z_pending_groups s"
  "z_next_dispatch (put_uop u s) = z_next_dispatch s"
  "z_issue_index (put_uop u s) = z_issue_index s"
  "z_rob_occupancy (put_uop u s) = z_rob_occupancy s"
  "z_vector_occupancy (put_uop u s) = z_vector_occupancy s"
  "z_load_occupancy (put_uop u s) = z_load_occupancy s"
  "z_store_occupancy (put_uop u s) = z_store_occupancy s" "z_peaks (put_uop u s) = z_peaks s"
  "z_stalls (put_uop u s) = z_stalls s" "z_events (put_uop u s) = z_events s"
  by (simp_all add: put_uop_def)

lemma put_macro_fields [simp]:
  "z_uops (put_macro m s) = z_uops s"
  "z_macros (put_macro m s) = AList.update (m_id m) m (z_macros s)"
  "z_memory (put_macro m s) = z_memory s" "z_rob (put_macro m s) = z_rob s"
  "z_unissued (put_macro m s) = z_unissued s" "z_heap (put_macro m s) = z_heap s"
  "z_resource_free (put_macro m s) = z_resource_free s"
  "z_last_class (put_macro m s) = z_last_class s"
  "z_domain_free (put_macro m s) = z_domain_free s"
  "z_pending_groups (put_macro m s) = z_pending_groups s"
  "z_next_dispatch (put_macro m s) = z_next_dispatch s"
  "z_issue_index (put_macro m s) = z_issue_index s"
  "z_rob_occupancy (put_macro m s) = z_rob_occupancy s"
  "z_vector_occupancy (put_macro m s) = z_vector_occupancy s"
  "z_load_occupancy (put_macro m s) = z_load_occupancy s"
  "z_store_occupancy (put_macro m s) = z_store_occupancy s"
  "z_peaks (put_macro m s) = z_peaks s" "z_stalls (put_macro m s) = z_stalls s"
  "z_events (put_macro m s) = z_events s"
  by (simp_all add: put_macro_def)

lemma log_event_fields [simp]:
  "z_uops (log_event e s) = z_uops s" "z_macros (log_event e s) = z_macros s"
  "z_memory (log_event e s) = z_memory s" "z_rob (log_event e s) = z_rob s"
  "z_unissued (log_event e s) = z_unissued s" "z_heap (log_event e s) = z_heap s"
  "z_resource_free (log_event e s) = z_resource_free s"
  "z_last_class (log_event e s) = z_last_class s"
  "z_domain_free (log_event e s) = z_domain_free s"
  "z_pending_groups (log_event e s) = z_pending_groups s"
  "z_next_dispatch (log_event e s) = z_next_dispatch s"
  "z_issue_index (log_event e s) = z_issue_index s"
  "z_rob_occupancy (log_event e s) = z_rob_occupancy s"
  "z_vector_occupancy (log_event e s) = z_vector_occupancy s"
  "z_load_occupancy (log_event e s) = z_load_occupancy s"
  "z_store_occupancy (log_event e s) = z_store_occupancy s"
  "z_peaks (log_event e s) = z_peaks s" "z_stalls (log_event e s) = z_stalls s"
  "z_events (log_event e s) = z_events s @ [e]"
  by (simp_all add: log_event_def)

text \<open>\<open>min(xs)\<close>, which raises on an empty list, and \<open>x or 0\<close>.\<close>

definition zmin :: "int list \<Rightarrow> int zresult" where
  "zmin xs = (case xs of [] \<Rightarrow> Inl EngineValueError | x # ys \<Rightarrow> Inr (min_of x ys))"

definition or_zero :: "int option \<Rightarrow> int" where
  "or_zero t = (case t of None \<Rightarrow> 0 | Some n \<Rightarrow> n)"

definition is_memory_kind :: "string \<Rightarrow> bool" where
  "is_memory_kind k \<longleftrightarrow> k = ''load_data'' \<or> k = ''store_data''"

section \<open>Memory-compute groups\<close>

text \<open>\<open>_depends_transitively_on_any\<close>: \<open>pending.pop()\<close> takes the last element.\<close>

function reaches_target :: "string list \<Rightarrow> (string, execution_uop) dict \<Rightarrow> string list \<Rightarrow> string list
    \<Rightarrow> bool" where
  "reaches_target targets macro_uops pending visited =
     (if pending = [] then False
      else let dependency = last pending; rest = butlast pending in
        if dependency \<in> set targets then True
        else if dependency \<in> set visited then reaches_target targets macro_uops rest visited
        else case map_of macro_uops dependency of
            None \<Rightarrow> reaches_target targets macro_uops rest visited
          | Some u \<Rightarrow> reaches_target targets macro_uops (rest @ u_dependencies u)
              (dependency # visited))"
  by pat_completeness auto
termination
proof (relation "measures [\<lambda>(t, d, p, v). length (filter (\<lambda>k. k \<notin> set v) (keys d)),
    \<lambda>(t, d, p, v). length p]", goal_cases)
  case (4 targets d pending visited dep rest u)
  have "dep \<in> set (keys d)" using 4 by (auto simp: keys_map_of)
  from remaining_decreases [OF this, of visited] 4 show ?case by simp
qed (auto simp: length_butlast)

declare reaches_target.simps [simp del]

definition depends_transitively_on_any ::
    "execution_uop \<Rightarrow> string list \<Rightarrow> (string, execution_uop) dict \<Rightarrow> bool" where
  "depends_transitively_on_any uop targets macro_uops =
     reaches_target targets macro_uops (u_dependencies uop) []"

definition semantic_kind_by_id :: "instruction list \<Rightarrow> (string, string) dict" where
  "semantic_kind_by_id source =
     fold (\<lambda>(i, s) d. AList.update (semantic_id (i_id i) (s_local_id s)) (s_kind s) d)
       (concat (map (\<lambda>i. map (\<lambda>s. (i, s)) (i_semantic_uops i)) source)) []"

definition macro_group :: "(string, string) dict \<Rightarrow> string list \<Rightarrow> (string, execution_uop) dict
    \<Rightarrow> macro_op \<Rightarrow> string list zresult" where
  "macro_group kind_by_id kinds uops macro =
     rbind (rmap (\<lambda>i. rbind (zget uops i) (\<lambda>u. Inr (i, u))) (m_uop_ids macro)) (\<lambda>entries.
     let macro_uops = fold (\<lambda>(i, u) d. AList.update i u d) entries [];
         load_ids = map fst (filter (\<lambda>(i, u). u_kind u = ''load_data'') macro_uops) in
     if load_ids = [] then Inr []
     else Inr (map fst (filter (\<lambda>(i, u).
         (\<exists>semantic\<in>set (u_semantic_ids u).
            case map_of kind_by_id semantic of None \<Rightarrow> False | Some k \<Rightarrow> k \<in> set kinds) \<and>
         depends_transitively_on_any u load_ids macro_uops) macro_uops)))"

definition discover_groups :: "(string, string) dict \<Rightarrow> string list \<Rightarrow> (string, execution_uop) dict
    \<Rightarrow> macro_op list \<Rightarrow> (string, string list) dict zresult" where
  "discover_groups kind_by_id kinds uops macros =
     rfold (\<lambda>macro groups. rbind (macro_group kind_by_id kinds uops macro) (\<lambda>ids.
       Inr (if ids = [] then groups else AList.update (m_id macro) ids groups))) macros []"

section \<open>Construction\<close>

definition unknown_domains :: "bound_trace \<Rightarrow> (string, int list) dict \<Rightarrow> string list" where
  "unknown_domains t free =
     sort (ordered_unique (filter (\<lambda>d. d \<notin> set (keys free)) (concat (map u_issue_domains (bt_uops t)))))"

definition make_engine :: "bound_trace \<Rightarrow> zen4_profile \<Rightarrow> string \<Rightarrow> cache_mode \<Rightarrow> bool option
    \<Rightarrow> (zen4_env \<times> zen4_state) zresult" where
  "make_engine t p model mode limit =
     rbind (rguard (model \<in> {''out_of_order'', ''in_order''}) (UnknownExecutionModel model)) (\<lambda>_.
     rbind (lift_trace (validate_bound_trace t)) (\<lambda>_.
     rbind (lift_mem (make_hierarchy (zp_memory p) (bt_source_trace t) mode)) (\<lambda>memory.
     let uops = map (\<lambda>u. (u_id u, u)) (bt_uops t);
         domain_free = map (\<lambda>(d, capacity). (d, replicate (nat capacity) 0)) (zp_issue_domains p);
         unknown = unknown_domains t domain_free in
     rbind (rguard (unknown = []) (UnknownIssueDomains unknown)) (\<lambda>_.
     rbind (discover_groups (semantic_kind_by_id (bt_source_trace t)) (zp_overlap_kinds p) uops
       (bt_macros t)) (\<lambda>groups.
     Inr (\<lparr>e_profile = p, e_in_order = (model = ''in_order''), e_tpc = bt_ticks_per_cycle t,
           e_overlap_enabled = (case limit of None \<Rightarrow> zp_overlap_enabled p | Some b \<Rightarrow> b),
           e_groups = groups, e_macro_order = map m_id (bt_macros t),
           e_uop_order = map u_id (bt_uops t)\<rparr>,
          \<lparr>z_uops = uops, z_macros = map (\<lambda>m. (m_id m, m)) (bt_macros t), z_memory = memory,
           z_rob = [], z_unissued = [], z_heap = [],
           z_resource_free = map (\<lambda>(i, r). (i, replicate (r_capacity r) 0)) (bt_resources t),
           z_last_class = [], z_domain_free = domain_free, z_pending_groups = [],
           z_next_dispatch = 0, z_issue_index = 0, z_rob_occupancy = 0, z_vector_occupancy = 0,
           z_load_occupancy = 0, z_store_occupancy = 0, z_peaks = [], z_stalls = [],
           z_events = []\<rparr>))))))"

section \<open>Completion\<close>

fun all_complete :: "(string, execution_uop) dict \<Rightarrow> string list \<Rightarrow> bool zresult" where
  "all_complete uops [] = Inr True"
| "all_complete uops (i # is) =
     rbind (zget uops i) (\<lambda>u. if u_complete_tick u = None then Inr False else all_complete uops is)"

definition zmax :: "int list \<Rightarrow> int zresult" where
  "zmax xs = (case xs of [] \<Rightarrow> Inl EngineValueError | x # ys \<Rightarrow> Inr (max_of x ys))"

definition finish_parent :: "string \<Rightarrow> zen4_state \<Rightarrow> zen4_state zresult" where
  "finish_parent parent_id s =
     rbind (zget (z_macros s) parent_id) (\<lambda>parent.
     rbind (all_complete (z_uops s) (m_uop_ids parent)) (\<lambda>done.
     if done
     then rbind (rmap (zget (z_uops s)) (m_uop_ids parent)) (\<lambda>us.
          rbind (zmax (map (\<lambda>u. or_zero (u_complete_tick u)) us)) (\<lambda>tick.
          Inr (put_macro (parent\<lparr>m_complete_tick := Some tick\<rparr>) s)))
     else Inr s))"

definition complete_uop :: "int \<Rightarrow> execution_uop \<Rightarrow> zen4_state \<Rightarrow> zen4_state zresult" where
  "complete_uop tick uop s =
     (let done = uop\<lparr>u_complete_tick := Some tick\<rparr> in
      finish_parent (u_parent_id uop) (log_event (UopEvent ''complete'' tick done) (put_uop done s)))"

lemma finish_parent_cases:
  "finish_parent p s = Inr s' \<Longrightarrow> s' = s \<or> (\<exists>m. s' = put_macro m s)"
  by (auto simp: finish_parent_def rbind_eq_Inr_iff split: if_splits)

lemma complete_uop_heap: "complete_uop tick uop s = Inr s' \<Longrightarrow> z_heap s' = z_heap s"
  by (auto simp: complete_uop_def Let_def dest!: finish_parent_cases)

function complete :: "int \<Rightarrow> zen4_state \<Rightarrow> bool \<Rightarrow> (zen4_state \<times> bool) zresult" where
  "complete now s changed =
     (case heappop (z_heap s) of None \<Rightarrow> Inr (s, changed)
      | Some ((tick, sequence, uop_id), rest) \<Rightarrow>
          if tick \<le> now
          then let s1 = s\<lparr>z_heap := rest\<rparr> in
            rbind (zget (z_uops s1) uop_id) (\<lambda>uop.
            if u_complete_tick uop \<noteq> None then complete now s1 changed
            else rbind (complete_uop tick uop s1) (\<lambda>s2. complete now s2 True))
          else Inr (s, changed))"
  by pat_completeness auto
termination
  by (relation "measure (\<lambda>(now, s, changed). length (z_heap s))")
    (auto elim!: heappop.elims dest: complete_uop_heap)

declare complete.simps [simp del]

section \<open>Dispatch\<close>

definition dispatch_blocker :: "zen4_env \<Rightarrow> zen4_state \<Rightarrow> macro_op \<Rightarrow> string option" where
  "dispatch_blocker e s macro =
     (let p = e_profile e in
      if z_rob_occupancy s + m_decoded_macro_ops macro > zp_rob_entries p then Some ''rob_full''
      else if z_vector_occupancy s + of_bool (m_uses_vector_scheduler macro)
          > zp_vector_scheduler_entries p then Some ''vector_scheduler_full''
      else if m_uses_load_queue macro \<and> z_load_occupancy s \<ge> zp_load_queue_entries p
      then Some ''load_queue_full''
      else if m_uses_store_queue macro \<and> z_store_occupancy s \<ge> zp_store_queue_entries p
      then Some ''store_queue_full''
      else None)"

definition dispatch_uop :: "int \<Rightarrow> string \<Rightarrow> zen4_state \<Rightarrow> zen4_state zresult" where
  "dispatch_uop now uop_id s =
     rbind (zget (z_uops s) uop_id) (\<lambda>uop.
     let uop = uop\<lparr>u_dispatch_tick := Some now\<rparr>; s = put_uop uop s;
         s = s\<lparr>z_unissued := if uop_id \<in> set (z_unissued s) then z_unissued s
               else z_unissued s @ [uop_id]\<rparr> in
     Inr (log_event (UopEvent ''dispatch'' now uop) s))"

definition enter_rob :: "int \<Rightarrow> macro_op \<Rightarrow> zen4_state \<Rightarrow> zen4_state" where
  "enter_rob now macro s =
     (let s = put_macro (macro\<lparr>m_dispatch_tick := Some now\<rparr>) s in
      s\<lparr>z_rob := z_rob s @ [m_id macro],
        z_rob_occupancy := z_rob_occupancy s + m_decoded_macro_ops macro,
        z_vector_occupancy := z_vector_occupancy s + of_bool (m_uses_vector_scheduler macro),
        z_load_occupancy := z_load_occupancy s + of_bool (m_uses_load_queue macro),
        z_store_occupancy := z_store_occupancy s + of_bool (m_uses_store_queue macro)\<rparr>)"

definition dispatch_macro :: "int \<Rightarrow> macro_op \<Rightarrow> zen4_state \<Rightarrow> zen4_state zresult" where
  "dispatch_macro now macro s =
     rbind (rfold (dispatch_uop now) (m_uop_ids macro) (enter_rob now macro s)) (\<lambda>s.
     Inr (s\<lparr>z_next_dispatch := Suc (z_next_dispatch s)\<rparr>))"

lemma dispatch_uops_next:
  "rfold (dispatch_uop now) is s = Inr s' \<Longrightarrow> z_next_dispatch s' = z_next_dispatch s"
proof (induction "is" arbitrary: s)
  case (Cons i "is")
  obtain s1 where s1: "dispatch_uop now i s = Inr s1" "rfold (dispatch_uop now) is s1 = Inr s'"
    using Cons.prems by (auto simp: rbind_eq_Inr_iff)
  have "z_next_dispatch s1 = z_next_dispatch s"
    using s1(1) by (auto simp: dispatch_uop_def rbind_eq_Inr_iff Let_def)
  with Cons.IH [OF s1(2)] show ?case by simp
qed simp

lemma dispatch_macro_next:
  "dispatch_macro now macro s = Inr s' \<Longrightarrow> z_next_dispatch s' = Suc (z_next_dispatch s)"
  by (auto simp: dispatch_macro_def rbind_eq_Inr_iff enter_rob_def Let_def dest!: dispatch_uops_next)

function dispatch :: "zen4_env \<Rightarrow> int \<Rightarrow> int \<Rightarrow> zen4_state \<Rightarrow> zen4_state zresult" where
  "dispatch e now dispatched s =
     (let width = zp_dispatch_width (e_profile e) in
      if z_next_dispatch s < length (e_macro_order e) \<and> dispatched < width
      then rbind (zget (z_macros s) (e_macro_order e ! z_next_dispatch s)) (\<lambda>macro.
        if dispatched + m_decoded_macro_ops macro > width then Inr s
        else (case dispatch_blocker e s macro of
            Some reason \<Rightarrow> Inr (s\<lparr>z_stalls := counter_add (z_stalls s) reason 1\<rparr>)
          | None \<Rightarrow> rbind (dispatch_macro now macro s) (\<lambda>s'.
              dispatch e now (dispatched + m_decoded_macro_ops macro) s')))
      else Inr s)"
  by pat_completeness auto
termination
proof (relation "measure (\<lambda>(e, now, d, s). length (e_macro_order e) - z_next_dispatch s)", goal_cases)
  case (2 e now d s w macro s')
  then have "z_next_dispatch s' = Suc (z_next_dispatch s)" by (auto dest: dispatch_macro_next)
  with 2 show ?case by (auto intro: diff_less_mono2)
qed simp

declare dispatch.simps [simp del]

section \<open>Issue\<close>

definition zlookup :: "zen4_state \<Rightarrow> string list \<Rightarrow> execution_uop list zresult" where
  "zlookup s ids = rmap (zget (z_uops s)) ids"

text \<open>The ids of the candidates; \<open>sorted\<close> is stable, so ties keep the set's iteration order.\<close>

definition issue_candidates :: "zen4_env \<Rightarrow> zen4_state \<Rightarrow> string list zresult" where
  "issue_candidates e s =
     (if e_in_order e
      then if z_issue_index s \<ge> length (e_uop_order e) then Inr []
        else let i = e_uop_order e ! z_issue_index s in
          if i \<in> set (z_unissued s) then Inr [i] else Inr []
      else rbind (zlookup s (z_unissued s)) (\<lambda>us. Inr (map u_id (sort_key u_sequence us))))"

definition dependency_ready_tick :: "zen4_state \<Rightarrow> execution_uop \<Rightarrow> int zresult" where
  "dependency_ready_tick s uop =
     rbind (zlookup s (u_dependencies uop)) (\<lambda>ds.
     Inr (max_of (or_zero (u_dispatch_tick uop)) (map (\<lambda>d. or_zero (u_complete_tick d)) ds)))"

definition issue_domain_demand :: "execution_uop \<Rightarrow> string \<Rightarrow> int" where
  "issue_domain_demand uop d = (case map_of (u_issue_domain_demands uop) d of None \<Rightarrow> 1 | Some n \<Rightarrow> n)"

definition issue_domain_ready_tick :: "zen4_state \<Rightarrow> execution_uop \<Rightarrow> string \<Rightarrow> int zresult" where
  "issue_domain_ready_tick s uop d =
     rbind (zget (z_domain_free s) d) (\<lambda>free.
     let demand = issue_domain_demand uop d in
     if demand > int (length free) then Inl (DemandExceedsDomain (u_id uop) demand d (length free))
     else case py_index (sort free) (demand - 1) of
            None \<Rightarrow> Inl EngineIndexError | Some i \<Rightarrow> Inr (sort free ! i))"

text \<open>\<open>xs[:n]\<close>.\<close>

definition py_take :: "int \<Rightarrow> 'a list \<Rightarrow> 'a list" where
  "py_take n xs = (if 0 \<le> n then take (nat n) xs else take (length xs - nat (- n)) xs)"

definition reserve_lanes :: "int list \<Rightarrow> int \<Rightarrow> nat list" where
  "reserve_lanes free demand = py_take demand (sort_key (\<lambda>lane. (free ! lane, lane)) [0..<length free])"

definition reserve_domain :: "execution_uop \<Rightarrow> int \<Rightarrow> string \<Rightarrow> zen4_state \<Rightarrow> zen4_state zresult" where
  "reserve_domain uop now d s =
     rbind (zget (z_domain_free s) d) (\<lambda>free.
     let lanes = reserve_lanes free (issue_domain_demand uop d) in
     if \<exists>lane\<in>set lanes. free ! lane > now then Inl (DomainTokenUnavailable (u_id uop))
     else let free' = fold (\<lambda>lane f. f[lane := now + u_occupancy_ticks uop]) lanes free in
       Inr (s\<lparr>z_domain_free := AList.update d free' (z_domain_free s)\<rparr>))"

definition reserve_issue_domains :: "execution_uop \<Rightarrow> int \<Rightarrow> zen4_state \<Rightarrow> zen4_state zresult" where
  "reserve_issue_domains uop now s = rfold (reserve_domain uop now) (u_issue_domains uop) s"

definition overlap_blocked :: "zen4_env \<Rightarrow> zen4_state \<Rightarrow> execution_uop \<Rightarrow> bool" where
  "overlap_blocked e s uop \<longleftrightarrow>
     e_overlap_enabled e \<and> u_kind uop = ''load_data'' \<and>
     u_parent_id uop \<in> set (keys (e_groups e)) \<and>
     u_parent_id uop \<notin> set (z_pending_groups s) \<and>
     int (length (z_pending_groups s)) \<ge> zp_overlap_max_pending (e_profile e)"

fun all_issued :: "(string, execution_uop) dict \<Rightarrow> string list \<Rightarrow> bool zresult" where
  "all_issued uops [] = Inr True"
| "all_issued uops (i # is) =
     rbind (zget uops i) (\<lambda>u. if u_issue_tick u = None then Inr False else all_issued uops is)"

definition update_groups :: "zen4_env \<Rightarrow> execution_uop \<Rightarrow> zen4_state \<Rightarrow> zen4_state zresult" where
  "update_groups e uop s =
     (if \<not> e_overlap_enabled e then Inr s
      else case map_of (e_groups e) (u_parent_id uop) of
          None \<Rightarrow> Inr s
        | Some compute_ids \<Rightarrow>
            let s1 = (if u_kind uop = ''load_data'' \<and> u_parent_id uop \<notin> set (z_pending_groups s)
                      then s\<lparr>z_pending_groups := z_pending_groups s @ [u_parent_id uop]\<rparr> else s) in
            if u_id uop \<in> set compute_ids
            then rbind (all_issued (z_uops s1) compute_ids) (\<lambda>issued.
              if issued
              then Inr (s1\<lparr>z_pending_groups := removeAll (u_parent_id uop) (z_pending_groups s1)\<rparr>)
              else Inr s1)
            else Inr s1)"

text \<open>\<open>not any(min(self.resource_free[value]) <= now ...)\<close>, with the evaluation order of \<open>any\<close>.\<close>

fun resource_ready :: "zen4_state \<Rightarrow> int \<Rightarrow> string list \<Rightarrow> bool zresult" where
  "resource_ready s now [] = Inr False"
| "resource_ready s now (r # rs) =
     rbind (zget (z_resource_free s) r) (\<lambda>free. rbind (zmin free) (\<lambda>t.
       if t \<le> now then Inr True else resource_ready s now rs))"

definition resource_earliest :: "zen4_state \<Rightarrow> string list \<Rightarrow> int zresult" where
  "resource_earliest s rs =
     rbind (rmap (\<lambda>r. rbind (zget (z_resource_free s) r) zmin) rs) zmin"

text \<open>
  \<open>_issue_blocker\<close>, stage by stage: the state is returned because \<open>memory.blocker\<close> completes
  fills; \<open>None\<close> as the earliest tick is \<open>math.inf\<close>.
\<close>

type_synonym verdict = "string option \<times> int option"

definition dependency_check :: "zen4_state \<Rightarrow> execution_uop \<Rightarrow> int \<Rightarrow> verdict option zresult" where
  "dependency_check s uop now =
     rbind (zlookup s (u_dependencies uop)) (\<lambda>ds.
     let incomplete = filter (\<lambda>d. u_complete_tick d = None) ds;
         known = List.map_filter (\<lambda>d. map_option (\<lambda>t. t + u_latency_ticks d) (u_issue_tick d)) incomplete in
     if incomplete \<noteq> []
     then Inr (Some (Some ''dependency'',
            (case known of [] \<Rightarrow> None | t # ts \<Rightarrow> Some (min_of t ts))))
     else rbind (dependency_ready_tick s uop) (\<lambda>ready.
       if ready > now then Inr (Some (Some ''dependency'', Some ready)) else Inr None))"

definition part_check :: "zen4_state \<Rightarrow> execution_uop \<Rightarrow> int \<Rightarrow> verdict option zresult" where
  "part_check s uop now =
     (case truthy (u_issue_after_uop uop) of None \<Rightarrow> Inr None
      | Some p \<Rightarrow> rbind (zget (z_uops s) p) (\<lambda>previous.
          case u_issue_tick previous of
            None \<Rightarrow> Inr (Some (Some ''part_order'', None))
          | Some t \<Rightarrow>
              let earliest = t + u_issue_gap_ticks uop in
              if earliest > now then Inr (Some (Some ''part_gap'', Some earliest)) else Inr None))"

definition interval_check :: "zen4_state \<Rightarrow> execution_uop \<Rightarrow> int \<Rightarrow> verdict option" where
  "interval_check s uop now =
     (case map_of (z_last_class s) (u_scheduling_class uop) of None \<Rightarrow> None
      | Some last_issue \<Rightarrow>
          let earliest = last_issue + u_issue_interval_ticks uop in
          if earliest > now then Some (Some ''issue_interval'', Some earliest) else None)"

definition domain_check :: "zen4_state \<Rightarrow> execution_uop \<Rightarrow> int \<Rightarrow> verdict zresult" where
  "domain_check s uop now =
     rbind (rmap (issue_domain_ready_tick s uop) (u_issue_domains uop)) (\<lambda>ticks.
     if \<exists>t\<in>set ticks. t > now
     then rbind (zmax ticks) (\<lambda>t. Inr (Some ''issue_domain_busy'', Some t))
     else Inr (None, Some now))"

definition memory_check :: "zen4_state \<Rightarrow> execution_uop \<Rightarrow> int
    \<Rightarrow> (zen4_state \<times> verdict option) zresult" where
  "memory_check s uop now =
     (if is_memory_kind (u_kind uop)
      then rbind (lift_mem (blocker (z_memory s) (u_memory uop) now)) (\<lambda>(memory, reason, earliest).
        let s' = s\<lparr>z_memory := memory\<rparr> in
        (case reason of Some r \<Rightarrow> Inr (s', Some (Some r, Some earliest)) | None \<Rightarrow> Inr (s', None)))
      else Inr (s, None))"

definition issue_blocker :: "zen4_env \<Rightarrow> execution_uop \<Rightarrow> int \<Rightarrow> zen4_state
    \<Rightarrow> (zen4_state \<times> verdict) zresult" where
  "issue_blocker e uop now s =
     rbind (dependency_check s uop now) (\<lambda>dep.
     case dep of Some v \<Rightarrow> Inr (s, v) | None \<Rightarrow>
     rbind (part_check s uop now) (\<lambda>part.
     case part of Some v \<Rightarrow> Inr (s, v) | None \<Rightarrow>
     if overlap_blocked e s uop then Inr (s, Some ''memory_compute_overlap_limit'', None)
     else (case interval_check s uop now of Some v \<Rightarrow> Inr (s, v) | None \<Rightarrow>
     rbind (resource_ready s now (u_resource_choices uop)) (\<lambda>free.
     if \<not> free
     then rbind (resource_earliest s (u_resource_choices uop)) (\<lambda>t.
       Inr (s, Some ''resource_busy'', Some t))
     else rbind (memory_check s uop now) (\<lambda>(s', mem).
     case mem of Some v \<Rightarrow> Inr (s', v) | None \<Rightarrow>
     rbind (domain_check s' uop now) (\<lambda>v. Inr (s', v)))))))"

definition select_resource :: "zen4_state \<Rightarrow> execution_uop \<Rightarrow> int \<Rightarrow> (string \<times> nat) zresult" where
  "select_resource s uop now =
     rbind (rmap (\<lambda>r. rbind (zget (z_resource_free s) r) (\<lambda>free.
         if free = [] then Inl EngineValueError
         else Inr (free ! argmin free, r, argmin free))) (u_resource_choices uop)) (\<lambda>choices.
     case choices of [] \<Rightarrow> Inl EngineValueError
     | c # cs \<Rightarrow> (case min_of c cs of (free_tick, r, lane) \<Rightarrow>
         if free_tick > now then Inl ResourceUnavailable else Inr (r, lane)))"

text \<open>The body of the issue loop for a uop that nothing blocks, in the order of the code.\<close>

definition access_memory :: "string \<Rightarrow> int \<Rightarrow> zen4_state \<Rightarrow> zen4_state zresult" where
  "access_memory uop_id now s =
     rbind (zget (z_uops s) uop_id) (\<lambda>uop.
     if is_memory_kind (u_kind uop)
     then rbind (lift_mem (access (z_memory s) (u_memory uop) now)) (\<lambda>(memory, a).
       let uop = uop\<lparr>u_memory_level := Some (ma_level a)\<rparr>;
           uop = (if u_kind uop = ''load_data'' then uop\<lparr>u_latency_ticks := ma_latency_ticks a\<rparr> else uop) in
       Inr (put_uop uop (s\<lparr>z_memory := memory\<rparr>)))
     else Inr s)"

fun other_part_issued :: "zen4_state \<Rightarrow> string \<Rightarrow> string list \<Rightarrow> bool zresult" where
  "other_part_issued s uop_id [] = Inr False"
| "other_part_issued s uop_id (i # is) =
     (if i = uop_id then other_part_issued s uop_id is
      else rbind (zget (z_uops s) i) (\<lambda>u.
        if u_kind u \<in> set VECTOR_RESOURCE_KINDS \<and> u_issue_tick u \<noteq> None then Inr True
        else other_part_issued s uop_id is))"

definition free_vector_scheduler :: "execution_uop \<Rightarrow> zen4_state \<Rightarrow> zen4_state zresult" where
  "free_vector_scheduler uop s =
     (if u_kind uop \<in> set VECTOR_RESOURCE_KINDS
      then rbind (zget (z_macros s) (u_parent_id uop)) (\<lambda>parent.
        rbind (other_part_issued s (u_id uop) (m_uop_ids parent)) (\<lambda>earlier.
        Inr (if earlier then s else s\<lparr>z_vector_occupancy := z_vector_occupancy s - 1\<rparr>)))
      else Inr s)"

definition occupy_lane :: "string \<Rightarrow> nat \<Rightarrow> int \<Rightarrow> zen4_state \<Rightarrow> zen4_state zresult" where
  "occupy_lane r lane until s =
     rbind (zget (z_resource_free s) r) (\<lambda>free.
     if lane < length free
     then Inr (s\<lparr>z_resource_free := AList.update r (free[lane := until]) (z_resource_free s)\<rparr>)
     else Inl EngineIndexError)"

definition schedule_completion :: "int \<Rightarrow> int \<Rightarrow> execution_uop \<Rightarrow> zen4_state \<Rightarrow> zen4_state" where
  "schedule_completion now ready uop s =
     log_event (UopEvent ''issue'' now uop) (log_event (UopEvent ''ready'' ready uop)
       (s\<lparr>z_heap := heappush (now + u_latency_ticks uop, u_sequence uop, u_id uop) (z_heap s)\<rparr>))"

definition issue_uop :: "zen4_env \<Rightarrow> execution_uop \<Rightarrow> int \<Rightarrow> zen4_state \<Rightarrow> zen4_state zresult" where
  "issue_uop e uop now s =
     rbind (select_resource s uop now) (\<lambda>(r, lane).
     rbind (dependency_ready_tick s uop) (\<lambda>ready.
     let s1 = put_uop (uop\<lparr>u_ready_tick := Some ready, u_issue_tick := Some now\<rparr>) s in
     if u_id uop \<notin> set (z_unissued s1) then Inl (EngineKeyError (u_id uop))
     else let s2 = s1\<lparr>z_unissued := remove1 (u_id uop) (z_unissued s1)\<rparr>;
         s3 = put_uop (uop\<lparr>u_ready_tick := Some ready, u_issue_tick := Some now,
           u_resource := Some r, u_resource_lane := Some lane\<rparr>) s2 in
     rbind (access_memory (u_id uop) now s3) (\<lambda>s4.
     rbind (occupy_lane r lane (now + u_occupancy_ticks uop) s4) (\<lambda>s5.
     let s6 = s5\<lparr>z_last_class := AList.update (u_scheduling_class uop) now (z_last_class s5)\<rparr> in
     rbind (reserve_issue_domains uop now s6) (\<lambda>s7.
     rbind (update_groups e uop s7) (\<lambda>s8.
     rbind (free_vector_scheduler uop s8) (\<lambda>s9.
     rbind (zget (z_uops s9) (u_id uop)) (\<lambda>issued.
     let s10 = schedule_completion now ready issued s9 in
     Inr (if e_in_order e then s10\<lparr>z_issue_index := Suc (z_issue_index s10)\<rparr> else s10)))))))))"

definition note_stall :: "string \<Rightarrow> execution_uop \<Rightarrow> zen4_state \<Rightarrow> zen4_state" where
  "note_stall reason uop s =
     put_uop (uop\<lparr>u_stall_reason := Some reason,
       u_stall_reasons := counter_add (u_stall_reasons uop) reason 1\<rparr>) s"

fun issue_loop :: "zen4_env \<Rightarrow> int \<Rightarrow> string list \<Rightarrow> zen4_state \<Rightarrow> bool
    \<Rightarrow> (zen4_state \<times> bool) zresult" where
  "issue_loop e now [] s issued = Inr (s, issued)"
| "issue_loop e now (i # is) s issued =
     rbind (zget (z_uops s) i) (\<lambda>uop.
     rbind (issue_blocker e uop now s) (\<lambda>(s1, reason, earliest).
     case reason of
       Some r \<Rightarrow> let s2 = note_stall r uop s1 in
         if e_in_order e then Inr (s2, issued) else issue_loop e now is s2 issued
     | None \<Rightarrow> rbind (issue_uop e uop now s1) (\<lambda>s2. issue_loop e now is s2 True)))"

definition issue_once :: "zen4_env \<Rightarrow> int \<Rightarrow> zen4_state \<Rightarrow> (zen4_state \<times> bool) zresult" where
  "issue_once e now s =
     rbind (issue_candidates e s) (\<lambda>candidates. issue_loop e now candidates s False)"

section \<open>What each operation leaves unchanged\<close>

lemma memory_check_cases: "memory_check s uop now = Inr (s', v) \<Longrightarrow> \<exists>m. s' = s\<lparr>z_memory := m\<rparr>"
  by (auto simp: memory_check_def rbind_eq_Inr_iff Let_def split: if_splits option.splits
      intro: exI [of _ "z_memory s"])

lemma issue_blocker_cases:
  assumes "issue_blocker e uop now s = Inr (s', v)"
  shows "\<exists>m. s' = s\<lparr>z_memory := m\<rparr>"
proof -
  have "s' = s \<or> (\<exists>x. memory_check s uop now = Inr (s', x))"
    using assms by (auto simp: issue_blocker_def rbind_eq_Inr_iff split: option.splits if_splits)
  then show ?thesis using memory_check_cases [of s uop now s'] by (auto intro: exI [of _ "z_memory s"])
qed

lemma access_memory_cases:
  "access_memory i now s = Inr s' \<Longrightarrow> s' = s \<or> (\<exists>u m. s' = put_uop u (s\<lparr>z_memory := m\<rparr>))"
  by (auto simp: access_memory_def rbind_eq_Inr_iff Let_def split: if_splits)

lemma occupy_lane_cases: "occupy_lane r lane t s = Inr s' \<Longrightarrow> \<exists>d. s' = s\<lparr>z_resource_free := d\<rparr>"
  by (auto simp: occupy_lane_def rbind_eq_Inr_iff split: if_splits)

lemma reserve_domain_cases: "reserve_domain u now d s = Inr s' \<Longrightarrow> \<exists>f. s' = s\<lparr>z_domain_free := f\<rparr>"
  by (auto simp: reserve_domain_def rbind_eq_Inr_iff Let_def split: if_splits)

lemma reserve_domains_cases:
  "rfold (reserve_domain u now) ds s = Inr s' \<Longrightarrow> \<exists>f. s' = s\<lparr>z_domain_free := f\<rparr>"
proof (induction ds arbitrary: s)
  case Nil
  then show ?case by (auto intro: exI [of _ "z_domain_free s"])
next
  case (Cons d ds)
  obtain s1 where s1: "reserve_domain u now d s = Inr s1" "rfold (reserve_domain u now) ds s1 = Inr s'"
    using Cons.prems by (auto simp: rbind_eq_Inr_iff)
  then show ?case using Cons.IH [OF s1(2)] reserve_domain_cases [OF s1(1)] by auto
qed

lemma update_groups_cases: "update_groups e u s = Inr s' \<Longrightarrow> \<exists>g. s' = s\<lparr>z_pending_groups := g\<rparr>"
  by (auto simp: update_groups_def rbind_eq_Inr_iff Let_def split: if_splits option.splits
      intro: exI [of _ "z_pending_groups s"])

lemma free_vector_scheduler_cases:
  "free_vector_scheduler u s = Inr s' \<Longrightarrow> \<exists>n. s' = s\<lparr>z_vector_occupancy := n\<rparr>"
  by (auto simp: free_vector_scheduler_def rbind_eq_Inr_iff split: if_splits
      intro: exI [of _ "z_vector_occupancy s"])

text \<open>
  The successful run of \<open>issue_uop\<close>, with the state of every stage.
\<close>

lemma issue_uopE:
  assumes "issue_uop e uop now s = Inr s'"
  obtains r lane ready s3 s4 s5 s7 s8 s9 issued where
    "select_resource s uop now = Inr (r, lane)" "dependency_ready_tick s uop = Inr ready"
    "u_id uop \<in> set (z_unissued s)"
    "s3 = put_uop (uop\<lparr>u_ready_tick := Some ready, u_issue_tick := Some now,
       u_resource := Some r, u_resource_lane := Some lane\<rparr>)
       (put_uop (uop\<lparr>u_ready_tick := Some ready, u_issue_tick := Some now\<rparr>) s
         \<lparr>z_unissued := remove1 (u_id uop) (z_unissued s)\<rparr>)"
    "access_memory (u_id uop) now s3 = Inr s4"
    "occupy_lane r lane (now + u_occupancy_ticks uop) s4 = Inr s5"
    "reserve_issue_domains uop now
       (s5\<lparr>z_last_class := AList.update (u_scheduling_class uop) now (z_last_class s5)\<rparr>) = Inr s7"
    "update_groups e uop s7 = Inr s8" "free_vector_scheduler uop s8 = Inr s9"
    "map_of (z_uops s9) (u_id uop) = Some issued"
    "s' = (let s10 = schedule_completion now ready issued s9 in
       if e_in_order e then s10\<lparr>z_issue_index := Suc (z_issue_index s10)\<rparr> else s10)"
  using assms
  by (auto simp: issue_uop_def rbind_eq_Inr_iff Let_def split: if_splits prod.splits)
lemma complete_shrinks:
  "complete now s changed = Inr (s', changed') \<Longrightarrow>
     length (z_heap s') \<le> length (z_heap s) \<and> z_unissued s' = z_unissued s \<and>
     (changed' \<longrightarrow> changed \<or> length (z_heap s') < length (z_heap s))"
proof (induction now s changed arbitrary: s' changed' rule: complete.induct)
  case (1 now s changed)
  show ?case
  proof (cases "heappop (z_heap s)")
    case None
    then show ?thesis using "1.prems" by (simp add: complete.simps)
  next
    case (Some p)
    obtain tick sequence uop_id rest where p: "p = ((tick, sequence, uop_id), rest)"
      by (metis prod.exhaust)
    have heap: "z_heap s = (tick, sequence, uop_id) # rest"
      using Some p by (cases "z_heap s") auto
    show ?thesis
    proof (cases "tick \<le> now")
      case False
      then show ?thesis using "1.prems" Some p by (simp add: complete.simps)
    next
      case True
      obtain uop where uop: "map_of (z_uops s) uop_id = Some uop"
        using "1.prems" True Some p by (auto simp: complete.simps [of now s] rbind_eq_Inr_iff Let_def)
      have found: "zget (z_uops (s\<lparr>z_heap := rest\<rparr>)) uop_id = Inr uop" using uop by simp
      show ?thesis
      proof (cases "u_complete_tick uop = None")
        case False
        then have "complete now (s\<lparr>z_heap := rest\<rparr>) changed = Inr (s', changed')"
          using "1.prems" True Some p uop by (simp add: complete.simps [of now s] fetch_def Let_def)
        from "1.IH"(1) [OF Some p [symmetric] refl refl True refl found False this] heap show ?thesis
          by auto
      next
        case new: True
        obtain s2 where s2: "complete_uop tick uop (s\<lparr>z_heap := rest\<rparr>) = Inr s2"
          "complete now s2 True = Inr (s', changed')"
          using "1.prems" True Some p uop new
          by (auto simp: complete.simps [of now s] fetch_def rbind_eq_Inr_iff Let_def)
        have "z_heap s2 = rest" "z_unissued s2 = z_unissued s"
          using s2(1) by (auto simp: complete_uop_def Let_def dest!: finish_parent_cases)
        with "1.IH"(2) [OF Some p [symmetric] refl refl True refl found _ s2] new heap show ?thesis
          by auto
      qed
    qed
  qed
qed

lemma issue_uop_counts:
  assumes "issue_uop e uop now s = Inr s'"
  shows "length (z_heap s') = Suc (length (z_heap s)) \<and>
     Suc (length (z_unissued s')) = length (z_unissued s)"
  using assms
proof (cases rule: issue_uopE)
  case (1 r lane ready s3 s4 s5 s7 s8 s9 issued)
  have u: "Suc (length (remove1 (u_id uop) (z_unissued s))) = length (z_unissued s)"
    using 1(3) length_pos_if_in_set [OF 1(3)] by (simp add: length_remove1)
  have "z_heap s9 = z_heap s" "z_unissued s9 = remove1 (u_id uop) (z_unissued s)"
    using access_memory_cases [OF 1(5)] occupy_lane_cases [OF 1(6)]
      reserve_domains_cases [OF 1(7) [unfolded reserve_issue_domains_def]]
      update_groups_cases [OF 1(8)] free_vector_scheduler_cases [OF 1(9)] 1(4)
    by auto
  then show ?thesis using 1(11) u by (simp add: Let_def schedule_completion_def)
qed

lemma issue_loop_shrinks:
  "issue_loop e now is s issued = Inr (s', issued') \<Longrightarrow>
     2 * length (z_unissued s') + length (z_heap s') \<le> 2 * length (z_unissued s) + length (z_heap s) \<and>
     (issued' \<longrightarrow> issued \<or>
        2 * length (z_unissued s') + length (z_heap s') < 2 * length (z_unissued s) + length (z_heap s))"
proof (induction "is" arbitrary: s issued)
  case (Cons i "is")
  obtain uop s1 reason earliest where b: "map_of (z_uops s) i = Some uop"
    "issue_blocker e uop now s = Inr (s1, reason, earliest)"
    using Cons.prems by (auto simp: rbind_eq_Inr_iff)
  have s1: "z_heap s1 = z_heap s" "z_unissued s1 = z_unissued s"
    using issue_blocker_cases [OF b(2)] by auto
  show ?case
  proof (cases reason)
    case (Some r)
    have n: "z_heap (note_stall r uop s1) = z_heap s" "z_unissued (note_stall r uop s1) = z_unissued s"
      using s1 by (simp_all add: note_stall_def)
    show ?thesis
      using Cons.prems Cons.IH [of "note_stall r uop s1" issued] n b Some
      by (auto simp: fetch_def Let_def split: if_splits)
  next
    case None
    obtain s2 where s2: "issue_uop e uop now s1 = Inr s2" "issue_loop e now is s2 True = Inr (s', issued')"
      using Cons.prems b None by (auto simp: fetch_def rbind_eq_Inr_iff)
    show ?thesis using issue_uop_counts [OF s2(1)] Cons.IH [OF s2(2)] s1 by auto
  qed
qed auto

function issue_fixed_point :: "zen4_env \<Rightarrow> int \<Rightarrow> zen4_state \<Rightarrow> zen4_state zresult" where
  "issue_fixed_point e now s =
     rbind (complete now s False) (\<lambda>(s1, changed).
     rbind (issue_once e now s1) (\<lambda>(s2, issued).
     if \<not> changed \<and> \<not> issued then Inr s2 else issue_fixed_point e now s2))"
  by pat_completeness auto
termination
proof (relation "measure (\<lambda>(e, now, s). 2 * length (z_unissued s) + length (z_heap s))", goal_cases)
  case (2 e now s p s1 changed q s2 issued)
  have "complete now s False = Inr (s1, changed)" using 2 by simp
  note c = complete_shrinks [OF this]
  obtain candidates where "issue_loop e now candidates s1 False = Inr (s2, issued)"
    using 2 by (auto simp: issue_once_def rbind_eq_Inr_iff)
  note i = issue_loop_shrinks [OF this]
  from c i 2 show ?case by auto
qed simp

declare issue_fixed_point.simps [simp del]

section \<open>Retirement\<close>

definition leave_rob :: "int \<Rightarrow> macro_op \<Rightarrow> string list \<Rightarrow> zen4_state \<Rightarrow> zen4_state" where
  "leave_rob now macro rest s =
     (let macro = macro\<lparr>m_retire_tick := Some now\<rparr>; s = put_macro macro (s\<lparr>z_rob := rest\<rparr>) in
      log_event (RetireEvent now macro)
       (s\<lparr>z_rob_occupancy := z_rob_occupancy s - m_decoded_macro_ops macro,
          z_load_occupancy := z_load_occupancy s - of_bool (m_uses_load_queue macro),
          z_store_occupancy := z_store_occupancy s - of_bool (m_uses_store_queue macro)\<rparr>))"

fun retire_from :: "zen4_env \<Rightarrow> int \<Rightarrow> int \<Rightarrow> string list \<Rightarrow> zen4_state \<Rightarrow> zen4_state zresult" where
  "retire_from e now retired [] s = Inr s"
| "retire_from e now retired (i # rest) s =
     (let width = zp_retire_width (e_profile e) in
      if \<not> retired < width then Inr s
      else rbind (zget (z_macros s) i) (\<lambda>macro.
        if (case m_complete_tick macro of None \<Rightarrow> True | Some t \<Rightarrow> t > now) then Inr s
        else if retired + m_retire_macro_ops macro > width then Inr s
        else retire_from e now (retired + m_retire_macro_ops macro) rest (leave_rob now macro rest s)))"

definition retire :: "zen4_env \<Rightarrow> int \<Rightarrow> zen4_state \<Rightarrow> zen4_state zresult" where
  "retire e now s = retire_from e now 0 (z_rob s) s"

section \<open>The event loop\<close>

definition later :: "int \<Rightarrow> int list \<Rightarrow> int list" where
  "later now ts = filter (\<lambda>t. t > now) ts"

definition uop_event_ticks :: "zen4_state \<Rightarrow> execution_uop \<Rightarrow> int \<Rightarrow> int list zresult" where
  "uop_event_ticks s uop now =
     rbind (rmap (\<lambda>r. rbind (zget (z_resource_free s) r) zmin) (u_resource_choices uop)) (\<lambda>resources.
     let interval = (case map_of (z_last_class s) (u_scheduling_class uop) of None \<Rightarrow> []
           | Some t \<Rightarrow> [t + u_issue_interval_ticks uop]) in
     rbind (rmap (issue_domain_ready_tick s uop) (u_issue_domains uop)) (\<lambda>domains.
     Inr (later now resources @ later now interval @ later now domains)))"

fun blocker_ticks :: "zen4_env \<Rightarrow> int \<Rightarrow> string list \<Rightarrow> zen4_state \<Rightarrow> (zen4_state \<times> int list) zresult" where
  "blocker_ticks e now [] s = Inr (s, [])"
| "blocker_ticks e now (i # is) s =
     rbind (zget (z_uops s) i) (\<lambda>uop.
     rbind (issue_blocker e uop now s) (\<lambda>(s1, reason, earliest).
     rbind (uop_event_ticks s1 uop now) (\<lambda>ticks.
     rbind (blocker_ticks e now is s1) (\<lambda>(s2, rest).
     Inr (s2, (case earliest of None \<Rightarrow> [] | Some t \<Rightarrow> later now [t]) @ ticks @ rest)))))"

definition next_cycle :: "zen4_env \<Rightarrow> int \<Rightarrow> int" where
  "next_cycle e now = (now div e_tpc e + 1) * e_tpc e"

definition next_event_tick :: "zen4_env \<Rightarrow> int \<Rightarrow> zen4_state \<Rightarrow> (zen4_state \<times> int) zresult" where
  "next_event_tick e now s =
     (if e_tpc e = 0 then Inl EngineZeroDivision
      else
        let completion = (case z_heap s of [] \<Rightarrow> [] | (t, _, _) # _ \<Rightarrow> [t]);
            cycle = (if z_next_dispatch s < length (e_macro_order e) \<or> z_rob s \<noteq> []
              then [next_cycle e now] else []) in
        rbind (issue_candidates e s) (\<lambda>candidates.
        rbind (blocker_ticks e now candidates s) (\<lambda>(s', ticks).
        case completion @ cycle @ ticks of
          [] \<Rightarrow> Inl (Deadlock (take 8 (filter (\<lambda>i. i \<in> set (z_unissued s')) (e_uop_order e))))
        | t # ts \<Rightarrow> Inr (s', min_of t ts))))"

definition peak :: "string \<Rightarrow> int \<Rightarrow> (string, int) dict \<Rightarrow> (string, int) dict" where
  "peak k n d = AList.update k (max (counter_get d k) n) d"

definition record_peaks :: "zen4_state \<Rightarrow> zen4_state" where
  "record_peaks s = s\<lparr>z_peaks :=
     peak ''memory_compute_pending_groups'' (int (length (z_pending_groups s)))
      (peak ''store_queue'' (z_store_occupancy s)
       (peak ''load_queue'' (z_load_occupancy s)
        (peak ''vector_scheduler'' (z_vector_occupancy s)
         (peak ''rob'' (z_rob_occupancy s) (z_peaks s)))))\<rparr>"

definition finished :: "zen4_env \<Rightarrow> zen4_state \<Rightarrow> bool" where
  "finished e s \<longleftrightarrow> length (e_macro_order e) \<le> z_next_dispatch s \<and> z_rob s = []"

definition run_phases :: "zen4_env \<Rightarrow> int \<Rightarrow> zen4_state \<Rightarrow> zen4_state zresult" where
  "run_phases e now s =
     rbind (complete now s False) (\<lambda>(s, _).
     if e_tpc e = 0 then Inl EngineZeroDivision
     else
       let boundary = (now mod e_tpc e = 0) in
       rbind (if boundary then dispatch e now 0 s else Inr s) (\<lambda>s.
       rbind (issue_fixed_point e now s) (\<lambda>s.
       rbind (complete now s False) (\<lambda>(s, _).
       rbind (if boundary then retire e now s else Inr s) (\<lambda>s.
       Inr (record_peaks s))))))"

fun run_loop :: "zen4_env \<Rightarrow> nat \<Rightarrow> int \<Rightarrow> zen4_state \<Rightarrow> (zen4_state \<times> int) zresult" where
  "run_loop e fuel now s =
     (if finished e s then Inr (s, now)
      else (case fuel of 0 \<Rightarrow> Inl NotConverged
        | Suc fuel' \<Rightarrow>
            rbind (run_phases e now s) (\<lambda>s1.
            if finished e s1 then Inr (s1, now)
            else rbind (next_event_tick e now s1) (\<lambda>(s2, next_tick).
              if next_tick \<le> now then Inl (NoForwardProgress now)
              else run_loop e fuel' next_tick s2))))"

declare run_loop.simps [simp del]

section \<open>The critical path\<close>

definition relax_path :: "(string, execution_uop) dict \<Rightarrow> string
    \<Rightarrow> (string, int) dict \<times> (int \<times> string) list \<Rightarrow> ((string, int) dict \<times> (int \<times> string) list) zresult" where
  "relax_path uops consumer st =
     (case st of (indegree, ready) \<Rightarrow>
       rbind (zget indegree consumer) (\<lambda>n.
       let indegree' = AList.update consumer (n - 1) indegree in
       if n - 1 = 0 then rbind (zget uops consumer) (\<lambda>u.
         Inr (indegree', heappush (u_sequence u, consumer) ready))
       else Inr (indegree', ready)))"

lemma relax_paths_measure:
  "rfold (relax_path uops) cs (d, r) = Inr (d', r') \<Longrightarrow>
     2 * positive d' + length r' \<le> 2 * positive d + length r"
proof (induction cs arbitrary: d r)
  case (Cons c cs)
  obtain d1 r1 where 1: "relax_path uops c (d, r) = Inr (d1, r1)"
    and 2: "rfold (relax_path uops) cs (d1, r1) = Inr (d', r')"
    using Cons.prems by (auto simp: rbind_eq_Inr_iff)
  obtain n where n: "map_of d c = Some n" using 1 by (auto simp: relax_path_def rbind_eq_Inr_iff)
  have d1: "d1 = AList.update c (n - 1) d"
    and r1: "length r1 = (if n - 1 = 0 then Suc (length r) else length r)"
    using 1 n by (auto simp: relax_path_def fetch_def rbind_eq_Inr_iff Let_def split: if_splits
        option.splits)
  have "2 * positive d1 + length r1 \<le> 2 * positive d + length r"
    using d1 r1 positive_update [OF n] positive_update_nonpos [OF n]
    by (cases "0 < n") (auto split: if_splits)
  with Cons.IH [OF 2] show ?case by simp
qed simp

function finish_ticks :: "(string, execution_uop) dict \<Rightarrow> (string, string list) dict
    \<Rightarrow> (string, int) dict \<Rightarrow> (int \<times> string) list \<Rightarrow> (string, int) dict
    \<Rightarrow> (string, int) dict zresult" where
  "finish_ticks uops consumers indegree ready finish =
     (case heappop ready of None \<Rightarrow> Inr finish
      | Some ((sequence, uop_id), rest) \<Rightarrow>
          rbind (zget uops uop_id) (\<lambda>uop.
          rbind (rmap (zget finish) (u_dependencies uop)) (\<lambda>ds.
          let dependency_finish = (case ds of [] \<Rightarrow> 0 | t # ts \<Rightarrow> max_of t ts);
              finish' = AList.update (u_id uop) (dependency_finish + u_latency_ticks uop) finish in
          rbind (zget consumers (u_id uop)) (\<lambda>cs.
          rbind (rfold (relax_path uops) cs (indegree, rest)) (\<lambda>(indegree', ready').
          finish_ticks uops consumers indegree' ready' finish')))))"
  by pat_completeness auto
termination
proof (relation "measure (\<lambda>(u, c, d, r, f). 2 * positive d + length r)", goal_cases)
  case (2 uops consumers d ready finish x p rest sequence uop_id uop ds df finish' cs q d' r')
  then have "Suc (length rest) = length ready" by (cases ready) auto
  with 2 relax_paths_measure [of uops cs d rest d' r'] show ?case by auto
qed simp

declare finish_ticks.simps [simp del]

definition path_consumers :: "execution_uop list \<Rightarrow> (string, string list) dict zresult" where
  "path_consumers us =
     rfold (\<lambda>u c. rfold (\<lambda>d c. rbind (zget c d) (\<lambda>xs. Inr (AList.update d (xs @ [u_id u]) c)))
       (u_dependencies u) c) us (map (\<lambda>u. (u_id u, [])) us)"

definition critical_path_ticks :: "execution_uop list \<Rightarrow> int zresult" where
  "critical_path_ticks us =
     (let uops = map (\<lambda>u. (u_id u, u)) us;
          indegree = map (\<lambda>u. (u_id u, int (length (u_dependencies u)))) us in
      rbind (path_consumers us) (\<lambda>consumers.
      rbind (rfold (\<lambda>i r. rbind (zget uops i) (\<lambda>u. Inr (heappush (u_sequence u, i) r)))
        (map fst (filter (\<lambda>(i, degree). degree = 0) indegree)) []) (\<lambda>ready.
      rbind (finish_ticks uops consumers indegree ready []) (\<lambda>finish.
      Inr (case map snd finish of [] \<Rightarrow> 0 | t # ts \<Rightarrow> max_of t ts)))))"

section \<open>A run\<close>

record zen4_summary =
  zs_dynamic_macro_ops :: int
  zs_execution_uops :: int
  zs_retired_macro_ops :: int
  zs_peak_rob :: int
  zs_peak_vector_scheduler :: int
  zs_peak_load_queue :: int
  zs_peak_store_queue :: int
  zs_critical_path_ticks :: int
  zs_dispatch_stalls :: "(string \<times> int) list"
  zs_issue_blockers :: "(string \<times> int) list"
  zs_resource_issues :: "(string \<times> int) list"
  zs_cache_line_accesses :: "(string, int) dict"
  zs_overlap_enabled :: bool
  zs_eligible_groups :: int
  zs_peak_pending_groups :: int

record zen4_result =
  zr_ticks_per_cycle :: int
  zr_total_ticks :: int
  zr_events :: "event list"
  zr_summary :: zen4_summary
  zr_state :: zen4_state

definition add_counters :: "(string, int) dict \<Rightarrow> (string, int) dict \<Rightarrow> (string, int) dict" where
  "add_counters a b = filter (\<lambda>(k, n). 0 < n) (fold (\<lambda>(k, n) d. counter_add d k n) b a)"

definition summarize :: "zen4_env \<Rightarrow> zen4_state \<Rightarrow> zen4_summary zresult" where
  "summarize e s =
     rbind (rmap (zget (z_uops s)) (e_uop_order e)) (\<lambda>us.
     rbind (rmap (zget (z_macros s)) (e_macro_order e)) (\<lambda>ms.
     rbind (critical_path_ticks us) (\<lambda>path.
     Inr \<lparr>zs_dynamic_macro_ops = int (length ms), zs_execution_uops = int (length us),
       zs_retired_macro_ops = sum_list (map m_retire_macro_ops ms),
       zs_peak_rob = counter_get (z_peaks s) ''rob'',
       zs_peak_vector_scheduler = counter_get (z_peaks s) ''vector_scheduler'',
       zs_peak_load_queue = counter_get (z_peaks s) ''load_queue'',
       zs_peak_store_queue = counter_get (z_peaks s) ''store_queue'',
       zs_critical_path_ticks = path,
       zs_dispatch_stalls = sort (z_stalls s),
       zs_issue_blockers = sort (fold (\<lambda>u d. add_counters d (u_stall_reasons u)) us []),
       zs_resource_issues = sort (fold (\<lambda>r d. counter_add d r 1)
         (List.map_filter (\<lambda>u. truthy (u_resource u)) us) []),
       zs_cache_line_accesses = mh_hits (z_memory s),
       zs_overlap_enabled = e_overlap_enabled e,
       zs_eligible_groups = int (length (e_groups e)),
       zs_peak_pending_groups = counter_get (z_peaks s) ''memory_compute_pending_groups''\<rparr>)))"

definition iteration_limit :: "zen4_env \<Rightarrow> nat" where
  "iteration_limit e = max 10000 (length (e_uop_order e) * 100)"

definition run :: "zen4_env \<Rightarrow> zen4_state \<Rightarrow> zen4_result zresult" where
  "run e s =
     rbind (run_loop e (iteration_limit e) 0 s) (\<lambda>(s', total).
     rbind (summarize e s') (\<lambda>summary.
     if e_tpc e = 0 then Inl EngineZeroDivision
     else Inr \<lparr>zr_ticks_per_cycle = e_tpc e, zr_total_ticks = total, zr_events = z_events s',
       zr_summary = summary, zr_state = s'\<rparr>))"

definition simulate :: "bound_trace \<Rightarrow> zen4_profile \<Rightarrow> string \<Rightarrow> cache_mode \<Rightarrow> bool option
    \<Rightarrow> zen4_result zresult" where
  "simulate t p model mode limit =
     rbind (make_engine t p model mode limit) (\<lambda>(e, s). run e s)"

end
