(* ===== verification/MemoryInvariants.thy ===== *)
theory MemoryInvariants
  imports Memory
begin

text \<open>
  Correctness of the memory hierarchy: inclusion of the levels, the well-formedness invariant
  \<open>mem_wf\<close> (levels and tables complete, caches well formed, inclusion, every list of outstanding
  misses within its limit, pending fills from known levels), what construction leaves in the
  caches, and the contract of \<open>peek_level\<close>, \<open>blocker\<close> and \<open>access\<close> on which the timing loops
  rely.
\<close>

section \<open>Inclusion\<close>

text \<open>
  \<open>resident h level\<close> are the lines of one level.  \<open>inclusive h\<close> says that every level holds
  all lines of the levels above it; \<open>filling line k h\<close> is what the fill loop keeps after it has
  treated the first \<open>k\<close> levels.
\<close>

definition caches_wf :: "memory_hierarchy \<Rightarrow> bool" where
  "caches_wf h \<longleftrightarrow>
     (\<forall>l\<in>set (mh_level_order h). \<exists>c. map_of (mh_caches h) l = Some c \<and> cache_wf c)"

definition resident :: "memory_hierarchy \<Rightarrow> string \<Rightarrow> int set" where
  "resident h l = (case map_of (mh_caches h) l of None \<Rightarrow> {} | Some c \<Rightarrow> lines_of c)"

definition inclusive :: "memory_hierarchy \<Rightarrow> bool" where
  "inclusive h \<longleftrightarrow> (\<forall>j<length (mh_level_order h). \<forall>i<j.
     resident h (mh_level_order h ! i) \<subseteq> resident h (mh_level_order h ! j))"

definition filling :: "int \<Rightarrow> nat \<Rightarrow> memory_hierarchy \<Rightarrow> bool" where
  "filling line k h \<longleftrightarrow>
     (\<forall>i<k. i < length (mh_level_order h) \<longrightarrow> line \<in> resident h (mh_level_order h ! i)) \<and>
     (\<forall>j<length (mh_level_order h). \<forall>i<j. resident h (mh_level_order h ! i) \<subseteq>
        (if j < k then resident h (mh_level_order h ! j)
         else insert line (resident h (mh_level_order h ! j))))"

definition same_but_caches :: "memory_hierarchy \<Rightarrow> memory_hierarchy \<Rightarrow> bool" where
  "same_but_caches h h' \<longleftrightarrow> h' = h\<lparr>mh_caches := mh_caches h'\<rparr>"

lemma same_but_caches_refl [simp]: "same_but_caches h h"
  by (simp add: same_but_caches_def)

lemma same_but_caches_trans:
  "same_but_caches h h' \<Longrightarrow> same_but_caches h' h'' \<Longrightarrow> same_but_caches h h''"
  unfolding same_but_caches_def by (metis memory_hierarchy.update_convs(4) memory_hierarchy.surjective)

lemma same_but_caches_order: "same_but_caches h h' \<Longrightarrow> mh_level_order h' = mh_level_order h"
  unfolding same_but_caches_def by (metis memory_hierarchy.select_convs(3) memory_hierarchy.surjective
      memory_hierarchy.update_convs(4))

lemma touch_level_eq:
  assumes wf: "caches_wf h" and l: "l \<in> set (mh_level_order h)"
  shows "\<exists>h' ev. touch_level h l line = Inr (h', ev) \<and> caches_wf h' \<and> same_but_caches h h' \<and>
     resident h' l = insert line (resident h l) - set_option ev \<and>
     (\<forall>e. ev = Some e \<longrightarrow> e \<in> resident h l \<and> e \<noteq> line \<and> line \<notin> resident h l) \<and>
     (\<forall>l'. l' \<noteq> l \<longrightarrow> resident h' l' = resident h l')"
proof -
  obtain c where c: "map_of (mh_caches h) l = Some c" "cache_wf c"
    using wf l by (auto simp: caches_wf_def)
  obtain c' ev where t: "touch c line = Inr (c', ev)" "cache_wf c'"
    "lines_of c' = insert line (lines_of c) - set_option ev"
    "\<forall>e. ev = Some e \<longrightarrow> e \<in> lines_of c \<and> e \<noteq> line \<and> line \<notin> lines_of c"
    using lru.ins_eq [OF c(2), of line] by blast
  show ?thesis
    using c t wf
    by (auto simp: touch_level_def level_cache_def fetch_def caches_wf_def same_but_caches_def
        resident_def)
qed

lemma remove_level_eq:
  assumes wf: "caches_wf h" and l: "l \<in> set (mh_level_order h)"
  shows "\<exists>h'. remove_level line l h = Inr h' \<and> caches_wf h' \<and> same_but_caches h h' \<and>
     resident h' l = resident h l - {line} \<and> (\<forall>l'. l' \<noteq> l \<longrightarrow> resident h' l' = resident h l')"
proof -
  obtain c where c: "map_of (mh_caches h) l = Some c" "cache_wf c"
    using wf l by (auto simp: caches_wf_def)
  obtain c' where r: "cache_remove c line = Inr c'" "cache_wf c'" "lines_of c' = lines_of c - {line}"
    using lru.del_eq [OF c(2), of line] by blast
  show ?thesis
    using c r wf
    by (auto simp: remove_level_def level_cache_def fetch_def caches_wf_def same_but_caches_def
        resident_def)
qed

lemma remove_levels_eq:
  assumes "caches_wf h" and "set ls \<subseteq> set (mh_level_order h)"
  shows "\<exists>h'. rfold (remove_level line) ls h = Inr h' \<and> caches_wf h' \<and> same_but_caches h h' \<and>
     (\<forall>l. resident h' l = (if l \<in> set ls then resident h l - {line} else resident h l))"
  using assms
proof (induction ls arbitrary: h)
  case (Cons l ls)
  obtain h1 where h1: "remove_level line l h = Inr h1" "caches_wf h1" "same_but_caches h h1"
    "resident h1 l = resident h l - {line}" "\<forall>l'. l' \<noteq> l \<longrightarrow> resident h1 l' = resident h l'"
    using remove_level_eq [of h l line] Cons.prems by auto
  have "set ls \<subseteq> set (mh_level_order h1)"
    using Cons.prems(2) same_but_caches_order [OF h1(3)] by simp
  from Cons.IH [OF h1(2) this] obtain h2 where h2: "rfold (remove_level line) ls h1 = Inr h2"
    "caches_wf h2" "same_but_caches h1 h2"
    "\<forall>l. resident h2 l = (if l \<in> set ls then resident h1 l - {line} else resident h1 l)" by blast
  have "resident h2 x = (if x \<in> set (l # ls) then resident h x - {line} else resident h x)" for x
    using h1(4,5) h2(4) by (cases "x = l") auto
  then show ?case using h1 h2 same_but_caches_trans by auto
qed simp

lemma fill_level_step:
  assumes wf: "caches_wf h" and dist: "distinct (mh_level_order h)" and fill: "filling line k h"
    and k: "k < length (mh_level_order h)" and l: "l = mh_level_order h ! k"
  shows "\<exists>h'. fill_level line (k, l) h = Inr h' \<and> caches_wf h' \<and> same_but_caches h h' \<and>
     filling line (Suc k) h'"
proof -
  let ?ls = "mh_level_order h"
  have mem: "l \<in> set ?ls" using k l by simp
  obtain h1 ev where t: "touch_level h l line = Inr (h1, ev)" "caches_wf h1" "same_but_caches h h1"
    "resident h1 l = insert line (resident h l) - set_option ev"
    "\<forall>e. ev = Some e \<longrightarrow> e \<in> resident h l \<and> e \<noteq> line \<and> line \<notin> resident h l"
    "\<forall>l'. l' \<noteq> l \<longrightarrow> resident h1 l' = resident h l'"
    using touch_level_eq [OF wf mem, of line] by blast
  have ord: "mh_level_order h1 = ?ls" using t(3) by (rule same_but_caches_order)
  have neq: "?ls ! i \<noteq> l" if "i < length ?ls" "i \<noteq> k" for i
    using that k l dist by (simp add: nth_eq_iff_index_eq)
  have upper: "?ls ! i \<in> set (take k ?ls) \<longleftrightarrow> i < k" if "i < length ?ls" for i
    using that k dist by (auto simp: in_set_conv_nth nth_eq_iff_index_eq)
  obtain h2 where h2: "fill_level line (k, l) h = Inr h2" "caches_wf h2" "same_but_caches h h2"
    and res: "\<And>i. i < length ?ls \<Longrightarrow> resident h2 (?ls ! i) =
      (if i \<le> k then (if i = k then insert line (resident h l) else resident h (?ls ! i)) - set_option ev
       else resident h (?ls ! i))"
  proof (cases ev)
    case None
    then have "fill_level line (k, l) h = Inr h1" by (simp add: fill_level_def t(1))
    moreover have "resident h1 (?ls ! i) =
      (if i \<le> k then (if i = k then insert line (resident h l) else resident h (?ls ! i)) - set_option ev
       else resident h (?ls ! i))" if "i < length ?ls" for i
      using that t(4,6) neq [OF that] None l by auto
    ultimately show ?thesis using that t by blast
  next
    case (Some e)
    have "set (take k ?ls) \<subseteq> set (mh_level_order h1)" using ord by (simp add: set_take_subset)
    from remove_levels_eq [OF t(2) this] obtain h2 where
      r: "rfold (remove_level e) (take k ?ls) h1 = Inr h2" "caches_wf h2" "same_but_caches h1 h2"
      "\<forall>x. resident h2 x = (if x \<in> set (take k ?ls) then resident h1 x - {e} else resident h1 x)"
      by blast
    have "fill_level line (k, l) h = Inr h2" by (simp add: fill_level_def t(1) Some ord r(1))
    moreover have "resident h2 (?ls ! i) =
      (if i \<le> k then (if i = k then insert line (resident h l) else resident h (?ls ! i)) - set_option ev
       else resident h (?ls ! i))" if "i < length ?ls" for i
      using that t(4,6) neq [OF that] upper [OF that] r(4) Some l by auto
    ultimately show ?thesis using that r same_but_caches_trans [OF t(3)] by blast
  qed
  have ord2: "mh_level_order h2 = ?ls" using h2(3) by (rule same_but_caches_order)
  have ev: "line \<notin> set_option ev" using t(5) by auto
  have here: "\<And>i. i < k \<Longrightarrow> line \<in> resident h (?ls ! i)"
    and incl: "\<And>i j. j < length ?ls \<Longrightarrow> i < j \<Longrightarrow> resident h (?ls ! i) \<subseteq>
        (if j < k then resident h (?ls ! j) else insert line (resident h (?ls ! j)))"
    using fill k by (auto simp: filling_def)
  have "filling line (Suc k) h2"
    unfolding filling_def ord2
  proof (intro conjI allI impI)
    fix i assume "i < Suc k" "i < length ?ls"
    then show "line \<in> resident h2 (?ls ! i)"
      using here [of i] ev by (cases "i = k") (auto simp: res)
  next
    fix j i assume j: "j < length ?ls" "i < j"
    then have i: "i < length ?ls" by simp
    show "resident h2 (?ls ! i) \<subseteq>
      (if j < Suc k then resident h2 (?ls ! j) else insert line (resident h2 (?ls ! j)))"
      using incl [OF j] j l by (auto simp: res [OF i] res [OF j(1)] less_Suc_eq split: if_splits)
  qed
  then show ?thesis using h2 by blast
qed

lemma index_of_nth: "distinct xs \<Longrightarrow> i < length xs \<Longrightarrow> index_of xs (xs ! i) = Some i"
proof (induction xs arbitrary: i)
  case (Cons x xs)
  then show ?case by (cases i) auto
qed simp

lemma index_of_SomeD: "index_of xs x = Some i \<Longrightarrow> i < length xs \<and> xs ! i = x"
  by (induction xs arbitrary: i) (auto split: if_splits)

lemma index_of_mem: "x \<in> set xs \<Longrightarrow> \<exists>i. index_of xs x = Some i"
  by (induction xs) auto

lemma fill_lower_level:
  assumes dist: "distinct (mh_level_order h)" and k: "k < length (mh_level_order h)"
  shows "fill_lower line (mh_level_order h ! k) h = fill_level line (k, mh_level_order h ! k) h"
proof -
  have "mh_level_order h1 = mh_level_order h"
    if "touch_level h l line = Inr (h1, ev)" for h1 ev l
    using that by (auto simp: touch_level_def level_cache_def rbind_eq_Inr_iff)
  then have "level_index h1 (mh_level_order h ! k) = Inr k"
    if "touch_level h l line = Inr (h1, ev)" for h1 ev l
    using that index_of_nth [OF dist k] by (simp add: level_index_def)
  then show ?thesis
    unfolding fill_lower_def fill_level_def
    by (auto intro!: rbind_cong split: option.split)
qed

lemma fill_levels:
  assumes "mh_level_order h = pre @ seg @ post" and "caches_wf h" and "distinct (mh_level_order h)"
    and "filling line (length pre) h"
  shows "\<exists>h'. rfold (fill_level line) (List.enumerate (length pre) seg) h = Inr h' \<and>
     rfold (fill_lower line) seg h = Inr h' \<and> caches_wf h' \<and> same_but_caches h h' \<and>
     filling line (length pre + length seg) h'"
  using assms
proof (induction seg arbitrary: h pre)
  case (Cons l seg)
  have k: "length pre < length (mh_level_order h)" "l = mh_level_order h ! length pre"
    using Cons.prems(1) by (simp_all add: nth_append)
  obtain h1 where h1: "fill_level line (length pre, l) h = Inr h1" "caches_wf h1"
    "same_but_caches h h1" "filling line (Suc (length pre)) h1"
    using fill_level_step [OF Cons.prems(2,3,4) k] by blast
  have lower: "fill_lower line l h = Inr h1"
    using fill_lower_level [OF Cons.prems(3) k(1)] k(2) h1(1) by simp
  have ord: "mh_level_order h1 = (pre @ [l]) @ seg @ post"
    using same_but_caches_order [OF h1(3)] Cons.prems(1) by simp
  have "\<exists>h'. rfold (fill_level line) (List.enumerate (length (pre @ [l])) seg) h1 = Inr h' \<and>
     rfold (fill_lower line) seg h1 = Inr h' \<and> caches_wf h' \<and> same_but_caches h1 h' \<and>
     filling line (length (pre @ [l]) + length seg) h'"
    using Cons.prems h1 ord by (intro Cons.IH) auto
  then show ?case using h1 lower same_but_caches_trans by auto
qed auto

lemma fill_inclusive_eq:
  assumes wf: "caches_wf h" and dist: "distinct (mh_level_order h)" and incl: "inclusive h"
    and src: "source = dram \<or> source \<in> set (mh_level_order h)"
  shows "\<exists>h'. fill_inclusive h line source = Inr h' \<and> caches_wf h' \<and> same_but_caches h h' \<and>
     inclusive h' \<and> (\<forall>l\<in>set (mh_level_order h). line \<in> resident h' l)"
proof -
  let ?ls = "mh_level_order h"
  obtain i where i: "source_index h source = Inr i"
    using src index_of_mem [of source ?ls]
    by (cases "source = dram") (auto simp: source_index_def level_index_def)
  have start: "filling line (length ([] :: string list)) h"
    using incl by (auto simp: filling_def inclusive_def)
  obtain h1 where h1: "rfold (fill_level line) (List.enumerate 0 (take (Suc i) ?ls)) h = Inr h1"
    "caches_wf h1" "same_but_caches h h1" "filling line (length (take (Suc i) ?ls)) h1"
    using fill_levels [of h "[]" "take (Suc i) ?ls" "drop (Suc i) ?ls" line] wf dist start by auto
  have ord: "mh_level_order h1 = ?ls" using h1(3) by (rule same_but_caches_order)
  obtain h2 where h2: "rfold (fill_lower line) (drop (Suc i) ?ls) h1 = Inr h2" "caches_wf h2"
    "same_but_caches h1 h2"
    "filling line (length (take (Suc i) ?ls) + length (drop (Suc i) ?ls)) h2"
    using fill_levels [of h1 "take (Suc i) ?ls" "drop (Suc i) ?ls" "[]" line] h1 ord dist
    by (metis append_Nil2 append_take_drop_id)
  have "length (take (Suc i) ?ls) + length (drop (Suc i) ?ls) = length ?ls"
    by (metis append_take_drop_id length_append)
  then have full: "filling line (length ?ls) h2" "mh_level_order h2 = ?ls"
    using h2(4) same_but_caches_order [OF h2(3)] ord by (simp_all only:)
  then have "inclusive h2" "\<forall>l\<in>set ?ls. line \<in> resident h2 l"
    by (auto simp: filling_def inclusive_def in_set_conv_nth)
  then show ?thesis
    using i h1 h2 same_but_caches_trans [OF h1(3) h2(3)] by (auto simp: fill_inclusive_def)
qed

section \<open>Well-formed hierarchies\<close>

definition entry_ok :: "int \<Rightarrow> level_entry \<Rightarrow> bool" where
  "entry_ok tpc e \<longleftrightarrow> 0 < le_read_bytes_per_cycle e \<and> 0 < le_write_bytes_per_cycle e \<and>
     1 \<le> le_max_outstanding e \<and> (\<exists>t. ticks tpc (le_latency_cycles e) = Inr t \<and> 0 \<le> t)"

definition level_names :: "memory_hierarchy \<Rightarrow> string set" where
  "level_names h = insert dram (set (mh_level_order h))"

definition mem_static :: "memory_hierarchy \<Rightarrow> bool" where
  "mem_static h \<longleftrightarrow> distinct (mh_level_order h) \<and> mh_level_order h \<noteq> [] \<and>
     dram \<notin> set (mh_level_order h) \<and>
     (\<forall>l\<in>level_names h. \<exists>e. level_entry_of h l = Inr e \<and>
        entry_ok (mp_ticks_per_cycle (mh_profile h)) e)"

definition mem_tables :: "memory_hierarchy \<Rightarrow> bool" where
  "mem_tables h \<longleftrightarrow>
     (\<forall>l\<in>level_names h. (\<forall>a\<in>{''load'', ''store''}. map_of (mh_bandwidth_free h) (l, a) \<noteq> None) \<and>
        map_of (mh_hits h) l \<noteq> None \<and>
        (\<exists>ts e. map_of (mh_outstanding h) l = Some ts \<and> level_entry_of h l = Inr e \<and>
           int (length ts) \<le> le_max_outstanding e))"

definition pending_wf :: "memory_hierarchy \<Rightarrow> bool" where
  "pending_wf h \<longleftrightarrow> distinct (keys (mh_pending_fills h)) \<and>
     (\<forall>p\<in>set (mh_pending_fills h). snd (snd p) \<in> level_names h)"

definition mem_wf :: "memory_hierarchy \<Rightarrow> bool" where
  "mem_wf h \<longleftrightarrow> mem_static h \<and> caches_wf h \<and> inclusive h \<and> mem_tables h \<and> pending_wf h"

text \<open>What the predicates do not read.\<close>

lemma level_entry_of_update [simp]:
  "level_entry_of (h\<lparr>mh_pending_fills := d\<rparr>) = level_entry_of h"
  "level_entry_of (h\<lparr>mh_outstanding := t\<rparr>) = level_entry_of h"
  "level_entry_of (h\<lparr>mh_bandwidth_free := b\<rparr>) = level_entry_of h"
  "level_entry_of (h\<lparr>mh_hits := n\<rparr>) = level_entry_of h"
  by (simp_all add: level_entry_of_def fun_eq_iff)

lemma level_names_update [simp]:
  "level_names (h\<lparr>mh_pending_fills := d\<rparr>) = level_names h"
  "level_names (h\<lparr>mh_outstanding := t\<rparr>) = level_names h"
  "level_names (h\<lparr>mh_bandwidth_free := b\<rparr>) = level_names h"
  "level_names (h\<lparr>mh_hits := n\<rparr>) = level_names h"
  by (simp_all add: level_names_def)

lemma caches_wf_update [simp]:
  "caches_wf (h\<lparr>mh_pending_fills := d\<rparr>) = caches_wf h"
  "caches_wf (h\<lparr>mh_outstanding := t\<rparr>) = caches_wf h"
  "caches_wf (h\<lparr>mh_bandwidth_free := b\<rparr>) = caches_wf h"
  "caches_wf (h\<lparr>mh_hits := n\<rparr>) = caches_wf h"
  by (simp_all add: caches_wf_def)

lemma resident_update [simp]:
  "resident (h\<lparr>mh_pending_fills := d\<rparr>) = resident h"
  "resident (h\<lparr>mh_outstanding := t\<rparr>) = resident h"
  "resident (h\<lparr>mh_bandwidth_free := b\<rparr>) = resident h"
  "resident (h\<lparr>mh_hits := n\<rparr>) = resident h"
  by (simp_all add: resident_def fun_eq_iff)

lemma inclusive_update [simp]:
  "inclusive (h\<lparr>mh_pending_fills := d\<rparr>) = inclusive h"
  "inclusive (h\<lparr>mh_outstanding := t\<rparr>) = inclusive h"
  "inclusive (h\<lparr>mh_bandwidth_free := b\<rparr>) = inclusive h"
  "inclusive (h\<lparr>mh_hits := n\<rparr>) = inclusive h"
  by (simp_all add: inclusive_def)

lemmas mem_wf_defs = mem_wf_def mem_static_def mem_tables_def pending_wf_def level_names_def

lemma same_but_caches_fields:
  assumes "same_but_caches h h'"
  shows "mh_profile h' = mh_profile h" "mh_level_order h' = mh_level_order h"
    "mh_bandwidth_free h' = mh_bandwidth_free h" "mh_outstanding h' = mh_outstanding h"
    "mh_pending_fills h' = mh_pending_fills h" "mh_hits h' = mh_hits h" "mh_mode h' = mh_mode h"
    "level_entry_of h' l = level_entry_of h l"
  using assms unfolding same_but_caches_def level_entry_of_def
  by (metis memory_hierarchy.surjective memory_hierarchy.update_convs(4)
      memory_hierarchy.select_convs)+

lemma mem_wf_same_but_caches:
  "mem_wf h \<Longrightarrow> same_but_caches h h' \<Longrightarrow> caches_wf h' \<Longrightarrow> inclusive h' \<Longrightarrow> mem_wf h'"
  by (simp add: mem_wf_defs same_but_caches_fields [of h h'] cong: conj_cong)

lemma fill_keeps_wf:
  assumes wf: "mem_wf h" and src: "source \<in> level_names h"
  shows "\<exists>h'. fill_inclusive h line source = Inr h' \<and> mem_wf h' \<and> same_but_caches h h' \<and>
     (\<forall>l\<in>set (mh_level_order h). line \<in> resident h' l)"
proof -
  have "caches_wf h" "distinct (mh_level_order h)" "inclusive h"
    "source = dram \<or> source \<in> set (mh_level_order h)"
    using wf src by (auto simp: mem_wf_defs)
  from fill_inclusive_eq [OF this, of line] show ?thesis
    using mem_wf_same_but_caches [OF wf] by blast
qed

lemma delete_filter: "AList.delete k d = filter (\<lambda>p. fst p \<noteq> k) d"
  by (simp add: AList.delete_eq case_prod_unfold eq_commute)

lemma delete_pending_wf: "mem_wf h \<Longrightarrow>
    mem_wf (h\<lparr>mh_pending_fills := AList.delete line (mh_pending_fills h)\<rparr>)"
  unfolding mem_wf_def
  by (auto simp: pending_wf_def keys_def mem_static_def mem_tables_def distinct_map_filter
      delete_filter)

definition same_timing :: "memory_hierarchy \<Rightarrow> memory_hierarchy \<Rightarrow> bool" where
  "same_timing h h' \<longleftrightarrow> mh_profile h' = mh_profile h \<and> mh_level_order h' = mh_level_order h \<and>
     mh_bandwidth_free h' = mh_bandwidth_free h \<and> mh_outstanding h' = mh_outstanding h \<and>
     mh_hits h' = mh_hits h \<and> mh_mode h' = mh_mode h"

lemma same_timing_refl [simp]: "same_timing h h"
  by (simp add: same_timing_def)

lemma same_timing_trans: "same_timing h h' \<Longrightarrow> same_timing h' h'' \<Longrightarrow> same_timing h h''"
  by (simp add: same_timing_def)

lemma complete_one_eq:
  assumes wf: "mem_wf h" and p: "line \<in> set (keys (mh_pending_fills h))" "source \<in> level_names h"
  shows "\<exists>h'. complete_one (line, source) h = Inr h' \<and> mem_wf h' \<and> same_timing h h' \<and>
     mh_pending_fills h' = AList.delete line (mh_pending_fills h)"
proof -
  obtain h1 where h1: "fill_inclusive h line source = Inr h1" "mem_wf h1" "same_but_caches h h1"
    using fill_keeps_wf [OF wf p(2), of line] by blast
  obtain v where v: "map_of (mh_pending_fills h1) line = Some v"
    using p(1) same_but_caches_fields(5) [OF h1(3)] by (auto simp: keys_map_of)
  show ?thesis
    using h1 v delete_pending_wf [OF h1(2), of line]
    by (simp add: complete_one_def fetch_def same_timing_def same_but_caches_fields [OF h1(3)])
qed

lemma complete_loop:
  assumes "mem_wf h" and "distinct (map fst cs)"
    and "\<forall>(line, source)\<in>set cs. line \<in> set (keys (mh_pending_fills h)) \<and> source \<in> level_names h"
  shows "\<exists>h'. rfold complete_one cs h = Inr h' \<and> mem_wf h' \<and> same_timing h h' \<and>
     mh_pending_fills h' = filter (\<lambda>p. fst p \<notin> fst ` set cs) (mh_pending_fills h)"
  using assms
proof (induction cs arbitrary: h)
  case (Cons c cs)
  obtain line source where c: "c = (line, source)" by (cases c)
  obtain h1 where h1: "complete_one (line, source) h = Inr h1" "mem_wf h1" "same_timing h h1"
    "mh_pending_fills h1 = filter (\<lambda>p. fst p \<noteq> line) (mh_pending_fills h)"
    using complete_one_eq [OF Cons.prems(1), of line source] Cons.prems(3) c
    by (auto simp: delete_filter)
  have names: "level_names h1 = level_names h"
    using h1(3) by (simp add: level_names_def same_timing_def)
  have "l \<in> set (keys (mh_pending_fills h1)) \<and> s \<in> level_names h1" if "(l, s) \<in> set cs" for l s
  proof -
    have "l \<noteq> line" using Cons.prems(2) c that by (metis distinct.simps(2) fst_conv image_eqI
        list.set_map list.simps(9))
    moreover have "l \<in> set (keys (mh_pending_fills h))" "s \<in> level_names h"
      using Cons.prems(3) that by auto
    ultimately show ?thesis by (auto simp: keys_def h1(4) names)
  qed
  then have cs: "\<forall>(l, s)\<in>set cs. l \<in> set (keys (mh_pending_fills h1)) \<and> s \<in> level_names h1"
    by blast
  have "distinct (map fst cs)" using Cons.prems(2) by simp
  from Cons.IH [OF h1(2) this cs] obtain h2 where h2: "rfold complete_one cs h1 = Inr h2"
    "mem_wf h2" "same_timing h1 h2"
    "mh_pending_fills h2 = filter (\<lambda>p. fst p \<notin> fst ` set cs) (mh_pending_fills h1)" by blast
  have "mh_pending_fills h2 = filter (\<lambda>p. fst p \<notin> fst ` set (c # cs)) (mh_pending_fills h)"
    unfolding h2(4) h1(4) filter_filter by (rule filter_cong) (auto simp: c)
  moreover have "rfold complete_one (c # cs) h = Inr h2" using c h1(1) h2(1) by simp
  ultimately show ?case using h2(2) same_timing_trans [OF h1(3) h2(3)] by blast
qed simp

lemma complete_fills_eq:
  assumes wf: "mem_wf h"
  shows "\<exists>h'. complete_fills h now = Inr h' \<and> mem_wf h' \<and> same_timing h h' \<and>
     mh_pending_fills h' = filter (\<lambda>(line, completion, source). now < completion) (mh_pending_fills h)"
proof -
  define due where "due = filter (\<lambda>(line, completion, source). completion \<le> now) (mh_pending_fills h)"
  define cs where "cs = sort (map (\<lambda>(line, completion, source). (line, source)) due)"
  have dist: "distinct (keys (mh_pending_fills h))" using wf by (simp add: mem_wf_defs)
  have "distinct (map fst due)" using dist by (simp add: due_def keys_def distinct_map_filter)
  then have "distinct (map fst (map (\<lambda>(line, completion, source). (line, source)) due))"
    by (simp add: o_def case_prod_unfold)
  then have 1: "distinct (map fst cs)"
    unfolding cs_def by (simp only: distinct_map distinct_sort set_sort) 
  have 2: "\<forall>(line, source)\<in>set cs. line \<in> set (keys (mh_pending_fills h)) \<and> source \<in> level_names h"
    using wf by (force simp: cs_def due_def mem_wf_def pending_wf_def keys_def)
  have 3: "fst ` set cs = fst ` set due" by (force simp: cs_def)
  have 4: "fst p \<in> fst ` set due \<longleftrightarrow> fst (snd p) \<le> now" if "p \<in> set (mh_pending_fills h)" for p
  proof
    assume "fst p \<in> fst ` set due"
    then obtain q where q: "q \<in> set (mh_pending_fills h)" "fst q = fst p" "fst (snd q) \<le> now"
      by (auto simp: due_def)
    have "q = p" using dist that q(1,2) by (auto simp: keys_def distinct_map dest: inj_onD)
    then show "fst (snd p) \<le> now" using q(3) by simp
  next
    assume "fst (snd p) \<le> now"
    then have "p \<in> set due" using that by (cases p) (auto simp: due_def)
    then show "fst p \<in> fst ` set due" by simp
  qed
  obtain h' where h': "rfold complete_one cs h = Inr h'" "mem_wf h'" "same_timing h h'"
    "mh_pending_fills h' = filter (\<lambda>p. fst p \<notin> fst ` set cs) (mh_pending_fills h)"
    using complete_loop [OF wf 1 2] by blast
  have "filter (\<lambda>p. fst p \<notin> fst ` set cs) (mh_pending_fills h) =
      filter (\<lambda>(line, completion, source). now < completion) (mh_pending_fills h)"
    using 4 by (intro filter_cong) (auto simp: 3 not_le [symmetric])
  moreover have "complete_fills h now = rfold complete_one cs h"
    by (simp add: complete_fills_def cs_def due_def)
  ultimately show ?thesis using h' by auto
qed

section \<open>Accesses of a well-formed hierarchy\<close>

text \<open>
  \<open>current now h\<close>: no fill is due at \<open>now\<close>, so completing fills changes nothing.
\<close>

definition current :: "int \<Rightarrow> memory_hierarchy \<Rightarrow> bool" where
  "current now h \<longleftrightarrow> (\<forall>p\<in>set (mh_pending_fills h). now < fst (snd p))"

lemma complete_fills_current: "current now h \<Longrightarrow> complete_fills h now = Inr h"
proof -
  assume "current now h"
  then have "filter (\<lambda>(line, completion, source). completion \<le> now) (mh_pending_fills h) = []"
    by (auto simp: current_def filter_empty_conv)
  then show ?thesis by (simp add: complete_fills_def)
qed

lemma complete_fills_wf:
  assumes "mem_wf h"
  obtains h' where "complete_fills h now = Inr h'" "mem_wf h'" "same_timing h h'" "current now h'"
    "set (keys (mh_pending_fills h')) \<subseteq> set (keys (mh_pending_fills h))"
proof -
  obtain h' where h': "complete_fills h now = Inr h'" "mem_wf h'" "same_timing h h'"
    "mh_pending_fills h' = filter (\<lambda>(line, completion, source). now < completion) (mh_pending_fills h)"
    using complete_fills_eq [OF assms] by blast
  have "current now h'" "set (keys (mh_pending_fills h')) \<subseteq> set (keys (mh_pending_fills h))"
    by (auto simp: h'(4) current_def keys_def)
  with h' that show ?thesis by blast
qed

text \<open>The position of a line: the level its fill comes from, or the first level that holds it.\<close>

definition line_pos :: "memory_hierarchy \<Rightarrow> int \<Rightarrow> nat" where
  "line_pos h line =
     (case map_of (mh_pending_fills h) line of
        Some (completion, level) \<Rightarrow>
          (if level = dram then length (mh_level_order h) else the (index_of (mh_level_order h) level))
      | None \<Rightarrow> length (takeWhile (\<lambda>l. line \<notin> resident h l) (mh_level_order h)))"

lemma first_level_with_eq:
  assumes "\<forall>l\<in>set ls. \<exists>c. map_of (mh_caches h) l = Some c \<and> cache_wf c"
  shows "first_level_with h line k ls =
     Inr (k + length (takeWhile (\<lambda>l. line \<notin> resident h l) ls))"
  using assms
  by (induction ls arbitrary: k)
    (auto simp: level_cache_def fetch_def contains_eq resident_def)

lemma line_level_eq:
  assumes wf: "mem_wf h"
  shows "line_level h line = Inr (line_pos h line) \<and> line_pos h line \<le> length (mh_level_order h)"
proof (cases "map_of (mh_pending_fills h) line")
  case None
  then show ?thesis using wf first_level_with_eq [of "mh_level_order h" h line 0]
    by (simp add: line_level_def line_pos_def mem_wf_def caches_wf_def length_takeWhile_le)
next
  case (Some v)
  obtain t src where v: "v = (t, src)" by (cases v)
  have "(line, t, src) \<in> set (mh_pending_fills h)" using Some v by (simp add: map_of_SomeD)
  then have src: "src = dram \<or> src \<in> set (mh_level_order h)"
    using wf by (fastforce simp: mem_wf_def pending_wf_def level_names_def)
  obtain i where i: "src \<noteq> dram \<longrightarrow> index_of (mh_level_order h) src = Some i"
    using src index_of_mem [of src "mh_level_order h"] by blast
  show ?thesis using Some v i index_of_SomeD [of "mh_level_order h" src i]
    by (auto simp: line_level_def line_pos_def source_index_def level_index_def)
qed

lemma worst_fold:
  assumes wf: "mem_wf h" and w: "-1 \<le> w" "w \<le> int (length (mh_level_order h))"
  shows "\<exists>w'. rfold (\<lambda>line worst. rbind (line_level h line) (\<lambda>i. Inr (max worst (int i)))) lines w =
     Inr w' \<and> w' = max_of w (map (\<lambda>line. int (line_pos h line)) lines) \<and>
     -1 \<le> w' \<and> w' \<le> int (length (mh_level_order h))"
  using w
proof (induction lines arbitrary: w)
  case (Cons line lines)
  have le: "line_level h line = Inr (line_pos h line)" "line_pos h line \<le> length (mh_level_order h)"
    using line_level_eq [OF wf] by auto
  have "max w (int (line_pos h line)) = (if w < int (line_pos h line) then int (line_pos h line) else w)"
    by auto
  then show ?case using Cons.IH [of "max w (int (line_pos h line))"] Cons.prems le by auto
qed simp

definition access_pos :: "memory_hierarchy \<Rightarrow> mem_ref \<Rightarrow> int" where
  "access_pos h m = max_of (-1) (map (\<lambda>line. int (line_pos h line)) (mr_cache_lines m))"

definition level_at :: "memory_hierarchy \<Rightarrow> int \<Rightarrow> string" where
  "level_at h i =
     (if i = int (length (mh_level_order h)) then dram
      else if i < 0 then last (mh_level_order h) else mh_level_order h ! nat i)"

lemma level_at_mem:
  "mem_wf h \<Longrightarrow> -1 \<le> i \<Longrightarrow> i \<le> int (length (mh_level_order h)) \<Longrightarrow> level_at h i \<in> level_names h"
  by (auto simp: level_at_def level_names_def mem_wf_def mem_static_def)

lemma peek_level_eq:
  assumes wf: "mem_wf h"
  obtains h' where "complete_fills h now = Inr h'" "mem_wf h'" "same_timing h h'" "current now h'"
    "peek_level h (Some m) now = Inr (h', level_at h' (access_pos h' m))"
    "level_at h' (access_pos h' m) \<in> level_names h'"
    "-1 \<le> access_pos h' m" "access_pos h' m \<le> int (length (mh_level_order h'))"
proof -
  obtain h' where h': "complete_fills h now = Inr h'" "mem_wf h'" "same_timing h h'" "current now h'"
    using complete_fills_wf [OF wf] by blast
  let ?ls = "mh_level_order h'"
  have ne: "?ls \<noteq> []" using h'(2) by (simp add: mem_wf_def mem_static_def)
  from worst_fold [OF h'(2), of "-1" "mr_cache_lines m"] have w:
    "rfold (\<lambda>line worst. rbind (line_level h' line) (\<lambda>i. Inr (max worst (int i))))
       (mr_cache_lines m) (-1) = Inr (access_pos h' m)"
    "-1 \<le> access_pos h' m" "access_pos h' m \<le> int (length ?ls)"
    by (auto simp: access_pos_def)
  have "peek_level h (Some m) now = Inr (h', level_at h' (access_pos h' m))"
  proof (cases "access_pos h' m = -1")
    case True
    have "py_index ?ls (-1) = Some (length ?ls - 1)"
      using ne by (auto simp: py_index_def nat_diff_distrib Suc_le_eq)
    then show ?thesis
      using w(1) ne by (simp add: peek_level_def h'(1) level_at_def True last_conv_nth)
  next
    case False
    then show ?thesis using w by (simp add: peek_level_def h'(1) level_at_def py_index_def)
  qed
  then show ?thesis using that h' w level_at_mem [OF h'(2) w(2,3)] by blast
qed

text \<open>A level is ready for one more miss when its list is up to date and below its limit.\<close>

definition has_room :: "int \<Rightarrow> memory_hierarchy \<Rightarrow> string \<Rightarrow> bool" where
  "has_room now h l \<longleftrightarrow> (\<exists>ts e. map_of (mh_outstanding h) l = Some ts \<and>
     level_entry_of h l = Inr e \<and> int (length ts) < le_max_outstanding e \<and> (\<forall>t\<in>set ts. now < t))"

lemma outstanding_room:
  "\<forall>l\<in>set path. has_room now h l \<Longrightarrow> outstanding_blocker path h now = Inr (h, None, now)"
proof (induction path)
  case (Cons l path)
  then obtain ts e where l: "map_of (mh_outstanding h) l = Some ts" "level_entry_of h l = Inr e"
    "int (length ts) < le_max_outstanding e" "\<forall>t\<in>set ts. now < t"
    by (auto simp: has_room_def)
  then have "filter (\<lambda>tick. now < tick) ts = ts" by simp
  then show ?case
    using Cons l by (simp add: fetch_def outstanding_limit_def update_triv)
qed simp

definition trimmed :: "int \<Rightarrow> memory_hierarchy \<Rightarrow> memory_hierarchy \<Rightarrow> bool" where
  "trimmed now h h' \<longleftrightarrow> h' = h\<lparr>mh_outstanding := mh_outstanding h'\<rparr> \<and>
     (\<forall>l. map_of (mh_outstanding h') l = map_of (mh_outstanding h) l \<or>
        map_of (mh_outstanding h') l = map_option (filter (\<lambda>t. now < t)) (map_of (mh_outstanding h) l))"

lemma trimmed_trans:
  assumes "trimmed now h h1" and "trimmed now h1 h2"
  shows "trimmed now h h2"
proof -
  have "h2 = h\<lparr>mh_outstanding := mh_outstanding h2\<rparr>"
    using assms unfolding trimmed_def
    by (metis memory_hierarchy.update_convs(6) memory_hierarchy.surjective)
  moreover have "map_of (mh_outstanding h2) l = map_of (mh_outstanding h) l \<or>
      map_of (mh_outstanding h2) l = map_option (filter (\<lambda>t. now < t)) (map_of (mh_outstanding h) l)"
    for l
  proof -
    let ?f = "map_option (filter (\<lambda>t. now < t))"
    have "map_of (mh_outstanding h1) l \<in> {map_of (mh_outstanding h) l, ?f (map_of (mh_outstanding h) l)}"
      "map_of (mh_outstanding h2) l \<in> {map_of (mh_outstanding h1) l, ?f (map_of (mh_outstanding h1) l)}"
      using assms unfolding trimmed_def by blast+
    moreover have "?f (?f x) = ?f x" for x :: "int list option" by (cases x) simp_all
    ultimately show ?thesis by auto
  qed
  ultimately show ?thesis by (simp add: trimmed_def)
qed

lemma trimmed_wf:
  assumes wf: "mem_wf h" and t: "trimmed now h h'"
  shows "mem_wf h'"
proof -
  obtain d where h': "h' = h\<lparr>mh_outstanding := d\<rparr>"
    and d: "\<And>l. map_of d l = map_of (mh_outstanding h) l \<or>
        map_of d l = map_option (filter (\<lambda>t. now < t)) (map_of (mh_outstanding h) l)"
    using t unfolding trimmed_def by (metis memory_hierarchy.select_convs(6)
        memory_hierarchy.surjective memory_hierarchy.update_convs(6))
  have "\<exists>ts e. map_of d l = Some ts \<and> level_entry_of h l = Inr e \<and> int (length ts) \<le> le_max_outstanding e"
    if l: "l \<in> level_names h" for l
  proof -
    obtain ts e where e: "map_of (mh_outstanding h) l = Some ts" "level_entry_of h l = Inr e"
      "int (length ts) \<le> le_max_outstanding e"
      using wf l by (auto simp: mem_wf_def mem_tables_def)
    have "length (filter (\<lambda>t. now < t) ts) \<le> length ts" by simp
    with e have "int (length (filter (\<lambda>t. now < t) ts)) \<le> le_max_outstanding e" by linarith
    then show ?thesis using d [of l] e by auto
  qed
  then show ?thesis
    using wf by (auto simp: h' mem_wf_def mem_static_def mem_tables_def pending_wf_def)
qed

lemma outstanding_blocker_eq:
  assumes "mem_wf h" and "set path \<subseteq> level_names h"
  shows "\<exists>h' r t. outstanding_blocker path h now = Inr (h', r, t) \<and> trimmed now h h' \<and>
     (case r of None \<Rightarrow> t = now \<and> (\<forall>l\<in>set path. has_room now h' l)
      | Some x \<Rightarrow> x = ''memory_outstanding'' \<and> now < t)"
  using assms
proof (induction path arbitrary: h)
  case (Cons l path)
  obtain ts e where l: "map_of (mh_outstanding h) l = Some ts" "level_entry_of h l = Inr e"
    "entry_ok (mp_ticks_per_cycle (mh_profile h)) e"
    using Cons.prems unfolding mem_wf_def mem_static_def mem_tables_def by fastforce
  define pend where "pend = filter (\<lambda>t. now < t) ts"
  define h1 where "h1 = h\<lparr>mh_outstanding := AList.update l pend (mh_outstanding h)\<rparr>"
  have t1: "trimmed now h h1" using l(1) by (auto simp: trimmed_def h1_def pend_def)
  have wf1: "mem_wf h1" by (rule trimmed_wf [OF Cons.prems(1) t1])
  have step: "outstanding_blocker (l # path) h now =
      (if le_max_outstanding e \<le> int (length pend)
       then (case pend of [] \<Rightarrow> Inl (MemValueError ''min'')
             | t # ts \<Rightarrow> Inr (h1, Some ''memory_outstanding'', min_of t ts))
       else outstanding_blocker path h1 now)"
    unfolding h1_def pend_def using l by (simp add: fetch_def outstanding_limit_def Let_def)
  show ?case
  proof (cases "le_max_outstanding e \<le> int (length pend)")
    case True
    then obtain t ts' where p: "pend = t # ts'" using l(3) by (cases pend) (auto simp: entry_ok_def)
    have "\<forall>x\<in>set pend. now < x" by (simp add: pend_def)
    then have "now < min_of t ts'" unfolding less_min_of_iff p by auto
    then show ?thesis unfolding step using True p t1 by auto
  next
    case False
    have "set path \<subseteq> level_names h1" using Cons.prems(2) by (simp add: h1_def)
    from Cons.IH [OF wf1 this] obtain h2 r t where
      rest: "outstanding_blocker path h1 now = Inr (h2, r, t)" "trimmed now h1 h2"
        "case r of None \<Rightarrow> t = now \<and> (\<forall>l\<in>set path. has_room now h2 l)
         | Some x \<Rightarrow> x = ''memory_outstanding'' \<and> now < t" by blast
    have "map_of (mh_outstanding h2) l = Some pend"
    proof -
      have "map_of (mh_outstanding h1) l = Some pend" "filter (\<lambda>t. now < t) pend = pend"
        by (simp_all add: h1_def pend_def)
      then show ?thesis using rest(2) unfolding trimmed_def by (metis option.simps(9))
    qed
    moreover have "level_entry_of h2 = level_entry_of h"
      using rest(2) unfolding trimmed_def h1_def
      by (metis level_entry_of_update(2))
    ultimately have "has_room now h2 l"
      using False l(2) by (auto simp: has_room_def pend_def)
    then show ?thesis
      unfolding step using False rest trimmed_trans [OF t1 rest(2)] by (auto split: option.splits)
  qed
qed (auto simp: trimmed_def)

lemma trimmed_update:
  "trimmed now h h' \<Longrightarrow> \<exists>d. h' = h\<lparr>mh_outstanding := d\<rparr>"
  unfolding trimmed_def by blast

lemma line_pos_outstanding: "line_pos (h\<lparr>mh_outstanding := d\<rparr>) = line_pos h"
  by (auto simp: line_pos_def fun_eq_iff split: option.split)

lemma trimmed_reads:
  assumes "trimmed now h h'"
  shows "mh_pending_fills h' = mh_pending_fills h" "mh_bandwidth_free h' = mh_bandwidth_free h"
    "mh_level_order h' = mh_level_order h" "access_pos h' m = access_pos h m"
    "level_at h' i = level_at h i" "current now' h' = current now' h" "miss_path h' l = miss_path h l"
    "has_pending h' m = has_pending h m" "mh_profile h' = mh_profile h" "mh_hits h' = mh_hits h"
    "level_names h' = level_names h" "level_entry_of h' = level_entry_of h"
  using trimmed_update [OF assms]
  by (auto simp: access_pos_def line_pos_outstanding level_at_def current_def miss_path_def
      level_index_def has_pending_def)

lemma miss_path_eq:
  assumes "mem_wf h" and "l \<in> level_names h"
  shows "\<exists>path. miss_path h l = Inr path \<and> set path \<subseteq> level_names h \<and> distinct path"
proof (cases "l = dram")
  case True
  then show ?thesis using assms(1) by (auto simp: miss_path_def level_names_def mem_wf_def mem_static_def)
next
  case False
  then obtain i where "index_of (mh_level_order h) l = Some i"
    using assms(2) index_of_mem by (fastforce simp: level_names_def)
  then show ?thesis using assms False
    by (auto simp: miss_path_def level_index_def level_names_def mem_wf_def mem_static_def
        dest: in_set_takeD)
qed

definition access_level :: "memory_hierarchy \<Rightarrow> mem_ref \<Rightarrow> string" where
  "access_level h m = level_at h (access_pos h m)"

text \<open>
  The state in which \<open>blocker\<close> has answered \<open>None\<close>: fills are up to date, and either the
  access joins a pending fill or its level's port is free and every missed level has room.
\<close>

definition grantable :: "int \<Rightarrow> memory_hierarchy \<Rightarrow> mem_ref \<Rightarrow> bool" where
  "grantable now h m \<longleftrightarrow> mem_wf h \<and> current now h \<and> access_level h m \<in> level_names h \<and>
     (has_pending h m \<or>
      (\<exists>free path. map_of (mh_bandwidth_free h) (access_level h m, mr_access m) = Some free \<and>
         free \<le> now \<and> miss_path h (access_level h m) = Inr path \<and> distinct path \<and>
         set path \<subseteq> level_names h \<and> (\<forall>l\<in>set path. has_room now h l)))"

definition access_kind :: "mem_ref \<Rightarrow> bool" where
  "access_kind m \<longleftrightarrow> mr_access m = ''load'' \<or> mr_access m = ''store''"

lemma blocker_eq:
  assumes wf: "mem_wf h" and kind: "access_kind m"
  shows "\<exists>h' r t. blocker h (Some m) now = Inr (h', r, t) \<and> mem_wf h' \<and> current now h' \<and>
     access_level h' m \<in> level_names h' \<and> mh_hits h' = mh_hits h \<and>
     mh_level_order h' = mh_level_order h \<and>
     (case r of None \<Rightarrow> t = now \<and> grantable now h' m
      | Some x \<Rightarrow> now < t \<and> (x = ''memory_bandwidth'' \<or> x = ''memory_outstanding''))"
proof -
  obtain h1 where h1: "mem_wf h1" "same_timing h h1" "current now h1"
    "peek_level h (Some m) now = Inr (h1, access_level h1 m)" "access_level h1 m \<in> level_names h1"
    using peek_level_eq [OF wf] unfolding access_level_def by metis
  let ?l = "access_level h1 m"
  have h1': "mh_hits h1 = mh_hits h" "mh_level_order h1 = mh_level_order h"
    using h1(2) by (simp_all add: same_timing_def)
  obtain free where free: "map_of (mh_bandwidth_free h1) (?l, mr_access m) = Some free"
    using h1(1,5) kind unfolding mem_wf_def mem_tables_def access_kind_def by fastforce
  obtain path where path: "miss_path h1 ?l = Inr path" "set path \<subseteq> level_names h1" "distinct path"
    using miss_path_eq [OF h1(1,5)] by blast
  obtain h2 r t where out: "outstanding_blocker path h1 now = Inr (h2, r, t)" "trimmed now h1 h2"
    "case r of None \<Rightarrow> t = now \<and> (\<forall>l\<in>set path. has_room now h2 l)
     | Some x \<Rightarrow> x = ''memory_outstanding'' \<and> now < t"
    using outstanding_blocker_eq [OF h1(1) path(2)] by blast
  note same = trimmed_reads [OF out(2)]
  have lvl: "access_level h2 m = ?l" by (simp add: access_level_def same)
  have wf2: "mem_wf h2" by (rule trimmed_wf [OF h1(1) out(2)])
  have step: "blocker h (Some m) now =
     (if has_pending h1 m then Inr (h1, None, now)
      else if free > now then Inr (h1, Some ''memory_bandwidth'', free) else Inr (h2, r, t))"
    by (simp add: blocker_def h1(4) fetch_def free path(1) out(1))
  show ?thesis
  proof (cases "has_pending h1 m \<or> free > now")
    case True
    then show ?thesis unfolding step using h1 h1' by (auto simp: grantable_def)
  next
    case False
    then have "blocker h (Some m) now = Inr (h2, r, t)" unfolding step by simp
    moreover have "grantable now h2 m" if "r = None"
      using that False out(3) path free wf2 h1(3,5) by (auto simp: grantable_def lvl same)
    ultimately show ?thesis using wf2 h1(3,5) h1' out(3) lvl by (auto simp: same split: option.splits)
  qed
qed

lemma blocker_grantable:
  assumes g: "grantable now h m"
  shows "blocker h (Some m) now = Inr (h, None, now)" "peek_level h (Some m) now = Inr (h, access_level h m)"
proof -
  have g': "mem_wf h" "current now h" using g by (auto simp: grantable_def)
  obtain h1 where h1: "complete_fills h now = Inr h1"
    "peek_level h (Some m) now = Inr (h1, level_at h1 (access_pos h1 m))"
    using peek_level_eq [OF g'(1)] by metis
  have "h1 = h" using h1(1) complete_fills_current [OF g'(2)] by simp
  then show peek: "peek_level h (Some m) now = Inr (h, access_level h m)"
    using h1(2) by (simp add: access_level_def)
  show "blocker h (Some m) now = Inr (h, None, now)"
    using g peek by (auto simp: blocker_def grantable_def fetch_def outstanding_room)
qed

lemma access_level_first:
  assumes wf: "mem_wf h" and no: "\<not> has_pending h m" and first: "access_level h m = hd (mh_level_order h)"
    and line: "line \<in> set (mr_cache_lines m)"
  shows "line \<in> resident h (hd (mh_level_order h))"
proof -
  let ?ls = "mh_level_order h" and ?p = "access_pos h m"
  have ls: "?ls \<noteq> []" "distinct ?ls" "dram \<notin> set ?ls" using wf by (auto simp: mem_wf_def mem_static_def)
  have le: "int (line_pos h line) \<le> ?p"
    unfolding access_pos_def using line by (intro max_of_ge) auto
  then have "0 \<le> ?p" by simp
  moreover have "?p \<le> int (length ?ls)"
    using max_of_mem [of "-1" "map (\<lambda>line. int (line_pos h line)) (mr_cache_lines m)"]
      line_level_eq [OF wf] ls(1) by (auto simp: access_pos_def)
  ultimately have "?p = 0"
    using first ls by (auto simp: access_level_def level_at_def hd_conv_nth nth_eq_iff_index_eq
        split: if_splits) (metis hd_conv_nth list.set_sel(1))
  then have "line_pos h line = 0" using le by simp
  moreover have "map_of (mh_pending_fills h) line = None"
    using no line keys_map_of [of line "mh_pending_fills h"] unfolding has_pending_def by blast
  ultimately show ?thesis using ls(1) by (cases ?ls) (auto simp: line_pos_def split: if_splits)
qed

lemma touch_into_resident:
  assumes wf: "mem_wf h" and l: "l \<in> set (mh_level_order h)" and line: "line \<in> resident h l"
  shows "\<exists>h'. touch_into line l h = Inr h' \<and> mem_wf h' \<and> same_but_caches h h' \<and>
     (\<forall>l. resident h' l = resident h l)"
proof -
  obtain h' ev where t: "touch_level h l line = Inr (h', ev)" "caches_wf h'" "same_but_caches h h'"
    "resident h' l = insert line (resident h l) - set_option ev"
    "\<forall>e. ev = Some e \<longrightarrow> e \<in> resident h l \<and> e \<noteq> line \<and> line \<notin> resident h l"
    "\<forall>l'. l' \<noteq> l \<longrightarrow> resident h' l' = resident h l'"
    using touch_level_eq [OF _ l, of line] wf unfolding mem_wf_def by metis
  have "ev = None" using t(5) line by (cases ev) auto
  then have res: "resident h' x = resident h x" for x using t(4,6) line by (cases "x = l") auto
  have "inclusive h'" using wf same_but_caches_order [OF t(3)] by (simp add: inclusive_def res mem_wf_def)
  with t res mem_wf_same_but_caches [OF wf t(3,2)] show ?thesis by (simp add: touch_into_def)
qed

lemma note_lines:
  assumes "mem_wf h" and "level \<in> level_names h"
    and "level = hd (mh_level_order h) \<longrightarrow> set lines \<subseteq> resident h level"
  shows "\<exists>h'. rfold (note_line level completion) lines h = Inr h' \<and> mem_wf h' \<and>
     mh_level_order h' = mh_level_order h \<and> mh_hits h' = mh_hits h \<and>
     (\<forall>l. resident h' l = resident h l) \<and>
     (level \<noteq> hd (mh_level_order h) \<longrightarrow>
        (\<forall>line. map_of (mh_pending_fills h') line =
           (if line \<in> set lines then Some (completion, level) else map_of (mh_pending_fills h) line)))"
  using assms
proof (induction lines arbitrary: h)
  case (Cons line lines)
  obtain l1 rest where ord: "mh_level_order h = l1 # rest"
    using Cons.prems(1) by (cases "mh_level_order h") (auto simp: mem_wf_def mem_static_def)
  show ?case
  proof (cases "level = l1")
    case True
    then obtain h1 where h1: "touch_into line level h = Inr h1" "mem_wf h1" "same_but_caches h h1"
      "\<forall>l. resident h1 l = resident h l"
      using touch_into_resident [OF Cons.prems(1), of level line] Cons.prems(3) ord by auto
    have f: "mh_level_order h1 = l1 # rest" "mh_hits h1 = mh_hits h"
      using same_but_caches_fields [OF h1(3)] ord by auto
    have "level \<in> level_names h1" "level = hd (mh_level_order h1) \<longrightarrow> set lines \<subseteq> resident h1 level"
      using Cons.prems True f h1(4) ord by (auto simp: level_names_def)
    from Cons.IH [OF h1(2) this] show ?thesis
      using True h1 f ord by (auto simp: note_line_def)
  next
    case False
    define h1 where "h1 = h\<lparr>mh_pending_fills := AList.update line (completion, level) (mh_pending_fills h)\<rparr>"
    have "pending_wf h1"
      using Cons.prems(1,2) set_update_subset [of line "(completion, level)" "mh_pending_fills h"]
      by (fastforce simp: h1_def pending_wf_def distinct_keys_update mem_wf_def)
    then have "mem_wf h1"
      using Cons.prems(1) by (auto simp: h1_def mem_wf_def mem_static_def mem_tables_def)
    moreover have "level \<in> level_names h1" "level = hd (mh_level_order h1) \<longrightarrow> set lines \<subseteq> resident h1 level"
      using Cons.prems False ord by (auto simp: h1_def)
    ultimately show ?thesis using Cons.IH [of h1] False ord by (auto simp: note_line_def h1_def)
  qed
qed simp

lemma record_misses:
  assumes "mem_wf h" and "distinct path" and "set path \<subseteq> level_names h"
    and "\<forall>l\<in>set path. has_room now h l"
  shows "\<exists>d. rfold (\<lambda>missed h. rbind (fetch MemKeyError (mh_outstanding h) missed) (\<lambda>ts.
         Inr (h\<lparr>mh_outstanding := AList.update missed (ts @ [completion]) (mh_outstanding h)\<rparr>)))
       path h = Inr (h\<lparr>mh_outstanding := d\<rparr>) \<and> mem_wf (h\<lparr>mh_outstanding := d\<rparr>)"
  using assms
proof (induction path arbitrary: h)
  case (Cons l path)
  obtain ts e where l: "map_of (mh_outstanding h) l = Some ts" "level_entry_of h l = Inr e"
    "int (length ts) < le_max_outstanding e"
    using Cons.prems by (auto simp: has_room_def)
  define h1 where "h1 = h\<lparr>mh_outstanding := AList.update l (ts @ [completion]) (mh_outstanding h)\<rparr>"
  have "mem_wf h1"
    using Cons.prems(1) l by (auto simp: h1_def mem_wf_def mem_static_def mem_tables_def pending_wf_def)
  moreover have "\<forall>l\<in>set path. has_room now h1 l"
    using Cons.prems(2,4) by (auto simp: h1_def has_room_def)
  ultimately obtain d where "rfold (\<lambda>missed h. rbind (fetch MemKeyError (mh_outstanding h) missed) (\<lambda>ts.
         Inr (h\<lparr>mh_outstanding := AList.update missed (ts @ [completion]) (mh_outstanding h)\<rparr>)))
       path h1 = Inr (h1\<lparr>mh_outstanding := d\<rparr>)" "mem_wf (h1\<lparr>mh_outstanding := d\<rparr>)"
    using Cons.IH [of h1] Cons.prems(2,3) by (auto simp: h1_def)
  then show ?case using l(1) by (auto simp: fetch_def h1_def)
next
  case Nil
  then show ?case by (auto intro!: exI [of _ "mh_outstanding h"])
qed

lemma add_hits_eq:
  assumes "mem_wf h" and "l \<in> level_names h"
  shows "\<exists>old. map_of (mh_hits h) l = Some old \<and>
     add_hits h l n = Inr (h\<lparr>mh_hits := AList.update l (old + n) (mh_hits h)\<rparr>) \<and>
     mem_wf (h\<lparr>mh_hits := AList.update l (old + n) (mh_hits h)\<rparr>)"
proof -
  obtain old where "map_of (mh_hits h) l = Some old"
    using assms by (auto simp: mem_wf_def mem_tables_def)
  then show ?thesis using assms(1)
    by (auto simp: add_hits_def fetch_def mem_wf_def mem_static_def mem_tables_def pending_wf_def)
qed

text \<open>What a granted access does.\<close>

lemma has_pending_iff:
  "has_pending h m \<longleftrightarrow> (\<exists>line\<in>set (mr_cache_lines m). map_of (mh_pending_fills h) line \<noteq> None)"
  by (simp only: has_pending_def keys_map_of)

lemma no_pending_filter:
  "List.map_filter (\<lambda>line. map_of (mh_pending_fills h) line) (mr_cache_lines m) = [] \<longleftrightarrow>
     \<not> has_pending h m"
  by (simp only: map_filter_Nil has_pending_iff ball_simps bex_simps not_not)

definition latency_of :: "memory_hierarchy \<Rightarrow> string \<Rightarrow> int" where
  "latency_of h l = (case rbind (level_entry_of h l)
       (\<lambda>e. ticks (mp_ticks_per_cycle (mh_profile h)) (le_latency_cycles e)) of
     Inl _ \<Rightarrow> 0 | Inr t \<Rightarrow> t)"

lemma pending_after: "current now h \<Longrightarrow> map_of (mh_pending_fills h) line = Some p \<Longrightarrow> now < fst p"
  using map_of_SomeD [of "mh_pending_fills h" line p] by (auto simp: current_def)

lemma access_joins:
  assumes g: "grantable now h m" and pend: "has_pending h m"
  shows "\<exists>h' a. access h (Some m) now = Inr (h', a) \<and> mem_wf h' \<and>
     ma_level a = access_level h m \<and> ma_completion_tick a = now + ma_latency_ticks a \<and>
     now < ma_completion_tick a \<and> mh_pending_fills h' = mh_pending_fills h \<and>
     (\<exists>line\<in>set (mr_cache_lines m). \<exists>s. map_of (mh_pending_fills h) line = Some (ma_completion_tick a, s)) \<and>
     (\<forall>line\<in>set (mr_cache_lines m). \<forall>c s. map_of (mh_pending_fills h) line = Some (c, s) \<longrightarrow> c \<le> ma_completion_tick a)"
proof -
  let ?ps = "List.map_filter (\<lambda>line. map_of (mh_pending_fills h) line) (mr_cache_lines m)"
  have wf: "mem_wf h" "current now h" "access_level h m \<in> level_names h"
    using g by (auto simp: grantable_def)
  obtain p ps where ps: "?ps = p # ps"
  proof (cases ?ps)
    case Nil
    then show ?thesis using pend no_pending_filter by fast
  qed
  have mem: "\<exists>line\<in>set (mr_cache_lines m). map_of (mh_pending_fills h) line = Some q"
    if "q \<in> set (p # ps)" for q
    using that unfolding ps [symmetric] by (auto simp: List.map_filter_def)
  let ?c = "max_of (fst p) (map fst ps)"
  have "?c \<in> fst ` set (p # ps)" using max_of_mem [of "fst p" "map fst ps"] by auto
  then obtain q where q: "q \<in> set (p # ps)" "?c = fst q" by blast
  obtain line where line: "line \<in> set (mr_cache_lines m)" "map_of (mh_pending_fills h) line = Some q"
    using mem [OF q(1)] by blast
  obtain old where hits: "add_hits h (access_level h m) (int (length (mr_cache_lines m))) =
      Inr (h\<lparr>mh_hits := AList.update (access_level h m) (old + int (length (mr_cache_lines m))) (mh_hits h)\<rparr>)"
    "mem_wf (h\<lparr>mh_hits := AList.update (access_level h m) (old + int (length (mr_cache_lines m))) (mh_hits h)\<rparr>)"
    using add_hits_eq [OF wf(1,3)] by blast
  have "now < ?c" "map_of (mh_pending_fills h) line = Some (?c, snd q)"
    using pending_after [OF wf(2) line(2)] line(2) q(2) by auto
  moreover have "c \<le> ?c" if "line \<in> set (mr_cache_lines m)" "map_of (mh_pending_fills h) line = Some (c, s)" for line c s
  proof (rule max_of_ge)
    have "(c, s) \<in> set (p # ps)" using that unfolding ps [symmetric] by (force simp: List.map_filter_def)
    then show "c \<in> insert (fst p) (set (map fst ps))" by force
  qed
  ultimately show ?thesis
    using blocker_grantable [OF g] hits line(1)
    by (auto simp: access_def ps Let_def)
qed

lemma issue_request_eq:
  assumes g: "grantable now h m" and no: "\<not> has_pending h m" and kind: "access_kind m"
  shows "\<exists>h' a. issue_request h m (access_level h m) now = Inr (h', a) \<and> mem_wf h' \<and>
     ma_level a = access_level h m \<and> ma_latency_ticks a = latency_of h (access_level h m) \<and>
     0 \<le> ma_latency_ticks a \<and> ma_completion_tick a = now + ma_latency_ticks a \<and>
     (access_level h m \<noteq> hd (mh_level_order h) \<longrightarrow> (\<forall>line\<in>set (mr_cache_lines m).
        map_of (mh_pending_fills h') line = Some (ma_completion_tick a, access_level h m)))"
proof -
  let ?l = "access_level h m" and ?n = "int (length (mr_cache_lines m))"
  have wf: "mem_wf h" "?l \<in> level_names h" using g by (auto simp: grantable_def)
  obtain path where path: "miss_path h ?l = Inr path" "distinct path" "set path \<subseteq> level_names h"
    "\<forall>l\<in>set path. has_room now h l"
    using g no by (auto simp: grantable_def)
  obtain e where e: "level_entry_of h ?l = Inr e" "entry_ok (mp_ticks_per_cycle (mh_profile h)) e"
    using wf unfolding mem_wf_def mem_static_def by metis
  then obtain t where t: "ticks (mp_ticks_per_cycle (mh_profile h)) (le_latency_cycles e) = Inr t" "0 \<le> t"
    by (auto simp: entry_ok_def)
  have lat: "latency_of h ?l = t" by (simp add: latency_of_def e(1) t(1))
  define per where "per = (if mr_access m = ''store'' then le_write_bytes_per_cycle e
      else le_read_bytes_per_cycle e)"
  have per: "per \<noteq> 0" using e(2) by (auto simp: per_def entry_ok_def)
  define bt where "bt = ceil_div (mr_bytes m * mp_ticks_per_cycle (mh_profile h)) per"
  define h1 where "h1 = h\<lparr>mh_bandwidth_free := AList.update (?l, mr_access m) (now + bt) (mh_bandwidth_free h)\<rparr>"
  have wf1: "mem_wf h1"
    using wf(1) by (auto simp: h1_def mem_wf_def mem_static_def mem_tables_def pending_wf_def)
  have path1: "miss_path h1 ?l = Inr path" "set path \<subseteq> level_names h1" "\<forall>l\<in>set path. has_room now h1 l"
    using path by (auto simp: h1_def miss_path_def level_index_def has_room_def)
  obtain d where d: "rfold (\<lambda>missed h. rbind (fetch MemKeyError (mh_outstanding h) missed) (\<lambda>ts.
         Inr (h\<lparr>mh_outstanding := AList.update missed (ts @ [now + t]) (mh_outstanding h)\<rparr>)))
       path h1 = Inr (h1\<lparr>mh_outstanding := d\<rparr>)" "mem_wf (h1\<lparr>mh_outstanding := d\<rparr>)"
    using record_misses [OF wf1 path(2) path1(2,3)] by blast
  define h2 where "h2 = h1\<lparr>mh_outstanding := d\<rparr>"
  have wf2: "mem_wf h2" "?l \<in> level_names h2" using d(2) wf(2) by (auto simp: h2_def h1_def)
  obtain old where hits: "add_hits h2 ?l ?n = Inr (h2\<lparr>mh_hits := AList.update ?l (old + ?n) (mh_hits h2)\<rparr>)"
    "mem_wf (h2\<lparr>mh_hits := AList.update ?l (old + ?n) (mh_hits h2)\<rparr>)"
    using add_hits_eq [OF wf2] by blast
  define h3 where "h3 = h2\<lparr>mh_hits := AList.update ?l (old + ?n) (mh_hits h2)\<rparr>"
  have h3: "mem_wf h3" "?l \<in> level_names h3" "mh_level_order h3 = mh_level_order h" "resident h3 = resident h"
    using hits(2) wf2(2) by (auto simp: h3_def h2_def h1_def)
  have "?l = hd (mh_level_order h3) \<longrightarrow> set (mr_cache_lines m) \<subseteq> resident h3 ?l"
    using access_level_first [OF wf(1) no] h3(3,4) by auto
  from note_lines [OF h3(1,2) this, of "now + t"] obtain h4 where h4:
    "rfold (note_line ?l (now + t)) (mr_cache_lines m) h3 = Inr h4" "mem_wf h4"
    "?l \<noteq> hd (mh_level_order h3) \<longrightarrow> (\<forall>line. map_of (mh_pending_fills h4) line =
       (if line \<in> set (mr_cache_lines m) then Some (now + t, ?l) else map_of (mh_pending_fills h3) line))"
    by blast
  have step: "issue_request h m ?l now = Inr (h4, \<lparr>ma_level = ?l, ma_latency_ticks = t,
      ma_bandwidth_ticks = bt, ma_completion_tick = now + t\<rparr>)"
    using per path1(1) d(1) hits(1) h4(1)
    by (simp add: issue_request_def e(1) t(1) per_def [symmetric] bt_def [symmetric]
        h1_def [symmetric] h2_def [symmetric] h3_def [symmetric] Let_def)
  then show ?thesis using h4(2,3) h3(3) lat t(2) by auto
qed

lemma access_issues:
  assumes g: "grantable now h m" and no: "\<not> has_pending h m"
  shows "access h (Some m) now = issue_request h m (access_level h m) now"
proof -
  have "List.map_filter (\<lambda>line. map_of (mh_pending_fills h) line) (mr_cache_lines m) = []"
    using no by (simp only: no_pending_filter simp_thms)
  then show ?thesis using blocker_grantable [OF g] by (simp add: access_def)
qed

lemma access_granted:
  assumes "grantable now h m" and "access_kind m"
  shows "\<exists>h' a. access h (Some m) now = Inr (h', a) \<and> mem_wf h' \<and>
     ma_level a = access_level h m \<and> 0 \<le> ma_latency_ticks a \<and>
     ma_completion_tick a = now + ma_latency_ticks a"
proof (cases "has_pending h m")
  case True
  from access_joins [OF assms(1) this] obtain h' a where a: "access h (Some m) now = Inr (h', a)" "mem_wf h'"
    "ma_level a = access_level h m" "ma_completion_tick a = now + ma_latency_ticks a" "now < ma_completion_tick a" by blast
  then have "0 \<le> ma_latency_ticks a" by simp
  with a show ?thesis by blast
next
  case False
  then show ?thesis
    using access_issues [OF assms(1)] issue_request_eq [OF assms(1) _ assms(2)] by fastforce
qed

section \<open>Initial contents\<close>

lemma touch_all_can_hold:
  assumes mk: "make_cache sz ways line_bytes = Inr c" "0 < ways" "0 < line_bytes" "0 < sz"
    and dist: "distinct lines" and hold: "can_hold c lines = Inr True"
  shows "\<exists>c'. touch_all c lines = Inr c' \<and> cache_wf c' \<and> lines_of c' = set lines"
proof -
  have wf: "cache_wf c" "lines_of c = {}" "c_ways c = ways" using make_cache_wf [OF mk] by auto
  have keep: "touch_all c ls = Inr c2 \<Longrightarrow> cache_wf c \<Longrightarrow>
      cache_wf c2 \<and> c_set_count c2 = c_set_count c \<and> lines_of c2 \<subseteq> lines_of c \<union> set ls" for ls c c2
  proof (induction ls arbitrary: c)
    case (Cons l ls)
    then show ?case using touch_eq [of c l] by (force simp: rbind_eq_Inr_iff)
  qed simp
  obtain c' where c': "touch_all c lines = Inr c'"
    "\<And>i. i < length (c_sets c) \<Longrightarrow> c_sets c' ! i = lru_contents (nat ways) (slot_history c i lines)"
    using touch_all_slots [OF mk] by blast
  have k: "cache_wf c'" "c_set_count c' = c_set_count c" "lines_of c' \<subseteq> set lines"
    using keep [OF c'(1) wf(1)] wf(2) by auto
  have "l \<in> lines_of c'" if l: "l \<in> set lines" for l
  proof -
    have i: "slot c l < length (c_sets c)" by (rule slot_bound [OF wf(1)])
    have "int (length (slot_history c (slot c l) lines)) \<le> ways"
      using hold can_hold_eq [OF wf(1), of lines] i wf(3) by auto
    then have "set (lru_contents (nat ways) (slot_history c (slot c l) lines)) =
        set (slot_history c (slot c l) lines)"
      using lru_contents_distinct [of "slot_history c (slot c l) lines"] dist
      by (simp add: slot_history_def le_nat_iff)
    then have "l \<in> set (c_sets c' ! slot c l)" using l c'(2) [OF i] by (simp add: slot_history_def)
    then show ?thesis using lines_of_slot [OF k(1), of l] k(2) by (simp add: slot_def)
  qed
  with c' k show ?thesis by blast
qed

lemma touch_into_eq:
  "map_of (mh_caches h) l = Some c \<Longrightarrow> touch c line = Inr (c', ev) \<Longrightarrow>
     touch_into line l h = Inr (h\<lparr>mh_caches := AList.update l c' (mh_caches h)\<rparr>)"
  by (simp add: touch_into_def touch_level_def level_cache_def fetch_def)

text \<open>\<open>touched ls lines h h'\<close>: the levels \<open>ls\<close> have touched the lines in order, no other has changed.\<close>

definition touched_cache :: "int list \<Rightarrow> cache \<Rightarrow> cache option" where
  "touched_cache lines c = (case touch_all c lines of Inl _ \<Rightarrow> None | Inr c' \<Rightarrow> Some c')"

definition touched :: "string list \<Rightarrow> int list \<Rightarrow> memory_hierarchy \<Rightarrow> memory_hierarchy \<Rightarrow> bool" where
  "touched ls lines h h' \<longleftrightarrow> (\<forall>l. map_of (mh_caches h') l =
     (if l \<in> set ls then Option.bind (map_of (mh_caches h) l) (touched_cache lines)
      else map_of (mh_caches h) l))"

lemma touched_cache_Cons:
  "touched_cache (line # lines) c = Option.bind (touched_cache [line] c) (touched_cache lines)"
  by (cases "touch c line") (auto simp: touched_cache_def)

lemma touched_trans:
  assumes "touched ls [line] h h1" and "touched ls lines h1 h2"
  shows "touched ls (line # lines) h h2"
proof -
  have "touched_cache (line # lines) = (\<lambda>c. Option.bind (touched_cache [line] c) (touched_cache lines))"
    by (rule ext) (rule touched_cache_Cons)
  then show ?thesis using assms by (simp add: touched_def Option.bind_assoc)
qed

definition wf_on :: "string list \<Rightarrow> memory_hierarchy \<Rightarrow> bool" where
  "wf_on ls h \<longleftrightarrow> (\<forall>l\<in>set ls. \<exists>c. map_of (mh_caches h) l = Some c \<and> cache_wf c)"

lemma touch_line_levels:
  assumes "distinct ls" and "wf_on ls h"
  shows "\<exists>h'. rfold (touch_into line) ls h = Inr h' \<and> same_but_caches h h' \<and> wf_on ls h' \<and>
     touched ls [line] h h'"
  using assms
proof (induction ls arbitrary: h)
  case (Cons l ls)
  obtain c where c: "map_of (mh_caches h) l = Some c" "cache_wf c"
    using Cons.prems(2) by (auto simp: wf_on_def)
  obtain c' ev where t: "touch c line = Inr (c', ev)" "cache_wf c'" using touch_eq [OF c(2)] by blast
  define h1 where "h1 = h\<lparr>mh_caches := AList.update l c' (mh_caches h)\<rparr>"
  have same: "same_but_caches h h1" by (simp add: h1_def same_but_caches_def)
  have "wf_on ls h1" using Cons.prems by (auto simp: h1_def wf_on_def)
  with Cons.IH [of h1] Cons.prems(1) obtain h2 where h2: "rfold (touch_into line) ls h1 = Inr h2"
    "same_but_caches h1 h2" "wf_on ls h2" "touched ls [line] h1 h2" by auto
  have here: "touched_cache [line] c = Some c'" by (simp add: touched_cache_def t(1))
  have "touched (l # ls) [line] h h2"
    using h2(4) Cons.prems(1) c(1) here by (simp add: touched_def h1_def)
  moreover have "wf_on (l # ls) h2"
    using h2(3,4) Cons.prems(1) t(2) by (simp add: wf_on_def touched_def h1_def)
  moreover have "rfold (touch_into line) (l # ls) h = Inr h2"
    using touch_into_eq [OF c(1) t(1)] h2(1) by (simp add: h1_def)
  ultimately show ?case using same_but_caches_trans [OF same h2(2)] by blast
qed (simp add: touched_def wf_on_def)

lemma touch_lines_levels:
  assumes "distinct ls" and "wf_on ls h"
  shows "\<exists>h'. rfold (\<lambda>line. rfold (touch_into line) ls) lines h = Inr h' \<and> same_but_caches h h' \<and>
     touched ls lines h h'"
  using assms
proof (induction lines arbitrary: h)
  case Nil
  then have "touched ls [] h h"
    by (auto simp: touched_def touched_cache_def wf_on_def)
  then show ?case by simp
next
  case (Cons line lines)
  obtain h1 where h1: "rfold (touch_into line) ls h = Inr h1" "same_but_caches h h1" "wf_on ls h1"
    "touched ls [line] h h1"
    using touch_line_levels [OF Cons.prems] by blast
  obtain h2 where h2: "rfold (\<lambda>line. rfold (touch_into line) ls) lines h1 = Inr h2"
    "same_but_caches h1 h2" "touched ls lines h1 h2"
    using Cons.IH [OF Cons.prems(1) h1(3)] by blast
  then show ?case
    using h1(1) same_but_caches_trans [OF h1(2) h2(2)] touched_trans [OF h1(4) h2(3)] by simp
qed

definition profile_ok :: "mem_profile \<Rightarrow> bool" where
  "profile_ok p \<longleftrightarrow> 0 < mp_line_bytes p \<and> mp_levels p \<noteq> [] \<and> distinct (levels_and_dram p) \<and>
     (\<forall>(l, e)\<in>set (mp_levels p). 0 < le_size_bytes e \<and> 0 < le_ways e) \<and>
     (\<forall>e\<in>insert (mp_dram p) (snd ` set (mp_levels p)). entry_ok (mp_ticks_per_cycle p) e)"

text \<open>\<open>fits p lines level\<close>: the empty cache of the level can hold the lines.\<close>

definition fits :: "mem_profile \<Rightarrow> int list \<Rightarrow> string \<Rightarrow> bool" where
  "fits p lines level =
     (case map_of (mp_levels p) level of None \<Rightarrow> False
      | Some e \<Rightarrow> rbind (make_cache (le_size_bytes e) (le_ways e) (mp_line_bytes p))
          (\<lambda>c. can_hold c lines) = (Inr True :: mem_error + bool))"

definition fits_below :: "mem_profile \<Rightarrow> int list \<Rightarrow> bool" where
  "fits_below p lines \<longleftrightarrow> (\<forall>j<length (mp_levels p). \<forall>i<j.
     fits p lines (keys (mp_levels p) ! i) \<longrightarrow> fits p lines (keys (mp_levels p) ! j))"

lemma can_hold_sort: "cache_wf c \<Longrightarrow> can_hold c (sort lines) = can_hold c lines"
  by (simp add: can_hold_eq slot_history_def filter_sort)

lemma initial_caches:
  assumes "rmap (\<lambda>(level, e). rbind (make_cache (le_size_bytes e) (le_ways e) lb) (\<lambda>c.
      Inr (level, c))) ls = Inr caches"
  shows "keys caches = keys ls \<and> (\<forall>l e. map_of ls l = Some e \<longrightarrow>
     (\<exists>c. map_of caches l = Some c \<and> make_cache (le_size_bytes e) (le_ways e) lb = Inr c))"
  using assms
proof (induction ls arbitrary: caches)
  case (Cons p ls)
  obtain l e where p: "p = (l, e)" by (cases p)
  obtain c rest where c: "make_cache (le_size_bytes e) (le_ways e) lb = Inr c"
    "caches = (l, c) # rest" "rmap (\<lambda>(level, e). rbind (make_cache (le_size_bytes e) (le_ways e) lb) (\<lambda>c.
      Inr (level, c))) ls = Inr rest"
    using Cons.prems p by (auto simp: rbind_eq_Inr_iff)
  from Cons.IH [OF c(3)] c(1,2) p show ?case by (auto simp: keys_def)
qed (simp add: keys_def)

definition empty_hierarchy :: "mem_profile \<Rightarrow> cache_mode \<Rightarrow> (string, cache) dict \<Rightarrow> memory_hierarchy" where
  "empty_hierarchy p mode caches =
     \<lparr>mh_profile = p, mh_mode = mode, mh_level_order = keys (mp_levels p),
      mh_caches = caches,
      mh_bandwidth_free =
        concat (map (\<lambda>l. [((l, ''load''), 0), ((l, ''store''), 0)]) (levels_and_dram p)),
      mh_outstanding = map (\<lambda>l. (l, [])) (levels_and_dram p),
      mh_pending_fills = [],
      mh_hits = map (\<lambda>l. (l, 0)) (levels_and_dram p)\<rparr>"

lemma empty_hierarchy_wf:
  assumes ok: "profile_ok p"
    and caches: "\<forall>l e. map_of (mp_levels p) l = Some e \<longrightarrow>
     (\<exists>c. map_of caches l = Some c \<and> make_cache (le_size_bytes e) (le_ways e) (mp_line_bytes p) = Inr c)"
  shows "mem_wf (empty_hierarchy p mode caches) \<and>
     (\<forall>l\<in>set (keys (mp_levels p)). resident (empty_hierarchy p mode caches) l = {})"
proof -
  let ?h = "empty_hierarchy p mode caches"
  have entry: "\<exists>e. map_of (mp_levels p) l = Some e \<and> entry_ok (mp_ticks_per_cycle p) e \<and>
      0 < le_size_bytes e \<and> 0 < le_ways e" if "l \<in> set (keys (mp_levels p))" for l
  proof -
    obtain e where e: "map_of (mp_levels p) l = Some e" using \<open>l \<in> set (keys (mp_levels p))\<close> by (auto simp: keys_map_of)
    then have "(l, e) \<in> set (mp_levels p)" by (rule map_of_SomeD)
    then show ?thesis using e ok by (force simp: profile_ok_def)
  qed
  have cache: "\<exists>c. map_of caches l = Some c \<and> cache_wf c \<and> lines_of c = {}"
    if l: "l \<in> set (keys (mp_levels p))" for l
    using entry [OF l] caches make_cache_wf ok unfolding profile_ok_def by metis
  have names: "level_names ?h = set (levels_and_dram p)"
    by (auto simp: level_names_def empty_hierarchy_def levels_and_dram_def)
  have level: "\<exists>e. level_entry_of ?h l = Inr e \<and> entry_ok (mp_ticks_per_cycle p) e"
    if "l \<in> set (levels_and_dram p)" for l
  proof (cases "l = dram")
    case True
    then show ?thesis using ok by (simp add: level_entry_of_def empty_hierarchy_def profile_ok_def)
  next
    case False
    then have "l \<in> set (keys (mp_levels p))" using that by (simp add: levels_and_dram_def)
    from entry [OF this] False show ?thesis
      by (auto simp: level_entry_of_def empty_hierarchy_def fetch_def)
  qed
  have "mem_static ?h"
    unfolding mem_static_def names
    using ok level by (auto simp: empty_hierarchy_def profile_ok_def levels_and_dram_def keys_def)
  moreover have "mem_tables ?h"
    unfolding mem_tables_def names
  proof (intro ballI conjI)
    fix l a assume "l \<in> set (levels_and_dram p)" "a \<in> {''load'', ''store''}"
    then show "map_of (mh_bandwidth_free ?h) (l, a) \<noteq> None"
      unfolding map_of_eq_None_iff by (force simp: empty_hierarchy_def)
  next
    fix l assume l: "l \<in> set (levels_and_dram p)"
    then show "map_of (mh_hits ?h) l \<noteq> None" by (simp add: empty_hierarchy_def map_of_const)
    obtain e where "level_entry_of ?h l = Inr e" "entry_ok (mp_ticks_per_cycle p) e"
      using level [OF l] by blast
    then show "\<exists>ts e. map_of (mh_outstanding ?h) l = Some ts \<and> level_entry_of ?h l = Inr e \<and>
        int (length ts) \<le> le_max_outstanding e"
      using l by (simp add: empty_hierarchy_def map_of_const entry_ok_def)
  qed
  moreover have res: "\<forall>l\<in>set (keys (mp_levels p)). resident ?h l = {}"
    using cache by (fastforce simp: resident_def empty_hierarchy_def)
  moreover have "caches_wf ?h" "inclusive ?h"
    using cache res by (fastforce simp: caches_wf_def inclusive_def empty_hierarchy_def)+
  ultimately show ?thesis by (simp add: mem_wf_def pending_wf_def) (simp add: empty_hierarchy_def keys_def)
qed

text \<open>The level whose cache the working set is placed in.\<close>

definition target_level :: "memory_hierarchy \<Rightarrow> int list \<Rightarrow> mem_error + string" where
  "target_level h lines =
     (if mh_mode h = HotL1
      then (case mh_level_order h of [] \<Rightarrow> Inl MemIndexError
            | level # _ \<Rightarrow>
                rbind (level_cache h level) (\<lambda>c. rbind (can_hold c lines) (\<lambda>ok.
                if ok then Inr level else Inl (WorkingSetNotResident level))))
      else rbind (first_holding h lines (mh_level_order h)) (\<lambda>found.
             case found of None \<Rightarrow> Inl WorkingSetExceedsCapacity
             | Some level \<Rightarrow> Inr level))"

lemma first_holding_Some:
  "first_holding h lines ls = Inr (Some l) \<Longrightarrow>
     l \<in> set ls \<and> (\<exists>c. level_cache h l = Inr c \<and> can_hold c lines = Inr True)"
  by (induction ls) (auto simp: rbind_eq_Inr_iff split: if_splits)

lemma target_level_holds:
  "target_level h lines = Inr l \<Longrightarrow>
     l \<in> set (mh_level_order h) \<and> (\<exists>c. level_cache h l = Inr c \<and> can_hold c lines = Inr True) \<and>
     (mh_mode h = HotL1 \<longrightarrow> l = hd (mh_level_order h))"
  by (auto simp: target_level_def rbind_eq_Inr_iff split: if_splits list.splits option.splits
      dest: first_holding_Some)

lemma initialize_target:
  assumes "mh_mode h \<noteq> Cold" and "mem_wf h"
  shows "initialize source h = rbind (target_level h (trace_lines source)) (\<lambda>level.
     rbind (level_index h level) (\<lambda>target.
     rfold (\<lambda>line. rfold (touch_into line) (drop target (mh_level_order h))) (sort (trace_lines source)) h))"
proof -
  have "(\<lambda>line h1. rbind (rfold (touch_into line) (drop k (mh_level_order h)) h1) (\<lambda>h2.
      if mh_mode h = HotL1 then rfold (touch_into line) (take k (mh_level_order h)) h2 else Inr h2)) =
    (\<lambda>line. rfold (touch_into line) (drop k (mh_level_order h)))"
    if "mh_mode h = HotL1 \<longrightarrow> k = 0" for k
    using that by (cases "mh_mode h = HotL1") (simp_all add: fun_eq_iff)
  moreover have "mh_mode h = HotL1 \<longrightarrow> k = 0"
    if "target_level h (trace_lines source) = Inr l" "level_index h l = Inr k" for l k
    using target_level_holds [OF that(1)] that(2) assms(2)
    by (cases "mh_level_order h") (auto simp: level_index_def)
  ultimately show ?thesis
    using assms(1) unfolding initialize_def Let_def target_level_def [symmetric]
    by (auto intro!: rbind_cong)
qed

lemma make_hierarchy_resident:
  assumes mk: "make_hierarchy p source mode = Inr h" and ok: "profile_ok p"
    and fit: "fits_below p (trace_lines source)"
  shows "mem_wf h \<and> mh_level_order h = keys (mp_levels p) \<and> mh_pending_fills h = [] \<and>
     (\<exists>k. (mode = HotL1 \<longrightarrow> k = 0) \<and> (\<forall>i<length (mp_levels p).
        resident h (keys (mp_levels p) ! i) =
          (if k \<le> i \<and> mode \<noteq> Cold then set (trace_lines source) else {})))"
proof -
  obtain caches where caches: "rmap (\<lambda>(level, e).
       rbind (make_cache (le_size_bytes e) (le_ways e) (mp_line_bytes p)) (\<lambda>c.
         Inr (level, c))) (mp_levels p) = Inr caches"
    "initialize source (empty_hierarchy p mode caches) = Inr h"
    using mk unfolding make_hierarchy_def empty_hierarchy_def [symmetric]
    by (auto simp: rbind_eq_Inr_iff split: cache_mode.splits)
  let ?h = "empty_hierarchy p mode caches" and ?ls = "keys (mp_levels p)"
  let ?lines = "trace_lines source"
  have made: "\<forall>l e. map_of (mp_levels p) l = Some e \<longrightarrow>
     (\<exists>c. map_of caches l = Some c \<and> make_cache (le_size_bytes e) (le_ways e) (mp_line_bytes p) = Inr c)"
    using initial_caches [OF caches(1)] by blast
  have wf: "mem_wf ?h" and empty: "\<forall>l\<in>set ?ls. resident ?h l = {}"
    using empty_hierarchy_wf [OF ok made, of mode] by auto
  have f: "mh_level_order ?h = ?ls" "mh_mode ?h = mode" "mh_caches ?h = caches" "mh_pending_fills ?h = []"
    by (simp_all add: empty_hierarchy_def)
  have len: "length ?ls = length (mp_levels p)" by (simp add: keys_def)
  have dist: "distinct ?ls" using ok by (simp add: profile_ok_def levels_and_dram_def)
  show ?thesis
  proof (cases "mode = Cold")
    case True
    have "h = ?h" using caches(2) by (simp add: initialize_def f(2) True [symmetric])
    then show ?thesis using wf empty f len True by (auto simp: nth_mem)
  next
    case False
    obtain level k where lk: "target_level ?h ?lines = Inr level" "level_index ?h level = Inr k"
      "rfold (\<lambda>line. rfold (touch_into line) (drop k ?ls)) (sort ?lines) ?h = Inr h"
      using caches(2) initialize_target [OF _ wf, of source] False f by (auto simp: rbind_eq_Inr_iff)
    have k: "k < length ?ls" "?ls ! k = level"
      using lk(2) index_of_SomeD [of ?ls level k] by (auto simp: level_index_def f split: option.splits)
    have k0: "mode = HotL1 \<longrightarrow> k = 0"
    proof
      assume "mode = HotL1"
      then have "?ls ! k = ?ls ! 0"
        using target_level_holds [OF lk(1)] k f by (cases ?ls) auto
      moreover have "0 < length ?ls" using k(1) by linarith
      ultimately show "k = 0" using k(1) nth_eq_iff_index_eq [OF dist] by blast
    qed
    have hold: "\<exists>c c'. map_of caches (?ls ! i) = Some c \<and> touch_all c (sort ?lines) = Inr c' \<and>
        cache_wf c' \<and> lines_of c' = set ?lines" if i: "i < length ?ls" "k \<le> i" for i
    proof -
      have entry: "\<exists>e c. map_of (mp_levels p) (?ls ! j) = Some e \<and> map_of caches (?ls ! j) = Some c \<and>
          make_cache (le_size_bytes e) (le_ways e) (mp_line_bytes p) = Inr c \<and>
          0 < le_size_bytes e \<and> 0 < le_ways e" if "j < length ?ls" for j
      proof -
        obtain e where e: "map_of (mp_levels p) (?ls ! j) = Some e"
          using \<open>j < length ?ls\<close> nth_mem keys_map_of by (metis not_None_eq)
        then show ?thesis using made ok map_of_SomeD [OF e] by (force simp: profile_ok_def)
      qed
      obtain e c where e: "map_of (mp_levels p) (?ls ! i) = Some e" "map_of caches (?ls ! i) = Some c"
        "make_cache (le_size_bytes e) (le_ways e) (mp_line_bytes p) = Inr c" "0 < le_size_bytes e" "0 < le_ways e"
        using entry [OF i(1)] by blast
      have "fits p ?lines (?ls ! k)"
        using target_level_holds [OF lk(1)] entry [OF k(1)] k(2)
        by (auto simp: fits_def level_cache_def f fetch_def)
      then have "fits p ?lines (?ls ! i)"
        using fit i len unfolding fits_below_def by (metis le_neq_implies_less)
      then have h: "can_hold c ?lines = Inr True" using e by (simp add: fits_def)
      have lb: "0 < mp_line_bytes p" using ok by (simp add: profile_ok_def)
      have "can_hold c (sort ?lines) = Inr True"
        using h can_hold_sort make_cache_wf [OF e(3,5) lb e(4)] by simp
      from touch_all_can_hold [OF e(3,5) lb e(4) _ this] e(2) show ?thesis
        by (simp add: trace_lines_def)
    qed
    have on: "wf_on (drop k ?ls) ?h"
      using wf set_drop_subset [of k ?ls] f by (auto simp: wf_on_def mem_wf_def caches_wf_def)
    obtain h' where h': "rfold (\<lambda>line. rfold (touch_into line) (drop k ?ls)) (sort ?lines) ?h = Inr h'"
      "same_but_caches ?h h'" "touched (drop k ?ls) (sort ?lines) ?h h'"
      using touch_lines_levels [OF _ on] dist by auto
    then have h: "same_but_caches ?h h" "touched (drop k ?ls) (sort ?lines) ?h h" using lk(3) by auto
    have pos: "?ls ! i \<in> set (drop k ?ls) \<longleftrightarrow> k \<le> i" if "i < length ?ls" for i
      using that dist by (auto simp: in_set_conv_nth nth_eq_iff_index_eq intro: exI [of _ "i - k"])
    have cache: "\<exists>c. map_of (mh_caches h) (?ls ! i) = Some c \<and> cache_wf c \<and>
        lines_of c = (if k \<le> i then set ?lines else {})" if i: "i < length ?ls" for i
    proof (cases "k \<le> i")
      case True
      then show ?thesis using hold [OF i True] h(2) pos [OF i]
        by (auto simp: touched_def touched_cache_def f)
    next
      case False
      obtain c where c: "map_of caches (?ls ! i) = Some c" "cache_wf c"
        using wf nth_mem [OF i] f unfolding mem_wf_def caches_wf_def by metis
      have "resident ?h (?ls ! i) = {}" using empty nth_mem [OF i] by blast
      then have "lines_of c = {}" using c(1) f(3) by (simp add: resident_def)
      moreover have "map_of (mh_caches h) (?ls ! i) = Some c"
        using h(2) pos [OF i] False c(1) f(3) by (simp add: touched_def)
      ultimately show ?thesis using False c(2) by simp
    qed
    then have res: "resident h (?ls ! i) = (if k \<le> i then set ?lines else {})" if "i < length ?ls" for i
      using that by (fastforce simp: resident_def)
    have ord: "mh_level_order h = ?ls" "mh_pending_fills h = []"
      using same_but_caches_fields [OF h(1)] f by auto
    have "caches_wf h" using cache by (fastforce simp: caches_wf_def ord in_set_conv_nth)
    moreover have "inclusive h" by (auto simp: inclusive_def ord res)
    ultimately have "mem_wf h" using mem_wf_same_but_caches [OF wf h(1)] by blast
    then show ?thesis using ord res k0 len False by auto
  qed
qed

section \<open>The contract of the hierarchy\<close>

text \<open>A hierarchy of two one-set levels, built from a profile, for the witnesses.\<close>

definition demo_profile :: mem_profile where
  "demo_profile =
     \<lparr>mp_line_bytes = 64,
      mp_levels = [(''l1'', \<lparr>le_size_bytes = 128, le_ways = 2, le_latency_cycles = (4, 0),
          le_read_bytes_per_cycle = 64, le_write_bytes_per_cycle = 32, le_max_outstanding = 1\<rparr>),
        (''l2'', \<lparr>le_size_bytes = 256, le_ways = 4, le_latency_cycles = (145, 1),
          le_read_bytes_per_cycle = 32, le_write_bytes_per_cycle = 32, le_max_outstanding = 2\<rparr>)],
      mp_dram = \<lparr>le_size_bytes = 0, le_ways = 0, le_latency_cycles = (100, 0),
          le_read_bytes_per_cycle = 16, le_write_bytes_per_cycle = 16, le_max_outstanding = 2\<rparr>,
      mp_ticks_per_cycle = 2\<rparr>"

definition demo_ref :: "int list \<Rightarrow> mem_ref" where
  "demo_ref lines = \<lparr>mr_address = 0, mr_region = ''x'', mr_offset = 0, mr_bytes = 64,
     mr_cache_lines = lines, mr_access = ''load'', mr_address_registers = [], mr_flow_index = None,
     mr_flow_count = None\<rparr>"

definition demo_hierarchy :: memory_hierarchy where
  "demo_hierarchy = empty_hierarchy demo_profile Cold
     [(''l1'', \<lparr>c_ways = 2, c_set_count = 1, c_sets = [[]]\<rparr>),
      (''l2'', \<lparr>c_ways = 4, c_set_count = 1, c_sets = [[]]\<rparr>)]"

lemma demo_profile_ok: "profile_ok demo_profile"
  by (simp add: profile_ok_def demo_profile_def levels_and_dram_def keys_def dram_def entry_ok_def
      ticks_def)

lemma demo_made: "make_hierarchy demo_profile [] Cold = Inr demo_hierarchy"
  by (simp add: make_hierarchy_def demo_profile_def demo_hierarchy_def empty_hierarchy_def
      make_cache_def initialize_def Let_def trace_lines_def)

lemma demo_wf: "mem_wf demo_hierarchy"
  using make_hierarchy_resident [OF demo_made demo_profile_ok]
  by (simp add: fits_below_def demo_profile_def keys_def trace_lines_def fits_def ordered_unique_def
      make_cache_def can_hold_def)

text \<open>
  C11. A fill leaves the line in every level and keeps inclusion: after \<open>_fill_inclusive\<close> from any
  level or from DRAM the line is resident everywhere, each level still holds all lines of the
  levels above it, and only the caches have changed.
\<close>

theorem fill_inclusive_inclusion:
  assumes "mem_wf h" and "source = dram \<or> source \<in> set (mh_level_order h)"
  shows "\<exists>h'. fill_inclusive h line source = Inr h' \<and> inclusive h' \<and> mem_wf h' \<and>
     same_but_caches h h' \<and> (\<forall>l\<in>set (mh_level_order h). line \<in> resident h' l)"
  using fill_keeps_wf [OF assms(1), of source line] assms(2)
  by (auto simp: level_names_def mem_wf_def)

theorem fill_inclusive_inclusion_witness:
  "\<exists>h'. fill_inclusive demo_hierarchy 7 ''l2'' = Inr h' \<and> inclusive h' \<and> mem_wf h' \<and>
     same_but_caches demo_hierarchy h' \<and>
     (\<forall>l\<in>set (mh_level_order demo_hierarchy). 7 \<in> resident h' l)"
  by (rule fill_inclusive_inclusion [OF demo_wf])
    (simp add: demo_hierarchy_def empty_hierarchy_def demo_profile_def keys_def)

text \<open>The due fills in the order in which they retire, and the fill of one of them.\<close>

definition due_fills :: "memory_hierarchy \<Rightarrow> int \<Rightarrow> (int \<times> string) list" where
  "due_fills h now = sort (map (\<lambda>(line, completion, source). (line, source))
     (filter (\<lambda>(line, completion, source). completion \<le> now) (mh_pending_fills h)))"

definition fill_due :: "int \<times> string \<Rightarrow> memory_hierarchy \<Rightarrow> mem_error + memory_hierarchy" where
  "fill_due p h = fill_inclusive h (fst p) (snd p)"

text \<open>A fill does not read the pending fills.\<close>

definition blind :: "(memory_hierarchy \<Rightarrow> mem_error + memory_hierarchy) \<Rightarrow> bool" where
  "blind f \<longleftrightarrow> (\<forall>h d. f (h\<lparr>mh_pending_fills := d\<rparr>) = map_sum id (\<lambda>g. g\<lparr>mh_pending_fills := d\<rparr>) (f h))"

lemma blindD: "blind f \<Longrightarrow> f (h\<lparr>mh_pending_fills := d\<rparr>) = map_sum id (\<lambda>g. g\<lparr>mh_pending_fills := d\<rparr>) (f h)"
  by (simp add: blind_def)

lemma blind_rfold: "(\<And>x. x \<in> set xs \<Longrightarrow> blind (f x)) \<Longrightarrow> blind (rfold f xs)"
proof (induction xs)
  case (Cons x xs)
  then have "blind (f x)" "blind (rfold f xs)" by simp_all
  then show ?case unfolding blind_def by (intro allI) (case_tac "f x h"; simp)
qed (simp add: blind_def)

lemma touch_level_blind:
  "touch_level (h\<lparr>mh_pending_fills := d\<rparr>) l line = map_sum id (apfst (\<lambda>g. g\<lparr>mh_pending_fills := d\<rparr>)) (touch_level h l line)"
  by (auto simp: touch_level_def level_cache_def fetch_def rbind_def split: option.splits sum.splits)

lemma remove_level_blind: "blind (remove_level line l)"
  by (auto simp: blind_def remove_level_def level_cache_def fetch_def rbind_def split: option.splits sum.splits)

lemma touch_level_order: "touch_level h l line = Inr (h', ev) \<Longrightarrow> mh_level_order h' = mh_level_order h"
  by (auto simp: touch_level_def level_cache_def rbind_eq_Inr_iff)

lemma evict_blind:
  assumes "\<And>e. blind (g e)"
  shows "blind (\<lambda>h. rbind (touch_level h l line) (\<lambda>(h', evicted). case evicted of None \<Rightarrow> Inr h' | Some e \<Rightarrow> g e h'))"
  unfolding blind_def
proof (intro allI)
  fix h d
  show "rbind (touch_level (h\<lparr>mh_pending_fills := d\<rparr>) l line) (\<lambda>(h', evicted). case evicted of None \<Rightarrow> Inr h' | Some e \<Rightarrow> g e h') =
      map_sum id (\<lambda>g. g\<lparr>mh_pending_fills := d\<rparr>)
        (rbind (touch_level h l line) (\<lambda>(h', evicted). case evicted of None \<Rightarrow> Inr h' | Some e \<Rightarrow> g e h'))"
    unfolding touch_level_blind
    by (cases "touch_level h l line") (auto simp: blindD [OF assms] split: option.split)
qed

lemma remove_above_blind: "blind (\<lambda>h. rfold (remove_level e) (take i (mh_level_order h)) h)"
proof -
  have "blind (rfold (remove_level e) xs)" for xs by (rule blind_rfold) (rule remove_level_blind)
  then show ?thesis by (simp add: blind_def)
qed

lemma fill_inclusive_blind: "blind (\<lambda>h. fill_inclusive h line source)"
proof -
  have upper: "blind (fill_level line x)" for x
    using evict_blind [where l = "snd x" and line = line, OF remove_above_blind [where i = "fst x"]] by (simp add: fill_level_def [abs_def] case_prod_unfold)
  have "blind (\<lambda>h. rbind (level_index h l) (\<lambda>i. rfold (remove_level e) (take i (mh_level_order h)) h))" for l e
    using blindD [OF remove_above_blind] by (auto simp: blind_def level_index_def split: option.split)
  from evict_blind [OF this] have lower: "blind (fill_lower line l)" for l by (simp add: fill_lower_def [abs_def])
  have lv: "source_index (h\<lparr>mh_pending_fills := d\<rparr>) source = source_index h source" for h d
    by (simp add: source_index_def level_index_def)
  show ?thesis
    unfolding blind_def
  proof (intro allI)
    fix h d
    show "fill_inclusive (h\<lparr>mh_pending_fills := d\<rparr>) line source = map_sum id (\<lambda>g. g\<lparr>mh_pending_fills := d\<rparr>) (fill_inclusive h line source)"
    proof (cases "source_index h source")
      case (Inr i)
      have u: "blind (rfold (fill_level line) xs)" for xs by (rule blind_rfold) (rule upper)
      have l: "blind (rfold (fill_lower line) xs)" for xs by (rule blind_rfold) (rule lower)
      show ?thesis unfolding fill_inclusive_def lv Inr
        by (cases "rfold (fill_level line) (List.enumerate 0 (take (Suc i) (mh_level_order h))) h")
          (simp_all add: blindD [OF u] blindD [OF l])
    qed (simp add: fill_inclusive_def lv)
  qed
qed

text \<open>Retiring the due fills fills their lines in order; each line is in every level right after its fill.\<close>

lemma retired_lines:
  assumes "mem_wf h" and "rfold complete_one cs h = Inr h'" and "\<forall>c\<in>set cs. snd c \<in> level_names h"
  shows "\<exists>g. rfold fill_due cs h = Inr g \<and> mem_wf g \<and> mh_level_order g = mh_level_order h \<and>
       h' = g\<lparr>mh_pending_fills := mh_pending_fills h'\<rparr> \<and>
       (cs \<noteq> [] \<longrightarrow> (\<forall>l\<in>set (mh_level_order h). fst (last cs) \<in> resident g l))"
  using assms
proof (induction cs arbitrary: h' rule: rev_induct)
  case (snoc c cs)
  obtain h1 where h1: "rfold complete_one cs h = Inr h1" "complete_one c h1 = Inr h'"
    using snoc.prems(2) by (auto simp: rfold_append rbind_eq_Inr_iff)
  from snoc.IH [OF snoc.prems(1) h1(1)] snoc.prems(3) obtain g1 where g1: "rfold fill_due cs h = Inr g1" "mem_wf g1"
      "mh_level_order g1 = mh_level_order h" "h1 = g1\<lparr>mh_pending_fills := mh_pending_fills h1\<rparr>" by auto
  have "snd c \<in> level_names g1" using snoc.prems(3) g1(3) by (simp add: level_names_def)
  from fill_keeps_wf [OF g1(2) this, of "fst c"] obtain g where g: "fill_due c g1 = Inr g" "mem_wf g" "same_but_caches g1 g"
      "\<forall>l\<in>set (mh_level_order g1). fst c \<in> resident g l" by (auto simp: fill_due_def)
  have "fill_inclusive h1 (fst c) (snd c) = Inr (g\<lparr>mh_pending_fills := mh_pending_fills h1\<rparr>)"
    using blindD [OF fill_inclusive_blind, where h = g1 and d = "mh_pending_fills h1" and line1 = "fst c" and source1 = "snd c"] g(1) g1(4) by (simp add: fill_due_def)
  then have "h' = g\<lparr>mh_pending_fills := mh_pending_fills h'\<rparr>"
    using h1(2) by (auto simp: complete_one_def rbind_eq_Inr_iff split: prod.splits)
  with g g1 same_but_caches_order [OF g(3)] show ?case by (intro exI [of _ g]) (auto simp: rfold_append)
qed simp

lemma due_fills_known: "mem_wf h \<Longrightarrow> c \<in> set (due_fills h now) \<Longrightarrow> snd c \<in> level_names h"
  by (force simp: due_fills_def mem_wf_def pending_wf_def)

text \<open>
  C12. \<open>_complete_fills\<close> never raises on a well-formed hierarchy. The pending fills that remain are
  exactly those that complete after \<open>now\<close>, each with its entry unchanged; the caches are those that
  result from filling the lines of the due ones, in line order, each from its own source; each of
  these lines is in every level right after its fill, and the last one is still there at the end.
\<close>

theorem complete_fills_exact:
  assumes "mem_wf h"
  shows "\<exists>h'. complete_fills h now = Inr h' \<and> mem_wf h' \<and>
     mh_pending_fills h' = filter (\<lambda>(line, completion, source). now < completion) (mh_pending_fills h) \<and>
     (\<exists>g. rfold fill_due (due_fills h now) h = Inr g \<and> mh_caches h' = mh_caches g) \<and>
     (due_fills h now \<noteq> [] \<longrightarrow> (\<forall>l\<in>set (mh_level_order h). fst (last (due_fills h now)) \<in> resident h' l)) \<and>
     (\<forall>k<length (due_fills h now). \<exists>g. rfold fill_due (take (Suc k) (due_fills h now)) h = Inr g \<and>
        (\<forall>l\<in>set (mh_level_order h). fst (due_fills h now ! k) \<in> resident g l))"
proof -
  let ?due = "due_fills h now"
  obtain h' where h': "complete_fills h now = Inr h'" "mem_wf h'"
      "mh_pending_fills h' = filter (\<lambda>(line, completion, source). now < completion) (mh_pending_fills h)"
    using complete_fills_eq [OF assms] by blast
  then have r: "rfold complete_one ?due h = Inr h'" by (simp add: complete_fills_def due_fills_def)
  have "\<exists>g. rfold fill_due (take (Suc k) ?due) h = Inr g \<and> (\<forall>l\<in>set (mh_level_order h). fst (?due ! k) \<in> resident g l)"
    if k: "k < length ?due" for k
  proof -
    obtain h1 where h1: "rfold complete_one (take (Suc k) ?due) h = Inr h1"
      using r append_take_drop_id [of "Suc k" ?due] by (metis rfold_append rbind_eq_Inr_iff)
    have "last (take (Suc k) ?due) = ?due ! k" using k by (simp add: take_Suc_conv_app_nth)
    moreover have "\<forall>c\<in>set (take (Suc k) ?due). snd c \<in> level_names h"
      using due_fills_known [OF assms] by (auto dest: in_set_takeD)
    moreover have "take (Suc k) ?due \<noteq> []" using k by auto
    ultimately show ?thesis using retired_lines [OF assms h1] by auto
  qed
  moreover obtain g where g: "rfold fill_due ?due h = Inr g" "h' = g\<lparr>mh_pending_fills := mh_pending_fills h'\<rparr>"
    and last: "?due \<noteq> [] \<longrightarrow> (\<forall>l\<in>set (mh_level_order h). fst (last ?due) \<in> resident g l)"
    using retired_lines [OF assms r] due_fills_known [OF assms] by blast
  have same: "mh_caches h' = mh_caches g" by (subst g(2)) simp
  then have "resident h' l = resident g l" for l by (simp add: resident_def)
  with last have "?due \<noteq> [] \<longrightarrow> (\<forall>l\<in>set (mh_level_order h). fst (last ?due) \<in> resident h' l)" by simp
  ultimately show ?thesis using h' g(1) same by (intro exI [of _ h']) simp
qed

definition demo_filling :: memory_hierarchy where
  "demo_filling = demo_hierarchy\<lparr>mh_pending_fills := [(7, (203, ''dram''))]\<rparr>"

lemma demo_filling_wf: "mem_wf demo_filling"
  using demo_wf
  by (auto simp: demo_filling_def mem_wf_def mem_static_def mem_tables_def pending_wf_def keys_def
      level_names_def dram_def)

theorem complete_fills_exact_witness:
  "\<exists>h'. complete_fills demo_filling 203 = Inr h' \<and> mem_wf h' \<and> mh_pending_fills h' = [] \<and>
     (\<forall>l\<in>set (mh_level_order demo_filling). 7 \<in> resident h' l)"
proof -
  have "due_fills demo_filling 203 = [(7, ''dram'')]" "filter (\<lambda>(line, completion, source). 203 < completion) (mh_pending_fills demo_filling) = []"
    by (simp_all add: due_fills_def demo_filling_def)
  with complete_fills_exact [OF demo_filling_wf, of 203] show ?thesis by auto
qed

text \<open>
  C13. \<open>peek_level\<close> names the level that must serve the whole access: unless one of its lines is
  being filled, it is the first level that holds every line of the access, and DRAM exactly when
  some line is in no level.
\<close>

theorem peek_level_serves:
  assumes wf: "mem_wf h" and peek: "peek_level h (Some m) now = Inr (h', level)"
    and lines: "mr_cache_lines m \<noteq> []" and no: "\<not> has_pending h' m"
  shows "(level = dram \<and> (\<exists>line\<in>set (mr_cache_lines m). \<forall>l\<in>set (mh_level_order h'). line \<notin> resident h' l)) \<or>
     (\<exists>i<length (mh_level_order h'). level = mh_level_order h' ! i \<and>
        set (mr_cache_lines m) \<subseteq> resident h' level \<and>
        (\<forall>j<i. \<not> set (mr_cache_lines m) \<subseteq> resident h' (mh_level_order h' ! j)))"
proof -
  let ?ls = "mh_level_order h'" and ?p = "access_pos h' m"
  obtain h1 where h1: "mem_wf h1" "peek_level h (Some m) now = Inr (h1, level_at h1 (access_pos h1 m))"
    using peek_level_eq [OF wf] by metis
  then have wf': "mem_wf h'" and level: "level = level_at h' ?p" using peek by auto
  have pos: "line_pos h' line = length (takeWhile (\<lambda>l. line \<notin> resident h' l) ?ls)"
    if "line \<in> set (mr_cache_lines m)" for line
    using that no by (auto simp: line_pos_def has_pending_iff split: option.split)
  have before: "line \<notin> resident h' (?ls ! j)" if "line \<in> set (mr_cache_lines m)" "j < line_pos h' line"
    for line j
    using that pos takeWhile_nth [of j "\<lambda>l. line \<notin> resident h' l" ?ls] nth_length_takeWhile
    by (metis (no_types, lifting) set_takeWhileD nth_mem)
  have at: "line \<in> resident h' (?ls ! line_pos h' line)"
    if "line \<in> set (mr_cache_lines m)" "line_pos h' line < length ?ls" for line
    using that pos nth_length_takeWhile [of "\<lambda>l. line \<notin> resident h' l" ?ls] by simp
  have le: "int (line_pos h' line) \<le> ?p" if "line \<in> set (mr_cache_lines m)" for line
    unfolding access_pos_def using that by (intro max_of_ge) auto
  obtain worst where worst: "worst \<in> set (mr_cache_lines m)" "?p = int (line_pos h' worst)"
  proof -
    have "?p \<noteq> -1" using le [of "hd (mr_cache_lines m)"] lines by auto
    then show ?thesis
      using that max_of_mem [of "-1" "map (\<lambda>line. int (line_pos h' line)) (mr_cache_lines m)"]
      by (auto simp: access_pos_def)
  qed
  show ?thesis
  proof (cases "line_pos h' worst = length ?ls")
    case True
    then have "level = dram" by (simp add: level level_at_def worst(2))
    moreover have "worst \<notin> resident h' l" if "l \<in> set ?ls" for l
      using that before [OF worst(1)] True by (auto simp: in_set_conv_nth)
    ultimately show ?thesis using worst(1) by blast
  next
    case False
    then have i: "line_pos h' worst < length ?ls" using line_level_eq [OF wf', of worst] by simp
    then have lv: "level = ?ls ! line_pos h' worst" using False by (simp add: level level_at_def worst(2))
    have "line \<in> resident h' level" if line: "line \<in> set (mr_cache_lines m)" for line
    proof -
      have "line_pos h' line \<le> line_pos h' worst" using le [OF line] worst(2) by simp
      moreover have "resident h' (?ls ! a) \<subseteq> resident h' (?ls ! line_pos h' worst)"
        if "a < line_pos h' worst" for a
        using that i wf' unfolding mem_wf_def inclusive_def by blast
      ultimately show ?thesis using at [OF line] i lv by (metis le_neq_implies_less order.strict_trans1 subsetD)
    qed
    then show ?thesis using i lv before [OF worst(1)] worst(1) by blast
  qed
qed

theorem peek_level_serves_witness:
  "(''dram'' = dram \<and> (\<exists>line\<in>set (mr_cache_lines (demo_ref [7])).
       \<forall>l\<in>set (mh_level_order demo_hierarchy). line \<notin> resident demo_hierarchy l)) \<or>
     (\<exists>i<length (mh_level_order demo_hierarchy). ''dram'' = mh_level_order demo_hierarchy ! i \<and>
        set (mr_cache_lines (demo_ref [7])) \<subseteq> resident demo_hierarchy ''dram'' \<and>
        (\<forall>j<i. \<not> set (mr_cache_lines (demo_ref [7])) \<subseteq> resident demo_hierarchy (mh_level_order demo_hierarchy ! j)))"
proof (rule peek_level_serves [OF demo_wf])
  show "peek_level demo_hierarchy (Some (demo_ref [7])) 3 = Inr (demo_hierarchy, ''dram'')"
    by (simp add: demo_hierarchy_def empty_hierarchy_def demo_ref_def peek_level_def
        complete_fills_def line_level_def level_cache_def contains_def cache_slot_def fetch_def dram_def
        py_index_def keys_def demo_profile_def Let_def)
qed (simp_all add: demo_ref_def has_pending_def demo_hierarchy_def empty_hierarchy_def keys_def)

text \<open>
  C10. \<open>blocker\<close> never raises on a well-formed hierarchy, keeps it well formed, and answers either
  \<open>(None, now)\<close> or one of the two documented reasons together with a strictly later tick at which
  it is worth asking again, so a stalled engine always has a next event.
\<close>

theorem blocker_progress:
  assumes "mem_wf h" and "access_kind m"
  shows "\<exists>h' r t. blocker h (Some m) now = Inr (h', r, t) \<and> mem_wf h' \<and>
     (case r of None \<Rightarrow> t = now
      | Some reason \<Rightarrow> now < t \<and> reason \<in> {''memory_bandwidth'', ''memory_outstanding''})"
  using blocker_eq [OF assms, of now] by (fastforce split: option.splits)

theorem blocker_progress_witness:
  "\<exists>h' r t. blocker demo_hierarchy (Some (demo_ref [7])) 3 = Inr (h', r, t) \<and> mem_wf h' \<and>
     (case r of None \<Rightarrow> t = 3
      | Some reason \<Rightarrow> 3 < t \<and> reason \<in> {''memory_bandwidth'', ''memory_outstanding''})"
  by (rule blocker_progress [OF demo_wf]) (simp add: access_kind_def demo_ref_def)

text \<open>
  C9. The engine's protocol is sound: once \<open>blocker\<close> has answered \<open>None\<close> at \<open>now\<close>, the
  \<open>access\<close> that follows at the same tick never raises, is served by the level \<open>peek_level\<close>
  names, completes a non-negative latency after \<open>now\<close>, and leaves a well-formed hierarchy, in
  which no level has more outstanding misses than its limit.
\<close>

theorem access_after_blocker:
  assumes wf: "mem_wf h" and kind: "access_kind m"
    and free: "blocker h (Some m) now = Inr (h1, None, t)"
  shows "\<exists>h2 a. access h1 (Some m) now = Inr (h2, a) \<and> mem_wf h2 \<and>
     peek_level h1 (Some m) now = Inr (h1, ma_level a) \<and> 0 \<le> ma_latency_ticks a \<and>
     ma_completion_tick a = now + ma_latency_ticks a \<and>
     (\<forall>l\<in>level_names h2. \<exists>ts e. map_of (mh_outstanding h2) l = Some ts \<and>
        level_entry_of h2 l = Inr e \<and> int (length ts) \<le> le_max_outstanding e)"
proof -
  have g: "grantable now h1 m" using blocker_eq [OF wf kind, of now] free by auto
  then show ?thesis
    using access_granted [OF g kind] blocker_grantable(2) [OF g]
    by (fastforce simp: mem_wf_def mem_tables_def)
qed

lemma demo_blocker_none: "blocker demo_hierarchy (Some (demo_ref [7])) 3 = Inr (demo_hierarchy, None, 3)"
  by (simp add: demo_hierarchy_def empty_hierarchy_def demo_ref_def blocker_def peek_level_def
      complete_fills_def line_level_def level_cache_def contains_def cache_slot_def fetch_def dram_def
      py_index_def has_pending_def keys_def miss_path_def levels_and_dram_def demo_profile_def
      outstanding_limit_def level_entry_of_def Let_def)

theorem access_after_blocker_witness:
  "\<exists>h2 a. access demo_hierarchy (Some (demo_ref [7])) 3 = Inr (h2, a) \<and> mem_wf h2 \<and>
     peek_level demo_hierarchy (Some (demo_ref [7])) 3 = Inr (demo_hierarchy, ma_level a) \<and>
     0 \<le> ma_latency_ticks a \<and> ma_completion_tick a = 3 + ma_latency_ticks a \<and>
     (\<forall>l\<in>level_names h2. \<exists>ts e. map_of (mh_outstanding h2) l = Some ts \<and>
        level_entry_of h2 l = Inr e \<and> int (length ts) \<le> le_max_outstanding e)"
  by (rule access_after_blocker [OF demo_wf _ demo_blocker_none])
    (simp add: access_kind_def demo_ref_def)

text \<open>
  C14. Requests merge: an access to a line that is already being filled issues no new request (the
  pending fills are unchanged) and completes exactly when the latest of the fills of its lines does:
  its completion is the completion of one of them, no fill of one of its lines completes later, and
  it is after \<open>now\<close>.
\<close>

theorem access_merges_pending:
  assumes wf: "mem_wf h" and kind: "access_kind m"
    and free: "blocker h (Some m) now = Inr (h1, None, t)" and pend: "has_pending h1 m"
  shows "\<exists>h2 a. access h1 (Some m) now = Inr (h2, a) \<and> mh_pending_fills h2 = mh_pending_fills h1 \<and>
     now < ma_completion_tick a \<and> (\<exists>line\<in>set (mr_cache_lines m). \<exists>source.
       map_of (mh_pending_fills h1) line = Some (ma_completion_tick a, source)) \<and>
     (\<forall>line\<in>set (mr_cache_lines m). \<forall>c source.
       map_of (mh_pending_fills h1) line = Some (c, source) \<longrightarrow> c \<le> ma_completion_tick a)"
proof -
  have g: "grantable now h1 m" using blocker_eq [OF wf kind, of now] free by auto
  then show ?thesis using access_joins [OF g pend] by blast
qed

lemma demo_filling_blocker:
  "blocker demo_filling (Some (demo_ref [7])) 3 = Inr (demo_filling, None, 3)"
  by (simp add: demo_filling_def demo_hierarchy_def empty_hierarchy_def demo_ref_def blocker_def
      peek_level_def complete_fills_def line_level_def source_index_def has_pending_def keys_def
      dram_def demo_profile_def)

definition demo_filling_two :: memory_hierarchy where
  "demo_filling_two = demo_hierarchy\<lparr>mh_pending_fills := [(7, (203, ''dram'')), (8, (150, ''dram''))]\<rparr>"

lemma demo_filling_two_blocker: "blocker demo_filling_two (Some (demo_ref [7, 8])) 3 = Inr (demo_filling_two, None, 3)"
  by (simp add: demo_filling_two_def demo_hierarchy_def empty_hierarchy_def demo_ref_def blocker_def
      peek_level_def complete_fills_def line_level_def source_index_def has_pending_def keys_def
      dram_def demo_profile_def)

lemma demo_filling_two_wf: "mem_wf demo_filling_two"
  using demo_wf
  by (auto simp: demo_filling_two_def mem_wf_def mem_static_def mem_tables_def pending_wf_def keys_def
      level_names_def dram_def)

theorem access_merges_pending_witness:
  "\<exists>h2 a. access demo_filling_two (Some (demo_ref [7, 8])) 3 = Inr (h2, a) \<and>
     mh_pending_fills h2 = mh_pending_fills demo_filling_two \<and> ma_completion_tick a = 203"
proof -
  have "has_pending demo_filling_two (demo_ref [7, 8])" "access_kind (demo_ref [7, 8])"
    by (auto simp: access_kind_def demo_ref_def demo_filling_two_def has_pending_def keys_def)
  from access_merges_pending [OF demo_filling_two_wf this(2) demo_filling_two_blocker this(1)] show ?thesis
    by (auto simp: demo_ref_def demo_filling_two_def split: if_splits)
qed

text \<open>
  Construction: when every level below the chosen one can hold the trace's lines, the
  constructor builds a well-formed hierarchy; cold caches are empty, and a hot run starts with
  exactly the trace's lines in the chosen level and every level below it, which is every level
  for \<open>hot-l1\<close>.
\<close>

theorem make_hierarchy_contents:
  assumes "make_hierarchy p source mode = Inr h" and "profile_ok p"
    and "fits_below p (trace_lines source)"
  shows "mem_wf h \<and> mh_pending_fills h = [] \<and>
     (\<exists>k. (mode = HotL1 \<longrightarrow> k = 0) \<and> (\<forall>i<length (mp_levels p).
        resident h (keys (mp_levels p) ! i) =
          (if k \<le> i \<and> mode \<noteq> Cold then set (trace_lines source) else {})))"
  using make_hierarchy_resident [OF assms] by blast

definition demo_source :: "instruction list" where
  "demo_source = [blank_instruction\<lparr>i_memory := Some (demo_ref [7, 8])\<rparr>]"

lemma demo_lines: "trace_lines demo_source = [7, 8]"
  by (simp add: trace_lines_def demo_source_def demo_ref_def ordered_unique_def)

lemma demo_fits: "fits_below demo_profile [7, 8]"
  by (simp add: fits_below_def fits_def demo_profile_def keys_def make_cache_def can_hold_def
      less_Suc_eq numeral_2_eq_2 Let_def counter_get_add)

definition demo_hot :: memory_hierarchy where
  "demo_hot = empty_hierarchy demo_profile HotL1
     [(''l1'', \<lparr>c_ways = 2, c_set_count = 1, c_sets = [[7, 8]]\<rparr>),
      (''l2'', \<lparr>c_ways = 4, c_set_count = 1, c_sets = [[7, 8]]\<rparr>)]"

lemma demo_hot_made: "make_hierarchy demo_profile demo_source HotL1 = Inr demo_hot"
  by (simp add: make_hierarchy_def demo_lines demo_profile_def demo_hot_def empty_hierarchy_def
      make_cache_def initialize_def Let_def can_hold_def level_cache_def fetch_def level_index_def
      touch_into_def touch_level_def touch_def cache_slot_def py_index_def keys_def counter_get_add)

theorem make_hierarchy_contents_witness:
  "mem_wf demo_hot \<and> mh_pending_fills demo_hot = [] \<and>
     (\<exists>k. (HotL1 = HotL1 \<longrightarrow> k = 0) \<and> (\<forall>i<length (mp_levels demo_profile).
        resident demo_hot (keys (mp_levels demo_profile) ! i) =
          (if k \<le> i \<and> HotL1 \<noteq> Cold then set (trace_lines demo_source) else {})))"
  by (rule make_hierarchy_contents [OF demo_hot_made demo_profile_ok])
    (simp add: demo_lines demo_fits)

text \<open>
  Without that hypothesis inclusion can fail: the constructor touches the lower levels without
  removing their victims from the levels above.  With a second level of one way, \<open>hot-l1\<close> starts
  with line 7 in the first level only.
\<close>

definition narrow_profile :: mem_profile where
  "narrow_profile = demo_profile\<lparr>mp_levels := map (\<lambda>(l, e). if l = ''l2''
     then (l, e\<lparr>le_size_bytes := 64, le_ways := 1\<rparr>) else (l, e)) (mp_levels demo_profile)\<rparr>"

lemma narrow_not_inclusive:
  "\<exists>h. make_hierarchy narrow_profile demo_source HotL1 = Inr h \<and>
     7 \<in> resident h ''l1'' \<and> 7 \<notin> resident h ''l2''"
  by (simp add: make_hierarchy_def demo_lines demo_profile_def narrow_profile_def
      make_cache_def initialize_def Let_def can_hold_def level_cache_def fetch_def level_index_def
      touch_into_def touch_level_def touch_def cache_slot_def py_index_def keys_def counter_get_add resident_def
      lines_of_def)

text \<open>
  The merge rule has a gap: an access to two lines, one being filled and one in no level, is
  granted as a merge, so the second line is never fetched and the access completes with the first.
\<close>

lemma merge_skips_missing_line:
  "\<exists>h a. access demo_filling (Some (demo_ref [7, 8])) 3 = Inr (h, a) \<and>
     ma_completion_tick a = 203 \<and> map_of (mh_pending_fills h) 8 = None"
proof -
  have b: "blocker demo_filling (Some (demo_ref [7, 8])) 3 = Inr (demo_filling, None, 3)"
    by (simp add: demo_filling_def demo_hierarchy_def empty_hierarchy_def demo_ref_def blocker_def
      peek_level_def complete_fills_def line_level_def source_index_def has_pending_def keys_def
      dram_def demo_profile_def level_cache_def contains_def cache_slot_def fetch_def py_index_def)
  then show ?thesis
    by (simp add: access_def b)
      (simp add: demo_filling_def demo_hierarchy_def empty_hierarchy_def demo_ref_def
      peek_level_def complete_fills_def line_level_def source_index_def keys_def
      dram_def demo_profile_def level_cache_def contains_def cache_slot_def fetch_def py_index_def
      List.map_filter_simps add_hits_def levels_and_dram_def)
qed

end
