(* ===== verification/Zen4Steps.thy ===== *)
theory Zen4Steps
  imports Zen4 MemoryInvariants
begin

text \<open>
  The Zen 4 engine as a state machine: \<open>zstep\<close> has one rule for each way a run changes the
  state (completion, dispatch, stall, issue, retirement, bookkeeping, advance of time), and
  \<open>zinv\<close> is its invariant.  The functions of the engine are sequences of these steps.
\<close>

abbreviation uop_at :: "zen4_state \<Rightarrow> string \<Rightarrow> execution_uop option" where
  "uop_at s \<equiv> map_of (z_uops s)"

abbreviation macro_at :: "zen4_state \<Rightarrow> string \<Rightarrow> macro_op option" where
  "macro_at s \<equiv> map_of (z_macros s)"

section \<open>What a run never changes\<close>

definition strip_uop :: "execution_uop \<Rightarrow> execution_uop" where
  "strip_uop u = u\<lparr>u_latency_ticks := 0, u_dispatch_tick := None, u_ready_tick := None,
     u_issue_tick := None, u_complete_tick := None, u_resource := None, u_resource_lane := None,
     u_memory_level := None, u_stall_reason := None, u_stall_reasons := []\<rparr>"

definition strip_macro :: "macro_op \<Rightarrow> macro_op" where
  "strip_macro m = m\<lparr>m_dispatch_tick := None, m_complete_tick := None, m_retire_tick := None\<rparr>"

lemma strip_uop_eqD:
  assumes "strip_uop u = strip_uop v"
  shows "u_id u = u_id v" "u_sequence u = u_sequence v" "u_parent_id u = u_parent_id v"
    "u_kind u = u_kind v" "u_scheduling_class u = u_scheduling_class v"
    "u_issue_interval_ticks u = u_issue_interval_ticks v"
    "u_occupancy_ticks u = u_occupancy_ticks v" "u_resource_choices u = u_resource_choices v"
    "u_issue_domains u = u_issue_domains v" "u_issue_domain_demands u = u_issue_domain_demands v"
    "u_dependencies u = u_dependencies v" "u_issue_after_uop u = u_issue_after_uop v"
    "u_issue_gap_ticks u = u_issue_gap_ticks v" "u_memory u = u_memory v"
  using assms by (cases u; cases v; simp add: strip_uop_def)+

lemma strip_macro_eqD:
  assumes "strip_macro m = strip_macro n"
  shows "m_id m = m_id n" "m_uop_ids m = m_uop_ids n" "m_decoded_macro_ops m = m_decoded_macro_ops n"
    "m_retire_macro_ops m = m_retire_macro_ops n"
    "m_uses_vector_scheduler m = m_uses_vector_scheduler n"
    "m_uses_load_queue m = m_uses_load_queue n" "m_uses_store_queue m = m_uses_store_queue n"
  using assms by (cases m; cases n; simp add: strip_macro_def)+

lemma strip_uop_simps [simp]:
  "strip_uop (u\<lparr>u_latency_ticks := l\<rparr>) = strip_uop u"
  "strip_uop (u\<lparr>u_dispatch_tick := t\<rparr>) = strip_uop u"
  "strip_uop (u\<lparr>u_ready_tick := t\<rparr>) = strip_uop u"
  "strip_uop (u\<lparr>u_issue_tick := t\<rparr>) = strip_uop u"
  "strip_uop (u\<lparr>u_complete_tick := t\<rparr>) = strip_uop u"
  "strip_uop (u\<lparr>u_resource := r\<rparr>) = strip_uop u"
  "strip_uop (u\<lparr>u_resource_lane := n\<rparr>) = strip_uop u"
  "strip_uop (u\<lparr>u_memory_level := r\<rparr>) = strip_uop u"
  "strip_uop (u\<lparr>u_stall_reason := r\<rparr>) = strip_uop u"
  "strip_uop (u\<lparr>u_stall_reasons := d\<rparr>) = strip_uop u"
  by (cases u; simp add: strip_uop_def)+

lemma strip_macro_simps [simp]:
  "strip_macro (m\<lparr>m_dispatch_tick := t\<rparr>) = strip_macro m"
  "strip_macro (m\<lparr>m_complete_tick := t\<rparr>) = strip_macro m"
  "strip_macro (m\<lparr>m_retire_tick := t\<rparr>) = strip_macro m"
  by (cases m; simp add: strip_macro_def)+

definition same_lengths :: "(string, 'a list) dict \<Rightarrow> (string, 'a list) dict \<Rightarrow> bool" where
  "same_lengths d d' \<longleftrightarrow> (\<forall>k. map_option length (map_of d k) = map_option length (map_of d' k))"

definition same_static :: "zen4_state \<Rightarrow> zen4_state \<Rightarrow> bool" where
  "same_static s s' \<longleftrightarrow>
     (\<forall>i. map_option strip_uop (uop_at s i) = map_option strip_uop (uop_at s' i)) \<and>
     (\<forall>i. map_option strip_macro (macro_at s i) = map_option strip_macro (macro_at s' i)) \<and>
     same_lengths (z_resource_free s) (z_resource_free s') \<and>
     same_lengths (z_domain_free s) (z_domain_free s')"

lemma same_static_refl [simp]: "same_static s s"
  by (simp add: same_static_def same_lengths_def)

lemma same_static_trans: "same_static s s' \<Longrightarrow> same_static s' s'' \<Longrightarrow> same_static s s''"
  by (simp add: same_static_def same_lengths_def)

lemma same_lengths_update:
  "map_of d k = Some xs \<Longrightarrow> length ys = length xs \<Longrightarrow> same_lengths d (AList.update k ys d)"
  by (simp add: same_lengths_def)

lemma same_lengths_trans: "same_lengths d d' \<Longrightarrow> same_lengths d' d'' \<Longrightarrow> same_lengths d d''"
  by (simp add: same_lengths_def)

lemma put_uop_static:
  "uop_at s (u_id u) = Some v \<Longrightarrow> strip_uop u = strip_uop v \<Longrightarrow> same_static s (put_uop u s)"
  by (simp add: same_static_def same_lengths_def)

lemma put_macro_static:
  "macro_at s (m_id m) = Some n \<Longrightarrow> strip_macro m = strip_macro n \<Longrightarrow> same_static s (put_macro m s)"
  by (simp add: same_static_def same_lengths_def)

section \<open>Well-formed workloads\<close>

text \<open>
  What the engine relies on: the validated references, at least one lane for every resource
  choice, enough tokens in every issue domain, a load or store reference on memory uops, and the
  vector-scheduler flag exactly on the macro-ops with a vector uop.
\<close>

definition uop_ok :: "zen4_state \<Rightarrow> execution_uop \<Rightarrow> bool" where
  "uop_ok s u \<longleftrightarrow>
     (\<exists>m. macro_at s (u_parent_id u) = Some m \<and> u_id u \<in> set (m_uop_ids m)) \<and>
     (\<forall>d\<in>set (u_dependencies u). uop_at s d \<noteq> None) \<and>
     (\<forall>p. truthy (u_issue_after_uop u) = Some p \<longrightarrow> uop_at s p \<noteq> None) \<and>
     u_resource_choices u \<noteq> [] \<and>
     (\<forall>r\<in>set (u_resource_choices u). \<exists>free. map_of (z_resource_free s) r = Some free \<and> free \<noteq> []) \<and>
     distinct (u_issue_domains u) \<and>
     (\<forall>d\<in>set (u_issue_domains u). \<exists>free. map_of (z_domain_free s) d = Some free \<and>
        1 \<le> issue_domain_demand u d \<and> issue_domain_demand u d \<le> int (length free)) \<and>
     (is_memory_kind (u_kind u) \<longrightarrow> (\<exists>m. u_memory u = Some m \<and> access_kind m)) \<and>
     0 \<le> u_occupancy_ticks u"

definition macro_ok :: "zen4_state \<Rightarrow> macro_op \<Rightarrow> bool" where
  "macro_ok s m \<longleftrightarrow> m_uop_ids m \<noteq> [] \<and> 1 \<le> m_decoded_macro_ops m \<and>
     (\<forall>i\<in>set (m_uop_ids m). \<exists>u. uop_at s i = Some u \<and> u_parent_id u = m_id m) \<and>
     (m_uses_vector_scheduler m \<longleftrightarrow>
        (\<exists>i\<in>set (m_uop_ids m). \<exists>u. uop_at s i = Some u \<and> u_kind u \<in> set VECTOR_RESOURCE_KINDS))"

definition tables :: "zen4_env \<Rightarrow> zen4_state \<Rightarrow> bool" where
  "tables e s \<longleftrightarrow>
     distinct (e_macro_order e) \<and> 0 < e_tpc e \<and>
     (\<forall>i. uop_at s i \<noteq> None \<longleftrightarrow> i \<in> set (e_uop_order e)) \<and>
     (\<forall>i. macro_at s i \<noteq> None \<longleftrightarrow> i \<in> set (e_macro_order e)) \<and>
     (\<forall>i u. uop_at s i = Some u \<longrightarrow> u_id u = i \<and> uop_ok s u) \<and>
     (\<forall>i m. macro_at s i = Some m \<longrightarrow> m_id m = i \<and> macro_ok s m) \<and>
     (\<forall>p ids. map_of (e_groups e) p = Some ids \<longrightarrow> (\<forall>i\<in>set ids. uop_at s i \<noteq> None))"

lemma map_option_eq_SomeD:
  "map_option f x = map_option f y \<Longrightarrow> y = Some b \<Longrightarrow> \<exists>a. x = Some a \<and> f a = f b"
  by (cases x) auto

lemma uop_ok_static:
  assumes ok: "uop_ok s u" and st: "same_static s s'" and eq: "strip_uop v = strip_uop u"
  shows "uop_ok s' v"
proof -
  note v = strip_uop_eqD [OF eq]
  have dem: "issue_domain_demand v = issue_domain_demand u"
    by (simp add: issue_domain_demand_def fun_eq_iff v)
  have U: "uop_at s i = None \<longleftrightarrow> uop_at s' i = None" for i
    using st unfolding same_static_def by (metis option.map_disc_iff)
  obtain m where m: "macro_at s (u_parent_id u) = Some m" "u_id u \<in> set (m_uop_ids m)"
    using ok by (auto simp: uop_ok_def)
  obtain m' where m': "macro_at s' (u_parent_id u) = Some m'" "strip_macro m' = strip_macro m"
    using map_option_eq_SomeD [OF _ m(1), of strip_macro "macro_at s' (u_parent_id u)"] st
    by (auto simp: same_static_def)
  have lengths: "\<exists>g. map_of d' k = Some g \<and> length g = length f"
    if "same_lengths d d'" "map_of d k = Some f" for d d' :: "(string, int list) dict" and k f
    using map_option_eq_SomeD [OF _ that(2), of length "map_of d' k"] that(1)
    by (auto simp: same_lengths_def)
  have L: "same_lengths (z_resource_free s) (z_resource_free s')"
    "same_lengths (z_domain_free s) (z_domain_free s')"
    using st by (auto simp: same_static_def)
  have R: "\<exists>free. map_of (z_resource_free s') r = Some free \<and> free \<noteq> []"
    if "r \<in> set (u_resource_choices u)" for r
    using ok that lengths [OF L(1)] unfolding uop_ok_def by (metis length_0_conv)
  have D: "\<exists>free. map_of (z_domain_free s') d = Some free \<and>
        1 \<le> issue_domain_demand u d \<and> issue_domain_demand u d \<le> int (length free)"
    if "d \<in> set (u_issue_domains u)" for d
    using ok that lengths [OF L(2)] unfolding uop_ok_def by metis
  show ?thesis
    using ok m(2) m' strip_macro_eqD(2) [OF m'(2)] R D U
    unfolding uop_ok_def v dem by auto
qed

lemma macro_ok_static:
  assumes ok: "macro_ok s m" and st: "same_static s s'" and eq: "strip_macro n = strip_macro m"
  shows "macro_ok s' n"
proof -
  note n = strip_macro_eqD [OF eq]
  have new: "\<exists>v. uop_at s' i = Some v \<and> strip_uop v = strip_uop u" if "uop_at s i = Some u" for i u
    using map_option_eq_SomeD [OF _ that, of strip_uop "uop_at s' i"] st by (auto simp: same_static_def)
  have old: "\<exists>u. uop_at s i = Some u \<and> strip_uop u = strip_uop v" if "uop_at s' i = Some v" for i v
    using map_option_eq_SomeD [OF _ that, of strip_uop "uop_at s i"] st by (auto simp: same_static_def)
  have "\<exists>v. uop_at s' i = Some v \<and> u_parent_id v = m_id m" if i: "i \<in> set (m_uop_ids m)" for i
    using ok i new strip_uop_eqD(3) unfolding macro_ok_def by metis
  moreover have "(\<exists>u. uop_at s i = Some u \<and> u_kind u \<in> K) \<longleftrightarrow> (\<exists>v. uop_at s' i = Some v \<and> u_kind v \<in> K)"
    for i K
    using new old strip_uop_eqD(4) by metis
  ultimately show ?thesis using ok unfolding macro_ok_def n by simp
qed

lemma tables_static:
  assumes t: "tables e s" and st: "same_static s s'"
  shows "tables e s'"
proof -
  have U: "uop_at s i = None \<longleftrightarrow> uop_at s' i = None" and M: "macro_at s i = None \<longleftrightarrow> macro_at s' i = None" for i
    using st unfolding same_static_def by (metis option.map_disc_iff)+
  have u: "u_id v = i \<and> uop_ok s' v" if v: "uop_at s' i = Some v" for i v
  proof -
    obtain u where u: "uop_at s i = Some u" "strip_uop u = strip_uop v"
      using map_option_eq_SomeD [OF _ v, of strip_uop "uop_at s i"] st by (auto simp: same_static_def)
    then show ?thesis
      using t uop_ok_static [OF _ st, of u v] strip_uop_eqD(1) [OF u(2)] by (auto simp: tables_def)
  qed
  have m: "m_id n = i \<and> macro_ok s' n" if n: "macro_at s' i = Some n" for i n
  proof -
    obtain m where m: "macro_at s i = Some m" "strip_macro m = strip_macro n"
      using map_option_eq_SomeD [OF _ n, of strip_macro "macro_at s i"] st by (auto simp: same_static_def)
    then show ?thesis
      using t macro_ok_static [OF _ st, of m n] strip_macro_eqD(1) [OF m(2)] by (auto simp: tables_def)
  qed
  from t have "distinct (e_macro_order e)" "0 < e_tpc e"
    "\<forall>i. uop_at s i \<noteq> None \<longleftrightarrow> i \<in> set (e_uop_order e)"
    "\<forall>i. macro_at s i \<noteq> None \<longleftrightarrow> i \<in> set (e_macro_order e)"
    "\<forall>p ids. map_of (e_groups e) p = Some ids \<longrightarrow> (\<forall>i\<in>set ids. uop_at s i \<noteq> None)"
    unfolding tables_def by blast+
  then show ?thesis unfolding tables_def U M using u m by blast
qed

section \<open>Operations on a well-formed workload never raise\<close>

lemma zlookup_eq:
  "\<forall>i\<in>set is. uop_at s i \<noteq> None \<Longrightarrow> zlookup s is = Inr (map (\<lambda>i. the (uop_at s i)) is)"
  unfolding zlookup_def by (rule rmap_total) (auto simp: fetch_def)

lemma zmin_Cons: "xs \<noteq> [] \<Longrightarrow> zmin xs = Inr (min_of (hd xs) (tl xs))"
  by (cases xs) (simp_all add: zmin_def)

definition lane_min :: "zen4_state \<Rightarrow> string \<Rightarrow> int" where
  "lane_min s r = (case map_of (z_resource_free s) r of None \<Rightarrow> 0 | Some free \<Rightarrow> min_of (hd free) (tl free))"

definition lanes_exist :: "zen4_state \<Rightarrow> string list \<Rightarrow> bool" where
  "lanes_exist s rs \<longleftrightarrow> (\<forall>r\<in>set rs. \<exists>free. map_of (z_resource_free s) r = Some free \<and> free \<noteq> [])"

lemma lane_min_eq:
  "lanes_exist s rs \<Longrightarrow> r \<in> set rs \<Longrightarrow> rbind (zget (z_resource_free s) r) zmin = Inr (lane_min s r)"
  by (auto simp: lanes_exist_def lane_min_def fetch_def zmin_Cons dest: bspec)

lemma resource_ready_eq:
  "lanes_exist s rs \<Longrightarrow> resource_ready s now rs = Inr (\<exists>r\<in>set rs. lane_min s r \<le> now)"
proof (induction rs)
  case (Cons r rs)
  have "rbind (zget (z_resource_free s) r) zmin = Inr (lane_min s r)"
    using lane_min_eq [OF Cons.prems] by simp
  then have "rbind (zget (z_resource_free s) r) (\<lambda>free. rbind (zmin free) f) = f (lane_min s r)"
    for f :: "int \<Rightarrow> bool zresult"
    by (simp add: rbind_assoc [symmetric])
  then have "resource_ready s now (r # rs) =
      (if lane_min s r \<le> now then Inr True else resource_ready s now rs)"
    by (simp only: resource_ready.simps)
  moreover have "lanes_exist s rs" using Cons.prems by (simp add: lanes_exist_def)
  ultimately show ?case using Cons.IH by auto
qed simp

lemma resource_earliest_eq:
  "lanes_exist s rs \<Longrightarrow> rs \<noteq> [] \<Longrightarrow> \<exists>t. resource_earliest s rs = Inr t"
  using rmap_total [of rs "\<lambda>r. rbind (zget (z_resource_free s) r) zmin" "lane_min s"] lane_min_eq
  by (cases rs) (auto simp: resource_earliest_def zmin_def)

lemma select_resource_eq:
  assumes ex: "lanes_exist s (u_resource_choices u)" and "resource_ready s now (u_resource_choices u) = Inr True"
  shows "\<exists>r lane free. select_resource s u now = Inr (r, lane) \<and> r \<in> set (u_resource_choices u) \<and>
     map_of (z_resource_free s) r = Some free \<and> lane < length free \<and> free ! lane \<le> now"
proof -
  let ?rs = "u_resource_choices u"
  define g where "g r = (lane_min s r, r, argmin (the (map_of (z_resource_free s) r)))" for r
  have free: "\<exists>free. map_of (z_resource_free s) r = Some free \<and> free \<noteq> []" if "r \<in> set ?rs" for r
    using ex that by (auto simp: lanes_exist_def)
  have nth: "free ! argmin free = lane_min s r \<and> argmin free < length free"
    if "map_of (z_resource_free s) r = Some free" "free \<noteq> []" for r free
    using that argmin_nth [of "hd free" "tl free"] argmin_bound [of free]
    by (simp add: lane_min_def)
  have rows: "rmap (\<lambda>r. rbind (zget (z_resource_free s) r) (\<lambda>free.
         if free = [] then Inl EngineValueError else Inr (free ! argmin free, r, argmin free))) ?rs =
      Inr (map g ?rs)"
    using free nth by (intro rmap_total) (fastforce simp: fetch_def g_def)
  obtain best where best: "best \<in> set ?rs" "lane_min s best \<le> now"
    using assms(2) resource_ready_eq [OF ex, of now] by auto
  obtain c cs where cs: "map g ?rs = c # cs" using best(1) by (cases "map g ?rs") auto
  have in_rs: "min_of c cs \<in> g ` set ?rs"
    using min_of_mem [of c cs] cs by (metis list.set_map list.simps(15))
  then obtain r where r: "r \<in> set ?rs" "min_of c cs = g r" by blast
  have "g best \<in> insert c (set cs)" using best(1) cs by (metis image_eqI list.set_map list.simps(15))
  then have "g r \<le> g best" using min_of_le r(2) by metis
  then have "lane_min s r \<le> now" using best(2) by (auto simp: g_def less_eq_prod_def)
  moreover obtain f where f: "map_of (z_resource_free s) r = Some f" "f \<noteq> []" using free [OF r(1)] by blast
  ultimately have "select_resource s u now = Inr (r, argmin f)" "f ! argmin f \<le> now"
    using nth [OF f] f r(2) by (auto simp: select_resource_def rows cs g_def)
  then show ?thesis using r(1) f nth [OF f] by blast
qed

lemma sorted_map_fst: "sorted ps \<Longrightarrow> sorted (map fst ps)" for ps :: "('a::linorder \<times> 'b::linorder) list"
  by (induction ps) (auto simp: less_eq_prod_def)

text \<open>The lanes taken from an issue domain are the ones that become free first.\<close>

lemma reserved_lanes_free:
  assumes "k \<le> length free" and "lane \<in> set (take k (sort_key (\<lambda>lane. (free ! lane, lane)) [0..<length free]))"
  shows "lane < length free \<and> free ! lane \<le> sort free ! (k - 1)"
proof -
  let ?L = "sort_key (\<lambda>lane. (free ! lane, lane)) [0..<length free]"
  obtain j where j: "j < k" "j < length ?L" "lane = ?L ! j"
    using assms(2) by (auto simp: in_set_conv_nth)
  have "sorted (map (\<lambda>lane. (free ! lane, lane)) ?L)" by simp
  then have "sorted (map fst (map (\<lambda>lane. (free ! lane, lane)) ?L))" by (rule sorted_map_fst)
  then have "sorted (map (\<lambda>lane. free ! lane) ?L)" by (simp add: o_def)
  moreover have "mset (map (\<lambda>lane. free ! lane) ?L) = mset (map (\<lambda>lane. free ! lane) [0..<length free])"
    by (simp only: mset_map mset_sort)
  then have "mset (map (\<lambda>lane. free ! lane) ?L) = mset free" by (simp only: map_nth)
  ultimately have s: "sort free = map (\<lambda>lane. free ! lane) ?L"
    by (metis properties_for_sort)
  have "sort free ! j \<le> sort free ! (k - 1)"
    using j(1) assms(1) by (intro sorted_nth_mono) auto
  moreover have "sort free ! j = free ! lane" using j by (simp add: s)
  moreover have "lane < length free" using j by (metis atLeastLessThan_iff nth_mem set_sort set_upt)
  ultimately show ?thesis by simp
qed

definition token_free :: "int \<Rightarrow> zen4_state \<Rightarrow> execution_uop \<Rightarrow> string \<Rightarrow> bool" where
  "token_free now s u d \<longleftrightarrow> (\<exists>free. map_of (z_domain_free s) d = Some free \<and>
     1 \<le> issue_domain_demand u d \<and> issue_domain_demand u d \<le> int (length free) \<and>
     sort free ! nat (issue_domain_demand u d - 1) \<le> now)"

lemma issue_domain_ready_tick_eq:
  assumes "map_of (z_domain_free s) d = Some free" and "1 \<le> issue_domain_demand u d"
    and "issue_domain_demand u d \<le> int (length free)"
  shows "issue_domain_ready_tick s u d = Inr (sort free ! nat (issue_domain_demand u d - 1))"
  using assms by (simp add: issue_domain_ready_tick_def fetch_def py_index_def Let_def)

lemma fold_length: "length (fold (\<lambda>lane f. f[lane := t]) lanes xs) = length xs"
  by (induction lanes arbitrary: xs) auto

lemma reserve_domain_eq:
  assumes "token_free now s u d"
  shows "\<exists>free free'. map_of (z_domain_free s) d = Some free \<and> length free' = length free \<and>
     reserve_domain u now d s = Inr (s\<lparr>z_domain_free := AList.update d free' (z_domain_free s)\<rparr>)"
proof -
  obtain free where f: "map_of (z_domain_free s) d = Some free" "1 \<le> issue_domain_demand u d"
    "issue_domain_demand u d \<le> int (length free)" "sort free ! nat (issue_domain_demand u d - 1) \<le> now"
    using assms by (auto simp: token_free_def)
  let ?k = "nat (issue_domain_demand u d)"
  have k: "?k \<le> length free" "nat (issue_domain_demand u d - 1) = ?k - 1" using f by auto
  have "free ! lane \<le> now" if "lane \<in> set (reserve_lanes free (issue_domain_demand u d))" for lane
    using reserved_lanes_free [OF k(1)] that f(2,4) k(2) by (force simp: reserve_lanes_def py_take_def)
  moreover define free' where "free' = fold (\<lambda>lane f. f[lane := now + u_occupancy_ticks u])
    (reserve_lanes free (issue_domain_demand u d)) free"
  ultimately have "reserve_domain u now d s =
      Inr (s\<lparr>z_domain_free := AList.update d free' (z_domain_free s)\<rparr>)"
    using f(1) by (auto simp: reserve_domain_def fetch_def Let_def not_less)
  moreover have "length free' = length free" by (simp add: free'_def fold_length)
  ultimately show ?thesis using f(1) by blast
qed

lemma reserve_domains_eq:
  assumes "distinct ds" and "\<forall>d\<in>set ds. token_free now s u d"
  shows "\<exists>f. rfold (reserve_domain u now) ds s = Inr (s\<lparr>z_domain_free := f\<rparr>) \<and>
     same_lengths (z_domain_free s) f"
  using assms
proof (induction ds arbitrary: s)
  case Nil
  then show ?case by (auto intro!: exI [of _ "z_domain_free s"] simp: same_lengths_def)
next
  case (Cons d ds)
  obtain free free' where d: "map_of (z_domain_free s) d = Some free" "length free' = length free"
    "reserve_domain u now d s = Inr (s\<lparr>z_domain_free := AList.update d free' (z_domain_free s)\<rparr>)"
    using reserve_domain_eq [of now s u d] Cons.prems(2) by auto
  define s1 where "s1 = s\<lparr>z_domain_free := AList.update d free' (z_domain_free s)\<rparr>"
  have "\<forall>x\<in>set ds. token_free now s1 u x"
    using Cons.prems by (auto simp: token_free_def s1_def)
  then obtain f where f: "rfold (reserve_domain u now) ds s1 = Inr (s1\<lparr>z_domain_free := f\<rparr>)"
    "same_lengths (z_domain_free s1) f"
    using Cons.IH [of s1] Cons.prems(1) by auto
  have "same_lengths (z_domain_free s) (z_domain_free s1)"
    by (simp add: s1_def same_lengths_update [OF d(1,2)])
  then have "same_lengths (z_domain_free s) f" using f(2) by (rule same_lengths_trans)
  then show ?case using d(3) f(1) by (auto simp: s1_def)
qed

section \<open>The issue conditions\<close>

text \<open>
  \<open>may_issue e now s u\<close>: what \<open>_issue_blocker\<close> has checked when it answers \<open>None\<close>.
\<close>

definition may_issue :: "zen4_env \<Rightarrow> int \<Rightarrow> zen4_state \<Rightarrow> execution_uop \<Rightarrow> bool" where
  "may_issue e now s u \<longleftrightarrow>
     (\<forall>d\<in>set (u_dependencies u). \<exists>y c. uop_at s d = Some y \<and> u_complete_tick y = Some c \<and> c \<le> now) \<and>
     or_zero (u_dispatch_tick u) \<le> now \<and>
     (\<forall>p. truthy (u_issue_after_uop u) = Some p \<longrightarrow>
        (\<exists>v t. uop_at s p = Some v \<and> u_issue_tick v = Some t \<and> t + u_issue_gap_ticks u \<le> now)) \<and>
     \<not> overlap_blocked e s u \<and>
     (\<forall>t. map_of (z_last_class s) (u_scheduling_class u) = Some t \<longrightarrow>
        t + u_issue_interval_ticks u \<le> now) \<and>
     resource_ready s now (u_resource_choices u) = Inr True \<and>
     (is_memory_kind (u_kind u) \<longrightarrow> (\<exists>m. u_memory u = Some m \<and> grantable now (z_memory s) m)) \<and>
     (\<forall>d\<in>set (u_issue_domains u). token_free now s u d)"

lemma dependency_check_eq:
  assumes deps: "\<forall>d\<in>set (u_dependencies u). uop_at s d \<noteq> None"
  shows "\<exists>v. dependency_check s u now = Inr v \<and>
     (case v of Some (r, t) \<Rightarrow> r \<noteq> None
      | None \<Rightarrow> or_zero (u_dispatch_tick u) \<le> now \<and>
         (\<forall>d\<in>set (u_dependencies u). \<exists>y c. uop_at s d = Some y \<and> u_complete_tick y = Some c \<and> c \<le> now))"
proof -
  let ?ds = "map (\<lambda>i. the (uop_at s i)) (u_dependencies u)"
  have look: "zlookup s (u_dependencies u) = Inr ?ds" by (rule zlookup_eq [OF deps])
  define ready where "ready = max_of (or_zero (u_dispatch_tick u)) (map (\<lambda>d. or_zero (u_complete_tick d)) ?ds)"
  have ready: "dependency_ready_tick s u = Inr ready"
    by (simp add: dependency_ready_tick_def look ready_def)
  show ?thesis
  proof (cases "filter (\<lambda>d. u_complete_tick d = None) ?ds = []")
    case False
    then show ?thesis by (simp add: dependency_check_def look)
  next
    case True
    have "or_zero (u_dispatch_tick u) \<le> now \<and>
        (\<forall>d\<in>set (u_dependencies u). \<exists>y c. uop_at s d = Some y \<and> u_complete_tick y = Some c \<and> c \<le> now)"
      if "ready \<le> now"
    proof -
      have le: "or_zero (u_dispatch_tick u) \<le> now" "\<forall>z\<in>set (map (\<lambda>d. or_zero (u_complete_tick d)) ?ds). z \<le> now"
        using that unfolding ready_def max_of_le_iff by blast+
      have "\<exists>y c. uop_at s d = Some y \<and> u_complete_tick y = Some c \<and> c \<le> now"
        if d: "d \<in> set (u_dependencies u)" for d
      proof -
        obtain y where y: "uop_at s d = Some y" using deps d by auto
        then obtain c where "u_complete_tick y = Some c"
          using True d by (fastforce simp: filter_empty_conv)
        with y le(2) d show ?thesis by (force simp: or_zero_def)
      qed
      with le(1) show ?thesis by blast
    qed
    then show ?thesis using True by (auto simp: dependency_check_def look ready filter_empty_conv)
  qed
qed

lemma part_check_eq:
  assumes "\<forall>p. truthy (u_issue_after_uop u) = Some p \<longrightarrow> uop_at s p \<noteq> None"
  shows "\<exists>v. part_check s u now = Inr v \<and>
     (case v of Some (r, t) \<Rightarrow> r \<noteq> None
      | None \<Rightarrow> \<forall>p. truthy (u_issue_after_uop u) = Some p \<longrightarrow>
         (\<exists>v t. uop_at s p = Some v \<and> u_issue_tick v = Some t \<and> t + u_issue_gap_ticks u \<le> now))"
  using assms
  by (cases "truthy (u_issue_after_uop u)")
    (auto simp: part_check_def fetch_def Let_def split: option.splits)

lemma interval_check_None:
  "interval_check s u now = None \<Longrightarrow> map_of (z_last_class s) (u_scheduling_class u) = Some t \<Longrightarrow>
     t + u_issue_interval_ticks u \<le> now"
  by (auto simp: interval_check_def Let_def split: if_splits)

lemma interval_check_Some: "interval_check s u now = Some (r, t) \<Longrightarrow> r \<noteq> None"
  by (auto simp: interval_check_def Let_def split: if_splits option.splits)

lemma memory_check_eq:
  assumes wf: "mem_wf (z_memory s)"
    and mem: "is_memory_kind (u_kind u) \<Longrightarrow> \<exists>m. u_memory u = Some m \<and> access_kind m"
  shows "\<exists>h v. memory_check s u now = Inr (s\<lparr>z_memory := h\<rparr>, v) \<and> mem_wf h \<and>
     (case v of Some (r, t) \<Rightarrow> r \<noteq> None
      | None \<Rightarrow> is_memory_kind (u_kind u) \<longrightarrow> (\<exists>m. u_memory u = Some m \<and> grantable now h m))"
proof (cases "is_memory_kind (u_kind u)")
  case False
  then show ?thesis using wf by (intro exI [of _ "z_memory s"] exI [of _ None]) (simp add: memory_check_def)
next
  case True
  then obtain m where m: "u_memory u = Some m" "access_kind m" using mem by blast
  obtain h r t where h: "blocker (z_memory s) (Some m) now = Inr (h, r, t)" "mem_wf h"
    "case r of None \<Rightarrow> t = now \<and> grantable now h m
      | Some x \<Rightarrow> now < t \<and> (x = ''memory_bandwidth'' \<or> x = ''memory_outstanding'')"
    using blocker_eq [OF wf m(2), of now] by blast
  show ?thesis
    using True m h by (cases r) (auto simp: memory_check_def lift_mem_def)
qed

lemma domain_check_eq:
  assumes "\<forall>d\<in>set (u_issue_domains u). \<exists>free. map_of (z_domain_free s) d = Some free \<and>
      1 \<le> issue_domain_demand u d \<and> issue_domain_demand u d \<le> int (length free)"
  shows "\<exists>r t. domain_check s u now = Inr (r, t) \<and>
     (r = None \<longrightarrow> (\<forall>d\<in>set (u_issue_domains u). token_free now s u d))"
proof -
  define g where "g d = sort (the (map_of (z_domain_free s) d)) ! nat (issue_domain_demand u d - 1)" for d
  have rows: "rmap (issue_domain_ready_tick s u) (u_issue_domains u) = Inr (map g (u_issue_domains u))"
    using assms issue_domain_ready_tick_eq [of s _ _ u]
    by (intro rmap_total) (fastforce simp: g_def)
  show ?thesis
  proof (cases "\<exists>t\<in>set (map g (u_issue_domains u)). now < t")
    case True
    then obtain t ts where "map g (u_issue_domains u) = t # ts" by (cases "map g (u_issue_domains u)") auto
    with True show ?thesis by (auto simp: domain_check_def rows zmax_def)
  next
    case False
    then have "\<forall>d\<in>set (u_issue_domains u). token_free now s u d"
      using assms by (fastforce simp: token_free_def g_def not_less)
    with False show ?thesis by (auto simp: domain_check_def rows)
  qed
qed

lemma issue_blocker_eq:
  assumes t: "tables e s" and u: "uop_at s i = Some u" and wf: "mem_wf (z_memory s)"
  shows "\<exists>h r t. issue_blocker e u now s = Inr (s\<lparr>z_memory := h\<rparr>, r, t) \<and> mem_wf h \<and>
     (r = None \<longrightarrow> may_issue e now (s\<lparr>z_memory := h\<rparr>) u)"
proof -
  have ok: "uop_ok s u" using t u by (simp add: tables_def)
  have ex: "lanes_exist s (u_resource_choices u)" "u_resource_choices u \<noteq> []"
    using ok by (auto simp: uop_ok_def lanes_exist_def)
  have same: "s = s\<lparr>z_memory := z_memory s\<rparr>" by simp
  obtain dep where dep: "dependency_check s u now = Inr dep"
    "case dep of Some (r, t) \<Rightarrow> r \<noteq> None
      | None \<Rightarrow> or_zero (u_dispatch_tick u) \<le> now \<and>
         (\<forall>d\<in>set (u_dependencies u). \<exists>y c. uop_at s d = Some y \<and> u_complete_tick y = Some c \<and> c \<le> now)"
    using dependency_check_eq [of u s now] ok unfolding uop_ok_def by blast
  obtain part where part: "part_check s u now = Inr part"
    "case part of Some (r, t) \<Rightarrow> r \<noteq> None
      | None \<Rightarrow> \<forall>p. truthy (u_issue_after_uop u) = Some p \<longrightarrow>
         (\<exists>v t. uop_at s p = Some v \<and> u_issue_tick v = Some t \<and> t + u_issue_gap_ticks u \<le> now)"
    using part_check_eq [of u s now] ok unfolding uop_ok_def by blast
  obtain h mem where mem: "memory_check s u now = Inr (s\<lparr>z_memory := h\<rparr>, mem)" "mem_wf h"
    "case mem of Some (r, t) \<Rightarrow> r \<noteq> None
      | None \<Rightarrow> is_memory_kind (u_kind u) \<longrightarrow> (\<exists>m. u_memory u = Some m \<and> grantable now h m)"
    using memory_check_eq [OF wf, of u now] ok unfolding uop_ok_def by blast
  obtain r t where dom: "domain_check (s\<lparr>z_memory := h\<rparr>) u now = Inr (r, t)"
    "r = None \<longrightarrow> (\<forall>d\<in>set (u_issue_domains u). token_free now (s\<lparr>z_memory := h\<rparr>) u d)"
    using domain_check_eq [of u "s\<lparr>z_memory := h\<rparr>" now] ok unfolding uop_ok_def by auto
  obtain earliest where busy: "resource_earliest s (u_resource_choices u) = Inr earliest"
    using resource_earliest_eq [OF ex] by blast
  obtain free where free: "resource_ready s now (u_resource_choices u) = Inr free"
    using resource_ready_eq [OF ex(1)] by blast
  have free': "resource_ready (s\<lparr>z_memory := h\<rparr>) now rs = resource_ready s now rs" for rs
    by (induction rs) (simp_all cong: if_cong)
  show ?thesis
  proof (cases "dep = None \<and> part = None \<and> \<not> overlap_blocked e s u \<and> interval_check s u now = None \<and> free \<and> mem = None")
    case True
    then have "issue_blocker e u now s = Inr (s\<lparr>z_memory := h\<rparr>, r, t)"
      by (simp add: issue_blocker_def dep(1) part(1) free mem(1) dom(1))
    moreover have "may_issue e now (s\<lparr>z_memory := h\<rparr>) u" if "r = None"
      using True that dep(2) part(2) mem(3) dom(2) interval_check_None [of s u now] free free'
      by (simp add: may_issue_def overlap_blocked_def)
    ultimately show ?thesis using mem(2) by blast
  next
    case False
    have "\<exists>h r t. issue_blocker e u now s = Inr (s\<lparr>z_memory := h\<rparr>, r, t) \<and> mem_wf h \<and> r \<noteq> None"
    proof (cases "dep = None \<and> part = None \<and> \<not> overlap_blocked e s u \<and> interval_check s u now = None \<and> free")
      case True
      then obtain x y where "mem = Some (x, y)" using False by (cases mem) auto
      then show ?thesis using True mem
        by (auto simp: issue_blocker_def dep(1) part(1) free mem(1))
    next
      case no: False
      have "\<exists>r t. issue_blocker e u now s = Inr (s, r, t) \<and> r \<noteq> None"
        using no dep part busy free interval_check_Some [of s u now]
        by (auto simp: issue_blocker_def split: option.splits)
      then show ?thesis using same wf by metis
    qed
    then show ?thesis by blast
  qed
qed

section \<open>The effect of each operation\<close>

text \<open>The components of the state that only issue changes, and those only dispatch and retirement change.\<close>

definition same_queues :: "zen4_state \<Rightarrow> zen4_state \<Rightarrow> bool" where
  "same_queues s s' \<longleftrightarrow> z_rob s' = z_rob s \<and> z_next_dispatch s' = z_next_dispatch s \<and>
     z_rob_occupancy s' = z_rob_occupancy s \<and> z_load_occupancy s' = z_load_occupancy s \<and>
     z_store_occupancy s' = z_store_occupancy s"

definition same_issue :: "zen4_state \<Rightarrow> zen4_state \<Rightarrow> bool" where
  "same_issue s s' \<longleftrightarrow> z_memory s' = z_memory s \<and> z_resource_free s' = z_resource_free s \<and>
     z_last_class s' = z_last_class s \<and> z_domain_free s' = z_domain_free s \<and>
     z_pending_groups s' = z_pending_groups s \<and> z_issue_index s' = z_issue_index s"

definition done_at :: "zen4_state \<Rightarrow> string \<Rightarrow> bool" where
  "done_at s i \<longleftrightarrow> (\<exists>u c. uop_at s i = Some u \<and> u_complete_tick u = Some c)"

definition complete_at :: "zen4_state \<Rightarrow> string \<Rightarrow> int" where
  "complete_at s i = (case uop_at s i of None \<Rightarrow> 0 | Some u \<Rightarrow> or_zero (u_complete_tick u))"

lemma all_complete_eq:
  "\<forall>i\<in>set is. uop_at s i \<noteq> None \<Longrightarrow> all_complete (z_uops s) is = Inr (\<forall>i\<in>set is. done_at s i)"
  by (induction "is") (auto simp: fetch_def done_at_def)

lemma finish_parent_eq:
  assumes m: "macro_at s p = Some m" "m_uop_ids m \<noteq> []" and us: "\<forall>i\<in>set (m_uop_ids m). uop_at s i \<noteq> None"
  shows "finish_parent p s = Inr (if \<forall>i\<in>set (m_uop_ids m). done_at s i
     then put_macro (m\<lparr>m_complete_tick := Some (Max (complete_at s ` set (m_uop_ids m)))\<rparr>) s else s)"
proof -
  let ?is = "m_uop_ids m"
  have rows: "rmap (zget (z_uops s)) ?is = Inr (map (\<lambda>i. the (uop_at s i)) ?is)"
    using us by (intro rmap_total) (auto simp: fetch_def)
  have ticks: "map (\<lambda>u. or_zero (u_complete_tick u)) (map (\<lambda>i. the (uop_at s i)) ?is) = map (complete_at s) ?is"
    using us by (auto simp: complete_at_def)
  obtain j js where ids: "?is = j # js" using m(2) by (cases ?is) auto
  have "zmax (map (complete_at s) ?is) = Inr (Max (complete_at s ` set ?is))"
    by (simp add: ids zmax_def max_of_Max)
  then show ?thesis using us
    by (simp add: finish_parent_def m(1) fetch_def all_complete_eq rows ticks del: map_map)
qed

text \<open>Completion: the uop gets its tick and the macro-op finishes with its last uop.\<close>

lemma complete_uop_eq:
  assumes t: "tables e s" and u: "uop_at s i = Some u"
  shows "\<exists>s' m. complete_uop tick u s = Inr s' \<and> macro_at s (u_parent_id u) = Some m \<and> i \<in> set (m_uop_ids m) \<and>
     uop_at s' = (uop_at s)(i \<mapsto> u\<lparr>u_complete_tick := Some tick\<rparr>) \<and>
     macro_at s' = (if \<forall>j\<in>set (m_uop_ids m). done_at s' j
       then (macro_at s)(u_parent_id u \<mapsto> m\<lparr>m_complete_tick := Some (Max (complete_at s' ` set (m_uop_ids m)))\<rparr>)
       else macro_at s) \<and>
     same_static s s' \<and> same_queues s s' \<and> same_issue s s' \<and> z_unissued s' = z_unissued s \<and>
     z_heap s' = z_heap s \<and> z_vector_occupancy s' = z_vector_occupancy s"
proof -
  have id: "u_id u = i" and ok: "uop_ok s u" using t u by (auto simp: tables_def)
  then obtain m where m: "macro_at s (u_parent_id u) = Some m" "i \<in> set (m_uop_ids m)"
    by (auto simp: uop_ok_def)
  then have mok: "macro_ok s m" "m_id m = u_parent_id u" using t by (auto simp: tables_def)
  define v where "v = u\<lparr>u_complete_tick := Some tick\<rparr>"
  define s1 where "s1 = log_event (UopEvent ''complete'' tick v) (put_uop v s)"
  have s1: "uop_at s1 = (uop_at s)(i \<mapsto> v)" "macro_at s1 = macro_at s"
    by (simp_all add: s1_def v_def id)
  have st: "same_static s s1" "same_queues s s1" "same_issue s s1"
    using u id by (auto simp: same_static_def same_lengths_def s1 same_queues_def same_issue_def s1_def v_def)
  have us: "\<forall>j\<in>set (m_uop_ids m). uop_at s1 j \<noteq> None" "m_uop_ids m \<noteq> []"
    using mok by (auto simp: macro_ok_def s1)
  define s' where "s' = (if \<forall>j\<in>set (m_uop_ids m). done_at s1 j
     then put_macro (m\<lparr>m_complete_tick := Some (Max (complete_at s1 ` set (m_uop_ids m)))\<rparr>) s1 else s1)"
  have eq: "complete_uop tick u s = Inr s'"
    using finish_parent_eq [of s1 "u_parent_id u" m] m(1) s1(2) us
    by (simp add: complete_uop_def v_def [symmetric] s1_def [symmetric] s'_def)
  have same: "uop_at s' = uop_at s1" "\<And>j. done_at s' j = done_at s1 j" "complete_at s' = complete_at s1"
    by (auto simp: s'_def done_at_def complete_at_def fun_eq_iff)
  have "same_static s1 s'" using m(1) mok(2) by (auto simp: s'_def s1 same_static_def same_lengths_def)
  then have "same_static s s'" using st(1) same_static_trans by blast
  moreover have "macro_at s' = (if \<forall>j\<in>set (m_uop_ids m). done_at s' j
       then (macro_at s)(u_parent_id u \<mapsto> m\<lparr>m_complete_tick := Some (Max (complete_at s' ` set (m_uop_ids m)))\<rparr>)
       else macro_at s)"
    unfolding same by (simp add: s'_def s1 mok(2))
  moreover have "same_queues s s'" "same_issue s s'" "z_unissued s' = z_unissued s"
    "z_heap s' = z_heap s" "z_vector_occupancy s' = z_vector_occupancy s"
    using st(2,3) by (auto simp: s'_def s1_def same_queues_def same_issue_def)
  moreover have "uop_at s' = (uop_at s)(i \<mapsto> u\<lparr>u_complete_tick := Some tick\<rparr>)"
    using same(1) s1(1) by (simp add: v_def)
  ultimately show ?thesis using eq m
    by (intro exI [of _ s'] exI [of _ m] conjI) assumption+
qed

text \<open>Dispatch: all uops of the macro-op enter the scheduler at once.\<close>

lemma dispatch_uops_eq:
  assumes "\<forall>i\<in>set is. \<exists>u. uop_at s i = Some u \<and> u_id u = i"
  shows "\<exists>s'. rfold (dispatch_uop now) is s = Inr s' \<and>
     uop_at s' = (\<lambda>i. if i \<in> set is then map_option (u_dispatch_tick_update (\<lambda>_. Some now)) (uop_at s i)
        else uop_at s i) \<and>
     z_macros s' = z_macros s \<and> same_queues s s' \<and> same_issue s s' \<and>
     set (z_unissued s') = set (z_unissued s) \<union> set is \<and>
     (distinct (z_unissued s) \<longrightarrow> distinct (z_unissued s')) \<and>
     z_heap s' = z_heap s \<and> z_vector_occupancy s' = z_vector_occupancy s"
  using assms
proof (induction "is" arbitrary: s)
  case Nil
  then show ?case by (simp add: same_queues_def same_issue_def)
next
  case (Cons i "is")
  obtain u where u: "uop_at s i = Some u" "u_id u = i" using Cons.prems by auto
  define v where "v = u\<lparr>u_dispatch_tick := Some now\<rparr>"
  define s1 where "s1 = log_event (UopEvent ''dispatch'' now v) (put_uop v s
     \<lparr>z_unissued := if i \<in> set (z_unissued s) then z_unissued s else z_unissued s @ [i]\<rparr>)"
  have step: "dispatch_uop now i s = Inr s1"
    by (simp add: dispatch_uop_def u(1) fetch_def s1_def v_def Let_def)
  have s1: "uop_at s1 = (uop_at s)(i \<mapsto> v)" by (simp add: s1_def v_def u(2))
  have "\<forall>j\<in>set is. \<exists>u. uop_at s1 j = Some u \<and> u_id u = j"
    using Cons.prems u by (auto simp: s1 v_def)
  from Cons.IH [OF this] obtain s' where s': "rfold (dispatch_uop now) is s1 = Inr s'"
    "uop_at s' = (\<lambda>i. if i \<in> set is then map_option (u_dispatch_tick_update (\<lambda>_. Some now)) (uop_at s1 i)
        else uop_at s1 i)"
    "z_macros s' = z_macros s1 \<and> same_queues s1 s' \<and> same_issue s1 s' \<and>
     set (z_unissued s') = set (z_unissued s1) \<union> set is \<and>
     (distinct (z_unissued s1) \<longrightarrow> distinct (z_unissued s')) \<and>
     z_heap s' = z_heap s1 \<and> z_vector_occupancy s' = z_vector_occupancy s1" by blast
  have "uop_at s' = (\<lambda>j. if j \<in> set (i # is) then map_option (u_dispatch_tick_update (\<lambda>_. Some now)) (uop_at s j)
        else uop_at s j)"
    unfolding s'(2) using u by (auto simp: s1 v_def fun_eq_iff)
  moreover have "z_macros s1 = z_macros s" "same_queues s s1" "same_issue s s1" "z_heap s1 = z_heap s"
    "z_vector_occupancy s1 = z_vector_occupancy s" "set (z_unissued s1) = insert i (set (z_unissued s))"
    "distinct (z_unissued s) \<longrightarrow> distinct (z_unissued s1)"
    by (auto simp: s1_def same_queues_def same_issue_def)
  ultimately show ?case
    using step s'(1,3) by (auto simp: same_queues_def same_issue_def)
qed

lemma dispatch_macro_eq:
  assumes t: "tables e s" and m: "macro_at s p = Some m"
  shows "\<exists>s'. dispatch_macro now m s = Inr s' \<and>
     uop_at s' = (\<lambda>i. if i \<in> set (m_uop_ids m) then map_option (u_dispatch_tick_update (\<lambda>_. Some now)) (uop_at s i)
        else uop_at s i) \<and>
     macro_at s' = (macro_at s)(p \<mapsto> m\<lparr>m_dispatch_tick := Some now\<rparr>) \<and>
     same_static s s' \<and> same_issue s s' \<and>
     z_rob s' = z_rob s @ [p] \<and> z_next_dispatch s' = Suc (z_next_dispatch s) \<and>
     z_rob_occupancy s' = z_rob_occupancy s + m_decoded_macro_ops m \<and>
     z_load_occupancy s' = z_load_occupancy s + of_bool (m_uses_load_queue m) \<and>
     z_store_occupancy s' = z_store_occupancy s + of_bool (m_uses_store_queue m) \<and>
     z_vector_occupancy s' = z_vector_occupancy s + of_bool (m_uses_vector_scheduler m) \<and>
     set (z_unissued s') = set (z_unissued s) \<union> set (m_uop_ids m) \<and>
     (distinct (z_unissued s) \<longrightarrow> distinct (z_unissued s')) \<and> z_heap s' = z_heap s"
proof -
  have mok: "m_id m = p" "macro_ok s m" using t m by (auto simp: tables_def)
  define s1 where "s1 = enter_rob now m s"
  have s1: "uop_at s1 = uop_at s" "macro_at s1 = (macro_at s)(p \<mapsto> m\<lparr>m_dispatch_tick := Some now\<rparr>)"
    by (simp_all add: s1_def enter_rob_def Let_def mok(1))
  have "\<forall>i\<in>set (m_uop_ids m). \<exists>u. uop_at s1 i = Some u \<and> u_id u = i"
    using mok(2) t by (fastforce simp: macro_ok_def tables_def s1)
  from dispatch_uops_eq [OF this, of now] obtain s2 where s2:
    "rfold (dispatch_uop now) (m_uop_ids m) s1 = Inr s2"
    "uop_at s2 = (\<lambda>i. if i \<in> set (m_uop_ids m) then map_option (u_dispatch_tick_update (\<lambda>_. Some now)) (uop_at s1 i)
        else uop_at s1 i)"
    "z_macros s2 = z_macros s1" "same_queues s1 s2" "same_issue s1 s2"
    "set (z_unissued s2) = set (z_unissued s1) \<union> set (m_uop_ids m)"
    "distinct (z_unissued s1) \<longrightarrow> distinct (z_unissued s2)"
    "z_heap s2 = z_heap s1" "z_vector_occupancy s2 = z_vector_occupancy s1" by blast
  have f: "z_unissued s1 = z_unissued s" "same_issue s s1" "z_heap s1 = z_heap s"
    by (simp_all add: s1_def enter_rob_def Let_def same_issue_def)
  have "same_static s s2"
    using m s2(3,5) f(2) unfolding same_static_def s2(2) s1
    by (auto simp: s1(2) same_issue_def same_lengths_def option.map_comp o_def)
  moreover define s' where "s' = s2\<lparr>z_next_dispatch := Suc (z_next_dispatch s2)\<rparr>"
  have "dispatch_macro now m s = Inr s'"
    using s2(1) by (simp add: dispatch_macro_def s1_def s'_def)
  moreover have "uop_at s' = (\<lambda>i. if i \<in> set (m_uop_ids m)
      then map_option (u_dispatch_tick_update (\<lambda>_. Some now)) (uop_at s i) else uop_at s i)"
    "macro_at s' = (macro_at s)(p \<mapsto> m\<lparr>m_dispatch_tick := Some now\<rparr>)"
    using s2(3) by (simp_all add: s'_def s2(2) s1 cong: if_cong)
  moreover have "z_rob s' = z_rob s @ [p]" "z_next_dispatch s' = Suc (z_next_dispatch s)"
    "z_rob_occupancy s' = z_rob_occupancy s + m_decoded_macro_ops m"
    "z_load_occupancy s' = z_load_occupancy s + of_bool (m_uses_load_queue m)"
    "z_store_occupancy s' = z_store_occupancy s + of_bool (m_uses_store_queue m)"
    "z_vector_occupancy s' = z_vector_occupancy s + of_bool (m_uses_vector_scheduler m)"
    using s2(4,9) mok(1) by (simp_all add: s'_def same_queues_def s1_def enter_rob_def Let_def)
  moreover have "same_issue s s'" "z_heap s' = z_heap s"
    "set (z_unissued s') = set (z_unissued s) \<union> set (m_uop_ids m)"
    "distinct (z_unissued s) \<longrightarrow> distinct (z_unissued s')"
    using s2(5-8) f by (simp_all add: s'_def same_issue_def)
  moreover have "same_static s s'"
    using \<open>same_static s s2\<close> by (simp add: s'_def same_static_def)
  ultimately show ?thesis by blast
qed

text \<open>Issue.\<close>

definition issued_at :: "zen4_state \<Rightarrow> string \<Rightarrow> bool" where
  "issued_at s i \<longleftrightarrow> (\<exists>u t. uop_at s i = Some u \<and> u_issue_tick u = Some t)"

definition is_vector :: "zen4_state \<Rightarrow> string \<Rightarrow> bool" where
  "is_vector s i \<longleftrightarrow> (\<exists>u. uop_at s i = Some u \<and> u_kind u \<in> set VECTOR_RESOURCE_KINDS)"

lemma all_issued_eq:
  "\<forall>i\<in>set is. uop_at s i \<noteq> None \<Longrightarrow> all_issued (z_uops s) is = Inr (\<forall>i\<in>set is. issued_at s i)"
  by (induction "is") (auto simp: fetch_def issued_at_def)

lemma other_part_issued_eq:
  "\<forall>i\<in>set is. uop_at s i \<noteq> None \<Longrightarrow>
     other_part_issued s x is = Inr (\<exists>i\<in>set is. i \<noteq> x \<and> is_vector s i \<and> issued_at s i)"
proof (induction "is")
  case (Cons j js)
  obtain y where y: "uop_at s j = Some y" using Cons.prems by auto
  then have "is_vector s j \<longleftrightarrow> u_kind y \<in> set VECTOR_RESOURCE_KINDS" "issued_at s j \<longleftrightarrow> u_issue_tick y \<noteq> None"
    by (auto simp: is_vector_def issued_at_def)
  then show ?case using Cons y by (auto simp: fetch_def)
qed simp

lemma update_groups_eq:
  assumes "tables e s"
  shows "\<exists>g. update_groups e u s = Inr (s\<lparr>z_pending_groups := g\<rparr>) \<and>
     (\<not> overlap_blocked e s u \<longrightarrow> e_overlap_enabled e \<longrightarrow>
        length (z_pending_groups s) \<le> nat (zp_overlap_max_pending (e_profile e)) \<longrightarrow>
        length g \<le> nat (zp_overlap_max_pending (e_profile e)))"
proof (cases "e_overlap_enabled e \<and> u_parent_id u \<in> set (keys (e_groups e))")
  case False
  then have "update_groups e u s = Inr (s\<lparr>z_pending_groups := z_pending_groups s\<rparr>)"
    by (auto simp: update_groups_def keys_map_of split: option.split)
  then show ?thesis by blast
next
  case True
  then obtain ids where ids: "map_of (e_groups e) (u_parent_id u) = Some ids" by (auto simp: keys_map_of)
  define s1 where "s1 = (if u_kind u = ''load_data'' \<and> u_parent_id u \<notin> set (z_pending_groups s)
      then s\<lparr>z_pending_groups := z_pending_groups s @ [u_parent_id u]\<rparr> else s)"
  have us: "\<forall>i\<in>set ids. uop_at s1 i \<noteq> None"
    using assms ids unfolding tables_def s1_def by auto
  have s1: "s1\<lparr>z_pending_groups := g\<rparr> = s\<lparr>z_pending_groups := g\<rparr>" for g by (simp add: s1_def)
  have s1': "s\<lparr>z_pending_groups := z_pending_groups s1\<rparr> = s1" by (simp add: s1_def)
  have bound: "length (z_pending_groups s1) \<le> nat (zp_overlap_max_pending (e_profile e))"
    if "\<not> overlap_blocked e s u" "length (z_pending_groups s) \<le> nat (zp_overlap_max_pending (e_profile e))"
    using that True by (auto simp: s1_def overlap_blocked_def)
  define g where "g = (if u_id u \<in> set ids \<and> (\<forall>i\<in>set ids. issued_at s1 i)
      then removeAll (u_parent_id u) (z_pending_groups s1) else z_pending_groups s1)"
  have "update_groups e u s = Inr (s\<lparr>z_pending_groups := g\<rparr>)"
    using True ids all_issued_eq [OF us]
    by (auto simp: update_groups_def Let_def s1_def [symmetric] g_def s1 s1')
  moreover have "length g \<le> length (z_pending_groups s1)"
    by (simp add: g_def)
  ultimately show ?thesis using bound le_trans by blast
qed

text \<open>
  \<open>issued_as\<close>: the uop record after issue; only a load takes its latency from the memory.
\<close>

definition issued_as :: "int \<Rightarrow> int \<Rightarrow> string \<Rightarrow> nat \<Rightarrow> execution_uop \<Rightarrow> execution_uop \<Rightarrow> bool" where
  "issued_as now ready r lane u v \<longleftrightarrow> strip_uop v = strip_uop u \<and> u_issue_tick v = Some now \<and>
     u_ready_tick v = Some ready \<and> u_resource v = Some r \<and> u_resource_lane v = Some lane \<and>
     u_dispatch_tick v = u_dispatch_tick u \<and> u_complete_tick v = u_complete_tick u \<and>
     (0 \<le> u_latency_ticks u \<longrightarrow> 0 \<le> u_latency_ticks v) \<and>
     (u_kind u \<noteq> ''load_data'' \<longrightarrow> u_latency_ticks v = u_latency_ticks u)"

lemma access_memory_eq:
  assumes u: "uop_at s i = Some v" "u_id v = i" and wf: "mem_wf (z_memory s)"
    and mem: "is_memory_kind (u_kind v) \<Longrightarrow> \<exists>m. u_memory v = Some m \<and> access_kind m \<and> grantable now (z_memory s) m"
  shows "\<exists>s' w. access_memory i now s = Inr s' \<and> uop_at s' = (uop_at s)(i \<mapsto> w) \<and>
     s' = s\<lparr>z_uops := z_uops s', z_memory := z_memory s'\<rparr> \<and> mem_wf (z_memory s') \<and>
     strip_uop w = strip_uop v \<and> u_issue_tick w = u_issue_tick v \<and> u_ready_tick w = u_ready_tick v \<and>
     u_resource w = u_resource v \<and> u_resource_lane w = u_resource_lane v \<and>
     u_dispatch_tick w = u_dispatch_tick v \<and> u_complete_tick w = u_complete_tick v \<and>
     (0 \<le> u_latency_ticks v \<longrightarrow> 0 \<le> u_latency_ticks w) \<and>
     (u_kind v \<noteq> ''load_data'' \<longrightarrow> u_latency_ticks w = u_latency_ticks v)"
proof (cases "is_memory_kind (u_kind v)")
  case False
  then have "access_memory i now s = Inr s" by (simp add: access_memory_def u(1) fetch_def)
  moreover have "uop_at s = (uop_at s)(i \<mapsto> v)" using u(1) by auto
  ultimately show ?thesis using wf by (intro exI [of _ s] exI [of _ v]) simp
next
  case True
  then obtain m where m: "u_memory v = Some m" "access_kind m" "grantable now (z_memory s) m"
    using mem by blast
  obtain h a where a: "access (z_memory s) (Some m) now = Inr (h, a)" "mem_wf h" "0 \<le> ma_latency_ticks a"
    using access_granted [OF m(3,2)] by blast
  define w where "w = (if u_kind v = ''load_data''
    then v\<lparr>u_memory_level := Some (ma_level a), u_latency_ticks := ma_latency_ticks a\<rparr>
    else v\<lparr>u_memory_level := Some (ma_level a)\<rparr>)"
  have "access_memory i now s = Inr (put_uop w (s\<lparr>z_memory := h\<rparr>))"
    using True by (simp add: access_memory_def u(1) fetch_def m(1) a(1) lift_mem_def w_def Let_def)
  moreover have "u_id w = i" by (simp add: w_def u(2))
  ultimately show ?thesis
    using a(2,3) by (intro exI [of _ "put_uop w (s\<lparr>z_memory := h\<rparr>)"] exI [of _ w])
      (auto simp: w_def put_uop_def)
qed

lemma issue_uop_eq:
  assumes t: "tables e s" and u: "uop_at s i = Some u" and wf: "mem_wf (z_memory s)"
    and un: "i \<in> set (z_unissued s)" and may: "may_issue e now s u"
  shows "\<exists>s' v ready r lane free m. issue_uop e u now s = Inr s' \<and>
     issued_as now ready r lane u v \<and> dependency_ready_tick s u = Inr ready \<and>
     uop_at s' = (uop_at s)(i \<mapsto> v) \<and> z_macros s' = z_macros s \<and> same_static s s' \<and> same_queues s s' \<and>
     mem_wf (z_memory s') \<and> z_unissued s' = remove1 i (z_unissued s) \<and>
     z_heap s' = heappush (now + u_latency_ticks v, u_sequence u, i) (z_heap s) \<and>
     r \<in> set (u_resource_choices u) \<and> map_of (z_resource_free s) r = Some free \<and> lane < length free \<and>
     free ! lane \<le> now \<and>
     z_resource_free s' = AList.update r (free[lane := now + u_occupancy_ticks u]) (z_resource_free s) \<and>
     z_last_class s' = AList.update (u_scheduling_class u) now (z_last_class s) \<and>
     macro_at s (u_parent_id u) = Some m \<and>
     z_vector_occupancy s' = z_vector_occupancy s -
       of_bool (u_kind u \<in> set VECTOR_RESOURCE_KINDS \<and>
         \<not> (\<exists>j\<in>set (m_uop_ids m). j \<noteq> i \<and> is_vector s j \<and> issued_at s j)) \<and>
     (e_overlap_enabled e \<longrightarrow>
        length (z_pending_groups s) \<le> nat (zp_overlap_max_pending (e_profile e)) \<longrightarrow>
        length (z_pending_groups s') \<le> nat (zp_overlap_max_pending (e_profile e)))"
proof -
  have id: "u_id u = i" and ok: "uop_ok s u" using t u by (auto simp: tables_def)
  obtain m where m: "macro_at s (u_parent_id u) = Some m" using ok by (auto simp: uop_ok_def)
  then have mus: "\<forall>j\<in>set (m_uop_ids m). uop_at s j \<noteq> None"
    using t by (fastforce simp: tables_def macro_ok_def)
  have ex: "lanes_exist s (u_resource_choices u)" using ok by (auto simp: uop_ok_def lanes_exist_def)
  obtain r lane free where sel: "select_resource s u now = Inr (r, lane)"
    "r \<in> set (u_resource_choices u)" "map_of (z_resource_free s) r = Some free" "lane < length free"
    "free ! lane \<le> now"
    using select_resource_eq [OF ex, of now] may unfolding may_issue_def by blast
  obtain ready where ready: "dependency_ready_tick s u = Inr ready"
    using zlookup_eq [of "u_dependencies u" s] ok by (auto simp: dependency_ready_tick_def uop_ok_def)
  define v where "v = u\<lparr>u_ready_tick := Some ready, u_issue_tick := Some now, u_resource := Some r,
    u_resource_lane := Some lane\<rparr>"
  define s3 where "s3 = put_uop v (put_uop (u\<lparr>u_ready_tick := Some ready, u_issue_tick := Some now\<rparr>) s
      \<lparr>z_unissued := remove1 i (z_unissued s)\<rparr>)"
  have s3: "uop_at s3 = (uop_at s)(i \<mapsto> v)" "u_id v = i" "z_memory s3 = z_memory s"
    by (simp_all add: s3_def v_def id)
  have mem: "is_memory_kind (u_kind v) \<Longrightarrow>
      \<exists>m. u_memory v = Some m \<and> access_kind m \<and> grantable now (z_memory s3) m"
    using may ok by (auto simp: may_issue_def uop_ok_def v_def s3(3))
  obtain s4 w where s4: "access_memory i now s3 = Inr s4" "uop_at s4 = (uop_at s3)(i \<mapsto> w)"
     "s4 = s3\<lparr>z_uops := z_uops s4, z_memory := z_memory s4\<rparr>" "mem_wf (z_memory s4)"
     and w: "strip_uop w = strip_uop v" "u_issue_tick w = u_issue_tick v" "u_ready_tick w = u_ready_tick v"
     "u_resource w = u_resource v" "u_resource_lane w = u_resource_lane v"
     "u_dispatch_tick w = u_dispatch_tick v" "u_complete_tick w = u_complete_tick v"
     "0 \<le> u_latency_ticks v \<longrightarrow> 0 \<le> u_latency_ticks w"
     "u_kind v \<noteq> ''load_data'' \<longrightarrow> u_latency_ticks w = u_latency_ticks v"
    using access_memory_eq [of s3 i v, OF _ s3(2) _ mem] s3 wf by auto
  have U4: "uop_at s4 = (uop_at s)(i \<mapsto> w)" by (simp add: s4(2) s3(1))
  have sv: "strip_uop v = strip_uop u" by (simp add: v_def)
  note keep = strip_uop_eqD [OF w(1) [unfolded sv]]
  have f4: "z_resource_free s4 = z_resource_free s" "z_domain_free s4 = z_domain_free s"
    "z_last_class s4 = z_last_class s" "z_macros s4 = z_macros s" "z_pending_groups s4 = z_pending_groups s"
    "z_unissued s4 = remove1 i (z_unissued s)" "z_heap s4 = z_heap s" "same_queues s s4"
    "z_vector_occupancy s4 = z_vector_occupancy s"
    unfolding same_queues_def by (subst s4(3), simp add: s3_def)+
  define s5 where "s5 = s4\<lparr>z_resource_free :=
    AList.update r (free[lane := now + u_occupancy_ticks u]) (z_resource_free s)\<rparr>"
  have s5: "occupy_lane r lane (now + u_occupancy_ticks u) s4 = Inr s5"
    using sel(3,4) by (simp add: occupy_lane_def f4(1) fetch_def s5_def)
  define s6 where "s6 = s5\<lparr>z_last_class := AList.update (u_scheduling_class u) now (z_last_class s5)\<rparr>"
  have dom: "distinct (u_issue_domains u)" "\<forall>d\<in>set (u_issue_domains u). token_free now s6 u d"
    using ok may by (auto simp: uop_ok_def may_issue_def token_free_def s6_def s5_def f4)
  obtain f where f: "reserve_issue_domains u now s6 = Inr (s6\<lparr>z_domain_free := f\<rparr>)"
    "same_lengths (z_domain_free s6) f"
    using reserve_domains_eq [OF dom] by (auto simp: reserve_issue_domains_def)
  define s7 where "s7 = s6\<lparr>z_domain_free := f\<rparr>"
  have U7: "uop_at s7 = (uop_at s)(i \<mapsto> w)" "z_macros s7 = z_macros s" "z_pending_groups s7 = z_pending_groups s"
    "z_memory s7 = z_memory s4"
    by (simp_all add: s7_def s6_def s5_def U4 f4)
  have st7: "same_static s s7"
  proof -
    have "same_lengths (z_resource_free s) (z_resource_free s7)"
      using same_lengths_update [OF sel(3)] by (simp add: s7_def s6_def s5_def)
    moreover have "same_lengths (z_domain_free s) (z_domain_free s7)"
      using f(2) by (simp add: s7_def s6_def s5_def f4)
    ultimately show ?thesis using u w(1) sv by (simp add: same_static_def U7)
  qed
  obtain g where g: "update_groups e u s7 = Inr (s7\<lparr>z_pending_groups := g\<rparr>)"
     "\<not> overlap_blocked e s7 u \<longrightarrow> e_overlap_enabled e \<longrightarrow>
        length (z_pending_groups s7) \<le> nat (zp_overlap_max_pending (e_profile e)) \<longrightarrow>
        length g \<le> nat (zp_overlap_max_pending (e_profile e))"
    using update_groups_eq [OF tables_static [OF t st7], of u] by blast
  define s8 where "s8 = s7\<lparr>z_pending_groups := g\<rparr>"
  have g2: "overlap_blocked e s7 u = overlap_blocked e s u" by (simp add: overlap_blocked_def U7)
  let ?dec = "u_kind u \<in> set VECTOR_RESOURCE_KINDS \<and>
      \<not> (\<exists>j\<in>set (m_uop_ids m). j \<noteq> i \<and> is_vector s j \<and> issued_at s j)"
  define s9 where "s9 = s8\<lparr>z_vector_occupancy := z_vector_occupancy s - of_bool ?dec\<rparr>"
  have others: "\<forall>j\<in>set (m_uop_ids m). uop_at s8 j \<noteq> None" "z_macros s8 = z_macros s"
    "z_vector_occupancy s8 = z_vector_occupancy s"
    "\<And>j. j \<noteq> i \<Longrightarrow> is_vector s8 j = is_vector s j \<and> issued_at s8 j = issued_at s j"
  proof -
    have U8: "uop_at s8 = (uop_at s)(i \<mapsto> w)" by (simp add: s8_def U7)
    show "\<forall>j\<in>set (m_uop_ids m). uop_at s8 j \<noteq> None" using mus by (simp add: U8)
    show "j \<noteq> i \<Longrightarrow> is_vector s8 j = is_vector s j \<and> issued_at s8 j = issued_at s j" for j
      by (simp add: is_vector_def issued_at_def U8)
  qed (simp_all add: s8_def U7 s7_def s6_def s5_def f4)
  have "(\<exists>j\<in>set (m_uop_ids m). j \<noteq> i \<and> is_vector s8 j \<and> issued_at s8 j) \<longleftrightarrow>
      (\<exists>j\<in>set (m_uop_ids m). j \<noteq> i \<and> is_vector s j \<and> issued_at s j)"
    using others(4) by metis
  then have s9: "free_vector_scheduler u s8 = Inr s9"
    using m others(2,3) other_part_issued_eq [OF others(1), of i]
    by (auto simp: free_vector_scheduler_def fetch_def id s9_def)
  have U9: "uop_at s9 = (uop_at s)(i \<mapsto> w)" by (simp add: s9_def s8_def U7)
  define s10 where "s10 = schedule_completion now ready w s9"
  define s' where "s' = (if e_in_order e then s10\<lparr>z_issue_index := Suc (z_issue_index s10)\<rparr> else s10)"
  have eq: "issue_uop e u now s = Inr s'"
    using sel(1) ready un id s4(1) s5 f(1) g(1) s9 U9
    by (simp add: issue_uop_def v_def [symmetric] s3_def [symmetric] s6_def [symmetric] s7_def [symmetric]
        s8_def [symmetric] s10_def [symmetric] s'_def Let_def fetch_def)
  have fields: "uop_at s' = (uop_at s)(i \<mapsto> w)" "z_macros s' = z_macros s"
    "z_memory s' = z_memory s4" "z_unissued s' = remove1 i (z_unissued s)"
    "z_heap s' = heappush (now + u_latency_ticks w, u_sequence u, i) (z_heap s)"
    "z_resource_free s' = AList.update r (free[lane := now + u_occupancy_ticks u]) (z_resource_free s)"
    "z_last_class s' = AList.update (u_scheduling_class u) now (z_last_class s)"
    "z_vector_occupancy s' = z_vector_occupancy s - of_bool ?dec"
    "z_pending_groups s' = g" "z_domain_free s' = f"
    by (simp_all add: s'_def s10_def schedule_completion_def U4 s9_def s8_def s7_def s6_def s5_def f4 keep id)
  have "same_queues s s'"
    using f4(8) by (simp add: same_queues_def s'_def s10_def schedule_completion_def s9_def s8_def s7_def s6_def s5_def)
  moreover have "same_static s s'"
    using st7 by (simp add: same_static_def fields U7 s7_def s6_def s5_def U4)
  moreover have "issued_as now ready r lane u w"
    using w sv by (simp add: issued_as_def v_def)
  moreover have "e_overlap_enabled e \<longrightarrow>
        length (z_pending_groups s) \<le> nat (zp_overlap_max_pending (e_profile e)) \<longrightarrow>
        length (z_pending_groups s') \<le> nat (zp_overlap_max_pending (e_profile e))"
    using g(2) may by (simp add: g2 U7 fields may_issue_def)
  ultimately show ?thesis
    using eq ready fields(1,2,4-8) s4(4) [folded fields(3)] sel(2-5) m by blast
qed

end
