(* ===== verification/Zen4Invariants.thy ===== *)
theory Zen4Invariants
  imports Zen4Steps
begin

text \<open>
  The step relation of the Zen 4 engine, its invariant \<open>zinv\<close> and the proof that every step
  keeps it.
\<close>

section \<open>Steps\<close>

inductive zstep :: "zen4_env \<Rightarrow> int \<times> zen4_state \<Rightarrow> int \<times> zen4_state \<Rightarrow> bool" for e where
  Complete: "z_heap s = (t, q, i) # rest \<Longrightarrow> t \<le> now \<Longrightarrow> uop_at s i = Some u \<Longrightarrow>
     u_complete_tick u = None \<Longrightarrow> complete_uop t u (s\<lparr>z_heap := rest\<rparr>) = Inr s' \<Longrightarrow>
     zstep e (now, s) (now, s')"
| Dispatch: "z_next_dispatch s < length (e_macro_order e) \<Longrightarrow>
     macro_at s (e_macro_order e ! z_next_dispatch s) = Some m \<Longrightarrow>
     dispatch_blocker e s m = None \<Longrightarrow> dispatch_macro now m s = Inr s' \<Longrightarrow>
     zstep e (now, s) (now, s')"
| Probe: "mem_wf h \<Longrightarrow> zstep e (now, s) (now, s\<lparr>z_memory := h\<rparr>)"
| Stall: "uop_at s i = Some u \<Longrightarrow> zstep e (now, s) (now, note_stall r u s)"
| Issue: "i \<in> set (z_unissued s) \<Longrightarrow> uop_at s i = Some u \<Longrightarrow> may_issue e now s u \<Longrightarrow>
     issue_uop e u now s = Inr s' \<Longrightarrow> zstep e (now, s) (now, s')"
| Retire: "z_rob s = i # rest \<Longrightarrow> macro_at s i = Some m \<Longrightarrow> m_complete_tick m = Some c \<Longrightarrow>
     c \<le> now \<Longrightarrow> zstep e (now, s) (now, leave_rob now m rest s)"
| Count: "zstep e (now, s) (now, s\<lparr>z_stalls := d, z_peaks := p\<rparr>)"
| Advance: "now < now' \<Longrightarrow> zstep e (now, s) (now', s)"

inductive_cases zstepE: "zstep e x y"

section \<open>The invariant\<close>

text \<open>Program order: the reorder buffer is the window of the dispatched, unretired macro-ops.\<close>

definition rob_inv :: "zen4_env \<Rightarrow> zen4_state \<Rightarrow> bool" where
  "rob_inv e s \<longleftrightarrow> z_next_dispatch s \<le> length (e_macro_order e) \<and>
     (\<exists>k\<le>z_next_dispatch s. z_rob s = drop k (take (z_next_dispatch s) (e_macro_order e)) \<and>
        (\<forall>j<length (e_macro_order e). \<forall>m. macro_at s (e_macro_order e ! j) = Some m \<longrightarrow>
           (m_dispatch_tick m \<noteq> None \<longleftrightarrow> j < z_next_dispatch s) \<and>
           (m_retire_tick m \<noteq> None \<longleftrightarrow> j < k)))"

text \<open>Occupancies are sums over the reorder buffer.\<close>

definition rob_sum :: "zen4_state \<Rightarrow> (macro_op \<Rightarrow> int) \<Rightarrow> int" where
  "rob_sum s f = sum_list (map (\<lambda>i. case macro_at s i of None \<Rightarrow> 0 | Some m \<Rightarrow> f m) (z_rob s))"

definition vector_waiting :: "zen4_state \<Rightarrow> macro_op \<Rightarrow> bool" where
  "vector_waiting s m \<longleftrightarrow> m_dispatch_tick m \<noteq> None \<and> m_uses_vector_scheduler m \<and>
     \<not> (\<exists>i\<in>set (m_uop_ids m). is_vector s i \<and> issued_at s i)"

definition vector_sum :: "zen4_env \<Rightarrow> zen4_state \<Rightarrow> int" where
  "vector_sum e s = sum_list (map (\<lambda>i. case macro_at s i of None \<Rightarrow> 0
     | Some m \<Rightarrow> of_bool (vector_waiting s m)) (e_macro_order e))"

definition occupancy_inv :: "zen4_env \<Rightarrow> zen4_state \<Rightarrow> bool" where
  "occupancy_inv e s \<longleftrightarrow>
     z_rob_occupancy s = rob_sum s m_decoded_macro_ops \<and>
     z_load_occupancy s = rob_sum s (\<lambda>m. of_bool (m_uses_load_queue m)) \<and>
     z_store_occupancy s = rob_sum s (\<lambda>m. of_bool (m_uses_store_queue m)) \<and>
     z_vector_occupancy s = vector_sum e s \<and>
     z_rob_occupancy s \<le> max 0 (zp_rob_entries (e_profile e)) \<and>
     z_vector_occupancy s \<le> max 0 (zp_vector_scheduler_entries (e_profile e)) \<and>
     z_load_occupancy s \<le> max 0 (zp_load_queue_entries (e_profile e)) \<and>
     z_store_occupancy s \<le> max 0 (zp_store_queue_entries (e_profile e))"

text \<open>The life of a uop: dispatched, ready, issued, complete, each at its tick.\<close>

definition deps_done :: "zen4_state \<Rightarrow> execution_uop \<Rightarrow> int \<Rightarrow> bool" where
  "deps_done s u r \<longleftrightarrow> (\<forall>d\<in>set (u_dependencies u). \<exists>y c. uop_at s d = Some y \<and>
     u_complete_tick y = Some c \<and> c \<le> r)"

definition after_done :: "zen4_state \<Rightarrow> execution_uop \<Rightarrow> int \<Rightarrow> bool" where
  "after_done s u t \<longleftrightarrow> (\<forall>p. truthy (u_issue_after_uop u) = Some p \<longrightarrow>
     (\<exists>v t'. uop_at s p = Some v \<and> u_issue_tick v = Some t' \<and> t' + u_issue_gap_ticks u \<le> t))"

definition uop_live :: "int \<Rightarrow> zen4_state \<Rightarrow> string \<Rightarrow> execution_uop \<Rightarrow> bool" where
  "uop_live now s i u \<longleftrightarrow>
     0 \<le> u_latency_ticks u \<and>
     (\<forall>d. u_dispatch_tick u = Some d \<longrightarrow> 0 \<le> d \<and> d \<le> now) \<and>
     (i \<in> set (z_unissued s) \<longleftrightarrow> u_dispatch_tick u \<noteq> None \<and> u_issue_tick u = None) \<and>
     (case u_issue_tick u of None \<Rightarrow> u_complete_tick u = None
      | Some t \<Rightarrow> t \<le> now \<and>
         (\<exists>d r. u_dispatch_tick u = Some d \<and> u_ready_tick u = Some r \<and> d \<le> r \<and> r \<le> t \<and>
            deps_done s u r) \<and> after_done s u t \<and>
         (\<forall>c. u_complete_tick u = Some c \<longrightarrow> c = t + u_latency_ticks u \<and> c \<le> now))"

definition life_inv :: "int \<Rightarrow> zen4_state \<Rightarrow> bool" where
  "life_inv now s \<longleftrightarrow> 0 \<le> now \<and> distinct (z_unissued s) \<and>
     (\<forall>i u. uop_at s i = Some u \<longrightarrow> uop_live now s i u) \<and>
     (\<forall>i u m. uop_at s i = Some u \<longrightarrow> macro_at s (u_parent_id u) = Some m \<longrightarrow>
        u_dispatch_tick u = m_dispatch_tick m)"

text \<open>The completion heap holds exactly the uops in flight.\<close>

definition in_flight :: "zen4_state \<Rightarrow> int \<times> int \<times> string \<Rightarrow> bool" where
  "in_flight s x \<longleftrightarrow> (case x of (t, q, i) \<Rightarrow> \<exists>u ti. uop_at s i = Some u \<and> u_issue_tick u = Some ti \<and>
     u_complete_tick u = None \<and> t = ti + u_latency_ticks u \<and> q = u_sequence u)"

definition heap_inv :: "zen4_state \<Rightarrow> bool" where
  "heap_inv s \<longleftrightarrow> sorted (z_heap s) \<and> distinct (z_heap s) \<and> (\<forall>x. x \<in> set (z_heap s) \<longleftrightarrow> in_flight s x)"

text \<open>A macro-op is complete when its last uop is, and retires in order, no earlier than that.\<close>

definition macro_live :: "int \<Rightarrow> zen4_state \<Rightarrow> macro_op \<Rightarrow> bool" where
  "macro_live now s m \<longleftrightarrow>
     m_complete_tick m = (if \<forall>i\<in>set (m_uop_ids m). done_at s i
       then Some (Max (complete_at s ` set (m_uop_ids m))) else None) \<and>
     (\<forall>r. m_retire_tick m = Some r \<longrightarrow> r \<le> now \<and> (\<exists>c. m_complete_tick m = Some c \<and> c \<le> r))"

definition macro_inv :: "zen4_env \<Rightarrow> int \<Rightarrow> zen4_state \<Rightarrow> bool" where
  "macro_inv e now s \<longleftrightarrow>
     (\<forall>i m. macro_at s i = Some m \<longrightarrow> macro_live now s m) \<and>
     (\<forall>a b m n r r'. a < b \<longrightarrow> b < length (e_macro_order e) \<longrightarrow>
        macro_at s (e_macro_order e ! a) = Some m \<longrightarrow> macro_at s (e_macro_order e ! b) = Some n \<longrightarrow>
        m_retire_tick m = Some r \<longrightarrow> m_retire_tick n = Some r' \<longrightarrow> r \<le> r')"

text \<open>Lanes and scheduling classes: an issued uop holds its lane until it is free again.\<close>

definition lane_of :: "execution_uop \<Rightarrow> (string \<times> nat) option" where
  "lane_of u = (case (u_resource u, u_resource_lane u) of (Some r, Some l) \<Rightarrow> Some (r, l) | _ \<Rightarrow> None)"

definition lane_inv :: "int \<Rightarrow> zen4_state \<Rightarrow> bool" where
  "lane_inv now s \<longleftrightarrow>
     (\<forall>i u t. uop_at s i = Some u \<longrightarrow> u_issue_tick u = Some t \<longrightarrow>
        (\<exists>r l free. lane_of u = Some (r, l) \<and> r \<in> set (u_resource_choices u) \<and>
           map_of (z_resource_free s) r = Some free \<and> l < length free \<and>
           t + u_occupancy_ticks u \<le> free ! l) \<and>
        (\<exists>t'. map_of (z_last_class s) (u_scheduling_class u) = Some t' \<and> t \<le> t')) \<and>
     (\<forall>c t. map_of (z_last_class s) c = Some t \<longrightarrow> t \<le> now) \<and>
     (\<forall>i j u v t t'. i \<noteq> j \<longrightarrow> uop_at s i = Some u \<longrightarrow> uop_at s j = Some v \<longrightarrow>
        u_issue_tick u = Some t \<longrightarrow> u_issue_tick v = Some t' \<longrightarrow>
        (lane_of u = lane_of v \<longrightarrow> t + u_occupancy_ticks u \<le> t' \<or> t' + u_occupancy_ticks v \<le> t) \<and>
        (u_scheduling_class u = u_scheduling_class v \<longrightarrow>
           t + u_issue_interval_ticks v \<le> t' \<or> t' + u_issue_interval_ticks u \<le> t))"

definition overlap_inv :: "zen4_env \<Rightarrow> zen4_state \<Rightarrow> bool" where
  "overlap_inv e s \<longleftrightarrow> (e_overlap_enabled e \<longrightarrow>
     length (z_pending_groups s) \<le> nat (zp_overlap_max_pending (e_profile e)))"

definition zinv :: "zen4_env \<Rightarrow> int \<times> zen4_state \<Rightarrow> bool" where
  "zinv e ns \<longleftrightarrow> (case ns of (now, s) \<Rightarrow> tables e s \<and> mem_wf (z_memory s) \<and> rob_inv e s \<and>
     occupancy_inv e s \<and> life_inv now s \<and> heap_inv s \<and> macro_inv e now s \<and> lane_inv now s \<and>
     overlap_inv e s)"

section \<open>Steps that only annotate or complete uops\<close>

text \<open>
  \<open>same_view s s'\<close>: the two states differ at most in completion ticks, stall records, the heap,
  the memory, the counters and the event log.
\<close>

definition view_uop :: "execution_uop \<Rightarrow> execution_uop" where
  "view_uop u = u\<lparr>u_complete_tick := None, u_stall_reason := None, u_stall_reasons := []\<rparr>"

definition view_macro :: "macro_op \<Rightarrow> macro_op" where
  "view_macro m = m\<lparr>m_complete_tick := None\<rparr>"

definition same_view :: "zen4_state \<Rightarrow> zen4_state \<Rightarrow> bool" where
  "same_view s s' \<longleftrightarrow>
     (\<forall>i. map_option view_uop (uop_at s' i) = map_option view_uop (uop_at s i)) \<and>
     (\<forall>i. map_option view_macro (macro_at s' i) = map_option view_macro (macro_at s i)) \<and>
     same_queues s s' \<and> z_vector_occupancy s' = z_vector_occupancy s \<and>
     z_unissued s' = z_unissued s \<and> z_resource_free s' = z_resource_free s \<and>
     z_last_class s' = z_last_class s \<and> z_pending_groups s' = z_pending_groups s"

lemma view_uop_eqD:
  assumes "view_uop u = view_uop v"
  shows "strip_uop u = strip_uop v" "u_issue_tick u = u_issue_tick v" "u_ready_tick u = u_ready_tick v"
    "u_dispatch_tick u = u_dispatch_tick v" "lane_of u = lane_of v" "u_latency_ticks u = u_latency_ticks v"
  using assms by (cases u; cases v; simp add: view_uop_def strip_uop_def lane_of_def)+

lemma view_macro_eqD:
  assumes "view_macro m = view_macro n"
  shows "strip_macro m = strip_macro n" "m_dispatch_tick m = m_dispatch_tick n"
    "m_retire_tick m = m_retire_tick n"
  using assms by (cases m; cases n; simp add: view_macro_def strip_macro_def)+

lemma same_view_uop:
  "same_view s s' \<Longrightarrow> uop_at s' i = Some v \<Longrightarrow> \<exists>u. uop_at s i = Some u \<and> view_uop v = view_uop u"
  unfolding same_view_def by (metis map_option_eq_SomeD)

lemma same_view_uop':
  "same_view s s' \<Longrightarrow> uop_at s i = Some u \<Longrightarrow> \<exists>v. uop_at s' i = Some v \<and> view_uop v = view_uop u"
  unfolding same_view_def by (metis map_option_eq_SomeD)

lemma same_view_macro:
  "same_view s s' \<Longrightarrow> macro_at s' i = Some n \<Longrightarrow> \<exists>m. macro_at s i = Some m \<and> view_macro n = view_macro m"
  unfolding same_view_def by (metis map_option_eq_SomeD)

lemma same_view_macro':
  "same_view s s' \<Longrightarrow> macro_at s i = Some m \<Longrightarrow> \<exists>n. macro_at s' i = Some n \<and> view_macro n = view_macro m"
  unfolding same_view_def by (metis map_option_eq_SomeD)

lemma same_view_marks:
  assumes "same_view s s'"
  shows "is_vector s' i = is_vector s i" "issued_at s' i = issued_at s i"
proof -
  have "(is_vector s' i \<longleftrightarrow> is_vector s i) \<and> (issued_at s' i \<longleftrightarrow> issued_at s i)"
  proof (cases "uop_at s i")
    case None
    then show ?thesis using same_view_uop [OF assms, of i]
      by (cases "uop_at s' i") (auto simp: is_vector_def issued_at_def)
  next
    case (Some u)
    obtain w where w: "uop_at s' i = Some w" "view_uop w = view_uop u"
      using same_view_uop' [OF assms Some] by blast
    show ?thesis using Some w(1) view_uop_eqD(2) [OF w(2)] strip_uop_eqD(4) [OF view_uop_eqD(1) [OF w(2)]]
      by (simp add: is_vector_def issued_at_def)
  qed
  then show "is_vector s' i = is_vector s i" "issued_at s' i = issued_at s i" by auto
qed

lemma rob_inv_view:
  assumes v: "same_view s s'" and "rob_inv e s"
  shows "rob_inv e s'"
proof -
  have q: "z_rob s' = z_rob s" "z_next_dispatch s' = z_next_dispatch s"
    using v by (auto simp: same_view_def same_queues_def)
  obtain k where k: "k \<le> z_next_dispatch s" "z_rob s = drop k (take (z_next_dispatch s) (e_macro_order e))"
    "\<And>j m. j < length (e_macro_order e) \<Longrightarrow> macro_at s (e_macro_order e ! j) = Some m \<Longrightarrow>
       (m_dispatch_tick m \<noteq> None \<longleftrightarrow> j < z_next_dispatch s) \<and> (m_retire_tick m \<noteq> None \<longleftrightarrow> j < k)"
    using assms(2) by (auto simp: rob_inv_def)
  have "(m_dispatch_tick n \<noteq> None \<longleftrightarrow> j < z_next_dispatch s) \<and> (m_retire_tick n \<noteq> None \<longleftrightarrow> j < k)"
    if "j < length (e_macro_order e)" "macro_at s' (e_macro_order e ! j) = Some n" for j n
    using same_view_macro [OF v that(2)] k(3) [OF that(1)] view_macro_eqD by metis
  then show ?thesis using k(1,2) assms(2) unfolding rob_inv_def q by blast
qed

lemma macro_sum_view:
  assumes v: "same_view s s'"
    and f: "\<And>m n. view_macro n = view_macro m \<Longrightarrow> f' n = f m"
  shows "(case macro_at s' i of None \<Rightarrow> 0 | Some m \<Rightarrow> f' m) = (case macro_at s i of None \<Rightarrow> 0 | Some m \<Rightarrow> f m)"
proof (cases "macro_at s' i")
  case None
  then show ?thesis using same_view_macro' [OF v, of i] by (cases "macro_at s i") auto
next
  case (Some n)
  then obtain m where "macro_at s i = Some m" "view_macro n = view_macro m"
    using same_view_macro [OF v Some] by blast
  with Some f [of n m] show ?thesis by simp
qed

lemma occupancy_view:
  assumes v: "same_view s s'" and inv: "occupancy_inv e s"
  shows "occupancy_inv e s'"
proof -
  have q: "z_rob s' = z_rob s" "z_rob_occupancy s' = z_rob_occupancy s"
    "z_load_occupancy s' = z_load_occupancy s" "z_store_occupancy s' = z_store_occupancy s"
    "z_vector_occupancy s' = z_vector_occupancy s"
    using v by (auto simp: same_view_def same_queues_def)
  have sums: "rob_sum s' f = rob_sum s f" if "\<And>m n. strip_macro n = strip_macro m \<Longrightarrow> f n = f m" for f
  proof -
    have "(case macro_at s' i of None \<Rightarrow> 0 | Some m \<Rightarrow> f m) = (case macro_at s i of None \<Rightarrow> 0 | Some m \<Rightarrow> f m)"
      for i
      by (rule macro_sum_view [OF v]) (rule that, rule view_macro_eqD(1))
    then show ?thesis by (simp only: rob_sum_def q(1))
  qed
  have wait: "vector_waiting s' n = vector_waiting s m" if "view_macro n = view_macro m" for m n
    using view_macro_eqD [OF that] strip_macro_eqD [OF view_macro_eqD(1) [OF that]]
    by (simp add: vector_waiting_def same_view_marks [OF v])
  have "(case macro_at s' i of None \<Rightarrow> 0 :: int | Some m \<Rightarrow> of_bool (vector_waiting s' m)) =
      (case macro_at s i of None \<Rightarrow> 0 | Some m \<Rightarrow> of_bool (vector_waiting s m))" for i
    by (rule macro_sum_view [OF v]) (simp only: wait)
  then have "vector_sum e s' = vector_sum e s" by (simp only: vector_sum_def)
  moreover have "rob_sum s' m_decoded_macro_ops = rob_sum s m_decoded_macro_ops"
    "rob_sum s' (\<lambda>m. of_bool (m_uses_load_queue m)) = rob_sum s (\<lambda>m. of_bool (m_uses_load_queue m))"
    "rob_sum s' (\<lambda>m. of_bool (m_uses_store_queue m)) = rob_sum s (\<lambda>m. of_bool (m_uses_store_queue m))"
    by (rule sums, drule strip_macro_eqD(3), simp, rule sums, drule strip_macro_eqD(6), simp,
        rule sums, drule strip_macro_eqD(7), simp)
  ultimately show ?thesis using inv by (simp add: occupancy_inv_def q)
qed

lemma lane_inv_view:
  assumes v: "same_view s s'" and inv: "lane_inv now s"
  shows "lane_inv now s'"
proof -
  have q: "z_resource_free s' = z_resource_free s" "z_last_class s' = z_last_class s"
    using v by (auto simp: same_view_def)
  have old: "\<exists>u. uop_at s i = Some u \<and> u_issue_tick u = u_issue_tick w \<and> lane_of u = lane_of w \<and>
      u_resource_choices u = u_resource_choices w \<and> u_occupancy_ticks u = u_occupancy_ticks w \<and>
      u_scheduling_class u = u_scheduling_class w \<and> u_issue_interval_ticks u = u_issue_interval_ticks w"
    if w: "uop_at s' i = Some w" for i w
  proof -
    obtain u where u: "uop_at s i = Some u" "view_uop w = view_uop u" using same_view_uop [OF v w] by blast
    note d = view_uop_eqD [OF u(2)]
    from strip_uop_eqD [OF d(1)] d u(1) show ?thesis by simp
  qed
  show ?thesis
    unfolding lane_inv_def q
  proof (intro conjI allI impI, goal_cases)
    case (1 i w t)
    then show ?case using old [OF 1(1)] inv unfolding lane_inv_def by metis
  next
    case (2 i w t)
    then show ?case using old [OF 2(1)] inv unfolding lane_inv_def by metis
  next
    case (3 c t)
    then show ?case using inv by (simp add: lane_inv_def)
  next
    case (4 i j u v t t')
    then show ?case using old [OF 4(2)] old [OF 4(3)] inv unfolding lane_inv_def by metis
  next
    case (5 i j u v t t')
    then show ?case using old [OF 5(2)] old [OF 5(3)] inv unfolding lane_inv_def by metis
  qed
qed

text \<open>Completed and issued uops stay so; what earlier uops relied on stays true.\<close>

definition progress :: "zen4_state \<Rightarrow> zen4_state \<Rightarrow> bool" where
  "progress s s' \<longleftrightarrow> (\<forall>i u. uop_at s i = Some u \<longrightarrow> (\<exists>u'. uop_at s' i = Some u' \<and>
     (\<forall>t. u_issue_tick u = Some t \<longrightarrow> u_issue_tick u' = Some t) \<and>
     (\<forall>c. u_complete_tick u = Some c \<longrightarrow> u_complete_tick u' = Some c)))"

lemma deps_done_progress: "progress s s' \<Longrightarrow> deps_done s u r \<Longrightarrow> deps_done s' u r"
  unfolding deps_done_def progress_def by meson

lemma after_done_progress: "progress s s' \<Longrightarrow> after_done s u t \<Longrightarrow> after_done s' u t"
  unfolding after_done_def progress_def by meson

lemma deps_done_cong: "u_dependencies v = u_dependencies u \<Longrightarrow> deps_done s v r = deps_done s u r"
  by (simp add: deps_done_def)

lemma after_done_cong:
  "u_issue_after_uop v = u_issue_after_uop u \<Longrightarrow> u_issue_gap_ticks v = u_issue_gap_ticks u \<Longrightarrow>
     after_done s v t = after_done s u t"
  by (simp add: after_done_def)

lemma uop_live_progress:
  assumes "uop_live now s i u" and p: "progress s s'" and "now \<le> now'"
    and "i \<in> set (z_unissued s') \<longleftrightarrow> i \<in> set (z_unissued s)"
  shows "uop_live now' s' i u"
proof -
  note mono = deps_done_progress [OF p] after_done_progress [OF p]
  show ?thesis
  proof (cases "u_issue_tick u")
    case None
    then show ?thesis using assms by (auto simp: uop_live_def)
  next
    case (Some t)
    then show ?thesis using assms(1,3,4) mono
      unfolding uop_live_def by (auto intro: order.trans)
  qed
qed

lemma heap_inv_view:
  assumes v: "same_view s s'" and same: "\<And>i u v. uop_at s i = Some u \<Longrightarrow> uop_at s' i = Some v \<Longrightarrow>
      u_complete_tick v = u_complete_tick u"
    and "z_heap s' = z_heap s" and "heap_inv s"
  shows "heap_inv s'"
proof -
  have "in_flight s' (t, q, i) = in_flight s (t, q, i)" for t q i
  proof (cases "uop_at s i")
    case None
    then show ?thesis using same_view_uop [OF v, of i] by (cases "uop_at s' i") (auto simp: in_flight_def)
  next
    case (Some u)
    obtain w where w: "uop_at s' i = Some w" "view_uop w = view_uop u"
      using same_view_uop' [OF v Some] by blast
    then show ?thesis
      using Some view_uop_eqD [OF w(2)] strip_uop_eqD(2) [OF view_uop_eqD(1) [OF w(2)]] same [OF Some w(1)]
      by (simp add: in_flight_def)
  qed
  then have "in_flight s' x = in_flight s x" for x by (cases x) auto
  then show ?thesis using assms(3,4) by (simp add: heap_inv_def)
qed

section \<open>Completion keeps the invariant\<close>

lemma tables_frame:
  "tables e s \<Longrightarrow> z_uops s' = z_uops s \<Longrightarrow> z_macros s' = z_macros s \<Longrightarrow>
     z_resource_free s' = z_resource_free s \<Longrightarrow> z_domain_free s' = z_domain_free s \<Longrightarrow> tables e s'"
  by (rule tables_static) (auto simp: same_static_def same_lengths_def)

lemma parent_unique:
  assumes t: "tables e s" and "macro_at s p = Some m" "macro_at s p' = Some n"
    and "i \<in> set (m_uop_ids m)" "i \<in> set (m_uop_ids n)"
  shows "p = p'"
proof -
  have "m_id m = p" "m_id n = p'" "macro_ok s m" "macro_ok s n" using t assms(2,3) by (auto simp: tables_def)
  then show ?thesis using assms(4,5) unfolding macro_ok_def by (metis option.inject)
qed

lemma macro_order_cong:
  assumes inv: "macro_inv e now s"
    and old: "\<And>p n. macro_at s' p = Some n \<Longrightarrow> \<exists>m. macro_at s p = Some m \<and> m_retire_tick m = m_retire_tick n"
    and ab: "a < b" "b < length (e_macro_order e)" and m: "macro_at s' (e_macro_order e ! a) = Some m"
    and n: "macro_at s' (e_macro_order e ! b) = Some n"
    and r: "m_retire_tick m = Some r" "m_retire_tick n = Some r'"
  shows "r \<le> r'"
proof -
  obtain m0 n0 where "macro_at s (e_macro_order e ! a) = Some m0" "m_retire_tick m0 = Some r"
    "macro_at s (e_macro_order e ! b) = Some n0" "m_retire_tick n0 = Some r'"
    using old [OF m] old [OF n] r by auto
  then show ?thesis using inv ab unfolding macro_inv_def by blast
qed

lemma macro_live_cong:
  assumes "\<And>i. i \<in> set (m_uop_ids m) \<Longrightarrow> done_at s' i = done_at s i \<and> complete_at s' i = complete_at s i"
  shows "macro_live now s' m = macro_live now s m"
proof -
  have "(\<forall>i\<in>set (m_uop_ids m). done_at s' i) = (\<forall>i\<in>set (m_uop_ids m). done_at s i)"
    using assms by blast
  moreover have "complete_at s' ` set (m_uop_ids m) = complete_at s ` set (m_uop_ids m)"
    using assms by (intro image_cong) auto
  ultimately show ?thesis by (simp only: macro_live_def)
qed

lemma complete_keeps:
  assumes inv: "zinv e (now, s)" and heap: "z_heap s = (t, q, i) # rest" and due: "t \<le> now"
    and u: "uop_at s i = Some u" "u_complete_tick u = None"
    and run: "complete_uop t u (s\<lparr>z_heap := rest\<rparr>) = Inr s'"
  shows "zinv e (now, s')"
proof -
  let ?s = "s\<lparr>z_heap := rest\<rparr>"
  have tab: "tables e s" and wf: "mem_wf (z_memory s)" and rob: "rob_inv e s" and occ: "occupancy_inv e s"
    and life: "life_inv now s" and hp: "heap_inv s" and mac: "macro_inv e now s" and lane: "lane_inv now s"
    and ov: "overlap_inv e s"
    using inv by (auto simp: zinv_def)
  have tab': "tables e ?s" by (rule tables_frame [OF tab]) simp_all
  let ?v = "u\<lparr>u_complete_tick := Some t\<rparr>"
  obtain m where eff: "macro_at s (u_parent_id u) = Some m" "i \<in> set (m_uop_ids m)"
     "uop_at s' = (uop_at s)(i \<mapsto> ?v)"
     "macro_at s' = (if \<forall>j\<in>set (m_uop_ids m). done_at s' j
       then (macro_at s)(u_parent_id u \<mapsto> m\<lparr>m_complete_tick := Some (Max (complete_at s' ` set (m_uop_ids m)))\<rparr>)
       else macro_at s)"
     "same_static ?s s'" "same_queues ?s s'" "same_issue ?s s'" "z_unissued s' = z_unissued s"
     "z_heap s' = rest" "z_vector_occupancy s' = z_vector_occupancy s"
    using complete_uop_eq [OF tab', of i u t] u(1) run by auto
  have tabs': "tables e s'" by (rule tables_static [OF tab' eff(5)])
  have view: "same_view s s'"
    using eff u by (auto simp: same_view_def view_uop_def view_macro_def same_queues_def same_issue_def)
  have "(t, q, i) \<in> set (z_heap s)" using heap by simp
  then obtain ti where ti: "u_issue_tick u = Some ti" "t = ti + u_latency_ticks u" "q = u_sequence u"
    using hp u(1) by (auto simp: heap_inv_def in_flight_def)
  have prog: "progress s s'" using u by (auto simp: progress_def eff(3))
  have "life_inv now s'"
  proof -
    have "uop_live now s' j w" if w: "uop_at s' j = Some w" for j w
    proof (cases "j = i")
      case True
      then have w: "w = ?v" using w by (simp add: eff(3))
      have "uop_live now s i u" using life u(1) by (simp add: life_inv_def)
      then have "uop_live now s' i u" by (rule uop_live_progress [OF _ prog]) (simp_all add: eff(8))
      then show ?thesis using True w ti due
        by (auto simp: uop_live_def deps_done_def after_done_def)
    next
      case False
      then have "uop_live now s j w" using life w by (simp add: life_inv_def eff(3))
      then show ?thesis by (rule uop_live_progress [OF _ prog]) (simp_all add: eff(8))
    qed
    moreover have "u_dispatch_tick w = m_dispatch_tick n"
      if w: "uop_at s' j = Some w" and n: "macro_at s' (u_parent_id w) = Some n" for j w n
    proof -
      obtain u0 where u0: "uop_at s j = Some u0" "view_uop w = view_uop u0"
        using same_view_uop [OF view w] by blast
      obtain m0 where m0: "macro_at s (u_parent_id w) = Some m0" "view_macro n = view_macro m0"
        using same_view_macro [OF view n] by blast
      have "u_parent_id w = u_parent_id u0" using view_uop_eqD(1) [OF u0(2)] strip_uop_eqD(3) by blast
      then have "u_dispatch_tick u0 = m_dispatch_tick m0" using life u0(1) m0(1) by (simp add: life_inv_def)
      then show ?thesis using view_uop_eqD(4) [OF u0(2)] view_macro_eqD(2) [OF m0(2)] by simp
    qed
    ultimately show ?thesis using life by (simp add: life_inv_def eff(8))
  qed
  moreover have "heap_inv s'"
  proof -
    have "x \<in> set rest \<longleftrightarrow> in_flight s' x" for x
    proof -
      obtain a b j where x: "x = (a, b, j)" by (cases x)
      show ?thesis
      proof (cases "j = i")
        case True
        have "x \<notin> set rest"
        proof
          assume r: "x \<in> set rest"
          then have "x \<in> set (z_heap s)" using heap by simp
          then have "in_flight s x" using hp unfolding heap_inv_def by blast
          then have "x = (t, q, i)" using x True u(1) ti by (simp add: in_flight_def)
          with r show False using hp heap by (simp add: heap_inv_def)
        qed
        then show ?thesis using x True by (simp add: in_flight_def eff(3))
      next
        case False
        then have "in_flight s' x = in_flight s x" by (simp add: x in_flight_def eff(3))
        moreover have "x \<in> set (z_heap s) \<longleftrightarrow> in_flight s x" using hp unfolding heap_inv_def by blast
        ultimately show ?thesis using heap False x by simp
      qed
    qed
    then show ?thesis using hp heap by (simp add: heap_inv_def eff(9))
  qed
  moreover have "macro_inv e now s'"
  proof -
    have notdone: "\<not> done_at s i" using u by (simp add: done_at_def)
    have other: "done_at s' j = done_at s j \<and> complete_at s' j = complete_at s j" if "j \<noteq> i" for j
      using that by (simp add: done_at_def complete_at_def eff(3))
    have "macro_live now s m" using mac eff(1) by (simp add: macro_inv_def)
    moreover have "\<not> (\<forall>j\<in>set (m_uop_ids m). done_at s j)" using notdone eff(2) by blast
    ultimately have m0: "m_complete_tick m = None" "m_retire_tick m = None"
      by (auto simp: macro_live_def)
    have live: "macro_live now s' n" if n: "macro_at s' p = Some n" for p n
    proof (cases "p = u_parent_id u")
      case True
      then show ?thesis using n eff(1) m0 by (auto simp: eff(4) macro_live_def split: if_splits)
    next
      case False
      then have n: "macro_at s p = Some n" using n by (simp add: eff(4) split: if_splits)
      then have "i \<notin> set (m_uop_ids n)" using parent_unique [OF tab n eff(1) _ eff(2)] False by blast
      then have "macro_live now s' n = macro_live now s n"
        using other by (intro macro_live_cong) metis
      moreover have "macro_live now s n" using mac n by (simp add: macro_inv_def)
      ultimately show ?thesis by simp
    qed
    have old: "\<exists>m. macro_at s p = Some m \<and> m_retire_tick m = m_retire_tick n" if "macro_at s' p = Some n" for p n
      using same_view_macro [OF view that] view_macro_eqD(3) by metis
    show ?thesis
      unfolding macro_inv_def using live macro_order_cong [OF mac old] by blast
  qed
  moreover have "overlap_inv e s'" using ov eff(7) by (simp add: overlap_inv_def same_issue_def)
  moreover have "mem_wf (z_memory s')" using wf eff(7) by (simp add: same_issue_def)
  ultimately show ?thesis
    using tabs' rob_inv_view [OF view rob] occupancy_view [OF view occ] lane_inv_view [OF view lane]
    by (simp add: zinv_def)
qed

section \<open>Bookkeeping keeps the invariant\<close>

text \<open>
  \<open>annotated s s'\<close>: only stall records, the memory, the counters and the event log differ.
\<close>

definition annotated :: "zen4_state \<Rightarrow> zen4_state \<Rightarrow> bool" where
  "annotated s s' \<longleftrightarrow> same_view s s' \<and> z_macros s' = z_macros s \<and> z_heap s' = z_heap s \<and>
     z_domain_free s' = z_domain_free s \<and> mem_wf (z_memory s') \<and>
     (\<forall>i. map_option (\<lambda>u. (view_uop u, u_complete_tick u)) (uop_at s' i) =
        map_option (\<lambda>u. (view_uop u, u_complete_tick u)) (uop_at s i))"

lemma annotated_keeps:
  assumes inv: "zinv e (now, s)" and an: "annotated s s'"
  shows "zinv e (now, s')"
proof -
  have view: "same_view s s'" and mac: "z_macros s' = z_macros s" using an by (auto simp: annotated_def)
  have old: "\<exists>u. uop_at s i = Some u \<and> view_uop w = view_uop u \<and> u_complete_tick w = u_complete_tick u"
    if "uop_at s' i = Some w" for i w
    using an that map_option_eq_SomeD [of "\<lambda>u. (view_uop u, u_complete_tick u)" "uop_at s i" "uop_at s' i" w]
    unfolding annotated_def by (metis prod.inject)
  have new: "\<exists>w. uop_at s' i = Some w \<and> view_uop w = view_uop u \<and> u_complete_tick w = u_complete_tick u"
    if "uop_at s i = Some u" for i u
    using an that map_option_eq_SomeD [of "\<lambda>u. (view_uop u, u_complete_tick u)" "uop_at s' i" "uop_at s i" u]
    unfolding annotated_def by (metis prod.inject)
  have st: "same_static s s'"
  proof -
    have "map_option strip_uop (uop_at s i) = map_option strip_uop (uop_at s' i)" for i
    proof (cases "uop_at s i")
      case None
      then have "uop_at s' i = None" using old [of i] by (cases "uop_at s' i") auto
      with None show ?thesis by simp
    next
      case (Some u)
      obtain w where w: "uop_at s' i = Some w" "view_uop w = view_uop u" using new [OF Some] by blast
      from view_uop_eqD(1) [OF w(2)] w(1) Some show ?thesis by simp
    qed
    moreover have "z_resource_free s' = z_resource_free s" "z_domain_free s' = z_domain_free s"
      using view an by (auto simp: same_view_def annotated_def)
    ultimately show ?thesis by (simp add: same_static_def mac same_lengths_def)
  qed
  have prog: "progress s s'"
    unfolding progress_def
  proof (intro allI impI)
    fix i u assume "uop_at s i = Some u"
    then obtain w where w: "uop_at s' i = Some w" "view_uop w = view_uop u" "u_complete_tick w = u_complete_tick u"
      using new by blast
    then show "\<exists>w. uop_at s' i = Some w \<and> (\<forall>t. u_issue_tick u = Some t \<longrightarrow> u_issue_tick w = Some t) \<and>
        (\<forall>c. u_complete_tick u = Some c \<longrightarrow> u_complete_tick w = Some c)"
      using view_uop_eqD(2) [OF w(2)] by auto
  qed
  have un: "z_unissued s' = z_unissued s" "z_pending_groups s' = z_pending_groups s"
    using view by (auto simp: same_view_def)
  have marks: "done_at s' i = done_at s i" "complete_at s' i = complete_at s i" for i
  proof -
    have "done_at s' i = done_at s i \<and> complete_at s' i = complete_at s i"
      using old [of i] new [of i]
      by (cases "uop_at s i"; cases "uop_at s' i") (auto simp: done_at_def complete_at_def)
    then show "done_at s' i = done_at s i" "complete_at s' i = complete_at s i" by auto
  qed
  have life: "life_inv now s" using inv by (simp add: zinv_def)
  have "uop_live now s' i w" if w: "uop_at s' i = Some w" for i w
  proof -
    obtain u where u: "uop_at s i = Some u" "view_uop w = view_uop u" "u_complete_tick w = u_complete_tick u"
      using old [OF w] by blast
    have "uop_live now s i u" using life u(1) by (simp add: life_inv_def)
    then have live: "uop_live now s' i u" by (rule uop_live_progress [OF _ prog]) (simp_all add: un)
    note v = view_uop_eqD [OF u(2)]
    show ?thesis
      using live unfolding uop_live_def v(2-4,6) u(3) deps_done_cong [OF strip_uop_eqD(11) [OF v(1)]]
        after_done_cong [OF strip_uop_eqD(12,13) [OF v(1)]] .
  qed
  moreover have "u_dispatch_tick w = m_dispatch_tick n"
    if w: "uop_at s' i = Some w" and n: "macro_at s' (u_parent_id w) = Some n" for i w n
  proof -
    obtain u where u: "uop_at s i = Some u" "view_uop w = view_uop u" using old [OF w] by blast
    have "u_parent_id w = u_parent_id u" using view_uop_eqD(1) [OF u(2)] strip_uop_eqD(3) by blast
    then have "macro_at s (u_parent_id u) = Some n" using n by (simp add: mac)
    then have "u_dispatch_tick u = m_dispatch_tick n" using life u(1) by (simp add: life_inv_def)
    then show ?thesis using view_uop_eqD(4) [OF u(2)] by simp
  qed
  ultimately have "life_inv now s'" using life by (simp add: life_inv_def un)
  moreover have "heap_inv s'"
  proof (rule heap_inv_view [OF view])
    show "z_heap s' = z_heap s" "heap_inv s" using an inv by (auto simp: annotated_def zinv_def)
    show "u_complete_tick v = u_complete_tick u" if "uop_at s i = Some u" "uop_at s' i = Some v" for i u v
      using old [OF that(2)] that(1) by simp
  qed
  moreover have "macro_inv e now s'"
  proof -
    have "macro_live now s' m = macro_live now s m" for m by (rule macro_live_cong) (simp add: marks)
    then show ?thesis using inv by (simp add: zinv_def macro_inv_def mac)
  qed
  moreover have "overlap_inv e s'" using inv by (simp add: zinv_def overlap_inv_def un)
  ultimately show ?thesis
    using inv an tables_static [OF _ st] rob_inv_view [OF view] occupancy_view [OF view] lane_inv_view [OF view]
    by (simp add: zinv_def annotated_def)
qed

lemma annotated_probe: "mem_wf h \<Longrightarrow> annotated s (s\<lparr>z_memory := h\<rparr>)"
  by (simp add: annotated_def same_view_def same_queues_def)

lemma annotated_count: "mem_wf (z_memory s) \<Longrightarrow> annotated s (s\<lparr>z_stalls := d, z_peaks := p\<rparr>)"
  by (simp add: annotated_def same_view_def same_queues_def)

lemma annotated_stall:
  assumes "tables e s" and "uop_at s i = Some u" and "mem_wf (z_memory s)"
  shows "annotated s (note_stall r u s)"
proof -
  have "u_id u = i" using assms by (auto simp: tables_def)
  then show ?thesis using assms
    by (simp add: annotated_def same_view_def same_queues_def note_stall_def view_uop_def)
qed

lemma advance_keeps:
  assumes inv: "zinv e (now, s)" and later: "now < now'"
  shows "zinv e (now', s)"
proof -
  have prog: "progress s s" by (simp add: progress_def)
  have "life_inv now' s"
    using inv later uop_live_progress [OF _ prog, of now _ _ now'] by (auto simp: zinv_def life_inv_def)
  moreover have "macro_inv e now' s"
  proof -
    have "macro_live now' s m" if "macro_live now s m" for m
      using that later unfolding macro_live_def by (meson less_imp_le order.trans)
    then show ?thesis using inv by (auto simp: zinv_def macro_inv_def)
  qed
  moreover have "lane_inv now' s"
    using inv later unfolding zinv_def lane_inv_def by (fastforce intro: order.trans)
  ultimately show ?thesis using inv by (simp add: zinv_def)
qed

section \<open>Dispatch keeps the invariant\<close>

lemma sum_list_change:
  assumes "distinct xs" and "p \<in> set xs" and "g' p = g p + d" and "\<And>i. i \<in> set xs \<Longrightarrow> i \<noteq> p \<Longrightarrow> g' i = g i"
  shows "sum_list (map g' xs) = sum_list (map g xs) + (d :: int)"
  using assms
proof (induction xs)
  case (Cons x xs)
  show ?case
  proof (cases "x = p")
    case True
    have "map g' xs = map g xs" using True Cons.prems(1,4) by (intro map_cong) auto
    then have "sum_list (map g' xs) = sum_list (map g xs)" by (rule arg_cong)
    then show ?thesis using True Cons.prems(3) by simp
  next
    case False
    then show ?thesis using Cons by simp
  qed
qed simp

lemma rob_sum_cong:
  assumes "z_rob s' = z_rob s" and "\<And>i. map_option f (macro_at s' i) = map_option f (macro_at s i)"
  shows "rob_sum s' f = rob_sum s f"
proof -
  have "(case macro_at s' i of None \<Rightarrow> 0 | Some m \<Rightarrow> f m) = (case macro_at s i of None \<Rightarrow> 0 | Some m \<Rightarrow> f m)" for i
    using assms(2) [of i] by (auto simp: map_option_case split: option.splits)
  then show ?thesis by (simp only: rob_sum_def assms(1))
qed

lemma dispatch_keeps:
  assumes inv: "zinv e (now, s)" and next_ok: "z_next_dispatch s < length (e_macro_order e)"
    and m: "macro_at s (e_macro_order e ! z_next_dispatch s) = Some m"
    and free: "dispatch_blocker e s m = None" and run: "dispatch_macro now m s = Inr s'"
  shows "zinv e (now, s')"
proof -
  let ?n = "z_next_dispatch s" and ?o = "e_macro_order e"
  define p where "p = ?o ! ?n"
  have tab: "tables e s" and wf: "mem_wf (z_memory s)" and rob: "rob_inv e s" and occ: "occupancy_inv e s"
    and life: "life_inv now s" and hp: "heap_inv s" and mac: "macro_inv e now s" and lane: "lane_inv now s"
    and ov: "overlap_inv e s"
    using inv by (auto simp: zinv_def)
  have m: "macro_at s p = Some m" using m by (simp add: p_def)
  have mok: "m_id m = p" "macro_ok s m" using tab m by (auto simp: tables_def)
  let ?m = "m\<lparr>m_dispatch_tick := Some now\<rparr>"
  have dist: "distinct ?o" using tab by (simp add: tables_def)
  have eff: "uop_at s' = (\<lambda>i. if i \<in> set (m_uop_ids m) then map_option (u_dispatch_tick_update (\<lambda>_. Some now)) (uop_at s i)
        else uop_at s i)" "macro_at s' = (macro_at s)(p \<mapsto> ?m)" "same_static s s'" "same_issue s s'"
     "z_rob s' = z_rob s @ [p]" "z_next_dispatch s' = Suc ?n"
     "z_rob_occupancy s' = z_rob_occupancy s + m_decoded_macro_ops m"
     "z_load_occupancy s' = z_load_occupancy s + of_bool (m_uses_load_queue m)"
     "z_store_occupancy s' = z_store_occupancy s + of_bool (m_uses_store_queue m)"
     "z_vector_occupancy s' = z_vector_occupancy s + of_bool (m_uses_vector_scheduler m)"
     "set (z_unissued s') = set (z_unissued s) \<union> set (m_uop_ids m)"
     "distinct (z_unissued s) \<longrightarrow> distinct (z_unissued s')" "z_heap s' = z_heap s"
    using dispatch_macro_eq [OF tab m, of now] run by auto
  obtain k where k: "k \<le> ?n" "z_rob s = drop k (take ?n ?o)"
    "\<And>j m. j < length ?o \<Longrightarrow> macro_at s (?o ! j) = Some m \<Longrightarrow>
       (m_dispatch_tick m \<noteq> None \<longleftrightarrow> j < ?n) \<and> (m_retire_tick m \<noteq> None \<longleftrightarrow> j < k)"
    using rob by (auto simp: rob_inv_def)
  have fresh: "m_dispatch_tick m = None" using k(3) [OF next_ok] m by (simp add: p_def)
  have new: "u_dispatch_tick u = None \<and> u_issue_tick u = None \<and> u_complete_tick u = None"
    if i: "i \<in> set (m_uop_ids m)" and u: "uop_at s i = Some u" for i u
  proof -
    have "u_parent_id u = p" using mok i u by (auto simp: macro_ok_def)
    then have d: "u_dispatch_tick u = None" using life m u fresh by (auto simp: life_inv_def)
    have live: "uop_live now s i u" using life u by (simp add: life_inv_def)
    have "u_issue_tick u = None" using live d by (auto simp: uop_live_def split: option.splits)
    with live d show ?thesis by (simp add: uop_live_def)
  qed
  have kept: "uop_at s i = Some v" if "uop_at s' i = Some v" "u_issue_tick v = Some t" for i v t
    using that new [of i] by (auto simp: eff(1) split: if_splits)
  have same_marks: "done_at s' i = done_at s i" "complete_at s' i = complete_at s i"
    "issued_at s' i = issued_at s i" "is_vector s' i = is_vector s i" for i
    using new [of i] by (cases "uop_at s i"; auto simp: eff(1) done_at_def complete_at_def issued_at_def is_vector_def)+
  have tabs': "tables e s'" by (rule tables_static [OF tab eff(3)])
  have "rob_inv e s'"
  proof -
    have "z_rob s' = drop k (take (Suc ?n) ?o)"
      using k(1,2) next_ok by (simp add: eff(5) p_def take_Suc_conv_app_nth)
    moreover have "(m_dispatch_tick n \<noteq> None \<longleftrightarrow> j < Suc ?n) \<and> (m_retire_tick n \<noteq> None \<longleftrightarrow> j < k)"
      if j: "j < length ?o" and n: "macro_at s' (?o ! j) = Some n" for j n
    proof (cases "j = ?n")
      case True
      then have "n = ?m" using n by (simp add: eff(2) p_def)
      then show ?thesis using True k(3) [OF next_ok] m by (simp add: p_def)
    next
      case False
      then have "?o ! j \<noteq> p" using dist j next_ok by (simp add: p_def nth_eq_iff_index_eq)
      then have "macro_at s (?o ! j) = Some n" using n by (simp add: eff(2))
      then show ?thesis using k(3) [OF j] False by auto
    qed
    ultimately show ?thesis using next_ok k(1) by (auto simp: rob_inv_def eff(6) intro!: exI [of _ k])
  qed
  moreover have "occupancy_inv e s'"
  proof -
    have sums: "rob_sum s' f = rob_sum s f + f m" if "f ?m = f m" for f
    proof -
      have "(case macro_at s' i of None \<Rightarrow> 0 | Some m \<Rightarrow> f m) = (case macro_at s i of None \<Rightarrow> 0 | Some m \<Rightarrow> f m)" for i
        using m that by (simp add: eff(2))
      then have "sum_list (map (\<lambda>i. case macro_at s' i of None \<Rightarrow> 0 | Some m \<Rightarrow> f m) (z_rob s)) = rob_sum s f"
        by (simp only: rob_sum_def)
      moreover have "(case macro_at s' p of None \<Rightarrow> 0 | Some m \<Rightarrow> f m) = f m"
        using that by (simp add: eff(2))
      ultimately show ?thesis
        unfolding rob_sum_def [of s'] eff(5) map_append sum_list_append by simp
    qed
    have "vector_sum e s' = vector_sum e s + of_bool (m_uses_vector_scheduler m)"
      unfolding vector_sum_def
    proof (rule sum_list_change [OF dist])
      show "p \<in> set ?o" using next_ok by (simp add: p_def)
      have "\<not> issued_at s i" if "i \<in> set (m_uop_ids m)" for i
        using new [OF that] by (auto simp: issued_at_def)
      then have "\<not> (\<exists>i\<in>set (m_uop_ids m). is_vector s' i \<and> issued_at s' i)"
        by (auto simp: same_marks)
      then show "(case macro_at s' p of None \<Rightarrow> 0 :: int | Some m \<Rightarrow> of_bool (vector_waiting s' m)) =
        (case macro_at s p of None \<Rightarrow> 0 | Some m \<Rightarrow> of_bool (vector_waiting s m)) +
          of_bool (m_uses_vector_scheduler m)"
        using m fresh by (simp add: eff(2) vector_waiting_def)
      show "(case macro_at s' i of None \<Rightarrow> 0 :: int | Some m \<Rightarrow> of_bool (vector_waiting s' m)) =
        (case macro_at s i of None \<Rightarrow> 0 | Some m \<Rightarrow> of_bool (vector_waiting s m))" if "i \<noteq> p" for i
        using that by (simp add: eff(2) vector_waiting_def same_marks split: option.split)
    qed
    moreover have "z_rob_occupancy s + m_decoded_macro_ops m \<le> zp_rob_entries (e_profile e)"
      "z_vector_occupancy s + of_bool (m_uses_vector_scheduler m) \<le> zp_vector_scheduler_entries (e_profile e)"
      "m_uses_load_queue m \<Longrightarrow> z_load_occupancy s < zp_load_queue_entries (e_profile e)"
      "m_uses_store_queue m \<Longrightarrow> z_store_occupancy s < zp_store_queue_entries (e_profile e)"
      using free by (auto simp: dispatch_blocker_def Let_def split: if_splits)
    ultimately show ?thesis
      using occ sums [of m_decoded_macro_ops] sums [of "\<lambda>m. of_bool (m_uses_load_queue m)"]
        sums [of "\<lambda>m. of_bool (m_uses_store_queue m)"]
      by (auto simp: occupancy_inv_def eff(7-10) of_bool_def split: if_splits)
  qed
  moreover have "life_inv now s'"
  proof -
    have prog: "progress s s'"
      using new by (fastforce simp: progress_def eff(1))
    have now0: "0 \<le> now" using life by (simp add: life_inv_def)
    have "uop_live now s' i w" if w: "uop_at s' i = Some w" for i w
    proof (cases "i \<in> set (m_uop_ids m)")
      case True
      then obtain u where u: "uop_at s i = Some u" "w = u\<lparr>u_dispatch_tick := Some now\<rparr>"
        using w by (auto simp: eff(1))
      have "uop_live now s i u" using life u(1) by (simp add: life_inv_def)
      then show ?thesis using u(2) new [OF True u(1)] True now0 by (simp add: uop_live_def eff(11))
    next
      case False
      then have "uop_live now s i w" using life w by (simp add: life_inv_def eff(1))
      then show ?thesis by (rule uop_live_progress [OF _ prog]) (simp_all add: eff(11) False)
    qed
    moreover have "u_dispatch_tick w = m_dispatch_tick n"
      if w: "uop_at s' i = Some w" and n: "macro_at s' (u_parent_id w) = Some n" for i w n
    proof (cases "i \<in> set (m_uop_ids m)")
      case True
      then obtain u where u: "uop_at s i = Some u" "w = u\<lparr>u_dispatch_tick := Some now\<rparr>"
        using w by (auto simp: eff(1))
      then have "u_parent_id w = p" using mok True by (auto simp: macro_ok_def)
      then show ?thesis using n u(2) by (auto simp: eff(2))
    next
      case False
      then have u: "uop_at s i = Some w" using w by (simp add: eff(1))
      then have "u_id w = i" "uop_ok s w" using tab by (auto simp: tables_def)
      then have "u_parent_id w \<noteq> p" using m False by (auto simp: uop_ok_def)
      then show ?thesis using n u life by (simp add: eff(2) life_inv_def)
    qed
    ultimately show ?thesis using life eff(12) by (simp add: life_inv_def)
  qed
  moreover have "heap_inv s'"
  proof -
    have "in_flight s' (t, q, i) = in_flight s (t, q, i)" for t q i
      using new [of i] by (cases "uop_at s i") (auto simp: in_flight_def eff(1))
    then have "in_flight s' x = in_flight s x" for x by (cases x) simp
    then show ?thesis using hp by (simp add: heap_inv_def eff(13))
  qed
  moreover have "macro_inv e now s'"
  proof -
    have live: "macro_live now s' n" if n: "macro_at s' j = Some n" for j n
    proof -
      obtain n0 where n0: "macro_at s j = Some n0" "n = n0 \<or> n0 = m \<and> n = ?m"
        using n m by (cases "j = p") (auto simp: eff(2))
      have "macro_live now s n0" using mac n0(1) by (simp add: macro_inv_def)
      then have "macro_live now s' n0" using macro_live_cong [of n0 s' s now] same_marks by simp
      then show ?thesis using n0(2) by (auto simp: macro_live_def)
    qed
    have old: "\<exists>n0. macro_at s j = Some n0 \<and> m_retire_tick n0 = m_retire_tick n" if "macro_at s' j = Some n" for j n
      using that m by (cases "j = p") (auto simp: eff(2))
    show ?thesis unfolding macro_inv_def using live macro_order_cong [OF mac old] by blast
  qed
  moreover have "lane_inv now s'"
  proof -
    have q: "z_resource_free s' = z_resource_free s" "z_last_class s' = z_last_class s"
      using eff(4) by (auto simp: same_issue_def)
    show ?thesis using lane kept unfolding lane_inv_def q by blast
  qed
  ultimately show ?thesis
    using tabs' eff(4) wf ov by (simp add: zinv_def same_issue_def overlap_inv_def)
qed

section \<open>Retirement keeps the invariant\<close>

lemma macro_live_retire:
  "macro_live now s m \<Longrightarrow> m_complete_tick m = Some c \<Longrightarrow> c \<le> now \<Longrightarrow>
     macro_live now s (m\<lparr>m_retire_tick := Some now\<rparr>)"
proof -
  let ?n = "m\<lparr>m_retire_tick := Some now\<rparr>"
  have e: "m_complete_tick ?n = m_complete_tick m" "m_uop_ids ?n = m_uop_ids m" "m_retire_tick ?n = Some now"
    by simp_all
  assume "macro_live now s m" "m_complete_tick m = Some c" "c \<le> now"
  then show ?thesis unfolding macro_live_def e by (metis option.inject order_refl)
qed

lemma retire_keeps:
  assumes inv: "zinv e (now, s)" and head: "z_rob s = i # rest" and m: "macro_at s i = Some m"
    and due: "m_complete_tick m = Some c" "c \<le> now"
  shows "zinv e (now, leave_rob now m rest s)"
proof -
  let ?o = "e_macro_order e" and ?n = "z_next_dispatch s"
  have tab: "tables e s" and rob: "rob_inv e s" and occ: "occupancy_inv e s"
    and life: "life_inv now s" and hp: "heap_inv s" and mac: "macro_inv e now s" and lane: "lane_inv now s"
    using inv by (auto simp: zinv_def)
  have mok: "m_id m = i" "macro_ok s m" using tab m by (auto simp: tables_def)
  let ?m = "m\<lparr>m_retire_tick := Some now\<rparr>"
  define s' where "s' = leave_rob now m rest s"
  have eff: "uop_at s' = uop_at s" "macro_at s' = (macro_at s)(i \<mapsto> ?m)" "z_rob s' = rest"
    "z_rob_occupancy s' = z_rob_occupancy s - m_decoded_macro_ops m"
    "z_load_occupancy s' = z_load_occupancy s - of_bool (m_uses_load_queue m)"
    "z_store_occupancy s' = z_store_occupancy s - of_bool (m_uses_store_queue m)"
    "z_next_dispatch s' = ?n" "z_vector_occupancy s' = z_vector_occupancy s" "z_heap s' = z_heap s"
    "z_unissued s' = z_unissued s" "z_memory s' = z_memory s" "z_resource_free s' = z_resource_free s"
    "z_last_class s' = z_last_class s" "z_domain_free s' = z_domain_free s"
    "z_pending_groups s' = z_pending_groups s"
    using mok(1) by (simp_all add: s'_def leave_rob_def Let_def)
  have dist: "distinct ?o" using tab by (simp add: tables_def)
  obtain k where k: "k \<le> ?n" "z_rob s = drop k (take ?n ?o)" "?n \<le> length ?o"
    "\<And>j m. j < length ?o \<Longrightarrow> macro_at s (?o ! j) = Some m \<Longrightarrow>
       (m_dispatch_tick m \<noteq> None \<longleftrightarrow> j < ?n) \<and> (m_retire_tick m \<noteq> None \<longleftrightarrow> j < k)"
    using rob by (auto simp: rob_inv_def)
  have kn: "k < ?n" using head k(1,2) by (cases "k = ?n") (use k(3) in auto)
  then have "drop k (take ?n ?o) = ?o ! k # drop (Suc k) (take ?n ?o)"
    using k(3) by (simp add: Cons_nth_drop_Suc [symmetric])
  then have i: "i = ?o ! k" "rest = drop (Suc k) (take ?n ?o)" using head k(2) by auto
  have index: "?o ! j = i \<longleftrightarrow> j = k" if "j < length ?o" for j
    using that kn k(3) dist by (simp add: i(1) nth_eq_iff_index_eq)
  have st: "same_static s s'"
    using m by (simp add: same_static_def same_lengths_def eff)
  have marks: "done_at s' = done_at s" "complete_at s' = complete_at s" "issued_at s' = issued_at s"
    "is_vector s' = is_vector s"
    by (simp_all add: done_at_def complete_at_def issued_at_def is_vector_def eff(1) fun_eq_iff)
  have "rob_inv e s'"
  proof -
    have "(m_dispatch_tick n \<noteq> None \<longleftrightarrow> j < ?n) \<and> (m_retire_tick n \<noteq> None \<longleftrightarrow> j < Suc k)"
      if j: "j < length ?o" and n: "macro_at s' (?o ! j) = Some n" for j n
    proof (cases "j = k")
      case True
      then have "n = ?m" using n i(1) by (simp add: eff(2))
      then show ?thesis using True kn k(4) [OF j] m i(1) by simp
    next
      case False
      then have "macro_at s (?o ! j) = Some n" using n index [OF j] by (simp add: eff(2))
      then show ?thesis using k(4) [OF j] False by auto
    qed
    then show ?thesis using kn k(3) i(2) by (auto simp: rob_inv_def eff(3,7) intro!: exI [of _ "Suc k"])
  qed
  moreover have "occupancy_inv e s'"
  proof -
    have sums: "rob_sum s' f = rob_sum s f - f m" if "f ?m = f m" for f
    proof -
      have "(case macro_at s' j of None \<Rightarrow> 0 | Some m \<Rightarrow> f m) = (case macro_at s j of None \<Rightarrow> 0 | Some m \<Rightarrow> f m)" for j
        using m that by (simp add: eff(2))
      then have "rob_sum s' f = sum_list (map (\<lambda>i. case macro_at s i of None \<Rightarrow> 0 | Some m \<Rightarrow> f m) rest)"
        by (simp only: rob_sum_def eff(3))
      then show ?thesis using m by (simp add: rob_sum_def head)
    qed
    have "(case macro_at s' j of None \<Rightarrow> 0 :: int | Some m \<Rightarrow> of_bool (vector_waiting s' m)) =
        (case macro_at s j of None \<Rightarrow> 0 | Some m \<Rightarrow> of_bool (vector_waiting s m))" for j
    proof -
      have "vector_waiting s' n = vector_waiting s n" for n by (simp add: vector_waiting_def marks)
      moreover have "vector_waiting s ?m = vector_waiting s m" by (simp add: vector_waiting_def)
      ultimately show ?thesis using m by (simp add: eff(2) split: option.split)
    qed
    then have "vector_sum e s' = vector_sum e s" by (simp only: vector_sum_def)
    then show ?thesis
      using occ mok(2) sums [of m_decoded_macro_ops] sums [of "\<lambda>m. of_bool (m_uses_load_queue m)"]
        sums [of "\<lambda>m. of_bool (m_uses_store_queue m)"]
      by (auto simp: occupancy_inv_def eff macro_ok_def of_bool_def split: if_splits)
  qed
  moreover have "life_inv now s'"
  proof -
    have "uop_live now s' j u = uop_live now s j u" for j u
      by (simp add: uop_live_def deps_done_def after_done_def eff(1,10) cong: option.case_cong)
    moreover have "m_dispatch_tick n = m_dispatch_tick n0"
      if "macro_at s' j = Some n" "macro_at s j = Some n0" for j n n0
      using that m by (auto simp: eff(2) split: if_splits)
    moreover have "macro_at s j \<noteq> None" if "macro_at s' j = Some n" for j n
      using that m by (auto simp: eff(2) split: if_splits)
    ultimately show ?thesis using life unfolding life_inv_def eff(1,10) by (metis not_None_eq)
  qed
  moreover have "heap_inv s'"
    using hp by (simp add: heap_inv_def in_flight_def eff(1,9) split: prod.splits)
  moreover have "macro_inv e now s'"
  proof -
    have retired: "r \<le> now" if "macro_at s j = Some n" "m_retire_tick n = Some r" for j n r
      using mac that by (auto simp: macro_inv_def macro_live_def)
    have live: "macro_live now s' n" if n: "macro_at s' j = Some n" for j n
    proof -
      obtain n0 where n0: "macro_at s j = Some n0" "n = n0 \<or> n0 = m \<and> n = ?m"
        using n m by (cases "j = i") (auto simp: eff(2))
      have "macro_live now s n0" using mac n0(1) by (simp add: macro_inv_def)
      then have "macro_live now s' n0" using macro_live_cong [of n0 s' s now] marks by simp
      then show ?thesis using n0(2) macro_live_retire [OF _ due] by blast
    qed
    have ordered: "r \<le> r'" if ab: "a < b" "b < length ?o" and n: "macro_at s' (?o ! a) = Some n"
      "macro_at s' (?o ! b) = Some n'" and r: "m_retire_tick n = Some r" "m_retire_tick n' = Some r'"
      for a b n n' r r'
    proof (cases "b = k")
      case True
      then have "r' = now" using n(2) r(2) i(1) by (auto simp: eff(2))
      moreover have "macro_at s (?o ! a) = Some n" using n(1) index [of a] ab True by (simp add: eff(2))
      ultimately show ?thesis using retired r(1) by blast
    next
      case False
      then have b: "macro_at s (?o ! b) = Some n'" using n(2) index [OF ab(2)] by (simp add: eff(2))
      then have "b < k" using k(4) [OF ab(2) b] r(2) by simp
      then have "macro_at s (?o ! a) = Some n" using n(1) index [of a] ab by (simp add: eff(2))
      with b show ?thesis using mac ab r unfolding macro_inv_def by blast
    qed
    show ?thesis unfolding macro_inv_def using live ordered by blast
  qed
  moreover have "lane_inv now s'" using lane by (simp add: lane_inv_def eff)
  ultimately show ?thesis
    using tables_static [OF tab st] inv by (simp add: zinv_def s'_def [symmetric] eff overlap_inv_def)
qed

section \<open>Issue keeps the invariant\<close>

lemma issue_keeps:
  assumes inv: "zinv e (now, s)" and un: "i \<in> set (z_unissued s)" and u: "uop_at s i = Some u"
    and may: "may_issue e now s u" and run: "issue_uop e u now s = Inr s'"
  shows "zinv e (now, s')"
proof -
  have tab: "tables e s" and wf: "mem_wf (z_memory s)" and rob: "rob_inv e s" and occ: "occupancy_inv e s"
    and life: "life_inv now s" and hp: "heap_inv s" and mac: "macro_inv e now s" and lane: "lane_inv now s"
    and ov: "overlap_inv e s"
    using inv by (auto simp: zinv_def)
  have ok: "u_id u = i" "uop_ok s u" using tab u by (auto simp: tables_def)
  obtain v ready r lane0 free m where v: "issued_as now ready r lane0 u v"
    and ready: "dependency_ready_tick s u = Inr ready"
    and eff: "uop_at s' = (uop_at s)(i \<mapsto> v)" "z_macros s' = z_macros s" "same_static s s'" "same_queues s s'"
     "mem_wf (z_memory s')" "z_unissued s' = remove1 i (z_unissued s)"
     "z_heap s' = heappush (now + u_latency_ticks v, u_sequence u, i) (z_heap s)"
     "z_resource_free s' = AList.update r (free[lane0 := now + u_occupancy_ticks u]) (z_resource_free s)"
     "z_last_class s' = AList.update (u_scheduling_class u) now (z_last_class s)"
     "z_vector_occupancy s' = z_vector_occupancy s -
       of_bool (u_kind u \<in> set VECTOR_RESOURCE_KINDS \<and>
         \<not> (\<exists>j\<in>set (m_uop_ids m). j \<noteq> i \<and> is_vector s j \<and> issued_at s j))"
     "e_overlap_enabled e \<longrightarrow>
        length (z_pending_groups s) \<le> nat (zp_overlap_max_pending (e_profile e)) \<longrightarrow>
        length (z_pending_groups s') \<le> nat (zp_overlap_max_pending (e_profile e))"
    and sel: "r \<in> set (u_resource_choices u)" "map_of (z_resource_free s) r = Some free"
      "lane0 < length free" "free ! lane0 \<le> now"
    and m: "macro_at s (u_parent_id u) = Some m"
    using issue_uop_eq [OF tab u wf un may] run by auto
  have sv: "strip_uop v = strip_uop u" and tv: "u_issue_tick v = Some now" "u_ready_tick v = Some ready"
    "lane_of v = Some (r, lane0)" "u_dispatch_tick v = u_dispatch_tick u" "u_complete_tick v = u_complete_tick u"
    "0 \<le> u_latency_ticks u \<longrightarrow> 0 \<le> u_latency_ticks v"
    using v by (auto simp: issued_as_def lane_of_def)
  note keep = strip_uop_eqD [OF sv]
  have live: "uop_live now s i u" using life u by (simp add: life_inv_def)
  then obtain d where d: "u_dispatch_tick u = Some d" "0 \<le> d" "d \<le> now" "u_issue_tick u = None" "u_complete_tick u = None"
    using un by (auto simp: uop_live_def)
  have deps: "\<exists>y c. uop_at s x = Some y \<and> u_complete_tick y = Some c \<and> c \<le> now"
    if "x \<in> set (u_dependencies u)" for x
    using may that by (auto simp: may_issue_def)
  have look: "zlookup s (u_dependencies u) = Inr (map (\<lambda>i. the (uop_at s i)) (u_dependencies u))"
    using deps by (intro zlookup_eq) force
  then have rdy: "ready = max_of d (map (\<lambda>i. or_zero (u_complete_tick (the (uop_at s i)))) (u_dependencies u))"
    using ready d(1) by (simp add: dependency_ready_tick_def or_zero_def o_def)
  have ready_le: "d \<le> ready" "ready \<le> now" "deps_done s u ready"
  proof -
    show "d \<le> ready" unfolding rdy by (rule max_of_ge) simp
    show "ready \<le> now" unfolding rdy max_of_le_iff using d(3) deps by (fastforce simp: or_zero_def)
    have "\<exists>y c. uop_at s x = Some y \<and> u_complete_tick y = Some c \<and> c \<le> ready"
      if x: "x \<in> set (u_dependencies u)" for x
    proof -
      obtain y c where y: "uop_at s x = Some y" "u_complete_tick y = Some c" using deps [OF x] by blast
      have "or_zero (u_complete_tick (the (uop_at s x))) \<le> ready"
        unfolding rdy using x by (intro max_of_ge) auto
      then show ?thesis using y by (auto simp: or_zero_def)
    qed
    then show "deps_done s u ready" by (simp add: deps_done_def)
  qed
  have prog: "progress s s'" using u d tv by (auto simp: progress_def eff(1))
  have dist: "distinct (z_unissued s)" using life by (simp add: life_inv_def)
  have marks: "done_at s' j = done_at s j" "complete_at s' j = complete_at s j" "is_vector s' j = is_vector s j"
    "issued_at s' j \<longleftrightarrow> j = i \<or> issued_at s j" for j
    using u tv(1,5) keep(4) by (auto simp: eff(1) done_at_def complete_at_def is_vector_def issued_at_def)
  have notissued: "\<not> issued_at s i" using u d(4) by (simp add: issued_at_def)
  have vec: "is_vector s i \<longleftrightarrow> u_kind u \<in> set VECTOR_RESOURCE_KINDS" using u by (simp add: is_vector_def)
  have mok: "m_id m = u_parent_id u" "macro_ok s m" "i \<in> set (m_uop_ids m)"
    using tab m ok by (auto simp: tables_def uop_ok_def)
  have "rob_inv e s'" using rob eff(2,4) by (simp add: rob_inv_def same_queues_def)
  moreover have "occupancy_inv e s'"
  proof -
    let ?ex = "\<lambda>s. \<exists>j\<in>set (m_uop_ids m). is_vector s j \<and> issued_at s j"
    define dec where "dec = (u_kind u \<in> set VECTOR_RESOURCE_KINDS \<and>
         \<not> (\<exists>j\<in>set (m_uop_ids m). j \<noteq> i \<and> is_vector s j \<and> issued_at s j))"
    have dec: "dec \<longleftrightarrow> is_vector s i \<and> \<not> ?ex s" using notissued vec by (auto simp: dec_def)
    have "u_dispatch_tick u = m_dispatch_tick m" using life u m by (simp add: life_inv_def)
    then have disp: "m_dispatch_tick m = Some d" using d(1) by simp
    have uses: "is_vector s i \<Longrightarrow> m_uses_vector_scheduler m"
      using mok(2,3) u vec by (auto simp: macro_ok_def)
    have wait: "vector_waiting s' m \<longleftrightarrow> vector_waiting s m \<and> \<not> is_vector s i"
      using mok(3) by (auto simp: vector_waiting_def marks)
    have before: "dec \<Longrightarrow> vector_waiting s m" using dec disp uses by (auto simp: vector_waiting_def)
    have during: "vector_waiting s m \<Longrightarrow> is_vector s i \<Longrightarrow> dec" using dec by (auto simp: vector_waiting_def)
    have others: "vector_waiting s' n = vector_waiting s n" if n: "macro_at s j = Some n" "j \<noteq> u_parent_id u" for j n
    proof -
      have "i \<notin> set (m_uop_ids n)" using parent_unique [OF tab n(1) m _ mok(3)] n(2) by blast
      then have "(\<exists>i\<in>set (m_uop_ids n). is_vector s' i \<and> issued_at s' i) \<longleftrightarrow>
          (\<exists>i\<in>set (m_uop_ids n). is_vector s i \<and> issued_at s i)" by (auto simp: marks)
      then show ?thesis by (simp add: vector_waiting_def)
    qed
    have "vector_sum e s' = vector_sum e s + - of_bool dec"
      unfolding vector_sum_def
    proof (rule sum_list_change)
      show "distinct (e_macro_order e)" "u_parent_id u \<in> set (e_macro_order e)"
        using tab m by (auto simp: tables_def)
      show "(case macro_at s' (u_parent_id u) of None \<Rightarrow> 0 :: int | Some m \<Rightarrow> of_bool (vector_waiting s' m)) =
          (case macro_at s (u_parent_id u) of None \<Rightarrow> 0 | Some m \<Rightarrow> of_bool (vector_waiting s m)) + - of_bool dec"
        using m before during wait dec by (auto simp: eff(2))
      show "(case macro_at s' j of None \<Rightarrow> 0 :: int | Some m \<Rightarrow> of_bool (vector_waiting s' m)) =
          (case macro_at s j of None \<Rightarrow> 0 | Some m \<Rightarrow> of_bool (vector_waiting s m))" if "j \<noteq> u_parent_id u" for j
        using others [OF _ that] by (simp add: eff(2) split: option.split)
    qed
    moreover have "rob_sum s' f = rob_sum s f" for f
      by (rule rob_sum_cong) (use eff(2,4) in \<open>simp_all add: same_queues_def\<close>)
    moreover have "z_vector_occupancy s' = z_vector_occupancy s - of_bool dec" by (simp add: eff(10) dec_def)
    ultimately show ?thesis using occ eff(4) by (simp add: occupancy_inv_def same_queues_def)
  qed
  moreover have "life_inv now s'"
  proof -
    have "uop_live now s' j w" if w: "uop_at s' j = Some w" for j w
    proof (cases "j = i")
      case True
      then have w: "w = v" using w by (simp add: eff(1))
      have "after_done s u now" using may by (simp add: may_issue_def after_done_def)
      then have "after_done s' v now"
        using after_done_progress [OF prog] after_done_cong [OF keep(12,13)] by simp
      moreover have "deps_done s' v ready"
        using deps_done_progress [OF prog ready_le(3)] deps_done_cong [OF keep(11)] by simp
      moreover have "0 \<le> u_latency_ticks v" using live tv(6) by (simp add: uop_live_def)
      ultimately show ?thesis
        using True d ready_le dist tv w by (simp add: uop_live_def eff(6))
    next
      case False
      then have "uop_live now s j w" using life w by (simp add: life_inv_def eff(1))
      then show ?thesis by (rule uop_live_progress [OF _ prog]) (use dist False in \<open>simp_all add: eff(6)\<close>)
    qed
    moreover have "u_dispatch_tick w = m_dispatch_tick n"
      if w: "uop_at s' j = Some w" "macro_at s' (u_parent_id w) = Some n" for j w n
      using w life u tv(4) keep(3) by (cases "j = i") (auto simp: eff(1,2) life_inv_def)
    ultimately show ?thesis using life dist by (simp add: life_inv_def eff(6))
  qed
  moreover have "heap_inv s'"
  proof -
    let ?new = "(now + u_latency_ticks v, u_sequence u, i)"
    have old: "x \<in> set (z_heap s) \<longleftrightarrow> in_flight s x" for x using hp unfolding heap_inv_def by blast
    have "in_flight s' (t, q, j) \<longleftrightarrow> (t, q, j) = ?new \<or> in_flight s (t, q, j)" for t q j
      using u d tv keep(2) by (cases "j = i") (auto simp: in_flight_def eff(1))
    then have iff: "in_flight s' x \<longleftrightarrow> x = ?new \<or> in_flight s x" for x by (cases x) simp
    have "\<not> in_flight s ?new" using u d(4) by (simp add: in_flight_def)
    then show ?thesis using hp old iff
      by (simp add: heap_inv_def eff(7) heappush_def sorted_insort distinct_insort set_insort_key)
  qed
  moreover have "macro_inv e now s'"
  proof -
    have "macro_live now s' n = macro_live now s n" for n by (rule macro_live_cong) (simp add: marks)
    then show ?thesis using mac by (simp add: macro_inv_def eff(2))
  qed
  moreover have "lane_inv now s'"
  proof -
    let ?free = "free[lane0 := now + u_occupancy_ticks u]"
    have occ0: "0 \<le> u_occupancy_ticks u" using ok(2) by (simp add: uop_ok_def)
    have old: "(\<exists>r l free. lane_of w = Some (r, l) \<and> r \<in> set (u_resource_choices w) \<and>
           map_of (z_resource_free s) r = Some free \<and> l < length free \<and> t + u_occupancy_ticks w \<le> free ! l) \<and>
        (\<exists>t'. map_of (z_last_class s) (u_scheduling_class w) = Some t' \<and> t \<le> t')"
      if "uop_at s j = Some w" "u_issue_tick w = Some t" for j w t
      using lane that unfolding lane_inv_def by blast
    have last: "t \<le> now" if "map_of (z_last_class s) c = Some t" for c t
      using lane that unfolding lane_inv_def by blast
    have pairs: "(lane_of a = lane_of b \<longrightarrow> t + u_occupancy_ticks a \<le> t' \<or> t' + u_occupancy_ticks b \<le> t) \<and>
        (u_scheduling_class a = u_scheduling_class b \<longrightarrow>
           t + u_issue_interval_ticks b \<le> t' \<or> t' + u_issue_interval_ticks a \<le> t)"
      if "j \<noteq> k" "uop_at s j = Some a" "uop_at s k = Some b" "u_issue_tick a = Some t" "u_issue_tick b = Some t'"
      for j k a b t t'
      using lane that unfolding lane_inv_def by blast
    have before: "(lane_of w = lane_of v \<longrightarrow> t + u_occupancy_ticks w \<le> now) \<and>
        (u_scheduling_class w = u_scheduling_class v \<longrightarrow> t + u_issue_interval_ticks v \<le> now)"
      if w: "uop_at s j = Some w" "u_issue_tick w = Some t" for j w t
    proof
      show "lane_of w = lane_of v \<longrightarrow> t + u_occupancy_ticks w \<le> now"
        using old [OF w] tv(3) sel(2,4) by auto
      show "u_scheduling_class w = u_scheduling_class v \<longrightarrow> t + u_issue_interval_ticks v \<le> now"
        using old [OF w] may keep(5,6) by (fastforce simp: may_issue_def)
    qed
    show ?thesis
      unfolding lane_inv_def
    proof (intro conjI allI impI, goal_cases)
      case (1 j w t)
      show ?case
      proof (cases "j = i")
        case True
        then have "w = v" "t = now" using 1 tv(1) by (auto simp: eff(1))
        then show ?thesis using tv(3) sel keep(7,8) by (simp add: eff(8))
      next
        case False
        then have w: "uop_at s j = Some w" "u_issue_tick w = Some t" using 1 by (auto simp: eff(1))
        then obtain r' l f where l: "lane_of w = Some (r', l)" "r' \<in> set (u_resource_choices w)"
          "map_of (z_resource_free s) r' = Some f" "l < length f" "t + u_occupancy_ticks w \<le> f ! l"
          using old [OF w] by blast
        show ?thesis
        proof (cases "r' = r")
          case True
          then have "f = free" using l(3) sel(2) by simp
          moreover have "t + u_occupancy_ticks w \<le> ?free ! l"
            using l(4,5) sel(4) occ0 \<open>f = free\<close> by (cases "l = lane0") auto
          ultimately show ?thesis using l True by (simp add: eff(8))
        qed (use l in \<open>simp add: eff(8)\<close>)
      qed
    next
      case (2 j w t)
      show ?case
      proof (cases "j = i")
        case True
        then have "w = v" "t = now" using 2 tv(1) by (auto simp: eff(1))
        then show ?thesis using keep(5) by (simp add: eff(9))
      next
        case False
        then have w: "uop_at s j = Some w" "u_issue_tick w = Some t" using 2 by (auto simp: eff(1))
        obtain t' where "map_of (z_last_class s) (u_scheduling_class w) = Some t'" "t \<le> t'"
          using old [OF w] by blast
        then show ?thesis using last [of "u_scheduling_class w" t'] by (auto simp: eff(9))
      qed
    next
      case (3 c t)
      then show ?case using last by (auto simp: eff(9) split: if_splits)
    next
      case (4 j k a b t t')
      then have "(j = i \<or> uop_at s j = Some a) \<and> (k = i \<or> uop_at s k = Some b)"
        by (auto simp: eff(1) split: if_splits)
      then consider "j = i" "a = v" "t = now" "uop_at s k = Some b" | "k = i" "b = v" "t' = now" "uop_at s j = Some a"
        | "uop_at s j = Some a" "uop_at s k = Some b"
        using 4 tv(1) by (auto simp: eff(1))
      then show ?case
        using 4 before [of j a t] before [of k b t'] pairs [of j k a b t t'] by cases auto
    next
      case (5 j k a b t t')
      then have "(j = i \<or> uop_at s j = Some a) \<and> (k = i \<or> uop_at s k = Some b)"
        by (auto simp: eff(1) split: if_splits)
      then consider "j = i" "a = v" "t = now" "uop_at s k = Some b" | "k = i" "b = v" "t' = now" "uop_at s j = Some a"
        | "uop_at s j = Some a" "uop_at s k = Some b"
        using 5 tv(1) by (auto simp: eff(1))
      then show ?case
        using 5 before [of j a t] before [of k b t'] pairs [of j k a b t t'] by cases auto
    qed
  qed
  moreover have "overlap_inv e s'" using ov eff(11) by (simp add: overlap_inv_def)
  ultimately show ?thesis using tables_static [OF tab eff(3)] eff(5) by (simp add: zinv_def)
qed

lemma zstep_keeps:
  assumes "zstep e (now, s) (now', s')" and inv: "zinv e (now, s)"
  shows "zinv e (now', s')"
  using assms(1)
proof (cases rule: zstep.cases)
  case (Complete t q i rest u)
  then show ?thesis using complete_keeps [OF inv, of t q i rest u s'] by simp
next
  case (Dispatch m)
  then show ?thesis using dispatch_keeps [OF inv, of m s'] by simp
next
  case (Probe h)
  then show ?thesis using annotated_keeps [OF inv] annotated_probe [of h s] by simp
next
  case (Stall i u r)
  have "annotated s (note_stall r u s)"
    using annotated_stall [where r = r] Stall(3) inv by (auto simp: zinv_def)
  from annotated_keeps [OF inv this] Stall(1,2) show ?thesis by simp
next
  case (Issue i u)
  then show ?thesis using issue_keeps [OF inv, of i u s'] by simp
next
  case (Retire i rest m c)
  then show ?thesis using retire_keeps [OF inv, of i rest m c] by simp
next
  case (Count p d)
  have "annotated s (s\<lparr>z_stalls := d, z_peaks := p\<rparr>)"
    using annotated_count inv by (auto simp: zinv_def)
  from annotated_keeps [OF inv this] Count show ?thesis by simp
next
  case Advance
  then show ?thesis using advance_keeps [OF inv] by simp
qed

end
