(* ===== verification/Zen4Run.thy ===== *)
theory Zen4Run
  imports Zen4Invariants
begin

text \<open>
  The engine functions as runs of the step relation: on a state that satisfies the invariant every
  phase of the event loop returns, and what it does is a sequence of steps.
\<close>

section \<open>Runs\<close>

abbreviation zsteps :: "zen4_env \<Rightarrow> int \<times> zen4_state \<Rightarrow> int \<times> zen4_state \<Rightarrow> bool" where
  "zsteps e \<equiv> (zstep e)\<^sup>*\<^sup>*"

definition zsafe :: "zen4_env \<Rightarrow> int \<times> zen4_state \<Rightarrow> bool" where
  "zsafe e ns \<longleftrightarrow> zinv e ns \<and> (\<forall>i\<in>set (z_unissued (snd ns)). uop_at (snd ns) i \<noteq> None)"

lemma zsafeD:
  assumes "zsafe e (now, s)"
  shows "zinv e (now, s)" "tables e s" "mem_wf (z_memory s)" "life_inv now s" "heap_inv s" "rob_inv e s"
    "i \<in> set (z_unissued s) \<Longrightarrow> \<exists>u. uop_at s i = Some u"
  using assms by (auto simp: zsafe_def zinv_def)

lemma macro_uops_known:
  assumes "tables e s" and "macro_at s i = Some m"
  shows "\<forall>j\<in>set (m_uop_ids m). uop_at s j \<noteq> None"
proof -
  have "macro_ok s m" using assms by (simp add: tables_def)
  then show ?thesis unfolding macro_ok_def by blast
qed

lemma heap_in_flight:
  assumes "heap_inv s" and "(t, q, i) \<in> set (z_heap s)"
  shows "\<exists>u. uop_at s i = Some u \<and> u_complete_tick u = None"
proof -
  have "in_flight s (t, q, i)" using assms by (simp add: heap_inv_def)
  then show ?thesis unfolding in_flight_def by blast
qed

lemma zstep_known:
  assumes "zstep e (now, s) (now', s')" and safe: "zsafe e (now, s)"
  shows "\<forall>i\<in>set (z_unissued s'). uop_at s' i \<noteq> None"
  using assms(1)
proof (cases rule: zstep.cases)
  case (Complete t q i rest u)
  have "tables e (s\<lparr>z_heap := rest\<rparr>)" by (rule tables_frame [OF zsafeD(2) [OF safe]]) simp_all
  from complete_uop_eq [OF this, of i u t] Complete show ?thesis using zsafeD(7) [OF safe] by fastforce
next
  case (Dispatch m)
  have mus: "\<forall>i\<in>set (m_uop_ids m). uop_at s i \<noteq> None"
    using macro_uops_known [OF zsafeD(2) [OF safe] Dispatch(3)] by blast
  obtain s2 where s2: "dispatch_macro now m s = Inr s2"
     "uop_at s2 = (\<lambda>i. if i \<in> set (m_uop_ids m) then map_option (u_dispatch_tick_update (\<lambda>_. Some now)) (uop_at s i)
        else uop_at s i)" "set (z_unissued s2) = set (z_unissued s) \<union> set (m_uop_ids m)"
    using dispatch_macro_eq [OF zsafeD(2) [OF safe] Dispatch(3), of now] by blast
  have "\<forall>i\<in>set (z_unissued s). uop_at s i \<noteq> None" using safe by (simp add: zsafe_def)
  then have "\<forall>i\<in>set (z_unissued s2). uop_at s2 i \<noteq> None" using mus by (auto simp: s2(2,3))
  then show ?thesis using Dispatch(5) s2(1) by simp
next
  case (Issue i u)
  from issue_uop_eq [OF zsafeD(2) [OF safe] Issue(3) zsafeD(3) [OF safe] Issue(2,4)] Issue(5)
  have "z_unissued s' = remove1 i (z_unissued s)" "\<exists>v. uop_at s' = (uop_at s)(i \<mapsto> v)" by auto
  then show ?thesis using zsafeD(7) [OF safe] by (auto dest: notin_set_remove1)
qed (use safe in \<open>simp_all add: zsafe_def note_stall_def leave_rob_def Let_def\<close>)

lemma zstep_safe: "zstep e (now, s) (now', s') \<Longrightarrow> zsafe e (now, s) \<Longrightarrow> zsafe e (now', s')"
  using zstep_keeps [of e now s now' s'] zstep_known [of e now s now' s'] by (simp add: zsafe_def)

lemma zsteps_safe: "zsteps e (now, s) (now', s') \<Longrightarrow> zsafe e (now, s) \<Longrightarrow> zsafe e (now', s')"
  by (induction rule: rtranclp_induct2) (auto intro: zstep_safe)

lemma zsteps_first:
  "zstep e x y \<Longrightarrow> zsteps e y z \<Longrightarrow> zsteps e x z"
  by (rule converse_rtranclp_into_rtranclp)

section \<open>Completion and dispatch\<close>

lemma complete_run:
  "zsafe e (now, s) \<Longrightarrow> \<exists>s' c. complete now s changed = Inr (s', c) \<and> zsteps e (now, s) (now, s') \<and>
     (\<forall>x\<in>set (z_heap s'). now < fst x) \<and> z_unissued s' = z_unissued s \<and> (c \<longrightarrow> changed \<or> s' \<noteq> s)"
proof (induction "length (z_heap s)" arbitrary: s changed)
  case 0
  then show ?case by (simp add: complete.simps [of now s])
next
  case (Suc n)
  obtain t q i rest where heap: "z_heap s = (t, q, i) # rest" using Suc.hyps by (cases "z_heap s") auto
  have sorted: "sorted (z_heap s)" using zsafeD(5) [OF Suc.prems] by (simp add: heap_inv_def)
  show ?case
  proof (cases "t \<le> now")
    case False
    moreover have "now < fst x" if "x \<in> set (z_heap s)" for x
    proof -
      have "(t, q, i) \<le> x" using that sorted by (auto simp: heap)
      then show ?thesis using False by (cases x) (auto simp: less_eq_prod_def)
    qed
    ultimately show ?thesis by (simp add: complete.simps [of now s] heap)
  next
    case True
    let ?s = "s\<lparr>z_heap := rest\<rparr>"
    obtain u where u: "uop_at s i = Some u" "u_complete_tick u = None"
      using heap_in_flight [OF zsafeD(5) [OF Suc.prems], of t q i] heap by auto
    have "tables e ?s" by (rule tables_frame [OF zsafeD(2) [OF Suc.prems]]) simp_all
    then obtain s2 where s2: "complete_uop t u ?s = Inr s2" "z_unissued s2 = z_unissued s" "z_heap s2 = rest"
      using complete_uop_eq [of e ?s i u t] u(1) by fastforce
    have step: "zstep e (now, s) (now, s2)" using zstep.Complete [OF heap True u s2(1)] .
    have "n = length (z_heap s2)" using Suc.hyps(2) heap s2(3) by simp
    from Suc.hyps(1) [OF this zstep_safe [OF step Suc.prems], of True]
    obtain s' c where s': "complete now s2 True = Inr (s', c)" "zsteps e (now, s2) (now, s')"
      "\<forall>x\<in>set (z_heap s'). now < fst x" "z_unissued s' = z_unissued s2" by blast
    have "complete now s changed = complete now s2 True"
      using u s2(1) True by (simp add: complete.simps [of now s] heap fetch_def Let_def)
    moreover have "s' \<noteq> s"
    proof
      assume "s' = s"
      then have "now < t" using s'(3) heap by auto
      then show False using True by simp
    qed
    ultimately show ?thesis using s' s2(2) zsteps_first [OF step] by auto
  qed
qed

lemma dispatch_run:
  "zsafe e (now, s) \<Longrightarrow> \<exists>s'. dispatch e now d s = Inr s' \<and> zsteps e (now, s) (now, s')"
proof (induction "length (e_macro_order e) - z_next_dispatch s" arbitrary: s d rule: less_induct)
  case less
  show ?case
  proof (cases "z_next_dispatch s < length (e_macro_order e) \<and> d < zp_dispatch_width (e_profile e)")
    case False
    then show ?thesis by (auto simp: dispatch.simps [of e now d s] Let_def)
  next
    case True
    let ?i = "e_macro_order e ! z_next_dispatch s"
    obtain m where m: "macro_at s ?i = Some m"
      using zsafeD(2) [OF less.prems] True by (fastforce simp: tables_def)
    show ?thesis
    proof (cases "zp_dispatch_width (e_profile e) < d + m_decoded_macro_ops m")
      case wide: True
      then show ?thesis using True m by (auto simp: dispatch.simps [of e now d s] Let_def fetch_def)
    next
      case fits: False
      show ?thesis
      proof (cases "dispatch_blocker e s m")
        case (Some r)
        have "zstep e (now, s) (now, s\<lparr>z_stalls := counter_add (z_stalls s) r 1\<rparr>)"
          using zstep.Count [of e now s "z_peaks s" "counter_add (z_stalls s) r 1"] by simp
        then show ?thesis using True m fits Some
          by (auto simp: dispatch.simps [of e now d s] Let_def fetch_def)
      next
        case None
        obtain s1 where s1: "dispatch_macro now m s = Inr s1" "z_next_dispatch s1 = Suc (z_next_dispatch s)"
          using dispatch_macro_eq [OF zsafeD(2) [OF less.prems] m, of now] by auto
        have step: "zstep e (now, s) (now, s1)" using zstep.Dispatch [OF _ m None s1(1)] True by simp
        have "length (e_macro_order e) - z_next_dispatch s1 < length (e_macro_order e) - z_next_dispatch s"
          using True s1(2) by auto
        from less.hyps [OF this zstep_safe [OF step less.prems], of "d + m_decoded_macro_ops m"]
        obtain s' where "dispatch e now (d + m_decoded_macro_ops m) s1 = Inr s'" "zsteps e (now, s1) (now, s')"
          by blast
        then show ?thesis using True m fits None s1(1) zsteps_first [OF step]
          by (auto simp: dispatch.simps [of e now d s] Let_def fetch_def)
      qed
    qed
  qed
qed

section \<open>Issue\<close>

lemma memory_same_uops: "z_uops (s\<lparr>z_memory := h\<rparr>) = z_uops s" "z_unissued (s\<lparr>z_memory := h\<rparr>) = z_unissued s"
  by simp_all

lemma issue_blocker_run:
  assumes safe: "zsafe e (now, s)" and u: "uop_at s i = Some u"
  obtains h r t where "issue_blocker e u now s = Inr (s\<lparr>z_memory := h\<rparr>, r, t)" "mem_wf h"
    "r = None \<Longrightarrow> may_issue e now (s\<lparr>z_memory := h\<rparr>) u" "zstep e (now, s) (now, s\<lparr>z_memory := h\<rparr>)"
proof -
  obtain h r t where b: "issue_blocker e u now s = Inr (s\<lparr>z_memory := h\<rparr>, r, t)" "mem_wf h"
    "r = None \<longrightarrow> may_issue e now (s\<lparr>z_memory := h\<rparr>) u"
    using issue_blocker_eq [OF zsafeD(2) [OF safe] u zsafeD(3) [OF safe]] by blast
  show ?thesis using that [OF b(1,2) _ zstep.Probe [OF b(2)]] b(3) by blast
qed

lemma issue_loop_run:
  "zsafe e (now, s) \<Longrightarrow> set is \<subseteq> set (z_unissued s) \<Longrightarrow> distinct is \<Longrightarrow>
     \<exists>s' b. issue_loop e now is s issued = Inr (s', b) \<and> zsteps e (now, s) (now, s')"
proof (induction "is" arbitrary: s issued)
  case (Cons i "is")
  obtain u where u: "uop_at s i = Some u" using zsafeD(7) [OF Cons.prems(1)] Cons.prems(2) by auto
  obtain h r t where b: "issue_blocker e u now s = Inr (s\<lparr>z_memory := h\<rparr>, r, t)"
    "r = None \<Longrightarrow> may_issue e now (s\<lparr>z_memory := h\<rparr>) u" "zstep e (now, s) (now, s\<lparr>z_memory := h\<rparr>)"
    using issue_blocker_run [OF Cons.prems(1) u] by metis
  let ?s1 = "s\<lparr>z_memory := h\<rparr>"
  have safe1: "zsafe e (now, ?s1)" using zstep_safe [OF b(3) Cons.prems(1)] .
  have u1: "uop_at ?s1 i = Some u" using u by simp
  show ?case
  proof (cases r)
    case (Some x)
    let ?s2 = "note_stall x u ?s1"
    have stall: "zstep e (now, ?s1) (now, ?s2)" by (rule zstep.Stall [OF u1])
    then have two: "zsteps e (now, s) (now, ?s2)" using b(3) by (meson r_into_rtranclp zsteps_first)
    have "z_unissued ?s2 = z_unissued s" by (simp add: note_stall_def)
    then have "set is \<subseteq> set (z_unissued ?s2)" "distinct is" using Cons.prems(2,3) by simp_all
    from Cons.IH [OF zstep_safe [OF stall safe1] this, of issued] obtain s' b' where
      "issue_loop e now is ?s2 issued = Inr (s', b')" "zsteps e (now, ?s2) (now, s')" by blast
    then show ?thesis using two u b(1) Some
      by (auto simp: fetch_def Let_def intro: rtranclp_trans)
  next
    case None
    have i: "i \<in> set (z_unissued ?s1)" using Cons.prems(2) by simp
    have mw: "mem_wf (z_memory ?s1)" using zsafeD(3) [OF safe1] .
    obtain s2 where s2: "issue_uop e u now ?s1 = Inr s2" "z_unissued s2 = remove1 i (z_unissued ?s1)"
      using issue_uop_eq [OF zsafeD(2) [OF safe1] u1 mw i b(2) [OF None]] by blast
    have step: "zstep e (now, ?s1) (now, s2)" by (rule zstep.Issue [OF i u1 b(2) [OF None] s2(1)])
    then have two: "zsteps e (now, s) (now, s2)" using b(3) by (meson r_into_rtranclp zsteps_first)
    have "set is \<subseteq> set (z_unissued s2)"
      using Cons.prems(2,3) by (auto simp: s2(2)) (metis in_set_remove1 subsetD)
    from Cons.IH [OF zstep_safe [OF step safe1] this, of True] Cons.prems(3) obtain s' b' where
      "issue_loop e now is s2 True = Inr (s', b')" "zsteps e (now, s2) (now, s')" by auto
    then show ?thesis using two u b(1) None s2(1)
      by (auto simp: fetch_def intro: rtranclp_trans)
  qed
qed auto

lemma zlookup_unissued:
  assumes "zsafe e (now, s)"
  shows "issue_candidates e s = Inr (if e_in_order e
     then (if z_issue_index s < length (e_uop_order e) \<and> e_uop_order e ! z_issue_index s \<in> set (z_unissued s)
       then [e_uop_order e ! z_issue_index s] else [])
     else map u_id (sort_key u_sequence (map (\<lambda>i. the (uop_at s i)) (z_unissued s))))"
  using zlookup_eq [of "z_unissued s" s] assms
  by (auto simp: issue_candidates_def zsafe_def Let_def)

lemma issue_candidates_run:
  assumes safe: "zsafe e (now, s)"
  obtains cs where "issue_candidates e s = Inr cs" "set cs \<subseteq> set (z_unissued s)" "distinct cs"
proof -
  have ids: "u_id (the (uop_at s i)) = i" if "i \<in> set (z_unissued s)" for i
    using zsafeD(7) [OF safe that] zsafeD(2) [OF safe] by (auto simp: tables_def)
  have same: "map u_id (map (\<lambda>i. the (uop_at s i)) (z_unissued s)) = z_unissued s"
    using ids by (simp add: map_idI)
  have dist: "distinct (z_unissued s)" using zsafeD(4) [OF safe] by (simp add: life_inv_def)
  have perm: "mset (map u_id (sort_key u_sequence (map (\<lambda>i. the (uop_at s i)) (z_unissued s)))) = mset (z_unissued s)"
    by (subst same [symmetric]) (simp del: map_map)
  from mset_eq_setD [OF perm] mset_eq_imp_distinct_iff [OF perm] dist zlookup_unissued [OF safe] that
  show ?thesis by (cases "e_in_order e") (auto split: if_splits)
qed

lemma issue_once_run:
  assumes "zsafe e (now, s)"
  shows "\<exists>s' b. issue_once e now s = Inr (s', b) \<and> zsteps e (now, s) (now, s')"
proof -
  obtain cs where "issue_candidates e s = Inr cs" "set cs \<subseteq> set (z_unissued s)" "distinct cs"
    using issue_candidates_run [OF assms] .
  then show ?thesis using issue_loop_run [OF assms, of cs False] by (simp add: issue_once_def)
qed

lemma issue_fixed_point_run:
  "zsafe e (now, s) \<Longrightarrow> \<exists>s'. issue_fixed_point e now s = Inr s' \<and> zsteps e (now, s) (now, s')"
proof (induction e now s rule: issue_fixed_point.induct)
  case (1 e now s)
  obtain s1 c where s1: "complete now s False = Inr (s1, c)" "zsteps e (now, s) (now, s1)"
    using complete_run [OF "1.prems"] by blast
  obtain s2 b where s2: "issue_once e now s1 = Inr (s2, b)" "zsteps e (now, s1) (now, s2)"
    using issue_once_run [OF zsteps_safe [OF s1(2) "1.prems"]] by blast
  have two: "zsteps e (now, s) (now, s2)" using s1(2) s2(2) by (rule rtranclp_trans)
  show ?case
  proof (cases "\<not> c \<and> \<not> b")
    case True
    then show ?thesis using s1(1) s2(1) two by (simp add: issue_fixed_point.simps [of e now s])
  next
    case False
    from "1.IH" [OF s1(1) refl s2(1) refl False zsteps_safe [OF two "1.prems"]] obtain s' where
      "issue_fixed_point e now s2 = Inr s'" "zsteps e (now, s2) (now, s')" by blast
    then show ?thesis using False s1(1) s2(1) two rtranclp_trans [of "zstep e"]
      by (auto simp: issue_fixed_point.simps [of e now s])
  qed
qed

section \<open>Retirement\<close>

lemma leave_rob_fields: "z_heap (leave_rob now m rest s) = z_heap s" "z_rob (leave_rob now m rest s) = rest"
  by (simp_all add: leave_rob_def Let_def)

lemma retire_from_run:
  "zsafe e (now, s) \<Longrightarrow> ids = z_rob s \<Longrightarrow>
     \<exists>s'. retire_from e now n ids s = Inr s' \<and> zsteps e (now, s) (now, s') \<and> z_heap s' = z_heap s"
proof (induction ids arbitrary: s n)
  case (Cons i rest)
  have rob: "z_rob s = i # rest" using Cons.prems(2) by simp
  have "set (z_rob s) \<subseteq> set (e_macro_order e)"
    using zsafeD(6) [OF Cons.prems(1)] by (auto simp: rob_inv_def dest!: in_set_dropD in_set_takeD)
  then obtain m where m: "macro_at s i = Some m"
    using zsafeD(2) [OF Cons.prems(1)] rob by (fastforce simp: tables_def)
  show ?case
  proof (cases "n < zp_retire_width (e_profile e) \<and> (\<exists>c. m_complete_tick m = Some c \<and> c \<le> now) \<and>
      n + m_retire_macro_ops m \<le> zp_retire_width (e_profile e)")
    case True
    then obtain c where c: "m_complete_tick m = Some c" "c \<le> now" by blast
    have step: "zstep e (now, s) (now, leave_rob now m rest s)" by (rule zstep.Retire [OF rob m c])
    from Cons.IH [OF zstep_safe [OF step Cons.prems(1)], of "n + m_retire_macro_ops m"]
    obtain s' where "retire_from e now (n + m_retire_macro_ops m) rest (leave_rob now m rest s) = Inr s'"
      "zsteps e (now, leave_rob now m rest s) (now, s')" "z_heap s' = z_heap s"
      by (auto simp: leave_rob_fields)
    then show ?thesis using True m c zsteps_first [OF step] by (auto simp: Let_def fetch_def)
  next
    case False
    then have "retire_from e now n (i # rest) s = Inr s"
      using m by (auto simp: Let_def fetch_def split: option.split)
    then show ?thesis by blast
  qed
qed simp

section \<open>The next event\<close>

lemma later_gt: "t \<in> set (later now ts) \<Longrightarrow> now < t"
  by (simp add: later_def)

lemma uop_event_ticks_run:
  assumes t: "tables e s" and u: "uop_at s i = Some u"
  shows "\<exists>ticks. uop_event_ticks s u now = Inr ticks \<and> (\<forall>t\<in>set ticks. now < t)"
proof -
  have ok: "uop_ok s u" using t u by (simp add: tables_def)
  then have ex: "lanes_exist s (u_resource_choices u)" by (simp add: uop_ok_def lanes_exist_def)
  have 1: "rmap (\<lambda>r. rbind (zget (z_resource_free s) r) zmin) (u_resource_choices u) =
      Inr (map (lane_min s) (u_resource_choices u))"
    by (rule rmap_total) (rule lane_min_eq [OF ex])
  have "\<exists>t. issue_domain_ready_tick s u d = Inr t" if "d \<in> set (u_issue_domains u)" for d
    using ok that issue_domain_ready_tick_eq [of s d _ u] unfolding uop_ok_def by blast
  then obtain g where 2: "rmap (issue_domain_ready_tick s u) (u_issue_domains u) = Inr (map g (u_issue_domains u))"
    using rmap_total [of "u_issue_domains u" "issue_domain_ready_tick s u"] by metis
  show ?thesis by (auto simp: uop_event_ticks_def 1 2 dest: later_gt simp del: map_map)
qed

lemma blocker_ticks_run:
  "zsafe e (now, s) \<Longrightarrow> \<forall>i\<in>set is. uop_at s i \<noteq> None \<Longrightarrow>
     \<exists>h ticks. blocker_ticks e now is s = Inr (s\<lparr>z_memory := h\<rparr>, ticks) \<and>
       zsteps e (now, s) (now, s\<lparr>z_memory := h\<rparr>) \<and> (\<forall>t\<in>set ticks. now < t)"
proof (induction "is" arbitrary: s)
  case Nil
  have "s = s\<lparr>z_memory := z_memory s\<rparr>" by simp
  then show ?case by (metis blocker_ticks.simps(1) empty_iff empty_set rtranclp.rtrancl_refl)
next
  case (Cons i "is")
  obtain u where u: "uop_at s i = Some u" using Cons.prems(2) by auto
  obtain h r t where b: "issue_blocker e u now s = Inr (s\<lparr>z_memory := h\<rparr>, r, t)"
    "zstep e (now, s) (now, s\<lparr>z_memory := h\<rparr>)"
    using issue_blocker_run [OF Cons.prems(1) u] by metis
  let ?s1 = "s\<lparr>z_memory := h\<rparr>"
  have safe1: "zsafe e (now, ?s1)" using zstep_safe [OF b(2) Cons.prems(1)] .
  obtain ticks where ticks: "uop_event_ticks ?s1 u now = Inr ticks" "\<forall>t\<in>set ticks. now < t"
    using uop_event_ticks_run [OF zsafeD(2) [OF safe1], of i u now] u by auto
  from Cons.IH [OF safe1] Cons.prems(2) obtain h' rest where
    "blocker_ticks e now is ?s1 = Inr (?s1\<lparr>z_memory := h'\<rparr>, rest)"
    "zsteps e (now, ?s1) (now, ?s1\<lparr>z_memory := h'\<rparr>)" "\<forall>t\<in>set rest. now < t" by auto
  then show ?case
    using u b(1) ticks zsteps_first [OF b(2)]
    by (auto simp: fetch_def dest!: later_gt split: option.splits)
qed

lemma next_event_run:
  assumes safe: "zsafe e (now, s)" and busy: "\<not> finished e s" and heap: "\<forall>x\<in>set (z_heap s). now < fst x"
  shows "\<exists>h t. next_event_tick e now s = Inr (s\<lparr>z_memory := h\<rparr>, t) \<and>
     zsteps e (now, s) (now, s\<lparr>z_memory := h\<rparr>) \<and> now < t \<and> t \<le> next_cycle e now \<and>
     (\<forall>x\<in>set (z_heap s). t \<le> fst x)"
proof -
  have tpc: "0 < e_tpc e" using zsafeD(2) [OF safe] by (simp add: tables_def)
  have cycle: "now < next_cycle e now"
    using pos_mod_bound [OF tpc, of now] div_mult_mod_eq [of now "e_tpc e"]
    unfolding next_cycle_def by (simp only: distrib_right mult_1)
  obtain cs where cs: "issue_candidates e s = Inr cs" "set cs \<subseteq> set (z_unissued s)"
    using issue_candidates_run [OF safe] .
  then have "\<forall>i\<in>set cs. uop_at s i \<noteq> None" using zsafeD(7) [OF safe] by fastforce
  from blocker_ticks_run [OF safe this] obtain h ticks where b:
    "blocker_ticks e now cs s = Inr (s\<lparr>z_memory := h\<rparr>, ticks)"
    "zsteps e (now, s) (now, s\<lparr>z_memory := h\<rparr>)" "\<forall>t\<in>set ticks. now < t" by blast
  define due where "due = (case z_heap s of [] \<Rightarrow> [] | (t, _, _) # _ \<Rightarrow> [t])"
  have due: "now < t" if "t \<in> set due" for t
    using that heap by (cases "z_heap s") (auto simp: due_def)
  have first: "\<exists>t\<in>set due. t \<le> fst x" if x: "x \<in> set (z_heap s)" for x
  proof -
    obtain y ys where y: "z_heap s = y # ys" using x by (cases "z_heap s") auto
    have "sorted (z_heap s)" using zsafeD(5) [OF safe] by (simp add: heap_inv_def)
    then have "y \<le> x" using x by (auto simp: y)
    then show ?thesis by (cases x; cases y) (auto simp: due_def y less_eq_prod_def)
  qed
  obtain t0 ts where ts: "due @ [next_cycle e now] @ ticks = t0 # ts"
    by (cases "due @ [next_cycle e now] @ ticks") auto
  have all: "t0 = t \<or> t \<in> set ts \<longleftrightarrow> t \<in> set due \<or> t = next_cycle e now \<or> t \<in> set ticks" for t
    using arg_cong [OF ts, of set] by auto
  have "next_event_tick e now s = Inr (s\<lparr>z_memory := h\<rparr>, min_of t0 ts)"
    using tpc busy cs(1) b(1) ts
    by (simp add: next_event_tick_def due_def [symmetric] finished_def not_le de_Morgan_conj [symmetric])
  moreover have "now < min_of t0 ts"
    unfolding less_min_of_iff using all due cycle b(3) by metis
  moreover have le: "min_of t0 ts \<le> t" if "t \<in> set due \<or> t = next_cycle e now" for t
    using min_of_le [of t t0 ts] all [of t] that by auto
  moreover have "min_of t0 ts \<le> fst x" if "x \<in> set (z_heap s)" for x
    using first [OF that] le by force
  ultimately show ?thesis using b(2) le by blast
qed

section \<open>The event loop\<close>

lemma run_phases_run:
  assumes safe: "zsafe e (now, s)"
  shows "\<exists>s'. run_phases e now s = Inr s' \<and> zsteps e (now, s) (now, s') \<and> (\<forall>x\<in>set (z_heap s'). now < fst x)"
proof -
  have tpc: "e_tpc e \<noteq> 0" using zsafeD(2) [OF safe] by (simp add: tables_def)
  define boundary where "boundary \<longleftrightarrow> now mod e_tpc e = 0"
  obtain s1 c1 where s1: "complete now s False = Inr (s1, c1)" "zsteps e (now, s) (now, s1)"
    using complete_run [OF safe] by blast
  obtain s2 where s2: "(if boundary then dispatch e now 0 s1 else Inr s1) = Inr s2" "zsteps e (now, s1) (now, s2)"
    using dispatch_run [OF zsteps_safe [OF s1(2) safe], of 0] by (cases boundary) auto
  have 2: "zsteps e (now, s) (now, s2)" using s1(2) s2(2) by (rule rtranclp_trans)
  obtain s3 where s3: "issue_fixed_point e now s2 = Inr s3" "zsteps e (now, s2) (now, s3)"
    using issue_fixed_point_run [OF zsteps_safe [OF 2 safe]] by blast
  have 3: "zsteps e (now, s) (now, s3)" using 2 s3(2) by (rule rtranclp_trans)
  obtain s4 c4 where s4: "complete now s3 False = Inr (s4, c4)" "zsteps e (now, s3) (now, s4)"
    "\<forall>x\<in>set (z_heap s4). now < fst x"
    using complete_run [OF zsteps_safe [OF 3 safe]] by blast
  have 4: "zsteps e (now, s) (now, s4)" using 3 s4(2) by (rule rtranclp_trans)
  obtain s5 where s5: "(if boundary then retire e now s4 else Inr s4) = Inr s5" "zsteps e (now, s4) (now, s5)"
    "z_heap s5 = z_heap s4"
    using retire_from_run [OF zsteps_safe [OF 4 safe] refl, of 0] by (cases boundary) (auto simp: retire_def)
  have 5: "zsteps e (now, s) (now, s5)" using 4 s5(2) by (rule rtranclp_trans)
  have "zstep e (now, s5) (now, record_peaks s5)"
    using zstep.Count [of e now s5 _ "z_stalls s5"] by (simp add: record_peaks_def)
  then have "zsteps e (now, s) (now, record_peaks s5)" by (rule rtranclp.rtrancl_into_rtrancl [OF 5])
  moreover have "run_phases e now s = Inr (record_peaks s5)"
    using s1(1) s2(1) s3(1) s4(1) s5(1) tpc
    by (simp add: run_phases_def boundary_def [symmetric] Let_def)
  moreover have "z_heap (record_peaks s5) = z_heap s4" by (simp add: record_peaks_def s5(3))
  ultimately show ?thesis using s4(3) by auto
qed

text \<open>The loop either exhausts its guard or ends with every macro-op retired; nothing else is raised.\<close>

lemma run_loop_run:
  "zsafe e (now, s) \<Longrightarrow> run_loop e fuel now s = Inl NotConverged \<or>
     (\<exists>s' total. run_loop e fuel now s = Inr (s', total) \<and> zsteps e (now, s) (total, s') \<and>
        finished e s' \<and> now \<le> total)"
proof (induction fuel arbitrary: now s)
  case 0
  then show ?case by (simp add: run_loop.simps [of e 0])
next
  case (Suc fuel)
  show ?case
  proof (cases "finished e s")
    case True
    then show ?thesis by (simp add: run_loop.simps [of e "Suc fuel"])
  next
    case False
    obtain s1 where s1: "run_phases e now s = Inr s1" "zsteps e (now, s) (now, s1)"
      "\<forall>x\<in>set (z_heap s1). now < fst x"
      using run_phases_run [OF Suc.prems] by blast
    show ?thesis
    proof (cases "finished e s1")
      case True
      then show ?thesis using False s1 by (simp add: run_loop.simps [of e "Suc fuel"])
    next
      case busy: False
      note safe1 = zsteps_safe [OF s1(2) Suc.prems]
      obtain h t where t: "next_event_tick e now s1 = Inr (s1\<lparr>z_memory := h\<rparr>, t)"
        "zsteps e (now, s1) (now, s1\<lparr>z_memory := h\<rparr>)" "now < t"
        using next_event_run [OF safe1 busy s1(3)] by blast
      let ?s2 = "s1\<lparr>z_memory := h\<rparr>"
      have "zsteps e (now, s) (now, ?s2)" using s1(2) t(2) by (rule rtranclp_trans)
      moreover have "zstep e (now, ?s2) (t, ?s2)" using t(3) by (rule zstep.Advance)
      ultimately have steps: "zsteps e (now, s) (t, ?s2)" by (rule rtranclp.rtrancl_into_rtrancl)
      have "run_loop e (Suc fuel) now s = run_loop e fuel t ?s2"
        using False busy s1(1) t(1,3) by (simp add: run_loop.simps [of e "Suc fuel"])
      with Suc.IH [OF zsteps_safe [OF steps Suc.prems]] show ?thesis
        using rtranclp_trans [OF steps] t(3) by fastforce
    qed
  qed
qed

end
