(* ===== verification/Zen4Start.thy ===== *)
theory Zen4Start
  imports Zen4Run
begin

text \<open>
  Construction: the engine built from a validated trace starts in a state that satisfies the
  invariant.  \<open>zen4_workload\<close> is what the binder guarantees beyond the validator: fresh records,
  at least one lane behind every resource choice, demands within the domain capacities, a
  reference on every memory uop and the vector flag exactly on macro-ops with a vector uop.
\<close>

definition zen4_uop :: "bound_trace \<Rightarrow> zen4_profile \<Rightarrow> execution_uop \<Rightarrow> bool" where
  "zen4_uop t p u \<longleftrightarrow>
     u_dispatch_tick u = None \<and> u_issue_tick u = None \<and> u_complete_tick u = None \<and>
     0 \<le> u_latency_ticks u \<and> 0 \<le> u_occupancy_ticks u \<and> u_resource_choices u \<noteq> [] \<and>
     (\<forall>r\<in>set (u_resource_choices u). \<forall>x. map_of (bt_resources t) r = Some x \<longrightarrow> 0 < r_capacity x) \<and>
     distinct (u_issue_domains u) \<and>
     (\<forall>d\<in>set (u_issue_domains u). \<forall>c. map_of (zp_issue_domains p) d = Some c \<longrightarrow>
        1 \<le> issue_domain_demand u d \<and> issue_domain_demand u d \<le> c) \<and>
     (is_memory_kind (u_kind u) \<longrightarrow> (\<exists>m. u_memory u = Some m \<and> access_kind m))"

definition zen4_macro :: "bound_trace \<Rightarrow> macro_op \<Rightarrow> bool" where
  "zen4_macro t m \<longleftrightarrow>
     m_dispatch_tick m = None \<and> m_complete_tick m = None \<and> m_retire_tick m = None \<and>
     (m_uses_vector_scheduler m \<longleftrightarrow>
        (\<exists>u\<in>set (bt_uops t). u_id u \<in> set (m_uop_ids m) \<and> u_kind u \<in> set VECTOR_RESOURCE_KINDS))"

definition zen4_workload :: "bound_trace \<Rightarrow> zen4_profile \<Rightarrow> bool" where
  "zen4_workload t p \<longleftrightarrow> 0 < bt_ticks_per_cycle t \<and> profile_ok (zp_memory p) \<and>
     fits_below (zp_memory p) (trace_lines (bt_source_trace t)) \<and>
     (\<forall>u\<in>set (bt_uops t). zen4_uop t p u) \<and> (\<forall>m\<in>set (bt_macros t). zen4_macro t m)"

lemma map_of_id: "distinct (map f xs) \<Longrightarrow> map_of (map (\<lambda>x. (f x, x)) xs) i = Some x \<longleftrightarrow> x \<in> set xs \<and> f x = i"
  by (subst map_of_eq_Some_iff) (auto simp: o_def)

lemma map_of_id_None: "map_of (map (\<lambda>x. (f x, x)) xs) i = None \<longleftrightarrow> i \<notin> f ` set xs"
  by (simp add: map_of_eq_None_iff image_comp o_def)

lemma map_of_map_snd: "map_of (map (\<lambda>(k, v). (k, f v)) d) k = map_option f (map_of d k)"
  by (induction d) auto

lemma map_of_fold_update: "map_of (fold (\<lambda>(i, u) d. AList.update i u d) es d) = map_of d ++ map_of (rev es)"
  by (induction es arbitrary: d) (auto simp: map_add_upd_left fun_eq_iff map_add_def split: option.split)

lemma macro_group_known:
  assumes "macro_group k kinds uops m = Inr ids" and "i \<in> set ids"
  shows "map_of uops i \<noteq> None"
proof -
  obtain entries where es: "rmap (\<lambda>i. rbind (zget uops i) (\<lambda>u. Inr (i, u))) (m_uop_ids m) = Inr entries"
    using assms(1) by (auto simp: macro_group_def rbind_eq_Inr_iff)
  define X where "X = fold (\<lambda>(i, u) d. AList.update i u d) entries []"
  have "\<exists>P. ids = map fst (filter P X)"
    using assms(1) es unfolding macro_group_def
    by (simp add: X_def [symmetric] Let_def split: if_splits) (metis filter_False list.simps(8), blast)
  then have "i \<in> set (keys X)" using assms(2) by (auto simp: keys_def)
  then have "i \<in> fst ` set entries"
    by (force simp: keys_map_of X_def map_of_fold_update dest: map_of_SomeD)
  moreover have "fst x \<in> set (keys uops)" if "x \<in> set entries" for x
  proof -
    have "list_all2 (\<lambda>i x. \<exists>u. map_of uops i = Some u \<and> x = (i, u)) (m_uop_ids m) entries"
      using es by (auto simp: rmap_Inr_iff rbind_eq_Inr_iff elim!: list_all2_mono)
    then show ?thesis using that by (auto simp: list_all2_conv_all_nth in_set_conv_nth [of x entries] keys_map_of)
  qed
  ultimately show ?thesis by (auto simp: keys_map_of)
qed

lemma discover_groups_known:
  assumes "discover_groups k kinds uops macros = Inr groups"
  shows "\<forall>p ids. map_of groups p = Some ids \<longrightarrow> (\<forall>i\<in>set ids. map_of uops i \<noteq> None)"
proof -
  let ?I = "\<lambda>g. \<forall>p ids. map_of g p = Some ids \<longrightarrow> (\<forall>i\<in>set ids. map_of uops i \<noteq> None)"
  let ?f = "\<lambda>macro groups. rbind (macro_group k kinds uops macro) (\<lambda>ids.
       Inr (if ids = [] then groups else AList.update (m_id macro) ids groups))"
  have "wp (\<lambda>_. True) ?I (rfold ?f macros [])"
  proof (rule wp_rfold)
    fix m and g :: "(string, string list) dict" assume inv: "?I g"
    show "wp (\<lambda>_. True) ?I (?f m g)"
      using macro_group_known [of k kinds uops m] inv
      by (intro wpI) (auto simp: rbind_eq_Inr_iff split: if_splits)
  qed simp
  then show ?thesis using assms by (simp add: discover_groups_def)
qed

lemma make_engine_cases:
  assumes "make_engine t p model mode limit = Inr (e, s)"
  shows "well_formed_trace t" "make_hierarchy (zp_memory p) (bt_source_trace t) mode = Inr (z_memory s)"
    "z_uops s = map (\<lambda>u. (u_id u, u)) (bt_uops t)" "z_macros s = map (\<lambda>m. (m_id m, m)) (bt_macros t)"
    "z_resource_free s = map (\<lambda>(i, r). (i, replicate (r_capacity r) 0)) (bt_resources t)"
    "z_domain_free s = map (\<lambda>(d, capacity). (d, replicate (nat capacity) 0)) (zp_issue_domains p)"
    "e_tpc e = bt_ticks_per_cycle t" "e_macro_order e = map m_id (bt_macros t)"
    "e_uop_order e = map u_id (bt_uops t)"
    "\<forall>u\<in>set (bt_uops t). \<forall>d\<in>set (u_issue_domains u). map_of (zp_issue_domains p) d \<noteq> None"
    "\<forall>q ids. map_of (e_groups e) q = Some ids \<longrightarrow> (\<forall>i\<in>set ids. uop_at s i \<noteq> None)"
    "e_profile e = p"
    "s = s\<lparr>z_rob := [], z_unissued := [], z_heap := [], z_last_class := [], z_pending_groups := [],
       z_next_dispatch := 0, z_issue_index := 0, z_rob_occupancy := 0, z_vector_occupancy := 0,
       z_load_occupancy := 0, z_store_occupancy := 0, z_events := []\<rparr>"
proof -
  let ?free = "map (\<lambda>(d, capacity). (d, replicate (nat capacity) (0::int))) (zp_issue_domains p)"
  have unknown: "\<forall>u\<in>set (bt_uops t). \<forall>d\<in>set (u_issue_domains u). map_of (zp_issue_domains p) d \<noteq> None"
  proof -
    have "unknown_domains t ?free = []"
      using assms by (auto simp: make_engine_def rbind_eq_Inr_iff Let_def)
    then have "set (unknown_domains t ?free) = {}" by simp
    then have "\<forall>u\<in>set (bt_uops t). \<forall>d\<in>set (u_issue_domains u). d \<in> set (keys ?free)"
      by (auto simp: unknown_domains_def)
    then show ?thesis by (auto simp: keys_map_of map_of_map_snd)
  qed
  have "validate_bound_trace t = Inr ()"
    using assms by (auto simp: make_engine_def rbind_eq_Inr_iff lift_trace_def split: sum.splits)
  then show "well_formed_trace t" by (simp add: validate_iff)
  show "\<forall>u\<in>set (bt_uops t). \<forall>d\<in>set (u_issue_domains u). map_of (zp_issue_domains p) d \<noteq> None"
    by (rule unknown)
  show "\<forall>q ids. map_of (e_groups e) q = Some ids \<longrightarrow> (\<forall>i\<in>set ids. uop_at s i \<noteq> None)"
    using assms by (auto simp: make_engine_def rbind_eq_Inr_iff Let_def dest!: discover_groups_known)
qed (use assms in \<open>auto simp: make_engine_def rbind_eq_Inr_iff lift_mem_def Let_def split: sum.splits\<close>)

lemma make_engine_tables:
  assumes mk: "make_engine t p model mode limit = Inr (e, s)" and ok: "zen4_workload t p"
  shows "tables e s"
proof -
  note c = make_engine_cases [OF mk]
  have du: "distinct (map u_id (bt_uops t))" and dm: "distinct (map m_id (bt_macros t))"
    using c(1) by (auto simp: well_formed_trace_def)
  have U: "uop_at s i = Some u \<longleftrightarrow> u \<in> set (bt_uops t) \<and> u_id u = i" for i u
    using map_of_id [OF du] by (simp add: c(3))
  have M: "macro_at s i = Some m \<longleftrightarrow> m \<in> set (bt_macros t) \<and> m_id m = i" for i m
    using map_of_id [OF dm] by (simp add: c(4))
  have UN: "uop_at s i = None \<longleftrightarrow> i \<notin> u_id ` set (bt_uops t)" for i
    by (simp add: c(3) map_of_id_None)
  have MN: "macro_at s i = None \<longleftrightarrow> i \<notin> m_id ` set (bt_macros t)" for i
    by (simp add: c(4) map_of_id_None)
  have owner: "\<exists>m. macro_at s (u_parent_id u) = Some m \<and> u_id u \<in> set (m_uop_ids m)" if u: "u \<in> set (bt_uops t)" for u
  proof -
    have "u_id u \<in> (\<Union>m\<in>set (bt_macros t). set (m_uop_ids m))" using c(1) u by (simp add: well_formed_trace_def)
    then obtain m where m: "m \<in> set (bt_macros t)" "u_id u \<in> set (m_uop_ids m)" by blast
    then obtain v where v: "map_of (uop_dict t) (u_id u) = Some v" "u_parent_id v = m_id m"
      using c(1) unfolding well_formed_trace_def macro_well_formed_def by blast
    have "map_of (uop_dict t) (u_id u) = Some u" using map_of_id [OF du, of "u_id u" u] u by (simp add: uop_dict_def)
    then have "m_id m = u_parent_id u" using v by simp
    then show ?thesis using M [of "u_parent_id u" m] m by auto
  qed
  have uop: "uop_ok s u" if u: "u \<in> set (bt_uops t)" for u
  proof -
    have wf: "uop_well_formed t u" and z: "zen4_uop t p u"
      using c(1) ok u by (auto simp: well_formed_trace_def zen4_workload_def)
    have "\<exists>free. map_of (z_resource_free s) r = Some free \<and> free \<noteq> []" if r: "r \<in> set (u_resource_choices u)" for r
    proof -
      obtain x where "map_of (bt_resources t) r = Some x"
        using wf r unfolding uop_well_formed_def by (metis keys_map_of not_Some_eq subsetD)
      moreover from this have "0 < r_capacity x" using z r unfolding zen4_uop_def by blast
      ultimately show ?thesis by (simp add: c(5) map_of_map_snd)
    qed
    moreover have "\<exists>free. map_of (z_domain_free s) d = Some free \<and> 1 \<le> issue_domain_demand u d \<and>
        issue_domain_demand u d \<le> int (length free)" if d: "d \<in> set (u_issue_domains u)" for d
    proof -
      obtain n where n: "map_of (zp_issue_domains p) d = Some n" using c(10) u d by blast
      then have "1 \<le> issue_domain_demand u d \<and> issue_domain_demand u d \<le> n"
        using z d unfolding zen4_uop_def by blast
      then show ?thesis by (simp add: c(6) map_of_map_snd n)
    qed
    ultimately show ?thesis using owner [OF u] wf z
      unfolding uop_ok_def uop_well_formed_def zen4_uop_def by (auto simp: UN)
  qed
  have macro: "macro_ok s m" if m: "m \<in> set (bt_macros t)" for m
  proof -
    have wf: "macro_well_formed t m" and z: "zen4_macro t m"
      using c(1) ok m by (auto simp: well_formed_trace_def zen4_workload_def)
    have "\<forall>i\<in>set (m_uop_ids m). \<exists>u. uop_at s i = Some u \<and> u_parent_id u = m_id m"
      using wf by (simp add: macro_well_formed_def uop_dict_def c(3))
    moreover have "(\<exists>i\<in>set (m_uop_ids m). \<exists>u. uop_at s i = Some u \<and> Q u) \<longleftrightarrow>
        (\<exists>u\<in>set (bt_uops t). u_id u \<in> set (m_uop_ids m) \<and> Q u)" for Q
      by (auto simp: U)
    ultimately show ?thesis using wf z unfolding macro_ok_def macro_well_formed_def zen4_macro_def by simp
  qed
  have "\<forall>i. uop_at s i \<noteq> None \<longleftrightarrow> i \<in> set (e_uop_order e)" by (simp add: UN c(9))
  moreover have "\<forall>i. macro_at s i \<noteq> None \<longleftrightarrow> i \<in> set (e_macro_order e)" by (simp add: MN c(8))
  moreover have "\<forall>i u. uop_at s i = Some u \<longrightarrow> u_id u = i \<and> uop_ok s u" using U uop by metis
  moreover have "\<forall>i m. macro_at s i = Some m \<longrightarrow> m_id m = i \<and> macro_ok s m" using M macro by metis
  moreover have "distinct (e_macro_order e)" "0 < e_tpc e"
    using dm ok by (simp_all add: c(7,8) zen4_workload_def)
  ultimately show ?thesis unfolding tables_def using c(11) by (intro conjI)
qed

lemma start_safe:
  assumes mk: "make_engine t p model mode limit = Inr (e, s)" and ok: "zen4_workload t p"
  shows "zsafe e (0, s)"
proof -
  note c = make_engine_cases [OF mk]
  note tab = make_engine_tables [OF mk ok]
  have f: "z_rob s = []" "z_unissued s = []" "z_heap s = []" "z_last_class s = []" "z_pending_groups s = []"
    "z_next_dispatch s = 0" "z_rob_occupancy s = 0" "z_vector_occupancy s = 0"
    "z_load_occupancy s = 0" "z_store_occupancy s = 0"
    by (subst c(13), simp)+
  have u0: "zen4_uop t p u" if "uop_at s i = Some u" for i u
    using that ok by (auto simp: c(3) zen4_workload_def dest!: map_of_SomeD)
  have m0: "zen4_macro t m" if "macro_at s i = Some m" for i m
    using that ok by (auto simp: c(4) zen4_workload_def dest!: map_of_SomeD)
  have mem: "mem_wf (z_memory s)"
    using make_hierarchy_resident [OF c(2)] ok by (simp add: zen4_workload_def)
  have "rob_inv e s" using m0 by (auto simp: rob_inv_def f zen4_macro_def)
  moreover have "(case macro_at s i of None \<Rightarrow> 0 | Some m \<Rightarrow> of_bool (vector_waiting s m)) = (0::int)" for i
    using m0 [of i] by (auto simp: vector_waiting_def zen4_macro_def split: option.split)
  then have "vector_sum e s = 0" by (simp add: vector_sum_def)
  then have "occupancy_inv e s" by (simp add: occupancy_inv_def f rob_sum_def)
  moreover have "life_inv 0 s"
    using u0 m0 unfolding life_inv_def uop_live_def by (fastforce simp: f zen4_uop_def zen4_macro_def)
  moreover have "heap_inv s"
    using u0 by (fastforce simp: heap_inv_def f in_flight_def zen4_uop_def)
  moreover have "macro_inv e 0 s"
  proof -
    have "macro_live 0 s m" if m: "macro_at s i = Some m" for i m
    proof -
      have "macro_ok s m" using tab m by (simp add: tables_def)
      then obtain j where j: "j \<in> set (m_uop_ids m)" unfolding macro_ok_def by (cases "m_uop_ids m") auto
      have "\<not> done_at s j" using u0 [of j] by (auto simp: done_at_def zen4_uop_def)
      with j m0 [OF m] show ?thesis by (auto simp: macro_live_def zen4_macro_def)
    qed
    then show ?thesis using m0 by (fastforce simp: macro_inv_def zen4_macro_def)
  qed
  moreover have "lane_inv 0 s" using u0 by (fastforce simp: lane_inv_def f zen4_uop_def)
  moreover have "overlap_inv e s" by (simp add: overlap_inv_def f)
  ultimately show ?thesis using tab mem by (simp add: zsafe_def zinv_def f)
qed

end
