(* ===== verification/Zen4Groups.thy ===== *)
theory Zen4Groups
  imports Zen4
begin

text \<open>
  The dependency search behind the memory-compute groups decides reachability in the dependency
  graph of the macro-op's uops.
\<close>

definition dependency_rel :: "(string, execution_uop) dict \<Rightarrow> (string \<times> string) set" where
  "dependency_rel uops = {(i, d). \<exists>u. map_of uops i = Some u \<and> d \<in> set (u_dependencies u)}"

definition reaches_any :: "(string, execution_uop) dict \<Rightarrow> string set \<Rightarrow> string set \<Rightarrow> bool" where
  "reaches_any uops targets from \<longleftrightarrow> (\<exists>y\<in>from. \<exists>x\<in>targets. (y, x) \<in> (dependency_rel uops)\<^sup>*)"

text \<open>A path that leaves a set of visited nodes leaves it through the frontier.\<close>

lemma path_leaves:
  assumes "(a, x) \<in> R\<^sup>*" and "a \<in> V" and "x \<notin> V"
    and closed: "\<And>v w. v \<in> V \<Longrightarrow> (v, w) \<in> R \<Longrightarrow> w \<in> V \<or> w \<in> P"
  shows "\<exists>y\<in>P - V. (y, x) \<in> R\<^sup>*"
  using assms(1,2)
proof (induction rule: converse_rtrancl_induct)
  case base
  then show ?case using assms(3) by simp
next
  case (step y z)
  then show ?case using closed [of y z] by blast
qed

definition dead_end :: "(string, execution_uop) dict \<Rightarrow> string set \<Rightarrow> string set" where
  "dead_end uops targets = {w. map_of uops w = None \<and> w \<notin> targets}"

lemma dead_end_stays: "w \<in> dead_end uops targets \<Longrightarrow> (w, x) \<in> (dependency_rel uops)\<^sup>* \<Longrightarrow> x \<notin> targets"
  by (auto simp: dead_end_def dependency_rel_def elim: converse_rtranclE)

definition search_inv :: "(string, execution_uop) dict \<Rightarrow> string set \<Rightarrow> string set \<Rightarrow> string set \<Rightarrow> bool" where
  "search_inv uops targets visited pending \<longleftrightarrow> visited \<inter> targets = {} \<and>
     (\<forall>v\<in>visited. \<forall>w. (v, w) \<in> dependency_rel uops \<longrightarrow> w \<in> visited \<or> w \<in> pending \<union> dead_end uops targets)"

lemma visited_reaches:
  assumes inv: "search_inv uops targets visited pending" and "d \<in> visited" and "x \<in> targets"
    and "(d, x) \<in> (dependency_rel uops)\<^sup>*"
  shows "reaches_any uops targets (pending - visited)"
proof -
  have "x \<notin> visited" using inv assms(3) by (auto simp: search_inv_def)
  then obtain y where "y \<in> (pending \<union> dead_end uops targets) - visited" "(y, x) \<in> (dependency_rel uops)\<^sup>*"
    using path_leaves [OF assms(4,2), of "pending \<union> dead_end uops targets"] inv
    unfolding search_inv_def by blast
  then show ?thesis using dead_end_stays assms(3) unfolding reaches_any_def by blast
qed

lemma reaches_any_insert:
  "reaches_any uops targets (insert d A) \<longleftrightarrow>
     (\<exists>x\<in>targets. (d, x) \<in> (dependency_rel uops)\<^sup>*) \<or> reaches_any uops targets A"
  by (auto simp: reaches_any_def)

lemma reaches_target_iff:
  "search_inv uops (set targets) (set visited) (set pending) \<Longrightarrow>
     reaches_target targets uops pending visited \<longleftrightarrow> reaches_any uops (set targets) (set pending)"
proof (induction targets uops pending visited rule: reaches_target.induct)
  case (1 targets uops pending visited)
  let ?R = "dependency_rel uops" and ?T = "set targets"
  show ?case
  proof (cases "pending = []")
    case True
    then show ?thesis by (simp add: reaches_target.simps [of targets] reaches_any_def)
  next
    case ne: False
    define d rest where "d = last pending" and "rest = butlast pending"
    have split: "set pending = insert d (set rest)"
      using ne append_butlast_last_id [OF ne] by (metis d_def rest_def list.set(1,2) set_append Un_insert_right sup_bot_right)
    note step = reaches_target.simps [of targets uops pending visited] ne d_def [symmetric] rest_def [symmetric]
    show ?thesis
    proof (cases "d \<in> ?T")
      case True
      then show ?thesis using step by (auto simp: split reaches_any_def Let_def)
    next
      case out: False
      show ?thesis
      proof (cases "d \<in> set visited")
        case True
        then have inv: "search_inv uops ?T (set visited) (set rest)"
          using "1.prems" by (auto simp: search_inv_def split)
        have "reaches_target targets uops rest visited = reaches_any uops ?T (set rest)"
          using "1.IH"(1) [OF ne d_def rest_def out True inv] .
        moreover have "reaches_any uops ?T (set rest)" if "x \<in> ?T" "(d, x) \<in> ?R\<^sup>*" for x
          using visited_reaches [OF inv True that] by (auto simp: reaches_any_def)
        ultimately show ?thesis using step out True by (auto simp: split reaches_any_insert Let_def)
      next
        case new: False
        show ?thesis
        proof (cases "map_of uops d")
          case None
          then have dead: "d \<in> dead_end uops ?T" using out by (simp add: dead_end_def)
          then have "search_inv uops ?T (set visited) (set rest)"
            using "1.prems" by (auto simp: search_inv_def split)
          from "1.IH"(2) [OF ne d_def rest_def out new None this] show ?thesis
            using step out new None dead_end_stays [OF dead] by (auto simp: split reaches_any_insert Let_def)
        next
          case (Some u)
          then have succ: "(d, w) \<in> ?R \<longleftrightarrow> w \<in> set (u_dependencies u)" for w
            by (simp add: dependency_rel_def)
          have "search_inv uops ?T (set (d # visited)) (set (rest @ u_dependencies u))"
            using "1.prems" out by (auto simp: search_inv_def split succ)
          from "1.IH"(3) [OF ne d_def rest_def out new Some this]
          have "reaches_target targets uops (rest @ u_dependencies u) (d # visited) =
              reaches_any uops ?T (set rest \<union> set (u_dependencies u))" by simp
          moreover have "(\<exists>x\<in>?T. (d, x) \<in> ?R\<^sup>*) \<longleftrightarrow> reaches_any uops ?T (set (u_dependencies u))"
            using out succ unfolding reaches_any_def
            by (metis converse_rtrancl_into_rtrancl converse_rtranclE)
          ultimately show ?thesis using step out new Some
            by (auto simp: split reaches_any_insert Let_def reaches_any_def)
        qed
      qed
    qed
  qed
qed

text \<open>
  C15. \<open>_depends_transitively_on_any\<close> decides exactly whether some target is reachable from the
  uop through one or more dependency edges inside the macro-op; cycles and references that leave
  the macro-op do not matter.
\<close>

theorem depends_transitively_iff:
  "depends_transitively_on_any u targets uops \<longleftrightarrow>
     (\<exists>d\<in>set (u_dependencies u). \<exists>x\<in>set targets. (d, x) \<in> (dependency_rel uops)\<^sup>*)"
  using reaches_target_iff [of uops targets "[]" "u_dependencies u"]
  by (simp add: depends_transitively_on_any_def search_inv_def reaches_any_def)

end
