(* ===== verification/PyText.thy ===== *)
theory PyText
  imports Prelude
begin

text \<open>
  The string operations of the Python standard library that the frontends use, on ASCII text:
  \<open>str.strip\<close>, \<open>str.lower\<close>, \<open>startswith\<close>, \<open>removeprefix\<close>, \<open>split(sep, 1)[0]\<close>, \<open>int(s, 0)\<close> and
  the decimal \<open>f"{n}"\<close>.
\<close>

section \<open>Characters\<close>

definition code :: "char \<Rightarrow> nat" where "code c = of_char c"

definition py_space :: "char \<Rightarrow> bool" where
  "py_space c \<longleftrightarrow> (9 \<le> code c \<and> code c \<le> 13) \<or> (28 \<le> code c \<and> code c \<le> 32)"

definition is_digit :: "char \<Rightarrow> bool" where
  "is_digit c \<longleftrightarrow> 48 \<le> code c \<and> code c \<le> 57"

definition is_upper :: "char \<Rightarrow> bool" where
  "is_upper c \<longleftrightarrow> 65 \<le> code c \<and> code c \<le> 90"

definition is_lower :: "char \<Rightarrow> bool" where
  "is_lower c \<longleftrightarrow> 97 \<le> code c \<and> code c \<le> 122"

definition is_letter :: "char \<Rightarrow> bool" where
  "is_letter c \<longleftrightarrow> is_upper c \<or> is_lower c"

definition lower_char :: "char \<Rightarrow> char" where
  "lower_char c = (if is_upper c then char_of (code c + 32) else c)"

text \<open>The same tests on the bits of a character, for evaluation.\<close>

lemma code_Char: "code (Char b0 b1 b2 b3 b4 b5 b6 b7) =
    of_bool b0 + 2 * (of_bool b1 + 2 * (of_bool b2 + 2 * (of_bool b3 + 2 * (of_bool b4 + 2 * (of_bool b5 +
      2 * (of_bool b6 + 2 * of_bool b7))))))"
  by (simp add: code_def of_char_def)

lemma is_digit_code [code]: "is_digit (Char b0 b1 b2 b3 b4 b5 b6 b7) \<longleftrightarrow>
    \<not> b7 \<and> \<not> b6 \<and> b5 \<and> b4 \<and> (\<not> b3 \<or> \<not> b2 \<and> \<not> b1)"
  by (cases b0; cases b1; cases b2; cases b3; cases b4; cases b5; cases b6; cases b7; simp add: is_digit_def code_Char)

lemma is_upper_code [code]: "is_upper (Char b0 b1 b2 b3 b4 b5 b6 b7) \<longleftrightarrow>
    \<not> b7 \<and> b6 \<and> \<not> b5 \<and> (b0 \<or> b1 \<or> b2 \<or> b3 \<or> b4) \<and> \<not> (b4 \<and> b3 \<and> (b2 \<or> b1 \<and> b0))"
  by (cases b0; cases b1; cases b2; cases b3; cases b4; cases b5; cases b6; cases b7; simp add: is_upper_def code_Char)

lemma is_lower_code [code]: "is_lower (Char b0 b1 b2 b3 b4 b5 b6 b7) \<longleftrightarrow>
    \<not> b7 \<and> b6 \<and> b5 \<and> (b0 \<or> b1 \<or> b2 \<or> b3 \<or> b4) \<and> \<not> (b4 \<and> b3 \<and> (b2 \<or> b1 \<and> b0))"
  by (cases b0; cases b1; cases b2; cases b3; cases b4; cases b5; cases b6; cases b7; simp add: is_lower_def code_Char)

lemma py_space_code [code]: "py_space (Char b0 b1 b2 b3 b4 b5 b6 b7) \<longleftrightarrow>
    \<not> b7 \<and> \<not> b6 \<and>
    (if b5 then \<not> b4 \<and> \<not> b3 \<and> \<not> b2 \<and> \<not> b1 \<and> \<not> b0
     else if b4 then b3 \<and> b2
     else b3 \<and> (if b2 then \<not> b1 else b1 \<or> b0))"
  by (cases b0; cases b1; cases b2; cases b3; cases b4; cases b5; cases b6; cases b7; simp add: py_space_def code_Char)

lemma lower_char_code [code]: "lower_char (Char b0 b1 b2 b3 b4 b5 b6 b7) =
    Char b0 b1 b2 b3 b4 (b5 \<or> is_upper (Char b0 b1 b2 b3 b4 b5 b6 b7)) b6 b7"
proof (cases "is_upper (Char b0 b1 b2 b3 b4 b5 b6 b7)")
  case True
  have "char_of (code (Char b0 b1 b2 b3 b4 b5 b6 b7) + 32) = Char b0 b1 b2 b3 b4 True b6 b7"
    using True
    by (cases b0; cases b1; cases b2; cases b3; cases b4; cases b5; cases b6; cases b7;
        simp add: is_upper_code code_Char char_of_def bit_0)
  then show ?thesis using True by (simp add: lower_char_def)
qed (simp add: lower_char_def)

section \<open>Strings\<close>

definition lower :: "string \<Rightarrow> string" where
  "lower s = map lower_char s"

definition lstrip :: "string \<Rightarrow> string" where
  "lstrip s = dropWhile py_space s"

definition strip :: "string \<Rightarrow> string" where
  "strip s = rev (dropWhile py_space (rev (dropWhile py_space s)))"

definition startswith :: "string \<Rightarrow> string \<Rightarrow> bool" where
  "startswith s p \<longleftrightarrow> take (length p) s = p"

definition endswith :: "string \<Rightarrow> string \<Rightarrow> bool" where
  "endswith s p \<longleftrightarrow> length p \<le> length s \<and> drop (length s - length p) s = p"

definition removeprefix :: "string \<Rightarrow> string \<Rightarrow> string" where
  "removeprefix s p = (if startswith s p then drop (length p) s else s)"

text \<open>\<open>s.split(c, 1)[0]\<close>.\<close>

definition before_char :: "char \<Rightarrow> string \<Rightarrow> string" where
  "before_char c s = takeWhile (\<lambda>x. x \<noteq> c) s"

fun join :: "string \<Rightarrow> string list \<Rightarrow> string" where
  "join sep [] = ''''"
| "join sep [x] = x"
| "join sep (x # y # ys) = x @ sep @ join sep (y # ys)"

section \<open>Numbers\<close>

text \<open>
  \<open>int(s, 0)\<close>: surrounding whitespace, a sign, a radix prefix, digits with single underscores
  between them (and after the prefix); a decimal literal may not start with a zero unless it is
  zero.  \<open>None\<close> is \<open>ValueError\<close>.
\<close>

definition digit_value :: "char \<Rightarrow> nat option" where
  "digit_value c =
     (if is_digit c then Some (code c - 48)
      else if is_lower c then Some (code c - 87)
      else if is_upper c then Some (code c - 55) else None)"

lemma digit_value_code [code]: "digit_value (Char b0 b1 b2 b3 b4 b5 b6 b7) =
    (if is_digit (Char b0 b1 b2 b3 b4 b5 b6 b7)
     then Some (of_bool b0 + 2 * (of_bool b1 + 2 * (of_bool b2 + 2 * of_bool b3)))
     else if is_lower (Char b0 b1 b2 b3 b4 b5 b6 b7) \<or> is_upper (Char b0 b1 b2 b3 b4 b5 b6 b7)
     then Some (9 + (of_bool b0 + 2 * (of_bool b1 + 2 * (of_bool b2 + 2 * (of_bool b3 + 2 * of_bool b4)))))
     else None)"
  by (cases b0; cases b1; cases b2; cases b3; cases b4; cases b5; cases b6; cases b7;
      simp add: digit_value_def is_digit_code is_upper_code is_lower_code code_Char)

fun digits_from :: "nat \<Rightarrow> nat \<Rightarrow> string \<Rightarrow> nat option" where
  "digits_from radix acc [] = Some acc"
| "digits_from radix acc (c # cs) =
     (if c = CHR ''_''
      then (case cs of [] \<Rightarrow> None
        | d # _ \<Rightarrow> if d = CHR ''_'' then None else digits_from radix acc cs)
      else (case digit_value c of None \<Rightarrow> None
        | Some n \<Rightarrow> if n < radix then digits_from radix (acc * radix + n) cs else None))"

definition parse_digits :: "nat \<Rightarrow> string \<Rightarrow> nat option" where
  "parse_digits radix s =
     (case s of [] \<Rightarrow> None | c # cs \<Rightarrow> if c = CHR ''_'' then None else digits_from radix 0 s)"

definition parse_prefixed :: "nat \<Rightarrow> string \<Rightarrow> nat option" where
  "parse_prefixed radix s =
     parse_digits radix (case s of c # cs \<Rightarrow> if c = CHR ''_'' then cs else s | [] \<Rightarrow> s)"

definition parse_unsigned :: "string \<Rightarrow> nat option" where
  "parse_unsigned s =
     (case s of
        c # d # rest \<Rightarrow>
          if c = CHR ''0'' \<and> lower_char d = CHR ''x'' then parse_prefixed 16 rest
          else if c = CHR ''0'' \<and> lower_char d = CHR ''o'' then parse_prefixed 8 rest
          else if c = CHR ''0'' \<and> lower_char d = CHR ''b'' then parse_prefixed 2 rest
          else (case parse_digits 10 s of None \<Rightarrow> None
            | Some n \<Rightarrow> if c = CHR ''0'' \<and> n \<noteq> 0 then None else Some n)
      | _ \<Rightarrow> parse_digits 10 s)"

definition py_int0 :: "string \<Rightarrow> int option" where
  "py_int0 text =
     (case strip text of
        [] \<Rightarrow> None
      | c # rest \<Rightarrow>
          if c = CHR ''-'' then map_option (\<lambda>n. - int n) (parse_unsigned rest)
          else if c = CHR ''+'' then map_option int (parse_unsigned rest)
          else map_option int (parse_unsigned (c # rest)))"

text \<open>\<open>f"{n}"\<close> for a number that is not negative.\<close>

fun show_nat :: "nat \<Rightarrow> string" where
  "show_nat n = (if n < 10 then [char_of (48 + n)] else show_nat (n div 10) @ [char_of (48 + n mod 10)])"

declare show_nat.simps [simp del]

lemma digit_char: "n < 10 \<Longrightarrow> char_of (48 + n) = ''0123456789'' ! n"
proof -
  assume "n < 10"
  then consider "n = 0" | "n = 1" | "n = 2" | "n = 3" | "n = 4" | "n = 5" | "n = 6" | "n = 7" | "n = 8" | "n = 9"
    by (fastforce simp: eval_nat_numeral less_Suc_eq)
  then have "code (''0123456789'' ! n) = 48 + n" by cases (simp_all add: code_Char)
  then show ?thesis unfolding code_def by (metis char_of_char)
qed

lemma show_nat_code [code]: "show_nat n =
    (if n < 10 then [''0123456789'' ! n] else show_nat (n div 10) @ [''0123456789'' ! (n mod 10)])"
  by (simp add: show_nat.simps [of n] digit_char)

definition show_int :: "int \<Rightarrow> string" where
  "show_int n = (if n < 0 then CHR ''-'' # show_nat (nat (- n)) else show_nat (nat n))"

section \<open>Round trip of numbers\<close>

lemma code_char_of: "n < 256 \<Longrightarrow> code (char_of n) = n"
  by (simp add: code_def)

lemma digit_of_char: "n < 10 \<Longrightarrow> is_digit (char_of (48 + n)) \<and> digit_value (char_of (48 + n)) = Some n \<and>
    char_of (48 + n) \<noteq> CHR ''_''"
proof -
  assume n: "n < 10"
  have "code (char_of (48 + n)) \<noteq> code CHR ''_''" using n by (simp add: code_char_of) (simp add: code_def)
  then have "char_of (48 + n) \<noteq> CHR ''_''" by metis
  with n show ?thesis by (auto simp: is_digit_def digit_value_def code_char_of)
qed

lemma digits_from_append:
  "n < 10 \<Longrightarrow> digits_from 10 acc s = Some m \<Longrightarrow>
     digits_from 10 acc (s @ [char_of (48 + n)]) = Some (m * 10 + n)"
proof (induction s arbitrary: acc)
  case Nil
  then show ?case using digit_of_char [of n] by simp
next
  case (Cons c cs)
  then show ?case by (auto split: option.splits if_splits list.splits)
qed

lemma show_nat_digits: "show_nat n \<noteq> [] \<and> (\<forall>c\<in>set (show_nat n). is_digit c) \<and> digits_from 10 0 (show_nat n) = Some n"
proof (induction n rule: show_nat.induct)
  case (1 n)
  show ?case
  proof (cases "n < 10")
    case True
    then show ?thesis using digit_of_char [of n] by (simp add: show_nat.simps [of n])
  next
    case False
    have "digits_from 10 0 (show_nat (n div 10) @ [char_of (48 + n mod 10)]) = Some (n div 10 * 10 + n mod 10)"
      using 1 False by (intro digits_from_append) auto
    then show ?thesis using 1 False digit_of_char [of "n mod 10"] by (auto simp: show_nat.simps [of n])
  qed
qed

lemma show_nat_head: "n \<noteq> 0 \<Longrightarrow> hd (show_nat n) \<noteq> CHR ''0''"
proof (induction n rule: show_nat.induct)
  case (1 n)
  show ?case
  proof (cases "n < 10")
    case True
    have "code (char_of (48 + n)) \<noteq> code CHR ''0''" using True 1 by (simp add: code_char_of) (simp add: code_def)
    then show ?thesis using True by (auto simp: show_nat.simps [of n])
  next
    case False
    then have "n div 10 \<noteq> 0" by (simp add: div_eq_0_iff)
    moreover have "show_nat (n div 10) \<noteq> []" using show_nat_digits by blast
    ultimately show ?thesis using 1 False by (simp add: show_nat.simps [of n])
  qed
qed

lemma digit_plain:
  assumes "is_digit c"
  shows "\<not> py_space c" "c \<noteq> CHR ''_''" "c \<noteq> CHR ''-''" "c \<noteq> CHR ''+''" "c \<noteq> CHR ''$''"
  using assms by (auto simp: is_digit_def py_space_def code_def)

lemma parse_digits_show: "parse_digits 10 (show_nat n) = Some n"
  using show_nat_digits [of n] digit_plain(2) by (cases "show_nat n") (auto simp: parse_digits_def)

lemma parse_unsigned_show: "parse_unsigned (show_nat n) = Some n"
proof (cases "n = 0")
  case True
  then show ?thesis by (simp add: show_nat.simps [of 0]) code_simp
next
  case False
  then have "hd (show_nat n) \<noteq> CHR ''0''" by (rule show_nat_head)
  then show ?thesis using parse_digits_show [of n]
    by (cases "show_nat n" rule: list.exhaust) (auto simp: parse_unsigned_def split: list.split)
qed

lemma strip_plain: "s \<noteq> [] \<Longrightarrow> \<not> py_space (hd s) \<Longrightarrow> \<not> py_space (last s) \<Longrightarrow> strip s = s"
proof -
  assume s: "s \<noteq> []" "\<not> py_space (hd s)" "\<not> py_space (last s)"
  have "dropWhile py_space s = s" using s(1,2) by (cases s) auto
  moreover have "dropWhile py_space (rev s) = rev s" using s(1,3) by (cases s rule: rev_cases) auto
  ultimately show ?thesis by (simp add: strip_def)
qed

lemma show_int_plain:
  obtains c cs where "show_int n = c # cs" "c = CHR ''-'' \<and> n < 0 \<and> cs = show_nat (nat (- n)) \<or>
    is_digit c \<and> 0 \<le> n \<and> c # cs = show_nat (nat n)" "\<not> py_space c" "is_digit (last (c # cs))"
proof -
  have m: "\<not> py_space CHR ''-''" by code_simp
  have last: "show_nat k \<noteq> [] \<and> is_digit (hd (show_nat k)) \<and> is_digit (last (show_nat k))" for k
    using show_nat_digits [of k] by auto
  show ?thesis
  proof (cases "n < 0")
    case True
    then show ?thesis using that [of "CHR ''-''" "show_nat (nat (- n))"] last [of "nat (- n)"] m
      by (simp add: show_int_def)
  next
    case False
    then obtain c cs where c: "show_nat (nat n) = c # cs" using last [of "nat n"] by (cases "show_nat (nat n)") auto
    then show ?thesis using that [of c cs] last [of "nat n"] False digit_plain(1) [of c]
      by (simp add: show_int_def)
  qed
qed

lemma py_int0_show: "py_int0 (show_int n) = Some n"
proof -
  obtain c cs where c: "show_int n = c # cs" "c = CHR ''-'' \<and> n < 0 \<and> cs = show_nat (nat (- n)) \<or>
    is_digit c \<and> 0 \<le> n \<and> c # cs = show_nat (nat n)" "\<not> py_space c" "is_digit (last (c # cs))"
    by (rule show_int_plain)
  have "strip (show_int n) = c # cs"
    using strip_plain [of "c # cs"] c digit_plain(1) by simp
  moreover have "parse_unsigned (c # cs) = Some (nat n)" "0 \<le> n" "c \<noteq> CHR ''-''" "c \<noteq> CHR ''+''" if "c \<noteq> CHR ''-''"
    using c(2) that parse_unsigned_show [of "nat n"] digit_plain by auto
  moreover have "parse_unsigned cs = Some (nat (- n))" "n < 0" if "c = CHR ''-''"
    using c(2) that parse_unsigned_show [of "nat (- n)"] digit_plain(3) by auto
  ultimately show ?thesis by (cases "c = CHR ''-''") (auto simp: py_int0_def)
qed

end
