(* ===== verification/X86.thy ===== *)
theory X86
  imports PyText TraceModel "HOL-Library.Word"
begin

unbundle bit_operations_syntax

text \<open>
  The x86 frontend (\<open>src/frontends/x86.py\<close>): the assembly parser, register roles, the scalar
  interpreter and the expansion into a dynamic trace.  Python integers are \<open>int\<close> with the bit
  operators of the source; files are the list of their lines and the list of recipe entries.
  \<open>re.match\<close> on the four patterns of the module is written out as the scan it denotes.
\<close>

datatype x86_error =
    CannotParse nat string
  | EmptyFunction string
  | UnknownRecipeKinds string string "string list"
  | UnsupportedScalar string
  | ReadBeforeWrite string
  | UnsupportedMemory string
  | UnsupportedBranch string
  | BadInteger string
  | BadCount int
  | SafetyBound
  | NoRecipe string string
  | UnknownTarget string
  | X86KeyError string
  | X86IndexError

type_synonym 'a xresult = "x86_error + 'a"

record static_instruction =
  si_index :: nat
  si_source_line :: nat
  si_mnemonic :: string
  si_operands :: "string list"
  si_text :: string

section \<open>Parsing\<close>

text \<open>\<open>split_operands\<close>: \<open>acc\<close> is the reversed current piece.\<close>

fun split_from :: "int \<Rightarrow> string \<Rightarrow> string \<Rightarrow> string list" where
  "split_from depth acc [] = (if strip (rev acc) = [] then [] else [strip (rev acc)])"
| "split_from depth acc (c # cs) =
     (if c = CHR ''('' \<or> c = CHR ''['' then split_from (depth + 1) (c # acc) cs
      else if c = CHR '')'' \<or> c = CHR '']'' then split_from (depth - 1) (c # acc) cs
      else if c = CHR '','' \<and> depth = 0 then strip (rev acc) # split_from depth [] cs
      else split_from depth (c # acc) cs)"

definition split_operands :: "string \<Rightarrow> string list" where
  "split_operands text = split_from 0 [] text"

type_synonym recipes = "((string \<times> string) \<times> string list) list"

definition load_recipe :: "(string \<times> string \<times> string list) list \<Rightarrow> string list \<Rightarrow> recipes xresult" where
  "load_recipe entries known =
     rfold (\<lambda>(mnemonic, form, kinds) result.
       let unknown = sort (remdups (filter (\<lambda>k. k \<notin> set known) kinds)) in
       rbind (rguard (unknown = []) (UnknownRecipeKinds mnemonic form unknown)) (\<lambda>_.
       Inr (AList.update (lower mnemonic, lower form) kinds result))) entries []"

text \<open>\<open>LABEL_RE\<close> and \<open>INSTRUCTION_RE\<close>.\<close>

definition label_start :: "char \<Rightarrow> bool" where
  "label_start c \<longleftrightarrow> is_letter c \<or> c = CHR ''.'' \<or> c = CHR ''_''"

definition label_char :: "char \<Rightarrow> bool" where
  "label_char c \<longleftrightarrow> is_letter c \<or> is_digit c \<or> c = CHR ''_'' \<or> c = CHR ''.''"

definition match_label :: "string \<Rightarrow> string option" where
  "match_label s =
     (case lstrip s of [] \<Rightarrow> None
      | c # cs \<Rightarrow>
          if label_start c
          then (case dropWhile label_char cs of
              [] \<Rightarrow> None
            | d # rest \<Rightarrow> if d = CHR '':'' \<and> lstrip rest = [] then Some (c # takeWhile label_char cs) else None)
          else None)"

definition mnemonic_char :: "char \<Rightarrow> bool" where
  "mnemonic_char c \<longleftrightarrow> is_letter c \<or> is_digit c \<or> c = CHR ''.''"

definition match_instruction :: "string \<Rightarrow> (string \<times> string) option" where
  "match_instruction s =
     (case lstrip s of [] \<Rightarrow> None
      | c # cs \<Rightarrow>
          if is_letter c
          then Some (c # takeWhile mnemonic_char cs, strip (dropWhile mnemonic_char cs)) else None)"

definition make_static :: "nat \<Rightarrow> nat \<Rightarrow> string \<Rightarrow> string \<Rightarrow> static_instruction" where
  "make_static index line mnemonic rest =
     (let operands = split_operands rest in
      \<lparr>si_index = index, si_source_line = line, si_mnemonic = mnemonic, si_operands = operands,
       si_text = strip (mnemonic @ '' '' @ join '', '' operands)\<rparr>)"

type_synonym parsed = "static_instruction list \<times> (string, nat) dict"

fun parse_body :: "string \<Rightarrow> (nat \<times> string) list \<Rightarrow> parsed \<Rightarrow> parsed xresult" where
  "parse_body function [] p = Inr p"
| "parse_body function ((line_number, original) # rest) p =
     (let stripped = strip (before_char CHR ''#'' original) in
      if startswith stripped (''.size'' @ [CHR 0x09] @ function @ '','') \<or>
         startswith stripped (''.size '' @ function @ '','')
      then Inr p
      else (case match_label stripped of
        Some label \<Rightarrow> parse_body function rest (fst p, AList.update label (length (fst p)) (snd p))
      | None \<Rightarrow>
          if stripped = [] \<or> startswith stripped ''.'' then parse_body function rest p
          else (case match_instruction stripped of
              None \<Rightarrow> Inl (CannotParse line_number original)
            | Some (name, operands) \<Rightarrow>
                let mnemonic = lower name in
                if mnemonic = ''endbr64'' then parse_body function rest p
                else
                  let mnemonic = (if mnemonic = ''retq'' then ''ret'' else mnemonic) in
                  parse_body function rest
                    (fst p @ [make_static (length (fst p)) line_number mnemonic operands], snd p))))"

fun find_function :: "string \<Rightarrow> (nat \<times> string) list \<Rightarrow> parsed xresult" where
  "find_function function [] = Inr ([], [])"
| "find_function function ((line_number, original) # rest) =
     (if strip (before_char CHR ''#'' original) = function @ '':''
      then parse_body function rest ([], [(function, 0)])
      else find_function function rest)"

definition parse_function :: "string list \<Rightarrow> string \<Rightarrow> parsed xresult" where
  "parse_function lines function =
     rbind (find_function function (enumerate 1 lines)) (\<lambda>(instructions, labels).
     if instructions = [] then Inl (EmptyFunction function) else Inr (instructions, labels))"

section \<open>Operands and registers\<close>

definition is_memory_operand :: "string \<Rightarrow> bool" where
  "is_memory_operand operand \<longleftrightarrow> CHR ''('' \<in> set operand \<or> CHR ''['' \<in> set operand"

definition operand_form :: "string list \<Rightarrow> string" where
  "operand_form operands =
     (let memory = map is_memory_operand operands in
      if True \<in> set memory then (if last memory then ''memory_store'' else ''memory_load'')
      else ''register'')"

definition REGISTER_ALIASES :: "(string, string) dict" where
  "REGISTER_ALIASES =
     concat (map (\<lambda>(canonical, aliases). map (\<lambda>alias. (alias, canonical)) aliases)
       ([(''rax'', [''eax'', ''ax'', ''al'', ''ah'']), (''rbx'', [''ebx'', ''bx'', ''bl'', ''bh'']),
         (''rcx'', [''ecx'', ''cx'', ''cl'', ''ch'']), (''rdx'', [''edx'', ''dx'', ''dl'', ''dh'']),
         (''rsi'', [''esi'', ''si'', ''sil'']), (''rdi'', [''edi'', ''di'', ''dil'']),
         (''rbp'', [''ebp'', ''bp'', ''bpl'']), (''rsp'', [''esp'', ''sp'', ''spl''])] @
        map (\<lambda>index. (CHR ''r'' # show_nat index,
            [CHR ''r'' # show_nat index @ ''d'', CHR ''r'' # show_nat index @ ''w'',
             CHR ''r'' # show_nat index @ ''b''])) [8..<16]))"

lemma REGISTER_ALIASES_code [code]: "REGISTER_ALIASES =
    [(''eax'', ''rax''), (''ax'', ''rax''), (''al'', ''rax''), (''ah'', ''rax''),
     (''ebx'', ''rbx''), (''bx'', ''rbx''), (''bl'', ''rbx''), (''bh'', ''rbx''),
     (''ecx'', ''rcx''), (''cx'', ''rcx''), (''cl'', ''rcx''), (''ch'', ''rcx''),
     (''edx'', ''rdx''), (''dx'', ''rdx''), (''dl'', ''rdx''), (''dh'', ''rdx''),
     (''esi'', ''rsi''), (''si'', ''rsi''), (''sil'', ''rsi''),
     (''edi'', ''rdi''), (''di'', ''rdi''), (''dil'', ''rdi''),
     (''ebp'', ''rbp''), (''bp'', ''rbp''), (''bpl'', ''rbp''),
     (''esp'', ''rsp''), (''sp'', ''rsp''), (''spl'', ''rsp''),
     (''r8d'', ''r8''), (''r8w'', ''r8''), (''r8b'', ''r8''),
     (''r9d'', ''r9''), (''r9w'', ''r9''), (''r9b'', ''r9''),
     (''r10d'', ''r10''), (''r10w'', ''r10''), (''r10b'', ''r10''),
     (''r11d'', ''r11''), (''r11w'', ''r11''), (''r11b'', ''r11''),
     (''r12d'', ''r12''), (''r12w'', ''r12''), (''r12b'', ''r12''),
     (''r13d'', ''r13''), (''r13w'', ''r13''), (''r13b'', ''r13''),
     (''r14d'', ''r14''), (''r14w'', ''r14''), (''r14b'', ''r14''),
     (''r15d'', ''r15''), (''r15w'', ''r15''), (''r15b'', ''r15'')]"
  by code_simp

definition UNCONDITIONAL_BRANCHES :: "string list" where
  "UNCONDITIONAL_BRANCHES = [''jmp'', ''jmpq'']"

definition CONDITIONAL_BRANCHES :: "string list" where
  "CONDITIONAL_BRANCHES =
     [''ja'', ''jae'', ''jb'', ''jbe'', ''jc'', ''je'', ''jg'', ''jge'', ''jl'', ''jle'', ''jna'',
      ''jnae'', ''jnb'', ''jnbe'', ''jnc'', ''jne'', ''jng'', ''jnge'', ''jnl'', ''jnle'', ''jno'',
      ''jns'', ''jnz'', ''jo'', ''js'', ''jz'']"

definition BRANCHES :: "string list" where
  "BRANCHES = UNCONDITIONAL_BRANCHES @ CONDITIONAL_BRANCHES"

definition FLAG_WRITERS :: "string list" where
  "FLAG_WRITERS =
     [''addq'', ''andq'', ''cmpq'', ''decq'', ''incq'', ''negq'', ''orq'', ''salq'', ''sarq'', ''shlq'',
      ''shrq'', ''subq'', ''testq'', ''xorl'', ''xorq'']"

text \<open>\<open>(?:xmm|ymm|zmm)\d+\<close>.\<close>

definition vector_register :: "string \<Rightarrow> string option" where
  "vector_register name =
     (if (startswith name ''xmm'' \<or> startswith name ''ymm'' \<or> startswith name ''zmm'') \<and>
         drop 3 name \<noteq> [] \<and> list_all is_digit (drop 3 name)
      then Some (drop 3 name) else None)"

definition canonical_register :: "string \<Rightarrow> string option" where
  "canonical_register operand =
     (let token = strip operand in
      if \<not> startswith token ''%'' then None
      else
        let name = lower (tl token) in
        case map_of REGISTER_ALIASES name of Some canonical \<Rightarrow> Some canonical
        | None \<Rightarrow> (case vector_register name of Some digits \<Rightarrow> Some (''zmm'' @ digits) | None \<Rightarrow> Some name))"

text \<open>
  \<open>MEMORY_RE\<close>: displacement, then in parentheses an optional base, an optional index and an
  optional scale.
\<close>

record memory_operand =
  mo_disp :: string
  mo_base :: "string option"
  mo_index :: "string option"
  mo_scale :: "string option"

definition register_char :: "char \<Rightarrow> bool" where
  "register_char c \<longleftrightarrow> is_letter c \<or> is_digit c"

definition match_register :: "string \<Rightarrow> string option \<times> string" where
  "match_register s =
     (case s of
        c # d # cs \<Rightarrow>
          if c = CHR ''%'' \<and> register_char d
          then (Some (c # d # takeWhile register_char cs), dropWhile register_char cs)
          else (None, s)
      | _ \<Rightarrow> (None, s))"

definition match_scale :: "string \<Rightarrow> string option \<times> string" where
  "match_scale s =
     (case s of
        c # d # rest \<Rightarrow>
          if c = CHR '','' \<and> d \<in> set ''1248'' then (Some [d], rest) else (None, s)
      | _ \<Rightarrow> (None, s))"

definition match_memory :: "string \<Rightarrow> memory_operand option" where
  "match_memory operand =
     (let outside = (\<lambda>c. c \<noteq> CHR ''('' \<and> c \<noteq> CHR '')''); disp = takeWhile outside operand in
      case dropWhile outside operand of
        [] \<Rightarrow> None
      | c # inner \<Rightarrow>
          if c \<noteq> CHR ''('' then None
          else (case match_register inner of (base, rest) \<Rightarrow>
            let (index, scale, rest) =
              (case rest of
                 d # tail \<Rightarrow>
                   if d = CHR '',''
                   then (case match_register tail of (index, rest2) \<Rightarrow>
                     (case match_scale rest2 of (scale, rest3) \<Rightarrow> (index, scale, rest3)))
                   else (None, None, rest)
               | [] \<Rightarrow> (None, None, rest)) in
            if rest = '')'' then Some \<lparr>mo_disp = disp, mo_base = base, mo_index = index, mo_scale = scale\<rparr>
            else None))"

definition registers_in_memory :: "string \<Rightarrow> string list" where
  "registers_in_memory operand =
     (case match_memory operand of None \<Rightarrow> []
      | Some m \<Rightarrow> List.map_filter (\<lambda>raw. case truthy raw of None \<Rightarrow> None
          | Some r \<Rightarrow> truthy (canonical_register r)) [mo_base m, mo_index m])"

section \<open>Register roles\<close>

definition MOVES :: "string list" where
  "MOVES = [''movl'', ''movq'', ''movslq'', ''movzbl'', ''vmovaps'', ''vmovdqu64'', ''vmovss'', ''vmovups'']"

definition TWO_OPERAND :: "string list" where
  "TWO_OPERAND = [''addq'', ''andq'', ''orq'', ''salq'', ''sarq'', ''shlq'', ''shrq'', ''subq'', ''xorl'', ''xorq'']"

definition present :: "string option list \<Rightarrow> string list" where
  "present rs = List.map_filter truthy rs"

definition last_present :: "string option list \<Rightarrow> string list" where
  "last_present rs = (if rs = [] then [] else present [last rs])"

text \<open>The registers an instruction names outside memory operands, as (reads, writes).\<close>

definition operand_roles :: "string \<Rightarrow> string list \<Rightarrow> string list \<times> string list" where
  "operand_roles mnemonic operands =
     (let registers = map canonical_register operands in
      if mnemonic \<in> set (BRANCHES @ [''ret'', ''vzeroupper'', ''endbr64'']) then ([], [])
      else if mnemonic \<in> {''testq'', ''cmpq''} then (present registers, [])
      else if mnemonic \<in> {''xorl'', ''xorq'', ''vxorpd'', ''vxorps''} \<and> length (remdups (present registers)) = 1
      then ([], last_present registers)
      else if mnemonic \<in> set MOVES
      then if operands \<noteq> [] \<and> is_memory_operand (last operands) then (present (butlast registers), [])
           else (present (butlast registers), last_present registers)
      else if mnemonic \<in> set TWO_OPERAND
      then (last_present registers @ present (butlast registers), last_present registers)
      else if mnemonic \<in> {''decq'', ''incq'', ''negq'', ''notq''}
      then (last_present registers, last_present registers)
      else if mnemonic = ''leaq'' then ([], last_present registers)
      else (present (butlast registers) @
          (if startswith mnemonic ''vfmadd'' \<or> startswith mnemonic ''vfnmadd''
           then last_present registers else []), last_present registers))"

definition register_roles :: "static_instruction \<Rightarrow> string list \<times> string list \<times> bool \<times> bool" where
  "register_roles instruction =
     (let mnemonic = si_mnemonic instruction; operands = si_operands instruction;
          (reads, writes) = operand_roles mnemonic operands in
      (sort (remdups (concat (map registers_in_memory operands) @ reads)), sort (remdups writes),
       mnemonic \<in> set CONDITIONAL_BRANCHES, mnemonic \<in> set FLAG_WRITERS))"

section \<open>The scalar interpreter\<close>

record x86_flags =
  f_zf :: bool
  f_cf :: bool
  f_sf :: bool
  f_of :: bool

record x86_state =
  x_registers :: "(string, int) dict"
  x_flags :: x86_flags
  x_constants :: "(string, int) dict"

definition MASK64 :: int where "MASK64 = 2 ^ 64 - 1"
definition MASK32 :: int where "MASK32 = 2 ^ 32 - 1"

text \<open>\<open>bool(value & (1 << n))\<close>.\<close>

definition test_bit :: "int \<Rightarrow> nat \<Rightarrow> bool" where
  "test_bit value n \<longleftrightarrow> value AND 2 ^ n \<noteq> 0"

definition parse_integer :: "string \<Rightarrow> int xresult" where
  "parse_integer token =
     (case py_int0 (removeprefix (strip token) ''$'') of None \<Rightarrow> Inl (BadInteger token) | Some n \<Rightarrow> Inr n)"

definition scalar_operand_value :: "string \<Rightarrow> (string, int) dict \<Rightarrow> int xresult" where
  "scalar_operand_value token registers =
     (if startswith token ''$'' then parse_integer token
      else (case canonical_register token of None \<Rightarrow> Inl (UnsupportedScalar token)
        | Some r \<Rightarrow> fetch ReadBeforeWrite registers r))"

definition evaluate_memory :: "string \<Rightarrow> (string, int) dict \<Rightarrow> (string, int) dict
    \<Rightarrow> (int \<times> string \<times> (string, int) dict) xresult" where
  "evaluate_memory operand registers constants =
     (case match_memory operand of None \<Rightarrow> Inl (UnsupportedMemory operand)
      | Some m \<Rightarrow>
          let displacement = strip (mo_disp m);
              (label, constants) =
                (if displacement = [] \<or> py_int0 displacement \<noteq> None then (None, constants)
                 else (Some displacement,
                   if displacement \<in> set (keys constants) then constants
                   else AList.update displacement (0x400000 + int (length constants) * 4) constants));
              offset = (case label of Some l \<Rightarrow> the (map_of constants l)
                | None \<Rightarrow> (case py_int0 displacement of None \<Rightarrow> 0 | Some n \<Rightarrow> n));
              base = (case mo_base m of None \<Rightarrow> None | Some r \<Rightarrow> truthy (canonical_register r));
              index = (case mo_index m of None \<Rightarrow> None | Some r \<Rightarrow> truthy (canonical_register r));
              scale = (case mo_scale m of None \<Rightarrow> 1
                | Some t \<Rightarrow> (case parse_digits 10 t of None \<Rightarrow> 1 | Some n \<Rightarrow> int n)) in
          rbind (case base of Some r \<Rightarrow> if r \<noteq> ''rip'' then fetch X86KeyError registers r else Inr 0
              | None \<Rightarrow> Inr 0) (\<lambda>from_base.
          rbind (case index of Some r \<Rightarrow> rbind (fetch X86KeyError registers r) (\<lambda>n. Inr (n * scale))
              | None \<Rightarrow> Inr 0) (\<lambda>from_index.
          let address = offset + from_base + from_index in
          Inr (address,
            if label \<noteq> None then ''constant'' else if address < 0x200000 then ''input'' else ''output'',
            constants))))"

text \<open>\<open>re.search(r"%(zmm|ymm|xmm)\d+", operand)\<close>.\<close>

fun search_width :: "string \<Rightarrow> int option" where
  "search_width [] = None"
| "search_width (c # cs) =
     (if c = CHR ''%'' \<and> length cs > 3 \<and> is_digit (cs ! 3) \<and> take 3 cs \<in> {''zmm'', ''ymm'', ''xmm''}
      then Some (if take 3 cs = ''zmm'' then 512 else if take 3 cs = ''ymm'' then 256 else 128)
      else search_width cs)"

fun vector_width :: "string list \<Rightarrow> int" where
  "vector_width [] = 32"
| "vector_width (operand # rest) =
     (case search_width operand of Some width \<Rightarrow> width | None \<Rightarrow> vector_width rest)"

definition access_bytes :: "static_instruction \<Rightarrow> int" where
  "access_bytes instruction =
     (let mnemonic = si_mnemonic instruction in
      if mnemonic = ''movb'' then 1
      else if mnemonic = ''movw'' then 2
      else if mnemonic \<in> {''movl'', ''vmovss'', ''vbroadcastss''} then 4
      else if mnemonic \<in> {''movq'', ''vmovsd'', ''vmovlps'', ''vmovhps'', ''vbroadcastsd''} then 8
      else vector_width (si_operands instruction) div 8)"

definition first_operand :: "string list \<Rightarrow> string xresult" where
  "first_operand operands = (case operands of [] \<Rightarrow> Inl X86IndexError | t # _ \<Rightarrow> Inr t)"

definition last_operand :: "string list \<Rightarrow> string xresult" where
  "last_operand operands = (if operands = [] then Inl X86IndexError else Inr (last operands))"

definition write_flags :: "int \<Rightarrow> bool \<Rightarrow> bool \<Rightarrow> x86_state \<Rightarrow> x86_state" where
  "write_flags result cf ovf st =
     (let value = result AND MASK64 in
      st\<lparr>x_flags := \<lparr>f_zf = (value = 0), f_cf = cf, f_sf = test_bit value 63, f_of = ovf\<rparr>\<rparr>)"

definition set_register :: "string \<Rightarrow> int \<Rightarrow> x86_state \<Rightarrow> x86_state" where
  "set_register r value st = st\<lparr>x_registers := AList.update r value (x_registers st)\<rparr>"

text \<open>\<open>name.lstrip("%")\<close> removes every leading percent sign.\<close>

definition write_register :: "string \<Rightarrow> int \<Rightarrow> x86_state \<Rightarrow> x86_state" where
  "write_register destination_token value st =
     (case truthy (canonical_register destination_token) of None \<Rightarrow> st
      | Some destination \<Rightarrow>
          let name = lower (dropWhile (\<lambda>c. c = CHR ''%'') destination_token);
              width_mask = (if endswith name ''d'' \<or> startswith name ''e'' then MASK32 else MASK64) in
          set_register destination (value AND width_mask) st)"

text \<open>\<open>destination = canonical_register(operands[-1]); if destination: ...\<close>.\<close>

definition with_destination :: "string list \<Rightarrow> (string \<Rightarrow> string \<Rightarrow> x86_state xresult) \<Rightarrow> x86_state
    \<Rightarrow> x86_state xresult" where
  "with_destination operands f st =
     rbind (last_operand operands) (\<lambda>token.
     case truthy (canonical_register token) of None \<Rightarrow> Inr st | Some destination \<Rightarrow> f token destination)"

definition exec_move :: "string \<Rightarrow> string list \<Rightarrow> x86_state \<Rightarrow> x86_state xresult" where
  "exec_move mnemonic operands st =
     rbind (first_operand operands) (\<lambda>source.
     rbind (scalar_operand_value source (x_registers st)) (\<lambda>value.
     rbind (last_operand operands) (\<lambda>destination.
     Inr (if mnemonic = ''movslq''
       then let value = value AND MASK32 in
         write_register destination (if test_bit value 31 then value - 2 ^ 32 else value) st
       else if mnemonic = ''movzbl'' then write_register destination (value AND 0xFF) st
       else write_register destination value st))))"

definition exec_add_sub :: "string \<Rightarrow> string list \<Rightarrow> x86_state \<Rightarrow> x86_state xresult" where
  "exec_add_sub mnemonic operands st =
     with_destination operands (\<lambda>token destination.
     rbind (scalar_operand_value token (x_registers st)) (\<lambda>old.
     rbind (first_operand operands) (\<lambda>source_token.
     rbind (scalar_operand_value source_token (x_registers st)) (\<lambda>source_value.
     let source = source_value AND MASK64 in
     if mnemonic = ''addq''
     then let full_result = old + source; result = full_result AND MASK64;
            overflow = test_bit (NOT (old XOR source) AND (old XOR result)) 63 in
          Inr (set_register destination result (write_flags result (full_result > MASK64) overflow st))
     else let result = (old - source) AND MASK64;
            overflow = test_bit ((old XOR source) AND (old XOR result)) 63 in
          Inr (set_register destination result (write_flags result (old < source) overflow st)))))) st"

definition exec_logic :: "string \<Rightarrow> string list \<Rightarrow> x86_state \<Rightarrow> x86_state xresult" where
  "exec_logic mnemonic operands st =
     with_destination operands (\<lambda>token _.
     rbind (scalar_operand_value token (x_registers st)) (\<lambda>left.
     rbind (first_operand operands) (\<lambda>source_token.
     rbind (scalar_operand_value source_token (x_registers st)) (\<lambda>right.
     let result = (if mnemonic = ''andq'' then left AND right
           else if mnemonic = ''orq'' then left OR right else left XOR right) in
     Inr (write_flags result False False (write_register token result st)))))) st"

definition exec_shift :: "string \<Rightarrow> string list \<Rightarrow> x86_state \<Rightarrow> x86_state xresult" where
  "exec_shift mnemonic operands st =
     with_destination operands (\<lambda>token destination.
     rbind (first_operand operands) (\<lambda>count_token.
     rbind (scalar_operand_value count_token (x_registers st)) (\<lambda>count_value.
     rbind (scalar_operand_value token (x_registers st)) (\<lambda>old_value.
     let count = nat (count_value AND 0x3F); old = old_value AND MASK64 in
     if count = 0 then Inr st
     else
       let (result, carry) =
         (if mnemonic \<in> {''salq'', ''shlq''}
          then (push_bit count old AND MASK64, test_bit (drop_bit (64 - count) old) 0)
          else if mnemonic = ''shrq'' then (drop_bit count old, test_bit (drop_bit (count - 1) old) 0)
          else
            let signed = (if test_bit old 63 then old - 2 ^ 64 else old) in
            (drop_bit count signed AND MASK64, test_bit (drop_bit (count - 1) old) 0)) in
       Inr (write_flags result carry False (set_register destination result st)))))) st"

definition exec_step :: "string \<Rightarrow> string list \<Rightarrow> x86_state \<Rightarrow> x86_state xresult" where
  "exec_step mnemonic operands st =
     with_destination operands (\<lambda>token destination.
     rbind (scalar_operand_value token (x_registers st)) (\<lambda>old_value.
     let old_cf = f_cf (x_flags st); old = old_value AND MASK64;
         result = (old + (if mnemonic = ''incq'' then 1 else -1)) AND MASK64;
         overflow = (if mnemonic = ''incq'' then old = 2 ^ 63 - 1 else old = 2 ^ 63) in
     Inr (write_flags result old_cf overflow (set_register destination result st)))) st"

definition exec_negate :: "string \<Rightarrow> string list \<Rightarrow> x86_state \<Rightarrow> x86_state xresult" where
  "exec_negate mnemonic operands st =
     with_destination operands (\<lambda>token destination.
     rbind (scalar_operand_value token (x_registers st)) (\<lambda>old_value.
     let old = old_value AND MASK64;
         result = (if mnemonic = ''negq'' then - old else NOT old) AND MASK64;
         st = set_register destination result st in
     Inr (if mnemonic = ''negq'' then write_flags result (old \<noteq> 0) (old = 2 ^ 63) st else st))) st"

text \<open>\<open>registers[destination] = address\<close> also when the destination is no register: the key is then \<open>None\<close>.\<close>

definition exec_lea :: "string list \<Rightarrow> x86_state \<Rightarrow> x86_state xresult" where
  "exec_lea operands st =
     rbind (last_operand operands) (\<lambda>token.
     rbind (first_operand operands) (\<lambda>source.
     rbind (evaluate_memory source (x_registers st) (x_constants st)) (\<lambda>(address, _, constants).
     let st = st\<lparr>x_constants := constants\<rparr> in
     Inr (case canonical_register token of None \<Rightarrow> st | Some r \<Rightarrow> set_register r address st))))"

definition exec_compare :: "string \<Rightarrow> string list \<Rightarrow> x86_state \<Rightarrow> x86_state xresult" where
  "exec_compare mnemonic operands st =
     (if mnemonic = ''testq''
      then rbind (last_operand operands) (\<lambda>left_token.
           rbind (scalar_operand_value left_token (x_registers st)) (\<lambda>left.
           rbind (first_operand operands) (\<lambda>right_token.
           rbind (scalar_operand_value right_token (x_registers st)) (\<lambda>right.
           Inr (write_flags (left AND right) False False st)))))
      else rbind (first_operand operands) (\<lambda>source_token.
           rbind (scalar_operand_value source_token (x_registers st)) (\<lambda>source_value.
           rbind (last_operand operands) (\<lambda>destination_token.
           rbind (scalar_operand_value destination_token (x_registers st)) (\<lambda>destination_value.
           let source = source_value AND MASK64; destination = destination_value AND MASK64;
               result = (destination - source) AND MASK64;
               overflow = test_bit ((destination XOR source) AND (destination XOR result)) 63 in
           Inr (write_flags result (destination < source) overflow st))))))"

definition update_scalar_state :: "static_instruction \<Rightarrow> x86_state \<Rightarrow> x86_state xresult" where
  "update_scalar_state instruction st =
     (let mnemonic = si_mnemonic instruction; operands = si_operands instruction in
      if mnemonic \<in> {''movl'', ''movq'', ''movslq'', ''movzbl''} then exec_move mnemonic operands st
      else if mnemonic \<in> {''addq'', ''subq''} then exec_add_sub mnemonic operands st
      else if mnemonic \<in> {''andq'', ''orq'', ''xorl'', ''xorq''} then exec_logic mnemonic operands st
      else if mnemonic \<in> {''salq'', ''sarq'', ''shlq'', ''shrq''} then exec_shift mnemonic operands st
      else if mnemonic \<in> {''decq'', ''incq''} then exec_step mnemonic operands st
      else if mnemonic \<in> {''negq'', ''notq''} then exec_negate mnemonic operands st
      else if mnemonic = ''leaq'' then exec_lea operands st
      else if mnemonic \<in> {''testq'', ''cmpq''} then exec_compare mnemonic operands st
      else Inr st)"

definition branch_taken :: "string \<Rightarrow> x86_flags \<Rightarrow> bool xresult" where
  "branch_taken mnemonic f =
     (if mnemonic \<in> set UNCONDITIONAL_BRANCHES then Inr True
      else if mnemonic \<in> {''je'', ''jz''} then Inr (f_zf f)
      else if mnemonic \<in> {''jne'', ''jnz''} then Inr (\<not> f_zf f)
      else if mnemonic \<in> {''jb'', ''jc'', ''jnae''} then Inr (f_cf f)
      else if mnemonic \<in> {''jae'', ''jnb'', ''jnc''} then Inr (\<not> f_cf f)
      else if mnemonic \<in> {''jbe'', ''jna''} then Inr (f_cf f \<or> f_zf f)
      else if mnemonic \<in> {''ja'', ''jnbe''} then Inr (\<not> f_cf f \<and> \<not> f_zf f)
      else if mnemonic \<in> {''jl'', ''jnge''} then Inr (f_sf f \<noteq> f_of f)
      else if mnemonic \<in> {''jge'', ''jnl''} then Inr (f_sf f = f_of f)
      else if mnemonic \<in> {''jle'', ''jng''} then Inr (f_zf f \<or> f_sf f \<noteq> f_of f)
      else if mnemonic \<in> {''jg'', ''jnle''} then Inr (\<not> f_zf f \<and> f_sf f = f_of f)
      else if mnemonic = ''jo'' then Inr (f_of f)
      else if mnemonic = ''jno'' then Inr (\<not> f_of f)
      else if mnemonic = ''js'' then Inr (f_sf f)
      else if mnemonic = ''jns'' then Inr (\<not> f_sf f)
      else Inl (UnsupportedBranch mnemonic))"

section \<open>Dynamic expansion\<close>

definition instruction_id :: "nat \<Rightarrow> string" where
  "instruction_id n = CHR ''i'' # show_nat n"

text \<open>\<open>int(value[1:])\<close> on an instruction id.\<close>

definition id_number :: "string \<Rightarrow> nat" where
  "id_number value = (case parse_digits 10 (tl value) of None \<Rightarrow> 0 | Some n \<Rightarrow> n)"

fun chain_from :: "nat \<Rightarrow> string option \<Rightarrow> string list \<Rightarrow> string list \<Rightarrow> semantic_uop list" where
  "chain_from index previous dependencies [] = []"
| "chain_from index previous dependencies (kind # kinds) =
     (let local_id = CHR ''u'' # show_nat index in
      \<lparr>s_local_id = local_id, s_kind = kind,
       s_depends_on_local = dependencies @ (case previous of None \<Rightarrow> [] | Some p \<Rightarrow> [p]),
       s_reads_old_destination = False, s_old_destination_registers = None\<rparr>
      # chain_from (Suc index) (Some local_id) dependencies kinds)"

definition semantic_uop_dependencies :: "string list \<Rightarrow> string list \<Rightarrow> semantic_uop list" where
  "semantic_uop_dependencies kinds dependencies = chain_from 0 None dependencies kinds"

record x86_loop =
  xl_state :: x86_state
  xl_last_writer :: "(string, string) dict"
  xl_flags_writer :: "string option"
  xl_last_store :: "(int, string) dict"
  xl_instructions :: "instruction list"
  xl_pc :: nat

definition line_range :: "int \<Rightarrow> int \<Rightarrow> int list" where
  "line_range address bytes = [address div 64..(address + bytes - 1) div 64]"

definition memory_reference :: "static_instruction \<Rightarrow> x86_state \<Rightarrow> (x86_state \<times> mem_ref option) xresult" where
  "memory_reference item st =
     (case (if si_mnemonic item = ''leaq'' then [] else filter (\<lambda>t. CHR ''('' \<in> set t) (si_operands item)) of
        [] \<Rightarrow> Inr (st, None)
      | operand # _ \<Rightarrow>
          rbind (evaluate_memory operand (x_registers st) (x_constants st)) (\<lambda>(address, region, constants).
          let bytes = access_bytes item;
              is_store = (last (si_operands item) = operand);
              start = (if region = ''input'' then 0x100000 else if region = ''output'' then 0x200000 else address) in
          Inr (st\<lparr>x_constants := constants\<rparr>, Some
            \<lparr>mr_address = address, mr_region = region, mr_offset = address - start, mr_bytes = bytes,
             mr_cache_lines = line_range address bytes,
             mr_access = (if is_store then ''store'' else ''load''),
             mr_address_registers = registers_in_memory operand, mr_flow_index = None, mr_flow_count = None\<rparr>)))"

definition stores_to :: "(int, string) dict \<Rightarrow> mem_ref option \<Rightarrow> string list" where
  "stores_to last_store memory =
     (case memory of None \<Rightarrow> [] | Some m \<Rightarrow> List.map_filter (map_of last_store) (mr_cache_lines m))"

definition writers_of :: "(string, string) dict \<Rightarrow> string list \<Rightarrow> (string, string) dict" where
  "writers_of last_writer reads =
     List.map_filter (\<lambda>r. map_option (\<lambda>w. (r, w)) (map_of last_writer r)) reads"

definition sort_ids :: "string list \<Rightarrow> string list" where
  "sort_ids ids = sort_key id_number (remdups ids)"

definition find_recipe :: "recipes \<Rightarrow> string \<Rightarrow> string \<Rightarrow> string list xresult" where
  "find_recipe recipes mnemonic form =
     (let get = (\<lambda>key. case map_of recipes key of None \<Rightarrow> [] | Some kinds \<Rightarrow> kinds);
          kinds = (if get (mnemonic, form) \<noteq> [] then get (mnemonic, form) else get (mnemonic, ''any'')) in
      if kinds = [] then Inl (NoRecipe mnemonic form) else Inr kinds)"

text \<open>The dynamic instruction for the static one at the program counter.\<close>

definition dynamic_instruction :: "recipes \<Rightarrow> static_instruction \<Rightarrow> mem_ref option \<Rightarrow> x86_loop \<Rightarrow> instruction xresult" where
  "dynamic_instruction recipes item memory loop =
     (case register_roles item of (reads, writes, reads_flags, writes_flags) \<Rightarrow>
      let form = operand_form (si_operands item);
          flags_dependency = (if reads_flags then xl_flags_writer loop else None);
          register_dependencies = writers_of (xl_last_writer loop) reads;
          memory_dependencies = stores_to (xl_last_store loop) memory in
      rbind (find_recipe recipes (si_mnemonic item) form) (\<lambda>kinds.
      Inr \<lparr>i_id = instruction_id (length (xl_instructions loop)),
           i_sequence = int (length (xl_instructions loop)), i_static_index = int (si_index item),
           i_source_line = int (si_source_line item), i_mnemonic = si_mnemonic item, i_form = form,
           i_operands = si_operands item, i_assembly = si_text item, i_register_reads = reads,
           i_register_writes = writes,
           i_depends_on_instructions = sort_ids (map snd register_dependencies @
             (case flags_dependency of None \<Rightarrow> [] | Some w \<Rightarrow> [w]) @ memory_dependencies),
           i_register_dependencies = register_dependencies, i_flags_dependency = flags_dependency,
           i_memory_dependencies = sort_ids memory_dependencies, i_memory = memory,
           i_semantic_uops = semantic_uop_dependencies kinds [],
           i_old_destination_registers = None, i_old_destination_dependencies = None,
           i_vector_destination_registers = None, i_vector_destination_dependencies = None,
           i_vector_state = None, i_active_vector_bits = None\<rparr>))"

definition record_writes :: "static_instruction \<Rightarrow> instruction \<Rightarrow> x86_loop \<Rightarrow> x86_loop" where
  "record_writes item dynamic loop =
     (case register_roles item of (reads, writes, reads_flags, writes_flags) \<Rightarrow>
      loop\<lparr>xl_instructions := xl_instructions loop @ [dynamic],
        xl_last_writer := fold (\<lambda>r d. AList.update r (i_id dynamic) d) writes (xl_last_writer loop),
        xl_flags_writer := (if writes_flags then Some (i_id dynamic) else xl_flags_writer loop),
        xl_last_store := (case i_memory dynamic of None \<Rightarrow> xl_last_store loop
          | Some m \<Rightarrow> if mr_access m = ''store''
              then fold (\<lambda>l d. AList.update l (i_id dynamic) d) (mr_cache_lines m) (xl_last_store loop)
              else xl_last_store loop)\<rparr>)"

text \<open>The next program counter; \<open>None\<close> after \<open>ret\<close>.\<close>

definition next_pc :: "(string, nat) dict \<Rightarrow> static_instruction \<Rightarrow> x86_flags \<Rightarrow> nat \<Rightarrow> nat option xresult" where
  "next_pc labels item flags pc =
     (if si_mnemonic item = ''ret'' then Inr None
      else if si_mnemonic item \<in> set BRANCHES
      then rbind (branch_taken (si_mnemonic item) flags) (\<lambda>taken.
        if taken
        then rbind (last_operand (si_operands item)) (\<lambda>target.
          rbind (fetch UnknownTarget labels target) (\<lambda>n. Inr (Some n)))
        else Inr (Some (pc + 1)))
      else Inr (Some (pc + 1)))"

definition expand_item :: "parsed \<Rightarrow> recipes \<Rightarrow> x86_loop \<Rightarrow> (x86_loop \<times> bool) xresult" where
  "expand_item program recipes loop =
     (let item = fst program ! xl_pc loop in
      rbind (memory_reference item (xl_state loop)) (\<lambda>(st, memory).
      rbind (dynamic_instruction recipes item memory loop) (\<lambda>dynamic.
      let loop1 = record_writes item dynamic (loop\<lparr>xl_state := st\<rparr>) in
      rbind (update_scalar_state item st) (\<lambda>st'.
      let loop2 = loop1\<lparr>xl_state := st'\<rparr> in
      rbind (next_pc (snd program) item (x_flags st') (xl_pc loop)) (\<lambda>target.
      Inr (case target of None \<Rightarrow> (loop2, False) | Some pc \<Rightarrow> (loop2\<lparr>xl_pc := pc\<rparr>, True)))))))"

fun expand :: "parsed \<Rightarrow> recipes \<Rightarrow> nat \<Rightarrow> x86_loop \<Rightarrow> x86_loop xresult" where
  "expand program recipes fuel loop =
     (if length (fst program) \<le> xl_pc loop then Inr loop
      else (case fuel of 0 \<Rightarrow> Inl SafetyBound
        | Suc fuel' \<Rightarrow> rbind (expand_item program recipes loop) (\<lambda>(loop', more).
            if more then expand program recipes fuel' loop' else Inr loop')))"

declare expand.simps [simp del]

record x86_trace =
  xt_count :: int
  xt_instructions :: "instruction list"
  xt_uops_by_kind :: "(string \<times> int) list"
  xt_semantic_uop_count :: int
  xt_load_bytes :: int
  xt_store_bytes :: int

definition transferred :: "string \<Rightarrow> instruction list \<Rightarrow> int" where
  "transferred direction instructions =
     sum_list (map (\<lambda>i. case i_memory i of None \<Rightarrow> 0
       | Some m \<Rightarrow> if mr_region m \<in> {''input'', ''output''} \<and> mr_access m = direction
           then mr_bytes m else 0) instructions)"

definition uop_counts :: "instruction list \<Rightarrow> (string, int) dict" where
  "uop_counts instructions =
     fold (\<lambda>s d. counter_add d (s_kind s) 1) (concat (map i_semantic_uops instructions)) []"

definition initial_loop :: "int \<Rightarrow> x86_loop" where
  "initial_loop n =
     \<lparr>xl_state = \<lparr>x_registers = [(''rdi'', 0x100000), (''rsi'', 0x200000), (''rdx'', n),
          (''rax'', 0), (''rcx'', 0)],
        x_flags = \<lparr>f_zf = False, f_cf = False, f_sf = False, f_of = False\<rparr>, x_constants = []\<rparr>,
      xl_last_writer = [], xl_flags_writer = None, xl_last_store = [], xl_instructions = [], xl_pc = 0\<rparr>"

definition build_dynamic_trace :: "string list \<Rightarrow> string \<Rightarrow> (string \<times> string \<times> string list) list \<Rightarrow> string list
    \<Rightarrow> int \<Rightarrow> x86_trace xresult" where
  "build_dynamic_trace lines function recipe_entries known n =
     rbind (rguard (0 < n \<and> n mod 16 = 0) (BadCount n)) (\<lambda>_.
     rbind (parse_function lines function) (\<lambda>program.
     rbind (load_recipe recipe_entries known) (\<lambda>recipes.
     rbind (expand program recipes (nat (1000 + n * 16)) (initial_loop n)) (\<lambda>loop.
     let instructions = xl_instructions loop; counts = uop_counts instructions in
     Inr \<lparr>xt_count = n, xt_instructions = instructions, xt_uops_by_kind = sort counts,
          xt_semantic_uop_count = sum_list (map snd counts),
          xt_load_bytes = transferred ''load'' instructions,
          xt_store_bytes = transferred ''store'' instructions\<rparr>))))"

end
