(* ===== verification/X86Scalar.thy ===== *)
theory X86Scalar
  imports X86
begin

text \<open>
  The scalar interpreter of the x86 frontend against 64-bit machine arithmetic: flags and
  conditional branches are the signed and unsigned comparisons of \<open>64 word\<close>.
\<close>

section \<open>Bits of 64-bit values\<close>

lemma test_bit_iff: "test_bit x n \<longleftrightarrow> bit x n"
  by (simp add: test_bit_def and_exp_eq_0_iff_not_bit)

lemma and_MASK64: "x AND MASK64 = x mod 2 ^ 64"
  unfolding MASK64_def mask_eq_exp_minus_1 [symmetric] by (simp add: take_bit_eq_mask [symmetric] take_bit_eq_mod)

lemma and_MASK32: "x AND MASK32 = x mod 2 ^ 32"
  unfolding MASK32_def mask_eq_exp_minus_1 [symmetric] by (simp add: take_bit_eq_mask [symmetric] take_bit_eq_mod)

lemma bit_63: "0 \<le> x \<Longrightarrow> x < 2 ^ 64 \<Longrightarrow> bit (x :: int) 63 \<longleftrightarrow> 2 ^ 63 \<le> x"
proof -
  assume x: "0 \<le> x" "x < 2 ^ 64"
  have "x div 2 ^ 63 = (if 2 ^ 63 \<le> x then 1 else 0)"
    using x by (auto simp: div_pos_pos_trivial intro: int_div_pos_eq [where r = "x - 2 ^ 63"])
  then show ?thesis by (simp add: bit_int_def bit_iff_odd)
qed

abbreviation word64 :: "int \<Rightarrow> 64 word" where "word64 x \<equiv> word_of_int x"

lemma uint_word64: "uint (word64 x) = x mod 2 ^ 64"
  by (simp add: uint_word_of_int)

lemma sint_word64: "sint (word64 x) = x mod 2 ^ 64 - (if 2 ^ 63 \<le> x mod 2 ^ 64 then 2 ^ 64 else 0)"
proof -
  have "sint (word64 x) = signed_take_bit 63 x" by (simp add: sint_sbintrunc')
  also have "\<dots> = take_bit 64 x - 2 ^ 64 * of_bool (bit x 63)"
    by (simp add: signed_take_bit_eq_take_bit_minus)
  also have "bit x 63 \<longleftrightarrow> bit (x mod 2 ^ 64) 63"
    unfolding take_bit_eq_mod [symmetric] by (simp add: bit_take_bit_iff)
  also have "\<dots> \<longleftrightarrow> 2 ^ 63 \<le> x mod 2 ^ 64" by (rule bit_63) simp_all
  finally show ?thesis by (simp add: take_bit_eq_mod)
qed

text \<open>The borrow and overflow of a subtraction, with all values in 64-bit range.\<close>

lemma subtract_overflow:
  fixes d s :: int
  assumes "0 \<le> d" "d < 2 ^ 64" "0 \<le> s" "s < 2 ^ 64"
  defines "r \<equiv> (d - s) mod 2 ^ 64"
  shows "test_bit ((d XOR s) AND (d XOR r)) 63 \<longleftrightarrow>
     (2 ^ 63 \<le> d) \<noteq> (2 ^ 63 \<le> s) \<and> (2 ^ 63 \<le> d) \<noteq> (2 ^ 63 \<le> r)"
    and "r = (if s \<le> d then d - s else d - s + 2 ^ 64)"
proof -
  have r: "0 \<le> r" "r < 2 ^ 64" by (simp_all add: r_def)
  show "test_bit ((d XOR s) AND (d XOR r)) 63 \<longleftrightarrow>
     (2 ^ 63 \<le> d) \<noteq> (2 ^ 63 \<le> s) \<and> (2 ^ 63 \<le> d) \<noteq> (2 ^ 63 \<le> r)"
    using bit_63 [OF assms(1,2)] bit_63 [OF assms(3,4)] bit_63 [OF r]
    by (simp add: test_bit_iff bit_and_iff bit_xor_iff)
  show "r = (if s \<le> d then d - s else d - s + 2 ^ 64)"
  proof (cases "s \<le> d")
    case False
    have "(d - s + 2 ^ 64) mod 2 ^ 64 = d - s + 2 ^ 64" using False assms by (intro mod_pos_pos_trivial) auto
    then show ?thesis using False by (simp add: r_def)
  qed (use assms in \<open>simp add: r_def mod_pos_pos_trivial\<close>)
qed

lemma add_overflow:
  fixes d s :: int
  assumes "0 \<le> d" "d < 2 ^ 64" "0 \<le> s" "s < 2 ^ 64"
  defines "r \<equiv> (d + s) mod 2 ^ 64"
  shows "test_bit (NOT (d XOR s) AND (d XOR r)) 63 \<longleftrightarrow>
     (2 ^ 63 \<le> d) = (2 ^ 63 \<le> s) \<and> (2 ^ 63 \<le> d) \<noteq> (2 ^ 63 \<le> r)"
    and "r = (if d + s < 2 ^ 64 then d + s else d + s - 2 ^ 64)"
proof -
  have r: "0 \<le> r" "r < 2 ^ 64" by (simp_all add: r_def)
  show "test_bit (NOT (d XOR s) AND (d XOR r)) 63 \<longleftrightarrow>
     (2 ^ 63 \<le> d) = (2 ^ 63 \<le> s) \<and> (2 ^ 63 \<le> d) \<noteq> (2 ^ 63 \<le> r)"
    using bit_63 [OF assms(1,2)] bit_63 [OF assms(3,4)] bit_63 [OF r]
    by (simp add: test_bit_iff bit_and_iff bit_xor_iff bit_not_iff)
  show "r = (if d + s < 2 ^ 64 then d + s else d + s - 2 ^ 64)"
  proof (cases "d + s < 2 ^ 64")
    case False
    have "(d + s - 2 ^ 64) mod 2 ^ 64 = d + s - 2 ^ 64" using False assms by (intro mod_pos_pos_trivial) auto
    then show ?thesis using False by (simp add: r_def)
  qed (use assms in \<open>simp add: r_def mod_pos_pos_trivial\<close>)
qed

lemma write_flags_fields [simp]:
  "x_registers (write_flags r c v st) = x_registers st" "x_constants (write_flags r c v st) = x_constants st"
  "x_flags (write_flags r c v st) = \<lparr>f_zf = (r mod 2 ^ 64 = 0), f_cf = c, f_sf = bit (r mod 2 ^ 64) 63, f_of = v\<rparr>"
  by (simp_all add: write_flags_def Let_def and_MASK64 test_bit_iff)

lemma set_register_fields [simp]:
  "x_registers (set_register r v st) = AList.update r v (x_registers st)"
  "x_flags (set_register r v st) = x_flags st" "x_constants (set_register r v st) = x_constants st"
  by (simp_all add: set_register_def)

section \<open>A small state\<close>

definition demo_x86 :: x86_state where
  "demo_x86 = \<lparr>x_registers = [(''rax'', 5), (''rbx'', 0)],
     x_flags = \<lparr>f_zf = False, f_cf = False, f_sf = False, f_of = False\<rparr>, x_constants = []\<rparr>"

definition demo_item :: "string \<Rightarrow> string list \<Rightarrow> static_instruction" where
  "demo_item m operands = \<lparr>si_index = 0, si_source_line = 1, si_mnemonic = m, si_operands = operands, si_text = m\<rparr>"

definition demo_after :: "string \<Rightarrow> string list \<Rightarrow> x86_state" where
  "demo_after m operands = (case update_scalar_state (demo_item m operands) demo_x86 of Inl _ \<Rightarrow> demo_x86 | Inr st \<Rightarrow> st)"

lemma demo_item_fields [simp]:
  "si_mnemonic (demo_item m operands) = m" "si_operands (demo_item m operands) = operands"
  by (simp_all add: demo_item_def)

lemma demo_values:
  "scalar_operand_value ''$7'' (x_registers demo_x86) = Inr 7"
  "scalar_operand_value ''%rax'' (x_registers demo_x86) = Inr 5"
  "truthy (canonical_register ''%rax'') = Some ''rax''"
  by code_simp+

lemma demo_updates:
  "update_scalar_state (demo_item ''cmpq'' [''$7'', ''%rax'']) demo_x86 = Inr (demo_after ''cmpq'' [''$7'', ''%rax''])"
  "update_scalar_state (demo_item ''subq'' [''$7'', ''%rax'']) demo_x86 = Inr (demo_after ''subq'' [''$7'', ''%rax''])"
  by code_simp+

section \<open>Comparison and branch\<close>

lemma word64_range: "0 \<le> d \<Longrightarrow> d < 2 ^ 64 \<Longrightarrow> uint (word64 d) = d \<and>
    sint (word64 d) = d - (if 2 ^ 63 \<le> d then 2 ^ 64 else 0)"
  by (simp only: uint_word64 sint_word64 mod_pos_pos_trivial simp_thms)

lemma word64_mod: "word64 (x mod 2 ^ 64) = word64 x"
  by (simp add: word_uint_eq_iff uint_word_of_int)

lemma compare_flags:
  assumes "si_mnemonic i = ''cmpq''" and "si_operands i = [src, dst]"
    and "scalar_operand_value src (x_registers st) = Inr sv" and "scalar_operand_value dst (x_registers st) = Inr dv"
  obtains st' where "update_scalar_state i st = Inr st'" "x_registers st' = x_registers st"
    "f_zf (x_flags st') \<longleftrightarrow> word64 dv = word64 sv" "f_cf (x_flags st') \<longleftrightarrow> word64 dv < word64 sv"
    "f_sf (x_flags st') \<longleftrightarrow> word64 dv - word64 sv <s 0"
    "f_of (x_flags st') \<longleftrightarrow> sint (word64 dv - word64 sv) \<noteq> sint (word64 dv) - sint (word64 sv)"
    "f_sf (x_flags st') \<noteq> f_of (x_flags st') \<longleftrightarrow> word64 dv <s word64 sv"
proof -
  define d s where "d = dv mod 2 ^ 64" and "s = sv mod 2 ^ 64"
  have rng: "0 \<le> d" "d < 2 ^ 64" "0 \<le> s" "s < 2 ^ 64" by (simp_all add: d_def s_def)
  define r where "r = (d - s) mod 2 ^ 64"
  note ov = subtract_overflow [OF rng, folded r_def]
  have r: "0 \<le> r" "r < 2 ^ 64" by (simp_all add: r_def)
  define st' where "st' = write_flags r (d < s) (test_bit ((d XOR s) AND (d XOR r)) 63) st"
  have run: "update_scalar_state i st = Inr st'"
    using assms by (simp add: update_scalar_state_def exec_compare_def first_operand_def last_operand_def
        and_MASK64 d_def s_def r_def st'_def Let_def)
  have u: "uint (word64 dv) = d" "uint (word64 sv) = s" by (simp_all only: uint_word64 d_def s_def)
  have si: "sint (word64 dv) = d - (if 2 ^ 63 \<le> d then 2 ^ 64 else 0)"
    "sint (word64 sv) = s - (if 2 ^ 63 \<le> s then 2 ^ 64 else 0)"
    by (simp_all only: sint_word64 d_def s_def)
  have "r mod 2 ^ 64 = r" using r by (simp add: mod_pos_pos_trivial)
  then have fl: "f_zf (x_flags st') \<longleftrightarrow> r = 0" "f_cf (x_flags st') \<longleftrightarrow> d < s" "f_sf (x_flags st') \<longleftrightarrow> 2 ^ 63 \<le> r"
    "f_of (x_flags st') \<longleftrightarrow> test_bit ((d XOR s) AND (d XOR r)) 63"
    using bit_63 [OF r] by (simp_all add: st'_def)
  have "f_zf (x_flags st') \<longleftrightarrow> word64 dv = word64 sv"
    using ov(2) rng u unfolding fl(1) word_uint_eq_iff by (auto split: if_splits)
  moreover have "f_cf (x_flags st') \<longleftrightarrow> word64 dv < word64 sv"
    by (simp only: fl(2) word_less_def u)
  moreover have "f_sf (x_flags st') \<noteq> f_of (x_flags st') \<longleftrightarrow> word64 dv <s word64 sv"
    using rng r unfolding fl(3,4) ov(1) word_sless_alt si by (subst ov(2))+ (auto split: if_splits)
  moreover have diff: "word64 dv - word64 sv = word64 r"
    by (simp only: r_def d_def s_def word64_mod wi_hom_sub mod_diff_eq)
  note wr = word64_range [OF r]
  have sr: "sint (word64 dv - word64 sv) = r - (if 2 ^ 63 \<le> r then 2 ^ 64 else 0)"
    unfolding diff by (rule conjunct2 [OF wr])
  have "f_sf (x_flags st') \<longleftrightarrow> word64 dv - word64 sv <s 0"
    using r unfolding fl(3) diff by (auto simp: word_sless_alt wr)
  moreover have "f_of (x_flags st') \<longleftrightarrow> sint (word64 dv - word64 sv) \<noteq> sint (word64 dv) - sint (word64 sv)"
    using rng r unfolding fl(4) ov(1) sr si by (subst ov(2))+ (auto split: if_splits)
  ultimately show ?thesis using that [OF run] by (simp add: st'_def)
qed

text \<open>
  C18. \<open>cmpq\<close> followed by a conditional jump compares the 64-bit values of its operands, for all 26
  mnemonics of \<open>CONDITIONAL_BRANCHES\<close>: the \<open>e\<close> and \<open>z\<close> forms are equality, the \<open>b\<close>, \<open>a\<close> and \<open>c\<close> forms
  the unsigned order, the \<open>l\<close> and \<open>g\<close> forms the two's complement order, the \<open>s\<close> forms the sign of the
  difference and the \<open>o\<close> forms its signed overflow. No mnemonic outside these groups is in the list.
\<close>

theorem compare_and_branch:
  assumes "si_mnemonic i = ''cmpq''" and "si_operands i = [src, dst]"
    and "scalar_operand_value src (x_registers st) = Inr sv" and "scalar_operand_value dst (x_registers st) = Inr dv"
    and "update_scalar_state i st = Inr st'" and "d = word64 dv" and "s = word64 sv"
  shows "(\<forall>m\<in>{''je'', ''jz''}. branch_taken m (x_flags st') = Inr (d = s)) \<and>
     (\<forall>m\<in>{''jne'', ''jnz''}. branch_taken m (x_flags st') = Inr (d \<noteq> s)) \<and>
     (\<forall>m\<in>{''jb'', ''jc'', ''jnae''}. branch_taken m (x_flags st') = Inr (d < s)) \<and>
     (\<forall>m\<in>{''jae'', ''jnb'', ''jnc''}. branch_taken m (x_flags st') = Inr (s \<le> d)) \<and>
     (\<forall>m\<in>{''jbe'', ''jna''}. branch_taken m (x_flags st') = Inr (d \<le> s)) \<and>
     (\<forall>m\<in>{''ja'', ''jnbe''}. branch_taken m (x_flags st') = Inr (s < d)) \<and>
     (\<forall>m\<in>{''jl'', ''jnge''}. branch_taken m (x_flags st') = Inr (d <s s)) \<and>
     (\<forall>m\<in>{''jge'', ''jnl''}. branch_taken m (x_flags st') = Inr (s \<le>s d)) \<and>
     (\<forall>m\<in>{''jle'', ''jng''}. branch_taken m (x_flags st') = Inr (d \<le>s s)) \<and>
     (\<forall>m\<in>{''jg'', ''jnle''}. branch_taken m (x_flags st') = Inr (s <s d)) \<and>
     branch_taken ''js'' (x_flags st') = Inr (d - s <s 0) \<and> branch_taken ''jns'' (x_flags st') = Inr (\<not> d - s <s 0) \<and>
     branch_taken ''jo'' (x_flags st') = Inr (sint (d - s) \<noteq> sint d - sint s) \<and>
     branch_taken ''jno'' (x_flags st') = Inr (sint (d - s) = sint d - sint s) \<and>
     set CONDITIONAL_BRANCHES = {''je'', ''jz'', ''jne'', ''jnz'', ''jb'', ''jc'', ''jnae'', ''jae'', ''jnb'', ''jnc'', ''jbe'', ''jna'',
       ''ja'', ''jnbe'', ''jl'', ''jnge'', ''jge'', ''jnl'', ''jle'', ''jng'', ''jg'', ''jnle'', ''js'', ''jns'', ''jo'', ''jno''}"
proof -
  obtain st'' where f: "update_scalar_state i st = Inr st''"
    "f_zf (x_flags st'') \<longleftrightarrow> d = s" "f_cf (x_flags st'') \<longleftrightarrow> d < s" "f_sf (x_flags st'') \<longleftrightarrow> d - s <s 0"
    "f_of (x_flags st'') \<longleftrightarrow> sint (d - s) \<noteq> sint d - sint s" "f_sf (x_flags st'') \<noteq> f_of (x_flags st'') \<longleftrightarrow> d <s s"
    using compare_flags [OF assms(1-4)] unfolding assms(6,7) by blast
  then have eq: "st'' = st'" using assms(5) by simp
  have sl: "\<not> d <s s \<longleftrightarrow> s \<le>s d" "d \<le>s s \<longleftrightarrow> d = s \<or> d <s s" "s <s d \<longleftrightarrow> d \<noteq> s \<and> \<not> d <s s"
    unfolding word_sless_alt word_sle_eq word_eq_iff_signed [where 'a = int] by linarith+
  note flags = f(2-4) [unfolded eq] f(5,6) [unfolded eq]
  have un: "\<not> d < s \<longleftrightarrow> s \<le> d" "d \<le> s \<longleftrightarrow> d < s \<or> d = s" "s < d \<longleftrightarrow> \<not> d < s \<and> d \<noteq> s" by auto
  have order: "f_sf (x_flags st') = f_of (x_flags st') \<longleftrightarrow> \<not> d <s s" using flags(5) by blast
  have taken: "branch_taken ''js'' (x_flags st') = Inr (f_sf (x_flags st'))" "branch_taken ''jns'' (x_flags st') = Inr (\<not> f_sf (x_flags st'))"
    "branch_taken ''jo'' (x_flags st') = Inr (f_of (x_flags st'))" "branch_taken ''jno'' (x_flags st') = Inr (\<not> f_of (x_flags st'))"
    by (simp_all add: branch_taken_def UNCONDITIONAL_BRANCHES_def)
  show ?thesis
    apply (intro conjI)
    subgoal by (simp add: branch_taken_def UNCONDITIONAL_BRANCHES_def flags(1))
    subgoal by (simp add: branch_taken_def UNCONDITIONAL_BRANCHES_def flags(1))
    subgoal by (simp add: branch_taken_def UNCONDITIONAL_BRANCHES_def flags(2))
    subgoal by (simp add: branch_taken_def UNCONDITIONAL_BRANCHES_def flags(2) un(1))
    subgoal by (simp add: branch_taken_def UNCONDITIONAL_BRANCHES_def flags(1,2) un(2))
    subgoal by (simp add: branch_taken_def UNCONDITIONAL_BRANCHES_def flags(1,2) un(3))
    subgoal using flags(5) by (auto simp: branch_taken_def UNCONDITIONAL_BRANCHES_def)
    subgoal by (simp add: branch_taken_def UNCONDITIONAL_BRANCHES_def order sl(1))
    subgoal using flags(1,5) sl(2) by (auto simp: branch_taken_def UNCONDITIONAL_BRANCHES_def)
    subgoal by (simp add: branch_taken_def UNCONDITIONAL_BRANCHES_def flags(1) order sl(3))
    subgoal by (simp only: taken(1) flags(3))
    subgoal by (simp only: taken(2) flags(3))
    subgoal by (simp only: taken(3) flags(4))
    subgoal by (simp only: taken(4) flags(4) not_not)
    subgoal by (auto simp: CONDITIONAL_BRANCHES_def)
    done
qed

theorem compare_and_branch_witness:
  "branch_taken ''jb'' (x_flags (demo_after ''cmpq'' [''$7'', ''%rax''])) = Inr True \<and>
     branch_taken ''jnb'' (x_flags (demo_after ''cmpq'' [''$7'', ''%rax''])) = Inr False \<and>
     branch_taken ''jg'' (x_flags (demo_after ''cmpq'' [''$7'', ''%rax''])) = Inr False \<and>
     branch_taken ''jo'' (x_flags (demo_after ''cmpq'' [''$7'', ''%rax''])) = Inr False"
  using compare_and_branch [OF _ _ demo_values(1,2), of "demo_item ''cmpq'' [''$7'', ''%rax'']", OF _ _ demo_updates(1) refl refl]
  by simp

section \<open>Addition and subtraction\<close>

lemma add_sub_run:
  assumes "si_mnemonic i = m" and "m = ''addq'' \<or> m = ''subq''" and "si_operands i = [src, dst]"
    and "scalar_operand_value src (x_registers st) = Inr sv" and "scalar_operand_value dst (x_registers st) = Inr d"
    and "truthy (canonical_register dst) = Some reg"
  defines "s \<equiv> sv mod 2 ^ 64"
  shows "update_scalar_state i st = Inr (if m = ''addq''
     then set_register reg ((d + s) mod 2 ^ 64) (write_flags ((d + s) mod 2 ^ 64) (d + s > MASK64)
       (test_bit (NOT (d XOR s) AND (d XOR (d + s) mod 2 ^ 64)) 63) st)
     else set_register reg ((d - s) mod 2 ^ 64) (write_flags ((d - s) mod 2 ^ 64) (d < s)
       (test_bit ((d XOR s) AND (d XOR (d - s) mod 2 ^ 64)) 63) st))"
  using assms by (auto simp: update_scalar_state_def exec_add_sub_def with_destination_def first_operand_def
      last_operand_def and_MASK64 Let_def)

text \<open>
  C20. \<open>addq\<close> and \<open>subq\<close> on registers in 64-bit range: the result is the word sum or difference,
  the zero and sign flags are those of the result, the carry flag is the unsigned carry or borrow,
  and the overflow flag is set exactly when the signed result is out of range.
\<close>

theorem add_sub_words:
  assumes "si_mnemonic i = m" and "m = ''addq'' \<or> m = ''subq''" and "si_operands i = [src, dst]"
    and "scalar_operand_value src (x_registers st) = Inr sv" and "scalar_operand_value dst (x_registers st) = Inr d"
    and "truthy (canonical_register dst) = Some reg" and "0 \<le> d" and "d < 2 ^ 64"
    and "r = (if m = ''addq'' then word64 d + word64 sv else word64 d - word64 sv)"
  shows "\<exists>st'. update_scalar_state i st = Inr st' \<and> map_of (x_registers st') reg = Some (uint r) \<and>
     f_zf (x_flags st') = (r = 0) \<and> f_sf (x_flags st') = (r <s 0) \<and>
     f_cf (x_flags st') = (if m = ''addq'' then r < word64 d else word64 d < word64 sv) \<and>
     f_of (x_flags st') = (if m = ''addq'' then sint r \<noteq> sint (word64 d) + sint (word64 sv)
        else sint r \<noteq> sint (word64 d) - sint (word64 sv))"
proof -
  define s where "s = sv mod 2 ^ 64"
  have rng: "0 \<le> d" "d < 2 ^ 64" "0 \<le> s" "s < 2 ^ 64" using assms(7,8) by (simp_all add: s_def)
  define n where "n = (if m = ''addq'' then (d + s) mod 2 ^ 64 else (d - s) mod 2 ^ 64)"
  have n: "0 \<le> n" "n < 2 ^ 64" by (simp_all add: n_def)
  have ws: "word64 sv = word64 s" by (simp only: s_def word64_mod)
  have rn: "r = word64 n"
    using assms(9) by (cases "m = ''addq''") (simp_all only: n_def ws word64_mod wi_hom_add wi_hom_sub if_True if_False simp_thms)
  note ints = word64_range [OF rng(1,2)] word64_range [OF rng(3,4)] word64_range [OF n]
  have zero: "r = 0 \<longleftrightarrow> n = 0" using ints(3) by (auto simp: rn word_uint_eq_iff)
  have sign: "r <s 0 \<longleftrightarrow> 2 ^ 63 \<le> n" using n by (auto simp: rn word_sless_alt ints(3))
  have nn: "n mod 2 ^ 64 = n" using n by (rule mod_pos_pos_trivial)
  note add = add_overflow [OF rng] and sub = subtract_overflow [OF rng]
  have up: "word64 d \<le> r \<longleftrightarrow> d \<le> n" "word64 d < word64 s \<longleftrightarrow> d < s" "r < word64 d \<longleftrightarrow> n < d"
    by (simp_all only: word_le_def word_less_def rn ints)
  define st' where "st' = (if m = ''addq''
     then set_register reg n (write_flags n (d + s > MASK64) (test_bit (NOT (d XOR s) AND (d XOR n)) 63) st)
     else set_register reg n (write_flags n (d < s) (test_bit ((d XOR s) AND (d XOR n)) 63) st))"
  have run: "update_scalar_state i st = Inr st'"
    using add_sub_run [OF assms(1-6)] by (simp add: st'_def n_def s_def)
  have reg: "map_of (x_registers st') reg = Some (uint r)" by (simp add: st'_def rn ints(3))
  have zs: "f_zf (x_flags st') = (r = 0)" "f_sf (x_flags st') = (r <s 0)"
    unfolding zero sign using bit_63 [OF n] by (simp_all add: st'_def nn [simplified])
  show ?thesis
  proof (cases "m = ''addq''")
    case True
    have n': "n = (if d + s < 2 ^ 64 then d + s else d + s - 2 ^ 64)" using add(2) True by (simp add: n_def)
    have "f_cf (x_flags st') \<longleftrightarrow> d + s > MASK64" using True by (simp add: st'_def)
    then have "f_cf (x_flags st') = (r < word64 d)"
      unfolding up n' MASK64_def using rng by auto
    moreover have "f_of (x_flags st') \<longleftrightarrow> (2 ^ 63 \<le> d) = (2 ^ 63 \<le> s) \<and> (2 ^ 63 \<le> d) \<noteq> (2 ^ 63 \<le> n)"
      using True add(1) by (simp add: st'_def n_def)
    then have "f_of (x_flags st') = (sint r \<noteq> sint (word64 d) + sint (word64 sv))"
      unfolding ws rn using ints n' rng by (auto split: if_splits)
    ultimately show ?thesis using run reg zs True by auto
  next
    case False
    have n': "n = (if s \<le> d then d - s else d - s + 2 ^ 64)" using sub(2) False by (simp add: n_def)
    have "f_cf (x_flags st') \<longleftrightarrow> d < s" using False by (simp add: st'_def)
    then have "f_cf (x_flags st') = (word64 d < word64 sv)" by (simp only: ws up)
    moreover have "f_of (x_flags st') \<longleftrightarrow> (2 ^ 63 \<le> d) \<noteq> (2 ^ 63 \<le> s) \<and> (2 ^ 63 \<le> d) \<noteq> (2 ^ 63 \<le> n)"
      using False sub(1) by (simp add: st'_def n_def)
    then have "f_of (x_flags st') = (sint r \<noteq> sint (word64 d) - sint (word64 sv))"
      unfolding ws rn using ints n' rng by (auto split: if_splits)
    ultimately show ?thesis using run reg zs False by auto
  qed
qed

theorem add_sub_words_witness:
  "\<exists>st'. update_scalar_state (demo_item ''subq'' [''$7'', ''%rax'']) demo_x86 = Inr st' \<and>
     map_of (x_registers st') ''rax'' = Some (2 ^ 64 - 2) \<and> f_cf (x_flags st')"
  using add_sub_words [OF _ _ _ demo_values, of "demo_item ''subq'' [''$7'', ''%rax'']" "''subq''"] by auto

section \<open>Register range\<close>

definition in_range :: "x86_state \<Rightarrow> bool" where
  "in_range st \<longleftrightarrow> (\<forall>v\<in>snd ` set (x_registers st). 0 \<le> v \<and> v < 2 ^ 64)"

lemma in_range_set: "in_range st \<Longrightarrow> 0 \<le> v \<Longrightarrow> v < 2 ^ 64 \<Longrightarrow> in_range (set_register r v st)"
  using set_update_subset [of r v "x_registers st"] by (auto simp: in_range_def)

lemma in_range_flags [simp]: "in_range (write_flags r c v st) = in_range st"
  by (simp add: in_range_def)

lemma in_range_write: "in_range st \<Longrightarrow> in_range (write_register t v st)"
proof -
  assume st: "in_range st"
  have "0 \<le> v AND MASK32" "v AND MASK32 < 2 ^ 64" "0 \<le> v AND MASK64" "v AND MASK64 < 2 ^ 64"
    using pos_mod_bound [of "2 ^ 32" v] by (auto simp: and_MASK32 and_MASK64)
  then show ?thesis using st by (auto simp: write_register_def Let_def intro!: in_range_set split: option.split)
qed

lemma shift_range: "0 \<le> drop_bit k (x mod 2 ^ 64) \<and> drop_bit k (x mod 2 ^ 64) < (2 :: int) ^ 64"
proof -
  let ?y = "x mod 2 ^ 64"
  have y: "0 \<le> ?y" "?y < 2 ^ 64" by simp_all
  have "?y div 2 ^ k \<le> ?y" using zdiv_mono2 [OF y(1), of 1 "2 ^ k"] by simp
  then show ?thesis using y by (simp add: drop_bit_eq_div pos_imp_zdiv_nonneg_iff)
qed

lemma with_destination_range:
  assumes "with_destination operands f st = Inr st'" and "in_range st"
    and "\<And>token r. f token r = Inr st' \<Longrightarrow> in_range st'"
  shows "in_range st'"
  using assms by (auto simp: with_destination_def rbind_eq_Inr_iff split: option.splits)

lemma mod_range: "0 \<le> x AND MASK64" "x AND MASK64 < 2 ^ 64"
  by (simp_all add: and_MASK64)

lemmas range_intros = with_destination_range in_range_set in_range_write mod_range

lemma exec_move_range: "exec_move m ops st = Inr st' \<Longrightarrow> in_range st \<Longrightarrow> in_range st'"
  by (auto simp: exec_move_def rbind_eq_Inr_iff Let_def intro: in_range_write)

lemma exec_add_sub_range: "exec_add_sub m ops st = Inr st' \<Longrightarrow> in_range st \<Longrightarrow> in_range st'"
  unfolding exec_add_sub_def
  by (erule with_destination_range) (auto simp: rbind_eq_Inr_iff Let_def split: if_splits intro!: in_range_set mod_range)

lemma exec_logic_range: "exec_logic m ops st = Inr st' \<Longrightarrow> in_range st \<Longrightarrow> in_range st'"
  unfolding exec_logic_def
  by (erule with_destination_range) (auto simp: rbind_eq_Inr_iff Let_def intro!: in_range_write)

lemma shifted_range:
  "0 \<le> drop_bit k (x AND MASK64)" "drop_bit k (x AND MASK64) < 18446744073709551616"
  using shift_range [of k x] by (simp_all only: and_MASK64) simp_all

lemma exec_shift_range: "exec_shift m ops st = Inr st' \<Longrightarrow> in_range st \<Longrightarrow> in_range st'"
  unfolding exec_shift_def
  by (erule with_destination_range)
    (auto simp: rbind_eq_Inr_iff Let_def shifted_range simp del: drop_bit_and drop_bit_nonnegative_int_iff split: if_splits intro!: in_range_set mod_range)

lemma exec_step_range: "exec_step m ops st = Inr st' \<Longrightarrow> in_range st \<Longrightarrow> in_range st'"
  unfolding exec_step_def
  by (erule with_destination_range) (auto simp: rbind_eq_Inr_iff Let_def intro!: in_range_set mod_range)

lemma exec_negate_range: "exec_negate m ops st = Inr st' \<Longrightarrow> in_range st \<Longrightarrow> in_range st'"
  unfolding exec_negate_def
  by (erule with_destination_range)
    (auto simp: rbind_eq_Inr_iff Let_def split: if_splits intro!: in_range_set mod_range)

lemma exec_compare_range: "exec_compare m ops st = Inr st' \<Longrightarrow> in_range st \<Longrightarrow> in_range st'"
  by (auto simp: exec_compare_def rbind_eq_Inr_iff Let_def split: if_splits)

lemmas exec_ranges = exec_move_range exec_add_sub_range exec_logic_range exec_shift_range exec_step_range
  exec_negate_range exec_compare_range

text \<open>
  Every scalar instruction except \<open>leaq\<close> keeps the registers in 64-bit range.
\<close>

theorem update_keeps_range:
  assumes "update_scalar_state i st = Inr st'" and "in_range st" and "si_mnemonic i \<noteq> ''leaq''"
  shows "in_range st'"
  using assms unfolding update_scalar_state_def
  by (simp add: Let_def split: if_splits) (erule (1) exec_ranges)+

theorem update_keeps_range_witness:
  "in_range (demo_after ''subq'' [''$7'', ''%rax''])"
  by (rule update_keeps_range [OF demo_updates(2)]) (simp_all add: in_range_def demo_x86_def)

text \<open>
  \<open>leaq\<close> stores the address without the 64-bit mask, so a negative address stays negative and a
  later \<open>addq\<close> misses the carry; \<open>xorl\<close> takes its flags from the 64-bit operands although it
  writes 32 bits.
\<close>

lemma leaq_leaves_range:
  "\<exists>st st'. update_scalar_state (demo_item ''leaq'' [''-8(%rbx)'', ''%rax'']) demo_x86 = Inr st \<and>
     map_of (x_registers st) ''rax'' = Some (- 8) \<and>
     update_scalar_state (demo_item ''addq'' [''$8'', ''%rax'']) st = Inr st' \<and>
     map_of (x_registers st') ''rax'' = Some 0 \<and> \<not> f_cf (x_flags st')"
proof -
  have "(case update_scalar_state (demo_item ''leaq'' [''-8(%rbx)'', ''%rax'']) demo_x86 of Inl _ \<Rightarrow> False
     | Inr st \<Rightarrow> map_of (x_registers st) ''rax'' = Some (- 8) \<and>
        (case update_scalar_state (demo_item ''addq'' [''$8'', ''%rax'']) st of Inl _ \<Rightarrow> False
         | Inr st' \<Rightarrow> map_of (x_registers st') ''rax'' = Some 0 \<and> \<not> f_cf (x_flags st')))"
    by code_simp
  then show ?thesis by (auto split: sum.splits)
qed

lemma xorl_zero_flag:
  "\<exists>st. update_scalar_state (demo_item ''xorl'' [''%ebx'', ''%eax''])
      (set_register ''rbx'' (2 ^ 32 + 5) demo_x86) = Inr st \<and>
     map_of (x_registers st) ''rax'' = Some 0 \<and> \<not> f_zf (x_flags st)"
proof -
  have "(case update_scalar_state (demo_item ''xorl'' [''%ebx'', ''%eax''])
      (set_register ''rbx'' (2 ^ 32 + 5) demo_x86) of Inl _ \<Rightarrow> False
     | Inr st \<Rightarrow> map_of (x_registers st) ''rax'' = Some 0 \<and> \<not> f_zf (x_flags st))"
    by code_simp
  then show ?thesis by (auto split: sum.splits)
qed

end
