(* ===== verification/TraceLinks.thy ===== *)
theory TraceLinks
  imports X86
begin

text \<open>
  Dependency links of dynamic traces, shared by both frontends: the last earlier instruction with a
  property, the links a table of last writers gives, and traces in which every instruction stands in
  a relation to the instructions before it.
\<close>

section \<open>Latest matching element\<close>

definition latest :: "('a \<Rightarrow> bool) \<Rightarrow> 'a list \<Rightarrow> 'a option" where
  "latest P xs = (if filter P xs = [] then None else Some (last (filter P xs)))"

lemma latest_Nil [simp]: "latest P [] = None"
  by (simp add: latest_def)

lemma latest_snoc [simp]: "latest P (xs @ [x]) = (if P x then Some x else latest P xs)"
  by (simp add: latest_def)

lemma latest_mem: "latest P xs = Some x \<Longrightarrow> x \<in> set xs \<and> P x"
proof -
  assume x: "latest P xs = Some x"
  then have "x \<in> set (filter P xs)"
    unfolding latest_def by (metis last_in_set option.distinct(1) option.inject)
  then show ?thesis by simp
qed

lemma set_map_filter: "y \<in> set (List.map_filter f xs) \<longleftrightarrow> (\<exists>x\<in>set xs. f x = Some y)"
  by (induction xs) (auto simp: List.map_filter_simps split: option.split)

lemma map_of_fold_const: "map_of (fold (\<lambda>r d. AList.update r v d) rs d) k = (if k \<in> set rs then Some v else map_of d k)"
  by (induction rs arbitrary: d) auto

section \<open>Who wrote what\<close>

definition writes_register :: "string \<Rightarrow> instruction \<Rightarrow> bool" where
  "writes_register r i \<longleftrightarrow> r \<in> set (i_register_writes i)"

definition stores_line :: "int \<Rightarrow> instruction \<Rightarrow> bool" where
  "stores_line l i \<longleftrightarrow> (\<exists>m. i_memory i = Some m \<and> mr_access m = ''store'' \<and> l \<in> set (mr_cache_lines m))"

definition register_links :: "instruction list \<Rightarrow> string list \<Rightarrow> (string \<times> string) list" where
  "register_links pre reads =
     List.map_filter (\<lambda>r. map_option (\<lambda>w. (r, i_id w)) (latest (writes_register r) pre)) reads"

definition memory_links :: "instruction list \<Rightarrow> mem_ref option \<Rightarrow> string list" where
  "memory_links pre memory =
     (case memory of None \<Rightarrow> []
      | Some m \<Rightarrow> List.map_filter (\<lambda>l. map_option i_id (latest (stores_line l) pre)) (mr_cache_lines m))"

text \<open>A table of last writers: every key is bound to the id of the last instruction that wrote it.\<close>

definition tracks :: "('k, string) dict \<Rightarrow> ('k \<Rightarrow> instruction \<Rightarrow> bool) \<Rightarrow> instruction list \<Rightarrow> bool" where
  "tracks d P is \<longleftrightarrow> (\<forall>k. map_of d k = map_option i_id (latest (P k) is))"

lemma tracks_Nil [simp]: "tracks [] P []"
  by (simp add: tracks_def)

lemma tracks_write:
  assumes "tracks d P is" and "\<And>k. P k i \<longleftrightarrow> k \<in> set ks"
  shows "tracks (fold (\<lambda>k d. AList.update k (i_id i) d) ks d) P (is @ [i])"
  using assms by (simp add: tracks_def map_of_fold_const)

lemma tracks_skip: "tracks d P is \<Longrightarrow> (\<And>k. \<not> P k i) \<Longrightarrow> tracks d P (is @ [i])"
  by (simp add: tracks_def)

lemma writers_of_links:
  "tracks d writes_register is \<Longrightarrow> writers_of d reads = register_links is reads"
  unfolding writers_of_def register_links_def
  by (rule arg_cong [where f = "\<lambda>g. List.map_filter g reads"])
    (auto simp: tracks_def fun_eq_iff option.map_comp o_def)

lemma stores_to_links: "tracks d stores_line is \<Longrightarrow> stores_to d memory = memory_links is memory"
  unfolding stores_to_def memory_links_def
  by (cases memory) (auto simp: tracks_def intro: arg_cong [where f = "\<lambda>g. List.map_filter g _"])

lemma tracks_store:
  assumes "tracks d stores_line is"
  shows "tracks (case i_memory i of None \<Rightarrow> d
     | Some m \<Rightarrow> if mr_access m = ''store''
         then fold (\<lambda>l d. AList.update l (i_id i) d) (mr_cache_lines m) d else d) stores_line (is @ [i])"
proof (cases "\<exists>m. i_memory i = Some m \<and> mr_access m = ''store''")
  case True
  then show ?thesis using tracks_write [OF assms, of i] by (auto simp: stores_line_def)
next
  case False
  then show ?thesis using tracks_skip [OF assms, of i] by (cases "i_memory i") (auto simp: stores_line_def)
qed

section \<open>Chained traces\<close>

definition chained :: "(instruction list \<Rightarrow> instruction \<Rightarrow> bool) \<Rightarrow> instruction list \<Rightarrow> bool" where
  "chained R is \<longleftrightarrow> (\<forall>k<length is. R (take k is) (is ! k))"

lemma chained_Nil [simp]: "chained R []"
  by (simp add: chained_def)

lemma chained_snoc: "chained R (is @ [i]) \<longleftrightarrow> chained R is \<and> R is i"
  by (auto simp: chained_def nth_append less_Suc_eq)

lemma register_links_earlier: "(r, d) \<in> set (register_links pre reads) \<Longrightarrow> \<exists>w\<in>set pre. d = i_id w"
  by (auto simp: register_links_def set_map_filter dest!: latest_mem)

lemma memory_links_earlier: "d \<in> set (memory_links pre memory) \<Longrightarrow> \<exists>w\<in>set pre. d = i_id w"
  by (auto simp: memory_links_def set_map_filter split: option.splits dest!: latest_mem)

lemmas links_earlier = register_links_earlier memory_links_earlier

lemma chained_earlier:
  assumes "chained R is" and "\<And>pre i. R pre i \<Longrightarrow> \<forall>d\<in>set (i_depends_on_instructions i). \<exists>w\<in>set pre. d = i_id w"
    and "k < length is" and "d \<in> set (i_depends_on_instructions (is ! k))"
  shows "\<exists>j<k. d = i_id (is ! j)"
proof -
  have "R (take k is) (is ! k)" using assms(1,3) by (simp add: chained_def)
  with assms(2,4) obtain w where "w \<in> set (take k is)" "d = i_id w" by blast
  then show ?thesis by (auto simp: in_set_conv_nth)
qed

lemma sort_ids_props: "set (sort_ids ids) = set ids" "distinct (sort_ids ids)" "sorted (map id_number (sort_ids ids))"
  by (simp_all add: sort_ids_def)

end
