(* ===== verification/X86Trace.thy ===== *)
theory X86Trace
  imports TraceLinks
begin

text \<open>
  What the x86 expansion records: every dependency of a dynamic instruction is the last earlier
  instruction that wrote the register, the flags or the cache line it reads, and operand lists are
  split as they were joined.
\<close>

section \<open>Links of a dynamic instruction\<close>

definition writes_flags :: "instruction \<Rightarrow> bool" where
  "writes_flags i \<longleftrightarrow> i_mnemonic i \<in> set FLAG_WRITERS"

definition flags_link :: "instruction list \<Rightarrow> instruction \<Rightarrow> string option" where
  "flags_link pre i =
     (if i_mnemonic i \<in> set CONDITIONAL_BRANCHES then map_option i_id (latest writes_flags pre) else None)"

definition linked :: "instruction list \<Rightarrow> instruction \<Rightarrow> bool" where
  "linked pre i \<longleftrightarrow>
     i_id i = instruction_id (length pre) \<and> i_sequence i = int (length pre) \<and>
     i_register_dependencies i = register_links pre (i_register_reads i) \<and>
     i_flags_dependency i = flags_link pre i \<and>
     set (i_memory_dependencies i) = set (memory_links pre (i_memory i)) \<and>
     set (i_depends_on_instructions i) = snd ` set (i_register_dependencies i) \<union>
       set_option (i_flags_dependency i) \<union> set (i_memory_dependencies i) \<and>
     distinct (i_depends_on_instructions i) \<and> sorted (map id_number (i_depends_on_instructions i))"

definition all_linked :: "instruction list \<Rightarrow> bool" where
  "all_linked is \<longleftrightarrow> chained linked is"

lemma all_linked_snoc: "all_linked (is @ [i]) \<longleftrightarrow> all_linked is \<and> linked is i"
  by (simp add: all_linked_def chained_snoc)

text \<open>An instruction depends only on earlier ones.\<close>

lemma linked_earlier: "linked pre i \<Longrightarrow> \<forall>d\<in>set (i_depends_on_instructions i). \<exists>w\<in>set pre. d = i_id w"
  unfolding linked_def
  by (auto simp: flags_link_def split: if_splits dest!: latest_mem links_earlier)

definition loop_inv :: "x86_loop \<Rightarrow> bool" where
  "loop_inv L \<longleftrightarrow> all_linked (xl_instructions L) \<and>
     tracks (xl_last_writer L) writes_register (xl_instructions L) \<and>
     xl_flags_writer L = map_option i_id (latest writes_flags (xl_instructions L)) \<and>
     tracks (xl_last_store L) stores_line (xl_instructions L)"

lemma dynamic_instruction_linked:
  assumes "loop_inv L" and "dynamic_instruction recipes item memory L = Inr i"
  shows "linked (xl_instructions L) i" "i_memory i = memory" "i_mnemonic i = si_mnemonic item"
    "i_register_writes i = fst (snd (register_roles item))"
proof -
  obtain reads writes rf wf where roles: "register_roles item = (reads, writes, rf, wf)" by (metis prod_cases4)
  have rf: "rf \<longleftrightarrow> si_mnemonic item \<in> set CONDITIONAL_BRANCHES"
    using roles by (auto simp: register_roles_def Let_def split: prod.splits)
  have links: "writers_of (xl_last_writer L) r = register_links (xl_instructions L) r"
    "stores_to (xl_last_store L) m = memory_links (xl_instructions L) m" for r m
    using assms(1) by (auto simp: loop_inv_def intro: writers_of_links stores_to_links)
  have fw: "xl_flags_writer L = map_option i_id (latest writes_flags (xl_instructions L))"
    using assms(1) by (simp add: loop_inv_def)
  show "linked (xl_instructions L) i"
    using assms(2) rf fw
    by (auto simp: dynamic_instruction_def roles rbind_eq_Inr_iff Let_def linked_def links flags_link_def
        sort_ids_props split: option.splits) force+
  show "i_memory i = memory" "i_mnemonic i = si_mnemonic item" "i_register_writes i = fst (snd (register_roles item))"
    using assms(2) by (auto simp: dynamic_instruction_def roles rbind_eq_Inr_iff Let_def)
qed

lemma record_writes_inv:
  assumes inv: "loop_inv L" and "linked (xl_instructions L) i" and "i_mnemonic i = si_mnemonic item"
    and "i_register_writes i = fst (snd (register_roles item))"
  shows "loop_inv (record_writes item i L)"
proof -
  obtain reads writes rf wf where roles: "register_roles item = (reads, writes, rf, wf)" by (metis prod_cases4)
  have wf: "wf \<longleftrightarrow> si_mnemonic item \<in> set FLAG_WRITERS"
    using roles by (auto simp: register_roles_def Let_def split: prod.splits)
  have "tracks (xl_last_store (record_writes item i L)) stores_line (xl_instructions L @ [i])"
    using inv tracks_store [of "xl_last_store L" "xl_instructions L" i] by (simp add: record_writes_def roles loop_inv_def)
  moreover have "tracks (xl_last_writer (record_writes item i L)) writes_register (xl_instructions L @ [i])"
    using inv assms(4) by (auto simp: record_writes_def roles loop_inv_def writes_register_def intro: tracks_write)
  moreover have "xl_flags_writer (record_writes item i L) = map_option i_id (latest writes_flags (xl_instructions L @ [i]))"
    using inv assms(3) wf by (auto simp: record_writes_def roles loop_inv_def writes_flags_def)
  moreover have "xl_instructions (record_writes item i L) = xl_instructions L @ [i]"
    by (simp add: record_writes_def roles)
  ultimately show ?thesis using inv assms(2) by (simp add: loop_inv_def all_linked_snoc)
qed

lemma loop_inv_cong:
  "xl_instructions L' = xl_instructions L \<Longrightarrow> xl_last_writer L' = xl_last_writer L \<Longrightarrow>
     xl_flags_writer L' = xl_flags_writer L \<Longrightarrow> xl_last_store L' = xl_last_store L \<Longrightarrow> loop_inv L \<Longrightarrow> loop_inv L'"
  by (simp add: loop_inv_def)

lemma expand_item_inv:
  assumes "loop_inv L" and "expand_item program recipes L = Inr (L', go)"
  shows "loop_inv L'" "length (xl_instructions L') = Suc (length (xl_instructions L))"
proof -
  define item where "item = fst program ! xl_pc L"
  obtain st memory i where run: "dynamic_instruction recipes item memory L = Inr i"
    "xl_instructions L' = xl_instructions (record_writes item i (L\<lparr>xl_state := st\<rparr>))"
    "xl_last_writer L' = xl_last_writer (record_writes item i (L\<lparr>xl_state := st\<rparr>))"
    "xl_flags_writer L' = xl_flags_writer (record_writes item i (L\<lparr>xl_state := st\<rparr>))"
    "xl_last_store L' = xl_last_store (record_writes item i (L\<lparr>xl_state := st\<rparr>))"
    using assms(2) unfolding expand_item_def item_def [symmetric] Let_def
    by (auto simp: rbind_eq_Inr_iff split: option.splits prod.splits)
  note d = dynamic_instruction_linked [OF assms(1) run(1)]
  have "loop_inv (L\<lparr>xl_state := st\<rparr>)" using assms(1) by (simp add: loop_inv_def)
  from record_writes_inv [OF this _ d(3,4)] d(1) have "loop_inv (record_writes item i (L\<lparr>xl_state := st\<rparr>))" by simp
  from loop_inv_cong [OF run(2-5) this] show "loop_inv L'" .
  show "length (xl_instructions L') = Suc (length (xl_instructions L))"
    unfolding run(2) by (auto simp: record_writes_def split: prod.splits)
qed

lemma expand_inv:
  "loop_inv L \<Longrightarrow> expand program recipes fuel L = Inr L' \<Longrightarrow>
     loop_inv L' \<and> length (xl_instructions L') \<le> length (xl_instructions L) + fuel"
proof (induction fuel arbitrary: L)
  case 0
  then show ?case by (simp add: expand.simps [of _ _ 0] split: if_splits)
next
  case (Suc fuel)
  show ?case
  proof (cases "length (fst program) \<le> xl_pc L")
    case True
    then show ?thesis using Suc.prems by (simp add: expand.simps [of _ _ "Suc fuel"])
  next
    case False
    then obtain L1 go where 1: "expand_item program recipes L = Inr (L1, go)"
      "(if go then expand program recipes fuel L1 else Inr L1) = Inr L'"
      using Suc.prems(2) by (auto simp: expand.simps [of _ _ "Suc fuel"] rbind_eq_Inr_iff)
    note inv = expand_item_inv [OF Suc.prems(1) 1(1)]
    show ?thesis using Suc.IH [OF inv(1)] 1(2) inv by (cases go) auto
  qed
qed

text \<open>
  C19. A dynamic trace is linked correctly: instruction \<open>k\<close> has id \<open>i<k>\<close>, its register
  dependencies are the last earlier writers of the registers it reads, a conditional branch depends
  on the last earlier instruction that wrote the flags, a memory access on the last earlier store to
  each of its cache lines, \<open>depends_on_instructions\<close> is the ordered union of these without
  repetition, and the trace is no longer than the safety bound.
\<close>

theorem dynamic_trace_linked:
  assumes "build_dynamic_trace lines function entries known n = Inr t"
  shows "all_linked (xt_instructions t) \<and> int (length (xt_instructions t)) \<le> 1000 + n * 16 \<and>
     (\<forall>k<length (xt_instructions t). \<forall>d\<in>set (i_depends_on_instructions (xt_instructions t ! k)).
        \<exists>j<k. d = i_id (xt_instructions t ! j))"
proof -
  obtain program recipes L where run: "0 < n"
    "expand program recipes (nat (1000 + n * 16)) (initial_loop n) = Inr L" "xt_instructions t = xl_instructions L"
    using assms by (auto simp: build_dynamic_trace_def rbind_eq_Inr_iff Let_def)
  have "loop_inv (initial_loop n)" by (simp add: loop_inv_def initial_loop_def all_linked_def)
  from expand_inv [OF this run(2)] have inv: "all_linked (xt_instructions t)"
    "int (length (xt_instructions t)) \<le> 1000 + n * 16"
    using run(1) by (auto simp: loop_inv_def run(3) initial_loop_def)
  have "\<exists>j<k. d = i_id (xt_instructions t ! j)" if "k < length (xt_instructions t)"
    "d \<in> set (i_depends_on_instructions (xt_instructions t ! k))" for k d
    using chained_earlier [OF _ linked_earlier that] inv(1) by (simp add: all_linked_def)
  with inv show ?thesis by blast
qed

definition demo_assembly :: "string list" where
  "demo_assembly = [''f:'', '' vmovups (%rdi), %zmm0'', '' vmovups %zmm0, (%rsi)'', '' subq $16, %rdx'', '' jne f'', '' ret'']"

definition demo_recipes :: "(string \<times> string \<times> string list) list" where
  "demo_recipes = [(''vmovups'', ''memory_load'', [''address_generation'', ''vector_load'']),
     (''vmovups'', ''memory_store'', [''address_generation'', ''vector_store'']),
     (''subq'', ''any'', [''scalar_alu'']), (''jne'', ''any'', [''branch'']), (''ret'', ''any'', [''return''])]"

definition demo_kinds :: "string list" where
  "demo_kinds = [''address_generation'', ''vector_load'', ''vector_store'', ''scalar_alu'', ''branch'', ''return'']"

definition demo_dynamic :: "instruction list" where
  "demo_dynamic = (case build_dynamic_trace demo_assembly ''f'' demo_recipes demo_kinds 16 of
     Inl _ \<Rightarrow> [] | Inr t \<Rightarrow> xt_instructions t)"

theorem dynamic_trace_linked_witness:
  "all_linked demo_dynamic \<and> length demo_dynamic = 5 \<and> i_register_dependencies (demo_dynamic ! 1) = [(''zmm0'', ''i0'')]"
proof -
  have "(case build_dynamic_trace demo_assembly ''f'' demo_recipes demo_kinds 16 of Inl _ \<Rightarrow> False | Inr _ \<Rightarrow> True)"
    by code_simp
  then obtain t where t: "build_dynamic_trace demo_assembly ''f'' demo_recipes demo_kinds 16 = Inr t"
    by (auto split: sum.splits)
  then have d: "demo_dynamic = xt_instructions t" by (simp add: demo_dynamic_def)
  have "length demo_dynamic = 5 \<and> i_register_dependencies (demo_dynamic ! 1) = [(''zmm0'', ''i0'')]" by code_simp
  with dynamic_trace_linked [OF t] show ?thesis unfolding d by blast
qed

section \<open>Operand lists\<close>

text \<open>\<open>scan depth s\<close>: the depth after \<open>s\<close>, unless \<open>s\<close> has a comma at depth zero.\<close>

fun scan :: "int \<Rightarrow> string \<Rightarrow> int option" where
  "scan depth [] = Some depth"
| "scan depth (c # cs) =
     (if c = CHR ''('' \<or> c = CHR ''['' then scan (depth + 1) cs
      else if c = CHR '')'' \<or> c = CHR '']'' then scan (depth - 1) cs
      else if c = CHR '','' \<and> depth = 0 then None else scan depth cs)"

definition operand_text :: "string \<Rightarrow> bool" where
  "operand_text op \<longleftrightarrow> op \<noteq> [] \<and> \<not> py_space (hd op) \<and> \<not> py_space (last op) \<and> scan 0 op = Some 0"

lemma split_from_scan: "scan depth op = Some d \<Longrightarrow> split_from depth acc (op @ rest) = split_from d (rev op @ acc) rest"
  by (induction depth op arbitrary: acc rule: scan.induct) (auto split: if_splits)

lemma strip_operand:
  assumes "operand_text op" and "list_all py_space sp"
  shows "strip (sp @ op) = op"
proof -
  obtain c cs where c: "op = c # cs" "\<not> py_space c" using assms(1) by (cases op) (auto simp: operand_text_def)
  have "dropWhile py_space (sp @ op) = op"
    using assms(2) c by (induction sp) auto
  moreover have "dropWhile py_space (rev op) = rev op"
    using assms(1) by (cases op rule: rev_cases) (auto simp: operand_text_def)
  ultimately show ?thesis by (simp add: strip_def)
qed

lemma split_from_join:
  "\<forall>op\<in>set ops. operand_text op \<Longrightarrow> ops \<noteq> [] \<Longrightarrow> list_all py_space sp \<Longrightarrow>
     split_from 0 sp (join '', '' ops) = ops"
proof (induction "'', ''" ops arbitrary: sp rule: join.induct)
  case (2 op)
  then have ok: "operand_text op" by simp
  have "split_from 0 sp op = split_from 0 (rev op @ sp) []"
    using split_from_scan [of 0 op 0 sp "[]"] ok by (simp add: operand_text_def)
  moreover have "strip (rev sp @ op) = op" using strip_operand [OF ok, of "rev sp"] 2(3) by simp
  ultimately show ?case using ok by (simp add: operand_text_def)
next
  case (3 op op2 ops)
  then have ok: "operand_text op" by simp
  have "split_from 0 sp (op @ '', '' @ join '', '' (op2 # ops)) = strip (rev sp @ op) # split_from 0 [CHR '' ''] (join '', '' (op2 # ops))"
    using split_from_scan [of 0 op 0 sp] ok by (simp add: operand_text_def)
  moreover have "split_from 0 [CHR '' ''] (join '', '' (op2 # ops)) = op2 # ops"
    using 3 by (simp add: py_space_def code_def)
  moreover have "strip (rev sp @ op) = op" using strip_operand [OF ok, of "rev sp"] 3(4) by simp
  ultimately show ?case by simp
qed simp

text \<open>
  C21. Round trip of operand lists: joining operands with a comma and a blank, as the parser does
  for the assembly text, and splitting again gives the same operands, whatever commas and brackets
  they contain inside balanced parentheses.
\<close>

theorem split_operands_join:
  assumes "\<forall>op\<in>set ops. operand_text op" and "ops \<noteq> []"
  shows "split_operands (join '', '' ops) = ops"
  using split_from_join [OF assms, of "[]"] by (simp add: split_operands_def)

theorem split_operands_join_witness:
  "split_operands ''8(%rax,%rbx,4), %zmm1'' = [''8(%rax,%rbx,4)'', ''%zmm1'']"
  using split_operands_join [of "[''8(%rax,%rbx,4)'', ''%zmm1'']"]
  by (simp add: operand_text_def py_space_def code_def)

text \<open>
  Round trip of immediates: the decimal text of any integer is read back as that integer.
\<close>

theorem parse_integer_show: "parse_integer (CHR ''$'' # show_int n) = Inr n"
proof -
  obtain c cs where c: "show_int n = c # cs" "\<not> py_space c" "is_digit (last (c # cs))"
    using show_int_plain by metis
  have "\<not> py_space CHR ''$''" by code_simp
  then have "strip (CHR ''$'' # show_int n) = CHR ''$'' # show_int n"
    using c digit_plain(1) by (intro strip_plain) auto
  then show ?thesis using py_int0_show [of n] by (simp add: parse_integer_def removeprefix_def startswith_def)
qed

end
