(* ===== verification/Rvv.thy ===== *)
theory Rvv
  imports X86 "HOL-Library.Signed_Division"
begin

unbundle bit_operations_syntax

text \<open>
  The RVV frontend (\<open>src/frontends/rvv.py\<close>): assembly parser, register roles with vector
  register groups, the scalar interpreter with its stack and constant pool, \<open>vsetvli\<close>, and the
  expansion into a dynamic trace.  The static instruction, the dictionaries of a trace, the
  dependency lookups and the statistics are those of the x86 frontend, whose code the module repeats.
\<close>

datatype rvv_error =
    RvvCannotParse nat string
  | RvvEmptyFunction string
  | RvvUnknownKinds string string "string list"
  | DuplicateRecipe string string
  | UnsupportedLmul string
  | GroupExceeds string
  | RvvUnsupportedMemory string
  | RvvUnsupportedAccess string
  | RvvBadInteger string
  | InvalidVsetvli "string list"
  | MissingVtype "string list"
  | NoEstablishedVl
  | ZeroSew
  | NegativeShift int
  | RvvUnsupportedBranch string
  | BeforeVsetvli string
  | MissingMemory string
  | RvvBadCount int
  | BadVlen int
  | RvvSafetyBound
  | RvvNoRecipe string
  | RvvUnknownTarget string
  | RvvIndexError

type_synonym 'a vresult = "rvv_error + 'a"

definition INPUT_BASE :: int where "INPUT_BASE = 0x100000"
definition OUTPUT_BASE :: int where "OUTPUT_BASE = 0x200000"
definition STACK_BASE :: int where "STACK_BASE = 0x300000"
definition CONSTANT_BASE :: int where "CONSTANT_BASE = 0x400000"

definition RVV_BRANCHES :: "string list" where
  "RVV_BRANCHES = [''beq'', ''bgeu'', ''bgtu'', ''bltu'', ''j'']"

definition RETURNS :: "string list" where "RETURNS = [''ret'', ''jr'']"
definition LOADS :: "string list" where "LOADS = [''ld'', ''flw'', ''vle32.v'']"
definition STORES :: "string list" where "STORES = [''sd'', ''fsw'', ''vse32.v'']"
definition VECTOR_FMA :: "string list" where "VECTOR_FMA = [''vfmacc.vf'', ''vfmacc.vv'']"

section \<open>Parsing\<close>

text \<open>Unlike the x86 frontend a repeated recipe is an error.\<close>

definition rvv_load_recipe :: "(string \<times> string \<times> string list) list \<Rightarrow> string list \<Rightarrow> recipes vresult" where
  "rvv_load_recipe entries known =
     rfold (\<lambda>(mnemonic, form, kinds) result.
       let unknown = sort (remdups (filter (\<lambda>k. k \<notin> set known) kinds));
           key = (lower mnemonic, lower form) in
       rbind (rguard (unknown = []) (RvvUnknownKinds mnemonic form unknown)) (\<lambda>_.
       rbind (rguard (key \<notin> set (keys result)) (DuplicateRecipe (fst key) (snd key))) (\<lambda>_.
       Inr (result @ [(key, kinds)])))) entries []"

fun rvv_parse_body :: "string \<Rightarrow> (nat \<times> string) list \<Rightarrow> parsed \<Rightarrow> parsed vresult" where
  "rvv_parse_body function [] p = Inr p"
| "rvv_parse_body function ((line_number, original) # rest) p =
     (let stripped = strip (before_char CHR ''#'' original) in
      if startswith stripped (''.size'' @ [CHR 0x09] @ function @ '','') \<or>
         startswith stripped (''.size '' @ function @ '','')
      then Inr p
      else (case match_label stripped of
        Some label \<Rightarrow> rvv_parse_body function rest (fst p, AList.update label (length (fst p)) (snd p))
      | None \<Rightarrow>
          if stripped = [] \<or> startswith stripped ''.'' then rvv_parse_body function rest p
          else (case match_instruction stripped of
              None \<Rightarrow> Inl (RvvCannotParse line_number original)
            | Some (name, operands) \<Rightarrow>
                rvv_parse_body function rest
                  (fst p @ [make_static (length (fst p)) line_number (lower name) operands], snd p))))"

fun rvv_find_function :: "string \<Rightarrow> (nat \<times> string) list \<Rightarrow> parsed vresult" where
  "rvv_find_function function [] = Inr ([], [])"
| "rvv_find_function function ((line_number, original) # rest) =
     (if strip (before_char CHR ''#'' original) = function @ '':''
      then rvv_parse_body function rest ([], [(function, 0)])
      else rvv_find_function function rest)"

definition rvv_parse_function :: "string list \<Rightarrow> string \<Rightarrow> parsed vresult" where
  "rvv_parse_function lines function =
     rbind (rvv_find_function function (enumerate 1 lines)) (\<lambda>(instructions, labels).
     if instructions = [] then Inl (RvvEmptyFunction function) else Inr (instructions, labels))"

section \<open>Registers and vector groups\<close>

text \<open>The names the pattern of \<open>canonical_register\<close> matches.\<close>

definition RVV_REGISTERS :: "string list" where
  "RVV_REGISTERS =
     [''zero'', ''ra'', ''sp'', ''gp'', ''tp''] @ map (\<lambda>n. ''t'' @ show_nat n) [0..<7] @
     map (\<lambda>n. ''s'' @ show_nat n) [0..<12] @ map (\<lambda>n. ''a'' @ show_nat n) [0..<8] @
     map (\<lambda>n. ''ft'' @ show_nat n) [0..<12] @ map (\<lambda>n. ''fs'' @ show_nat n) [0..<12] @
     map (\<lambda>n. ''fa'' @ show_nat n) [0..<8] @ map (\<lambda>n. ''v'' @ show_nat n) [0..<32]"

lemma RVV_REGISTERS_code [code]: "RVV_REGISTERS =
    [''zero'', ''ra'', ''sp'', ''gp'', ''tp'', ''t0'', ''t1'', ''t2'', ''t3'', ''t4'', ''t5'',
     ''t6'', ''s0'', ''s1'', ''s2'', ''s3'', ''s4'', ''s5'', ''s6'', ''s7'', ''s8'', ''s9'',
     ''s10'', ''s11'', ''a0'', ''a1'', ''a2'', ''a3'', ''a4'', ''a5'', ''a6'', ''a7'', ''ft0'',
     ''ft1'', ''ft2'', ''ft3'', ''ft4'', ''ft5'', ''ft6'', ''ft7'', ''ft8'', ''ft9'', ''ft10'',
     ''ft11'', ''fs0'', ''fs1'', ''fs2'', ''fs3'', ''fs4'', ''fs5'', ''fs6'', ''fs7'', ''fs8'',
     ''fs9'', ''fs10'', ''fs11'', ''fa0'', ''fa1'', ''fa2'', ''fa3'', ''fa4'', ''fa5'', ''fa6'',
     ''fa7'', ''v0'', ''v1'', ''v2'', ''v3'', ''v4'', ''v5'', ''v6'', ''v7'', ''v8'', ''v9'',
     ''v10'', ''v11'', ''v12'', ''v13'', ''v14'', ''v15'', ''v16'', ''v17'', ''v18'', ''v19'',
     ''v20'', ''v21'', ''v22'', ''v23'', ''v24'', ''v25'', ''v26'', ''v27'', ''v28'', ''v29'',
     ''v30'', ''v31'']"
  by code_simp

definition rvv_register :: "string \<Rightarrow> string option" where
  "rvv_register token = (let value = lower (strip token) in if value \<in> set RVV_REGISTERS then Some value else None)"

text \<open>\<open>Fraction\<close> of the module's table, as numerator and denominator.\<close>

definition LMUL_VALUES :: "(string, int \<times> int) dict" where
  "LMUL_VALUES =
     [(''mf8'', (1, 8)), (''mf4'', (1, 4)), (''mf2'', (1, 2)), (''m1'', (1, 1)), (''m2'', (2, 1)),
      (''m4'', (4, 1)), (''m8'', (8, 1))]"

definition lmul_value :: "string \<Rightarrow> (int \<times> int) vresult" where
  "lmul_value token = fetch UnsupportedLmul LMUL_VALUES token"

text \<open>\<open>VECTOR_REGISTER_RE\<close>.\<close>

definition vector_index :: "string \<Rightarrow> nat option" where
  "vector_index register =
     (case register of [] \<Rightarrow> None
      | c # digits \<Rightarrow>
          if c = CHR ''v'' \<and> digits \<noteq> [] \<and> list_all is_digit digits then parse_digits 10 digits else None)"

definition vector_group :: "string \<Rightarrow> vector_state \<Rightarrow> string list vresult" where
  "vector_group register state =
     (case vector_index register of None \<Rightarrow> Inr [register]
      | Some start \<Rightarrow>
          rbind (lmul_value (case truthy (vs_lmul state) of None \<Rightarrow> ''m1'' | Some l \<Rightarrow> l)) (\<lambda>(num, den).
          let group_size = nat (max 1 (num div den)) in
          if start + group_size > 32 then Inl (GroupExceeds register)
          else Inr (map (\<lambda>index. ''v'' @ show_nat index) [start..<start + group_size])))"

text \<open>\<open>MEMORY_RE\<close>: the displacement up to the last parenthesis, which holds the base register.\<close>

definition closes_base :: "string \<Rightarrow> bool" where
  "closes_base cs \<longleftrightarrow>
     (case cs of [] \<Rightarrow> False
      | c # rest \<Rightarrow> is_letter c \<and> rest \<noteq> [] \<and> last rest = CHR '')'' \<and> list_all register_char (butlast rest))"

fun rvv_memory_from :: "string \<Rightarrow> string \<Rightarrow> (string \<times> string) option" where
  "rvv_memory_from disp [] = None"
| "rvv_memory_from disp (c # cs) =
     (if c = CHR ''('' \<and> closes_base cs then Some (rev disp, butlast cs) else rvv_memory_from (c # disp) cs)"

definition rvv_match_memory :: "string \<Rightarrow> (string \<times> string) option" where
  "rvv_match_memory operand = rvv_memory_from [] operand"

definition rvv_registers_in_memory :: "string \<Rightarrow> string list" where
  "rvv_registers_in_memory operand =
     (case rvv_match_memory operand of None \<Rightarrow> []
      | Some (_, base) \<Rightarrow>
          (case rvv_register base of None \<Rightarrow> [] | Some r \<Rightarrow> if r = ''zero'' then [] else [r]))"

definition add_operand_registers :: "string list \<Rightarrow> string \<Rightarrow> vector_state \<Rightarrow> string list vresult" where
  "add_operand_registers result operand state =
     (case rvv_register operand of None \<Rightarrow> Inr result
      | Some r \<Rightarrow> if r = ''zero'' then Inr result
          else rbind (vector_group r state) (\<lambda>group. Inr (result @ group)))"

definition add_all :: "vector_state \<Rightarrow> string list \<Rightarrow> string list \<Rightarrow> string list vresult" where
  "add_all state operands result = rfold (\<lambda>operand rs. add_operand_registers rs operand state) operands result"

text \<open>\<open>reads\<close> and \<open>writes\<close> after the branch of the instruction's mnemonic.\<close>

definition rvv_operand_roles :: "string \<Rightarrow> string list \<Rightarrow> vector_state \<Rightarrow> string list
    \<Rightarrow> (string list \<times> string list) vresult" where
  "rvv_operand_roles mnemonic operands state reads =
     (let first = take 1 operands; others = drop 1 operands; vconfig = (if startswith mnemonic ''v'' then [''vconfig''] else []) in
      if mnemonic \<in> set RETURNS
      then if mnemonic = ''ret'' then Inr (reads @ [''ra''], [])
           else rbind (add_all state first reads) (\<lambda>reads. Inr (reads, []))
      else if mnemonic \<in> set RVV_BRANCHES
      then if mnemonic \<noteq> ''j'' then rbind (add_all state (butlast operands) reads) (\<lambda>reads. Inr (reads, []))
           else Inr (reads, [])
      else if mnemonic \<in> set STORES
      then rbind (add_all state first reads) (\<lambda>reads. Inr (reads @ vconfig, []))
      else if mnemonic \<in> set LOADS
      then rbind (add_all state first []) (\<lambda>writes. Inr (reads @ vconfig, writes))
      else if mnemonic = ''vsetvli''
      then rbind (add_all state (take 1 others) reads) (\<lambda>reads.
           rbind (if first \<noteq> [] \<and> rvv_register (hd first) \<noteq> Some ''zero'' then add_all state first [] else Inr [])
             (\<lambda>writes. Inr (reads, writes @ [''vconfig''])))
      else if mnemonic \<in> {''li'', ''lui''}
      then rbind (add_all state first []) (\<lambda>writes. Inr (reads, writes))
      else if mnemonic \<in> {''add'', ''addi'', ''sub'', ''slli''}
      then rbind (add_all state first []) (\<lambda>writes.
           rbind (add_all state others reads) (\<lambda>reads. Inr (reads, writes)))
      else if startswith mnemonic ''v''
      then rbind (add_all state first []) (\<lambda>writes.
           rbind (add_all state (if mnemonic \<in> set VECTOR_FMA then first else []) (reads @ [''vconfig''])) (\<lambda>reads.
           rbind (add_all state others reads) (\<lambda>reads. Inr (reads, writes))))
      else rbind (add_all state first []) (\<lambda>writes.
           rbind (add_all state others reads) (\<lambda>reads. Inr (reads, writes))))"

definition rvv_register_roles :: "static_instruction \<Rightarrow> vector_state \<Rightarrow> (string list \<times> string list) vresult" where
  "rvv_register_roles instruction state =
     rbind (rvv_operand_roles (si_mnemonic instruction) (si_operands instruction) state
         (concat (map rvv_registers_in_memory (si_operands instruction)))) (\<lambda>(reads, writes).
     Inr (ordered_unique reads, ordered_unique writes))"

section \<open>The scalar interpreter\<close>

record rvv_state =
  v_registers :: "(string, int) dict"
  v_stack :: "(int, int) dict"
  v_constants :: "(string, int) dict"
  v_vector :: vector_state

definition constant_address :: "string \<Rightarrow> (string, int) dict \<Rightarrow> int \<times> (string, int) dict" where
  "constant_address label constants =
     (case map_of constants label of Some address \<Rightarrow> (address, constants)
      | None \<Rightarrow> let address = CONSTANT_BASE + int (length constants) * 64 in
          (address, constants @ [(label, address)]))"

definition get_default :: "('k, int) dict \<Rightarrow> 'k \<Rightarrow> int" where
  "get_default d k = (case map_of d k of None \<Rightarrow> 0 | Some n \<Rightarrow> n)"

definition rvv_integer :: "string \<Rightarrow> int vresult" where
  "rvv_integer token = (case py_int0 token of None \<Rightarrow> Inl (RvvBadInteger token) | Some n \<Rightarrow> Inr n)"

definition scalar_value :: "string \<Rightarrow> (string, int) dict \<Rightarrow> int vresult" where
  "scalar_value operand registers =
     (case rvv_register operand of
        Some r \<Rightarrow> Inr (if r = ''zero'' then 0 else get_default registers r)
      | None \<Rightarrow> rvv_integer operand)"

text \<open>The label of a relocation: \<open>%lo(label)\<close> or \<open>%hi(label)\<close>.\<close>

definition relocation_of :: "string \<Rightarrow> string \<Rightarrow> string option" where
  "relocation_of prefix s =
     (let label = butlast (drop (length prefix) s) in
      if startswith s prefix \<and> drop (length prefix) s \<noteq> [] \<and> last s = CHR '')'' \<and> label \<noteq> [] \<and> CHR '')'' \<notin> set label
      then Some label else None)"

definition region_of :: "int \<Rightarrow> string" where
  "region_of address =
     (if INPUT_BASE \<le> address \<and> address < OUTPUT_BASE then ''input''
      else if OUTPUT_BASE \<le> address \<and> address < STACK_BASE then ''output''
      else if STACK_BASE - 0x10000 \<le> address \<and> address < CONSTANT_BASE then ''stack''
      else if address \<ge> CONSTANT_BASE then ''constant'' else ''other'')"

definition rvv_evaluate_memory :: "string \<Rightarrow> (string, int) dict \<Rightarrow> (string, int) dict
    \<Rightarrow> (int \<times> string \<times> (string, int) dict) vresult" where
  "rvv_evaluate_memory operand registers constants =
     (case rvv_match_memory operand of None \<Rightarrow> Inl (RvvUnsupportedMemory operand)
      | Some (disp, base_token) \<Rightarrow>
          let displacement = (if disp = [] then ''0'' else disp) in
          (case relocation_of ''%lo('' displacement of
             Some label \<Rightarrow> (case constant_address label constants of (address, constants) \<Rightarrow>
               Inr (address, ''constant'', constants))
           | None \<Rightarrow>
               rbind (rvv_integer displacement) (\<lambda>offset.
               let base = rvv_register base_token;
                   address = (case base of None \<Rightarrow> 0
                     | Some r \<Rightarrow> if r = ''zero'' then 0 else get_default registers r) + offset in
               Inr (address, region_of address, constants))))"

text \<open>The fields of the vtype operands; later ones win.\<close>

definition vtype_token :: "string \<Rightarrow> vector_state \<Rightarrow> vector_state" where
  "vtype_token operand vs =
     (let token = lower operand in
      if startswith token ''e'' \<and> tl token \<noteq> [] \<and> list_all is_digit (tl token)
      then vs\<lparr>vs_sew_bits := map_option int (parse_digits 10 (tl token))\<rparr>
      else if token \<in> {''mf8'', ''mf4'', ''mf2'', ''m1'', ''m2'', ''m4'', ''m8''} then vs\<lparr>vs_lmul := Some token\<rparr>
      else if token \<in> {''ta'', ''tu''} then vs\<lparr>vs_tail_policy := Some token\<rparr>
      else if token \<in> {''ma'', ''mu''} then vs\<lparr>vs_mask_policy := Some token\<rparr> else vs)"

definition blank_vector_state :: "int \<Rightarrow> vector_state" where
  "blank_vector_state vlen =
     \<lparr>vs_vlen_bits = vlen, vs_sew_bits = None, vs_lmul = None, vs_vlmax = None, vs_vl = None,
      vs_tail_policy = None, vs_mask_policy = None\<rparr>"

text \<open>\<open>int(Fraction(vlen_bits, sew_bits) * lmul)\<close> truncates toward zero.\<close>

definition vector_capacity :: "int \<Rightarrow> int \<Rightarrow> string \<Rightarrow> int vresult" where
  "vector_capacity vlen sew lmul =
     rbind (rguard (sew \<noteq> 0) ZeroSew) (\<lambda>_.
     rbind (lmul_value lmul) (\<lambda>(num, den). Inr ((vlen * num) sdiv (sew * den))))"

definition requested_vl :: "string \<Rightarrow> string \<Rightarrow> (string, int) dict \<Rightarrow> int \<Rightarrow> vector_state \<Rightarrow> int vresult" where
  "requested_vl destination_token source_token registers vlmax previous =
     (let destination = rvv_register destination_token; source = rvv_register source_token in
      if source = Some ''zero'' \<and> destination \<noteq> Some ''zero'' then Inr vlmax
      else if source = Some ''zero'' \<and> destination = Some ''zero''
      then (case vs_vl previous of None \<Rightarrow> Inl NoEstablishedVl | Some vl \<Rightarrow> Inr vl)
      else rbind (scalar_value source_token registers) (\<lambda>avl. Inr (min avl vlmax)))"

definition vector_state_from_operands :: "string list \<Rightarrow> (string, int) dict \<Rightarrow> int \<Rightarrow> vector_state
    \<Rightarrow> vector_state vresult" where
  "vector_state_from_operands operands registers vlen previous =
     (case operands of
        destination # source # vtype_head # vtype_tail \<Rightarrow>
          let vs = fold vtype_token (vtype_head # vtype_tail) (blank_vector_state vlen) in
          (case (vs_sew_bits vs, vs_lmul vs) of
             (Some sew, Some lmul) \<Rightarrow>
               rbind (vector_capacity vlen sew lmul) (\<lambda>vlmax.
               rbind (requested_vl destination source registers vlmax previous) (\<lambda>vl.
               Inr (vs\<lparr>vs_vlmax := Some vlmax, vs_vl := Some vl\<rparr>)))
           | _ \<Rightarrow> Inl (MissingVtype operands))
      | _ \<Rightarrow> Inl (InvalidVsetvli operands))"

definition operand_at :: "string list \<Rightarrow> nat \<Rightarrow> string vresult" where
  "operand_at operands k = (if k < length operands then Inr (operands ! k) else Inl RvvIndexError)"

definition rvv_write :: "string \<Rightarrow> int \<Rightarrow> rvv_state \<Rightarrow> rvv_state" where
  "rvv_write destination value st =
     (case rvv_register destination of None \<Rightarrow> st
      | Some r \<Rightarrow> if r = ''zero'' then st
          else st\<lparr>v_registers := AList.update r (value AND MASK64) (v_registers st)\<rparr>)"

definition rvv_write_to :: "string list \<Rightarrow> int \<Rightarrow> rvv_state \<Rightarrow> rvv_state vresult" where
  "rvv_write_to operands value st =
     rbind (operand_at operands 0) (\<lambda>destination. Inr (rvv_write destination value st))"

definition exec_li :: "string list \<Rightarrow> rvv_state \<Rightarrow> rvv_state vresult" where
  "exec_li operands st =
     rbind (operand_at operands 1) (\<lambda>source.
     rbind (scalar_value source (v_registers st)) (\<lambda>value. rvv_write_to operands value st))"

definition exec_lui :: "string list \<Rightarrow> rvv_state \<Rightarrow> rvv_state vresult" where
  "exec_lui operands st =
     rbind (operand_at operands 1) (\<lambda>source.
     case relocation_of ''%hi('' source of
       Some label \<Rightarrow> (case constant_address label (v_constants st) of (address, constants) \<Rightarrow>
         rvv_write_to operands ((address + 0x800) AND NOT 0xFFF) (st\<lparr>v_constants := constants\<rparr>))
     | None \<Rightarrow> rbind (scalar_value source (v_registers st)) (\<lambda>value.
         rvv_write_to operands (push_bit 12 value) st))"

definition exec_arith :: "string \<Rightarrow> string list \<Rightarrow> rvv_state \<Rightarrow> rvv_state vresult" where
  "exec_arith mnemonic operands st =
     rbind (operand_at operands 1) (\<lambda>left_token.
     rbind (scalar_value left_token (v_registers st)) (\<lambda>left.
     rbind (operand_at operands 2) (\<lambda>right_token.
     rbind (scalar_value right_token (v_registers st)) (\<lambda>right.
     if mnemonic \<in> {''add'', ''addi''} then rvv_write_to operands (left + right) st
     else if mnemonic = ''sub'' then rvv_write_to operands (left - right) st
     else rbind (rguard (0 \<le> right) (NegativeShift right)) (\<lambda>_.
       rvv_write_to operands (push_bit (nat right) left) st)))))"

definition exec_sd :: "string list \<Rightarrow> rvv_state \<Rightarrow> rvv_state vresult" where
  "exec_sd operands st =
     rbind (operand_at operands 1) (\<lambda>place.
     rbind (rvv_evaluate_memory place (v_registers st) (v_constants st)) (\<lambda>(address, _, constants).
     rbind (operand_at operands 0) (\<lambda>source.
     rbind (scalar_value source (v_registers st)) (\<lambda>value.
     Inr (st\<lparr>v_constants := constants, v_stack := AList.update address value (v_stack st)\<rparr>)))))"

definition exec_ld :: "string list \<Rightarrow> rvv_state \<Rightarrow> rvv_state vresult" where
  "exec_ld operands st =
     rbind (operand_at operands 1) (\<lambda>place.
     rbind (rvv_evaluate_memory place (v_registers st) (v_constants st)) (\<lambda>(address, _, constants).
     rvv_write_to operands (get_default (v_stack st) address) (st\<lparr>v_constants := constants\<rparr>)))"

definition exec_vsetvli :: "int \<Rightarrow> string list \<Rightarrow> rvv_state \<Rightarrow> rvv_state vresult" where
  "exec_vsetvli vlen operands st =
     rbind (vector_state_from_operands operands (v_registers st) vlen (v_vector st)) (\<lambda>vs.
     rvv_write_to operands (case vs_vl vs of None \<Rightarrow> 0 | Some vl \<Rightarrow> vl) (st\<lparr>v_vector := vs\<rparr>))"

definition rvv_update_scalar_state :: "int \<Rightarrow> static_instruction \<Rightarrow> rvv_state \<Rightarrow> rvv_state vresult" where
  "rvv_update_scalar_state vlen instruction st =
     (let mnemonic = si_mnemonic instruction; operands = si_operands instruction in
      if mnemonic = ''li'' then exec_li operands st
      else if mnemonic = ''lui'' then exec_lui operands st
      else if mnemonic \<in> {''add'', ''addi'', ''sub'', ''slli''} then exec_arith mnemonic operands st
      else if mnemonic = ''sd'' then exec_sd operands st
      else if mnemonic = ''ld'' then exec_ld operands st
      else if mnemonic = ''vsetvli'' then exec_vsetvli vlen operands st
      else Inr st)"

definition rvv_branch_taken :: "static_instruction \<Rightarrow> (string, int) dict \<Rightarrow> bool vresult" where
  "rvv_branch_taken instruction registers =
     (let mnemonic = si_mnemonic instruction in
      if mnemonic = ''j'' then Inr True
      else
        rbind (operand_at (si_operands instruction) 0) (\<lambda>left_token.
        rbind (scalar_value left_token registers) (\<lambda>left_value.
        rbind (operand_at (si_operands instruction) 1) (\<lambda>right_token.
        rbind (scalar_value right_token registers) (\<lambda>right_value.
        let left = left_value AND MASK64; right = right_value AND MASK64 in
        if mnemonic = ''beq'' then Inr (left = right)
        else if mnemonic = ''bgeu'' then Inr (left \<ge> right)
        else if mnemonic = ''bgtu'' then Inr (left > right)
        else if mnemonic = ''bltu'' then Inr (left < right)
        else Inl (RvvUnsupportedBranch mnemonic))))))"

definition rvv_access_bytes :: "static_instruction \<Rightarrow> vector_state \<Rightarrow> int vresult" where
  "rvv_access_bytes instruction state =
     (let mnemonic = si_mnemonic instruction in
      if mnemonic \<in> {''ld'', ''sd''} then Inr 8
      else if mnemonic \<in> {''flw'', ''fsw''} then Inr 4
      else if mnemonic \<in> {''vle32.v'', ''vse32.v''}
      then (case vs_vl state of None \<Rightarrow> Inl (BeforeVsetvli mnemonic) | Some vl \<Rightarrow> Inr (vl * 4))
      else Inl (RvvUnsupportedAccess mnemonic))"

section \<open>Dynamic expansion\<close>

fun semantic_uops_from :: "nat \<Rightarrow> string option \<Rightarrow> string list \<Rightarrow> string list \<Rightarrow> semantic_uop list" where
  "semantic_uops_from index previous old_destination [] = []"
| "semantic_uops_from index previous old_destination (kind # kinds) =
     (let local_id = CHR ''u'' # show_nat index;
          reads_old = (old_destination \<noteq> [] \<and> kind \<notin> {''address_generation'', ''vector_config''}) in
      \<lparr>s_local_id = local_id, s_kind = kind,
       s_depends_on_local = (case previous of None \<Rightarrow> [] | Some p \<Rightarrow> [p]),
       s_reads_old_destination = reads_old,
       s_old_destination_registers = (if reads_old then Some old_destination else None)\<rparr>
      # semantic_uops_from (Suc index) (Some local_id) old_destination kinds)"

definition semantic_uops :: "string list \<Rightarrow> string list \<Rightarrow> semantic_uop list" where
  "semantic_uops kinds old_destination = semantic_uops_from 0 None old_destination kinds"

record rvv_loop =
  rl_state :: rvv_state
  rl_last_writer :: "(string, string) dict"
  rl_last_store :: "(int, string) dict"
  rl_instructions :: "instruction list"
  rl_pc :: nat

definition region_start :: "string \<Rightarrow> int \<Rightarrow> int" where
  "region_start region address =
     (if region = ''input'' then INPUT_BASE else if region = ''output'' then OUTPUT_BASE
      else if region = ''stack'' then STACK_BASE else if region = ''constant'' then CONSTANT_BASE else address)"

definition rvv_memory_reference :: "static_instruction \<Rightarrow> rvv_state \<Rightarrow> (rvv_state \<times> mem_ref option) vresult" where
  "rvv_memory_reference item st =
     (if si_mnemonic item \<notin> set (LOADS @ STORES) then Inr (st, None)
      else (case filter (\<lambda>operand. rvv_match_memory operand \<noteq> None) (si_operands item) of
        [] \<Rightarrow> Inl (MissingMemory (si_text item))
      | operand # _ \<Rightarrow>
          rbind (rvv_evaluate_memory operand (v_registers st) (v_constants st)) (\<lambda>(address, region, constants).
          rbind (rvv_access_bytes item (v_vector st)) (\<lambda>bytes.
          Inr (st\<lparr>v_constants := constants\<rparr>, Some
            \<lparr>mr_address = address, mr_region = region, mr_offset = address - region_start region address,
             mr_bytes = bytes, mr_cache_lines = line_range address bytes,
             mr_access = (if si_mnemonic item \<in> set STORES then ''store'' else ''load''),
             mr_address_registers = rvv_registers_in_memory operand,
             mr_flow_index = None, mr_flow_count = None\<rparr>)))))"

definition recorded_vector_state :: "int \<Rightarrow> static_instruction \<Rightarrow> rvv_state \<Rightarrow> vector_state option vresult" where
  "recorded_vector_state vlen item st =
     (if \<not> startswith (si_mnemonic item) ''v'' then Inr None
      else if si_mnemonic item = ''vsetvli''
      then rbind (vector_state_from_operands (si_operands item) (v_registers st) vlen (v_vector st))
        (\<lambda>vs. Inr (Some vs))
      else Inr (Some (v_vector st)))"

definition active_bits :: "vector_state option \<Rightarrow> int option" where
  "active_bits recorded =
     (case recorded of None \<Rightarrow> None
      | Some vs \<Rightarrow> (case (vs_vl vs, vs_sew_bits vs) of (Some vl, Some sew) \<Rightarrow> Some (vl * sew) | _ \<Rightarrow> None))"

definition rvv_recipe :: "recipes \<Rightarrow> string \<Rightarrow> string list vresult" where
  "rvv_recipe recipes mnemonic =
     (case map_of recipes (mnemonic, ''any'') of None \<Rightarrow> Inl (RvvNoRecipe mnemonic)
      | Some kinds \<Rightarrow> if kinds = [] then Inl (RvvNoRecipe mnemonic) else Inr kinds)"

text \<open>The dynamic instruction, given the registers it reads and writes and its memory access.\<close>

definition rvv_dynamic_instruction :: "int \<Rightarrow> recipes \<Rightarrow> static_instruction \<Rightarrow> string list \<Rightarrow> string list
    \<Rightarrow> mem_ref option \<Rightarrow> rvv_state \<Rightarrow> rvv_loop \<Rightarrow> instruction vresult" where
  "rvv_dynamic_instruction vlen recipes item reads writes memory st loop =
     (let register_dependencies = writers_of (rl_last_writer loop) reads;
          old_destination = sort (filter (\<lambda>r. r \<in> set reads \<and> vector_index r \<noteq> None) writes);
          vector_destination = sort (filter (\<lambda>r. vector_index r \<noteq> None) writes);
          memory_dependencies = stores_to (rl_last_store loop) memory in
      rbind (rvv_recipe recipes (si_mnemonic item)) (\<lambda>kinds.
      rbind (recorded_vector_state vlen item st) (\<lambda>recorded.
      Inr \<lparr>i_id = instruction_id (length (rl_instructions loop)),
           i_sequence = int (length (rl_instructions loop)), i_static_index = int (si_index item),
           i_source_line = int (si_source_line item), i_mnemonic = si_mnemonic item, i_form = ''any'',
           i_operands = si_operands item, i_assembly = si_text item, i_register_reads = reads,
           i_register_writes = writes,
           i_depends_on_instructions = sort_ids (map snd register_dependencies @ memory_dependencies),
           i_register_dependencies = register_dependencies, i_flags_dependency = None,
           i_memory_dependencies = sort_ids memory_dependencies, i_memory = memory,
           i_semantic_uops = semantic_uops kinds old_destination,
           i_old_destination_registers = (if old_destination = [] then None else Some old_destination),
           i_old_destination_dependencies =
             (if old_destination = [] then None else Some (writers_of register_dependencies old_destination)),
           i_vector_destination_registers = (if vector_destination = [] then None else Some vector_destination),
           i_vector_destination_dependencies = (if vector_destination = [] then None
             else Some (writers_of (rl_last_writer loop) vector_destination)),
           i_vector_state = recorded, i_active_vector_bits = active_bits recorded\<rparr>)))"

definition rvv_record_writes :: "instruction \<Rightarrow> rvv_loop \<Rightarrow> rvv_loop" where
  "rvv_record_writes dynamic loop =
     loop\<lparr>rl_instructions := rl_instructions loop @ [dynamic],
       rl_last_writer := fold (\<lambda>r d. if r \<noteq> ''zero'' then AList.update r (i_id dynamic) d else d)
         (i_register_writes dynamic) (rl_last_writer loop),
       rl_last_store := (case i_memory dynamic of None \<Rightarrow> rl_last_store loop
         | Some m \<Rightarrow> if mr_access m = ''store''
             then fold (\<lambda>l d. AList.update l (i_id dynamic) d) (mr_cache_lines m) (rl_last_store loop)
             else rl_last_store loop)\<rparr>"

definition rvv_next_pc :: "(string, nat) dict \<Rightarrow> static_instruction \<Rightarrow> (string, int) dict \<Rightarrow> nat \<Rightarrow> nat option vresult" where
  "rvv_next_pc labels item registers pc =
     (if si_mnemonic item \<in> set RETURNS then Inr None
      else if si_mnemonic item \<in> set RVV_BRANCHES
      then rbind (rvv_branch_taken item registers) (\<lambda>taken.
        if taken
        then if si_operands item = [] then Inl RvvIndexError
             else rbind (fetch RvvUnknownTarget labels (last (si_operands item))) (\<lambda>n. Inr (Some n))
        else Inr (Some (pc + 1)))
      else Inr (Some (pc + 1)))"

definition rvv_expand_item :: "int \<Rightarrow> parsed \<Rightarrow> recipes \<Rightarrow> rvv_loop \<Rightarrow> (rvv_loop \<times> bool) vresult" where
  "rvv_expand_item vlen program recipes loop =
     (let item = fst program ! rl_pc loop in
      rbind (rvv_register_roles item (v_vector (rl_state loop))) (\<lambda>(reads, writes).
      rbind (rvv_memory_reference item (rl_state loop)) (\<lambda>(st, memory).
      rbind (rvv_dynamic_instruction vlen recipes item reads writes memory st loop) (\<lambda>dynamic.
      let loop1 = rvv_record_writes dynamic loop in
      rbind (rvv_update_scalar_state vlen item st) (\<lambda>st'.
      let loop2 = loop1\<lparr>rl_state := st'\<rparr> in
      rbind (rvv_next_pc (snd program) item (v_registers st') (rl_pc loop)) (\<lambda>target.
      Inr (case target of None \<Rightarrow> (loop2, False) | Some pc \<Rightarrow> (loop2\<lparr>rl_pc := pc\<rparr>, True))))))))"

fun rvv_expand :: "int \<Rightarrow> parsed \<Rightarrow> recipes \<Rightarrow> nat \<Rightarrow> rvv_loop \<Rightarrow> rvv_loop vresult" where
  "rvv_expand vlen program recipes fuel loop =
     (if length (fst program) \<le> rl_pc loop then Inr loop
      else (case fuel of 0 \<Rightarrow> Inl RvvSafetyBound
        | Suc fuel' \<Rightarrow> rbind (rvv_expand_item vlen program recipes loop) (\<lambda>(loop', go).
            if go then rvv_expand vlen program recipes fuel' loop' else Inr loop')))"

declare rvv_expand.simps [simp del]

definition rvv_initial_loop :: "int \<Rightarrow> int \<Rightarrow> rvv_loop" where
  "rvv_initial_loop n vlen =
     \<lparr>rl_state = \<lparr>v_registers = [(''a0'', INPUT_BASE), (''a1'', OUTPUT_BASE), (''a2'', n), (''sp'', STACK_BASE),
          (''ra'', 0)], v_stack = [], v_constants = [], v_vector = blank_vector_state vlen\<rparr>,
      rl_last_writer = [], rl_last_store = [], rl_instructions = [], rl_pc = 0\<rparr>"

record rvv_trace =
  rt_count :: int
  rt_vlen_bits :: int
  rt_instructions :: "instruction list"
  rt_uops_by_kind :: "(string \<times> int) list"
  rt_semantic_uop_count :: int
  rt_load_bytes :: int
  rt_store_bytes :: int

definition rvv_build_dynamic_trace :: "string list \<Rightarrow> string \<Rightarrow> (string \<times> string \<times> string list) list \<Rightarrow> string list
    \<Rightarrow> int \<Rightarrow> int \<Rightarrow> rvv_trace vresult" where
  "rvv_build_dynamic_trace lines function recipe_entries known n vlen =
     rbind (rguard (0 < n) (RvvBadCount n)) (\<lambda>_.
     rbind (rguard (0 < vlen \<and> vlen mod 8 = 0) (BadVlen vlen)) (\<lambda>_.
     rbind (rvv_parse_function lines function) (\<lambda>program.
     rbind (rvv_load_recipe recipe_entries known) (\<lambda>recipes.
     rbind (rvv_expand vlen program recipes (nat (10000 + n * 256)) (rvv_initial_loop n vlen)) (\<lambda>loop.
     let instructions = rl_instructions loop; counts = uop_counts instructions in
     Inr \<lparr>rt_count = n, rt_vlen_bits = vlen, rt_instructions = instructions, rt_uops_by_kind = sort counts,
          rt_semantic_uop_count = sum_list (map snd counts),
          rt_load_bytes = transferred ''load'' instructions,
          rt_store_bytes = transferred ''store'' instructions\<rparr>)))))"

end
