(* ===== verification/RvvTrace.thy ===== *)
theory RvvTrace
  imports TraceLinks Rvv
begin

text \<open>
  What the RVV expansion records: dependencies on the last earlier writers of registers, vector
  groups and cache lines, no dependency through the zero register.
\<close>

section \<open>Registers of a vector group\<close>

lemma vector_group_cases:
  assumes "vector_group r vs = Inr g"
  shows "(vector_index r = None \<and> g = [r]) \<or> (\<exists>s num den. vector_index r = Some s \<and>
     lmul_value (case truthy (vs_lmul vs) of None \<Rightarrow> ''m1'' | Some l \<Rightarrow> l) = Inr (num, den) \<and>
     s + nat (max 1 (num div den)) \<le> 32 \<and>
     g = map (\<lambda>i. ''v'' @ show_nat i) [s..<s + nat (max 1 (num div den))])"
proof (cases "vector_index r")
  case None
  then show ?thesis using assms by (simp add: vector_group_def)
next
  case (Some s)
  from assms Some obtain num den where n: "lmul_value (case truthy (vs_lmul vs) of None \<Rightarrow> ''m1'' | Some l \<Rightarrow> l) = Inr (num, den)"
    "s + nat (max 1 (num div den)) \<le> 32" "g = map (\<lambda>i. ''v'' @ show_nat i) [s..<s + nat (max 1 (num div den))]"
    by (auto simp: vector_group_def rbind_eq_Inr_iff Let_def split: if_splits)
  then show ?thesis using Some by blast
qed

abbreviation no_zero :: "string list \<Rightarrow> bool" where
  "no_zero rs \<equiv> ''zero'' \<notin> set rs"

lemma vector_group_no_zero: "vector_group r vs = Inr g \<Longrightarrow> r \<noteq> ''zero'' \<Longrightarrow> no_zero g"
  by (drule vector_group_cases) auto

lemma add_operand_no_zero:
  "no_zero rs \<Longrightarrow> wp (\<lambda>_. True) no_zero (add_operand_registers rs operand vs)"
  by (auto simp: add_operand_registers_def wp_def rbind_eq_Inr_iff split: option.splits if_splits sum.splits
      dest: vector_group_no_zero)

lemma add_all_no_zero: "no_zero rs \<Longrightarrow> wp (\<lambda>_. True) no_zero (add_all vs operands rs)"
  unfolding add_all_def by (rule wp_rfold) (simp_all add: add_operand_no_zero)

lemma memory_no_zero: "no_zero (rvv_registers_in_memory operand)"
  by (auto simp: rvv_registers_in_memory_def split: option.splits)

lemma operand_roles_no_zero:
  "no_zero reads \<Longrightarrow> wp (\<lambda>_. True) (\<lambda>(rs, ws). no_zero rs \<and> no_zero ws) (rvv_operand_roles m ops vs reads)"
  unfolding rvv_operand_roles_def Let_def
  by (intro wp_ifI wp_bindI [where P = no_zero] add_all_no_zero) simp_all

lemma register_roles_no_zero:
  assumes "rvv_register_roles item vs = Inr (reads, writes)"
  shows "no_zero reads \<and> no_zero writes"
proof -
  have "no_zero (concat (map rvv_registers_in_memory (si_operands item)))"
    by (simp add: memory_no_zero)
  note roles = wp_Inr_eqD [OF operand_roles_no_zero [OF this]]
  show ?thesis using assms by (auto simp: rvv_register_roles_def rbind_eq_Inr_iff dest!: roles)
qed

section \<open>Which operands are read\<close>

text \<open>
  The roles by position, with the mnemonics spelled out: the first operand is a destination unless
  the instruction stores or branches; a fused multiply-add, a store and \<open>jr\<close> also read it, the last
  operand of a branch is its label, and the vtype operands of \<open>vsetvli\<close> are no registers.
\<close>

definition reads_position :: "string \<Rightarrow> nat \<Rightarrow> nat \<Rightarrow> bool" where
  "reads_position m n p \<longleftrightarrow>
     (if m \<in> {''beq'', ''bgeu'', ''bgtu'', ''bltu''} then Suc p < n
      else if m \<in> {''ret'', ''j'', ''ld'', ''flw'', ''vle32.v'', ''li'', ''lui''} then False
      else if m \<in> {''jr'', ''sd'', ''fsw'', ''vse32.v''} then p = 0
      else if m = ''vsetvli'' then p = 1
      else p \<noteq> 0 \<or> m \<in> {''vfmacc.vf'', ''vfmacc.vv''})"

definition writes_position :: "string \<Rightarrow> nat \<Rightarrow> bool" where
  "writes_position m p \<longleftrightarrow> p = 0 \<and>
     m \<notin> {''ret'', ''jr'', ''j'', ''beq'', ''bgeu'', ''bgtu'', ''bltu'', ''sd'', ''fsw'', ''vse32.v''}"

text \<open>The registers behind an operand: none for an immediate or the zero register, the whole group of a vector register.\<close>

definition operand_group :: "vector_state \<Rightarrow> string \<Rightarrow> string set" where
  "operand_group vs operand =
     (case rvv_register operand of None \<Rightarrow> {}
      | Some r \<Rightarrow> if r = ''zero'' then {} else (case vector_group r vs of Inl _ \<Rightarrow> {} | Inr g \<Rightarrow> set g))"

definition groups_where :: "vector_state \<Rightarrow> (nat \<Rightarrow> bool) \<Rightarrow> string list \<Rightarrow> string set" where
  "groups_where vs P operands = \<Union> ((\<lambda>p. operand_group vs (operands ! p)) ` {p. p < length operands \<and> P p})"

definition plays_roles :: "string \<Rightarrow> string list \<Rightarrow> vector_state \<Rightarrow> string list \<Rightarrow> string list \<Rightarrow> bool" where
  "plays_roles m operands vs reads writes \<longleftrightarrow> distinct reads \<and> distinct writes \<and>
     set reads = \<Union> (set ` rvv_registers_in_memory ` set operands) \<union>
       groups_where vs (reads_position m (length operands)) operands \<union>
       {r. r = ''ra'' \<and> m = ''ret'' \<or> r = ''vconfig'' \<and> startswith m ''v'' \<and> m \<noteq> ''vsetvli''} \<and>
     set writes = groups_where vs (writes_position m) operands \<union> {r. r = ''vconfig'' \<and> m = ''vsetvli''}"

lemma add_all_set: "add_all vs operands rs = Inr rs' \<Longrightarrow> set rs' = set rs \<union> \<Union> (operand_group vs ` set operands)"
proof (induction operands arbitrary: rs)
  case (Cons x xs)
  obtain r1 where 1: "add_operand_registers rs x vs = Inr r1" and 2: "add_all vs xs r1 = Inr rs'"
    using Cons.prems by (auto simp: add_all_def rbind_eq_Inr_iff)
  have "set r1 = set rs \<union> operand_group vs x"
    using 1 by (auto simp: add_operand_registers_def operand_group_def rbind_eq_Inr_iff split: option.splits if_splits)
  with Cons.IH [OF 2] show ?case by auto
qed (simp add: add_all_def)

text \<open>The operands at the positions of a role.\<close>

lemma groups_whereI: "set xs = (!) operands ` {p. p < length operands \<and> P p} \<Longrightarrow>
    groups_where vs P operands = \<Union> (operand_group vs ` set xs)"
  by (simp add: groups_where_def image_image)

lemma groups_where_positions:
  "groups_where vs (\<lambda>p. p = 0) operands = \<Union> (operand_group vs ` set (take 1 operands))"
  "groups_where vs (\<lambda>p. p = 1) operands = \<Union> (operand_group vs ` set (take 1 (drop 1 operands)))"
  "groups_where vs (\<lambda>p. p \<noteq> 0) operands = \<Union> (operand_group vs ` set (drop 1 operands))"
  "groups_where vs (\<lambda>p. Suc p < length operands) operands = \<Union> (operand_group vs ` set (butlast operands))"
  "groups_where vs (\<lambda>p. False) operands = {}"
  "groups_where vs (\<lambda>p. True) operands = \<Union> (operand_group vs ` set (take 1 operands @ drop 1 operands))"
proof -
  show "groups_where vs (\<lambda>p. p = 0) operands = \<Union> (operand_group vs ` set (take 1 operands))"
    by (rule groups_whereI) (cases operands; auto)
  show "groups_where vs (\<lambda>p. p = 1) operands = \<Union> (operand_group vs ` set (take 1 (drop 1 operands)))"
    by (rule groups_whereI) (cases operands; cases "tl operands"; auto simp: image_iff)
  show "groups_where vs (\<lambda>p. p \<noteq> 0) operands = \<Union> (operand_group vs ` set (drop 1 operands))"
  proof (rule groups_whereI)
    have "{p. p < length operands \<and> p \<noteq> 0} = Suc ` {p. p < length (tl operands)}"
      by (auto simp: image_iff gr0_conv_Suc)
    then show "set (drop 1 operands) = (!) operands ` {p. p < length operands \<and> p \<noteq> 0}"
      by (cases operands) (auto simp: image_image set_conv_nth)
  qed
  show "groups_where vs (\<lambda>p. Suc p < length operands) operands = \<Union> (operand_group vs ` set (butlast operands))"
  proof (rule groups_whereI)
    have ps: "{p. p < length operands \<and> Suc p < length operands} = {..<length (butlast operands)}" by auto
    have "set (butlast operands) = (!) (butlast operands) ` {..<length (butlast operands)}" by (auto simp: in_set_conv_nth)
    also have "\<dots> = (!) operands ` {..<length (butlast operands)}" by (intro image_cong) (auto simp: nth_butlast)
    finally show "set (butlast operands) = (!) operands ` {p. p < length operands \<and> Suc p < length operands}" unfolding ps .
  qed
  show "groups_where vs (\<lambda>p. False) operands = {}" by (simp add: groups_where_def)
  show "groups_where vs (\<lambda>p. True) operands = \<Union> (operand_group vs ` set (take 1 operands @ drop 1 operands))"
    by (rule groups_whereI) (auto simp: set_conv_nth image_iff simp del: set_append)
qed

lemma add_first_set:
  assumes "(if operands \<noteq> [] \<and> rvv_register (hd operands) \<noteq> Some ''zero'' then add_all vs (take (Suc 0) operands) [] else Inr []) = Inr ws"
  shows "set ws = groups_where vs (\<lambda>p. p = 0) operands"
proof (cases "operands \<noteq> [] \<and> rvv_register (hd operands) \<noteq> Some ''zero''")
  case True
  then show ?thesis using assms by (auto simp: groups_where_positions dest: add_all_set)
next
  case False
  then have "ws = []" "\<Union> (operand_group vs ` set (take 1 operands)) = {}"
    using assms by (cases operands; auto simp: operand_group_def)+
  then show ?thesis by (simp add: groups_where_positions)
qed

lemma groups_all: "groups_where vs (\<lambda>p. True) operands =
    \<Union> (operand_group vs ` set (take 1 operands)) \<union> \<Union> (operand_group vs ` set (drop 1 operands))"
  unfolding groups_where_positions(6) set_append image_Un Union_Un_distrib ..

definition extra_reads :: "string \<Rightarrow> string set" where
  "extra_reads m = {r. r = ''ra'' \<and> m = ''ret'' \<or> r = ''vconfig'' \<and> startswith m ''v'' \<and> m \<noteq> ''vsetvli''}"

text \<open>The mnemonics that the frontend treats in a way of their own.\<close>

definition special_roles :: "string set" where
  "special_roles =
     {''ret'', ''jr'', ''j'', ''beq'', ''bgeu'', ''bgtu'', ''bltu'', ''sd'', ''fsw'', ''vse32.v'', ''ld'', ''flw'',
      ''vle32.v'', ''vsetvli'', ''li'', ''lui''}"

lemma operand_roles_special:
  assumes run: "rvv_operand_roles m operands vs base = Inr (reads, writes)"
    and m: "m \<in> special_roles"
  shows "set reads = set base \<union> groups_where vs (reads_position m (length operands)) operands \<union> extra_reads m \<and>
     set writes = groups_where vs (writes_position m) operands \<union> {r. r = ''vconfig'' \<and> m = ''vsetvli''}"
proof -
  note sets = RETURNS_def RVV_BRANCHES_def STORES_def LOADS_def
  note pos = reads_position_def [abs_def] writes_position_def [abs_def] extra_reads_def startswith_def
  note groups = groups_where_positions [unfolded One_nat_def]
  consider "m = ''ret''" | "m = ''jr''" | "m = ''j''" | "m \<in> {''beq'', ''bgeu'', ''bgtu'', ''bltu''}"
    | "m \<in> {''sd'', ''fsw''}" | "m = ''vse32.v''" | "m \<in> {''ld'', ''flw''}" | "m = ''vle32.v''" | "m = ''vsetvli''" | "m \<in> {''li'', ''lui''}"
    using m unfolding special_roles_def by (elim insertE emptyE) simp_all
  then show ?thesis
  proof cases
    case 1
    then have "(reads_position m (length operands) = (\<lambda>p. False)) \<and> (writes_position m = (\<lambda>p. False)) \<and> extra_reads m = {''ra''} \<and> m \<noteq> ''vsetvli''"
      by (simp add: pos)
    note pos = this [THEN conjunct1] this [THEN conjunct2, THEN conjunct1]
      this [THEN conjunct2, THEN conjunct2, THEN conjunct1] this [THEN conjunct2, THEN conjunct2, THEN conjunct2]
    have "reads = base @ [''ra'']" "writes = []"
      using 1 run by (auto simp: rvv_operand_roles_def Let_def sets startswith_def rbind_eq_Inr_iff)
    then show ?thesis unfolding pos(1-3) groups using pos(4) by (auto dest!: add_all_set)
  next
    case 2
    then have "(reads_position m (length operands) = (\<lambda>p. p = 0)) \<and> (writes_position m = (\<lambda>p. False)) \<and> extra_reads m = {} \<and> m \<noteq> ''vsetvli''"
      by (simp add: pos)
    note pos = this [THEN conjunct1] this [THEN conjunct2, THEN conjunct1]
      this [THEN conjunct2, THEN conjunct2, THEN conjunct1] this [THEN conjunct2, THEN conjunct2, THEN conjunct2]
    have "add_all vs (take (Suc 0) operands) base = Inr reads" "writes = []"
      using 2 run by (auto simp: rvv_operand_roles_def Let_def sets startswith_def rbind_eq_Inr_iff)
    then show ?thesis unfolding pos(1-3) groups using pos(4) by (auto dest!: add_all_set)
  next
    case 3
    then have "(reads_position m (length operands) = (\<lambda>p. False)) \<and> (writes_position m = (\<lambda>p. False)) \<and> extra_reads m = {} \<and> m \<noteq> ''vsetvli''"
      by (simp add: pos)
    note pos = this [THEN conjunct1] this [THEN conjunct2, THEN conjunct1]
      this [THEN conjunct2, THEN conjunct2, THEN conjunct1] this [THEN conjunct2, THEN conjunct2, THEN conjunct2]
    have "reads = base" "writes = []"
      using 3 run by (auto simp: rvv_operand_roles_def Let_def sets startswith_def rbind_eq_Inr_iff)
    then show ?thesis unfolding pos(1-3) groups using pos(4) by (auto dest!: add_all_set)
  next
    case 4
    then have "(reads_position m (length operands) = (\<lambda>p. Suc p < length operands)) \<and> (writes_position m = (\<lambda>p. False)) \<and> extra_reads m = {} \<and> m \<noteq> ''vsetvli''"
      by (elim insertE emptyE; simp add: pos)
    note pos = this [THEN conjunct1] this [THEN conjunct2, THEN conjunct1]
      this [THEN conjunct2, THEN conjunct2, THEN conjunct1] this [THEN conjunct2, THEN conjunct2, THEN conjunct2]
    have mem: "m \<notin> set RETURNS" "m \<in> set RVV_BRANCHES" "m \<noteq> ''j''"
      using 4 by (auto simp: sets)
    have "add_all vs (butlast operands) base = Inr reads" "writes = []"
      using run mem by (simp_all add: rvv_operand_roles_def Let_def rbind_eq_Inr_iff)
    then show ?thesis unfolding pos(1-3) groups using pos(4) by (auto dest!: add_all_set)
  next
    case 5
    then have "(reads_position m (length operands) = (\<lambda>p. p = 0)) \<and> (writes_position m = (\<lambda>p. False)) \<and> extra_reads m = {} \<and> m \<noteq> ''vsetvli''"
      by (elim insertE emptyE; simp add: pos)
    note pos = this [THEN conjunct1] this [THEN conjunct2, THEN conjunct1]
      this [THEN conjunct2, THEN conjunct2, THEN conjunct1] this [THEN conjunct2, THEN conjunct2, THEN conjunct2]
    have mem: "m \<notin> set RETURNS" "m \<notin> set RVV_BRANCHES" "m \<in> set STORES" "\<not> startswith m ''v''"
      using 5 by (auto simp: sets startswith_def)
    have "add_all vs (take (Suc 0) operands) base = Inr reads" "writes = []"
      using run mem by (simp_all add: rvv_operand_roles_def Let_def rbind_eq_Inr_iff)
    then show ?thesis unfolding pos(1-3) groups using pos(4) by (auto dest!: add_all_set)
  next
    case 6
    then have "(reads_position m (length operands) = (\<lambda>p. p = 0)) \<and> (writes_position m = (\<lambda>p. False)) \<and> extra_reads m = {''vconfig''} \<and> m \<noteq> ''vsetvli''"
      by (simp add: pos)
    note pos = this [THEN conjunct1] this [THEN conjunct2, THEN conjunct1]
      this [THEN conjunct2, THEN conjunct2, THEN conjunct1] this [THEN conjunct2, THEN conjunct2, THEN conjunct2]
    have "\<exists>rs. add_all vs (take (Suc 0) operands) base = Inr rs \<and> reads = rs @ [''vconfig'']" "writes = []"
      using 6 run by (auto simp: rvv_operand_roles_def Let_def sets startswith_def rbind_eq_Inr_iff)
    then show ?thesis unfolding pos(1-3) groups using pos(4) by (auto dest!: add_all_set)
  next
    case 7
    then have "(reads_position m (length operands) = (\<lambda>p. False)) \<and> (writes_position m = (\<lambda>p. p = 0)) \<and> extra_reads m = {} \<and> m \<noteq> ''vsetvli''"
      by (elim insertE emptyE; simp add: pos)
    note pos = this [THEN conjunct1] this [THEN conjunct2, THEN conjunct1]
      this [THEN conjunct2, THEN conjunct2, THEN conjunct1] this [THEN conjunct2, THEN conjunct2, THEN conjunct2]
    have mem: "m \<notin> set RETURNS" "m \<notin> set RVV_BRANCHES" "m \<notin> set STORES" "m \<in> set LOADS" "\<not> startswith m ''v''"
      using 7 by (auto simp: sets startswith_def)
    have "reads = base" "add_all vs (take (Suc 0) operands) [] = Inr writes"
      using run mem by (simp_all add: rvv_operand_roles_def Let_def rbind_eq_Inr_iff)
    then show ?thesis unfolding pos(1-3) groups using pos(4) by (auto dest!: add_all_set)
  next
    case 8
    then have "(reads_position m (length operands) = (\<lambda>p. False)) \<and> (writes_position m = (\<lambda>p. p = 0)) \<and> extra_reads m = {''vconfig''} \<and> m \<noteq> ''vsetvli''"
      by (simp add: pos)
    note pos = this [THEN conjunct1] this [THEN conjunct2, THEN conjunct1]
      this [THEN conjunct2, THEN conjunct2, THEN conjunct1] this [THEN conjunct2, THEN conjunct2, THEN conjunct2]
    have "reads = base @ [''vconfig'']" "add_all vs (take (Suc 0) operands) [] = Inr writes"
      using 8 run by (auto simp: rvv_operand_roles_def Let_def sets startswith_def rbind_eq_Inr_iff)
    then show ?thesis unfolding pos(1-3) groups using pos(4) by (auto dest!: add_all_set)
  next
    case 9
    with run obtain ws where "add_all vs (take (Suc 0) (drop (Suc 0) operands)) base = Inr reads" "writes = ws @ [''vconfig'']"
      "(if operands \<noteq> [] \<and> rvv_register (hd operands) \<noteq> Some ''zero'' then add_all vs (take (Suc 0) operands) [] else Inr []) = Inr ws"
      by (auto simp: rvv_operand_roles_def Let_def sets rbind_eq_Inr_iff)
    note parts = add_all_set [OF this(1)] this(2) add_first_set [OF this(3)]
    have "reads_position m (length operands) = (\<lambda>p. p = 1)" "writes_position m = (\<lambda>p. p = 0)" "extra_reads m = {}"
      using 9 by (simp_all add: pos)
    then show ?thesis using 9 parts by (auto simp: groups_where_positions(2) [unfolded One_nat_def])
  next
    case 10
    then have "(reads_position m (length operands) = (\<lambda>p. False)) \<and> (writes_position m = (\<lambda>p. p = 0)) \<and> extra_reads m = {} \<and> m \<noteq> ''vsetvli''"
      by (elim insertE emptyE; simp add: pos)
    note pos = this [THEN conjunct1] this [THEN conjunct2, THEN conjunct1]
      this [THEN conjunct2, THEN conjunct2, THEN conjunct1] this [THEN conjunct2, THEN conjunct2, THEN conjunct2]
    have mem: "m \<notin> set RETURNS" "m \<notin> set RVV_BRANCHES" "m \<notin> set STORES" "m \<notin> set LOADS" "m \<noteq> ''vsetvli''"
      using 10 by (auto simp: sets startswith_def)
    have "reads = base" "add_all vs (take (Suc 0) operands) [] = Inr writes"
      using run 10 mem by (simp_all add: rvv_operand_roles_def Let_def rbind_eq_Inr_iff)
    then show ?thesis unfolding pos(1-3) groups using pos(4) by (auto dest!: add_all_set)
  qed
qed

lemma operand_roles_general:
  assumes run: "rvv_operand_roles m operands vs base = Inr (reads, writes)"
    and m: "m \<notin> special_roles"
  shows "set reads = set base \<union> groups_where vs (reads_position m (length operands)) operands \<union> extra_reads m \<and>
     set writes = groups_where vs (writes_position m) operands \<union> {r. r = ''vconfig'' \<and> m = ''vsetvli''}"
proof -
  have ne: "m \<notin> set RETURNS" "m \<notin> set RVV_BRANCHES" "m \<notin> set STORES" "m \<notin> set LOADS" "m \<noteq> ''vsetvli''" "m \<notin> {''li'', ''lui''}" "m \<noteq> ''ret''"
    using m by (auto simp: special_roles_def RETURNS_def RVV_BRANCHES_def STORES_def LOADS_def)
  define fma where "fma \<longleftrightarrow> m \<in> {''vfmacc.vf'', ''vfmacc.vv''}"
  have fma: "m \<in> set VECTOR_FMA \<longleftrightarrow> fma" "fma \<Longrightarrow> startswith m ''v'' \<and> m \<notin> {''add'', ''addi'', ''sub'', ''slli''}"
    by (auto simp: VECTOR_FMA_def fma_def startswith_def)
  have scalar: "\<not> startswith m ''v''" if "m \<in> {''add'', ''addi'', ''sub'', ''slli''}" using that by (auto simp: startswith_def)
  have "writes_position m = (\<lambda>p. p = 0)" "reads_position m (length operands) = (\<lambda>p. p \<noteq> 0 \<or> fma)"
    using m unfolding special_roles_def writes_position_def [abs_def] reads_position_def [abs_def] fma_def by simp_all
  note roles = this
  have rd: "groups_where vs (reads_position m (length operands)) operands =
      (if fma then \<Union> (operand_group vs ` set (take 1 operands)) else {}) \<union> \<Union> (operand_group vs ` set (drop 1 operands))"
    unfolding roles(2)
    by (cases fma) (simp_all only: groups_where_positions(3) groups_all if_True if_False simp_thms Un_empty_left)
  have "\<exists>r1. add_all vs (if fma then take 1 operands else []) (base @ (if startswith m ''v'' then [''vconfig''] else [])) = Inr r1 \<and>
      add_all vs (drop 1 operands) r1 = Inr reads \<and> add_all vs (take 1 operands) [] = Inr writes"
    using run ne fma scalar unfolding rvv_operand_roles_def Let_def
    by (cases fma; auto simp: rbind_eq_Inr_iff add_all_def split: if_splits)
  then obtain r1 where r1: "add_all vs (if fma then take 1 operands else []) (base @ (if startswith m ''v'' then [''vconfig''] else [])) = Inr r1"
    "add_all vs (drop 1 operands) r1 = Inr reads" "add_all vs (take 1 operands) [] = Inr writes" by blast
  have "extra_reads m = set (if startswith m ''v'' then [''vconfig''] else [])" using ne by (auto simp: extra_reads_def)
  then show ?thesis
    unfolding rd roles(1) groups_where_positions(1) add_all_set [OF r1(2)] add_all_set [OF r1(1)] add_all_set [OF r1(3)]
    using ne(5) by auto
qed

lemma roles_play:
  assumes "rvv_register_roles item vs = Inr (reads, writes)"
  shows "plays_roles (si_mnemonic item) (si_operands item) vs reads writes"
proof -
  obtain rs ws where run: "rvv_operand_roles (si_mnemonic item) (si_operands item) vs
      (concat (map rvv_registers_in_memory (si_operands item))) = Inr (rs, ws)" "reads = ordered_unique rs" "writes = ordered_unique ws"
    using assms by (auto simp: rvv_register_roles_def rbind_eq_Inr_iff)
  have "set rs = set (concat (map rvv_registers_in_memory (si_operands item))) \<union>
        groups_where vs (reads_position (si_mnemonic item) (length (si_operands item))) (si_operands item) \<union> extra_reads (si_mnemonic item) \<and>
      set ws = groups_where vs (writes_position (si_mnemonic item)) (si_operands item) \<union> {r. r = ''vconfig'' \<and> si_mnemonic item = ''vsetvli''}"
    using operand_roles_special [OF run(1)] operand_roles_general [OF run(1)] by (rule case_split)
  then show ?thesis
    unfolding plays_roles_def run(2,3) set_ordered_unique extra_reads_def
    by (simp only: distinct_ordered_unique set_concat set_map simp_thms)
qed

text \<open>The vector configuration in effect: the one of the latest vector instruction.\<close>

definition vector_config :: "int \<Rightarrow> instruction list \<Rightarrow> vector_state" where
  "vector_config vlen pre = (case latest (\<lambda>i. i_vector_state i \<noteq> None) pre of
     None \<Rightarrow> blank_vector_state vlen | Some i \<Rightarrow> the (i_vector_state i))"

lemma vector_config_snoc: "vector_config vlen (pre @ [i]) =
    (case i_vector_state i of None \<Rightarrow> vector_config vlen pre | Some vs \<Rightarrow> vs)"
  by (auto simp: vector_config_def split: option.split)

definition rvv_roles :: "int \<Rightarrow> instruction list \<Rightarrow> instruction \<Rightarrow> bool" where
  "rvv_roles vlen pre i \<longleftrightarrow>
     plays_roles (i_mnemonic i) (i_operands i) (vector_config vlen pre) (i_register_reads i) (i_register_writes i)"

section \<open>Links of a dynamic instruction\<close>

definition vector_only :: "string list \<Rightarrow> string list" where
  "vector_only rs = sort (filter (\<lambda>r. vector_index r \<noteq> None) rs)"

definition rvv_linked :: "instruction list \<Rightarrow> instruction \<Rightarrow> bool" where
  "rvv_linked pre i \<longleftrightarrow>
     i_id i = instruction_id (length pre) \<and> i_sequence i = int (length pre) \<and>
     ''zero'' \<notin> set (i_register_reads i) \<and> ''zero'' \<notin> set (i_register_writes i) \<and>
     i_register_dependencies i = register_links pre (i_register_reads i) \<and>
     (\<forall>rs. i_vector_destination_registers i = Some rs \<longrightarrow> rs = vector_only (i_register_writes i) \<and>
        i_vector_destination_dependencies i = Some (register_links pre rs)) \<and>
     set (i_memory_dependencies i) = set (memory_links pre (i_memory i)) \<and>
     set (i_depends_on_instructions i) =
       snd ` set (i_register_dependencies i) \<union> set (i_memory_dependencies i) \<and>
     distinct (i_depends_on_instructions i) \<and> sorted (map id_number (i_depends_on_instructions i))"

definition rvv_loop_inv :: "rvv_loop \<Rightarrow> bool" where
  "rvv_loop_inv L \<longleftrightarrow> chained rvv_linked (rl_instructions L) \<and>
     tracks (rl_last_writer L) writes_register (rl_instructions L) \<and>
     tracks (rl_last_store L) stores_line (rl_instructions L)"

lemma rvv_linked_earlier: "rvv_linked pre i \<Longrightarrow> \<forall>d\<in>set (i_depends_on_instructions i). \<exists>w\<in>set pre. d = i_id w"
  unfolding rvv_linked_def by (auto dest!: links_earlier)

lemma rvv_dynamic_linked:
  assumes "rvv_loop_inv L" and "rvv_register_roles item vs = Inr (reads, writes)"
    and "rvv_dynamic_instruction vlen recipes item reads writes memory st L = Inr i"
  shows "rvv_linked (rl_instructions L) i"
proof -
  have links: "writers_of (rl_last_writer L) r = register_links (rl_instructions L) r"
    "stores_to (rl_last_store L) m = memory_links (rl_instructions L) m" for r m
    using assms(1) by (auto simp: rvv_loop_inv_def intro: writers_of_links stores_to_links)
  show ?thesis
    using assms(3) register_roles_no_zero [OF assms(2)]
    by (auto simp: rvv_dynamic_instruction_def rbind_eq_Inr_iff Let_def rvv_linked_def links sort_ids_props
        vector_only_def split: if_splits) force+
qed

lemma fold_not_zero: "''zero'' \<notin> set ws \<Longrightarrow>
    fold (\<lambda>r d. if r \<noteq> ''zero'' then AList.update r v d else d) ws d = fold (\<lambda>r d. AList.update r v d) ws d"
  by (induction ws arbitrary: d) auto

lemma rvv_record_inv:
  assumes "rvv_loop_inv L" and "rvv_linked (rl_instructions L) i"
  shows "rvv_loop_inv (rvv_record_writes i L)"
proof -
  have "''zero'' \<notin> set (i_register_writes i)" using assms(2) by (simp add: rvv_linked_def)
  then have "tracks (rl_last_writer (rvv_record_writes i L)) writes_register (rl_instructions L @ [i])"
    using assms(1) by (auto simp: rvv_record_writes_def rvv_loop_inv_def fold_not_zero writes_register_def intro!: tracks_write)
  moreover have "tracks (rl_last_store (rvv_record_writes i L)) stores_line (rl_instructions L @ [i])"
    using assms(1) tracks_store [of "rl_last_store L" "rl_instructions L" i]
    by (simp add: rvv_record_writes_def rvv_loop_inv_def)
  ultimately show ?thesis using assms by (simp add: rvv_loop_inv_def rvv_record_writes_def chained_snoc)
qed

text \<open>One step of the expansion: the dynamic instruction is recorded, then the scalar state moves on.\<close>

lemma rvv_expand_itemE:
  assumes "rvv_expand_item vlen program recipes L = Inr (L', go)"
  obtains reads writes st memory i st' where
    "rvv_register_roles (fst program ! rl_pc L) (v_vector (rl_state L)) = Inr (reads, writes)"
    "rvv_memory_reference (fst program ! rl_pc L) (rl_state L) = Inr (st, memory)"
    "rvv_dynamic_instruction vlen recipes (fst program ! rl_pc L) reads writes memory st L = Inr i"
    "rvv_update_scalar_state vlen (fst program ! rl_pc L) st = Inr st'"
    "rl_state L' = st'" "rl_instructions L' = rl_instructions (rvv_record_writes i L)"
    "rl_last_writer L' = rl_last_writer (rvv_record_writes i L)"
    "rl_last_store L' = rl_last_store (rvv_record_writes i L)"
  using assms unfolding rvv_expand_item_def Let_def
  by (force simp: rbind_eq_Inr_iff split: option.splits prod.splits)

lemma rvv_expand_item_inv:
  assumes "rvv_loop_inv L" and "rvv_expand_item vlen program recipes L = Inr (L', go)"
  shows "rvv_loop_inv L'" "length (rl_instructions L') = Suc (length (rl_instructions L))"
proof -
  from assms(2) obtain reads writes st memory i st' where
    "rvv_register_roles (fst program ! rl_pc L) (v_vector (rl_state L)) = Inr (reads, writes)"
    "rvv_dynamic_instruction vlen recipes (fst program ! rl_pc L) reads writes memory st L = Inr i"
    and same: "rl_instructions L' = rl_instructions (rvv_record_writes i L)"
    "rl_last_writer L' = rl_last_writer (rvv_record_writes i L)"
    "rl_last_store L' = rl_last_store (rvv_record_writes i L)"
    by (rule rvv_expand_itemE)
  from rvv_dynamic_linked [OF assms(1) this(1,2)]
  have "rvv_loop_inv (rvv_record_writes i L)" by (rule rvv_record_inv [OF assms(1)])
  then show "rvv_loop_inv L'" by (simp add: rvv_loop_inv_def same)
  show "length (rl_instructions L') = Suc (length (rl_instructions L))" by (simp add: same rvv_record_writes_def)
qed

text \<open>The vector state of the interpreter is the recorded configuration.\<close>

lemma update_vector:
  assumes "rvv_update_scalar_state vlen item st = Inr st'"
  shows "si_mnemonic item = ''vsetvli'' \<and> vector_state_from_operands (si_operands item) (v_registers st) vlen (v_vector st) = Inr (v_vector st') \<or>
     si_mnemonic item \<noteq> ''vsetvli'' \<and> v_vector st' = v_vector st"
proof -
  have to: "v_vector s' = v_vector s" if "rvv_write_to ops v s = Inr s'" for ops v s s'
    using that by (auto simp: rvv_write_to_def rvv_write_def rbind_eq_Inr_iff Let_def split: option.splits if_splits)
  have arms: "exec_li ops st = Inr st' \<Longrightarrow> v_vector st' = v_vector st"
    "exec_arith m ops st = Inr st' \<Longrightarrow> v_vector st' = v_vector st" "exec_sd ops st = Inr st' \<Longrightarrow> v_vector st' = v_vector st"
    "exec_ld ops st = Inr st' \<Longrightarrow> v_vector st' = v_vector st" for ops m
    by (auto simp: exec_li_def exec_arith_def exec_sd_def exec_ld_def rbind_eq_Inr_iff Let_def
        dest!: to split: if_split_asm prod.split_asm option.split_asm)
  have lui: "exec_lui ops st = Inr st' \<Longrightarrow> v_vector st' = v_vector st" for ops
    unfolding exec_lui_def Let_def case_prod_unfold by (auto simp: rbind_eq_Inr_iff dest!: to split: option.split_asm)
  have vset: "exec_vsetvli vlen ops st = Inr st' \<Longrightarrow>
      vector_state_from_operands ops (v_registers st) vlen (v_vector st) = Inr (v_vector st')" for ops
    by (auto simp: exec_vsetvli_def rbind_eq_Inr_iff dest!: to)
  show ?thesis
    using assms arms lui vset unfolding rvv_update_scalar_state_def Let_def by (auto split: if_splits)
qed

definition rvv_config_inv :: "int \<Rightarrow> rvv_loop \<Rightarrow> bool" where
  "rvv_config_inv vlen L \<longleftrightarrow> v_vector (rl_state L) = vector_config vlen (rl_instructions L) \<and>
     chained (rvv_roles vlen) (rl_instructions L)"

lemma rvv_expand_item_config:
  assumes inv: "rvv_config_inv vlen L" and run: "rvv_expand_item vlen program recipes L = Inr (L', go)"
  shows "rvv_config_inv vlen L'"
proof -
  let ?item = "fst program ! rl_pc L"
  from run obtain reads writes st memory i st' where
    roles: "rvv_register_roles ?item (v_vector (rl_state L)) = Inr (reads, writes)"
    and mem: "rvv_memory_reference ?item (rl_state L) = Inr (st, memory)"
    and dyn: "rvv_dynamic_instruction vlen recipes ?item reads writes memory st L = Inr i"
    and upd: "rvv_update_scalar_state vlen ?item st = Inr st'"
    and same: "rl_state L' = st'" "rl_instructions L' = rl_instructions (rvv_record_writes i L)"
    by (rule rvv_expand_itemE)
  have st: "v_vector st = v_vector (rl_state L)"
    using mem by (auto simp: rvv_memory_reference_def rbind_eq_Inr_iff split: if_splits list.splits prod.splits)
  obtain recorded where rec: "recorded_vector_state vlen ?item st = Inr recorded"
    and i: "i_mnemonic i = si_mnemonic ?item" "i_operands i = si_operands ?item" "i_register_reads i = reads"
      "i_register_writes i = writes" "i_vector_state i = recorded"
    using dyn by (auto simp: rvv_dynamic_instruction_def rbind_eq_Inr_iff Let_def)
  have "rvv_roles vlen (rl_instructions L) i"
    using roles_play [OF roles] inv by (simp add: rvv_roles_def i rvv_config_inv_def)
  moreover have "v_vector st' = (case recorded of None \<Rightarrow> v_vector st | Some vs \<Rightarrow> vs)"
    using update_vector [OF upd] rec
    by (auto simp: recorded_vector_state_def rbind_eq_Inr_iff startswith_def split: if_splits)
  ultimately show ?thesis
    using inv by (simp add: rvv_config_inv_def same rvv_record_writes_def chained_snoc vector_config_snoc i st split: option.split)
qed

text \<open>A property of the loop state that every step keeps holds after the whole loop.\<close>

lemma rvv_expand_rule:
  assumes step: "\<And>L L' go. P L \<Longrightarrow> rvv_expand_item vlen program recipes L = Inr (L', go) \<Longrightarrow> P L'"
  shows "P L \<Longrightarrow> rvv_expand vlen program recipes fuel L = Inr L' \<Longrightarrow> P L'"
proof (induction fuel arbitrary: L)
  case 0
  then show ?case by (simp add: rvv_expand.simps [of _ _ _ 0] split: if_splits)
next
  case (Suc fuel)
  then show ?case
    by (auto simp: rvv_expand.simps [of _ _ _ "Suc fuel"] rbind_eq_Inr_iff split: if_splits dest: step)
qed

lemma rvv_expand_length:
  "rvv_expand vlen program recipes fuel L = Inr L' \<Longrightarrow> rvv_loop_inv L \<Longrightarrow>
     length (rl_instructions L') \<le> length (rl_instructions L) + fuel"
proof (induction fuel arbitrary: L)
  case 0
  then show ?case by (simp add: rvv_expand.simps [of _ _ _ 0] split: if_splits)
next
  case (Suc fuel)
  show ?case
  proof (cases "length (fst program) \<le> rl_pc L")
    case False
    then obtain L1 go where 1: "rvv_expand_item vlen program recipes L = Inr (L1, go)"
      "(if go then rvv_expand vlen program recipes fuel L1 else Inr L1) = Inr L'"
      using Suc.prems(1) by (auto simp: rvv_expand.simps [of _ _ _ "Suc fuel"] rbind_eq_Inr_iff)
    note inv = rvv_expand_item_inv [OF Suc.prems(2) 1(1)]
    show ?thesis using Suc.IH [of L1] 1(2) inv by (cases go) auto
  qed (use Suc.prems(1) in \<open>simp add: rvv_expand.simps [of _ _ _ "Suc fuel"]\<close>)
qed

lemma rvv_buildE:
  assumes "rvv_build_dynamic_trace lines function entries known n vlen = Inr t"
  obtains program recipes L where "0 < n" "0 < vlen"
    "rvv_expand vlen program recipes (nat (10000 + n * 256)) (rvv_initial_loop n vlen) = Inr L"
    "rt_instructions t = rl_instructions L"
  using assms by (auto simp: rvv_build_dynamic_trace_def rbind_eq_Inr_iff Let_def)

text \<open>
  C22. An RVV dynamic trace is linked correctly. The registers an instruction reads and writes are
  those its mnemonic and operands give it: the base registers of its memory operands, the registers
  of the operands it reads (a fused multiply-add reads its destination too), a vector register
  standing for the whole group that the LMUL in effect gives it, and the vector configuration.
  Instruction \<open>k\<close> has id \<open>i<k>\<close> and depends exactly on the last earlier writer of each register it
  reads and on the last earlier store to each of its cache lines; the zero register is never a
  dependency, and the trace is no longer than the safety bound.
\<close>

theorem rvv_trace_linked:
  assumes "rvv_build_dynamic_trace lines function entries known n vlen = Inr t"
  shows "chained (rvv_roles vlen) (rt_instructions t) \<and> chained rvv_linked (rt_instructions t) \<and>
     int (length (rt_instructions t)) \<le> 10000 + n * 256 \<and>
     (\<forall>k<length (rt_instructions t). \<forall>d\<in>set (i_depends_on_instructions (rt_instructions t ! k)).
        \<exists>j<k. d = i_id (rt_instructions t ! j))"
proof -
  obtain program recipes L where run: "0 < n" "0 < vlen"
    "rvv_expand vlen program recipes (nat (10000 + n * 256)) (rvv_initial_loop n vlen) = Inr L"
    "rt_instructions t = rl_instructions L"
    using assms by (rule rvv_buildE)
  have start: "rvv_loop_inv (rvv_initial_loop n vlen)" "rvv_config_inv vlen (rvv_initial_loop n vlen)"
    by (simp_all add: rvv_loop_inv_def rvv_config_inv_def vector_config_def rvv_initial_loop_def)
  have "rvv_config_inv vlen L"
    by (rule rvv_expand_rule [where P = "rvv_config_inv vlen", OF _ start(2) run(3)]) (rule rvv_expand_item_config)
  moreover have "rvv_loop_inv L"
    by (rule rvv_expand_rule [where P = rvv_loop_inv, OF _ start(1) run(3)]) (rule rvv_expand_item_inv(1))
  ultimately have chain: "chained (rvv_roles vlen) (rt_instructions t)" "chained rvv_linked (rt_instructions t)"
    by (simp_all add: rvv_loop_inv_def rvv_config_inv_def run(4))
  have "length (rt_instructions t) \<le> nat (10000 + n * 256)"
    using rvv_expand_length [OF run(3) start(1)] by (simp add: run(4) rvv_initial_loop_def)
  moreover have "\<exists>j<k. d = i_id (rt_instructions t ! j)" if "k < length (rt_instructions t)"
    "d \<in> set (i_depends_on_instructions (rt_instructions t ! k))" for k d
    using chained_earlier [OF chain(2) rvv_linked_earlier that] .
  ultimately show ?thesis using chain run(1) by auto
qed

definition rvv_demo_assembly :: "string list" where
  "rvv_demo_assembly =
     [''f:'', ''  vsetvli t0, a2, e32, m2, ta, ma'', ''  vle32.v v2, (a0)'', ''  vfadd.vv v4, v2, v2'',
      ''  vfmacc.vv v4, v2, v2'', ''  vse32.v v4, (a1)'', ''  ret'', ''  .size f, 20'']"

definition rvv_demo_recipes :: "(string \<times> string \<times> string list) list" where
  "rvv_demo_recipes =
     [(''vsetvli'', ''any'', [''vector_config'']), (''vle32.v'', ''any'', [''vector_load'']),
      (''vfadd.vv'', ''any'', [''vector_fp'']), (''vfmacc.vv'', ''any'', [''vector_fp'']), (''vse32.v'', ''any'', [''vector_store'']),
      (''ret'', ''any'', [''branch''])]"

definition rvv_demo_kinds :: "string list" where
  "rvv_demo_kinds = [''vector_config'', ''vector_load'', ''vector_fp'', ''vector_store'', ''branch'']"

definition rvv_demo :: "instruction list" where
  "rvv_demo = (case rvv_build_dynamic_trace rvv_demo_assembly ''f'' rvv_demo_recipes rvv_demo_kinds 4 128 of
     Inl _ \<Rightarrow> [] | Inr t \<Rightarrow> rt_instructions t)"

theorem rvv_trace_linked_witness:
  "chained (rvv_roles 128) rvv_demo \<and> chained rvv_linked rvv_demo \<and> length rvv_demo = 6 \<and>
     i_register_dependencies (rvv_demo ! 3) =
       [(''vconfig'', ''i0''), (''v4'', ''i2''), (''v5'', ''i2''), (''v2'', ''i1''), (''v3'', ''i1'')] \<and>
     i_register_dependencies (rvv_demo ! 2) = [(''vconfig'', ''i0''), (''v2'', ''i1''), (''v3'', ''i1'')]"
proof -
  have "(case rvv_build_dynamic_trace rvv_demo_assembly ''f'' rvv_demo_recipes rvv_demo_kinds 4 128 of
      Inl _ \<Rightarrow> False | Inr t \<Rightarrow> length (rt_instructions t) = 6 \<and>
        i_register_dependencies (rt_instructions t ! 3) =
          [(''vconfig'', ''i0''), (''v4'', ''i2''), (''v5'', ''i2''), (''v2'', ''i1''), (''v3'', ''i1'')] \<and>
        i_register_dependencies (rt_instructions t ! 2) = [(''vconfig'', ''i0''), (''v2'', ''i1''), (''v3'', ''i1'')])" by code_simp
  then obtain t where t: "rvv_build_dynamic_trace rvv_demo_assembly ''f'' rvv_demo_recipes rvv_demo_kinds 4 128 = Inr t"
    and seen: "length (rt_instructions t) = 6" "i_register_dependencies (rt_instructions t ! 3) =
      [(''vconfig'', ''i0''), (''v4'', ''i2''), (''v5'', ''i2''), (''v2'', ''i1''), (''v3'', ''i1'')]"
      "i_register_dependencies (rt_instructions t ! 2) = [(''vconfig'', ''i0''), (''v2'', ''i1''), (''v3'', ''i1'')]"
    by (auto split: sum.splits)
  have d: "rvv_demo = rt_instructions t" by (simp add: rvv_demo_def t)
  show ?thesis using rvv_trace_linked [OF t] seen unfolding d by simp
qed

end
