(* ===== verification/RvvVector.thy ===== *)
theory RvvVector
  imports RvvTrace X86Scalar
begin

text \<open>
  The vector configuration and the scalar interpreter of the RVV frontend: the registers of a vector
  group, the vector length \<open>vsetvli\<close> grants, and 64-bit arithmetic and branches.
\<close>

section \<open>Vector groups\<close>

lemma show_nat_inject [simp]: "show_nat m = show_nat n \<longleftrightarrow> m = n"
  using parse_digits_show by (metis option.inject)

lemma vector_register_known: "i < 32 \<Longrightarrow> ''v'' @ show_nat i \<in> set RVV_REGISTERS"
  unfolding RVV_REGISTERS_def by simp

lemma lmul_value_known: "lmul_value l = Inr (num, den) \<Longrightarrow> max 1 (num div den) \<in> {1, 2, 4, 8} \<and> 0 < num \<and> 0 < den"
  by (auto simp: lmul_value_def LMUL_VALUES_def split: if_splits)

text \<open>
  C24. A vector operand stands for the registers of its group: with LMUL a power of two up to 8, the
  group is the consecutive, distinct vector registers from the named one on, one register for a
  fractional LMUL, all of them architectural registers; a group that would pass \<open>v31\<close> is an error.
\<close>

theorem vector_group_registers:
  assumes "vector_index r = Some s" and "truthy (vs_lmul vs) = Some l" and "lmul_value l = Inr (num, den)"
    and "k = nat (max 1 (num div den))"
  shows "k \<in> {1, 2, 4, 8} \<and>
     (if s + k \<le> 32
      then \<exists>g. vector_group r vs = Inr g \<and> length g = k \<and> distinct g \<and> set g \<subseteq> set RVV_REGISTERS \<and>
          (\<forall>j<k. vector_index (g ! j) = Some (s + j))
      else vector_group r vs = Inl (GroupExceeds r))"
proof -
  have k: "k \<in> {1, 2, 4, 8}" using lmul_value_known [OF assms(3)] assms(4) by auto
  have eq: "vector_group r vs = (if s + k \<le> 32 then Inr (map (\<lambda>i. ''v'' @ show_nat i) [s..<s + k]) else Inl (GroupExceeds r))"
    using assms by (simp add: vector_group_def)
  have index: "vector_index (''v'' @ show_nat i) = Some i" for i
    using show_nat_digits [of i] parse_digits_show [of i] by (simp add: vector_index_def list_all_iff)
  have "distinct (map (\<lambda>i. ''v'' @ show_nat i) [s..<s + k])" by (simp add: distinct_map inj_on_def)
  moreover have "set (map (\<lambda>i. ''v'' @ show_nat i) [s..<s + k]) \<subseteq> set RVV_REGISTERS" if "s + k \<le> 32"
    using that by (auto intro!: vector_register_known [simplified])
  ultimately show ?thesis using k index by (auto simp: eq)
qed

theorem vector_group_registers_witness:
  "\<exists>g. vector_group ''v28'' ((blank_vector_state 128)\<lparr>vs_lmul := Some ''m4''\<rparr>) = Inr g \<and> length g = 4 \<and> distinct g"
proof -
  have "vector_index ''v28'' = Some 28" "lmul_value ''m4'' = Inr (4, 1)" by code_simp+
  from vector_group_registers [OF this(1) _ this(2) refl, of "(blank_vector_state 128)\<lparr>vs_lmul := Some ''m4''\<rparr>"]
  show ?thesis by (simp add: truthy_def) blast
qed

section \<open>The vector length\<close>

abbreviation sew_ok :: "vector_state \<Rightarrow> bool" where
  "sew_ok vs \<equiv> pred_option (\<lambda>n. 0 \<le> n) (vs_sew_bits vs)"

lemma vtype_token_sew: "sew_ok vs \<Longrightarrow> sew_ok (vtype_token t vs)"
proof -
  have "pred_option (\<lambda>n. 0 \<le> n) (map_option int x)" for x by (cases x) simp_all
  then show "sew_ok vs \<Longrightarrow> sew_ok (vtype_token t vs)" unfolding vtype_token_def Let_def by simp
qed

lemma sew_nonneg: "sew_ok vs \<Longrightarrow> sew_ok (fold vtype_token ts vs)"
  by (induction ts arbitrary: vs) (simp_all add: vtype_token_sew)

lemma sdiv_pos: "0 \<le> a \<Longrightarrow> 0 < b \<Longrightarrow> a sdiv b = a div (b :: int)"
  by (cases "a = 0") (simp_all add: signed_divide_int_def)

text \<open>
  C23. The vector length: \<open>vsetvli\<close> sets \<open>vlmax\<close> to the largest number of elements of the
  selected width that fits into the register group, \<open>VLEN * LMUL / SEW\<close> rounded down, and grants
  \<open>min(AVL, vlmax)\<close>, all of \<open>vlmax\<close> for a zero source with another destination, and the previous
  length when both are the zero register; so outside this last form the elements granted fit.
\<close>

theorem vsetvli_length:
  assumes "vector_state_from_operands (d # s # ts) regs vlen prev = Inr vs" and "0 < vlen"
  shows "\<exists>sew l num den vlmax vl. vs_sew_bits vs = Some sew \<and> vs_lmul vs = Some l \<and> lmul_value l = Inr (num, den) \<and>
     0 < sew \<and> vs_vlmax vs = Some vlmax \<and> vs_vl vs = Some vl \<and> vlmax = (vlen * num) div (sew * den) \<and>
     vlmax * (sew * den) \<le> vlen * num \<and> vlen * num < (vlmax + 1) * (sew * den) \<and>
     (if rvv_register s \<noteq> Some ''zero'' then \<exists>avl. scalar_value s regs = Inr avl \<and> vl = min avl vlmax
      else if rvv_register d \<noteq> Some ''zero'' then vl = vlmax else vs_vl prev = Some vl)"
proof -
  define vs0 where "vs0 = fold vtype_token ts (blank_vector_state vlen)"
  obtain sew l vlmax vl where run: "vs_sew_bits vs0 = Some sew" "vs_lmul vs0 = Some l"
    "vector_capacity vlen sew l = Inr vlmax" "requested_vl d s regs vlmax prev = Inr vl"
    "vs = vs0\<lparr>vs_vlmax := Some vlmax, vs_vl := Some vl\<rparr>"
    using assms(1) unfolding vs0_def
    by (auto simp: vector_state_from_operands_def rbind_eq_Inr_iff Let_def split: list.splits option.splits)
  obtain num den where lmul: "lmul_value l = Inr (num, den)" "sew \<noteq> 0" "vlmax = (vlen * num) sdiv (sew * den)"
    using run(3) by (auto simp: vector_capacity_def rbind_eq_Inr_iff)
  have "0 \<le> sew" using sew_nonneg [of "blank_vector_state vlen" ts] run(1)
    by (simp add: vs0_def blank_vector_state_def)
  with lmul(2) have sew: "0 < sew" by simp
  have nd: "0 < num" "0 < den" using lmul_value_known [OF lmul(1)] by simp_all
  with sew have b: "0 < sew * den" by simp
  have v: "vlmax = (vlen * num) div (sew * den)" using lmul(3) sdiv_pos [OF _ b] assms(2) nd by simp
  have "vlmax * (sew * den) \<le> vlen * num" "vlen * num < (vlmax + 1) * (sew * den)"
    using div_mult_mod_eq [of "vlen * num" "sew * den"] pos_mod_bound [OF b, of "vlen * num"]
      pos_mod_sign [OF b, of "vlen * num"] by (simp_all add: v algebra_simps)
  then show ?thesis using run lmul sew v
    by (auto simp: requested_vl_def rbind_eq_Inr_iff split: if_splits option.splits)
qed

theorem vsetvli_length_witness:
  "\<exists>vs. vector_state_from_operands [''t0'', ''a2'', ''e32'', ''m2'', ''ta'', ''ma''] [(''a2'', 5)] 128
      (blank_vector_state 128) = Inr vs \<and> vs_vl vs = Some 5 \<and> vs_vlmax vs = Some 8"
proof -
  have "(case vector_state_from_operands [''t0'', ''a2'', ''e32'', ''m2'', ''ta'', ''ma''] [(''a2'', 5)] 128
      (blank_vector_state 128) of Inl _ \<Rightarrow> False | Inr vs \<Rightarrow> vs_sew_bits vs = Some 32 \<and> vs_lmul vs = Some ''m2'')"
    and v: "scalar_value ''a2'' [(''a2'', 5)] = Inr 5" "rvv_register ''a2'' = Some ''a2''" "lmul_value ''m2'' = Inr (2, 1)"
    by code_simp+
  then obtain vs where vs: "vector_state_from_operands [''t0'', ''a2'', ''e32'', ''m2'', ''ta'', ''ma''] [(''a2'', 5)] 128
      (blank_vector_state 128) = Inr vs" "vs_sew_bits vs = Some 32" "vs_lmul vs = Some ''m2''" by (auto split: sum.splits)
  from vsetvli_length [OF vs(1)] vs v show ?thesis by auto
qed

section \<open>Scalar arithmetic and branches\<close>

lemma operand_at_simps [simp]: "operand_at (x # xs) 0 = Inr x" "operand_at (x # xs) (Suc k) = operand_at xs k"
  "operand_at [] k = Inl RvvIndexError"
  by (simp_all add: operand_at_def)

lemma rvv_write_to_some:
  "rvv_register d = Some r \<Longrightarrow> r \<noteq> ''zero'' \<Longrightarrow>
     rvv_write_to (d # ops) v st = Inr (st\<lparr>v_registers := AList.update r (v mod 2 ^ 64) (v_registers st)\<rparr>)"
  by (simp add: rvv_write_to_def rvv_write_def and_MASK64)

text \<open>
  C25. Scalar arithmetic refines the 64-bit machine: \<open>add\<close>, \<open>addi\<close>, \<open>sub\<close> and \<open>slli\<close> store
  the word sum, difference or shift of the operand values, negative immediates included, with its
  wrap-around, in the destination and change no other register, the stack or the vector state; the
  one exception is a negative shift count, which raises.
\<close>

theorem rvv_arith_words:
  assumes "si_mnemonic i = m" and "m \<in> {''add'', ''addi'', ''sub'', ''slli''}" and "si_operands i = [d, a, b]"
    and "scalar_value a (v_registers st) = Inr x" and "scalar_value b (v_registers st) = Inr y"
    and "rvv_register d = Some r" and "r \<noteq> ''zero''"
    and "w = (if m = ''sub'' then word64 x - word64 y else if m = ''slli'' then push_bit (nat y) (word64 x) else word64 x + word64 y)"
  shows "if m = ''slli'' \<and> y < 0 then rvv_update_scalar_state vlen i st = Inl (NegativeShift y)
     else \<exists>regs. rvv_update_scalar_state vlen i st = Inr (st\<lparr>v_registers := regs\<rparr>) \<and> map_of regs r = Some (uint w) \<and>
       (\<forall>r'. r' \<noteq> r \<longrightarrow> map_of regs r' = map_of (v_registers st) r')"
proof (cases "m = ''slli'' \<and> y < 0")
  case True
  then show ?thesis
    using assms(1-7) by (auto simp: rvv_update_scalar_state_def exec_arith_def eval_nat_numeral rguard_def)
next
  case False
  define n where "n = (if m = ''sub'' then x - y else if m = ''slli'' then push_bit (nat y) x else x + y)"
  have "w = word64 n" by (simp add: assms(8) n_def push_bit_eq_mult)
  then have w: "uint w = n mod 2 ^ 64" by (simp only: uint_word64)
  have "rvv_update_scalar_state vlen i st = Inr (st\<lparr>v_registers := AList.update r (n mod 2 ^ 64) (v_registers st)\<rparr>)"
    using assms(1-7) False by (auto simp: rvv_update_scalar_state_def exec_arith_def rvv_write_to_some n_def eval_nat_numeral)
  then show ?thesis using False by (auto simp: w)
qed

definition rvv_item :: "string \<Rightarrow> string list \<Rightarrow> static_instruction" where
  "rvv_item m ops = \<lparr>si_index = 0, si_source_line = 1, si_mnemonic = m, si_operands = ops, si_text = m\<rparr>"

definition rvv_start :: "int \<Rightarrow> rvv_state" where
  "rvv_start n = rl_state (rvv_initial_loop n 128)"

lemma rvv_demo_values:
  "scalar_value ''a2'' (v_registers (rvv_start 5)) = Inr 5" "scalar_value ''8'' (v_registers (rvv_start 5)) = Inr 8"
  "rvv_register ''t0'' = Some ''t0''" "scalar_value ''-8'' (v_registers (rvv_start 5)) = Inr (-8)"
  by code_simp+

theorem rvv_arith_words_witness:
  "\<exists>regs. rvv_update_scalar_state 128 (rvv_item ''addi'' [''t0'', ''a2'', ''-8'']) (rvv_start 5) =
     Inr ((rvv_start 5)\<lparr>v_registers := regs\<rparr>) \<and> map_of regs ''t0'' = Some (2 ^ 64 - 3)"
  using rvv_arith_words [OF _ _ _ rvv_demo_values(1,4,3), of "rvv_item ''addi'' [''t0'', ''a2'', ''-8'']" "''addi''" _ 128]
  by (auto simp: rvv_item_def)

text \<open>
  Branches compare 64-bit words: \<open>beq\<close>, \<open>bgeu\<close>, \<open>bgtu\<close> and \<open>bltu\<close> are taken exactly
  when the words of their operand values compare so, whatever integers the registers hold, and
  \<open>j\<close> always.
\<close>

theorem rvv_branch_words:
  assumes "si_operands i = [a, b, target]" and "scalar_value a regs = Inr x" and "scalar_value b regs = Inr y"
    and "(m, c) \<in> set [(''beq'', word64 x = word64 y), (''bgeu'', word64 y \<le> word64 x),
       (''bgtu'', word64 y < word64 x), (''bltu'', word64 x < word64 y), (''j'', True)]"
    and "si_mnemonic i = m"
  shows "rvv_branch_taken i regs = Inr c"
proof -
  have cmp: "word64 x = word64 y \<longleftrightarrow> x mod 2 ^ 64 = y mod 2 ^ 64" "word64 y \<le> word64 x \<longleftrightarrow> y mod 2 ^ 64 \<le> x mod 2 ^ 64"
    "word64 y < word64 x \<longleftrightarrow> y mod 2 ^ 64 < x mod 2 ^ 64" "word64 x < word64 y \<longleftrightarrow> x mod 2 ^ 64 < y mod 2 ^ 64"
    by (simp_all only: word_uint_eq_iff word_le_def word_less_def uint_word64)
  have run: "rvv_branch_taken i regs = (if m = ''j'' then Inr True
      else if m = ''beq'' then Inr (x mod 2 ^ 64 = y mod 2 ^ 64) else if m = ''bgeu'' then Inr (x mod 2 ^ 64 \<ge> y mod 2 ^ 64)
      else if m = ''bgtu'' then Inr (x mod 2 ^ 64 > y mod 2 ^ 64) else if m = ''bltu'' then Inr (x mod 2 ^ 64 < y mod 2 ^ 64)
      else Inl (RvvUnsupportedBranch m))"
    unfolding rvv_branch_taken_def Let_def using assms(1-3,5) by (simp only: operand_at_simps rbind_simps and_MASK64 One_nat_def)
  show ?thesis using assms(4) unfolding run cmp by auto
qed

theorem rvv_branch_words_witness:
  "rvv_branch_taken (rvv_item ''bltu'' [''a2'', ''8'', ''f'']) (v_registers (rvv_start 5)) = Inr True"
  using rvv_branch_words [OF _ rvv_demo_values(1,2), of "rvv_item ''bltu'' [''a2'', ''8'', ''f'']" _ "''bltu''" True]
  by (simp add: rvv_item_def)

section \<open>Register range\<close>

definition ranged :: "(string, int) dict \<Rightarrow> bool" where
  "ranged regs \<longleftrightarrow> (\<forall>v\<in>snd ` set regs. 0 \<le> v \<and> v < 2 ^ 64)"

lemma ranged_update: "ranged regs \<Longrightarrow> ranged (AList.update r (v AND MASK64) regs)"
  using set_update_subset [of r "v AND MASK64" regs] mod_range [of v] unfolding ranged_def by (auto simp del: mod_range)

lemma write_ranged: "ranged (v_registers st) \<Longrightarrow> ranged (v_registers (rvv_write d v st))"
  by (simp add: rvv_write_def ranged_update split: option.split)

lemma write_to_ranged: "rvv_write_to ops v st = Inr st' \<Longrightarrow> ranged (v_registers st) \<Longrightarrow> ranged (v_registers st')"
  by (auto simp: rvv_write_to_def rbind_eq_Inr_iff write_ranged)

lemma exec_arith_ranged: "exec_arith m ops st = Inr st' \<Longrightarrow> ranged (v_registers st) \<Longrightarrow> ranged (v_registers st')"
  unfolding exec_arith_def by (auto simp: rbind_eq_Inr_iff simp del: rguard_simps split: if_splits dest: write_to_ranged)

lemma exec_lui_ranged: "exec_lui ops st = Inr st' \<Longrightarrow> ranged (v_registers st) \<Longrightarrow> ranged (v_registers st')"
  unfolding exec_lui_def case_prod_beta
  by (auto simp: rbind_eq_Inr_iff split: option.splits dest!: write_to_ranged)

lemma exec_other_ranged:
  "exec_li ops st = Inr st' \<Longrightarrow> ranged (v_registers st) \<Longrightarrow> ranged (v_registers st')"
  "exec_sd ops st = Inr st' \<Longrightarrow> ranged (v_registers st) \<Longrightarrow> ranged (v_registers st')"
  "exec_ld ops st = Inr st' \<Longrightarrow> ranged (v_registers st) \<Longrightarrow> ranged (v_registers st')"
  "exec_vsetvli vlen ops st = Inr st' \<Longrightarrow> ranged (v_registers st) \<Longrightarrow> ranged (v_registers st')"
  unfolding exec_li_def exec_sd_def exec_ld_def exec_vsetvli_def
  by (auto simp: rbind_eq_Inr_iff dest: write_to_ranged)

lemmas exec_rangeds = exec_arith_ranged exec_lui_ranged exec_other_ranged

lemma update_ranged:
  "rvv_update_scalar_state vlen i st = Inr st' \<Longrightarrow> ranged (v_registers st) \<Longrightarrow> ranged (v_registers st')"
  unfolding rvv_update_scalar_state_def Let_def by (simp split: if_splits) (erule (1) exec_rangeds)+

lemma memory_reference_registers: "rvv_memory_reference item st = Inr (st', m) \<Longrightarrow> v_registers st' = v_registers st"
  by (auto simp: rvv_memory_reference_def rbind_eq_Inr_iff split: if_splits list.splits)

text \<open>
  Whatever program is expanded, and however far, every scalar register holds a 64-bit unsigned
  value when the element count is one: all writes are masked.
\<close>

theorem rvv_registers_ranged:
  assumes "rvv_expand vlen program recipes fuel (rvv_initial_loop n vlen) = Inr L" and "0 < n" and "n < 2 ^ 64"
  shows "ranged (v_registers (rl_state L))"
proof (rule rvv_expand_rule [where P = "\<lambda>L. ranged (v_registers (rl_state L))", OF _ _ assms(1)])
  fix L L' go
  assume inv: "ranged (v_registers (rl_state L))" and "rvv_expand_item vlen program recipes L = Inr (L', go)"
  from this(2) obtain reads writes st memory i st' where "rvv_memory_reference (fst program ! rl_pc L) (rl_state L) = Inr (st, memory)"
    "rvv_update_scalar_state vlen (fst program ! rl_pc L) st = Inr st'" "rl_state L' = st'"
    by (rule rvv_expand_itemE)
  then show "ranged (v_registers (rl_state L'))"
    using update_ranged [of vlen _ st st'] inv memory_reference_registers by metis
qed (use assms(2,3) in \<open>simp add: ranged_def rvv_initial_loop_def INPUT_BASE_def OUTPUT_BASE_def STACK_BASE_def\<close>)

theorem rvv_registers_ranged_witness:
  "\<exists>L. rvv_expand 128 ([rvv_item ''li'' [''t0'', ''-1'']], []) [((''li'', ''any''), [''scalar_alu''])] 9
     (rvv_initial_loop 16 128) = Inr L \<and> ranged (v_registers (rl_state L)) \<and>
     map_of (v_registers (rl_state L)) ''t0'' = Some 18446744073709551615"
proof -
  have "case rvv_expand 128 ([rvv_item ''li'' [''t0'', ''-1'']], []) [((''li'', ''any''), [''scalar_alu''])] 9
      (rvv_initial_loop 16 128) of Inl _ \<Rightarrow> False
    | Inr L \<Rightarrow> map_of (v_registers (rl_state L)) ''t0'' = Some 18446744073709551615" by code_simp
  then obtain L where L: "rvv_expand 128 ([rvv_item ''li'' [''t0'', ''-1'']], []) [((''li'', ''any''), [''scalar_alu''])] 9
      (rvv_initial_loop 16 128) = Inr L" "map_of (v_registers (rl_state L)) ''t0'' = Some 18446744073709551615"
    by (auto split: sum.splits)
  from rvv_registers_ranged [OF L(1)] L show ?thesis by simp
qed

end
