(* ===== verification/XsaiExpand.thy ===== *)
theory XsaiExpand
  imports TraceCheck PyText
begin

text \<open>
  The backend expansion of \<open>src/backend/xsai.py\<close>: architectural RVV instructions become scheduler
  entries (\<open>_XsaiUopExpander\<close>), which are turned into the trace the timing loop runs
  (\<open>_materialize_xsai_trace\<close>).  The profile contributes its id and the register width; sets are
  lists without duplicates.
\<close>

datatype backend_error =
    BadTrace trace_error
  | ProfileMismatch string string
  | NoSourceInstruction string
  | MultipleOwners string
  | UnknownExecutionDependency string string
  | NoExecutionUop string string
  | InvalidDecodedCount string int
  | LmulMismatch string int int
  | FlowMismatch string int int
  | NoPartIndex string
  | InvalidLmul string
  | PartsDisagree string string
  | ZeroRegisterWidth
  | BackendKeyError string
  | BackendIndexError

type_synonym 'a bresult = "backend_error + 'a"

record backend_uop =
  xb_id :: string
  xb_sequence :: int
  xb_parent_id :: string
  xb_role :: string
  xb_slot_index :: nat
  xb_slot_count :: nat
  xb_semantic_ids :: "string list"
  xb_execution_uop_ids :: "string list"
  xb_scheduler_partition_choices :: "string list"
  xb_execution_unit_choices :: "string list"
  xb_resource_choices :: "string list"
  xb_dependencies :: "string list"
  xb_part_index :: "int option"
  xb_part_count :: "int option"

definition owns_execution_timing :: "backend_uop \<Rightarrow> bool" where
  "owns_execution_timing b \<longleftrightarrow> xb_execution_uop_ids b \<noteq> []"

record backend_trace =
  xt_profile_id :: string
  xt_backend_uops :: "backend_uop list"
  xt_macro_uop_ids :: "(string, string list) dict"

definition uops_for_macro :: "backend_trace \<Rightarrow> string \<Rightarrow> backend_uop list bresult" where
  "uops_for_macro t macro_id =
     rbind (fetch BackendKeyError (xt_macro_uop_ids t) macro_id) (\<lambda>ids.
     Inr (filter (\<lambda>b. xb_id b \<in> set ids) (xt_backend_uops t)))"

definition scheduler_slot_count :: "backend_trace \<Rightarrow> nat" where
  "scheduler_slot_count t = length (xt_backend_uops t)"

definition scheduler_slot_demand :: "backend_trace \<Rightarrow> string \<Rightarrow> nat bresult" where
  "scheduler_slot_demand t macro_id =
     rbind (fetch BackendKeyError (xt_macro_uop_ids t) macro_id) (\<lambda>ids. Inr (length ids))"

record pending_uop =
  xp_id :: string
  xp_sequence :: nat
  xp_parent_id :: string
  xp_role :: string
  xp_slot_index :: nat
  xp_slot_count :: nat
  xp_semantic_ids :: "string list"
  xp_execution_uops :: "execution_uop list"
  xp_scheduler_partition_choices :: "string list"
  xp_execution_unit_choices :: "string list"
  xp_resource_choices :: "string list"
  xp_execution_dependencies :: "string list"
  xp_local_dependencies :: "string list"
  xp_part_index :: "int option"
  xp_part_count :: "int option"

section \<open>Groups of execution uops\<close>

text \<open>A group is its role, its execution uops and whether it belongs to a synthetic chain.\<close>

type_synonym group = "string \<times> execution_uop list \<times> bool"

definition groups_by_part :: "execution_uop list \<Rightarrow> (int \<times> execution_uop list) list bresult" where
  "groups_by_part uops =
     rbind (rmap (\<lambda>u. case u_part_index u of None \<Rightarrow> Inl (NoPartIndex (u_id u)) | Some p \<Rightarrow> Inr (p, u)) uops) (\<lambda>pairs.
     Inr (map (\<lambda>part. (part, map snd (filter (\<lambda>(p, u). p = part) pairs))) (sort (remdups (map fst pairs)))))"

definition lmul_parts :: "string option \<Rightarrow> int bresult" where
  "lmul_parts v =
     (let token = (case truthy v of None \<Rightarrow> ''m1'' | Some t \<Rightarrow> t) in
      if startswith token ''mf'' then Inr 1
      else if startswith token ''m'' \<and> tl token \<noteq> [] \<and> list_all is_digit (tl token)
      then Inr (max 1 (case parse_digits 10 (tl token) of None \<Rightarrow> 0 | Some n \<Rightarrow> int n))
      else Inl (InvalidLmul token))"

definition single_value :: "int option list \<Rightarrow> string \<Rightarrow> string \<Rightarrow> int option bresult" where
  "single_value values field macro_id =
     (case remdups values of [] \<Rightarrow> Inr None | [v] \<Rightarrow> Inr v | _ \<Rightarrow> Inl (PartsDisagree macro_id field))"

definition synthetic_sequence :: "string \<Rightarrow> macro_op \<Rightarrow> execution_uop list \<Rightarrow> group list bresult" where
  "synthetic_sequence role macro execution =
     rbind (rguard (execution \<noteq> []) (NoExecutionUop (m_id macro) role)) (\<lambda>_.
     let n = m_decoded_macro_ops macro in
     rbind (rguard (\<not> n < 1) (InvalidDecodedCount (m_id macro) n)) (\<lambda>_.
     Inr (map (\<lambda>index. (role @ ''-'' @ show_nat index, if index = nat n - 1 then execution else [], True)) [0..<nat n])))"

definition split_parts :: "execution_uop list \<Rightarrow> (execution_uop list \<times> (int \<times> execution_uop list) list) bresult" where
  "split_parts execution =
     rbind (groups_by_part (filter (\<lambda>u. u_part_index u \<noteq> None) execution)) (\<lambda>parts.
     Inr (filter (\<lambda>u. u_part_index u = None) execution, parts))"

definition part_groups :: "string \<Rightarrow> string \<Rightarrow> execution_uop list \<Rightarrow> (int \<times> execution_uop list) list \<Rightarrow> group list" where
  "part_groups prep_role part_role prep parts =
     map (\<lambda>u. (prep_role, [u], False)) prep @ map (\<lambda>(_, members). (part_role, members, False)) parts"

definition vector_compute_groups :: "macro_op \<Rightarrow> vector_state \<Rightarrow> execution_uop list \<Rightarrow> group list bresult" where
  "vector_compute_groups macro state execution =
     rbind (split_parts execution) (\<lambda>(prep, parts).
     rbind (lmul_parts (vs_lmul state)) (\<lambda>expected.
     rbind (rguard (int (length parts) = expected) (LmulMismatch (m_id macro) expected (int (length parts)))) (\<lambda>_.
     Inr (part_groups ''vector-scalar-prep'' ''vector-lmul-part'' prep parts))))"

definition vector_memory_groups :: "int \<Rightarrow> macro_op \<Rightarrow> instruction \<Rightarrow> mem_ref \<Rightarrow> execution_uop list \<Rightarrow> group list bresult" where
  "vector_memory_groups register_width macro instruction memory execution =
     rbind (split_parts execution) (\<lambda>(prep, flows).
     let active_bits = (case i_active_vector_bits instruction of None \<Rightarrow> mr_bytes memory * 8 | Some n \<Rightarrow> n) in
     rbind (rguard (register_width \<noteq> 0) ZeroRegisterWidth) (\<lambda>_.
     let expected = max 1 ((active_bits + register_width - 1) div register_width) in
     rbind (rguard (int (length flows) = expected) (FlowMismatch (m_id macro) expected (int (length flows)))) (\<lambda>_.
     Inr (part_groups ''vector-memory-prep'' ''vector-memory-flow'' prep flows))))"

definition groups_for_macro :: "int \<Rightarrow> macro_op \<Rightarrow> instruction \<Rightarrow> execution_uop list \<Rightarrow> group list bresult" where
  "groups_for_macro register_width macro instruction execution =
     (let kinds = map s_kind (i_semantic_uops instruction);
          scalar = Inr (map (\<lambda>u. (''scalar-'' @ u_kind u, [u], False)) execution);
          compute = (case i_vector_state instruction of None \<Rightarrow> scalar
            | Some state \<Rightarrow> if \<exists>kind\<in>set kinds. startswith kind ''vector_''
                then vector_compute_groups macro state execution else scalar) in
      if ''vector_config'' \<in> set kinds then synthetic_sequence ''vector-config'' macro execution
      else if \<exists>kind\<in>set kinds. startswith kind ''vector_reduce_''
      then synthetic_sequence ''vector-reduction'' macro execution
      else (case i_memory instruction of
          None \<Rightarrow> compute
        | Some memory \<Rightarrow>
            if \<exists>kind\<in>set kinds. kind \<in> {''address_generation'', ''vector_load'', ''vector_store''}
            then vector_memory_groups register_width macro instruction memory execution
            else compute))"

section \<open>Scheduler entries\<close>

text \<open>The loop over one macro's groups carries its ids, the owners, the entries and the last chained entry.\<close>

record expansion =
  e_pending :: "pending_uop list"
  e_owner :: "(string, string) dict"
  e_ids :: "string list"
  e_previous :: "string option"

definition own_group :: "string \<Rightarrow> execution_uop list \<Rightarrow> (string, string) dict \<Rightarrow> (string, string) dict bresult" where
  "own_group backend_id members owner =
     rfold (\<lambda>u owner. rbind (rguard (u_id u \<notin> set (keys owner)) (MultipleOwners (u_id u))) (\<lambda>_.
       Inr (AList.update (u_id u) backend_id owner))) members owner"

definition expand_group :: "macro_op \<Rightarrow> execution_uop list \<Rightarrow> nat \<Rightarrow> nat \<times> group \<Rightarrow> expansion \<Rightarrow> expansion bresult" where
  "expand_group macro execution slots entry st =
     (case entry of (slot_index, role, owned, synthetic_chain) \<Rightarrow>
      let backend_id = (if owned \<noteq> [] then u_id (last owned) else m_id macro @ ''.xb'' @ show_nat slot_index);
          members = (if owned \<noteq> [] then owned else execution) in
      rbind (own_group backend_id owned (e_owner st)) (\<lambda>owner.
      rbind (single_value (map u_part_index owned) ''part_index'' (m_id macro)) (\<lambda>part_index.
      rbind (single_value (map u_part_count owned) ''part_count'' (m_id macro)) (\<lambda>part_count.
      Inr \<lparr>e_pending = e_pending st @
             [\<lparr>xp_id = backend_id, xp_sequence = length (e_pending st), xp_parent_id = m_id macro,
               xp_role = role, xp_slot_index = slot_index, xp_slot_count = slots,
               xp_semantic_ids = ordered_unique (concat (map u_semantic_ids members)),
               xp_execution_uops = owned,
               xp_scheduler_partition_choices =
                 ordered_unique (concat (map u_scheduler_partition_choices members)),
               xp_execution_unit_choices = ordered_unique (concat (map u_execution_unit_choices members)),
               xp_resource_choices = ordered_unique (concat (map u_resource_choices members)),
               xp_execution_dependencies = remdups (concat (map u_dependencies owned)),
               xp_local_dependencies =
                 (if synthetic_chain then (case e_previous st of None \<Rightarrow> [] | Some p \<Rightarrow> [p]) else []),
               xp_part_index = part_index, xp_part_count = part_count\<rparr>],
           e_owner = owner, e_ids = e_ids st @ [backend_id],
           e_previous = (if synthetic_chain then Some backend_id else e_previous st)\<rparr>))))"

definition instruction_dict :: "instruction list \<Rightarrow> (string, instruction) dict" where
  "instruction_dict source = fold (\<lambda>i d. AList.update (i_id i) i d) source []"

definition expand_macro :: "bound_trace \<Rightarrow> int \<Rightarrow> macro_op
    \<Rightarrow> (pending_uop list \<times> (string, string) dict \<times> (string, string list) dict)
    \<Rightarrow> (pending_uop list \<times> (string, string) dict \<times> (string, string list) dict) bresult" where
  "expand_macro t register_width macro st =
     (case st of (pending, owner, macro_ids) \<Rightarrow>
      rbind (fetch NoSourceInstruction (instruction_dict (bt_source_trace t)) (m_id macro)) (\<lambda>instruction.
      rbind (rmap (fetch BackendKeyError (uop_dict t)) (m_uop_ids macro)) (\<lambda>execution.
      rbind (groups_for_macro register_width macro instruction execution) (\<lambda>groups.
      rbind (rfold (expand_group macro execution (length groups)) (enumerate 0 groups)
          \<lparr>e_pending = pending, e_owner = owner, e_ids = [], e_previous = None\<rparr>) (\<lambda>e.
      Inr (e_pending e, e_owner e, AList.update (m_id macro) (e_ids e) macro_ids))))))"

definition translate_dependencies :: "(string, string) dict \<Rightarrow> pending_uop \<Rightarrow> string list bresult" where
  "translate_dependencies owner entry =
     rbind (rmap (\<lambda>d. case map_of owner d of None \<Rightarrow> Inl (UnknownExecutionDependency (xp_id entry) d)
         | Some b \<Rightarrow> Inr b)
       (filter (\<lambda>d. d \<notin> u_id ` set (xp_execution_uops entry)) (xp_execution_dependencies entry))) (\<lambda>owners.
     Inr (filter (\<lambda>d. d \<noteq> xp_id entry) (remdups (xp_local_dependencies entry @ owners))))"

definition finish_entry :: "(string, string) dict \<Rightarrow> pending_uop \<Rightarrow> backend_uop bresult" where
  "finish_entry owner entry =
     rbind (translate_dependencies owner entry) (\<lambda>dependencies.
     Inr \<lparr>xb_id = xp_id entry, xb_sequence = int (xp_sequence entry), xb_parent_id = xp_parent_id entry,
          xb_role = xp_role entry, xb_slot_index = xp_slot_index entry, xb_slot_count = xp_slot_count entry,
          xb_semantic_ids = xp_semantic_ids entry,
          xb_execution_uop_ids = map u_id (xp_execution_uops entry),
          xb_scheduler_partition_choices = xp_scheduler_partition_choices entry,
          xb_execution_unit_choices = xp_execution_unit_choices entry,
          xb_resource_choices = xp_resource_choices entry, xb_dependencies = dependencies,
          xb_part_index = xp_part_index entry, xb_part_count = xp_part_count entry\<rparr>)"

definition expand_backend_uops :: "bound_trace \<Rightarrow> int \<Rightarrow> backend_trace bresult" where
  "expand_backend_uops t register_width =
     rbind (rfold (expand_macro t register_width) (bt_macros t) ([], [], [])) (\<lambda>(pending, owner, macro_ids).
     rbind (rmap (finish_entry owner) pending) (\<lambda>uops.
     Inr \<lparr>xt_profile_id = bt_profile_id t, xt_backend_uops = uops, xt_macro_uop_ids = macro_ids\<rparr>))"

definition checked_trace :: "bound_trace \<Rightarrow> unit bresult" where
  "checked_trace t = (case validate_bound_trace t of Inl e \<Rightarrow> Inl (BadTrace e) | Inr _ \<Rightarrow> Inr ())"

definition make_expander :: "bound_trace \<Rightarrow> string \<Rightarrow> int \<Rightarrow> backend_trace bresult" where
  "make_expander t profile_id register_width =
     rbind (checked_trace t) (\<lambda>_.
     rbind (rguard (bt_profile_id t = profile_id) (ProfileMismatch (bt_profile_id t) profile_id)) (\<lambda>_.
     expand_backend_uops t register_width))"

section \<open>The trace of the timing loop\<close>

definition owner_by_execution :: "backend_trace \<Rightarrow> (string, string) dict" where
  "owner_by_execution b =
     fold (\<lambda>(execution_id, backend_id) d. AList.update execution_id backend_id d)
       (concat (map (\<lambda>x. map (\<lambda>e. (e, xb_id x)) (xb_execution_uop_ids x)) (xt_backend_uops b))) []"

text \<open>The last data access of the candidates, or the last candidate.\<close>

definition timing_owner :: "execution_uop list \<Rightarrow> execution_uop bresult" where
  "timing_owner candidates =
     (if candidates = [] then Inl BackendIndexError
      else (case filter (\<lambda>u. u_kind u \<in> {''load_data'', ''store_data''}) (rev candidates) of
          u # _ \<Rightarrow> Inr u | [] \<Rightarrow> Inr (last candidates)))"

definition owners_of :: "(string, string) dict \<Rightarrow> string \<Rightarrow> string list \<Rightarrow> string list" where
  "owners_of owner self ids =
     remdups (filter (\<lambda>b. b \<noteq> self) (List.map_filter (map_of owner) ids))"

definition internal_timing :: "int \<Rightarrow> backend_uop \<Rightarrow> execution_uop \<Rightarrow> execution_uop" where
  "internal_timing tpc b u =
     u\<lparr>u_scheduling_class := ''xsai-internal:'' @ xb_role b, u_latency_ticks := 0, u_issue_interval_ticks := 0,
       u_occupancy_ticks := tpc, u_rename_allocations := [], u_memory := None\<rparr>"

definition reset_uop :: "execution_uop \<Rightarrow> execution_uop" where
  "reset_uop u =
     u\<lparr>u_dispatch_tick := None, u_ready_tick := None, u_issue_tick := None, u_complete_tick := None,
       u_resource := None, u_resource_lane := None, u_scheduler_partition := None, u_execution_unit := None,
       u_vector_read_domain := None, u_completion_domain := None, u_memory_level := None,
       u_stall_reason := None, u_stall_reasons := []\<rparr>"

definition materialize_uop :: "bound_trace \<Rightarrow> (string, string) dict \<Rightarrow> nat \<times> backend_uop \<Rightarrow> execution_uop bresult" where
  "materialize_uop t owner_of entry =
     (case entry of (sequence, b) \<Rightarrow>
      rbind (rmap (fetch BackendKeyError (uop_dict t)) (xb_execution_uop_ids b)) (\<lambda>linked.
      rbind (if linked \<noteq> [] then Inr linked
          else (case find (\<lambda>m. m_id m = xb_parent_id b) (bt_macros t) of None \<Rightarrow> Inl (BackendKeyError (xb_parent_id b))
            | Some m \<Rightarrow> rmap (fetch BackendKeyError (uop_dict t)) (m_uop_ids m))) (\<lambda>candidates.
      rbind (timing_owner candidates) (\<lambda>owner.
      let after = (case u_issue_after_uop owner of None \<Rightarrow> None | Some p \<Rightarrow> map_of owner_of p);
          u = owner\<lparr>u_id := xb_id b, u_sequence := int sequence, u_semantic_ids := xb_semantic_ids b,
            u_semantic_kinds := ordered_unique (concat (map u_semantic_kinds candidates)),
            u_dependencies := xb_dependencies b,
            u_vector_state_dependencies :=
              owners_of owner_of (xb_id b) (concat (map u_vector_state_dependencies linked)),
            u_old_destination_dependencies :=
              owners_of owner_of (xb_id b) (concat (map u_old_destination_dependencies linked)),
            u_scheduler_partition_choices := xb_scheduler_partition_choices b,
            u_execution_unit_choices := xb_execution_unit_choices b,
            u_resource_choices := u_resource_choices owner,
            u_part_index := xb_part_index b, u_part_count := xb_part_count b,
            u_issue_after_uop := (if after = Some (xb_id b) then None else after)\<rparr> in
      Inr (reset_uop (if owns_execution_timing b then u else internal_timing (bt_ticks_per_cycle t) b u))))))"

definition materialize_macro :: "backend_trace \<Rightarrow> macro_op \<Rightarrow> macro_op bresult" where
  "materialize_macro b source =
     rbind (fetch BackendKeyError (xt_macro_uop_ids b) (m_id source)) (\<lambda>ids.
     Inr (source\<lparr>m_uop_ids := ids, m_dispatch_units := Some (int (length ids)), m_dispatch_tick := None,
       m_complete_tick := None, m_retire_tick := None, m_dispatch_blocker := None,
       m_dispatch_blocker_domain := None, m_dispatch_blocker_count := 0\<rparr>))"

definition materialize_xsai_trace :: "bound_trace \<Rightarrow> backend_trace \<Rightarrow> bound_trace bresult" where
  "materialize_xsai_trace t b =
     rbind (rall (\<lambda>m. rbind (rmap (fetch BackendKeyError (uop_dict t)) (m_uop_ids m)) (\<lambda>_. Inr ())) (bt_macros t)) (\<lambda>_.
     rbind (rmap (materialize_uop t (owner_by_execution b)) (enumerate 0 (xt_backend_uops b))) (\<lambda>uops.
     rbind (rmap (materialize_macro b) (bt_macros t)) (\<lambda>macros.
     let result = t\<lparr>bt_macros := macros, bt_uops := uops\<rparr> in
     rbind (checked_trace result) (\<lambda>_. Inr result))))"

definition passthrough_uop :: "macro_op \<Rightarrow> nat \<times> execution_uop \<Rightarrow> backend_uop" where
  "passthrough_uop macro entry =
     (case entry of (index, u) \<Rightarrow>
      \<lparr>xb_id = u_id u, xb_sequence = u_sequence u, xb_parent_id = u_parent_id u,
       xb_role = ''generic-'' @ u_kind u, xb_slot_index = index, xb_slot_count = length (m_uop_ids macro),
       xb_semantic_ids = u_semantic_ids u, xb_execution_uop_ids = [u_id u],
       xb_scheduler_partition_choices = u_scheduler_partition_choices u,
       xb_execution_unit_choices = u_execution_unit_choices u, xb_resource_choices = u_resource_choices u,
       xb_dependencies = u_dependencies u, xb_part_index = u_part_index u, xb_part_count = u_part_count u\<rparr>)"

definition passthrough_backend_trace :: "bound_trace \<Rightarrow> backend_trace bresult" where
  "passthrough_backend_trace t =
     rbind (rmap (\<lambda>macro. rbind (rmap (fetch BackendKeyError (uop_dict t)) (m_uop_ids macro)) (\<lambda>us.
       Inr (map (passthrough_uop macro) (enumerate 0 us)))) (bt_macros t)) (\<lambda>entries.
     Inr \<lparr>xt_profile_id = bt_profile_id t, xt_backend_uops = concat entries,
          xt_macro_uop_ids = fold (\<lambda>m d. AList.update (m_id m) (m_uop_ids m) d) (bt_macros t) []\<rparr>)"

end
