(* ===== verification/XsaiSlots.thy ===== *)
theory XsaiSlots
  imports XsaiExpand
begin

text \<open>
  What the backend expansion keeps: every execution uop gets exactly one scheduler entry, entries are
  numbered in order, and dependencies between execution uops become dependencies between entries.
\<close>

section \<open>Groups partition the execution uops\<close>

definition members :: "group list \<Rightarrow> execution_uop list" where
  "members groups = concat (map (fst \<circ> snd) groups)"

lemma mset_by_key:
  "distinct ks \<Longrightarrow> f ` set us \<subseteq> set ks \<Longrightarrow> mset (concat (map (\<lambda>k. filter (\<lambda>u. f u = k) us) ks)) = mset us"
proof (induction ks arbitrary: us)
  case (Cons k ks)
  let ?rest = "filter (\<lambda>u. f u \<noteq> k) us"
  have "filter (\<lambda>u. f u = j) ?rest = filter (\<lambda>u. f u = j) us" if "j \<in> set ks" for j
    using Cons.prems(1) that by (auto intro!: filter_cong)
  then have eq: "map (\<lambda>j. filter (\<lambda>u. f u = j) ?rest) ks = map (\<lambda>j. filter (\<lambda>u. f u = j) us) ks" by (rule map_cong [OF refl])
  have "mset (concat (map (\<lambda>j. filter (\<lambda>u. f u = j) ?rest) ks)) = mset ?rest"
    using Cons.prems by (intro Cons.IH) auto
  then have "mset (concat (map (\<lambda>j. filter (\<lambda>u. f u = j) us) ks)) = {#u \<in># mset us. f u \<noteq> k#}"
    unfolding eq by simp
  then show ?case using multiset_partition [of "mset us" "\<lambda>u. f u = k"] by simp
qed simp

lemma groups_by_part_mset:
  assumes "groups_by_part us = Inr parts"
  shows "mset (concat (map snd parts)) = mset us"
proof -
  obtain pairs where pairs: "rmap (\<lambda>u. case u_part_index u of None \<Rightarrow> Inl (NoPartIndex (u_id u)) | Some p \<Rightarrow> Inr (p, u)) us = Inr pairs"
    and parts: "parts = map (\<lambda>part. (part, map snd (filter (\<lambda>(p, u). p = part) pairs))) (sort (remdups (map fst pairs)))"
    using assms by (auto simp: groups_by_part_def rbind_eq_Inr_iff)
  have "map snd pairs = us"
    using pairs by (induction us arbitrary: pairs) (auto simp: rbind_eq_Inr_iff split: option.splits)
  have "mset (concat (map (\<lambda>k. filter (\<lambda>x. fst x = k) pairs) (sort (remdups (map fst pairs))))) = mset pairs"
    by (intro mset_by_key) auto
  from arg_cong [OF this, of "image_mset snd"] have "mset (concat (map snd parts)) = mset (map snd pairs)"
    by (simp add: parts o_def map_concat case_prod_beta' flip: mset_map)
  with \<open>map snd pairs = us\<close> show ?thesis by simp
qed

lemma split_parts_mset: "split_parts us = Inr (prep, parts) \<Longrightarrow> mset (members (part_groups a b prep parts)) = mset us"
proof -
  assume "split_parts us = Inr (prep, parts)"
  then have p: "prep = filter (\<lambda>u. u_part_index u = None) us"
    "groups_by_part (filter (\<lambda>u. u_part_index u \<noteq> None) us) = Inr parts"
    by (auto simp: split_parts_def rbind_eq_Inr_iff)
  have "members (part_groups a b prep parts) = prep @ concat (map snd parts)"
    by (simp add: members_def part_groups_def o_def split_beta concat_map_singleton [unfolded o_def])
  then show ?thesis using groups_by_part_mset [OF p(2)] multiset_partition [of "mset us" "\<lambda>u. u_part_index u = None"]
    by (simp add: p(1))
qed

lemma synthetic_members:
  assumes "synthetic_sequence role m us = Inr groups"
  shows "members groups = us" "int (length groups) = m_decoded_macro_ops m"
proof -
  define n where "n = nat (m_decoded_macro_ops m)"
  have n: "0 < n" "groups = map (\<lambda>i. (role @ ''-'' @ show_nat i, if i = n - 1 then us else [], True)) [0..<n]"
    using assms by (auto simp: synthetic_sequence_def rbind_eq_Inr_iff Let_def n_def)
  obtain k where k: "n = Suc k" using n(1) by (cases n) auto
  have "concat (map (\<lambda>i. if i = k then us else []) [0..<k]) = []" by (simp add: concat_eq_Nil_conv)
  then show "members groups = us" by (simp add: members_def n(2) k o_def)
  show "int (length groups) = m_decoded_macro_ops m" using n by (simp add: n_def)
qed

lemma scalar_members: "members (map (\<lambda>u. (r u, [u], False)) us) = us"
  by (induction us) (simp_all add: members_def)

lemma groups_mset:
  assumes "groups_for_macro w m i us = Inr groups"
  shows "mset (members groups) = mset us"
  using assms unfolding groups_for_macro_def Let_def
  by (auto simp: vector_compute_groups_def vector_memory_groups_def rbind_eq_Inr_iff Let_def synthetic_members(1)
      scalar_members split_parts_mset split: if_splits option.splits)

section \<open>The expansion loop\<close>

definition owners :: "pending_uop list \<Rightarrow> (string, string) dict" where
  "owners pending = concat (map (\<lambda>p. map (\<lambda>u. (u_id u, xp_id p)) (xp_execution_uops p)) pending)"

lemma owners_simps [simp]: "owners [] = []"
  "owners (ps @ qs) = owners ps @ owners qs"
  "owners [p] = map (\<lambda>u. (u_id u, xp_id p)) (xp_execution_uops p)"
  by (simp_all add: owners_def)

lemma update_new_key: "k \<notin> set (keys d) \<Longrightarrow> AList.update k v d = d @ [(k, v)]"
  by (induction d) (auto simp: keys_def)

lemma own_group_run:
  "own_group b us owner = Inr owner' \<Longrightarrow> distinct (keys owner) \<Longrightarrow>
     owner' = owner @ map (\<lambda>u. (u_id u, b)) us \<and> distinct (keys owner')"
proof (induction us arbitrary: owner)
  case (Cons u us)
  then have new: "u_id u \<notin> set (keys owner)" and run: "own_group b us (AList.update (u_id u) b owner) = Inr owner'"
    by (auto simp: own_group_def rbind_eq_Inr_iff)
  have "distinct (keys (AList.update (u_id u) b owner))" using Cons.prems(2) by (rule distinct_keys_update)
  note ih = Cons.IH [OF run this]
  then have "owner' = owner @ map (\<lambda>u. (u_id u, b)) (u # us)" by (simp add: update_new_key [OF new])
  with ih show ?case by blast
qed (simp add: own_group_def)

definition entry_ok :: "macro_op \<Rightarrow> nat \<Rightarrow> group \<Rightarrow> pending_uop \<Rightarrow> bool" where
  "entry_ok m n g p \<longleftrightarrow> xp_execution_uops p = fst (snd g) \<and> xp_role p = fst g \<and> xp_parent_id p = m_id m \<and>
     xp_slot_count p = n \<and> set (xp_execution_dependencies p) = (\<Union>u\<in>set (fst (snd g)). set (u_dependencies u))"

definition loop_ok :: "expansion \<Rightarrow> bool" where
  "loop_ok st \<longleftrightarrow> e_owner st = owners (e_pending st) \<and> distinct (keys (e_owner st)) \<and>
     map xp_sequence (e_pending st) = [0..<length (e_pending st)]"

text \<open>The links a macro-op's entries get from the chain flag of their groups, \<open>prev\<close> being the last chained entry.\<close>

fun linked_groups :: "string option \<Rightarrow> group list \<Rightarrow> pending_uop list \<Rightarrow> bool" where
  "linked_groups prev [] ps \<longleftrightarrow> ps = []"
| "linked_groups prev (g # gs) [] \<longleftrightarrow> False"
| "linked_groups prev (g # gs) (p # ps) \<longleftrightarrow>
     xp_local_dependencies p = (if snd (snd g) then (case prev of None \<Rightarrow> [] | Some q \<Rightarrow> [q]) else []) \<and>
     linked_groups (if snd (snd g) then Some (xp_id p) else prev) gs ps"

lemma expand_group_run:
  assumes "expand_group m us n (k, g) st = Inr st'" and "loop_ok st"
  shows "\<exists>p. e_pending st' = e_pending st @ [p] \<and> e_ids st' = e_ids st @ [xp_id p] \<and> entry_ok m n g p \<and>
     xp_slot_index p = k \<and>
     xp_local_dependencies p = (if snd (snd g) then (case e_previous st of None \<Rightarrow> [] | Some q \<Rightarrow> [q]) else []) \<and>
     e_previous st' = (if snd (snd g) then Some (xp_id p) else e_previous st) \<and> loop_ok st'"
proof -
  obtain role own chain where g: "g = (role, own, chain)" by (cases g)
  define p where "p = last (e_pending st')"
  have run: "own_group (xp_id p) own (e_owner st) = Inr (e_owner st')"
    "e_pending st' = e_pending st @ [p]" "e_ids st' = e_ids st @ [xp_id p]"
    "entry_ok m n g p" "xp_slot_index p = k" "xp_sequence p = length (e_pending st)"
    "xp_local_dependencies p = (if chain then (case e_previous st of None \<Rightarrow> [] | Some q \<Rightarrow> [q]) else [])"
    "e_previous st' = (if chain then Some (xp_id p) else e_previous st)"
    using assms(1) unfolding expand_group_def g p_def
    by (auto simp: rbind_eq_Inr_iff Let_def entry_ok_def split: option.splits)
  have "xp_execution_uops p = own" using run(4) by (simp add: entry_ok_def g)
  then have "loop_ok st'" using own_group_run [OF run(1)] assms(2) run(2,6) by (auto simp: loop_ok_def)
  then show ?thesis using run by (intro exI [of _ p]) (simp add: g)
qed

lemma expand_groups_run:
  "rfold (expand_group m us n) (enumerate k gs) st = Inr st' \<Longrightarrow> loop_ok st \<Longrightarrow>
     \<exists>ps. e_pending st' = e_pending st @ ps \<and> e_ids st' = e_ids st @ map xp_id ps \<and> list_all2 (entry_ok m n) gs ps \<and>
       map xp_slot_index ps = [k..<k + length gs] \<and> linked_groups (e_previous st) gs ps \<and> loop_ok st'"
proof (induction gs arbitrary: k st)
  case (Cons g gs)
  then obtain st1 where st1: "expand_group m us n (k, g) st = Inr st1"
    "rfold (expand_group m us n) (enumerate (Suc k) gs) st1 = Inr st'"
    by (auto simp: rbind_eq_Inr_iff)
  from expand_group_run [OF st1(1) Cons.prems(2)] obtain p where p: "e_pending st1 = e_pending st @ [p]"
    "e_ids st1 = e_ids st @ [xp_id p]" "entry_ok m n g p" "xp_slot_index p = k" "loop_ok st1"
    "xp_local_dependencies p = (if snd (snd g) then (case e_previous st of None \<Rightarrow> [] | Some q \<Rightarrow> [q]) else [])"
    "e_previous st1 = (if snd (snd g) then Some (xp_id p) else e_previous st)" by blast
  from Cons.IH [OF st1(2) p(5)] obtain ps where ps: "e_pending st' = e_pending st1 @ ps" "e_ids st' = e_ids st1 @ map xp_id ps"
    "list_all2 (entry_ok m n) gs ps" "map xp_slot_index ps = [Suc k..<Suc k + length gs]" "loop_ok st'"
    "linked_groups (e_previous st1) gs ps" by blast
  have "linked_groups (e_previous st) (g # gs) (p # ps)" using p(6) ps(6) unfolding p(7) by simp
  then show ?case
    by (intro exI [of _ "p # ps"] conjI) (use p ps in \<open>simp_all add: upt_conv_Cons del: upt_Suc linked_groups.simps\<close>)
qed simp

text \<open>The instructions whose entries form a chain: vector configuration and reductions.\<close>

definition chained_instruction :: "instruction \<Rightarrow> bool" where
  "chained_instruction i \<longleftrightarrow> (\<exists>x\<in>set (i_semantic_uops i). s_kind x = ''vector_config'' \<or> startswith (s_kind x) ''vector_reduce_'')"

lemma synthetic_flags: "synthetic_sequence role m us = Inr gs \<Longrightarrow> \<forall>g\<in>set gs. snd (snd g)"
  by (auto simp: synthetic_sequence_def rbind_eq_Inr_iff Let_def)

lemma group_flags:
  assumes "groups_for_macro w m i us = Inr gs" and "g \<in> set gs"
  shows "snd (snd g) \<longleftrightarrow> chained_instruction i"
proof -
  have chained: "chained_instruction i \<longleftrightarrow> ''vector_config'' \<in> s_kind ` set (i_semantic_uops i) \<or>
      (\<exists>kind\<in>s_kind ` set (i_semantic_uops i). startswith kind ''vector_reduce_'')"
    unfolding chained_instruction_def bex_simps bex_disj_distrib image_iff by (simp add: eq_commute [of "''vector_config''"])
  show ?thesis
  proof (cases "chained_instruction i")
    case True
    then have "\<exists>role. synthetic_sequence role m us = Inr gs"
      using assms(1) unfolding chained groups_for_macro_def Let_def by (auto split: if_splits)
    then show ?thesis using synthetic_flags assms(2) True by blast
  next
    case False
    then show ?thesis using assms unfolding chained groups_for_macro_def Let_def
      by (auto simp: vector_compute_groups_def vector_memory_groups_def part_groups_def rbind_eq_Inr_iff Let_def
          split: if_splits option.splits)
  qed
qed

lemma linked_chain:
  assumes "linked_groups prev gs ps" and "\<forall>g\<in>set gs. snd (snd g) \<longleftrightarrow> c" and "j < length ps"
  shows "xp_local_dependencies (ps ! j) =
    (if \<not> c then [] else if j = 0 then (case prev of None \<Rightarrow> [] | Some q \<Rightarrow> [q]) else [xp_id (ps ! (j - 1))])"
  using assms
proof (induction prev gs ps arbitrary: j rule: linked_groups.induct)
  case (3 prev g gs p ps)
  show ?case
  proof (cases j)
    case (Suc i)
    then show ?thesis using 3(1) [of i] 3(2-4) by (cases i) auto
  qed (use 3 in auto)
qed simp_all

text \<open>The entries of one macro-op.\<close>

definition entries_of :: "pending_uop list \<Rightarrow> string \<Rightarrow> pending_uop list" where
  "entries_of pending i = filter (\<lambda>p. xp_parent_id p = i) pending"

definition macro_entries :: "bound_trace \<Rightarrow> int \<Rightarrow> macro_op \<Rightarrow> pending_uop list \<Rightarrow> bool" where
  "macro_entries t w m ps \<longleftrightarrow> (\<exists>i us gs. map_of (instruction_dict (bt_source_trace t)) (m_id m) = Some i \<and>
     rmap (fetch BackendKeyError (uop_dict t)) (m_uop_ids m) = Inr us \<and> groups_for_macro w m i us = Inr gs \<and>
     list_all2 (entry_ok m (length gs)) gs ps \<and> map xp_slot_index ps = [0..<length gs] \<and> linked_groups None gs ps)"

definition done_ok :: "bound_trace \<Rightarrow> int \<Rightarrow> macro_op list \<Rightarrow> pending_uop list \<Rightarrow> (string, string) dict
    \<Rightarrow> (string, string list) dict \<Rightarrow> bool" where
  "done_ok t w ms pending owner ids \<longleftrightarrow>
     loop_ok \<lparr>e_pending = pending, e_owner = owner, e_ids = [], e_previous = None\<rparr> \<and>
     xp_parent_id ` set pending \<subseteq> m_id ` set ms \<and>
     (\<forall>m\<in>set ms. map_of ids (m_id m) = Some (map xp_id (entries_of pending (m_id m))) \<and>
        macro_entries t w m (entries_of pending (m_id m)))"

lemma entry_parent: "list_all2 (entry_ok m n) gs ps \<Longrightarrow> \<forall>p\<in>set ps. xp_parent_id p = m_id m"
  by (auto simp: list_all2_conv_all_nth entry_ok_def in_set_conv_nth)

lemma expand_macro_run:
  assumes "expand_macro t w m (pending, owner, ids) = Inr (pending', owner', ids')"
    and "done_ok t w ms pending owner ids" and "m_id m \<notin> m_id ` set ms"
  shows "done_ok t w (ms @ [m]) pending' owner' ids'"
proof -
  obtain i us gs e where run: "map_of (instruction_dict (bt_source_trace t)) (m_id m) = Some i"
    "rmap (fetch BackendKeyError (uop_dict t)) (m_uop_ids m) = Inr us" "groups_for_macro w m i us = Inr gs"
    "rfold (expand_group m us (length gs)) (enumerate 0 gs)
       \<lparr>e_pending = pending, e_owner = owner, e_ids = [], e_previous = None\<rparr> = Inr e"
    "pending' = e_pending e" "owner' = e_owner e" "ids' = AList.update (m_id m) (e_ids e) ids"
    using assms(1) by (auto simp: expand_macro_def rbind_eq_Inr_iff)
  have inv: "loop_ok \<lparr>e_pending = pending, e_owner = owner, e_ids = [], e_previous = None\<rparr>"
    using assms(2) by (simp add: done_ok_def)
  from expand_groups_run [OF run(4) inv] obtain ps where ps: "pending' = pending @ ps" "e_ids e = map xp_id ps"
    "list_all2 (entry_ok m (length gs)) gs ps" "map xp_slot_index ps = [0..<length gs]" "loop_ok e"
    "linked_groups None gs ps"
    by (auto simp: run(5))
  note par = entry_parent [OF ps(3)]
  have "xp_parent_id ` set pending \<subseteq> m_id ` set ms" using assms(2) by (simp add: done_ok_def)
  then have "\<forall>p\<in>set pending. xp_parent_id p \<noteq> m_id m" using assms(3) by (metis image_eqI subsetD)
  then have own: "entries_of pending' (m_id m) = ps" using par by (simp add: entries_of_def ps(1) filter_empty_conv)
  have other: "entries_of pending' (m_id m') = entries_of pending (m_id m')" if "m' \<in> set ms" for m'
  proof -
    have "m_id m \<noteq> m_id m'" using assms(3) that by force
    then have "filter (\<lambda>p. xp_parent_id p = m_id m') ps = []" using par by (simp add: filter_empty_conv)
    then show ?thesis by (simp add: entries_of_def ps(1))
  qed
  have "macro_entries t w m ps" unfolding macro_entries_def using run ps by blast
  moreover have "loop_ok \<lparr>e_pending = pending', e_owner = owner', e_ids = [], e_previous = None\<rparr>"
    using ps(5) by (auto simp: loop_ok_def run(5,6))
  moreover have "xp_parent_id ` set pending' \<subseteq> m_id ` set (ms @ [m])"
    using assms(2) par by (auto simp: done_ok_def ps(1))
  moreover have "map_of ids' (m_id m') = Some (map xp_id (entries_of pending' (m_id m'))) \<and>
      macro_entries t w m' (entries_of pending' (m_id m'))" if "m' \<in> set ms" for m'
  proof -
    have "m_id m' \<noteq> m_id m" using assms(3) that by (metis image_eqI)
    with other [OF that] assms(2) that show ?thesis by (simp add: done_ok_def run(7))
  qed
  ultimately show ?thesis by (simp add: done_ok_def own run(7) ps(2))
qed

lemma expand_macros_run:
  "rfold (expand_macro t w) ms (pending, owner, ids) = Inr (pending', owner', ids') \<Longrightarrow>
     done_ok t w before pending owner ids \<Longrightarrow> distinct (map m_id (before @ ms)) \<Longrightarrow>
     done_ok t w (before @ ms) pending' owner' ids'"
proof (induction ms arbitrary: before pending owner ids)
  case (Cons m ms)
  then obtain p1 o1 i1 where 1: "expand_macro t w m (pending, owner, ids) = Inr (p1, o1, i1)"
    "rfold (expand_macro t w) ms (p1, o1, i1) = Inr (pending', owner', ids')"
    by (auto simp: rbind_eq_Inr_iff)
  have "done_ok t w (before @ [m]) p1 o1 i1"
    using expand_macro_run [OF 1(1) Cons.prems(2)] Cons.prems(3) by auto
  from Cons.IH [OF 1(2) this] Cons.prems(3) show ?case by simp
qed simp

section \<open>The expanded trace\<close>

lemma finish_entry_fields:
  assumes "finish_entry owner p = Inr x"
  shows "xb_id x = xp_id p" "xb_parent_id x = xp_parent_id p" "xb_execution_uop_ids x = map u_id (xp_execution_uops p)"
    "xb_sequence x = int (xp_sequence p)" "xb_slot_index x = xp_slot_index p" "xb_slot_count x = xp_slot_count p"
    "translate_dependencies owner p = Inr (xb_dependencies x)"
  using assms by (auto simp: finish_entry_def rbind_eq_Inr_iff)

lemma rmap_map: "rmap f xs = Inr ys \<Longrightarrow> (\<And>x y. f x = Inr y \<Longrightarrow> g y = h x) \<Longrightarrow> map g ys = map h xs"
  by (induction xs arbitrary: ys) (auto simp: rbind_eq_Inr_iff)

lemma rmap_filter:
  "rmap f xs = Inr ys \<Longrightarrow> (\<And>x y. f x = Inr y \<Longrightarrow> P y = Q x) \<Longrightarrow> rmap f (filter Q xs) = Inr (filter P ys)"
  by (induction xs arbitrary: ys) (auto simp: rbind_eq_Inr_iff)

lemma finish_maps:
  assumes "rmap (finish_entry owner) ps = Inr xs"
  shows "map xb_id xs = map xp_id ps" "map xb_execution_uop_ids xs = map (\<lambda>p. map u_id (xp_execution_uops p)) ps"
    "map xb_sequence xs = map (\<lambda>p. int (xp_sequence p)) ps"
  by (rule rmap_map [OF assms]; simp add: finish_entry_fields)+

lemma checked_trace_iff [simp]: "checked_trace t = Inr u \<longleftrightarrow> well_formed_trace t"
  using validate_iff [of t] by (auto simp: checked_trace_def split: sum.splits)

lemma expandedE:
  assumes "make_expander t profile_id w = Inr b"
  obtains pending where "well_formed_trace t" "done_ok t w (bt_macros t) pending (owners pending) (xt_macro_uop_ids b)"
    "rmap (finish_entry (owners pending)) pending = Inr (xt_backend_uops b)"
proof -
  from assms obtain pending owner ids where run: "well_formed_trace t"
    "rfold (expand_macro t w) (bt_macros t) ([], [], []) = Inr (pending, owner, ids)"
    "rmap (finish_entry owner) pending = Inr (xt_backend_uops b)" "xt_macro_uop_ids b = ids"
    by (auto simp: make_expander_def expand_backend_uops_def rbind_eq_Inr_iff)
  have "done_ok t w [] [] [] []" by (simp add: done_ok_def loop_ok_def keys_def)
  from expand_macros_run [OF run(2) this] run(1)
  have d: "done_ok t w (bt_macros t) pending owner ids" by (simp add: well_formed_trace_def)
  then have "owner = owners pending" by (simp add: done_ok_def loop_ok_def)
  with that run d show thesis by simp
qed

lemma uop_dict_fetch: "rmap (fetch BackendKeyError (uop_dict t)) ids = Inr us \<Longrightarrow> map u_id us = ids \<and> set us \<subseteq> set (bt_uops t)"
proof (induction ids arbitrary: us)
  case (Cons i ids)
  then obtain u us' where "map_of (uop_dict t) i = Some u" "rmap (fetch BackendKeyError (uop_dict t)) ids = Inr us'" "us = u # us'"
    by (auto simp: rbind_eq_Inr_iff)
  with Cons.IH [of us'] show ?case by (auto simp: uop_dict_def dest!: map_of_SomeD)
qed simp

lemma macro_entries_uops:
  assumes "macro_entries t w m ps"
  shows "mset (map u_id (concat (map xp_execution_uops ps))) = mset (m_uop_ids m)"
    "set (concat (map xp_execution_uops ps)) \<subseteq> set (bt_uops t)"
proof -
  obtain i us gs where me: "rmap (fetch BackendKeyError (uop_dict t)) (m_uop_ids m) = Inr us" "groups_for_macro w m i us = Inr gs"
    "list_all2 (entry_ok m (length gs)) gs ps" using assms by (auto simp: macro_entries_def)
  have "map xp_execution_uops ps = map (fst \<circ> snd) gs"
    using me(3) by (auto simp: list_all2_conv_all_nth entry_ok_def intro!: nth_equalityI)
  then have "mset (concat (map xp_execution_uops ps)) = mset us" using groups_mset [OF me(2)] by (simp add: members_def)
  with uop_dict_fetch [OF me(1)] show "mset (map u_id (concat (map xp_execution_uops ps))) = mset (m_uop_ids m)"
    "set (concat (map xp_execution_uops ps)) \<subseteq> set (bt_uops t)" by (metis mset_map, metis set_mset_mset)
qed

end
