(* ===== verification/XsaiTrace.thy ===== *)
theory XsaiTrace
  imports XsaiSlots
begin

text \<open>
  Dependencies between scheduler entries, the number of entries of a macro-op, and the trace handed
  to the timing loop.
\<close>

section \<open>The partition\<close>

text \<open>
  C26. The expansion is a partition: every execution uop of the trace is owned by exactly one
  scheduler entry, entries are numbered in order, and each macro-op's entries are exactly the ones
  listed for it and own exactly its execution uops.
\<close>

theorem expansion_partitions:
  assumes "make_expander t profile_id w = Inr b"
  shows "distinct (concat (map xb_execution_uop_ids (xt_backend_uops b))) \<and>
     set (concat (map xb_execution_uop_ids (xt_backend_uops b))) = u_id ` set (bt_uops t) \<and>
     map xb_sequence (xt_backend_uops b) = map int [0..<scheduler_slot_count b] \<and>
     (\<forall>m\<in>set (bt_macros t). \<exists>xs. xs = filter (\<lambda>x. xb_parent_id x = m_id m) (xt_backend_uops b) \<and>
        map_of (xt_macro_uop_ids b) (m_id m) = Some (map xb_id xs) \<and>
        mset (concat (map xb_execution_uop_ids xs)) = mset (m_uop_ids m))"
proof -
  obtain pending where wf: "well_formed_trace t" and ok: "done_ok t w (bt_macros t) pending (owners pending) (xt_macro_uop_ids b)"
    and fin: "rmap (finish_entry (owners pending)) pending = Inr (xt_backend_uops b)" using assms by (rule expandedE)
  note fields = finish_maps [OF fin]
  have ids: "concat (map xb_execution_uop_ids (xt_backend_uops b)) = keys (owners pending)"
    unfolding fields(2) by (simp add: owners_def keys_def map_concat o_def)
  have "length (xt_backend_uops b) = length pending" using arg_cong [OF fields(1), of length] by simp
  then have seq: "map xb_sequence (xt_backend_uops b) = map int [0..<scheduler_slot_count b]"
    using ok unfolding fields(3) scheduler_slot_count_def
    by (simp add: done_ok_def loop_ok_def o_def flip: map_map [unfolded o_def])
  have macro: "map_of (xt_macro_uop_ids b) (m_id m) = Some (map xb_id (filter (\<lambda>x. xb_parent_id x = m_id m) (xt_backend_uops b))) \<and>
      mset (concat (map xb_execution_uop_ids (filter (\<lambda>x. xb_parent_id x = m_id m) (xt_backend_uops b)))) = mset (m_uop_ids m)"
    if "m \<in> set (bt_macros t)" for m
  proof -
    have "rmap (finish_entry (owners pending)) (entries_of pending (m_id m)) =
        Inr (filter (\<lambda>x. xb_parent_id x = m_id m) (xt_backend_uops b))"
      unfolding entries_of_def by (rule rmap_filter [OF fin]) (simp add: finish_entry_fields(2))
    note f = finish_maps(1,2) [OF this]
    show ?thesis using ok that macro_entries_uops(1) [of t w m] unfolding f
      by (auto simp: done_ok_def map_concat o_def)
  qed
  have "set (keys (owners pending)) = u_id ` set (bt_uops t)"
  proof
    show "set (keys (owners pending)) \<subseteq> u_id ` set (bt_uops t)"
    proof
      fix k assume "k \<in> set (keys (owners pending))"
      then obtain p u where p: "p \<in> set pending" "u \<in> set (xp_execution_uops p)" "k = u_id u"
        by (auto simp: owners_def keys_def)
      with ok obtain m where m: "m \<in> set (bt_macros t)" "xp_parent_id p = m_id m" "macro_entries t w m (entries_of pending (m_id m))"
        by (auto simp: done_ok_def)
      have "p \<in> set (entries_of pending (m_id m))" using p m by (simp add: entries_of_def)
      with macro_entries_uops(2) [OF m(3)] p show "k \<in> u_id ` set (bt_uops t)" by auto
    qed
    show "u_id ` set (bt_uops t) \<subseteq> set (keys (owners pending))"
    proof
      fix k assume "k \<in> u_id ` set (bt_uops t)"
      then obtain m where m: "m \<in> set (bt_macros t)" "k \<in> set (m_uop_ids m)"
        using wf by (fastforce simp: well_formed_trace_def)
      then have "k \<in> set (concat (map xb_execution_uop_ids (filter (\<lambda>x. xb_parent_id x = m_id m) (xt_backend_uops b))))"
        using macro by (metis set_mset_mset)
      then show "k \<in> set (keys (owners pending))" unfolding ids [symmetric] by auto
    qed
  qed
  moreover have "distinct (keys (owners pending))" using ok by (simp add: done_ok_def loop_ok_def)
  ultimately show ?thesis using seq macro unfolding ids by blast
qed

section \<open>Dependencies between entries\<close>

text \<open>
  \<open>chain_before t q p\<close> links the pending entries, \<open>chained_before\<close> the finished ones: in a chained
  macro-op each entry follows the one in the slot before it.
\<close>

definition chained_macro :: "bound_trace \<Rightarrow> string \<Rightarrow> bool" where
  "chained_macro t i \<longleftrightarrow> (case map_of (instruction_dict (bt_source_trace t)) i of None \<Rightarrow> False | Some x \<Rightarrow> chained_instruction x)"

definition chained_before :: "bound_trace \<Rightarrow> backend_uop \<Rightarrow> backend_uop \<Rightarrow> bool" where
  "chained_before t y x \<longleftrightarrow> xb_parent_id y = xb_parent_id x \<and> chained_macro t (xb_parent_id x) \<and>
     xb_slot_index x = Suc (xb_slot_index y)"

definition data_before :: "bound_trace \<Rightarrow> backend_uop \<Rightarrow> backend_uop \<Rightarrow> bool" where
  "data_before t y x \<longleftrightarrow> (\<exists>u\<in>set (bt_uops t). \<exists>d\<in>set (u_dependencies u).
     u_id u \<in> set (xb_execution_uop_ids x) \<and> d \<in> set (xb_execution_uop_ids y))"

definition chain_before :: "bound_trace \<Rightarrow> pending_uop \<Rightarrow> pending_uop \<Rightarrow> bool" where
  "chain_before t q p \<longleftrightarrow> xp_parent_id q = xp_parent_id p \<and> chained_macro t (xp_parent_id p) \<and>
     xp_slot_index p = Suc (xp_slot_index q)"

lemma pending_entry:
  assumes ok: "done_ok t w ms pending owner ids" and p: "p \<in> set pending"
  shows "set (xp_execution_dependencies p) = (\<Union>u\<in>set (xp_execution_uops p). set (u_dependencies u))"
    "set (xp_execution_uops p) \<subseteq> set (bt_uops t)"
    "set (xp_local_dependencies p) = xp_id ` {q \<in> set pending. chain_before t q p}"
proof -
  obtain m where m: "m \<in> set ms" "xp_parent_id p = m_id m" "macro_entries t w m (entries_of pending (m_id m))"
    using assms by (auto simp: done_ok_def)
  define ps where "ps = entries_of pending (m_id m)"
  have mem: "q \<in> set ps \<longleftrightarrow> q \<in> set pending \<and> xp_parent_id q = m_id m" for q by (auto simp: ps_def entries_of_def)
  have "p \<in> set ps" using p m(2) by (simp add: mem)
  then obtain j where j: "j < length ps" "p = ps ! j" by (auto simp: in_set_conv_nth)
  obtain i us gs where gs: "map_of (instruction_dict (bt_source_trace t)) (m_id m) = Some i" "groups_for_macro w m i us = Inr gs"
    "list_all2 (entry_ok m (length gs)) gs ps" "map xp_slot_index ps = [0..<length gs]" "linked_groups None gs ps"
    using m(3) by (auto simp: macro_entries_def ps_def)
  have "entry_ok m (length gs) (gs ! j) p" unfolding j(2) by (rule list_all2_nthD2 [OF gs(3) j(1)])
  then show "set (xp_execution_dependencies p) = (\<Union>u\<in>set (xp_execution_uops p). set (u_dependencies u))"
    by (simp add: entry_ok_def)
  show "set (xp_execution_uops p) \<subseteq> set (bt_uops t)"
    using macro_entries_uops(2) [OF m(3)] \<open>p \<in> set ps\<close> by (auto simp: ps_def)
  have len: "length ps = length gs" using arg_cong [OF gs(4), of length] by simp
  have slot: "xp_slot_index (ps ! k) = k" if "k < length ps" for k
    using arg_cong [OF gs(4), of "\<lambda>l. l ! k"] that len by simp
  have flags: "\<forall>g\<in>set gs. snd (snd g) \<longleftrightarrow> chained_instruction i" using group_flags [OF gs(2)] by blast
  have chained: "chained_macro t (m_id m) \<longleftrightarrow> chained_instruction i" using gs(1) by (simp add: chained_macro_def)
  have locals: "xp_local_dependencies p = (if \<not> chained_instruction i \<or> j = 0 then [] else [xp_id (ps ! (j - 1))])"
    using linked_chain [OF gs(5) flags j(1)] j(2) by simp
  have "chain_before t q p \<and> q \<in> set pending \<longleftrightarrow> chained_instruction i \<and> j \<noteq> 0 \<and> q = ps ! (j - 1)" for q
  proof
    assume q: "chain_before t q p \<and> q \<in> set pending"
    then have "q \<in> set ps" "chained_instruction i" using m(2) chained by (auto simp: chain_before_def mem)
    then obtain k where k: "k < length ps" "q = ps ! k" by (auto simp: in_set_conv_nth)
    have "j = Suc k" using q slot [OF k(1)] slot [OF j(1)] k(2) j(2) by (simp add: chain_before_def)
    then show "chained_instruction i \<and> j \<noteq> 0 \<and> q = ps ! (j - 1)" using \<open>chained_instruction i\<close> k(2) by simp
  next
    assume q: "chained_instruction i \<and> j \<noteq> 0 \<and> q = ps ! (j - 1)"
    then have "q \<in> set ps" "xp_slot_index q = j - 1" using j(1) slot [of "j - 1"] by auto
    then show "chain_before t q p \<and> q \<in> set pending"
      using q m(2) chained slot [OF j(1)] j(2) by (simp add: chain_before_def mem)
  qed
  then have "{q \<in> set pending. chain_before t q p} = (if \<not> chained_instruction i \<or> j = 0 then {} else {ps ! (j - 1)})" by auto
  then show "set (xp_local_dependencies p) = xp_id ` {q \<in> set pending. chain_before t q p}" unfolding locals by simp
qed

lemma owner_of_member:
  assumes "distinct (keys (owners pending))" and "q \<in> set pending" and "u \<in> set (xp_execution_uops q)"
  shows "map_of (owners pending) (u_id u) = Some (xp_id q)"
proof -
  have "(u_id u, xp_id q) \<in> set (owners pending)" using assms(2,3) by (auto simp: owners_def)
  with assms(1) show ?thesis by (simp add: keys_def)
qed

lemma translate_set:
  assumes "translate_dependencies owner p = Inr ds"
  shows "set ds = (set (xp_local_dependencies p) \<union>
     {z. \<exists>d\<in>set (xp_execution_dependencies p) - u_id ` set (xp_execution_uops p). map_of owner d = Some z}) - {xp_id p}"
    "d \<in> set (xp_execution_dependencies p) - u_id ` set (xp_execution_uops p) \<Longrightarrow> map_of owner d \<noteq> None"
proof -
  let ?ds = "filter (\<lambda>d. d \<notin> u_id ` set (xp_execution_uops p)) (xp_execution_dependencies p)"
  obtain os where os: "rmap (\<lambda>d. case map_of owner d of None \<Rightarrow> Inl (UnknownExecutionDependency (xp_id p) d) | Some b \<Rightarrow> Inr b) ?ds = Inr os"
    "ds = filter (\<lambda>d. d \<noteq> xp_id p) (remdups (xp_local_dependencies p @ os))"
    using assms by (auto simp: translate_dependencies_def rbind_eq_Inr_iff)
  have "list_all2 (\<lambda>d z. map_of owner d = Some z) ?ds os"
    using os(1) unfolding rmap_Inr_iff by (rule list_all2_mono) (simp split: option.splits)
  then have "map (map_of owner) ?ds = map Some os" by (simp add: list_all2_conv_all_nth list_eq_iff_nth_eq)
  from arg_cong [OF this, of set] have eq: "map_of owner ` set ?ds = Some ` set os" by simp
  have "z \<in> set os \<longleftrightarrow> Some z \<in> map_of owner ` set ?ds" for z unfolding eq by auto
  then have "z \<in> set os \<longleftrightarrow> (\<exists>d\<in>set ?ds. map_of owner d = Some z)" for z
    by (simp only: image_iff eq_commute [of "Some z"])
  then show "set ds = (set (xp_local_dependencies p) \<union>
     {z. \<exists>d\<in>set (xp_execution_dependencies p) - u_id ` set (xp_execution_uops p). map_of owner d = Some z}) - {xp_id p}"
    unfolding os(2) by (simp add: set_eq_iff) blast
  show "d \<in> set (xp_execution_dependencies p) - u_id ` set (xp_execution_uops p) \<Longrightarrow> map_of owner d \<noteq> None"
    using eq by (force simp: set_eq_iff image_iff)
qed

lemma finished_entry:
  assumes "rmap (finish_entry owner) pending = Inr xs"
  shows "x \<in> set xs \<Longrightarrow> \<exists>p\<in>set pending. finish_entry owner p = Inr x"
    "p \<in> set pending \<Longrightarrow> \<exists>x\<in>set xs. finish_entry owner p = Inr x"
  using assms unfolding rmap_Inr_iff list_all2_conv_all_nth in_set_conv_nth by (metis nth_mem)+

text \<open>Finished entries stand to each other as the pending ones do.\<close>

lemma finish_relations:
  assumes "finish_entry owner p = Inr x" and "finish_entry owner q = Inr y"
  shows "chained_before t y x \<longleftrightarrow> chain_before t q p"
    "data_before t y x \<longleftrightarrow> (\<exists>u\<in>set (bt_uops t). \<exists>d\<in>set (u_dependencies u).
       u_id u \<in> u_id ` set (xp_execution_uops p) \<and> d \<in> u_id ` set (xp_execution_uops q))"
  using finish_entry_fields [OF assms(1)] finish_entry_fields [OF assms(2)]
  by (simp_all add: chained_before_def chain_before_def data_before_def)

text \<open>The execution dependencies of an entry lead to the entries that own them.\<close>

lemma owned_dependency:
  assumes wf: "well_formed_trace t" and ok: "done_ok t w (bt_macros t) pending (owners pending) ids" and p: "p \<in> set pending"
  shows "(\<exists>d\<in>set (xp_execution_dependencies p) - u_id ` set (xp_execution_uops p). map_of (owners pending) d = Some z) \<and> z \<noteq> xp_id p
     \<longleftrightarrow> (\<exists>q\<in>set pending. z = xp_id q \<and> z \<noteq> xp_id p \<and> (\<exists>u\<in>set (bt_uops t). \<exists>d\<in>set (u_dependencies u).
       u_id u \<in> u_id ` set (xp_execution_uops p) \<and> d \<in> u_id ` set (xp_execution_uops q)))" (is "?own \<longleftrightarrow> ?data")
proof -
  have dist: "distinct (keys (owners pending))" using ok by (simp add: done_ok_def loop_ok_def)
  note pe = pending_entry(1,2) [OF ok p]
  have same: "u \<in> set (xp_execution_uops p)"
    if u: "u \<in> set (bt_uops t)" and uid: "u_id u \<in> u_id ` set (xp_execution_uops p)" for u
  proof -
    have "inj_on u_id (set (bt_uops t))" using wf by (simp add: well_formed_trace_def distinct_map)
    moreover obtain v where v: "v \<in> set (xp_execution_uops p)" "u_id u = u_id v" using uid by auto
    ultimately have "u = v" using u pe(2) by (simp add: inj_on_eq_iff subset_eq)
    with v(1) show ?thesis by simp
  qed
  show ?thesis
  proof
    assume own: ?own
    then obtain d where d: "d \<in> set (xp_execution_dependencies p)" "map_of (owners pending) d = Some z" by blast
    have zp: "z \<noteq> xp_id p" using own by (rule conjunct2)
    from map_of_SomeD [OF d(2)] obtain q v where q: "q \<in> set pending" "v \<in> set (xp_execution_uops q)" "d = u_id v" "z = xp_id q"
      by (auto simp: owners_def)
    obtain u where u: "u \<in> set (xp_execution_uops p)" "d \<in> set (u_dependencies u)" using d(1) pe(1) by auto
    have "u \<in> set (bt_uops t)" "u_id u \<in> u_id ` set (xp_execution_uops p)" "d \<in> u_id ` set (xp_execution_uops q)"
      using u(1) pe(2) q(2,3) by auto
    then show ?data using q(1,4) u(2) zp by (intro bexI [of _ q] conjI bexI [of _ u] bexI [of _ d]) simp_all
  next
    assume ?data
    then show ?own
    proof (elim bexE conjE)
      fix q u d
      assume q1: "q \<in> set pending" "z = xp_id q" "z \<noteq> xp_id p" "u \<in> set (bt_uops t)" "d \<in> set (u_dependencies u)"
        "u_id u \<in> u_id ` set (xp_execution_uops p)" and dq: "d \<in> u_id ` set (xp_execution_uops q)"
      from dq obtain v where "v \<in> set (xp_execution_uops q)" "d = u_id v" by (rule imageE)
      note q = q1 this
      have o: "map_of (owners pending) d = Some z" using owner_of_member [OF dist q(1,7)] q(2,8) by simp
      have "d \<notin> u_id ` set (xp_execution_uops p)"
      proof
        assume "d \<in> u_id ` set (xp_execution_uops p)"
        then have "map_of (owners pending) d = Some (xp_id p)" using owner_of_member [OF dist p] by auto
        with o q(3) show False by simp
      qed
      moreover have "d \<in> set (xp_execution_dependencies p)" unfolding pe(1) using same [OF q(4,6)] q(5) by (rule UN_I)
      ultimately show ?own using o q(3) by (intro conjI bexI [of _ d] DiffI)
    qed
  qed
qed

text \<open>
  C27. Dependencies survive the expansion exactly: an entry depends on another one exactly when an
  execution uop it owns depends on an execution uop the other owns, or when both belong to a chained
  macro-op (a vector configuration or a reduction) and the other is in the slot before it; no entry
  depends on itself.
\<close>

theorem expansion_dependencies:
  assumes "make_expander t profile_id w = Inr b" and x: "x \<in> set (xt_backend_uops b)"
  shows "set (xb_dependencies x) =
    {xb_id y | y. y \<in> set (xt_backend_uops b) \<and> xb_id y \<noteq> xb_id x \<and> (data_before t y x \<or> chained_before t y x)}"
proof -
  obtain pending where wf: "well_formed_trace t" and ok: "done_ok t w (bt_macros t) pending (owners pending) (xt_macro_uop_ids b)"
    and fin: "rmap (finish_entry (owners pending)) pending = Inr (xt_backend_uops b)" using assms(1) by (rule expandedE)
  obtain p where p: "p \<in> set pending" "finish_entry (owners pending) p = Inr x" using finished_entry(1) [OF fin x] by blast
  note fx = finish_entry_fields [OF p(2)]
  let ?data = "\<lambda>q. \<exists>u\<in>set (bt_uops t). \<exists>d\<in>set (u_dependencies u).
      u_id u \<in> u_id ` set (xp_execution_uops p) \<and> d \<in> u_id ` set (xp_execution_uops q)"
  have deps: "z \<in> set (xb_dependencies x) \<longleftrightarrow> (\<exists>q\<in>set pending. z = xp_id q \<and> z \<noteq> xb_id x \<and> (?data q \<or> chain_before t q p))" for z
    unfolding translate_set(1) [OF fx(7)] pending_entry(3) [OF ok p(1)] fx(1)
    using owned_dependency [OF wf ok p(1), of z] by blast
  have "(\<exists>q\<in>set pending. z = xp_id q \<and> z \<noteq> xb_id x \<and> (?data q \<or> chain_before t q p)) \<longleftrightarrow>
      (\<exists>y. z = xb_id y \<and> y \<in> set (xt_backend_uops b) \<and> xb_id y \<noteq> xb_id x \<and> (data_before t y x \<or> chained_before t y x))" for z
  proof
    assume "\<exists>q\<in>set pending. z = xp_id q \<and> z \<noteq> xb_id x \<and> (?data q \<or> chain_before t q p)"
    then obtain q where q: "q \<in> set pending" "z = xp_id q" "z \<noteq> xb_id x" "?data q \<or> chain_before t q p" by blast
    obtain y where y: "y \<in> set (xt_backend_uops b)" "finish_entry (owners pending) q = Inr y" using finished_entry(2) [OF fin q(1)] by blast
    show "\<exists>y. z = xb_id y \<and> y \<in> set (xt_backend_uops b) \<and> xb_id y \<noteq> xb_id x \<and> (data_before t y x \<or> chained_before t y x)"
      using q(2-4) y finish_relations [OF p(2) y(2)] finish_entry_fields(1) [OF y(2)] by (intro exI [of _ y]) simp
  next
    assume "\<exists>y. z = xb_id y \<and> y \<in> set (xt_backend_uops b) \<and> xb_id y \<noteq> xb_id x \<and> (data_before t y x \<or> chained_before t y x)"
    then obtain y where y: "z = xb_id y" "y \<in> set (xt_backend_uops b)" "xb_id y \<noteq> xb_id x" "data_before t y x \<or> chained_before t y x" by blast
    obtain q where q: "q \<in> set pending" "finish_entry (owners pending) q = Inr y" using finished_entry(1) [OF fin y(2)] by blast
    show "\<exists>q\<in>set pending. z = xp_id q \<and> z \<noteq> xb_id x \<and> (?data q \<or> chain_before t q p)"
      using y q finish_relations [OF p(2) q(2)] finish_entry_fields(1) [OF q(2)] by (intro bexI [of _ q]) simp_all
  qed
  then show ?thesis using deps by auto
qed

section \<open>An example\<close>

definition demo_vector_trace :: bound_trace where
  "demo_vector_trace =
     \<lparr>bt_trace_version = 2, bt_profile_id = ''x'', bt_profile_sha256 = '''', bt_ticks_per_cycle = 2,
      bt_macros = [blank_macro\<lparr>m_id := ''i0'', m_uop_ids := [''i0.e0''], m_decoded_macro_ops := 2\<rparr>,
        blank_macro\<lparr>m_id := ''i1'', m_sequence := 1, m_uop_ids := [''i1.e0'', ''i1.e1'']\<rparr>],
      bt_uops =
        [blank_uop\<lparr>u_id := ''i0.e0'', u_parent_id := ''i0'', u_latency_ticks := 4\<rparr>,
         blank_uop\<lparr>u_id := ''i1.e0'', u_parent_id := ''i1'', u_sequence := 1, u_part_index := Some 0, u_part_count := Some 2,
           u_dependencies := [''i0.e0'']\<rparr>,
         blank_uop\<lparr>u_id := ''i1.e1'', u_parent_id := ''i1'', u_sequence := 2, u_part_index := Some 1, u_part_count := Some 2,
           u_dependencies := [''i0.e0'', ''i1.e0'']\<rparr>],
      bt_resources = [], bt_workload = JNull,
      bt_source_trace =
        [blank_instruction\<lparr>i_id := ''i0'', i_semantic_uops := [\<lparr>s_local_id = ''u0'', s_kind = ''vector_config'',
           s_depends_on_local = [], s_reads_old_destination = False, s_old_destination_registers = None\<rparr>]\<rparr>,
         blank_instruction\<lparr>i_id := ''i1'', i_semantic_uops := [\<lparr>s_local_id = ''u0'', s_kind = ''vector_fp_add'',
           s_depends_on_local = [], s_reads_old_destination = False, s_old_destination_registers = None\<rparr>],
           i_vector_state := Some \<lparr>vs_vlen_bits = 128, vs_sew_bits = Some 32, vs_lmul = Some ''m2'', vs_vlmax = Some 8,
             vs_vl = Some 8, vs_tail_policy = None, vs_mask_policy = None\<rparr>\<rparr>]\<rparr>"

definition demo_expansion :: backend_trace where
  "demo_expansion = (case make_expander demo_vector_trace ''x'' 128 of Inr b \<Rightarrow> b
     | Inl _ \<Rightarrow> \<lparr>xt_profile_id = '''', xt_backend_uops = [], xt_macro_uop_ids = []\<rparr>)"

lemma demo_expands: "make_expander demo_vector_trace ''x'' 128 = Inr demo_expansion"
proof -
  have "case make_expander demo_vector_trace ''x'' 128 of Inl _ \<Rightarrow> False | Inr _ \<Rightarrow> True" by code_simp
  then show ?thesis by (auto simp: demo_expansion_def split: sum.splits)
qed

lemma demo_entries:
  "map xb_id (xt_backend_uops demo_expansion) = [''i0.xb0'', ''i0.e0'', ''i1.e0'', ''i1.e1'']"
  "map xb_execution_uop_ids (xt_backend_uops demo_expansion) = [[], [''i0.e0''], [''i1.e0''], [''i1.e1'']]"
  by code_simp+

theorem expansion_partitions_witness:
  "distinct (concat (map xb_execution_uop_ids (xt_backend_uops demo_expansion))) \<and>
     map xb_sequence (xt_backend_uops demo_expansion) = [0, 1, 2, 3]"
proof -
  have "scheduler_slot_count demo_expansion = 4"
    unfolding scheduler_slot_count_def using arg_cong [OF demo_entries(1), of length] by simp
  with expansion_partitions [OF demo_expands] show ?thesis by (simp add: upt_rec numeral_eq_Suc)
qed

theorem expansion_dependencies_witness:
  "\<exists>c x y. {c, x, y} \<subseteq> set (xt_backend_uops demo_expansion) \<and> xb_id c = ''i0.xb0'' \<and> xb_id x = ''i0.e0'' \<and> xb_id y = ''i1.e0'' \<and>
     ''i0.xb0'' \<in> set (xb_dependencies x) \<and> ''i0.e0'' \<in> set (xb_dependencies y)"
proof -
  let ?c = "xt_backend_uops demo_expansion ! 0" and ?x = "xt_backend_uops demo_expansion ! 1" and ?y = "xt_backend_uops demo_expansion ! 2"
  have n: "length (xt_backend_uops demo_expansion) = 4" using arg_cong [OF demo_entries(1), of length] by simp
  have at: "xb_id ?c = ''i0.xb0''" "xb_id ?x = ''i0.e0''" "xb_id ?y = ''i1.e0''"
    using arg_cong [OF demo_entries(1), of "\<lambda>l. l ! 0"] arg_cong [OF demo_entries(1), of "\<lambda>l. l ! 1"]
      arg_cong [OF demo_entries(1), of "\<lambda>l. l ! 2"] by (simp_all add: n)
  have mem: "?c \<in> set (xt_backend_uops demo_expansion)" "?x \<in> set (xt_backend_uops demo_expansion)" "?y \<in> set (xt_backend_uops demo_expansion)"
    by (simp_all add: n)
  have rel: "chained_before demo_vector_trace ?c ?x" "data_before demo_vector_trace ?x ?y" by code_simp+
  have "xb_id ?c \<in> set (xb_dependencies ?x)" "xb_id ?x \<in> set (xb_dependencies ?y)"
    unfolding expansion_dependencies [OF demo_expands mem(2)] expansion_dependencies [OF demo_expands mem(3)]
    by (intro CollectI exI [of _ ?c] exI [of _ ?x] conjI refl mem; use at rel in simp)+
  then show ?thesis using at mem by (intro exI [of _ ?c] exI [of _ ?x] exI [of _ ?y]) simp
qed

section \<open>The trace of the timing loop\<close>

definition data_access :: "execution_uop \<Rightarrow> bool" where
  "data_access u \<longleftrightarrow> u_kind u \<in> {''load_data'', ''store_data''}"

definition idle_uop :: "execution_uop \<Rightarrow> bool" where
  "idle_uop u \<longleftrightarrow> reset_uop u = u"

text \<open>An entry that owns execution uops has the timing of one of them, a data access if there is one.\<close>

definition timed_as :: "bound_trace \<Rightarrow> backend_uop \<Rightarrow> execution_uop \<Rightarrow> bool" where
  "timed_as t x u \<longleftrightarrow>
     (if xb_execution_uop_ids x = []
      then u_latency_ticks u = 0 \<and> u_issue_interval_ticks u = 0 \<and> u_occupancy_ticks u = bt_ticks_per_cycle t \<and>
        u_rename_allocations u = [] \<and> u_memory u = None
      else \<exists>v\<in>set (bt_uops t). u_id v \<in> set (xb_execution_uop_ids x) \<and> u_latency_ticks u = u_latency_ticks v \<and>
        u_issue_interval_ticks u = u_issue_interval_ticks v \<and> u_occupancy_ticks u = u_occupancy_ticks v \<and>
        u_rename_allocations u = u_rename_allocations v \<and> u_memory u = u_memory v \<and>
        (data_access v \<or> (\<forall>v'\<in>set (bt_uops t). u_id v' \<in> set (xb_execution_uop_ids x) \<longrightarrow> \<not> data_access v')))"

lemma timing_owner_cases:
  assumes "timing_owner us = Inr v"
  shows "v \<in> set us" "data_access v \<or> (\<forall>u\<in>set us. \<not> data_access u)"
proof -
  have ne: "us \<noteq> []" using assms by (auto simp: timing_owner_def)
  let ?f = "filter (\<lambda>u. u_kind u \<in> {''load_data'', ''store_data''}) (rev us)"
  have v: "v = (case ?f of u # _ \<Rightarrow> u | [] \<Rightarrow> last us)" using assms ne by (auto simp: timing_owner_def split: list.splits)
  have "v \<in> set us \<and> (data_access v \<or> (\<forall>u\<in>set us. \<not> data_access u))"
  proof (cases ?f)
    case Nil
    then have "\<forall>u\<in>set us. \<not> data_access u" by (simp add: filter_empty_conv data_access_def)
    then show ?thesis using v Nil ne by simp
  next
    case (Cons u rest)
    then have "u \<in> set ?f" by simp
    then show ?thesis using v Cons by (simp add: data_access_def)
  qed
  then show "v \<in> set us" "data_access v \<or> (\<forall>u\<in>set us. \<not> data_access u)" by blast+
qed

lemma materialize_uop_run:
  assumes "materialize_uop t owner (k, x) = Inr u" and "distinct (map u_id (bt_uops t))"
  shows "u_id u = xb_id x \<and> u_sequence u = int k \<and> u_dependencies u = xb_dependencies x \<and> idle_uop u \<and> timed_as t x u"
proof -
  obtain linked candidates v where run: "rmap (fetch BackendKeyError (uop_dict t)) (xb_execution_uop_ids x) = Inr linked"
    "linked \<noteq> [] \<Longrightarrow> candidates = linked" "timing_owner candidates = Inr v"
    "\<exists>w. u = reset_uop (if owns_execution_timing x then w else internal_timing (bt_ticks_per_cycle t) x w) \<and>
       u_id w = xb_id x \<and> u_sequence w = int k \<and> u_dependencies w = xb_dependencies x \<and>
       u_latency_ticks w = u_latency_ticks v \<and> u_issue_interval_ticks w = u_issue_interval_ticks v \<and>
       u_occupancy_ticks w = u_occupancy_ticks v \<and> u_rename_allocations w = u_rename_allocations v \<and> u_memory w = u_memory v"
    using assms(1) unfolding materialize_uop_def Let_def prod.case rbind_eq_Inr_iff by fastforce
  from run(4) obtain w where w: "u = reset_uop (if owns_execution_timing x then w else internal_timing (bt_ticks_per_cycle t) x w)"
    "u_id w = xb_id x" "u_sequence w = int k" "u_dependencies w = xb_dependencies x"
    "u_latency_ticks w = u_latency_ticks v" "u_issue_interval_ticks w = u_issue_interval_ticks v"
    "u_occupancy_ticks w = u_occupancy_ticks v" "u_rename_allocations w = u_rename_allocations v" "u_memory w = u_memory v"
    by blast
  note linked = uop_dict_fetch [OF run(1)]
  have basic: "u_id u = xb_id x \<and> u_sequence u = int k \<and> u_dependencies u = xb_dependencies x \<and> idle_uop u"
    using w by (simp add: reset_uop_def internal_timing_def idle_uop_def)
  have "timed_as t x u"
  proof (cases "xb_execution_uop_ids x = []")
    case True
    then show ?thesis by (simp add: timed_as_def w(1) owns_execution_timing_def reset_uop_def internal_timing_def)
  next
    case False
    then have "linked \<noteq> []" using linked by auto
    then have c: "candidates = linked" by (rule run(2))
    note own = timing_owner_cases [OF run(3)[unfolded c]]
    have "v' \<in> set linked" if "v' \<in> set (bt_uops t)" "u_id v' \<in> set (xb_execution_uop_ids x)" for v'
    proof -
      have "u_id v' \<in> set (map u_id linked)" using that(2) linked by simp
      then obtain v2 where v2: "v2 \<in> set linked" "u_id v' = u_id v2" by auto
      moreover have "v2 \<in> set (bt_uops t)" using v2(1) linked by blast
      moreover have "inj_on u_id (set (bt_uops t))" using assms(2) by (simp add: distinct_map)
      ultimately show ?thesis using inj_onD [of u_id "set (bt_uops t)" v' v2] that(1) by simp
    qed
    then have "data_access v \<or> (\<forall>v'\<in>set (bt_uops t). u_id v' \<in> set (xb_execution_uop_ids x) \<longrightarrow> \<not> data_access v')"
      using own(2) by blast
    moreover have "u_id v \<in> set (map u_id linked)" using own(1) by simp
    then have "v \<in> set (bt_uops t)" "u_id v \<in> set (xb_execution_uop_ids x)" using own(1) linked by auto
    ultimately show ?thesis using w False
      by (auto simp: timed_as_def owns_execution_timing_def reset_uop_def intro!: bexI [of _ v])
  qed
  with basic show ?thesis by blast
qed

text \<open>
  C28. The trace of the timing loop implements the expansion: it is well formed, its uops are the
  entries in order with their dependencies and no simulation state, an entry is timed as one of the
  execution uops it owns, a data access when it owns one, and takes no time when it owns none, and
  every macro-op takes as many dispatch units as it has entries.
\<close>

theorem materialized_trace:
  assumes "well_formed_trace t" and "materialize_xsai_trace t b = Inr r"
  shows "well_formed_trace r \<and> map u_id (bt_uops r) = map xb_id (xt_backend_uops b) \<and>
     (\<forall>k<scheduler_slot_count b. let x = xt_backend_uops b ! k; u = bt_uops r ! k in
        u_sequence u = int k \<and> u_dependencies u = xb_dependencies x \<and> idle_uop u \<and> timed_as t x u) \<and>
     list_all2 (\<lambda>s m. m_id m = m_id s \<and> map_of (xt_macro_uop_ids b) (m_id s) = Some (m_uop_ids m) \<and>
        dispatch_width_units m = int (length (m_uop_ids m)) \<and> m_dispatch_tick m = None \<and> m_retire_tick m = None)
       (bt_macros t) (bt_macros r)"
proof -
  have dist: "distinct (map u_id (bt_uops t))" using assms(1) by (simp add: well_formed_trace_def)
  obtain uops macros where run: "rmap (materialize_uop t (owner_by_execution b)) (enumerate 0 (xt_backend_uops b)) = Inr uops"
    "rmap (materialize_macro b) (bt_macros t) = Inr macros" "r = t\<lparr>bt_macros := macros, bt_uops := uops\<rparr>" "well_formed_trace r"
    using assms(2) by (auto simp: materialize_xsai_trace_def rbind_eq_Inr_iff Let_def)
  have len: "length uops = length (xt_backend_uops b)"
    using run(1) by (simp add: rmap_Inr_iff list_all2_conv_all_nth)
  have at: "materialize_uop t (owner_by_execution b) (k, xt_backend_uops b ! k) = Inr (uops ! k)"
    if "k < length (xt_backend_uops b)" for k
    using run(1) that by (simp add: rmap_Inr_iff list_all2_conv_all_nth nth_enumerate_eq)
  note each = materialize_uop_run [OF at dist]
  have "map u_id uops = map xb_id (xt_backend_uops b)"
    using each len by (auto intro: nth_equalityI)
  moreover have "list_all2 (\<lambda>s m. m_id m = m_id s \<and> map_of (xt_macro_uop_ids b) (m_id s) = Some (m_uop_ids m) \<and>
      dispatch_width_units m = int (length (m_uop_ids m)) \<and> m_dispatch_tick m = None \<and> m_retire_tick m = None)
      (bt_macros t) macros"
    using run(2) unfolding rmap_Inr_iff
    by (rule list_all2_mono) (auto simp: materialize_macro_def rbind_eq_Inr_iff dispatch_width_units_def)
  ultimately show ?thesis using run(4) each unfolding scheduler_slot_count_def run(3) by (simp add: Let_def)
qed

theorem materialized_trace_witness:
  "\<exists>r. materialize_xsai_trace demo_vector_trace demo_expansion = Inr r \<and>
     map u_id (bt_uops r) = [''i0.xb0'', ''i0.e0'', ''i1.e0'', ''i1.e1''] \<and> well_formed_trace r"
proof -
  have "case materialize_xsai_trace demo_vector_trace demo_expansion of Inl _ \<Rightarrow> False | Inr _ \<Rightarrow> True" by code_simp
  then obtain r where r: "materialize_xsai_trace demo_vector_trace demo_expansion = Inr r" by (auto split: sum.splits)
  have "well_formed_trace demo_vector_trace"
    using demo_expands by (simp add: make_expander_def rbind_eq_Inr_iff)
  from materialized_trace [OF this r] r show ?thesis by (simp add: demo_entries)
qed

end
