(* ===== verification/XsaiState.thy ===== *)
theory XsaiState
  imports XsaiExpand Zen4
begin

text \<open>
  The state of the XSAI engine (\<open>src/backend/xsai.py\<close>, \<open>XsaiRvvEngine\<close>) and the questions its
  operations ask of a uop.

  \<open>xsai_env\<close> holds what a run never changes: the profile's values, the scheduler partitions and
  execution units, the vector memory policy, the memory-compute groups and the vector-epoch plan.
  \<open>xsai_state\<close> holds what a run mutates; sets are lists without duplicates, ticks are integers and
  \<open>math.inf\<close> is \<open>None\<close>.
\<close>

datatype xsai_error =
    XUnknownModel string
  | XInvalidTrace trace_error
  | XBackendFailure backend_error
  | XMemoryFailure mem_error
  | XGroupFailure zen4_error
  | DuplicateReadDomain string
  | DuplicateCompletionDomain string
  | UnknownPartitions string "string list"
  | UnknownUnits string "string list"
  | PartitionMismatch string
  | NoFunctionalResource string string
  | MissingCompletionDomain string string
  | MissingReadDomain string string
  | XUnknownIssueDomains "string list"
  | XNotConverged
  | XNoForwardProgress int
  | XDeadlock "string list"
  | UnknownDispatchDomain string string
  | UnknownFreeList string "string list"
  | DispatchAccounting string
  | BlockerWithoutDomain
  | NoExecutionUnit string
  | NegativeOccupancy string
  | ReadTokenUnavailable string
  | XDemandExceedsDomain string int string nat
  | XDomainTokenUnavailable string
  | PathUnavailable string
  | NoCompletionCycle string
  | XKeyError string
  | XValueError
  | XIndexError
  | XZeroDivision

type_synonym 'a qresult = "xsai_error + 'a"

abbreviation qget :: "(string, 'v) dict \<Rightarrow> string \<Rightarrow> 'v qresult" where
  "qget d k \<equiv> fetch XKeyError d k"

section \<open>Profile values\<close>

record partition =
  pa_entries :: int
  pa_enqueue_width :: int
  pa_kind :: string

record execution_unit =
  eu_partition :: string
  eu_functional_units :: "string list"
  eu_read_domain :: "string option"
  eu_writeback_domain :: "string option"

record register_file =
  rf_read_domains :: "(string, int) dict"
  rf_writeback_domains :: "(string, int) dict"

record rename_policy =
  rn_enabled :: bool
  rn_free_lists :: "(string, int) dict"
  rn_allocation_width :: int
  rn_release_width :: int
  rn_release_delay_ticks :: int
  rn_availability_delay_ticks :: int
  rn_guard_entries :: int

record flow_split =
  fs_boundary_bytes :: int
  fs_max_flows_per_access :: int
  fs_issue_ticks_per_flow :: int

record vector_memory_policy =
  vm_issue_order :: string
  vm_store_completion_ticks :: int
  vm_split_lanes :: "(string, int) dict"
  vm_service_capacity :: "(string, int) dict"
  vm_service_ticks :: "(string, int) dict option"
  vm_flow_split :: "flow_split option"

record epoch_policy =
  ep_enabled :: bool
  ep_load_only_visibility_ticks :: int
  ep_multi_load_drain_ticks :: int
  ep_chained_compute_drain_ticks :: int
  ep_parallel_reduction_overlap_ticks :: int
  ep_mixed_store_reduction_capacity :: int

record xsai_profile =
  np_id :: string
  np_dispatch_width :: int
  np_retire_width :: int
  np_rob_entries :: int
  np_vector_scheduler_entries :: int
  np_load_queue_entries :: int
  np_store_queue_entries :: int
  np_register_width :: int
  np_partitions :: "(string, partition) dict"
  np_units :: "(string, execution_unit) dict"
  np_register_files :: "register_file list"
  np_dispatch_domains :: "(string, int) dict"
  np_rename :: rename_policy
  np_issue_domains :: "(string, int) dict"
  np_overlap_enabled :: bool
  np_overlap_max_pending :: int
  np_overlap_kinds :: "string list"
  np_vector_memory :: vector_memory_policy
  np_epochs :: epoch_policy
  np_memory :: mem_profile

text \<open>The vector-epoch plan: what \<open>_build_vector_epoch_constraints\<close> fills in.\<close>

record epoch_plan =
  pl_close :: "(string, string \<times> int) dict"
  pl_load_visibility :: "string list"
  pl_mixed_terminal :: "(string, string) dict"

section \<open>Environment and state\<close>

record xsai_env =
  n_backend_id :: string
  n_backend_trace :: backend_trace
  n_profile :: xsai_profile
  n_in_order :: bool
  n_tpc :: int
  n_macro_order :: "string list"
  n_uop_order :: "string list"
  n_read_capacity :: "(string, int) dict"
  n_completion_capacity :: "(string, int) dict"
  n_overlap_enabled :: bool
  n_kind_by_id :: "(string, string) dict"
  n_groups :: "(string, string list) dict"
  n_plan :: epoch_plan

datatype xsai_event =
    XUopEvent string int execution_uop
  | XBlockedEvent int macro_op string "string option"
  | XRetireEvent int macro_op

record xsai_state =
  q_uops :: "(string, execution_uop) dict"
  q_macros :: "(string, macro_op) dict"
  q_memory :: memory_hierarchy
  q_rob :: "string list"
  q_unissued :: "string list"
  q_heap :: "(int \<times> int \<times> string) list"
  q_resource_free :: "(string, int list) dict"
  q_last_class :: "(string, int) dict"
  q_partition_occupancy :: "(string, int) dict"
  q_unit_free :: "(string, int) dict"
  q_read_reservations :: "(string, (int, int) dict) dict"
  q_completion_reservations :: "(string, (int, int) dict) dict"
  q_domain_tokens :: "(string, int) dict"
  q_domain_blockers :: "(string, int) dict"
  q_rename_free :: "(string, int) dict"
  q_rename_pending :: "(int \<times> int \<times> (string \<times> int) list) list"
  q_rename_allocation_tokens :: int
  q_rename_release_tokens :: int
  q_rename_blockers :: "(string, int) dict"
  q_issue_domain_free :: "(string, int list) dict"
  q_inflight :: "(string, string list) dict"
  q_service_heap :: "(int \<times> int \<times> string) list"
  q_split_free :: "(string, int list) dict"
  q_flow_counts :: "(int, int) dict"
  q_mixed_active :: "string list"
  q_epoch_blockers :: "(string, int) dict"
  q_pending_groups :: "string list"
  q_next_dispatch :: nat
  q_unit_progress :: "(string, int) dict"
  q_issue_index :: nat
  q_rob_occupancy :: int
  q_vector_occupancy :: int
  q_load_occupancy :: int
  q_store_occupancy :: int
  q_peaks :: "(string, int) dict"
  q_stalls :: "(string, int) dict"
  q_events :: "xsai_event list"

definition qput_uop :: "execution_uop \<Rightarrow> xsai_state \<Rightarrow> xsai_state" where
  "qput_uop u s = s\<lparr>q_uops := AList.update (u_id u) u (q_uops s)\<rparr>"

definition qput_macro :: "macro_op \<Rightarrow> xsai_state \<Rightarrow> xsai_state" where
  "qput_macro m s = s\<lparr>q_macros := AList.update (m_id m) m (q_macros s)\<rparr>"

definition qlog :: "xsai_event \<Rightarrow> xsai_state \<Rightarrow> xsai_state" where
  "qlog e s = s\<lparr>q_events := q_events s @ [e]\<rparr>"

definition qlookup :: "xsai_state \<Rightarrow> string list \<Rightarrow> execution_uop list qresult" where
  "qlookup s ids = rmap (qget (q_uops s)) ids"

text \<open>\<open>min(xs)\<close> and \<open>max(xs)\<close>, which raise on an empty list.\<close>

definition qmin :: "int list \<Rightarrow> int qresult" where
  "qmin xs = (case xs of [] \<Rightarrow> Inl XValueError | x # ys \<Rightarrow> Inr (min_of x ys))"

definition qmax :: "int list \<Rightarrow> int qresult" where
  "qmax xs = (case xs of [] \<Rightarrow> Inl XValueError | x # ys \<Rightarrow> Inr (max_of x ys))"

definition insert_id :: "string \<Rightarrow> string list \<Rightarrow> string list" where
  "insert_id i xs = (if i \<in> set xs then xs else xs @ [i])"

section \<open>Kinds of uops\<close>

definition VECTOR_COMPUTE_KINDS :: "string list" where
  "VECTOR_COMPUTE_KINDS = [''vector_fp'', ''vector_integer'', ''conversion'', ''shuffle'', ''vector_divide'']"

definition is_data_kind :: "string \<Rightarrow> bool" where
  "is_data_kind k \<longleftrightarrow> k = ''load_data'' \<or> k = ''store_data''"

text \<open>Some semantic uop of the entry, or some kind it lists itself, satisfies \<open>P\<close>.\<close>

definition some_kind :: "(string, string) dict \<Rightarrow> (string \<Rightarrow> bool) \<Rightarrow> execution_uop \<Rightarrow> bool" where
  "some_kind kinds P u \<longleftrightarrow>
     (\<exists>i\<in>set (u_semantic_ids u). case map_of kinds i of None \<Rightarrow> False | Some k \<Rightarrow> P k) \<or>
     (\<exists>k\<in>set (u_semantic_kinds u). P k)"

definition is_vector_config :: "(string, string) dict \<Rightarrow> execution_uop \<Rightarrow> bool" where
  "is_vector_config kinds u \<longleftrightarrow> some_kind kinds (\<lambda>k. k = ''vector_config'') u"

definition is_reduction :: "(string, string) dict \<Rightarrow> execution_uop \<Rightarrow> bool" where
  "is_reduction kinds u \<longleftrightarrow> some_kind kinds (\<lambda>k. startswith k ''vector_reduce_'') u"

definition is_vector_memory :: "(string, string) dict \<Rightarrow> execution_uop \<Rightarrow> bool" where
  "is_vector_memory kinds u \<longleftrightarrow> is_data_kind (u_kind u) \<and>
     some_kind kinds (\<lambda>k. k = ''vector_load'' \<or> k = ''vector_store'') u"

definition is_computed_store :: "(string, string) dict \<Rightarrow> (string, execution_uop) dict \<Rightarrow> execution_uop \<Rightarrow> bool qresult" where
  "is_computed_store kinds uops u =
     (if \<not> is_vector_memory kinds u \<or> u_kind u \<noteq> ''store_data'' then Inr False
      else rbind (rmap (qget uops) (u_dependencies u)) (\<lambda>ds.
        Inr (\<exists>d\<in>set ds. u_parent_id d \<noteq> u_parent_id u \<and> u_kind d \<in> set VECTOR_COMPUTE_KINDS)))"

section \<open>Vector memory flows\<close>

definition vector_memory_access_kind :: "execution_uop \<Rightarrow> string" where
  "vector_memory_access_kind u = (if u_kind u = ''load_data'' then ''load'' else ''store'')"

definition service_ticks :: "vector_memory_policy \<Rightarrow> execution_uop \<Rightarrow> int option" where
  "service_ticks p u = (case vm_service_ticks p of None \<Rightarrow> None | Some d \<Rightarrow> map_of d (vector_memory_access_kind u))"

definition flow_count :: "vector_memory_policy \<Rightarrow> execution_uop \<Rightarrow> int qresult" where
  "flow_count p u =
     (case (vm_flow_split p, u_memory u) of
        (Some split, Some memory) \<Rightarrow>
          let byte_count = mr_bytes memory; boundary = fs_boundary_bytes split in
          if byte_count \<le> 0 then Inr 1
          else rbind (rguard (boundary \<noteq> 0) XZeroDivision) (\<lambda>_.
            let covered = mr_address memory mod boundary + byte_count in
            Inr (min ((covered + boundary - 1) div boundary) (fs_max_flows_per_access split)))
      | _ \<Rightarrow> Inr 1)"

definition reserve_split_issue :: "vector_memory_policy \<Rightarrow> execution_uop \<Rightarrow> int \<Rightarrow> xsai_state \<Rightarrow> xsai_state qresult" where
  "reserve_split_issue p u now s =
     (case vm_flow_split p of None \<Rightarrow> Inr s
      | Some split \<Rightarrow>
          rbind (flow_count p u) (\<lambda>flows.
          rbind (qget (q_split_free s) (vector_memory_access_kind u)) (\<lambda>lanes.
          if lanes = [] then Inl XValueError
          else
            let lanes' = lanes[argmin lanes := now + flows * fs_issue_ticks_per_flow split] in
            Inr (s\<lparr>q_flow_counts := counter_add (q_flow_counts s) flows 1,
                   q_split_free := AList.update (vector_memory_access_kind u) lanes' (q_split_free s)\<rparr>))))"

section \<open>The vector-epoch plan\<close>

text \<open>\<open>_computed_store_ancestor_parents\<close>: the search through the body of an epoch; \<open>pop()\<close> takes the last.\<close>

function ancestor_parents :: "(string, execution_uop) dict \<Rightarrow> string list \<Rightarrow> string list \<Rightarrow> string list
    \<Rightarrow> string list \<Rightarrow> string list \<Rightarrow> string list \<Rightarrow> string list \<Rightarrow> (string list \<times> string list) qresult" where
  "ancestor_parents uops body memory_parents load_parents pending visited compute loads =
     (if pending = [] then Inr (compute, loads)
      else let i = last pending; rest = butlast pending in
        if i \<in> set visited \<or> i \<notin> set body
        then ancestor_parents uops body memory_parents load_parents rest visited compute loads
        else (case map_of uops i of None \<Rightarrow> Inl (XKeyError i)
          | Some u \<Rightarrow>
              let p = u_parent_id u;
                  loads' = (if p \<in> set load_parents then insert_id p loads else loads);
                  compute' = (if p \<notin> set load_parents \<and> p \<notin> set memory_parents \<and> u_kind u \<in> set VECTOR_COMPUTE_KINDS
                    then insert_id p compute else compute) in
              ancestor_parents uops body memory_parents load_parents (rest @ u_dependencies u) (i # visited)
                compute' loads'))"
  by pat_completeness auto
termination
proof (relation "measures [\<lambda>(u, b, m, l, p, v, c, r). length (filter (\<lambda>k. k \<notin> set v) b),
    \<lambda>(u, b, m, l, p, v, c, r). length p]", goal_cases)
  case (3 uops body mp lp pending visited compute loads i rest u p loads' compute')
  have "length (filter (\<lambda>k. k \<notin> set (i # visited)) body) < length (filter (\<lambda>k. k \<notin> set visited) body)"
    using 3 remaining_decreases [of i body visited] by simp
  then show ?case by simp
qed (auto simp: length_butlast)

declare ancestor_parents.simps [simp del]

text \<open>The first uop with the largest sequence number, and the last vector computation from it on.\<close>

definition reduction_terminal :: "execution_uop list \<Rightarrow> execution_uop list \<Rightarrow> execution_uop qresult" where
  "reduction_terminal body reductions =
     (if reductions = [] then Inl XValueError
      else
        let last_reduction = reductions ! argmin (map (\<lambda>u. - u_sequence u) reductions);
            trailing = filter (\<lambda>u. u_sequence u \<ge> u_sequence last_reduction \<and> u_kind u \<in> set VECTOR_COMPUTE_KINDS) body in
        Inr (if trailing \<noteq> [] then last trailing else last_reduction))"

text \<open>The first config uop of every config instruction, in order.\<close>

fun config_uops :: "(string, string) dict \<Rightarrow> execution_uop list \<Rightarrow> execution_uop option \<Rightarrow> execution_uop list" where
  "config_uops kinds [] previous = []"
| "config_uops kinds (u # us) previous =
     (if \<not> is_vector_config kinds u then config_uops kinds us previous
      else if (case previous of None \<Rightarrow> False | Some c \<Rightarrow> u_parent_id c = u_parent_id u)
      then config_uops kinds us previous
      else u # config_uops kinds us (Some u))"

text \<open>How the epoch opened by \<open>config\<close> over \<open>body\<close> closes: the closing uop and its offset.\<close>

definition classify_epoch :: "epoch_policy \<Rightarrow> (string, string) dict \<Rightarrow> (string, execution_uop) dict \<Rightarrow> string list
    \<Rightarrow> execution_uop \<Rightarrow> execution_uop list \<Rightarrow> epoch_plan \<Rightarrow> (epoch_plan \<times> (execution_uop \<times> int) option) qresult" where
  "classify_epoch policy kinds uops memory_parents config body plan =
     (let loads = filter (\<lambda>u. is_vector_memory kinds u \<and> u_kind u = ''load_data'') body;
          reductions = filter (is_reduction kinds) body in
      rbind (rmap (\<lambda>u. rbind (is_computed_store kinds uops u) (\<lambda>b. Inr (b, u))) body) (\<lambda>marked.
      let computed_stores = map snd (filter fst marked) in
      if computed_stores \<noteq> [] \<and> reductions \<noteq> []
      then rbind (reduction_terminal body reductions) (\<lambda>terminal.
        Inr (plan\<lparr>pl_mixed_terminal := AList.update (u_id config) (u_id terminal) (pl_mixed_terminal plan)\<rparr>, None))
      else if computed_stores \<noteq> []
      then
        let close = last computed_stores in
        rbind (ancestor_parents uops (map u_id body) memory_parents (map u_parent_id loads)
            (u_dependencies close) [] [] []) (\<lambda>(compute, load_ancestors).
        Inr (plan, Some (close,
          if 2 \<le> length load_ancestors then ep_multi_load_drain_ticks policy
          else if 2 \<le> length compute then ep_chained_compute_drain_ticks policy else 0)))
      else if reductions \<noteq> []
      then rbind (reduction_terminal body reductions) (\<lambda>close.
        Inr (plan, Some (close, if 2 \<le> length (remdups (map u_parent_id reductions))
          then - ep_parallel_reduction_overlap_ticks policy else 0)))
      else if loads \<noteq> []
      then Inr (plan\<lparr>pl_load_visibility := fold insert_id (map u_id loads) (pl_load_visibility plan)\<rparr>,
        Some (last loads, 0))
      else Inr (plan, None)))"

fun plan_epochs :: "epoch_policy \<Rightarrow> (string, string) dict \<Rightarrow> (string, execution_uop) dict \<Rightarrow> string list
    \<Rightarrow> execution_uop list \<Rightarrow> execution_uop list \<Rightarrow> epoch_plan \<Rightarrow> epoch_plan qresult" where
  "plan_epochs policy kinds uops memory_parents ordered [] plan = Inr plan"
| "plan_epochs policy kinds uops memory_parents ordered (config # rest) plan =
     (let after = tl (dropWhile (\<lambda>u. u_id u \<noteq> u_id config) ordered);
          body = (case rest of [] \<Rightarrow> after | next_config # _ \<Rightarrow> takeWhile (\<lambda>u. u_id u \<noteq> u_id next_config) after) in
      rbind (classify_epoch policy kinds uops memory_parents config body plan) (\<lambda>(plan1, close).
      let plan2 = (case (close, rest) of
            (Some (u, offset), next_config # _) \<Rightarrow>
              plan1\<lparr>pl_close := AList.update (u_id next_config) (u_id u, offset) (pl_close plan1)\<rparr>
          | _ \<Rightarrow> plan1) in
      plan_epochs policy kinds uops memory_parents ordered rest plan2))"

definition empty_plan :: epoch_plan where
  "empty_plan = \<lparr>pl_close = [], pl_load_visibility = [], pl_mixed_terminal = []\<rparr>"

definition build_epoch_plan :: "epoch_policy \<Rightarrow> (string, string) dict \<Rightarrow> (string, execution_uop) dict \<Rightarrow> epoch_plan qresult" where
  "build_epoch_plan policy kinds uops =
     (if \<not> ep_enabled policy then Inr empty_plan
      else
        let ordered = sort_key u_sequence (map snd uops);
            memory_parents = map u_parent_id (filter (is_vector_memory kinds) ordered) in
        plan_epochs policy kinds uops memory_parents ordered (config_uops kinds ordered None) empty_plan)"

end
