(* ===== verification/ProfileData.thy ===== *)
theory ProfileData
  imports XsaiState
begin

text \<open>
  The processor profile (\<open>src/simulator/profile.py\<close>): its records, the numeric parameters with
  their \<open>measure\<close> placeholder, the normalized policies the engines read and the tick unit.

  A profile is loaded through \<open>schemas/profile.schema.json\<close>, so a parameter is a finite number or
  the word \<open>measure\<close>, and the records have the fields the schema requires; an optional field is an
  option, an optional mapping or list that is empty by default is empty.
\<close>

section \<open>Parameters\<close>

datatype parameter = Measure | Whole int | Decimal int nat

text \<open>\<open>Decimal m k\<close> is \<open>m\<close> times ten to \<open>-k\<close>, the number \<open>Fraction(str(value))\<close> reads.\<close>

datatype profile_error =
    MeasurementRequired string
  | NotACycleCount string
  | NonIntegerCycles parameter
  | NotImplementedModel string
  | MissingRecipe string
  | MissingFallback string string
  | MissingResource string
  | UnsupportedBasis string
  | StructuredRuleRequired string
  | UnsupportedRule string string
  | NoPrepUop "string list"
  | InvalidVectorLmul string
  | NarrowParts
  | EmptyPart int int
  | UnknownProducer string
  | SemanticFailure semantic_error
  | WrongTraceVersion
  | PKeyError string
  | PTypeError
  | PZeroDivision
  | InvalidIsa
  | DuplicatePartitionIds
  | UnitListedTwice string
  | MissingListedUnit string
  | UnitDisagrees string string
  | UnlistedUnits "string list"
  | MissingPartition string string
  | MissingFunctional string "string list"
  | DuplicatePort string string
  | PortOverbooked string
  | MissingPortUnits string "string list"
  | MissingUnitReadDomain string string
  | MissingUnitWriteDomain string string
  | SchedulerSumDiffers
  | UnalignedRegisterWidth
  | UnsupportedIssueOrder string
  | EmptyServiceMap string
  | InvalidServiceValue string string
  | InvalidMemoryPolicy string
  | IncompleteFlowSplit "string list"
  | EpochsNeedXsai
  | InvalidEpochField string
  | InvalidDomainCapacity string
  | EmptyFreeLists
  | UnsupportedRenamePolicy string
  | InvalidRenameField string
  | InvalidDependencyPolicy string
  | UnknownExecutionKinds string "string list"
  | ImplicitOutsideWait "string list"
  | DuplicateSourceIds
  | MissingSources "string list"
  | UnknownOverlapKinds "string list"
  | UnlistedDemand string string "string list"
  | MissingDomain string
  | InvalidDemand string string string
  | DemandOverCapacity string string string
  | DuplicateRecipeDomains string

type_synonym 'a presult = "profile_error + 'a"

definition parameter_int :: "parameter \<Rightarrow> string \<Rightarrow> int presult" where
  "parameter_int v path =
     (case v of Measure \<Rightarrow> Inl (MeasurementRequired path)
      | Whole n \<Rightarrow> Inr n
      | Decimal m k \<Rightarrow> Inr (sgn m * (\<bar>m\<bar> div 10 ^ k)))"

definition cycle_ticks :: "int \<Rightarrow> parameter \<Rightarrow> int presult" where
  "cycle_ticks tpc v =
     (case v of Measure \<Rightarrow> Inl (NonIntegerCycles v)
      | Whole n \<Rightarrow> Inr (n * tpc)
      | Decimal m k \<Rightarrow> if (m * tpc) mod 10 ^ k \<noteq> 0 then Inl (NonIntegerCycles v) else Inr ((m * tpc) div 10 ^ k))"

definition parameter_ticks :: "int \<Rightarrow> parameter \<Rightarrow> string \<Rightarrow> int presult" where
  "parameter_ticks tpc v path =
     (if v = Measure then Inl (MeasurementRequired path)
      else case cycle_ticks tpc v of Inl _ \<Rightarrow> Inl (NotACycleCount path) | Inr t \<Rightarrow> Inr t)"

definition is_whole :: "parameter \<Rightarrow> bool" where
  "is_whole v = (case v of Whole _ \<Rightarrow> True | _ \<Rightarrow> False)"

section \<open>Records\<close>

record recipe_uop =
  ru_id :: string
  ru_kind :: string
  ru_latency_cycles :: parameter
  ru_issue_interval_cycles :: parameter
  ru_occupancy_cycles :: parameter
  ru_resource_choices :: "string list"
  ru_issue_domains :: "string list"
  ru_issue_domain_demands :: "(string, int) dict"
  ru_rename_allocations :: "(string, parameter) dict"
  ru_depends_on :: "string list"
  ru_part_index :: "int option"
  ru_profile_path :: "string option"
  ru_external_registers :: "string list option"

record static_parts =
  sp_parts :: parameter
  sp_issue_gap_cycles :: parameter
  sp_scale_interval :: bool

record recipe =
  rc_decoded_macro_ops :: parameter
  rc_retire_macro_ops :: parameter
  rc_dispatch_domains :: "string list"
  rc_dispatch_domain_demands :: "(string, int) dict"
  rc_decomposition :: "static_parts option"
  rc_rename_allocations :: "(string, parameter) dict"
  rc_uops :: "recipe_uop list"

record resource_entry =
  re_capacity :: parameter
  re_bytes_per_cycle :: "parameter option"

record fit_uop =
  fu_latency_cycles :: parameter
  fu_issue_interval_cycles :: parameter
  fu_occupancy_cycles :: parameter
  fu_resource_choices :: "string list"

record scalar_fit =
  sf_enabled :: bool
  sf_resources :: "(string, resource_entry) dict"
  sf_uops :: "(string, fit_uop) dict"
  sf_evidence :: "string list"

datatype part_rule = PartCount int | PartRule string

datatype decomposition_rule = PlainRule part_rule | PrepRule part_rule "(string, recipe_uop) dict"

record decomposition =
  dc_register_width_bits :: parameter
  dc_rules :: "(string, decomposition_rule) dict"

record domain_entry =
  de_capacity :: parameter
  de_evidence :: "string list"

record partition_entry =
  pt_id :: string
  pt_kind :: string
  pt_entries :: parameter
  pt_enqueue_width :: parameter
  pt_execution_units :: "string list"

record port_domain =
  pd_port_count :: parameter
  pd_arbitration_capacity :: parameter
  pd_execution_units :: "string list"

record register_file_entry =
  rg_read_domains :: "(string, port_domain) dict"
  rg_writeback_domains :: "(string, port_domain) dict"

record vector_memory_config =
  vc_load_pipelines :: "parameter option"
  vc_store_pipelines :: "parameter option"
  vc_max_unit_stride_flows :: "parameter option"
  vc_issue_order :: "string option"
  vc_service_capacity :: "(string, parameter) dict option"
  vc_store_completion_cycles :: "parameter option"
  vc_service_cycles :: "(string, parameter) dict option"
  vc_boundary_bytes :: "parameter option"
  vc_issue_cycles_per_flow :: "parameter option"
  vc_evidence :: "string list"

record epoch_config =
  ec_enabled :: bool
  ec_load_only_visibility_cycles :: parameter
  ec_multi_load_drain_cycles :: parameter
  ec_chained_compute_drain_cycles :: parameter
  ec_parallel_reduction_overlap_cycles :: parameter
  ec_mixed_store_reduction_capacity :: parameter
  ec_evidence :: "string list"

record rename_config =
  ra_enabled :: bool
  ra_free_lists :: "(string, parameter) dict"
  ra_allocation_width :: parameter
  ra_release_width :: parameter
  ra_release_delay_cycles :: parameter
  ra_availability_delay_cycles :: parameter
  ra_guard_entries :: parameter
  ra_policy :: string
  ra_evidence :: "string list"

record state_dependency =
  st_registers :: "string list"
  st_wait_kinds :: "string list"

record old_dependency =
  od_mode :: string
  od_wait_kinds :: "string list"
  od_implicit_kinds :: "string list"

record dependency_config =
  dp_evidence :: "string list"
  dp_state :: "state_dependency option"
  dp_old :: "old_dependency option"

record backend =
  be_execution_model :: string
  be_accounting :: "(string, string) dict"
  be_dispatch_domains :: "(string, domain_entry) dict"
  be_partitions :: "partition_entry list"
  be_units :: "(string, execution_unit) dict"
  be_register_files :: "register_file_entry list"
  be_vector_memory :: vector_memory_config
  be_rename :: "rename_config option"
  be_dependency :: "dependency_config option"
  be_epochs :: "epoch_config option"
  be_decomposition :: "decomposition option"

record bandwidth_entry =
  bw_latency_cycles :: parameter
  bw_read_bytes_per_cycle :: parameter
  bw_write_bytes_per_cycle :: parameter

record overlap_limit =
  ol_enabled :: bool
  ol_max_pending_groups :: int
  ol_compute_kinds :: "string list"

record profile =
  pf_id :: string
  pf_digest :: string
  pf_data :: json
  pf_max_vector_bits :: int
  pf_vector_length_bits :: "int option"
  pf_pipeline :: "(string, parameter) dict"
  pf_resources :: "(string, resource_entry) dict"
  pf_issue_domains :: "(string, domain_entry) dict"
  pf_backend :: "backend option"
  pf_overlap :: "overlap_limit option"
  pf_recipes :: "(string, recipe) dict"
  pf_fit :: "scalar_fit option"
  pf_line_bytes :: int
  pf_levels :: "(string, bandwidth_entry) dict"
  pf_dram :: bandwidth_entry
  pf_sources :: "string list"
  pf_evidence :: "string list list"
  pf_ticks_per_cycle :: int
  pf_unresolved :: "string list"

section \<open>Defaults\<close>

definition default_vector_memory :: vector_memory_config where
  "default_vector_memory =
     \<lparr>vc_load_pipelines = None, vc_store_pipelines = None, vc_max_unit_stride_flows = None, vc_issue_order = None,
      vc_service_capacity = None, vc_store_completion_cycles = None, vc_service_cycles = None,
      vc_boundary_bytes = None, vc_issue_cycles_per_flow = None, vc_evidence = []\<rparr>"

definition backend_of :: "profile \<Rightarrow> backend" where
  "backend_of p = (case pf_backend p of Some b \<Rightarrow> b | None \<Rightarrow>
     \<lparr>be_execution_model = ''zen4'', be_accounting = [], be_dispatch_domains = [], be_partitions = [], be_units = [],
      be_register_files = [], be_vector_memory = default_vector_memory, be_rename = None, be_dependency = None,
      be_epochs = None, be_decomposition = None\<rparr>)"

definition overlap_of :: "profile \<Rightarrow> overlap_limit" where
  "overlap_of p = (case pf_overlap p of Some l \<Rightarrow> l
     | None \<Rightarrow> \<lparr>ol_enabled = False, ol_max_pending_groups = 1, ol_compute_kinds = []\<rparr>)"

section \<open>The tick unit\<close>

text \<open>\<open>Fraction(str(value)).denominator\<close> for every number of the profile.\<close>

fun json_denominators :: "json \<Rightarrow> int list" where
  "json_denominators (JInt n) = [1]"
| "json_denominators (JFloat m k) = [10 ^ k div gcd m (10 ^ k)]"
| "json_denominators (JList xs) = concat (map json_denominators xs)"
| "json_denominators (JObj fs) = concat (map (\<lambda>f. json_denominators (snd f)) fs)"
| "json_denominators _ = []"

text \<open>The denominator of \<open>Fraction(width, 1) / Fraction(str(bytes_per_cycle))\<close>.\<close>

definition transfer_denominator :: "parameter \<Rightarrow> int \<Rightarrow> int presult" where
  "transfer_denominator v width =
     (case v of Measure \<Rightarrow> Inr 1
      | Whole n \<Rightarrow> if n = 0 then Inl PZeroDivision else Inr (\<bar>n\<bar> div gcd width n)
      | Decimal m k \<Rightarrow> if m = 0 then Inl PZeroDivision else Inr (\<bar>m\<bar> div gcd (width * 10 ^ k) m))"

definition bandwidths :: "profile \<Rightarrow> parameter list" where
  "bandwidths p =
     List.map_filter (\<lambda>(_, r). re_bytes_per_cycle r) (pf_resources p) @
     concat (map (\<lambda>l. [bw_read_bytes_per_cycle l, bw_write_bytes_per_cycle l]) (map snd (pf_levels p) @ [pf_dram p]))"

definition compute_ticks_per_cycle :: "profile \<Rightarrow> int presult" where
  "compute_ticks_per_cycle p =
     rbind (rmap (\<lambda>(v, width). transfer_denominator v width)
       (concat (map (\<lambda>v. map (Pair v) [4, 16, 32, 64]) (bandwidths p)))) (\<lambda>transfers.
     Inr (fold lcm (json_denominators (pf_data p) @ transfers) 1))"

text \<open>The dotted paths of the parameters that still are \<open>measure\<close>.\<close>

fun unresolved_at :: "string list \<Rightarrow> json \<Rightarrow> string list"
  and unresolved_items :: "string list \<Rightarrow> nat \<Rightarrow> json list \<Rightarrow> string list" where
  "unresolved_at path (JStr s) = (if s = ''measure'' then [join ''.'' path] else [])"
| "unresolved_at path (JObj fs) = concat (map (\<lambda>f. unresolved_at (path @ [fst f]) (snd f)) fs)"
| "unresolved_at path (JList xs) = unresolved_items path 0 xs"
| "unresolved_at path _ = []"
| "unresolved_items path i [] = []"
| "unresolved_items path i (x # xs) = unresolved_at (path @ [show_nat i]) x @ unresolved_items path (Suc i) xs"

definition unresolved_parameters :: "json \<Rightarrow> string list" where
  "unresolved_parameters data = unresolved_at [] data"

section \<open>Normalized policies\<close>

definition known_values :: "(string, parameter) dict \<Rightarrow> (string, parameter) dict" where
  "known_values d = filter (\<lambda>(_, v). v \<noteq> Measure) d"

definition optional_parameter :: "parameter option \<Rightarrow> parameter \<Rightarrow> parameter" where
  "optional_parameter v otherwise = (case v of None \<Rightarrow> otherwise | Some x \<Rightarrow> x)"

text \<open>A mapping of parameters: the known values are converted, then the first \<open>measure\<close> raises.\<close>

definition convert_values :: "(parameter \<Rightarrow> int presult) \<Rightarrow> string \<Rightarrow> (string, parameter) dict \<Rightarrow> (string, int) dict presult" where
  "convert_values f path d =
     rbind (rmap (\<lambda>(kind, v). rbind (f v) (\<lambda>n. Inr (kind, n))) (known_values d)) (\<lambda>result.
     rbind (rall (\<lambda>(kind, v). rguard (v \<noteq> Measure) (MeasurementRequired (path @ ''.'' @ kind))) d) (\<lambda>_.
     Inr result))"

definition flow_split_of :: "int \<Rightarrow> vector_memory_config \<Rightarrow> flow_split option presult" where
  "flow_split_of tpc c =
     (if vc_boundary_bytes c = None \<and> vc_issue_cycles_per_flow c = None then Inr None
      else case (vc_boundary_bytes c, vc_issue_cycles_per_flow c) of
        (Some boundary, Some cycles) \<Rightarrow>
          rbind (rguard (boundary \<noteq> Measure) (MeasurementRequired ''backend.vector_memory.boundary_bytes'')) (\<lambda>_.
          rbind (rguard (cycles \<noteq> Measure) (MeasurementRequired ''backend.vector_memory.issue_cycles_per_flow'')) (\<lambda>_.
          rbind (parameter_int boundary ''backend.vector_memory.boundary_bytes'') (\<lambda>boundary_bytes.
          rbind (parameter_int (optional_parameter (vc_max_unit_stride_flows c) (Whole 1))
            ''backend.vector_memory.max_unit_stride_flows'') (\<lambda>flows.
          rbind (cycle_ticks tpc cycles) (\<lambda>ticks.
          Inr (Some \<lparr>fs_boundary_bytes = boundary_bytes, fs_max_flows_per_access = flows,
            fs_issue_ticks_per_flow = ticks\<rparr>))))))
      | (Some Measure, None) \<Rightarrow> Inl (MeasurementRequired ''backend.vector_memory.boundary_bytes'')
      | (None, _) \<Rightarrow> Inl (PKeyError ''boundary_bytes'')
      | (_, None) \<Rightarrow> Inl (PKeyError ''issue_cycles_per_flow''))"

definition vector_memory_policy_of :: "profile \<Rightarrow> vector_memory_policy presult" where
  "vector_memory_policy_of p =
     (let c = be_vector_memory (backend_of p); tpc = pf_ticks_per_cycle p;
          completion = optional_parameter (vc_store_completion_cycles c) (Whole 0) in
      rbind (rguard (completion \<noteq> Measure) (MeasurementRequired ''backend.vector_memory.store_completion_cycles'')) (\<lambda>_.
      rbind (cycle_ticks tpc completion) (\<lambda>completion_ticks.
      rbind (parameter_int (optional_parameter (vc_load_pipelines c) (Whole 1)) ''backend.vector_memory.load_pipelines'') (\<lambda>loads.
      rbind (parameter_int (optional_parameter (vc_store_pipelines c) (Whole 1)) ''backend.vector_memory.store_pipelines'') (\<lambda>stores.
      rbind (case vc_service_capacity c of None \<Rightarrow> Inr []
        | Some d \<Rightarrow> convert_values (\<lambda>v. parameter_int v ''service_capacity'') ''backend.vector_memory.service_capacity'' d) (\<lambda>capacity.
      rbind (case vc_service_cycles c of None \<Rightarrow> Inr None
        | Some d \<Rightarrow> rbind (convert_values (cycle_ticks tpc) ''backend.vector_memory.service_cycles'' d) (\<lambda>x. Inr (Some x))) (\<lambda>service.
      rbind (flow_split_of tpc c) (\<lambda>split.
      Inr \<lparr>vm_issue_order = (case vc_issue_order c of None \<Rightarrow> ''any'' | Some order \<Rightarrow> order),
           vm_store_completion_ticks = completion_ticks, vm_split_lanes = [(''load'', loads), (''store'', stores)],
           vm_service_capacity = capacity, vm_service_ticks = service, vm_flow_split = split\<rparr>))))))))"

definition epoch_ticks :: "profile \<Rightarrow> string \<Rightarrow> parameter \<Rightarrow> int presult" where
  "epoch_ticks p field v =
     rbind (rguard (v \<noteq> Measure) (MeasurementRequired (''backend.xsai_rvv.vector_epochs.'' @ field))) (\<lambda>_.
     cycle_ticks (pf_ticks_per_cycle p) v)"

definition epoch_policy_of :: "profile \<Rightarrow> epoch_policy presult" where
  "epoch_policy_of p =
     (case be_epochs (backend_of p) of
        None \<Rightarrow> Inr \<lparr>ep_enabled = False, ep_load_only_visibility_ticks = 0, ep_multi_load_drain_ticks = 0,
          ep_chained_compute_drain_ticks = 0, ep_parallel_reduction_overlap_ticks = 0,
          ep_mixed_store_reduction_capacity = 0\<rparr>
      | Some c \<Rightarrow>
          rbind (epoch_ticks p ''load_only_visibility_cycles'' (ec_load_only_visibility_cycles c)) (\<lambda>visibility.
          rbind (epoch_ticks p ''multi_load_drain_cycles'' (ec_multi_load_drain_cycles c)) (\<lambda>drain.
          rbind (epoch_ticks p ''chained_compute_drain_cycles'' (ec_chained_compute_drain_cycles c)) (\<lambda>chained.
          rbind (epoch_ticks p ''parallel_reduction_overlap_cycles'' (ec_parallel_reduction_overlap_cycles c)) (\<lambda>overlap.
          rbind (parameter_int (ec_mixed_store_reduction_capacity c)
            ''backend.xsai_rvv.vector_epochs.mixed_store_reduction_capacity'') (\<lambda>capacity.
          Inr \<lparr>ep_enabled = ec_enabled c, ep_load_only_visibility_ticks = visibility, ep_multi_load_drain_ticks = drain,
            ep_chained_compute_drain_ticks = chained, ep_parallel_reduction_overlap_ticks = overlap,
            ep_mixed_store_reduction_capacity = capacity\<rparr>))))))"

definition no_rename :: rename_policy where
  "no_rename = \<lparr>rn_enabled = False, rn_free_lists = [], rn_allocation_width = 0, rn_release_width = 0,
     rn_release_delay_ticks = 0, rn_availability_delay_ticks = 0, rn_guard_entries = 0\<rparr>"

definition rename_policy_of :: "profile \<Rightarrow> rename_policy presult" where
  "rename_policy_of p =
     (case be_rename (backend_of p) of
        None \<Rightarrow> Inr no_rename
      | Some c \<Rightarrow>
          if \<not> ra_enabled c then Inr no_rename
          else
            rbind (rmap (\<lambda>(name, v). rbind (parameter_int v (''backend.rename.free_lists.'' @ name @ ''.free_entries''))
              (\<lambda>n. Inr (name, n))) (ra_free_lists c)) (\<lambda>lists.
            rbind (parameter_int (ra_allocation_width c) ''backend.rename.allocation_width'') (\<lambda>allocation.
            rbind (parameter_int (ra_release_width c) ''backend.rename.release_width'') (\<lambda>release.
            rbind (parameter_ticks (pf_ticks_per_cycle p) (ra_release_delay_cycles c)
              ''backend.rename.release_delay_cycles'') (\<lambda>delay.
            rbind (parameter_ticks (pf_ticks_per_cycle p) (ra_availability_delay_cycles c)
              ''backend.rename.availability_delay_cycles'') (\<lambda>available.
            rbind (parameter_int (ra_guard_entries c) ''backend.rename.guard_entries'') (\<lambda>guard.
            Inr \<lparr>rn_enabled = True, rn_free_lists = lists, rn_allocation_width = allocation, rn_release_width = release,
              rn_release_delay_ticks = delay, rn_availability_delay_ticks = available, rn_guard_entries = guard\<rparr>)))))))"

text \<open>The vector dependency policy with its defaults: no registers, no kinds, mode \<open>disabled\<close>.\<close>

record dependency_policy =
  dq_registers :: "string list"
  dq_state_wait_kinds :: "string list"
  dq_old_mode :: string
  dq_old_wait_kinds :: "string list"
  dq_old_implicit_kinds :: "string list"

definition dependency_policy_of :: "profile \<Rightarrow> dependency_policy" where
  "dependency_policy_of p =
     (let state = Option.bind (be_dependency (backend_of p)) dp_state;
          old = Option.bind (be_dependency (backend_of p)) dp_old in
      \<lparr>dq_registers = (case state of None \<Rightarrow> [] | Some s \<Rightarrow> st_registers s),
       dq_state_wait_kinds = (case state of None \<Rightarrow> [] | Some s \<Rightarrow> st_wait_kinds s),
       dq_old_mode = (case old of None \<Rightarrow> ''disabled'' | Some o' \<Rightarrow> od_mode o'),
       dq_old_wait_kinds = (case old of None \<Rightarrow> [] | Some o' \<Rightarrow> od_wait_kinds o'),
       dq_old_implicit_kinds = (case old of None \<Rightarrow> [] | Some o' \<Rightarrow> od_implicit_kinds o')\<rparr>)"

section \<open>Readiness\<close>

definition IMPLEMENTED_MODELS :: "string list" where
  "IMPLEMENTED_MODELS = [''zen4'', ''xsai-rvv'', ''generic-token'']"

definition simulation_ready :: "profile \<Rightarrow> bool" where
  "simulation_ready p \<longleftrightarrow> be_execution_model (backend_of p) \<in> set IMPLEMENTED_MODELS"

definition require_simulation_ready :: "profile \<Rightarrow> unit presult" where
  "require_simulation_ready p =
     rguard (simulation_ready p) (NotImplementedModel (be_execution_model (backend_of p)))"

definition l1_latency_ticks :: "profile \<Rightarrow> int presult" where
  "l1_latency_ticks p =
     rbind (fetch PKeyError (pf_levels p) ''l1d'') (\<lambda>level.
     parameter_ticks (pf_ticks_per_cycle p) (bw_latency_cycles level) ''memory.levels.l1d.latency_cycles'')"

definition require_l1_access_parameters :: "profile \<Rightarrow> string \<Rightarrow> unit presult" where
  "require_l1_access_parameters p kind =
     rbind (fetch PKeyError (pf_levels p) ''l1d'') (\<lambda>level.
     rbind (l1_latency_ticks p) (\<lambda>_.
     let (key, v) = (if kind = ''store'' then (''write_bytes_per_cycle'', bw_write_bytes_per_cycle level)
           else (''read_bytes_per_cycle'', bw_read_bytes_per_cycle level)) in
     rbind (parameter_int v (''memory.levels.l1d.'' @ key)) (\<lambda>_. Inr ())))"

end
