(* ===== verification/BindText.thy ===== *)
theory BindText
  imports ProfileData PyText
begin

text \<open>
  How the binder reads an instruction (\<open>src/simulator/profile.py\<close>): operand classes, the keys of its
  recipe, its decomposition class, the number of vector parts and the pieces of a memory access.
\<close>

section \<open>Operands\<close>

definition has_substring :: "string \<Rightarrow> string \<Rightarrow> bool" where
  "has_substring pat s \<longleftrightarrow> (\<exists>n\<in>set [0..<Suc (length s)]. startswith (drop n s) pat)"

text \<open>The prefix followed by one of the numbers from zero to the bound, without leading zeros.\<close>

definition numbered :: "string \<Rightarrow> nat \<Rightarrow> string list" where
  "numbered prefix bound = map (\<lambda>n. prefix @ show_nat n) [0..<Suc bound]"

definition is_hex_lower :: "char \<Rightarrow> bool" where
  "is_hex_lower c \<longleftrightarrow> is_digit c \<or> c \<in> set ''abcdef''"

definition is_number_text :: "string \<Rightarrow> bool" where
  "is_number_text token \<longleftrightarrow>
     (let body = (case token of c # rest \<Rightarrow> if c = CHR ''-'' \<or> c = CHR ''+'' then rest else token | [] \<Rightarrow> []) in
      (startswith body ''0x'' \<and> drop 2 body \<noteq> [] \<and> list_all is_hex_lower (drop 2 body)) \<or>
      (body \<noteq> [] \<and> list_all is_digit body))"

definition FP_REGISTERS :: "string list" where
  "FP_REGISTERS = numbered ''ft'' 11 @ numbered ''fs'' 11 @ numbered ''fa'' 7"

definition INTEGER_REGISTERS :: "string list" where
  "INTEGER_REGISTERS = [''zero'', ''ra'', ''sp'', ''gp'', ''tp''] @ numbered ''t'' 6 @ numbered ''s'' 11 @ numbered ''a'' 7"

definition operand_class :: "string \<Rightarrow> string" where
  "operand_class operand =
     (let token = lower (strip operand) in
      if has_substring ''%zmm'' token then ''zmm''
      else if has_substring ''%ymm'' token then ''ymm''
      else if has_substring ''%xmm'' token then ''xmm''
      else if CHR ''('' \<in> set token \<or> CHR ''['' \<in> set token then ''memory''
      else if startswith token ''$'' \<or> is_number_text token then ''immediate''
      else if token \<in> set (numbered ''v'' 31) then ''vector''
      else if token \<in> set FP_REGISTERS then ''fp_register''
      else if token \<in> set INTEGER_REGISTERS then ''register''
      else if CHR ''%'' \<in> set token then ''register''
      else ''other'')"

definition is_vector_register :: "string \<Rightarrow> bool" where
  "is_vector_register register \<longleftrightarrow>
     (let token = dropWhile (\<lambda>c. c = CHR ''%'') (lower (strip register)) in
      token \<in> set (numbered ''v'' 31) \<or>
      (take 3 token \<in> {''xmm'', ''ymm'', ''zmm''} \<and> drop 3 token \<noteq> [] \<and> list_all is_digit (drop 3 token)))"

section \<open>Recipe keys\<close>

text \<open>
  Optional keys of a dynamic instruction that steer the binder and that the frontends leave out.
\<close>

record bind_hints =
  bh_profile_recipe :: "string option"
  bh_writes_vector_result :: "bool option"
  bh_decomposition_class :: "string option"
  bh_source_class :: "string option"
  bh_source_operand :: "string option"

definition no_hints :: bind_hints where
  "no_hints = \<lparr>bh_profile_recipe = None, bh_writes_vector_result = None, bh_decomposition_class = None,
     bh_source_class = None, bh_source_operand = None\<rparr>"

definition recipe_key :: "instruction \<Rightarrow> string" where
  "recipe_key i = i_mnemonic i @ '':'' @ join '','' (map operand_class (i_operands i))"

definition recipe_keys :: "instruction \<Rightarrow> bind_hints \<Rightarrow> string list" where
  "recipe_keys i h =
     ordered_unique ((case truthy (bh_profile_recipe h) of None \<Rightarrow> [] | Some k \<Rightarrow> [k]) @ [recipe_key i] @
       (if i_form i = '''' then [] else [i_mnemonic i @ '':'' @ i_form i]))"

section \<open>Vector parts\<close>

definition profile_lmul_parts :: "string option \<Rightarrow> int presult" where
  "profile_lmul_parts v =
     (let token = (case truthy v of None \<Rightarrow> ''m1'' | Some t \<Rightarrow> t) in
      if startswith token ''m'' \<and> tl token \<noteq> [] \<and> list_all is_digit (tl token)
      then Inr (max 1 (case parse_digits 10 (tl token) of None \<Rightarrow> 0 | Some n \<Rightarrow> int n))
      else if startswith token ''mf'' \<and> drop 2 token \<noteq> [] \<and> list_all is_digit (drop 2 token) then Inr 1
      else Inl (InvalidVectorLmul token))"

definition instruction_kinds :: "instruction \<Rightarrow> string list" where
  "instruction_kinds i = map s_kind (i_semantic_uops i)"

definition vector_decomposition_class :: "instruction \<Rightarrow> string option" where
  "vector_decomposition_class i =
     (let kinds = instruction_kinds i in
      if i_memory i \<noteq> None \<and> (\<exists>k\<in>set kinds. k \<in> {''address_generation'', ''vector_load'', ''vector_store''})
      then Some ''vector-memory''
      else if ''vector_config'' \<in> set kinds then Some ''vector-config''
      else if \<exists>k\<in>set kinds. startswith k ''vector_reduce_'' then Some ''vector-reduction''
      else if \<not> (\<exists>k\<in>set kinds. startswith k ''vector_'') then None
      else if \<exists>x\<in>set (tl (i_operands i)). operand_class x \<in> {''fp_register'', ''register'', ''immediate''}
      then Some ''vector-scalar'' else Some ''vector-vector'')"

text \<open>\<open>math.ceil(a / b)\<close> of integers far below the precision of a float.\<close>

definition ceil_div :: "int \<Rightarrow> int \<Rightarrow> int" where
  "ceil_div a b = - ((- a) div b)"

definition vector_part_count :: "part_rule \<Rightarrow> instruction \<Rightarrow> vector_state \<Rightarrow> int \<Rightarrow> string \<Rightarrow> string \<Rightarrow> int presult" where
  "vector_part_count rule i state width category path =
     (case rule of
        PartCount n \<Rightarrow> Inr n
      | PartRule r \<Rightarrow>
          if r = ''lmul'' then profile_lmul_parts (vs_lmul state)
          else if r = ''lmul-plus-one'' then Inl (StructuredRuleRequired category)
          else if r = ''dynamic'' then
            let active = (case i_memory i of Some m \<Rightarrow> mr_bytes m * 8
                  | None \<Rightarrow> (case i_active_vector_bits i of None \<Rightarrow> width | Some n \<Rightarrow> n)) in
            rbind (rguard (width \<noteq> 0) PZeroDivision) (\<lambda>_. Inr (max 1 (ceil_div active width)))
          else if r = ''measure'' then Inl (MeasurementRequired path)
          else Inl (UnsupportedRule category r))"

text \<open>The candidate sources of a vector-scalar instruction: their class and operand.\<close>

definition prep_sources :: "instruction \<Rightarrow> bind_hints \<Rightarrow> (string \<times> string option) list" where
  "prep_sources i h =
     (case bh_source_class h of
        Some c \<Rightarrow> [(c, case bh_source_operand h of Some x \<Rightarrow> Some x
          | None \<Rightarrow> (case filter (\<lambda>x. operand_class x = c) (tl (i_operands i)) of [] \<Rightarrow> None | x # _ \<Rightarrow> Some x))]
      | None \<Rightarrow> map (\<lambda>x. (operand_class x, Some x))
          (filter (\<lambda>x. operand_class x \<in> {''fp_register'', ''register'', ''immediate''}) (tl (i_operands i))))"

definition select_vector_prep_uop :: "instruction \<Rightarrow> bind_hints \<Rightarrow> (string, recipe_uop) dict \<Rightarrow> string \<Rightarrow> recipe_uop presult" where
  "select_vector_prep_uop i h variants path =
     (let sources = prep_sources i h;
          selected = (case filter (\<lambda>(c, _). c \<in> set (keys variants)) sources of
            x # _ \<Rightarrow> Some x
          | [] \<Rightarrow> if ''default'' \<in> set (keys variants) then Some (''default'', None) else None) in
      case selected of
        None \<Rightarrow> Inl (NoPrepUop (map fst sources))
      | Some (c, x) \<Rightarrow>
          rbind (fetch PKeyError variants c) (\<lambda>u.
          Inr (u\<lparr>ru_profile_path := Some (path @ ''.'' @ c),
            ru_external_registers := Some (case x of
              Some r \<Rightarrow> if c \<in> {''fp_register'', ''register''} then [r] else [] | None \<Rightarrow> [])\<rparr>)))"

record dynamic_parts =
  dy_parts :: int
  dy_width_bits :: int
  dy_prep :: "recipe_uop option"

definition backend_vector_decomposition :: "profile \<Rightarrow> instruction \<Rightarrow> bind_hints \<Rightarrow> dynamic_parts option presult" where
  "backend_vector_decomposition p i h =
     (case (be_decomposition (backend_of p), i_vector_state i) of
        (Some c, Some state) \<Rightarrow>
          (case (case bh_decomposition_class h of None \<Rightarrow> vector_decomposition_class i | Some x \<Rightarrow> Some x) of
             None \<Rightarrow> Inr None
           | Some category \<Rightarrow>
               (case map_of (dc_rules c) category of
                  None \<Rightarrow> Inr None
                | Some rule \<Rightarrow>
                    let path = ''backend.vector_decomposition.rules.'' @ category in
                    rbind (parameter_int (dc_register_width_bits c) ''backend.vector_decomposition.register_width_bits'') (\<lambda>width.
                    rbind (case rule of
                        PlainRule r \<Rightarrow> Inr (r, None, path)
                      | PrepRule r variants \<Rightarrow>
                          rbind (select_vector_prep_uop i h variants (path @ ''.prep_uops'')) (\<lambda>u.
                          Inr (r, Some u, path @ ''.parts''))) (\<lambda>(r, prep, parts_path).
                    rbind (vector_part_count r i state width category parts_path) (\<lambda>parts.
                    Inr (Some \<lparr>dy_parts = max 1 parts, dy_width_bits = width, dy_prep = prep\<rparr>))))))
      | _ \<Rightarrow> Inr None)"

text \<open>The bytes of a memory access that one part of the instruction moves.\<close>

definition memory_part :: "profile \<Rightarrow> mem_ref \<Rightarrow> int \<Rightarrow> int \<Rightarrow> int \<Rightarrow> mem_ref presult" where
  "memory_part p memory part_index part_count width_bits =
     (let width_bytes = width_bits div 8; start = part_index * width_bytes; line = pf_line_bytes p in
      rbind (rguard (1 \<le> width_bytes) NarrowParts) (\<lambda>_.
      rbind (rguard (start < mr_bytes memory) (EmptyPart part_index part_count)) (\<lambda>_.
      let n = min width_bytes (mr_bytes memory - start); address = mr_address memory + start in
      rbind (rguard (line \<noteq> 0) PZeroDivision) (\<lambda>_.
      Inr (memory\<lparr>mr_address := address, mr_offset := mr_offset memory + start, mr_bytes := n,
        mr_cache_lines := [address div line..(address + n - 1) div line],
        mr_flow_index := Some part_index, mr_flow_count := Some part_count\<rparr>)))))"

section \<open>Results and tokens\<close>

definition writes_vector_result :: "instruction \<Rightarrow> bind_hints \<Rightarrow> bool" where
  "writes_vector_result i h =
     (case bh_writes_vector_result h of Some b \<Rightarrow> b
      | None \<Rightarrow> (\<exists>r\<in>set (i_register_writes i). operand_class r \<in> {''vector'', ''xmm'', ''ymm'', ''zmm''}))"

definition requires_vector_read_token :: "instruction \<Rightarrow> string \<Rightarrow> string list \<Rightarrow> (string, string) dict \<Rightarrow> bool \<Rightarrow> bool" where
  "requires_vector_read_token i kind ids kinds prep \<longleftrightarrow>
     \<not> prep \<and> (kind \<in> set VECTOR_RESOURCE_KINDS \<or> kind = ''store_data'') \<and>
     (\<exists>s\<in>set ids. case map_of kinds s of None \<Rightarrow> False
       | Some k \<Rightarrow> startswith k ''vector_'' \<and> k \<noteq> ''vector_config'' \<and> k \<noteq> ''vector_load'') \<and>
     (\<exists>r\<in>set (i_register_reads i). is_vector_register r)"

definition macro_op_accounting_count :: "profile \<Rightarrow> string \<Rightarrow> int \<Rightarrow> int \<Rightarrow> int presult" where
  "macro_op_accounting_count p field decoded execution_uops =
     (let basis = (case map_of (be_accounting (backend_of p)) field of None \<Rightarrow> ''decoded_macro_ops'' | Some b \<Rightarrow> b) in
      if basis = ''decoded_macro_ops'' then Inr decoded
      else if basis = ''execution_uops'' then Inr execution_uops
      else if basis = ''max_decoded_or_execution_uops'' then Inr (max decoded execution_uops)
      else if basis = ''architectural_instructions'' then Inr 1
      else Inl (UnsupportedBasis field))"

definition execution_unit_choices :: "profile \<Rightarrow> string list \<Rightarrow> string list" where
  "execution_unit_choices p resources =
     map fst (filter (\<lambda>(_, u). set resources \<inter> set (eu_functional_units u) \<noteq> {}) (be_units (backend_of p)))"

end
