(* ===== verification/Bind.thy ===== *)
theory Bind
  imports BindText
begin

text \<open>
  \<open>Profile.bind\<close> (\<open>src/simulator/profile.py\<close>): the binder that turns a dynamic trace into the bound
  trace the engines simulate.  One instruction is bound in the steps of the code: its recipe, the
  expansion of the recipe into vector parts, one execution uop per expanded entry, the dependencies
  between them and on earlier instructions, and the macro-op.

  A set of ids is the list of its elements; \<open>insert_all\<close> is \<open>update\<close> of such a set.
\<close>

section \<open>Recipes\<close>

definition fallback_recipe :: "profile \<Rightarrow> string list \<Rightarrow> string \<Rightarrow> recipe presult" where
  "fallback_recipe p kinds key =
     (case pf_fit p of None \<Rightarrow> Inl (MissingRecipe key)
      | Some fit \<Rightarrow>
          (case kinds of
             [semantic] \<Rightarrow>
               if \<not> sf_enabled fit then Inl (MissingRecipe key)
               else (case map_of (sf_uops fit) semantic of
                 None \<Rightarrow> Inl (MissingFallback key semantic)
               | Some timing \<Rightarrow> Inr
                   \<lparr>rc_decoded_macro_ops = Whole 1, rc_retire_macro_ops = Whole 1, rc_dispatch_domains = [],
                    rc_dispatch_domain_demands = [], rc_decomposition = None, rc_rename_allocations = [],
                    rc_uops = [\<lparr>ru_id = ''fit'', ru_kind = semantic, ru_latency_cycles = fu_latency_cycles timing,
                      ru_issue_interval_cycles = fu_issue_interval_cycles timing,
                      ru_occupancy_cycles = fu_occupancy_cycles timing,
                      ru_resource_choices = fu_resource_choices timing, ru_issue_domains = [],
                      ru_issue_domain_demands = [], ru_rename_allocations = [], ru_depends_on = [],
                      ru_part_index = None, ru_profile_path = Some (''scalar_control_fit.uops.'' @ semantic),
                      ru_external_registers = None\<rparr>]\<rparr>)
           | _ \<Rightarrow> Inl (MissingRecipe key)))"

text \<open>The key, the recipe and the path its parameters are reported under.\<close>

definition find_profile_recipe :: "profile \<Rightarrow> instruction \<Rightarrow> bind_hints \<Rightarrow> (string \<times> recipe \<times> string) presult" where
  "find_profile_recipe p i h =
     (let candidates = recipe_keys i h;
          key = (case filter (\<lambda>k. k \<in> set (keys (pf_recipes p))) candidates of k # _ \<Rightarrow> k | [] \<Rightarrow> hd candidates) in
      case map_of (pf_recipes p) key of
        Some r \<Rightarrow> Inr (key, r, ''recipes.'' @ key)
      | None \<Rightarrow> rbind (fallback_recipe p (instruction_kinds i) key) (\<lambda>r. Inr (key, r, ''scalar_control_fit'')))"

section \<open>Expansion\<close>

record expanded =
  ex_index :: nat
  ex_entry :: recipe_uop
  ex_part_index :: "int option"
  ex_part_count :: "int option"
  ex_prep :: bool
  ex_path :: string

definition entry_path :: "string \<Rightarrow> nat \<Rightarrow> recipe_uop \<Rightarrow> string" where
  "entry_path recipe_path index u =
     (case ru_profile_path u of Some path \<Rightarrow> path | None \<Rightarrow> recipe_path @ ''.uops.'' @ show_nat index)"

definition expand_static :: "string \<Rightarrow> recipe \<Rightarrow> expanded list presult" where
  "expand_static recipe_path r =
     rmap (\<lambda>(index, u).
       rbind (case (rc_decomposition r, ru_part_index u) of
           (Some d, Some _) \<Rightarrow> rbind (parameter_int (sp_parts d) (recipe_path @ ''.vector_decomposition.parts'')) (\<lambda>n. Inr (Some n))
         | _ \<Rightarrow> Inr None) (\<lambda>n.
       Inr \<lparr>ex_index = index, ex_entry = u, ex_part_index = ru_part_index u, ex_part_count = n, ex_prep = False,
         ex_path = entry_path recipe_path index u\<rparr>)) (List.enumerate 0 (rc_uops r))"

definition after_prep :: "recipe_uop option \<Rightarrow> recipe_uop \<Rightarrow> recipe_uop" where
  "after_prep prep u = (case prep of None \<Rightarrow> u | Some q \<Rightarrow> u\<lparr>ru_depends_on := ru_depends_on u @ [ru_id q]\<rparr>)"

definition prep_entries :: "dynamic_parts \<Rightarrow> expanded list" where
  "prep_entries d = (case dy_prep d of None \<Rightarrow> []
     | Some q \<Rightarrow> [\<lparr>ex_index = 0, ex_entry = q, ex_part_index = None, ex_part_count = None, ex_prep = True,
         ex_path = (case ru_profile_path q of None \<Rightarrow> [] | Some path \<Rightarrow> path)\<rparr>])"

definition part_entries :: "string \<Rightarrow> recipe \<Rightarrow> dynamic_parts \<Rightarrow> nat \<Rightarrow> expanded list" where
  "part_entries recipe_path r d part =
     map (\<lambda>(index, u). \<lparr>ex_index = index, ex_entry = after_prep (dy_prep d) u, ex_part_index = Some (int part),
       ex_part_count = Some (dy_parts d), ex_prep = False, ex_path = entry_path recipe_path index u\<rparr>)
       (List.enumerate 0 (rc_uops r))"

definition expand_dynamic :: "string \<Rightarrow> recipe \<Rightarrow> dynamic_parts \<Rightarrow> expanded list" where
  "expand_dynamic recipe_path r d =
     prep_entries d @ concat (map (part_entries recipe_path r d) [0..<nat (dy_parts d)])"

definition depended_locals :: "recipe_uop list \<Rightarrow> string list" where
  "depended_locals us = concat (map ru_depends_on us)"

section \<open>Dependencies\<close>

text \<open>The terminal uops of an earlier instruction, with their part index.\<close>

type_synonym results = "(string, (string \<times> int option) list) dict"

definition insert_all :: "string list \<Rightarrow> string list \<Rightarrow> string list" where
  "insert_all new ids = fold insert_id new ids"

text \<open>The candidates of the same part, or all of them when there is none.\<close>

definition matching_ids :: "int option \<Rightarrow> (string \<times> int option) list \<Rightarrow> string list" where
  "matching_ids part candidates =
     (let matching = filter (\<lambda>(_, q). part \<noteq> None \<and> q = part) candidates in
      map fst (if matching \<noteq> [] then matching else candidates))"

definition producer_ids :: "results \<Rightarrow> int option \<Rightarrow> string list \<Rightarrow> string list presult" where
  "producer_ids results part producers =
     rbind (rmap (\<lambda>q. rbind (fetch UnknownProducer results q) (\<lambda>candidates. Inr (matching_ids part candidates))) producers)
       (\<lambda>idss. Inr (concat idss))"

definition external_producers :: "instruction \<Rightarrow> string \<Rightarrow> bool \<Rightarrow> string list option \<Rightarrow> string list" where
  "external_producers i kind first_local registers =
     (let links = i_register_dependencies i;
          address_registers = (case i_memory i of None \<Rightarrow> [] | Some m \<Rightarrow> mr_address_registers m) in
      remdups (case registers of
        Some rs \<Rightarrow> List.map_filter (map_of links) rs
      | None \<Rightarrow>
          if kind = ''address_generation'' then map snd (filter (\<lambda>(r, _). r \<in> set address_registers) links)
          else if kind = ''load_data''
          then i_memory_dependencies i @ (if first_local then map snd links else [])
          else if kind = ''store_data'' then map snd links @ i_memory_dependencies i
          else map snd links @ i_memory_dependencies i @
            (case truthy (i_flags_dependency i) of None \<Rightarrow> [] | Some q \<Rightarrow> [q])))"

definition register_producers :: "(string, string) dict \<Rightarrow> string list \<Rightarrow> string list" where
  "register_producers links registers = remdups (List.map_filter (map_of links) registers)"

definition old_destination_registers :: "instruction \<Rightarrow> semantic_uop list \<Rightarrow> bool \<Rightarrow> string list" where
  "old_destination_registers i semantics implicit =
     (let listed = (case i_old_destination_registers i of None \<Rightarrow> [] | Some rs \<Rightarrow> rs) @
            concat (map (\<lambda>s. case s_old_destination_registers s of None \<Rightarrow> [] | Some rs \<Rightarrow> rs) semantics) @
            (if implicit then (case i_vector_destination_registers i of None \<Rightarrow> [] | Some rs \<Rightarrow> rs) else []) in
      ordered_unique (if listed \<noteq> [] then listed
        else sort (remdups (filter (\<lambda>r. is_vector_register r \<and> r \<in> set (i_register_writes i)) (i_register_reads i)))))"

definition old_destination_links :: "instruction \<Rightarrow> bool \<Rightarrow> (string, string) dict" where
  "old_destination_links i implicit =
     (case (implicit, i_vector_destination_dependencies i, i_old_destination_dependencies i) of
        (True, Some links, _) \<Rightarrow> links
      | (_, _, Some links) \<Rightarrow> links
      | _ \<Rightarrow> i_register_dependencies i)"

section \<open>Execution uops\<close>

text \<open>What the uops of one instruction share.\<close>

record bind_context =
  bx_instruction :: instruction
  bx_hints :: bind_hints
  bx_key :: string
  bx_recipe :: recipe
  bx_path :: string
  bx_bindings :: "string list list"
  bx_dynamic :: "dynamic_parts option"
  bx_depended :: "string list"
  bx_next_sequence :: nat

definition bound_semantics :: "bind_context \<Rightarrow> string list \<Rightarrow> semantic_uop list" where
  "bound_semantics c ids =
     (let i = bx_instruction c;
          definitions = fold (\<lambda>s d. AList.update (semantic_id (i_id i) (s_local_id s)) s d) (i_semantic_uops i) [] in
      List.map_filter (map_of definitions) ids)"

definition waits_for_vector_state :: "profile \<Rightarrow> bind_context \<Rightarrow> expanded \<Rightarrow> bool" where
  "waits_for_vector_state p c x \<longleftrightarrow>
     (let i = bx_instruction c; policy = dependency_policy_of p in
      \<not> ex_prep x \<and> ru_kind (ex_entry x) \<in> set (dq_state_wait_kinds policy) \<and>
      (\<exists>r\<in>set (dq_registers policy). r \<in> set (i_register_reads i) \<or> r \<in> set (keys (i_register_dependencies i))))"

definition waits_for_old_destination :: "profile \<Rightarrow> bind_context \<Rightarrow> expanded \<Rightarrow> string list \<Rightarrow> bool" where
  "waits_for_old_destination p c x ids \<longleftrightarrow>
     (let policy = dependency_policy_of p; kind = ru_kind (ex_entry x) in
      dq_old_mode policy = ''semantic'' \<and> \<not> ex_prep x \<and> kind \<in> set (dq_old_wait_kinds policy) \<and>
      ((\<exists>s\<in>set (bound_semantics c ids). s_reads_old_destination s) \<or> kind \<in> set (dq_old_implicit_kinds policy)))"

definition uop_memory :: "profile \<Rightarrow> bind_context \<Rightarrow> expanded \<Rightarrow> mem_ref option presult" where
  "uop_memory p c x =
     (case (i_memory (bx_instruction c), bx_dynamic c) of
        (Some m, dynamic) \<Rightarrow>
          if ru_kind (ex_entry x) \<notin> {''load_data'', ''store_data'', ''address_generation''} then Inr None
          else (case dynamic of None \<Rightarrow> Inr (Some m)
            | Some d \<Rightarrow>
                rbind (memory_part p m (case ex_part_index x of None \<Rightarrow> 0 | Some n \<Rightarrow> n)
                  (case ex_part_count x of None \<Rightarrow> 1 | Some n \<Rightarrow> if n = 0 then 1 else n) (dy_width_bits d)) (\<lambda>m'. Inr (Some m')))
      | _ \<Rightarrow> Inr None)"

definition interval_scale :: "bind_context \<Rightarrow> expanded \<Rightarrow> int presult" where
  "interval_scale c x =
     (case (rc_decomposition (bx_recipe c), ru_part_index (ex_entry x)) of
        (Some d, Some _) \<Rightarrow> if sp_scale_interval d
          then parameter_int (sp_parts d) (bx_path c @ ''.vector_decomposition.parts'') else Inr 1
      | _ \<Rightarrow> Inr 1)"

definition scheduling_class :: "bind_context \<Rightarrow> expanded \<Rightarrow> string" where
  "scheduling_class c x = bx_key c @ '':'' @ ru_id (ex_entry x) @
     (case ex_part_index x of None \<Rightarrow> '''' | Some n \<Rightarrow> '':part-'' @ show_int n)"

definition domain_demands :: "string list \<Rightarrow> (string, int) dict \<Rightarrow> (string, int) dict" where
  "domain_demands domains demands =
     map (\<lambda>d. (d, case map_of demands d of None \<Rightarrow> 1 | Some n \<Rightarrow> n)) (ordered_unique domains)"

definition convert_allocations :: "string \<Rightarrow> (string, parameter) dict \<Rightarrow> (string, int) dict presult" where
  "convert_allocations path allocations =
     rmap (\<lambda>(name, v). rbind (parameter_int v (path @ ''.rename_allocations.'' @ name)) (\<lambda>n. Inr (name, n))) allocations"

definition scheduler_partitions :: "profile \<Rightarrow> string list \<Rightarrow> string list presult" where
  "scheduler_partitions p units =
     rbind (rmap (fetch PKeyError (be_units (backend_of p))) units) (\<lambda>us. Inr (ordered_unique (map eu_partition us)))"

definition bind_uop :: "profile \<Rightarrow> bind_context \<Rightarrow> nat \<times> expanded \<Rightarrow> execution_uop presult" where
  "bind_uop p c entry =
     (case entry of (index, x) \<Rightarrow>
      let i = bx_instruction c; u = ex_entry x; tpc = pf_ticks_per_cycle p in
      rbind (convert_allocations (ex_path x) (ru_rename_allocations u)) (\<lambda>allocations.
      rbind (uop_memory p c x) (\<lambda>memory.
      rbind (parameter_ticks tpc (ru_occupancy_cycles u) (ex_path x @ ''.resource_occupancy_cycles'')) (\<lambda>occupancy.
      rbind (parameter_ticks tpc (ru_latency_cycles u) (ex_path x @ ''.latency_cycles'')) (\<lambda>latency.
      rbind (if ru_kind u = ''load_data'' then require_l1_access_parameters p ''load''
          else if ru_kind u = ''store_data'' then require_l1_access_parameters p ''store'' else Inr ()) (\<lambda>_.
      let units = execution_unit_choices p (ru_resource_choices u) in
      rbind (scheduler_partitions p units) (\<lambda>partitions.
      rbind (rguard (ex_index x < length (bx_bindings c)) (PKeyError ''semantic_bindings'')) (\<lambda>_.
      let ids = bx_bindings c ! ex_index x in
      rbind (parameter_ticks tpc (ru_issue_interval_cycles u) (ex_path x @ ''.issue_interval_cycles'')) (\<lambda>interval.
      rbind (interval_scale c x) (\<lambda>scale.
      Inr (blank_uop\<lparr>u_id := i_id i @ ''.e'' @ show_nat index, u_sequence := int (bx_next_sequence c + index),
        u_parent_id := i_id i, u_parent_sequence := i_sequence i, u_mnemonic := i_mnemonic i,
        u_assembly := i_assembly i, u_semantic_kinds := instruction_kinds i, u_kind := ru_kind u,
        u_scheduling_class := scheduling_class c x, u_part_index := ex_part_index x, u_part_count := ex_part_count x,
        u_latency_ticks := latency, u_issue_interval_ticks := interval * scale, u_occupancy_ticks := occupancy,
        u_resource_choices := ru_resource_choices u, u_issue_domains := ru_issue_domains u,
        u_issue_domain_demands := domain_demands (ru_issue_domains u) (ru_issue_domain_demands u),
        u_rename_allocations := allocations, u_scheduler_partition_choices := partitions,
        u_execution_unit_choices := units,
        u_requires_completion_token := ex_prep x \<or> (ru_id u \<notin> set (bx_depended c) \<and> writes_vector_result i (bx_hints c)),
        u_requires_vector_read_token := requires_vector_read_token i (ru_kind u) ids (semantic_kind_by_id [i]) (ex_prep x),
        u_semantic_ids := ids, u_requires_vector_state := waits_for_vector_state p c x,
        u_reads_old_destination := waits_for_old_destination p c x ids, u_memory := memory\<rparr>)))))))))))"

text \<open>The uops of the entry that \<open>depends_on\<close> names, those of the same part when there are some.\<close>

definition local_candidates :: "(expanded \<times> execution_uop) list \<Rightarrow> string \<Rightarrow> (string \<times> int option) list" where
  "local_candidates pairs name =
     map (\<lambda>(_, u). (u_id u, u_part_index u)) (filter (\<lambda>(x, _). ru_id (ex_entry x) = name) pairs)"

definition local_dependencies :: "(expanded \<times> execution_uop) list \<Rightarrow> expanded \<Rightarrow> string list presult" where
  "local_dependencies pairs x =
     rbind (rmap (\<lambda>name. rbind (rguard (local_candidates pairs name \<noteq> []) (PKeyError name)) (\<lambda>_.
       Inr (matching_ids (ex_part_index x) (local_candidates pairs name)))) (ru_depends_on (ex_entry x)))
       (\<lambda>idss. Inr (concat idss))"

text \<open>The uop of the previous part, which has to issue first, and the gap.\<close>

definition previous_part :: "profile \<Rightarrow> bind_context \<Rightarrow> execution_uop list \<Rightarrow> expanded \<Rightarrow> (string \<times> int) option presult" where
  "previous_part p c execution x =
     (case (bx_dynamic c, ex_part_index x, rc_decomposition (bx_recipe c)) of
        (None, Some part, Some d) \<Rightarrow>
          if part = 0 then Inr None
          else (case filter (\<lambda>u. u_part_index u = Some (part - 1)) execution of
            [] \<Rightarrow> Inr None
          | q # _ \<Rightarrow> rbind (parameter_ticks (pf_ticks_per_cycle p) (sp_issue_gap_cycles d)
              (bx_path c @ ''.vector_decomposition.part_issue_gap_cycles'')) (\<lambda>gap. Inr (Some (u_id q, gap))))
      | _ \<Rightarrow> Inr None)"

definition link_uop :: "profile \<Rightarrow> bind_context \<Rightarrow> results \<Rightarrow> (expanded \<times> execution_uop) list \<Rightarrow> expanded \<times> execution_uop
    \<Rightarrow> execution_uop presult" where
  "link_uop p c results pairs entry =
     (case entry of (x, u) \<Rightarrow>
      let i = bx_instruction c; policy = dependency_policy_of p;
          implicit = (u_kind u \<in> set (dq_old_implicit_kinds policy)) in
      rbind (local_dependencies pairs x) (\<lambda>local.
      rbind (previous_part p c (map snd pairs) x) (\<lambda>previous.
      rbind (producer_ids results (u_part_index u)
        (external_producers i (u_kind u) (ex_index x = 0) (ru_external_registers (ex_entry x)))) (\<lambda>external.
      rbind (if u_requires_vector_state u
        then producer_ids results (u_part_index u) (register_producers (i_register_dependencies i) (dq_registers policy))
        else Inr []) (\<lambda>state.
      rbind (if u_reads_old_destination u
        then producer_ids results (u_part_index u) (register_producers (old_destination_links i implicit)
          (old_destination_registers i (bound_semantics c (u_semantic_ids u)) implicit))
        else Inr []) (\<lambda>old.
      Inr (u\<lparr>u_dependencies := insert_all old (insert_all state (insert_all external (insert_all local []))),
        u_vector_state_dependencies := insert_all state [], u_old_destination_dependencies := insert_all old [],
        u_issue_after_uop := map_option fst previous,
        u_issue_gap_ticks := (case previous of None \<Rightarrow> 0 | Some (_, gap) \<Rightarrow> gap)\<rparr>)))))))"

section \<open>Instructions and traces\<close>

definition macro_rename_allocations :: "bind_context \<Rightarrow> execution_uop list \<Rightarrow> (string, int) dict presult" where
  "macro_rename_allocations c execution =
     (if rc_rename_allocations (bx_recipe c) \<noteq> [] then convert_allocations (bx_path c) (rc_rename_allocations (bx_recipe c))
      else Inr (map (\<lambda>name. (name, sum_list (map (\<lambda>u. case map_of (u_rename_allocations u) name of None \<Rightarrow> 0 | Some n \<Rightarrow> n) execution)))
        (remdups (concat (map (\<lambda>u. keys (u_rename_allocations u)) execution)))))"

definition bind_macro :: "profile \<Rightarrow> bind_context \<Rightarrow> execution_uop list \<Rightarrow> macro_op presult" where
  "bind_macro p c execution =
     (let i = bx_instruction c; r = bx_recipe c; kinds = map u_kind execution; n = int (length execution) in
      rbind (parameter_int (rc_decoded_macro_ops r) (bx_path c @ ''.decoded_macro_ops'')) (\<lambda>decoded.
      rbind (parameter_int (rc_retire_macro_ops r) (bx_path c @ ''.retire_macro_ops'')) (\<lambda>retired.
      rbind (macro_rename_allocations c execution) (\<lambda>allocations.
      rbind (macro_op_accounting_count p ''dispatch_units'' decoded n) (\<lambda>units.
      rbind (macro_op_accounting_count p ''rob_entries'' decoded n) (\<lambda>entries.
      Inr (blank_macro\<lparr>m_id := i_id i, m_sequence := i_sequence i, m_mnemonic := i_mnemonic i, m_assembly := i_assembly i,
        m_uop_ids := map u_id execution, m_decoded_macro_ops := decoded, m_retire_macro_ops := retired,
        m_uses_vector_scheduler := (set kinds \<inter> set VECTOR_RESOURCE_KINDS \<noteq> {}),
        m_uses_load_queue := (''load_data'' \<in> set kinds), m_uses_store_queue := (''store_data'' \<in> set kinds),
        m_dispatch_domains := rc_dispatch_domains r,
        m_dispatch_domain_demands := domain_demands (rc_dispatch_domains r) (rc_dispatch_domain_demands r),
        m_rename_allocations := allocations, m_dispatch_units := Some units, m_rob_entries := Some entries\<rparr>)))))))"

record binding =
  bd_macros :: "macro_op list"
  bd_uops :: "execution_uop list"
  bd_results :: results
  bd_resources :: "string list"

definition bind_context_of :: "profile \<Rightarrow> instruction \<Rightarrow> bind_hints \<Rightarrow> nat \<Rightarrow> (bind_context \<times> expanded list) presult" where
  "bind_context_of p i h next =
     rbind (find_profile_recipe p i h) (\<lambda>(key, r, path).
     case bind_execution_semantics i (map (\<lambda>u. (Some (ru_id u), ru_kind u)) (rc_uops r)) of
       Inl x \<Rightarrow> Inl (SemanticFailure x)
     | Inr bindings \<Rightarrow>
         rbind (if rc_decomposition r \<noteq> None then Inr None else backend_vector_decomposition p i h) (\<lambda>dynamic.
         rbind (case dynamic of None \<Rightarrow> expand_static path r | Some d \<Rightarrow> Inr (expand_dynamic path r d)) (\<lambda>xs.
         Inr (\<lparr>bx_instruction = i, bx_hints = h, bx_key = key, bx_recipe = r, bx_path = path, bx_bindings = bindings,
           bx_dynamic = dynamic, bx_depended = depended_locals (rc_uops r @ map ex_entry xs), bx_next_sequence = next\<rparr>, xs))))"

definition bind_instruction :: "profile \<Rightarrow> instruction \<times> bind_hints \<Rightarrow> binding \<Rightarrow> binding presult" where
  "bind_instruction p entry b =
     (case entry of (i, h) \<Rightarrow>
      rbind (bind_context_of p i h (length (bd_uops b))) (\<lambda>(c, xs).
      rbind (rmap (bind_uop p c) (List.enumerate 0 xs)) (\<lambda>us.
      let pairs = zip xs us in
      rbind (rmap (link_uop p c (bd_results b) pairs) pairs) (\<lambda>execution.
      rbind (bind_macro p c execution) (\<lambda>macro.
      let terminal = map (\<lambda>(_, u). (u_id u, u_part_index u))
            (filter (\<lambda>(x, _). ru_id (ex_entry x) \<notin> set (bx_depended c)) (zip xs execution)) in
      Inr \<lparr>bd_macros = bd_macros b @ [macro], bd_uops = bd_uops b @ execution,
        bd_results = AList.update (i_id i) terminal (bd_results b),
        bd_resources = insert_all (concat (map u_resource_choices execution)) (bd_resources b)\<rparr>)))))"

definition read_resource :: "string \<Rightarrow> resource_entry \<Rightarrow> string \<Rightarrow> (string \<times> resource) presult" where
  "read_resource resource_id r path =
     rbind (parameter_int (re_capacity r) (path @ ''.capacity'')) (\<lambda>capacity.
     rbind (case re_bytes_per_cycle r of None \<Rightarrow> Inr None
       | Some v \<Rightarrow> rbind (parameter_int v (path @ ''.bytes_per_cycle'')) (\<lambda>n. Inr (Some n))) (\<lambda>bytes.
     Inr (resource_id, \<lparr>r_id = resource_id, r_capacity = nat capacity, r_bytes_per_cycle = bytes\<rparr>)))"

definition bind_resource :: "profile \<Rightarrow> string \<Rightarrow> (string \<times> resource) presult" where
  "bind_resource p resource_id =
     (let fit = (case pf_fit p of None \<Rightarrow> [] | Some f \<Rightarrow> sf_resources f) in
      case (map_of (pf_resources p) resource_id, map_of fit resource_id) of
        (None, None) \<Rightarrow> Inl (MissingResource resource_id)
      | (Some r, _) \<Rightarrow> read_resource resource_id r (''resources.'' @ resource_id)
      | (None, Some r) \<Rightarrow> read_resource resource_id r (''scalar_control_fit.resources.'' @ resource_id))"

definition bind_trace :: "profile \<Rightarrow> int option \<Rightarrow> json \<Rightarrow> (instruction \<times> bind_hints) list \<Rightarrow> bound_trace presult" where
  "bind_trace p version workload entries =
     rbind (rguard (version = Some 2) WrongTraceVersion) (\<lambda>_.
     rbind (require_simulation_ready p) (\<lambda>_.
     rbind (rfold (bind_instruction p) entries \<lparr>bd_macros = [], bd_uops = [], bd_results = [], bd_resources = []\<rparr>) (\<lambda>b.
     rbind (rmap (bind_resource p) (sort (bd_resources b))) (\<lambda>resources.
     Inr \<lparr>bt_trace_version = 2, bt_profile_id = pf_id p, bt_profile_sha256 = pf_digest p,
       bt_ticks_per_cycle = pf_ticks_per_cycle p, bt_macros = bd_macros b, bt_uops = bd_uops b,
       bt_resources = resources, bt_workload = workload, bt_source_trace = map fst entries\<rparr>))))"

end
