(* ===== verification/BindSteps.thy ===== *)
theory BindSteps
  imports Bind
begin

text \<open>
  What one instruction contributes to the bound trace: the ids of its uops, where the expanded
  entries of its recipe sit, and that dependencies between them point backwards.
\<close>

section \<open>Names\<close>

definition uop_name :: "string \<Rightarrow> nat \<Rightarrow> string" where
  "uop_name i n = i @ ''.e'' @ show_nat n"

lemma uop_name_inject: "uop_name i m = uop_name j n \<longleftrightarrow> i = j \<and> m = n"
proof
  assume eq: "uop_name i m = uop_name j n"
  have digits: "takeWhile is_digit (rev (uop_name k l)) = rev (show_nat l)" for k l
  proof -
    have "\<not> is_digit (CHR ''e'')" by code_simp
    moreover have "takeWhile is_digit (rev (show_nat l) @ ys) = rev (show_nat l) @ takeWhile is_digit ys" for ys
      by (rule takeWhile_append2) (use show_nat_digits [of l] in simp)
    ultimately show ?thesis by (simp add: uop_name_def)
  qed
  have "rev (show_nat m) = rev (show_nat n)" using digits [of i m] digits [of j n] eq by simp
  then have m: "show_nat m = show_nat n" by simp
  then have "digits_from 10 0 (show_nat m) = digits_from 10 0 (show_nat n)" by simp
  then have "m = n" using show_nat_digits [of m] show_nat_digits [of n] by simp
  moreover have "i = j" using eq m by (simp add: uop_name_def)
  ultimately show "i = j \<and> m = n" by simp
qed simp

section \<open>Sets of ids\<close>

lemma set_insert_all: "set (insert_all new ids) = set new \<union> set ids"
  unfolding insert_all_def by (induction new arbitrary: ids) (auto simp: insert_id_def)

lemma distinct_insert_all: "distinct ids \<Longrightarrow> distinct (insert_all new ids)"
  unfolding insert_all_def by (induction new arbitrary: ids) (auto simp: insert_id_def)

lemma matching_ids_mem:
  "d \<in> set (matching_ids part candidates) \<longleftrightarrow>
     (\<exists>q. (d, q) \<in> set candidates \<and> (part \<noteq> None \<and> (\<exists>d'. (d', part) \<in> set candidates) \<longrightarrow> q = part))"
proof (cases "part \<noteq> None \<and> (\<exists>d'. (d', part) \<in> set candidates)")
  case True
  then have "filter (\<lambda>(_, q). part \<noteq> None \<and> q = part) candidates \<noteq> []" by (auto simp: filter_empty_conv)
  then show ?thesis using True by (force simp: matching_ids_def Let_def)
next
  case False
  then have "filter (\<lambda>(_, q). part \<noteq> None \<and> q = part) candidates = []" by (auto simp: filter_empty_conv)
  then show ?thesis using False by (force simp: matching_ids_def Let_def)
qed

lemma producer_ids_mem:
  assumes "producer_ids results part producers = Inr ids"
  shows "d \<in> set ids \<longleftrightarrow> (\<exists>q\<in>set producers. \<exists>cs. map_of results q = Some cs \<and> d \<in> set (matching_ids part cs))"
proof -
  obtain idss where run: "rmap (\<lambda>q. rbind (fetch UnknownProducer results q) (\<lambda>cs. Inr (matching_ids part cs))) producers = Inr idss"
      and ids: "ids = concat idss"
    using assms by (auto simp: producer_ids_def rbind_eq_Inr_iff)
  have "list_all2 (\<lambda>q ids. \<exists>cs. map_of results q = Some cs \<and> ids = matching_ids part cs) producers idss"
    using run unfolding rmap_Inr_iff by (rule list_all2_mono) (auto simp: rbind_eq_Inr_iff)
  then show ?thesis unfolding ids by (induction rule: list_all2_induct) auto
qed

section \<open>The expanded entries\<close>

text \<open>A dependency of the entry at \<open>k\<close> is found at \<open>j\<close>: by name, and by part when the part has one.\<close>

definition found_at :: "expanded list \<Rightarrow> nat \<Rightarrow> string \<Rightarrow> nat \<Rightarrow> bool" where
  "found_at xs k name j \<longleftrightarrow> j < length xs \<and> ru_id (ex_entry (xs ! j)) = name \<and>
     (ex_part_index (xs ! k) \<noteq> None \<and>
        (\<exists>l<length xs. ru_id (ex_entry (xs ! l)) = name \<and> ex_part_index (xs ! l) = ex_part_index (xs ! k)) \<longrightarrow>
      ex_part_index (xs ! j) = ex_part_index (xs ! k))"

definition backward :: "expanded list \<Rightarrow> bool" where
  "backward xs \<longleftrightarrow> (\<forall>k<length xs. \<forall>name\<in>set (ru_depends_on (ex_entry (xs ! k))). \<forall>j. found_at xs k name j \<longrightarrow> j < k)"

text \<open>Entries of a recipe have distinct ids and depend on earlier entries only.\<close>

definition ordered_recipe :: "recipe_uop list \<Rightarrow> bool" where
  "ordered_recipe us \<longleftrightarrow> distinct (map ru_id us) \<and>
     (\<forall>k<length us. set (ru_depends_on (us ! k)) \<subseteq> ru_id ` set (take k us))"

lemma ordered_recipe_earlier:
  assumes "ordered_recipe us" and "k < length us" and "ru_id (us ! j) \<in> set (ru_depends_on (us ! k))" and "j < length us"
  shows "j < k"
proof -
  have "ru_id (us ! j) \<in> ru_id ` set (take k us)" using assms(1-3) unfolding ordered_recipe_def by blast
  then obtain l where l: "l < k" "ru_id (us ! j) = ru_id (us ! l)"
    using assms(2) by (auto simp: in_set_conv_nth)
  have "map ru_id us ! j = map ru_id us ! l" using assms(2,4) l by simp
  moreover have "distinct (map ru_id us)" using assms(1) by (simp add: ordered_recipe_def)
  ultimately have "j = l" using assms(2,4) l(1) nth_eq_iff_index_eq [of "map ru_id us" j l] by simp
  then show ?thesis using l by simp
qed

lemma expand_static_nth:
  assumes "expand_static path r = Inr xs"
  shows "length xs = length (rc_uops r)"
    and "k < length xs \<Longrightarrow> ex_index (xs ! k) = k \<and> ex_entry (xs ! k) = rc_uops r ! k \<and>
      ex_part_index (xs ! k) = ru_part_index (rc_uops r ! k) \<and> \<not> ex_prep (xs ! k) \<and>
      (\<forall>n. ex_part_count (xs ! k) = Some n \<longrightarrow> (\<exists>d i. rc_decomposition r = Some d \<and> ru_part_index (rc_uops r ! k) = Some i \<and>
         parameter_int (sp_parts d) (path @ ''.vector_decomposition.parts'') = Inr n))"
proof -
  have run: "list_all2 (\<lambda>(index, u) x. \<exists>n. (case (rc_decomposition r, ru_part_index u) of
        (Some d, Some _) \<Rightarrow> rbind (parameter_int (sp_parts d) (path @ ''.vector_decomposition.parts'')) (\<lambda>n. Inr (Some n))
      | _ \<Rightarrow> Inr None) = Inr n \<and> x = \<lparr>ex_index = index, ex_entry = u, ex_part_index = ru_part_index u, ex_part_count = n,
        ex_prep = False, ex_path = entry_path path index u\<rparr>) (List.enumerate 0 (rc_uops r)) xs"
    using assms unfolding expand_static_def rmap_Inr_iff
    by (rule list_all2_mono) (auto simp: rbind_eq_Inr_iff)
  show len: "length xs = length (rc_uops r)" using list_all2_lengthD [OF run] by simp
  assume k: "k < length xs"
  obtain n where n: "(case (rc_decomposition r, ru_part_index (rc_uops r ! k)) of
        (Some d, Some _) \<Rightarrow> rbind (parameter_int (sp_parts d) (path @ ''.vector_decomposition.parts'')) (\<lambda>n. Inr (Some n))
      | _ \<Rightarrow> Inr None) = Inr n" and x: "xs ! k = \<lparr>ex_index = k, ex_entry = rc_uops r ! k,
        ex_part_index = ru_part_index (rc_uops r ! k), ex_part_count = n, ex_prep = False,
        ex_path = entry_path path k (rc_uops r ! k)\<rparr>"
    using list_all2_nthD2 [OF run k] k len by (auto simp: nth_enumerate_eq)
  from n show "ex_index (xs ! k) = k \<and> ex_entry (xs ! k) = rc_uops r ! k \<and>
      ex_part_index (xs ! k) = ru_part_index (rc_uops r ! k) \<and> \<not> ex_prep (xs ! k) \<and>
      (\<forall>n. ex_part_count (xs ! k) = Some n \<longrightarrow> (\<exists>d i. rc_decomposition r = Some d \<and> ru_part_index (rc_uops r ! k) = Some i \<and>
         parameter_int (sp_parts d) (path @ ''.vector_decomposition.parts'') = Inr n))"
    unfolding x by (auto simp: rbind_eq_Inr_iff split: option.splits)
qed

lemma static_backward:
  assumes "expand_static path r = Inr xs" and "ordered_recipe (rc_uops r)"
  shows "backward xs"
  unfolding backward_def found_at_def
  using expand_static_nth [OF assms(1)] ordered_recipe_earlier [OF assms(2)] by metis

subsection \<open>Vector parts\<close>

lemma concat_blocks:
  assumes "\<And>i. length (f i) = n"
  shows "length (concat (map f [0..<m])) = m * n \<and> (\<forall>k<m * n. concat (map f [0..<m]) ! k = f (k div n) ! (k mod n))"
proof (induction m)
  case (Suc m)
  then have len: "length (concat (map f [0..<m])) = m * n" by simp
  have "concat (map f [0..<Suc m]) ! k = f (k div n) ! (k mod n)" if k: "k < Suc m * n" for k
  proof (cases "k < m * n")
    case True
    then show ?thesis using Suc len by (simp add: nth_append)
  next
    case False
    define a where "a = k - m * n"
    have "a < n" "k = a + m * n" using False k by (simp_all add: a_def)
    then show ?thesis using len by (simp add: nth_append)
  qed
  then show ?case using len assms by simp
qed simp

definition prep_length :: "dynamic_parts \<Rightarrow> nat" where
  "prep_length d = (case dy_prep d of None \<Rightarrow> 0 | Some _ \<Rightarrow> 1)"

lemma expand_dynamic_nth:
  fixes r d path
  defines "xs \<equiv> expand_dynamic path r d" and "n \<equiv> length (rc_uops r)" and "off \<equiv> prep_length d"
  shows "length xs = off + nat (dy_parts d) * n"
    and "k < off \<Longrightarrow> \<exists>q. dy_prep d = Some q \<and> k = 0 \<and> ex_entry (xs ! 0) = q \<and> ex_prep (xs ! 0) \<and> ex_index (xs ! 0) = 0 \<and>
      ex_part_index (xs ! 0) = None \<and> ex_part_count (xs ! 0) = None"
    and "off \<le> k \<Longrightarrow> k < length xs \<Longrightarrow> ex_index (xs ! k) = (k - off) mod n \<and>
      ex_entry (xs ! k) = after_prep (dy_prep d) (rc_uops r ! ((k - off) mod n)) \<and> \<not> ex_prep (xs ! k) \<and>
      ex_part_index (xs ! k) = Some (int ((k - off) div n)) \<and> ex_part_count (xs ! k) = Some (dy_parts d)"
proof -
  have "length (part_entries path r d i) = n" for i by (simp add: part_entries_def n_def)
  note blocks = concat_blocks [of "part_entries path r d" n "nat (dy_parts d)", OF this]
  have prep: "length (prep_entries d) = off" by (simp add: prep_entries_def off_def prep_length_def split: option.split)
  show len: "length xs = off + nat (dy_parts d) * n" using blocks prep by (simp add: xs_def expand_dynamic_def)
  show "k < off \<Longrightarrow> \<exists>q. dy_prep d = Some q \<and> k = 0 \<and> ex_entry (xs ! 0) = q \<and> ex_prep (xs ! 0) \<and> ex_index (xs ! 0) = 0 \<and>
      ex_part_index (xs ! 0) = None \<and> ex_part_count (xs ! 0) = None"
    by (auto simp: xs_def expand_dynamic_def prep_entries_def off_def prep_length_def split: option.splits)
  assume k: "off \<le> k" "k < length xs"
  then have small: "k - off < nat (dy_parts d) * n" using len by simp
  then have "0 < n" by (cases n) auto
  then have "(k - off) mod n < n" by simp
  moreover have "xs ! k = part_entries path r d ((k - off) div n) ! ((k - off) mod n)"
    using blocks small k prep by (simp add: xs_def expand_dynamic_def nth_append)
  ultimately show "ex_index (xs ! k) = (k - off) mod n \<and>
      ex_entry (xs ! k) = after_prep (dy_prep d) (rc_uops r ! ((k - off) mod n)) \<and> \<not> ex_prep (xs ! k) \<and>
      ex_part_index (xs ! k) = Some (int ((k - off) div n)) \<and> ex_part_count (xs ! k) = Some (dy_parts d)"
    by (simp add: part_entries_def n_def nth_enumerate_eq)
qed

text \<open>A preparation entry has an id of its own and depends on nothing.\<close>

definition prep_fits :: "recipe_uop list \<Rightarrow> recipe_uop option \<Rightarrow> bool" where
  "prep_fits us prep \<longleftrightarrow> (case prep of None \<Rightarrow> True | Some q \<Rightarrow> ru_depends_on q = [] \<and> ru_id q \<notin> set (map ru_id us))"

lemma after_prep_fields [simp]:
  "ru_id (after_prep q u) = ru_id u" "ru_kind (after_prep q u) = ru_kind u" "ru_part_index (after_prep q u) = ru_part_index u"
  "ru_resource_choices (after_prep q u) = ru_resource_choices u" "ru_issue_domains (after_prep q u) = ru_issue_domains u"
  "ru_issue_domain_demands (after_prep q u) = ru_issue_domain_demands u"
  "ru_rename_allocations (after_prep q u) = ru_rename_allocations u" "ru_latency_cycles (after_prep q u) = ru_latency_cycles u"
  "ru_issue_interval_cycles (after_prep q u) = ru_issue_interval_cycles u"
  "ru_occupancy_cycles (after_prep q u) = ru_occupancy_cycles u"
  "set (ru_depends_on (after_prep q u)) = set (ru_depends_on u) \<union> (case q of None \<Rightarrow> {} | Some v \<Rightarrow> {ru_id v})"
  by (cases q; simp add: after_prep_def)+

lemma dynamic_backward:
  assumes ord: "ordered_recipe (rc_uops r)" and prep: "prep_fits (rc_uops r) (dy_prep d)"
  shows "backward (expand_dynamic path r d)"
  unfolding backward_def
proof (intro allI impI ballI)
  let ?xs = "expand_dynamic path r d" and ?n = "length (rc_uops r)" and ?o = "prep_length d"
  note len = expand_dynamic_nth(1) [of path r d]
  note nth = expand_dynamic_nth(3) [of d _ path r]
  fix k name j
  assume k: "k < length ?xs" and name: "name \<in> set (ru_depends_on (ex_entry (?xs ! k)))" and found: "found_at ?xs k name j"
  have ko: "?o \<le> k"
  proof (rule ccontr)
    assume "\<not> ?o \<le> k"
    then show False using expand_dynamic_nth(2) [of k d path r] name prep by (auto simp: prep_fits_def)
  qed
  have j: "j < length ?xs" "ru_id (ex_entry (?xs ! j)) = name" using found by (simp_all add: found_at_def)
  show "j < k"
  proof (cases "?o \<le> j")
    case False
    then show ?thesis using ko by simp
  next
    case True
    have pos: "0 < ?n" using k ko len by (cases ?n) auto
    define a b where "a = (k - ?o) mod ?n" and "b = (j - ?o) mod ?n"
    have ab: "a < ?n" "b < ?n" using pos by (simp_all add: a_def b_def)
    have idj: "name = ru_id (rc_uops r ! b)" using j nth [OF True j(1)] by (simp add: b_def)
    then have nm: "name \<in> set (map ru_id (rc_uops r))" using ab by simp
    have other: "\<forall>q. dy_prep d = Some q \<longrightarrow> name \<noteq> ru_id q"
    proof (intro allI impI notI)
      fix q assume "dy_prep d = Some q" "name = ru_id q"
      then show False using nm prep by (simp only: prep_fits_def option.case) blast
    qed
    have "name \<in> set (ru_depends_on (rc_uops r ! a)) \<union> (case dy_prep d of None \<Rightarrow> {} | Some v \<Rightarrow> {ru_id v})"
      using name conjunct1 [OF conjunct2 [OF nth [OF ko k]]] by (simp only: after_prep_fields a_def)
    then have dep: "name \<in> set (ru_depends_on (rc_uops r ! a))"
      using other by (cases "dy_prep d") auto
    then have "b < a" using ordered_recipe_earlier [OF ord ab(1) _ ab(2)] idj by simp
    moreover have "(j - ?o) div ?n = (k - ?o) div ?n"
    proof -
      define l where "l = ?o + (b + ((k - ?o) div ?n) * ?n)"
      have eq: "k = ?o + ((k - ?o) div ?n) * ?n + a" using ko by (simp add: a_def)
      then have l: "l < length ?xs" "?o \<le> l" using k \<open>b < a\<close> by (simp_all add: l_def)
      have "(l - ?o) div ?n = (k - ?o) div ?n" "(l - ?o) mod ?n = b" using ab pos by (simp_all add: l_def)
      then have "ru_id (ex_entry (?xs ! l)) = name" "ex_part_index (?xs ! l) = ex_part_index (?xs ! k)"
        using nth [OF l(2,1)] nth [OF ko k] idj by simp_all
      then have "ex_part_index (?xs ! j) = ex_part_index (?xs ! k)"
        using found l nth [OF ko k] unfolding found_at_def by auto
      then show ?thesis using nth [OF ko k] nth [OF True j(1)] by simp
    qed
    moreover have "k - ?o = (k - ?o) div ?n * ?n + a" and "j - ?o = (j - ?o) div ?n * ?n + b" by (simp_all add: a_def b_def)
    ultimately have "j - ?o < k - ?o" by simp
    then show ?thesis using ko True by simp
  qed
qed

section \<open>Bound uops\<close>

lemma bind_uop_fields:
  assumes "bind_uop p c (n, x) = Inr u"
  shows "u_id u = uop_name (i_id (bx_instruction c)) n" "u_parent_id u = i_id (bx_instruction c)"
    "u_part_index u = ex_part_index x" "u_part_count u = ex_part_count x" "u_kind u = ru_kind (ex_entry x)"
    "u_resource_choices u = ru_resource_choices (ex_entry x)" "u_issue_domains u = ru_issue_domains (ex_entry x)"
    "u_issue_domain_demands u = domain_demands (ru_issue_domains (ex_entry x)) (ru_issue_domain_demands (ex_entry x))"
    "u_execution_unit_choices u = execution_unit_choices p (ru_resource_choices (ex_entry x))"
    "\<exists>us. u_scheduler_partition_choices u = ordered_unique us"
    "convert_allocations (ex_path x) (ru_rename_allocations (ex_entry x)) = Inr (u_rename_allocations u)"
    "parameter_ticks (pf_ticks_per_cycle p) (ru_latency_cycles (ex_entry x)) (ex_path x @ ''.latency_cycles'') = Inr (u_latency_ticks u)"
    "parameter_ticks (pf_ticks_per_cycle p) (ru_occupancy_cycles (ex_entry x)) (ex_path x @ ''.resource_occupancy_cycles'') =
       Inr (u_occupancy_ticks u)"
    "uop_memory p c x = Inr (u_memory u)"
    "u_dispatch_tick u = None" "u_issue_tick u = None" "u_complete_tick u = None"
    "ex_index x < length (bx_bindings c)" "u_semantic_ids u = bx_bindings c ! ex_index x"
  using assms unfolding bind_uop_def scheduler_partitions_def Let_def
  by (auto simp: rbind_eq_Inr_iff uop_name_def blank_uop_def split: if_splits)

text \<open>What linking adds to a uop.\<close>

lemma link_uopE:
  assumes "link_uop p c results pairs (x, u) = Inr v"
  obtains local external state old previous gap where
    "local_dependencies pairs x = Inr local"
    "producer_ids results (u_part_index u) (external_producers (bx_instruction c) (u_kind u) (ex_index x = 0)
       (ru_external_registers (ex_entry x))) = Inr external"
    "if u_requires_vector_state u
     then producer_ids results (u_part_index u) (register_producers (i_register_dependencies (bx_instruction c))
       (dq_registers (dependency_policy_of p))) = Inr state else state = []"
    "if u_reads_old_destination u
     then producer_ids results (u_part_index u) (register_producers
       (old_destination_links (bx_instruction c) (u_kind u \<in> set (dq_old_implicit_kinds (dependency_policy_of p))))
       (old_destination_registers (bx_instruction c) (bound_semantics c (u_semantic_ids u))
         (u_kind u \<in> set (dq_old_implicit_kinds (dependency_policy_of p))))) = Inr old else old = []"
    "previous \<noteq> None \<Longrightarrow> \<exists>w\<in>set (map snd pairs). previous = Some (u_id w)"
    "v = u\<lparr>u_dependencies := insert_all old (insert_all state (insert_all external (insert_all local []))),
       u_vector_state_dependencies := insert_all state [], u_old_destination_dependencies := insert_all old [],
       u_issue_after_uop := previous, u_issue_gap_ticks := gap\<rparr>"
proof -
  let ?implicit = "u_kind u \<in> set (dq_old_implicit_kinds (dependency_policy_of p))"
  obtain local previous external state old where 1: "local_dependencies pairs x = Inr local"
      "previous_part p c (map snd pairs) x = Inr previous"
      "producer_ids results (u_part_index u) (external_producers (bx_instruction c) (u_kind u) (ex_index x = 0)
         (ru_external_registers (ex_entry x))) = Inr external"
      "(if u_requires_vector_state u
        then producer_ids results (u_part_index u) (register_producers (i_register_dependencies (bx_instruction c))
          (dq_registers (dependency_policy_of p))) else Inr []) = Inr state"
      "(if u_reads_old_destination u
        then producer_ids results (u_part_index u) (register_producers (old_destination_links (bx_instruction c) ?implicit)
          (old_destination_registers (bx_instruction c) (bound_semantics c (u_semantic_ids u)) ?implicit)) else Inr []) = Inr old"
      "v = u\<lparr>u_dependencies := insert_all old (insert_all state (insert_all external (insert_all local []))),
        u_vector_state_dependencies := insert_all state [], u_old_destination_dependencies := insert_all old [],
        u_issue_after_uop := map_option fst previous,
        u_issue_gap_ticks := (case previous of None \<Rightarrow> 0 | Some (_, gap) \<Rightarrow> gap)\<rparr>"
    using assms unfolding link_uop_def Let_def by (auto simp: rbind_eq_Inr_iff)
  have "\<exists>w\<in>set (map snd pairs). map_option fst previous = Some (u_id w)" if some: "map_option fst previous \<noteq> None"
  proof -
    obtain part w ws gap where w: "filter (\<lambda>u. u_part_index u = Some (part - 1)) (map snd pairs) = w # ws"
        "previous = Some (u_id w, gap)"
      using 1(2) some unfolding previous_part_def
      by (auto simp: rbind_eq_Inr_iff split: option.splits if_splits list.splits)
    have "w \<in> set (filter (\<lambda>u. u_part_index u = Some (part - 1)) (map snd pairs))" by (simp only: w list.set_intros)
    then have "w \<in> set (map snd pairs)" by simp
    then show ?thesis using w(2) by auto
  qed
  then show thesis using 1 by (intro that [of local external state old "map_option fst previous"]) (simp_all split: if_splits)
qed

end
