(* ===== verification/ProfileCheck.thy ===== *)
theory ProfileCheck
  imports ProfileData
begin

text \<open>
  The constructor of \<open>Profile\<close>: the checks of the ISA, the backend topology, the dependency policy,
  the evidence, the overlap kinds and the issue and dispatch domains, in the order of the code, and
  the tick unit.  The \<open>isinstance\<close> tests of mappings and lists are the types of the records; the
  value tests are kept.
\<close>

section \<open>Values\<close>

definition positive_count :: "parameter \<Rightarrow> bool" where
  "positive_count v = (case v of Measure \<Rightarrow> True | Whole n \<Rightarrow> 1 \<le> n | Decimal _ _ \<Rightarrow> False)"

definition nonnegative_count :: "parameter \<Rightarrow> bool" where
  "nonnegative_count v = (case v of Measure \<Rightarrow> True | Whole n \<Rightarrow> 0 \<le> n | Decimal _ _ \<Rightarrow> False)"

definition nonnegative_number :: "parameter \<Rightarrow> bool" where
  "nonnegative_number v = (case v of Measure \<Rightarrow> True | Whole n \<Rightarrow> 0 \<le> n | Decimal m _ \<Rightarrow> 0 \<le> m)"

definition exceeds :: "parameter \<Rightarrow> parameter \<Rightarrow> bool" where
  "exceeds v bound = (case (v, bound) of (Whole n, Whole k) \<Rightarrow> k < n | _ \<Rightarrow> False)"

definition validate_isa :: "profile \<Rightarrow> unit presult" where
  "validate_isa p =
     rguard (case pf_vector_length_bits p of None \<Rightarrow> True | Some n \<Rightarrow> n \<le> pf_max_vector_bits p) InvalidIsa"

section \<open>Backend topology\<close>

definition missing_from :: "string list \<Rightarrow> string list \<Rightarrow> string list" where
  "missing_from xs known = sort (remdups (filter (\<lambda>x. x \<notin> set known) xs))"

definition list_unit :: "(string, execution_unit) dict \<Rightarrow> string \<Rightarrow> string \<Rightarrow> string list \<Rightarrow> string list presult" where
  "list_unit units partition_id unit_id listed =
     rbind (rguard (unit_id \<notin> set listed) (UnitListedTwice unit_id)) (\<lambda>_.
     case map_of units unit_id of
       None \<Rightarrow> Inl (MissingListedUnit unit_id)
     | Some u \<Rightarrow>
         rbind (rguard (eu_partition u = partition_id) (UnitDisagrees unit_id partition_id)) (\<lambda>_.
         Inr (listed @ [unit_id])))"

definition list_partition :: "(string, execution_unit) dict \<Rightarrow> partition_entry \<Rightarrow> string list \<Rightarrow> string list presult" where
  "list_partition units entry listed = rfold (list_unit units (pt_id entry)) (pt_execution_units entry) listed"

definition check_unit_entry :: "string list \<Rightarrow> string list \<Rightarrow> string \<times> execution_unit \<Rightarrow> unit presult" where
  "check_unit_entry partitions resources entry =
     (case entry of (unit_id, u) \<Rightarrow>
      rbind (rguard (eu_partition u \<in> set partitions) (MissingPartition unit_id (eu_partition u))) (\<lambda>_.
      let missing = missing_from (eu_functional_units u) resources in
      rguard (missing = []) (MissingFunctional unit_id missing)))"

definition add_port :: "string \<Rightarrow> string list \<Rightarrow> string \<times> port_domain \<Rightarrow> string list \<Rightarrow> string list presult" where
  "add_port kind units entry known =
     (case entry of (domain_id, d) \<Rightarrow>
      rbind (rguard (domain_id \<notin> set known) (DuplicatePort kind domain_id)) (\<lambda>_.
      rbind (rguard (\<not> exceeds (pd_arbitration_capacity d) (pd_port_count d)) (PortOverbooked domain_id)) (\<lambda>_.
      let missing = missing_from (pd_execution_units d) units in
      rbind (rguard (missing = []) (MissingPortUnits domain_id missing)) (\<lambda>_.
      Inr (known @ [domain_id])))))"

definition add_register_file :: "string list \<Rightarrow> register_file_entry \<Rightarrow> string list \<times> string list
    \<Rightarrow> (string list \<times> string list) presult" where
  "add_register_file units f known =
     (case known of (reads, writes) \<Rightarrow>
      rbind (rfold (add_port ''read_domain'' units) (rg_read_domains f) reads) (\<lambda>reads.
      rbind (rfold (add_port ''writeback_domain'' units) (rg_writeback_domains f) writes) (\<lambda>writes.
      Inr (reads, writes))))"

definition check_unit_ports :: "string list \<Rightarrow> string list \<Rightarrow> string \<times> execution_unit \<Rightarrow> unit presult" where
  "check_unit_ports reads writes entry =
     (case entry of (unit_id, u) \<Rightarrow>
      rbind (case truthy (eu_read_domain u) of None \<Rightarrow> Inr ()
        | Some d \<Rightarrow> rguard (d \<in> set reads) (MissingUnitReadDomain unit_id d)) (\<lambda>_.
      case truthy (eu_writeback_domain u) of None \<Rightarrow> Inr ()
      | Some d \<Rightarrow> rguard (d \<in> set writes) (MissingUnitWriteDomain unit_id d)))"

text \<open>The configured scheduler size is the sum of the vector partitions, when all are numbers.\<close>

definition check_vector_entries :: "profile \<Rightarrow> backend \<Rightarrow> unit presult" where
  "check_vector_entries p b =
     rbind (fetch PKeyError (pf_pipeline p) ''vector_scheduler_entries'') (\<lambda>configured.
     let entries = map pt_entries (filter (\<lambda>e. pt_kind e = ''vector_compute'') (be_partitions b));
         whole = List.map_filter (\<lambda>v. case v of Whole n \<Rightarrow> Some n | _ \<Rightarrow> None) entries in
     rguard (case configured of
         Whole n \<Rightarrow> entries = [] \<or> length whole \<noteq> length entries \<or> sum_list whole = n
       | _ \<Rightarrow> True) SchedulerSumDiffers)"

definition check_register_width :: "backend \<Rightarrow> unit presult" where
  "check_register_width b =
     rguard (case be_decomposition b of None \<Rightarrow> True
       | Some d \<Rightarrow> (case dc_register_width_bits d of Whole n \<Rightarrow> n mod 8 = 0 | _ \<Rightarrow> True)) UnalignedRegisterWidth"

definition ACCOUNTING_BASES :: "string list" where
  "ACCOUNTING_BASES =
     [''decoded_macro_ops'', ''execution_uops'', ''max_decoded_or_execution_uops'', ''architectural_instructions'']"

definition accounting_basis :: "backend \<Rightarrow> string \<Rightarrow> string" where
  "accounting_basis b field = (case map_of (be_accounting b) field of None \<Rightarrow> ''decoded_macro_ops'' | Some x \<Rightarrow> x)"

definition check_accounting :: "backend \<Rightarrow> string \<Rightarrow> unit presult" where
  "check_accounting b field =
     rguard (accounting_basis b field \<in> set ACCOUNTING_BASES) (UnsupportedBasis field)"

definition check_service :: "string \<Rightarrow> (parameter \<Rightarrow> bool) \<Rightarrow> (string, parameter) dict option \<Rightarrow> unit presult" where
  "check_service field valid service =
     (case service of None \<Rightarrow> Inr ()
      | Some d \<Rightarrow>
          rbind (rguard (d \<noteq> []) (EmptyServiceMap field)) (\<lambda>_.
          rbind (rguard (set (keys d) \<subseteq> {''load'', ''store''}) (InvalidMemoryPolicy field)) (\<lambda>_.
          rall (\<lambda>(kind, v). rguard (valid v) (InvalidServiceValue field kind)) d)))"

definition missing_split_fields :: "vector_memory_config \<Rightarrow> string list" where
  "missing_split_fields c =
     (if vc_boundary_bytes c = None then [''boundary_bytes''] else []) @
     (if vc_issue_cycles_per_flow c = None then [''issue_cycles_per_flow''] else [])"

definition check_vector_memory :: "vector_memory_config \<Rightarrow> unit presult" where
  "check_vector_memory c =
     (let order = (case vc_issue_order c of None \<Rightarrow> ''any'' | Some x \<Rightarrow> x) in
      rbind (rguard (order \<in> {''any'', ''oldest'', ''oldest_same_kind''}) (UnsupportedIssueOrder order)) (\<lambda>_.
      rbind (check_service ''service_capacity'' positive_count (vc_service_capacity c)) (\<lambda>_.
      rbind (rguard (nonnegative_number (optional_parameter (vc_store_completion_cycles c) (Whole 0)))
        (InvalidMemoryPolicy ''store_completion_cycles'')) (\<lambda>_.
      rbind (check_service ''service_cycles'' nonnegative_number (vc_service_cycles c)) (\<lambda>_.
      rbind (rguard (length (missing_split_fields c) \<noteq> 1) (IncompleteFlowSplit (missing_split_fields c))) (\<lambda>_.
      rbind (rguard (positive_count (optional_parameter (vc_boundary_bytes c) Measure)) (InvalidMemoryPolicy ''boundary_bytes'')) (\<lambda>_.
      rguard (nonnegative_number (optional_parameter (vc_issue_cycles_per_flow c) Measure))
        (InvalidMemoryPolicy ''issue_cycles_per_flow''))))))))"

definition check_epochs :: "backend \<Rightarrow> unit presult" where
  "check_epochs b =
     (case be_epochs b of None \<Rightarrow> Inr ()
      | Some c \<Rightarrow>
          rbind (rguard (be_execution_model b = ''xsai-rvv'') EpochsNeedXsai) (\<lambda>_.
          rall (\<lambda>(field, v). rguard (nonnegative_number v) (InvalidEpochField field))
            [(''load_only_visibility_cycles'', ec_load_only_visibility_cycles c),
             (''multi_load_drain_cycles'', ec_multi_load_drain_cycles c),
             (''chained_compute_drain_cycles'', ec_chained_compute_drain_cycles c),
             (''parallel_reduction_overlap_cycles'', ec_parallel_reduction_overlap_cycles c)]))"

definition check_rename :: "backend \<Rightarrow> unit presult" where
  "check_rename b =
     (case be_rename b of None \<Rightarrow> Inr ()
      | Some c \<Rightarrow>
          if \<not> ra_enabled c then Inr ()
          else
            rbind (rguard (ra_free_lists c \<noteq> []) EmptyFreeLists) (\<lambda>_.
            rbind (rguard (ra_policy c \<in> {''all_files_must_be_ready'', ''any_file_may_be_ready''})
              (UnsupportedRenamePolicy (ra_policy c))) (\<lambda>_.
            rbind (rall (\<lambda>(name, v). rguard (positive_count v) (InvalidRenameField (''free_lists.'' @ name))) (ra_free_lists c)) (\<lambda>_.
            rbind (rall (\<lambda>(field, v). rguard (positive_count v) (InvalidRenameField field))
              [(''allocation_width'', ra_allocation_width c), (''release_width'', ra_release_width c)]) (\<lambda>_.
            rbind (rall (\<lambda>(field, v). rguard (nonnegative_number v) (InvalidRenameField field))
              [(''release_delay_cycles'', ra_release_delay_cycles c),
               (''availability_delay_cycles'', ra_availability_delay_cycles c)]) (\<lambda>_.
            rguard (nonnegative_count (ra_guard_entries c)) (InvalidRenameField ''guard_entries'')))))))"

definition validate_backend_topology :: "profile \<Rightarrow> unit presult" where
  "validate_backend_topology p =
     (case pf_backend p of None \<Rightarrow> Inr ()
      | Some b \<Rightarrow>
          let partitions = map pt_id (be_partitions b); units = be_units b in
          rbind (rguard (distinct partitions) DuplicatePartitionIds) (\<lambda>_.
          rbind (rfold (list_partition units) (be_partitions b) []) (\<lambda>listed.
          let unlisted = missing_from (keys units) listed in
          rbind (rguard (unlisted = []) (UnlistedUnits unlisted)) (\<lambda>_.
          rbind (rall (check_unit_entry partitions (keys (pf_resources p))) units) (\<lambda>_.
          rbind (rfold (add_register_file (keys units)) (be_register_files b) ([], [])) (\<lambda>(reads, writes).
          rbind (rall (check_unit_ports reads writes) units) (\<lambda>_.
          rbind (check_vector_entries p b) (\<lambda>_.
          rbind (check_register_width b) (\<lambda>_.
          rbind (rall (check_accounting b) [''dispatch_units'', ''rob_entries'']) (\<lambda>_.
          rbind (check_vector_memory (be_vector_memory b)) (\<lambda>_.
          rbind (check_epochs b) (\<lambda>_.
          rbind (rall (\<lambda>(d, e). rguard (positive_count (de_capacity e)) (InvalidDomainCapacity d)) (be_dispatch_domains b)) (\<lambda>_.
          check_rename b)))))))))))))"

section \<open>Dependency policy\<close>

definition DEPENDENCY_KINDS :: "string list" where
  "DEPENDENCY_KINDS =
     [''vector_fp'', ''vector_integer'', ''conversion'', ''shuffle'', ''vector_control'', ''vector_divide'',
      ''address_generation'', ''load_data'', ''store_data'']"

definition unique_names :: "string list \<Rightarrow> bool" where
  "unique_names xs \<longleftrightarrow> xs \<noteq> [] \<and> distinct xs"

definition check_kinds :: "string \<Rightarrow> string list \<Rightarrow> unit presult" where
  "check_kinds field kinds =
     (let unknown = missing_from kinds DEPENDENCY_KINDS in rguard (unknown = []) (UnknownExecutionKinds field unknown))"

definition check_state_dependency :: "state_dependency \<Rightarrow> unit presult" where
  "check_state_dependency s =
     rbind (rguard (unique_names (st_registers s)) (InvalidDependencyPolicy ''registers'')) (\<lambda>_.
     rbind (rguard (unique_names (st_wait_kinds s)) (InvalidDependencyPolicy ''vector_state.wait_execution_kinds'')) (\<lambda>_.
     check_kinds ''vector_state'' (st_wait_kinds s)))"

definition check_old_dependency :: "old_dependency \<Rightarrow> unit presult" where
  "check_old_dependency d =
     rbind (rguard (od_mode d \<in> {''disabled'', ''semantic''}) (InvalidDependencyPolicy ''mode'')) (\<lambda>_.
     rbind (rguard (unique_names (od_wait_kinds d)) (InvalidDependencyPolicy ''old_destination.wait_execution_kinds'')) (\<lambda>_.
     rbind (check_kinds ''old_destination'' (od_wait_kinds d)) (\<lambda>_.
     rbind (rguard (distinct (od_implicit_kinds d)) (InvalidDependencyPolicy ''implicit_execution_kinds'')) (\<lambda>_.
     rbind (check_kinds ''implicit_execution_kinds'' (od_implicit_kinds d)) (\<lambda>_.
     let outside = missing_from (od_implicit_kinds d) (od_wait_kinds d) in
     rguard (outside = []) (ImplicitOutsideWait outside))))))"

definition validate_vector_dependency_policy :: "profile \<Rightarrow> unit presult" where
  "validate_vector_dependency_policy p =
     (case be_dependency (backend_of p) of None \<Rightarrow> Inr ()
      | Some c \<Rightarrow>
          rbind (rguard (unique_names (dp_evidence c)) (InvalidDependencyPolicy ''evidence'')) (\<lambda>_.
          rbind (rguard (dp_state c \<noteq> None \<or> dp_old c \<noteq> None) (InvalidDependencyPolicy ''vector_dependency'')) (\<lambda>_.
          rbind (case dp_state c of None \<Rightarrow> Inr () | Some s \<Rightarrow> check_state_dependency s) (\<lambda>_.
          case dp_old c of None \<Rightarrow> Inr () | Some d \<Rightarrow> check_old_dependency d))))"

section \<open>Evidence, domains and the constructor\<close>

definition evidence_references :: "profile \<Rightarrow> string list" where
  "evidence_references p =
     (let b = backend_of p in
      concat (pf_evidence p) @ concat (map (\<lambda>(_, d). de_evidence d) (pf_issue_domains p)) @
      concat (map (\<lambda>(_, d). de_evidence d) (be_dispatch_domains b)) @
      (case be_rename b of None \<Rightarrow> [] | Some c \<Rightarrow> ra_evidence c) @
      (case be_dependency b of None \<Rightarrow> [] | Some c \<Rightarrow> dp_evidence c) @
      vc_evidence (be_vector_memory b) @
      (case be_epochs b of None \<Rightarrow> [] | Some c \<Rightarrow> ec_evidence c) @
      (case pf_fit p of None \<Rightarrow> [] | Some f \<Rightarrow> sf_evidence f))"

definition validate_evidence_sources :: "profile \<Rightarrow> unit presult" where
  "validate_evidence_sources p =
     rbind (rguard (distinct (pf_sources p)) DuplicateSourceIds) (\<lambda>_.
     let unknown = missing_from (evidence_references p) (pf_sources p) in
     rguard (unknown = []) (MissingSources unknown))"

definition validate_overlap :: "profile \<Rightarrow> unit presult" where
  "validate_overlap p =
     (let unknown = missing_from (ol_compute_kinds (overlap_of p)) (keys SEMANTIC_EXECUTION_KINDS) in
      rguard (unknown = []) (UnknownOverlapKinds unknown))"

text \<open>One demand on a domain: it is at least one and fits a capacity that is a number.\<close>

definition check_demand :: "string \<Rightarrow> string \<Rightarrow> (string, domain_entry) dict \<Rightarrow> (string, int) dict \<Rightarrow> string \<Rightarrow> unit presult" where
  "check_demand recipe_id user domains demands domain_id =
     (case map_of domains domain_id of None \<Rightarrow> Inl (MissingDomain domain_id)
      | Some d \<Rightarrow>
          let demand = (case map_of demands domain_id of None \<Rightarrow> 1 | Some n \<Rightarrow> n) in
          rbind (rguard (1 \<le> demand) (InvalidDemand recipe_id user domain_id)) (\<lambda>_.
          rguard (\<not> exceeds (Whole demand) (de_capacity d)) (DemandOverCapacity recipe_id user domain_id)))"

definition check_uop_domains :: "(string, domain_entry) dict \<Rightarrow> string \<Rightarrow> recipe_uop \<Rightarrow> unit presult" where
  "check_uop_domains domains recipe_id u =
     (let unlisted = missing_from (keys (ru_issue_domain_demands u)) (ru_issue_domains u) in
      rbind (rguard (unlisted = []) (UnlistedDemand recipe_id (ru_id u) unlisted)) (\<lambda>_.
      rall (check_demand recipe_id (ru_id u) domains (ru_issue_domain_demands u)) (ru_issue_domains u)))"

definition validate_issue_domains :: "profile \<Rightarrow> unit presult" where
  "validate_issue_domains p =
     rall (\<lambda>(recipe_id, r). rall (check_uop_domains (pf_issue_domains p) recipe_id) (rc_uops r)) (pf_recipes p)"

definition check_recipe_domains :: "(string, domain_entry) dict \<Rightarrow> string \<times> recipe \<Rightarrow> unit presult" where
  "check_recipe_domains domains entry =
     (case entry of (recipe_id, r) \<Rightarrow>
      rbind (rguard (distinct (rc_dispatch_domains r)) (DuplicateRecipeDomains recipe_id)) (\<lambda>_.
      let unlisted = missing_from (keys (rc_dispatch_domain_demands r)) (rc_dispatch_domains r) in
      rbind (rguard (unlisted = []) (UnlistedDemand recipe_id '''' unlisted)) (\<lambda>_.
      rall (check_demand recipe_id '''' domains (rc_dispatch_domain_demands r)) (rc_dispatch_domains r))))"

definition validate_dispatch_domains :: "profile \<Rightarrow> unit presult" where
  "validate_dispatch_domains p = rall (check_recipe_domains (be_dispatch_domains (backend_of p))) (pf_recipes p)"

definition make_profile :: "profile \<Rightarrow> profile presult" where
  "make_profile p =
     rbind (validate_isa p) (\<lambda>_.
     rbind (validate_backend_topology p) (\<lambda>_.
     rbind (validate_vector_dependency_policy p) (\<lambda>_.
     rbind (validate_evidence_sources p) (\<lambda>_.
     rbind (validate_overlap p) (\<lambda>_.
     rbind (validate_issue_domains p) (\<lambda>_.
     rbind (validate_dispatch_domains p) (\<lambda>_.
     rbind (compute_ticks_per_cycle p) (\<lambda>tpc.
     Inr (p\<lparr>pf_unresolved := unresolved_parameters (pf_data p), pf_ticks_per_cycle := tpc\<rparr>)))))))))"

end
