(* ===== verification/BindTrace.thy ===== *)
theory BindTrace
  imports BindSteps ProfileCheck
begin

text \<open>
  The invariant of the binder: what it has bound after some instructions is well formed, with
  dependencies that point backwards, so that the trace it returns passes the validator.
\<close>

section \<open>What the schema grants\<close>

definition at_least_one :: "parameter \<Rightarrow> bool" where
  "at_least_one v = (case v of Measure \<Rightarrow> True | Whole n \<Rightarrow> 1 \<le> n | Decimal m k \<Rightarrow> 10 ^ k \<le> m)"

lemma at_least_oneD: "at_least_one v \<Longrightarrow> parameter_int v path = Inr n \<Longrightarrow> 1 \<le> n"
proof -
  assume v: "at_least_one v" "parameter_int v path = Inr n"
  show "1 \<le> n"
  proof (cases v)
    case (Decimal m k)
    then have "10 ^ k \<le> m" using v(1) by (simp add: at_least_one_def)
    moreover have "(0::int) < 10 ^ k" by simp
    ultimately have "0 < m" "1 \<le> m div 10 ^ k" by (linarith, simp add: pos_imp_zdiv_pos_iff int_one_le_iff_zero_less)
    then show ?thesis using v(2) by (simp add: Decimal parameter_int_def)
  qed (use v in \<open>auto simp: at_least_one_def parameter_int_def\<close>)
qed

lemma ticks_nonneg:
  assumes "nonnegative_number v" and "0 \<le> tpc" and "parameter_ticks tpc v path = Inr t"
  shows "0 \<le> t"
proof (cases v)
  case (Decimal m k)
  then have "t = (m * tpc) div 10 ^ k" "0 \<le> m"
    using assms by (auto simp: parameter_ticks_def cycle_ticks_def nonnegative_number_def split: if_splits)
  then show ?thesis using assms(2) by (simp add: pos_imp_zdiv_nonneg_iff)
qed (use assms in \<open>auto simp: parameter_ticks_def cycle_ticks_def nonnegative_number_def\<close>)

definition allocations_ready :: "(string, parameter) dict \<Rightarrow> bool" where
  "allocations_ready d \<longleftrightarrow> distinct (keys d) \<and> list_all (\<lambda>(_, v). at_least_one v) d"

definition entry_ready :: "recipe_uop \<Rightarrow> bool" where
  "entry_ready u \<longleftrightarrow> ru_resource_choices u \<noteq> [] \<and> distinct (ru_issue_domains u) \<and>
     list_all (\<lambda>(_, n). 1 \<le> n) (ru_issue_domain_demands u) \<and> allocations_ready (ru_rename_allocations u) \<and>
     nonnegative_number (ru_latency_cycles u) \<and> nonnegative_number (ru_occupancy_cycles u)"

definition below_count :: "int \<Rightarrow> parameter \<Rightarrow> bool" where
  "below_count i v = (case v of Measure \<Rightarrow> True | Whole n \<Rightarrow> i < n | Decimal m k \<Rightarrow> 0 \<le> m \<and> i < m div 10 ^ k)"

lemma below_countD: "below_count i v \<Longrightarrow> parameter_int v path = Inr n \<Longrightarrow> i < n"
  by (cases v) (auto simp: below_count_def parameter_int_def sgn_if)

definition parts_ready :: "recipe \<Rightarrow> bool" where
  "parts_ready r \<longleftrightarrow> list_all (\<lambda>u. case ru_part_index u of None \<Rightarrow> True | Some i \<Rightarrow> 0 \<le> i \<and>
     (case rc_decomposition r of None \<Rightarrow> True | Some d \<Rightarrow> below_count i (sp_parts d))) (rc_uops r)"

definition recipe_ready :: "recipe_uop list \<Rightarrow> recipe \<Rightarrow> bool" where
  "recipe_ready preps r \<longleftrightarrow> rc_uops r \<noteq> [] \<and> ordered_recipe (rc_uops r) \<and> list_all entry_ready (rc_uops r) \<and>
     at_least_one (rc_decoded_macro_ops r) \<and> at_least_one (rc_retire_macro_ops r) \<and>
     distinct (rc_dispatch_domains r) \<and> list_all (\<lambda>(_, n). 1 \<le> n) (rc_dispatch_domain_demands r) \<and>
     allocations_ready (rc_rename_allocations r) \<and> parts_ready r \<and>
     list_all (\<lambda>q. entry_ready q \<and> prep_fits (rc_uops r) (Some q)) preps"

definition profile_preps :: "profile \<Rightarrow> recipe_uop list" where
  "profile_preps p = (case be_decomposition (backend_of p) of None \<Rightarrow> []
     | Some d \<Rightarrow> concat (map (\<lambda>(_, rule). case rule of PlainRule _ \<Rightarrow> [] | PrepRule _ variants \<Rightarrow> map snd variants) (dc_rules d)))"

definition fit_ready :: "fit_uop \<Rightarrow> bool" where
  "fit_ready f \<longleftrightarrow> fu_resource_choices f \<noteq> [] \<and> nonnegative_number (fu_latency_cycles f) \<and>
     nonnegative_number (fu_occupancy_cycles f)"

text \<open>A profile the binder can use: the constraints of the schema and recipes in dependency order.\<close>

definition binder_ready :: "profile \<Rightarrow> bool" where
  "binder_ready p \<longleftrightarrow> list_all (\<lambda>(_, r). recipe_ready (profile_preps p) r) (pf_recipes p) \<and>
     (case pf_fit p of None \<Rightarrow> True | Some f \<Rightarrow> list_all (\<lambda>(_, t). fit_ready t) (sf_uops f)) \<and>
     list_all (\<lambda>q. entry_ready q \<and> ru_depends_on q = [] \<and> ru_id q \<noteq> ''fit'') (profile_preps p) \<and>
     distinct (keys (be_units (backend_of p))) \<and> 0 \<le> pf_ticks_per_cycle p"

lemma recipe_found:
  assumes "find_profile_recipe p i h = Inr (key, r, path)" and "binder_ready p"
  shows "recipe_ready (profile_preps p) r"
proof (cases "map_of (pf_recipes p) key")
  case None
  then have "fallback_recipe p (instruction_kinds i) key = Inr r"
    using assms(1) by (auto simp: find_profile_recipe_def Let_def rbind_eq_Inr_iff split: option.splits)
  then obtain f semantic t where f: "pf_fit p = Some f" "map_of (sf_uops f) semantic = Some t" and
      r: "rc_decoded_macro_ops r = Whole 1" "rc_retire_macro_ops r = Whole 1" "rc_dispatch_domains r = []"
        "rc_dispatch_domain_demands r = []" "rc_decomposition r = None" "rc_rename_allocations r = []"
        "\<exists>u. rc_uops r = [u] \<and> ru_id u = ''fit'' \<and> ru_resource_choices u = fu_resource_choices t \<and> ru_issue_domains u = [] \<and>
          ru_issue_domain_demands u = [] \<and> ru_rename_allocations u = [] \<and> ru_depends_on u = [] \<and> ru_part_index u = None \<and>
          ru_latency_cycles u = fu_latency_cycles t \<and> ru_occupancy_cycles u = fu_occupancy_cycles t"
    by (auto simp: fallback_recipe_def split: option.splits list.splits if_splits)
  have "fit_ready t" using assms(2) f map_of_SomeD [OF f(2)] by (auto simp: binder_ready_def list_all_iff)
  moreover have "list_all (\<lambda>q. entry_ready q \<and> ru_depends_on q = [] \<and> ru_id q \<noteq> ''fit'') (profile_preps p)"
    using assms(2) by (simp add: binder_ready_def)
  ultimately show ?thesis using r
    by (auto simp: recipe_ready_def ordered_recipe_def entry_ready_def allocations_ready_def keys_def at_least_one_def
        parts_ready_def fit_ready_def prep_fits_def list_all_iff)
next
  case (Some r')
  then have "r' = r" using assms(1) by (auto simp: find_profile_recipe_def Let_def rbind_eq_Inr_iff split: option.splits)
  then show ?thesis using assms(2) map_of_SomeD [OF Some] by (auto simp: binder_ready_def list_all_iff)
qed

lemma decomposition_prep:
  assumes "backend_vector_decomposition p i h = Inr (Some d)"
  shows "1 \<le> dy_parts d" and "dy_prep d = Some q \<Longrightarrow> \<exists>v\<in>set (profile_preps p). ru_id q = ru_id v \<and> ru_kind q = ru_kind v \<and>
     ru_depends_on q = ru_depends_on v \<and> (entry_ready q \<longleftrightarrow> entry_ready v) \<and> ru_issue_domains q = ru_issue_domains v \<and>
     ru_issue_domain_demands q = ru_issue_domain_demands v \<and> ru_resource_choices q = ru_resource_choices v"
proof -
  obtain c category rule r prep pp path where dec: "be_decomposition (backend_of p) = Some c"
      "map_of (dc_rules c) category = Some rule" "1 \<le> dy_parts d" "dy_prep d = prep" and
      sel: "(case rule of PlainRule r \<Rightarrow> Inr (r, None, path)
        | PrepRule r variants \<Rightarrow> rbind (select_vector_prep_uop i h variants (path @ ''.prep_uops'')) (\<lambda>u.
            Inr (r, Some u, path @ ''.parts''))) = Inr (r, prep, pp)"
    using assms unfolding backend_vector_decomposition_def Let_def
    by (clarsimp simp: rbind_eq_Inr_iff split: option.splits)
  show "1 \<le> dy_parts d" by (rule dec(3))
  assume q: "dy_prep d = Some q"
  then obtain part variants path where rule: "rule = PrepRule part variants" and sel: "select_vector_prep_uop i h variants path = Inr q"
    using dec(4) sel by (cases rule) (auto simp: rbind_eq_Inr_iff)
  from sel obtain cl v a b where v: "map_of variants cl = Some v" and qv: "q = v\<lparr>ru_profile_path := a, ru_external_registers := b\<rparr>"
  proof -
    from sel obtain cl x where sel': "rbind (fetch PKeyError variants cl) (\<lambda>u. Inr (u\<lparr>ru_profile_path := Some (path @ ''.'' @ cl),
            ru_external_registers := Some (case x of
              Some r \<Rightarrow> if cl \<in> {''fp_register'', ''register''} then [r] else [] | None \<Rightarrow> [])\<rparr>)) = Inr q"
      unfolding select_vector_prep_uop_def Let_def by (auto split: option.splits list.splits if_splits)
    then obtain v where v: "fetch PKeyError variants cl = Inr v" and q: "q = v\<lparr>ru_profile_path := Some (path @ ''.'' @ cl),
            ru_external_registers := Some (case x of
              Some r \<Rightarrow> if cl \<in> {''fp_register'', ''register''} then [r] else [] | None \<Rightarrow> [])\<rparr>"
      unfolding rbind_eq_Inr_iff by blast
    from v have "map_of variants cl = Some v" by (auto simp: fetch_def split: option.splits)
    then show thesis using q by (rule that)
  qed
  have "v \<in> set (profile_preps p)"
    using map_of_SomeD [OF v] map_of_SomeD [OF dec(2)] by (force simp: profile_preps_def dec(1) rule)
  moreover have "ru_id q = ru_id v \<and> ru_kind q = ru_kind v \<and> ru_depends_on q = ru_depends_on v \<and> (entry_ready q \<longleftrightarrow> entry_ready v) \<and>
     ru_issue_domains q = ru_issue_domains v \<and> ru_issue_domain_demands q = ru_issue_domain_demands v \<and>
     ru_resource_choices q = ru_resource_choices v"
    using qv by (auto simp: entry_ready_def)
  ultimately show "\<exists>v\<in>set (profile_preps p). ru_id q = ru_id v \<and> ru_kind q = ru_kind v \<and>
     ru_depends_on q = ru_depends_on v \<and> (entry_ready q \<longleftrightarrow> entry_ready v) \<and> ru_issue_domains q = ru_issue_domains v \<and>
     ru_issue_domain_demands q = ru_issue_domain_demands v \<and> ru_resource_choices q = ru_resource_choices v" by blast
qed

section \<open>The expansion of a ready recipe\<close>

definition expanded_ready :: "expanded \<Rightarrow> bool" where
  "expanded_ready x \<longleftrightarrow> entry_ready (ex_entry x) \<and> (ex_part_count x \<noteq> None \<longrightarrow> ex_part_index x \<noteq> None) \<and>
     (\<forall>i n. ex_part_index x = Some i \<longrightarrow> ex_part_count x = Some n \<longrightarrow> 0 \<le> i \<and> i < n)"

lemma after_prep_ready [simp]: "entry_ready (after_prep q u) \<longleftrightarrow> entry_ready u"
  by (simp add: entry_ready_def)

lemma bind_context_ofE:
  assumes run: "bind_context_of p i h n = Inr (c, xs)"
  obtains key r path bindings dynamic where "find_profile_recipe p i h = Inr (key, r, path)"
    "(if rc_decomposition r \<noteq> None then Inr None else backend_vector_decomposition p i h) = Inr dynamic"
    "(case dynamic of None \<Rightarrow> expand_static path r | Some d \<Rightarrow> Inr (expand_dynamic path r d)) = Inr xs"
    "bx_instruction c = i" "bx_next_sequence c = n" "bx_recipe c = r" "bx_dynamic c = dynamic"
proof -
  obtain key r path where "find_profile_recipe p i h = Inr (key, r, path)"
    using run unfolding bind_context_of_def rbind_eq_Inr_iff by fast
  then show thesis
    using run that unfolding bind_context_of_def
    by (cases "bind_execution_semantics i (map (\<lambda>u. (Some (ru_id u), ru_kind u)) (rc_uops r))") (auto simp: rbind_eq_Inr_iff)
qed

lemma context_ready:
  assumes run: "bind_context_of p i h n = Inr (c, xs)" and ready: "binder_ready p"
  shows "bx_instruction c = i" "bx_next_sequence c = n" "recipe_ready (profile_preps p) (bx_recipe c)" "xs \<noteq> []" "backward xs"
    "\<forall>x\<in>set xs. expanded_ready x"
proof -
  obtain key r path bindings dynamic where find: "find_profile_recipe p i h = Inr (key, r, path)" and
      dyn: "(if rc_decomposition r \<noteq> None then Inr None else backend_vector_decomposition p i h) = Inr dynamic" and
      xs: "(case dynamic of None \<Rightarrow> expand_static path r | Some d \<Rightarrow> Inr (expand_dynamic path r d)) = Inr xs" and
      c: "bx_instruction c = i" "bx_next_sequence c = n" "bx_recipe c = r"
    by (rule bind_context_ofE [OF run])
  note rr = recipe_found [OF find ready]
  then have ne: "rc_uops r \<noteq> []" and ord: "ordered_recipe (rc_uops r)" and ents: "\<forall>u\<in>set (rc_uops r). entry_ready u"
    by (simp_all add: recipe_ready_def list_all_iff)
  show "bx_instruction c = i" "bx_next_sequence c = n" "recipe_ready (profile_preps p) (bx_recipe c)" using rr by (simp_all add: c)
  have "xs \<noteq> [] \<and> backward xs \<and> (\<forall>k<length xs. expanded_ready (xs ! k))"
  proof (cases dynamic)
    case None
    then have run: "expand_static path r = Inr xs" using xs by simp
    note nth = expand_static_nth [OF run]
    have "expanded_ready (xs ! k)" if k: "k < length xs" for k
    proof -
      have u: "rc_uops r ! k \<in> set (rc_uops r)" using k nth(1) by simp
      have "0 \<le> i \<and> i < m" if im: "ex_part_index (xs ! k) = Some i" "ex_part_count (xs ! k) = Some m" for i m
      proof -
        obtain d where "rc_decomposition r = Some d" "parameter_int (sp_parts d) (path @ ''.vector_decomposition.parts'') = Inr m"
          using nth(2) [OF k] im by blast
        moreover have "case ru_part_index (rc_uops r ! k) of None \<Rightarrow> True | Some i \<Rightarrow> 0 \<le> i \<and>
            (case rc_decomposition r of None \<Rightarrow> True | Some d \<Rightarrow> below_count i (sp_parts d))"
          using rr u by (simp add: recipe_ready_def parts_ready_def list_all_iff)
        moreover have "ru_part_index (rc_uops r ! k) = Some i" using nth(2) [OF k] im(1) by simp
        ultimately show ?thesis by (auto dest: below_countD)
      qed
      then show ?thesis using nth(2) [OF k] ents u by (auto simp: expanded_ready_def)
    qed
    then show ?thesis using static_backward [OF run ord] ne nth(1) by auto
  next
    case (Some d)
    then have xs: "xs = expand_dynamic path r d" and dec: "backend_vector_decomposition p i h = Inr (Some d)"
      using xs dyn by (auto split: if_splits)
    note prep = decomposition_prep [OF dec]
    have fits: "prep_fits (rc_uops r) (dy_prep d)"
      using prep(2) rr by (fastforce simp: prep_fits_def recipe_ready_def list_all_iff split: option.split)
    note nth = expand_dynamic_nth [where r = r and d = d and path = path, folded xs]
    have "expanded_ready (xs ! k)" if k: "k < length xs" for k
    proof (cases "prep_length d \<le> k")
      case True
      have pos: "0 < length (rc_uops r)" using ne by simp
      then have u: "rc_uops r ! ((k - prep_length d) mod length (rc_uops r)) \<in> set (rc_uops r)" by simp
      have "k - prep_length d < nat (dy_parts d) * length (rc_uops r)" using k nth(1) True by linarith
      then have "(k - prep_length d) div length (rc_uops r) < nat (dy_parts d)" using pos by (simp add: less_mult_imp_div_less)
      then show ?thesis using nth(3) [OF True k] ents u by (auto simp: expanded_ready_def)
    next
      case False
      then obtain q where q: "dy_prep d = Some q" "k = 0" "ex_entry (xs ! 0) = q" "ex_part_index (xs ! 0) = None" "ex_part_count (xs ! 0) = None"
        using nth(2) [of k] by auto
      have "entry_ready q" using prep(2) [OF q(1)] rr by (auto simp: recipe_ready_def list_all_iff)
      then show ?thesis using q by (simp add: expanded_ready_def)
    qed
    moreover have "xs \<noteq> []" using nth(1) ne prep(1) by auto
    ultimately show ?thesis using dynamic_backward [OF ord fits] by (simp add: xs)
  qed
  then show "xs \<noteq> []" "backward xs" "\<forall>x\<in>set xs. expanded_ready x" by (auto simp: in_set_conv_nth)
qed

section \<open>The invariant\<close>

text \<open>The fields the validator checks without looking at the rest of the trace, and no timing yet.\<close>

definition bound_uop_ok :: "execution_uop \<Rightarrow> bool" where
  "bound_uop_ok u \<longleftrightarrow>
     set (u_vector_state_dependencies u) \<subseteq> set (u_dependencies u) \<and>
     set (u_old_destination_dependencies u) \<subseteq> set (u_dependencies u) \<and>
     set (keys (u_issue_domain_demands u)) \<subseteq> set (u_issue_domains u) \<and>
     distinct (u_scheduler_partition_choices u) \<and> distinct (u_execution_unit_choices u) \<and>
     (u_part_count u \<noteq> None \<longrightarrow> u_part_index u \<noteq> None) \<and>
     (\<forall>i n. u_part_index u = Some i \<longrightarrow> u_part_count u = Some n \<longrightarrow> 0 \<le> i \<and> i < n) \<and>
     (\<forall>d\<in>set (u_issue_domain_demands u). 1 \<le> snd d) \<and> (\<forall>d\<in>set (u_rename_allocations u). 1 \<le> snd d) \<and>
     u_dispatch_tick u = None \<and> u_issue_tick u = None \<and> u_complete_tick u = None \<and>
     0 \<le> u_latency_ticks u \<and> 0 \<le> u_occupancy_ticks u \<and> u_resource_choices u \<noteq> [] \<and> distinct (u_issue_domains u)"

definition bound_macro_ok :: "execution_uop list \<Rightarrow> macro_op \<Rightarrow> bool" where
  "bound_macro_ok us m \<longleftrightarrow> 1 \<le> m_decoded_macro_ops m \<and> 1 \<le> dispatch_width_units m \<and> 1 \<le> rob_entry_count m \<and>
     1 \<le> m_retire_macro_ops m \<and> distinct (m_dispatch_domains m) \<and>
     set (keys (m_dispatch_domain_demands m)) \<subseteq> set (m_dispatch_domains m) \<and>
     (\<forall>d\<in>set (m_dispatch_domain_demands m). 1 \<le> snd d) \<and> (\<forall>d\<in>set (m_rename_allocations m). 1 \<le> snd d) \<and>
     distinct (keys (m_rename_allocations m)) \<and> distinct (m_uop_ids m) \<and> m_uop_ids m \<noteq> [] \<and>
     (\<forall>i\<in>set (m_uop_ids m). \<exists>u\<in>set us. u_id u = i \<and> u_parent_id u = m_id m) \<and>
     m_dispatch_tick m = None \<and> m_complete_tick m = None \<and> m_retire_tick m = None \<and> m_rob_entries m \<noteq> None \<and>
     (m_uses_vector_scheduler m \<longleftrightarrow> (\<exists>u\<in>set us. u_id u \<in> set (m_uop_ids m) \<and> u_kind u \<in> set VECTOR_RESOURCE_KINDS))"

definition binding_inv :: "string list \<Rightarrow> binding \<Rightarrow> bool" where
  "binding_inv ids b \<longleftrightarrow>
     map m_id (bd_macros b) = ids \<and>
     (\<forall>u\<in>set (bd_uops b). u_parent_id u \<in> set ids \<and> (\<exists>n. u_id u = uop_name (u_parent_id u) n)) \<and>
     distinct (map u_id (bd_uops b)) \<and>
     (\<forall>k<length (bd_uops b). set (u_dependencies (bd_uops b ! k)) \<subseteq> u_id ` set (take k (bd_uops b))) \<and>
     (\<forall>q cs. map_of (bd_results b) q = Some cs \<longrightarrow> fst ` set cs \<subseteq> u_id ` set (bd_uops b)) \<and>
     (\<forall>u\<in>set (bd_uops b). bound_uop_ok u \<and> set (u_resource_choices u) \<subseteq> set (bd_resources b) \<and>
        (\<forall>q. u_issue_after_uop u = Some q \<longrightarrow> q \<in> u_id ` set (bd_uops b))) \<and>
     (\<forall>m\<in>set (bd_macros b). bound_macro_ok (bd_uops b) m) \<and>
     (\<Union>m\<in>set (bd_macros b). set (m_uop_ids m)) = u_id ` set (bd_uops b) \<and> distinct (bd_resources b)"

lemma convert_allocations_ready:
  assumes "convert_allocations path d = Inr d'" and "allocations_ready d"
  shows "keys d' = keys d" "\<forall>x\<in>set d'. 1 \<le> snd x"
proof -
  have "list_all2 (\<lambda>(name, v) x. \<exists>n. parameter_int v (path @ ''.rename_allocations.'' @ name) = Inr n \<and> x = (name, n)) d d'"
    using assms(1) unfolding convert_allocations_def rmap_Inr_iff
    by (rule list_all2_mono) (auto simp: rbind_eq_Inr_iff)
  then have "keys d' = keys d \<and> (list_all (\<lambda>(_, v). at_least_one v) d \<longrightarrow> (\<forall>x\<in>set d'. 1 \<le> snd x))"
    by (induction rule: list_all2_induct) (auto simp: keys_def dest: at_least_oneD)
  then show "keys d' = keys d" "\<forall>x\<in>set d'. 1 \<le> snd x" using assms(2) by (simp_all add: allocations_ready_def)
qed

lemma domain_demands_ready:
  "set (keys (domain_demands ds n)) = set ds"
  "list_all (\<lambda>(_, n). 1 \<le> n) n \<Longrightarrow> \<forall>d\<in>set (domain_demands ds n). 1 \<le> snd d"
  by (auto simp: domain_demands_def keys_def o_def list_all_iff split: option.split dest!: map_of_SomeD)

text \<open>One linked uop, given what its candidates are.\<close>

lemma linked_uop_ok:
  assumes u: "bind_uop p c (k, x) = Inr u" and v: "link_uop p c results pairs (x, u) = Inr v"
    and x: "expanded_ready x" and units: "distinct (keys (be_units (backend_of p)))" and tpc: "0 \<le> pf_ticks_per_cycle p"
  shows "bound_uop_ok v"
proof -
  note f = bind_uop_fields [OF u]
  have e: "entry_ready (ex_entry x)" using x by (simp add: expanded_ready_def)
  obtain lcl ext state old previous gap where v: "v = u\<lparr>u_dependencies := insert_all old (insert_all state (insert_all ext (insert_all lcl []))),
       u_vector_state_dependencies := insert_all state [], u_old_destination_dependencies := insert_all old [],
       u_issue_after_uop := previous, u_issue_gap_ticks := gap\<rparr>"
    by (rule link_uopE [OF v])
  have units': "distinct (execution_unit_choices p rs)" for rs
  proof -
    have "distinct (map fst (be_units (backend_of p)))" using units by (simp add: keys_def)
    then show ?thesis unfolding execution_unit_choices_def by (rule distinct_map_filter)
  qed
  have al: "\<forall>d\<in>set (u_rename_allocations u). 1 \<le> snd d"
    using convert_allocations_ready(2) [OF f(11)] e by (simp add: entry_ready_def)
  have dd: "\<forall>d\<in>set (u_issue_domain_demands u). 1 \<le> snd d"
    unfolding f(8) by (rule domain_demands_ready(2)) (use e in \<open>simp add: entry_ready_def\<close>)
  have lat: "0 \<le> u_latency_ticks u" using ticks_nonneg [OF _ tpc f(12)] e by (simp add: entry_ready_def)
  have occ: "0 \<le> u_occupancy_ticks u" using ticks_nonneg [OF _ tpc f(13)] e by (simp add: entry_ready_def)
  have parts: "distinct (u_scheduler_partition_choices u)" using f(10) by auto
  show ?thesis
    unfolding v bound_uop_ok_def
    using al dd lat occ parts e x
    by (auto simp: set_insert_all f(3,4,6-9,15-17) domain_demands_ready(1) units' expanded_ready_def entry_ready_def)
qed

section \<open>The uops of one instruction\<close>

lemma local_dependency:
  assumes run: "local_dependencies (zip xs us) (xs ! k) = Inr ids" and k: "k < length xs" and d: "d \<in> set ids"
    and us: "length us = length xs" "\<forall>j<length xs. u_part_index (us ! j) = ex_part_index (xs ! j)"
    and bwd: "backward xs"
  shows "\<exists>j<k. d = u_id (us ! j)"
proof -
  let ?c = "local_candidates (zip xs us)"
  obtain idss where idss: "rmap (\<lambda>name. rbind (rguard (?c name \<noteq> []) (PKeyError name)) (\<lambda>_.
       Inr (matching_ids (ex_part_index (xs ! k)) (?c name)))) (ru_depends_on (ex_entry (xs ! k))) = Inr idss"
      and ids: "ids = concat idss"
    using run by (auto simp: local_dependencies_def rbind_eq_Inr_iff)
  have "list_all2 (\<lambda>name ids. ids = matching_ids (ex_part_index (xs ! k)) (?c name)) (ru_depends_on (ex_entry (xs ! k))) idss"
    using idss unfolding rmap_Inr_iff by (rule list_all2_mono) (auto simp: rbind_eq_Inr_iff)
  then have "idss = map (\<lambda>name. matching_ids (ex_part_index (xs ! k)) (?c name)) (ru_depends_on (ex_entry (xs ! k)))"
    by (induction rule: list_all2_induct) auto
  then obtain name where name: "name \<in> set (ru_depends_on (ex_entry (xs ! k)))"
      "d \<in> set (matching_ids (ex_part_index (xs ! k)) (?c name))"
    using d ids by auto
  have cands: "(e, q) \<in> set (?c name) \<longleftrightarrow>
      (\<exists>j<length xs. ru_id (ex_entry (xs ! j)) = name \<and> e = u_id (us ! j) \<and> q = ex_part_index (xs ! j))" for e q
    using us by (force simp: local_candidates_def in_set_zip)
  obtain q where q: "(d, q) \<in> set (?c name)"
      "ex_part_index (xs ! k) \<noteq> None \<and> (\<exists>e. (e, ex_part_index (xs ! k)) \<in> set (?c name)) \<longrightarrow> q = ex_part_index (xs ! k)"
    using name(2) unfolding matching_ids_mem by blast
  obtain j where j: "j < length xs" "ru_id (ex_entry (xs ! j)) = name" "d = u_id (us ! j)" "q = ex_part_index (xs ! j)"
    using q(1) unfolding cands by blast
  have "found_at xs k name j" unfolding found_at_def
  proof (intro conjI impI)
    assume "ex_part_index (xs ! k) \<noteq> None \<and>
      (\<exists>l<length xs. ru_id (ex_entry (xs ! l)) = name \<and> ex_part_index (xs ! l) = ex_part_index (xs ! k))"
    then obtain l where l: "l < length xs" "ru_id (ex_entry (xs ! l)) = name" "ex_part_index (xs ! l) = ex_part_index (xs ! k)"
        "ex_part_index (xs ! k) \<noteq> None" by blast
    have "(u_id (us ! l), ex_part_index (xs ! k)) \<in> set (?c name)" unfolding cands using l by metis
    then show "ex_part_index (xs ! j) = ex_part_index (xs ! k)" using q(2) l(4) j(4) by metis
  qed (use j in simp_all)
  then have "j < k" using bwd k name(1) unfolding backward_def by blast
  then show ?thesis using j(3) by blast
qed

lemma producers_bound:
  assumes "producer_ids results part producers = Inr ids" and "\<forall>q cs. map_of results q = Some cs \<longrightarrow> fst ` set cs \<subseteq> B"
  shows "set ids \<subseteq> B"
  using assms(2) unfolding subset_iff producer_ids_mem [OF assms(1)] by (force simp: matching_ids_mem)

definition instruction_uops :: "string \<Rightarrow> string set \<Rightarrow> execution_uop list \<Rightarrow> bool" where
  "instruction_uops parent B us \<longleftrightarrow> us \<noteq> [] \<and> (\<forall>k<length us. u_id (us ! k) = uop_name parent k \<and> u_parent_id (us ! k) = parent \<and>
     bound_uop_ok (us ! k) \<and> set (u_dependencies (us ! k)) \<subseteq> B \<union> u_id ` set (take k us) \<and>
     (\<forall>q. u_issue_after_uop (us ! k) = Some q \<longrightarrow> q \<in> u_id ` set us))"

lemma instruction_uops:
  assumes ctx: "bind_context_of p i h n = Inr (c, xs)" and ready: "binder_ready p"
    and bound: "rmap (bind_uop p c) (List.enumerate 0 xs) = Inr us"
    and linked: "rmap (link_uop p c results (zip xs us)) (zip xs us) = Inr vs"
    and res: "\<forall>q cs. map_of results q = Some cs \<longrightarrow> fst ` set cs \<subseteq> B"
  shows "instruction_uops (i_id i) B vs" "length vs = length xs"
proof -
  note c = context_ready [OF ctx ready]
  have us: "length us = length xs" "\<And>k. k < length xs \<Longrightarrow> bind_uop p c (k, xs ! k) = Inr (us ! k)"
    using bound unfolding rmap_Inr_iff by (auto simp: list_all2_conv_all_nth nth_enumerate_eq)
  have vs: "length vs = length xs" "\<And>k. k < length xs \<Longrightarrow> link_uop p c results (zip xs us) (xs ! k, us ! k) = Inr (vs ! k)"
    using linked us(1) unfolding rmap_Inr_iff by (auto simp: list_all2_conv_all_nth)
  have id: "u_id (vs ! k) = uop_name (i_id i) k \<and> u_parent_id (vs ! k) = i_id i \<and> u_id (us ! k) = u_id (vs ! k)" if k: "k < length xs" for k
    by (rule link_uopE [OF vs(2) [OF k]]) (use bind_uop_fields(1,2) [OF us(2) [OF k]] in \<open>simp add: c(1)\<close>)
  have parts: "\<forall>j<length xs. u_part_index (us ! j) = ex_part_index (xs ! j)"
    using bind_uop_fields(3) [OF us(2)] by simp
  have units: "distinct (keys (be_units (backend_of p)))" "0 \<le> pf_ticks_per_cycle p" using ready by (simp_all add: binder_ready_def)
  have "bound_uop_ok (vs ! k) \<and> set (u_dependencies (vs ! k)) \<subseteq> B \<union> u_id ` set (take k vs) \<and>
     (\<forall>q. u_issue_after_uop (vs ! k) = Some q \<longrightarrow> q \<in> u_id ` set vs)" if k: "k < length xs" for k
  proof -
    have ok: "bound_uop_ok (vs ! k)"
      using linked_uop_ok [OF us(2) [OF k] vs(2) [OF k] _ units] c(6) k by simp
    obtain local external state old previous gap where l:
        "local_dependencies (zip xs us) (xs ! k) = Inr local"
        "producer_ids results (u_part_index (us ! k)) (external_producers (bx_instruction c) (u_kind (us ! k)) (ex_index (xs ! k) = 0)
           (ru_external_registers (ex_entry (xs ! k)))) = Inr external"
        "set state \<subseteq> B" "set old \<subseteq> B" "previous \<noteq> None \<Longrightarrow> \<exists>w\<in>set (map snd (zip xs us)). previous = Some (u_id w)"
        "vs ! k = (us ! k)\<lparr>u_dependencies := insert_all old (insert_all state (insert_all external (insert_all local []))),
           u_vector_state_dependencies := insert_all state [], u_old_destination_dependencies := insert_all old [],
           u_issue_after_uop := previous, u_issue_gap_ticks := gap\<rparr>"
      by (rule link_uopE [OF vs(2) [OF k]], rule that, assumption+)
        (use producers_bound [OF _ res] in \<open>auto split: if_splits\<close>)+
    have loc: "set local \<subseteq> u_id ` set (take k vs)"
    proof
      fix d assume "d \<in> set local"
      then obtain j where j: "j < k" "d = u_id (us ! j)" using local_dependency [OF l(1) k _ us(1) parts c(5)] by blast
      then have "d = u_id (take k vs ! j)" "j < length (take k vs)" using id [of j] k vs(1) by simp_all
      then show "d \<in> u_id ` set (take k vs)" by (metis image_eqI nth_mem)
    qed
    have "set external \<subseteq> B" by (rule producers_bound [OF l(2) res])
    then have deps: "set (u_dependencies (vs ! k)) \<subseteq> B \<union> u_id ` set (take k vs)"
      using loc l(3,4) by (auto simp: l(6) set_insert_all)
    have "q \<in> u_id ` set vs" if q: "u_issue_after_uop (vs ! k) = Some q" for q
    proof -
      have "previous = Some q" using q by (simp add: l(6))
      then have "q \<in> u_id ` set us" using l(5) us(1) by auto
      then obtain j where "j < length xs" "q = u_id (us ! j)" using us(1) by (auto simp: in_set_conv_nth)
      then show ?thesis using id [of j] vs(1) by (metis image_eqI nth_mem)
    qed
    then show ?thesis using ok deps by blast
  qed
  then show "instruction_uops (i_id i) B vs" using id vs(1) c(4) by (auto simp: instruction_uops_def)
  show "length vs = length xs" by (rule vs(1))
qed

section \<open>The macro-op\<close>

lemma accounting_positive:
  "macro_op_accounting_count p field decoded n = Inr x \<Longrightarrow> 1 \<le> decoded \<Longrightarrow> 1 \<le> n \<Longrightarrow> 1 \<le> x"
  by (auto simp: macro_op_accounting_count_def Let_def split: if_splits)

lemma macro_allocations_ready:
  assumes run: "macro_rename_allocations c us = Inr d" and ready: "allocations_ready (rc_rename_allocations (bx_recipe c))"
    and us: "\<forall>u\<in>set us. \<forall>x\<in>set (u_rename_allocations u). 1 \<le> snd x"
  shows "distinct (keys d) \<and> (\<forall>x\<in>set d. 1 \<le> snd x)"
proof (cases "rc_rename_allocations (bx_recipe c) = []")
  case False
  then show ?thesis using run convert_allocations_ready [OF _ ready] ready
    by (simp add: macro_rename_allocations_def allocations_ready_def)
next
  case True
  let ?f = "\<lambda>name u. case map_of (u_rename_allocations u) name of None \<Rightarrow> 0 | Some n \<Rightarrow> n"
  have d: "d = map (\<lambda>name. (name, sum_list (map (?f name) us))) (remdups (concat (map (\<lambda>u. keys (u_rename_allocations u)) us)))"
    using run True by (simp add: macro_rename_allocations_def)
  have "1 \<le> sum_list (map (?f name) us)" if name: "u \<in> set us" "name \<in> set (keys (u_rename_allocations u))" for name u
  proof -
    have "0 \<le> ?f name v" if v: "v \<in> set us" for v
    proof (cases "map_of (u_rename_allocations v) name")
      case (Some n)
      then have "1 \<le> snd (name, n)" using us v map_of_SomeD by fast
      then show ?thesis using Some by simp
    qed simp
    then have nonneg: "\<forall>v\<in>set us. 0 \<le> ?f name v" by blast
    have "map_of (u_rename_allocations u) name \<noteq> None" using name(2) by (auto simp: keys_def map_of_eq_None_iff)
    then obtain n where n: "map_of (u_rename_allocations u) name = Some n" by blast
    then have "1 \<le> snd (name, n)" using us name(1) map_of_SomeD by fast
    then have one: "1 \<le> ?f name u" using n by simp
    have "?f name u \<le> sum_list (map (?f name) us)"
      by (rule member_le_sum_list) (use nonneg name(1) in auto)
    then show ?thesis using one by linarith
  qed
  then show ?thesis by (auto simp: d keys_def o_def)
qed

lemma bind_macro_ok:
  assumes run: "bind_macro p c vs = Inr m" and ready: "recipe_ready ps (bx_recipe c)" and vs: "instruction_uops (i_id (bx_instruction c)) B vs"
    and fresh: "\<forall>u\<in>set us. u_id u \<notin> u_id ` set vs"
  shows "m_id m = i_id (bx_instruction c)" "m_uop_ids m = map u_id vs" "bound_macro_ok (us @ vs) m"
proof -
  let ?r = "bx_recipe c"
  obtain decoded retired allocations units entries where r:
      "parameter_int (rc_decoded_macro_ops ?r) (bx_path c @ ''.decoded_macro_ops'') = Inr decoded"
      "parameter_int (rc_retire_macro_ops ?r) (bx_path c @ ''.retire_macro_ops'') = Inr retired"
      "macro_rename_allocations c vs = Inr allocations"
      "macro_op_accounting_count p ''dispatch_units'' decoded (int (length vs)) = Inr units"
      "macro_op_accounting_count p ''rob_entries'' decoded (int (length vs)) = Inr entries" and
      m: "m_id m = i_id (bx_instruction c)" "m_uop_ids m = map u_id vs" "m_decoded_macro_ops m = decoded"
        "m_retire_macro_ops m = retired" "m_dispatch_domains m = rc_dispatch_domains ?r"
        "m_dispatch_domain_demands m = domain_demands (rc_dispatch_domains ?r) (rc_dispatch_domain_demands ?r)"
        "m_rename_allocations m = allocations" "m_dispatch_units m = Some units" "m_rob_entries m = Some entries"
        "m_dispatch_tick m = None" "m_complete_tick m = None" "m_retire_tick m = None"
        "m_uses_vector_scheduler m \<longleftrightarrow> u_kind ` set vs \<inter> set VECTOR_RESOURCE_KINDS \<noteq> {}"
    using run unfolding bind_macro_def Let_def by (auto simp: rbind_eq_Inr_iff blank_macro_def)
  show "m_id m = i_id (bx_instruction c)" "m_uop_ids m = map u_id vs" by (rule m)+
  have one: "1 \<le> decoded" "1 \<le> retired" using ready at_least_oneD r(1,2) by (auto simp: recipe_ready_def)
  have "1 \<le> int (length vs)" using vs by (cases vs) (auto simp: instruction_uops_def)
  then have acc: "1 \<le> units" "1 \<le> entries" using accounting_positive r(4,5) one(1) by blast+
  have "\<forall>u\<in>set vs. bound_uop_ok u" using vs by (auto simp: instruction_uops_def in_set_conv_nth)
  then have al: "distinct (keys allocations) \<and> (\<forall>x\<in>set allocations. 1 \<le> snd x)"
    using macro_allocations_ready [OF r(3)] ready by (auto simp: recipe_ready_def bound_uop_ok_def)
  have dd: "distinct (rc_dispatch_domains ?r)" "\<forall>d\<in>set (domain_demands (rc_dispatch_domains ?r) (rc_dispatch_domain_demands ?r)). 1 \<le> snd d"
    using ready domain_demands_ready(2) by (auto simp: recipe_ready_def)
  have ids: "distinct (map u_id vs)" "map u_id vs \<noteq> []"
    using vs by (auto simp: instruction_uops_def distinct_conv_nth uop_name_inject)
  have parent: "\<forall>i\<in>set (map u_id vs). \<exists>u\<in>set (us @ vs). u_id u = i \<and> u_parent_id u = i_id (bx_instruction c)"
    using vs by (force simp: instruction_uops_def in_set_conv_nth)
  have "(\<exists>u\<in>set (us @ vs). u_id u \<in> set (map u_id vs) \<and> u_kind u \<in> set VECTOR_RESOURCE_KINDS) \<longleftrightarrow>
      u_kind ` set vs \<inter> set VECTOR_RESOURCE_KINDS \<noteq> {}" using fresh by auto
  then show "bound_macro_ok (us @ vs) m"
    unfolding bound_macro_ok_def dispatch_width_units_def rob_entry_count_def m option.case
    using one acc al dd ids parent by (simp add: domain_demands_ready(1) del: set_append)
qed

lemma bound_macro_ok_append:
  assumes "bound_macro_ok us m" and "\<forall>u\<in>set us. u_id u \<notin> u_id ` set vs"
  shows "bound_macro_ok (us @ vs) m"
proof -
  have "\<forall>u\<in>set vs. u_id u \<notin> set (m_uop_ids m)" using assms unfolding bound_macro_ok_def by (metis image_eqI)
  then have "(\<exists>u\<in>set (us @ vs). u_id u \<in> set (m_uop_ids m) \<and> u_kind u \<in> set VECTOR_RESOURCE_KINDS) \<longleftrightarrow>
      (\<exists>u\<in>set us. u_id u \<in> set (m_uop_ids m) \<and> u_kind u \<in> set VECTOR_RESOURCE_KINDS)" by auto
  moreover have "\<forall>i\<in>set (m_uop_ids m). \<exists>u\<in>set (us @ vs). u_id u = i \<and> u_parent_id u = m_id m"
    using assms(1) by (fastforce simp: bound_macro_ok_def)
  ultimately show ?thesis using assms(1) by (simp add: bound_macro_ok_def del: set_append)
qed

section \<open>Binding an instruction keeps the invariant\<close>

lemma prefix_dependencies:
  assumes "\<forall>k<length us. set (u_dependencies (us ! k)) \<subseteq> u_id ` set (take k us)"
    and "\<forall>k<length vs. set (u_dependencies (vs ! k)) \<subseteq> u_id ` set us \<union> u_id ` set (take k vs)"
    and "k < length (us @ vs)"
  shows "set (u_dependencies ((us @ vs) ! k)) \<subseteq> u_id ` set (take k (us @ vs))"
proof (cases "k < length us")
  case True
  then show ?thesis using assms(1) by (simp add: nth_append)
next
  case False
  then have "k - length us < length vs" using assms(3) by simp
  then have "set (u_dependencies (vs ! (k - length us))) \<subseteq> u_id ` set us \<union> u_id ` set (take (k - length us) vs)"
    using assms(2) by blast
  then show ?thesis using False by (simp add: nth_append image_Un)
qed

lemma binding_step:
  assumes inv: "binding_inv ids b" and ready: "binder_ready p" and new: "i_id i \<notin> set ids"
    and run: "bind_instruction p (i, h) b = Inr b'"
  shows "binding_inv (ids @ [i_id i]) b'"
proof -
  obtain c xs us vs m where ctx: "bind_context_of p i h (length (bd_uops b)) = Inr (c, xs)" and
      bound: "rmap (bind_uop p c) (List.enumerate 0 xs) = Inr us" and
      linked: "rmap (link_uop p c (bd_results b) (zip xs us)) (zip xs us) = Inr vs" and macro: "bind_macro p c vs = Inr m" and
      b': "b' = \<lparr>bd_macros = bd_macros b @ [m], bd_uops = bd_uops b @ vs,
        bd_results = AList.update (i_id i) (map (\<lambda>(_, u). (u_id u, u_part_index u))
            (filter (\<lambda>(x, _). ru_id (ex_entry x) \<notin> set (bx_depended c)) (zip xs vs))) (bd_results b),
        bd_resources = insert_all (concat (map u_resource_choices vs)) (bd_resources b)\<rparr>"
    using run unfolding bind_instruction_def Let_def by (auto simp: rbind_eq_Inr_iff)
  let ?us = "bd_uops b" and ?B = "u_id ` set (bd_uops b)"
  note c = context_ready [OF ctx ready]
  have old: "map m_id (bd_macros b) = ids" "\<forall>u\<in>set ?us. u_parent_id u \<in> set ids \<and> (\<exists>n. u_id u = uop_name (u_parent_id u) n)"
      "distinct (map u_id ?us)" "\<forall>k<length ?us. set (u_dependencies (?us ! k)) \<subseteq> u_id ` set (take k ?us)"
      "\<forall>q cs. map_of (bd_results b) q = Some cs \<longrightarrow> fst ` set cs \<subseteq> ?B"
      "\<forall>u\<in>set ?us. bound_uop_ok u \<and> set (u_resource_choices u) \<subseteq> set (bd_resources b) \<and> (\<forall>q. u_issue_after_uop u = Some q \<longrightarrow> q \<in> ?B)"
      "\<forall>m\<in>set (bd_macros b). bound_macro_ok ?us m" "(\<Union>m\<in>set (bd_macros b). set (m_uop_ids m)) = ?B" "distinct (bd_resources b)"
    using inv unfolding binding_inv_def by - (elim conjE, assumption)+
  note vs = instruction_uops [OF ctx ready bound linked old(5)]
  have v: "u_id u = uop_name (i_id i) k \<and> u_parent_id u = i_id i" "bound_uop_ok u"
      "set (u_dependencies u) \<subseteq> ?B \<union> u_id ` set (take k vs)" "\<forall>q. u_issue_after_uop u = Some q \<longrightarrow> q \<in> u_id ` set vs"
    if "k < length vs" "u = vs ! k" for k u using vs(1) that unfolding instruction_uops_def by blast+
  have names: "\<forall>u\<in>set vs. u_parent_id u = i_id i \<and> (\<exists>n. u_id u = uop_name (i_id i) n)"
    using v(1) by (metis in_set_conv_nth)
  have fresh: "\<forall>u\<in>set ?us. u_id u \<notin> u_id ` set vs" 
  proof (intro ballI notI)
    fix u assume u: "u \<in> set ?us" "u_id u \<in> u_id ` set vs"
    then obtain x where "x \<in> set vs" "u_id u = u_id x" by blast
    then obtain k l where "uop_name (u_parent_id u) k = uop_name (i_id i) l" using names old(2) u(1) by metis
    then have "u_parent_id u = i_id i" by (simp add: uop_name_inject)
    then show False using u(1) old(2) new by metis
  qed
  have vids: "distinct (map u_id vs)" using v(1) by (auto simp: distinct_conv_nth uop_name_inject)
  note m = bind_macro_ok [OF macro c(3) vs(1) [folded c(1)] fresh]
  show ?thesis
    unfolding binding_inv_def
  proof (intro conjI)
    show "map m_id (bd_macros b') = ids @ [i_id i]" using old(1) m(1) c(1) by (simp add: b')
    show "\<forall>u\<in>set (bd_uops b'). u_parent_id u \<in> set (ids @ [i_id i]) \<and> (\<exists>n. u_id u = uop_name (u_parent_id u) n)"
      using old(2) names by (auto simp: b')
    show "distinct (map u_id (bd_uops b'))" using old(3) vids fresh by (auto simp: b')
    show "\<forall>k<length (bd_uops b'). set (u_dependencies (bd_uops b' ! k)) \<subseteq> u_id ` set (take k (bd_uops b'))"
      using prefix_dependencies [OF old(4), of vs] v(3) by (auto simp: b' simp del: take_append)
    show "\<forall>q cs. map_of (bd_results b') q = Some cs \<longrightarrow> fst ` set cs \<subseteq> u_id ` set (bd_uops b')"
    proof (intro allI impI)
      fix q cs assume q: "map_of (bd_results b') q = Some cs"
      show "fst ` set cs \<subseteq> u_id ` set (bd_uops b')"
      proof (cases "q = i_id i")
        case True
        then show ?thesis using q by (auto simp: b' update_conv image_image dest!: set_zip_rightD)
      next
        case False
        then have "map_of (bd_results b) q = Some cs" using q by (simp add: b' update_conv)
        then have "fst ` set cs \<subseteq> ?B" by (rule old(5) [rule_format])
        also have "?B \<subseteq> u_id ` set (bd_uops b')" by (simp add: b' image_Un)
        finally show ?thesis .
      qed
    qed
    show "\<forall>u\<in>set (bd_uops b'). bound_uop_ok u \<and> set (u_resource_choices u) \<subseteq> set (bd_resources b') \<and>
        (\<forall>q. u_issue_after_uop u = Some q \<longrightarrow> q \<in> u_id ` set (bd_uops b'))"
    proof
      fix u assume "u \<in> set (bd_uops b')"
      then consider "u \<in> set ?us" | k where "k < length vs" "u = vs ! k" by (auto simp: b' in_set_conv_nth)
      then show "bound_uop_ok u \<and> set (u_resource_choices u) \<subseteq> set (bd_resources b') \<and>
        (\<forall>q. u_issue_after_uop u = Some q \<longrightarrow> q \<in> u_id ` set (bd_uops b'))"
      proof cases
        case 1
        then have "bound_uop_ok u \<and> set (u_resource_choices u) \<subseteq> set (bd_resources b) \<and> (\<forall>q. u_issue_after_uop u = Some q \<longrightarrow> q \<in> ?B)"
          by (rule old(6) [rule_format])
        then show ?thesis by (auto simp: b' set_insert_all image_Un)
      next
        case 2
        then have "u \<in> set vs" by simp
        then show ?thesis using v(2,4) [OF 2] by (auto simp: b' set_insert_all image_Un)
      qed
    qed
    show "\<forall>m\<in>set (bd_macros b'). bound_macro_ok (bd_uops b') m"
      using m(3) old(7) bound_macro_ok_append [OF _ fresh] by (auto simp: b')
    show "(\<Union>m\<in>set (bd_macros b'). set (m_uop_ids m)) = u_id ` set (bd_uops b')" using old(8) m(2) by (auto simp: b')
    show "distinct (bd_resources b')" using old(9) by (simp add: b' distinct_insert_all)
  qed
qed

section \<open>The bound trace\<close>

definition no_binding :: binding where
  "no_binding = \<lparr>bd_macros = [], bd_uops = [], bd_results = [], bd_resources = []\<rparr>"

lemma binding_invariant:
  assumes "binder_ready p" and "distinct (map (i_id \<circ> fst) entries)" and "rfold (bind_instruction p) entries no_binding = Inr b"
  shows "binding_inv (map (i_id \<circ> fst) entries) b"
  using assms(2,3)
proof (induction entries arbitrary: b rule: rev_induct)
  case Nil
  then show ?case by (auto simp: no_binding_def binding_inv_def)
next
  case (snoc e entries)
  obtain i h where e: "e = (i, h)" by (cases e)
  from snoc.prems(2) obtain b1 where b1: "rfold (bind_instruction p) entries no_binding = Inr b1" "bind_instruction p (i, h) b1 = Inr b"
    by (auto simp: rfold_append rbind_eq_Inr_iff e)
  have "binding_inv (map (i_id \<circ> fst) entries) b1" by (rule snoc.IH [OF _ b1(1)]) (use snoc.prems(1) in simp)
  from binding_step [OF this assms(1) _ b1(2)] show ?case using snoc.prems(1) by (simp add: e image_image comp_def)
qed

lemma bind_traceE:
  assumes "bind_trace p version w entries = Inr t"
  obtains b resources where "rfold (bind_instruction p) entries no_binding = Inr b"
    "rmap (bind_resource p) (sort (bd_resources b)) = Inr resources" "keys resources = sort (bd_resources b)"
    "t = \<lparr>bt_trace_version = 2, bt_profile_id = pf_id p, bt_profile_sha256 = pf_digest p,
       bt_ticks_per_cycle = pf_ticks_per_cycle p, bt_macros = bd_macros b, bt_uops = bd_uops b,
       bt_resources = resources, bt_workload = w, bt_source_trace = map fst entries\<rparr>"
proof -
  obtain b resources where 1: "rfold (bind_instruction p) entries no_binding = Inr b"
    "rmap (bind_resource p) (sort (bd_resources b)) = Inr resources"
    "t = \<lparr>bt_trace_version = 2, bt_profile_id = pf_id p, bt_profile_sha256 = pf_digest p,
       bt_ticks_per_cycle = pf_ticks_per_cycle p, bt_macros = bd_macros b, bt_uops = bd_uops b,
       bt_resources = resources, bt_workload = w, bt_source_trace = map fst entries\<rparr>"
    using assms unfolding bind_trace_def no_binding_def by (auto simp: rbind_eq_Inr_iff)
  have key: "fst q = r" if "bind_resource p r = Inr q" for r q
    using that by (auto simp: bind_resource_def read_resource_def Let_def rbind_eq_Inr_iff split: option.splits)
  have "list_all2 (\<lambda>r q. fst q = r) (sort (bd_resources b)) resources"
    using 1(2) unfolding rmap_Inr_iff by (rule list_all2_mono) (rule key)
  then have "keys resources = sort (bd_resources b)"
    unfolding keys_def by (induction rule: list_all2_induct) auto
  then show thesis using 1 that by blast
qed

lemma binding_well_formed:
  assumes inv: "binding_inv ids b" and ids: "distinct ids" and t: "bt_macros t = bd_macros b" "bt_uops t = bd_uops b"
    "set (keys (bt_resources t)) = set (bd_resources b)"
  shows "well_formed_trace t"
proof -
  let ?us = "bd_uops b"
  have old: "map m_id (bd_macros b) = ids" "\<forall>u\<in>set ?us. u_parent_id u \<in> set ids \<and> (\<exists>n. u_id u = uop_name (u_parent_id u) n)"
      "distinct (map u_id ?us)" "\<forall>k<length ?us. set (u_dependencies (?us ! k)) \<subseteq> u_id ` set (take k ?us)"
      "\<forall>q cs. map_of (bd_results b) q = Some cs \<longrightarrow> fst ` set cs \<subseteq> u_id ` set ?us"
      "\<forall>u\<in>set ?us. bound_uop_ok u \<and> set (u_resource_choices u) \<subseteq> set (bd_resources b) \<and>
        (\<forall>q. u_issue_after_uop u = Some q \<longrightarrow> q \<in> u_id ` set ?us)"
      "\<forall>m\<in>set (bd_macros b). bound_macro_ok ?us m" "(\<Union>m\<in>set (bd_macros b). set (m_uop_ids m)) = u_id ` set ?us"
    using inv unfolding binding_inv_def by - (elim conjE, assumption)+
  have look: "map_of (uop_dict t) (u_id u) = Some u" if "u \<in> set ?us" for u
    using that old(3) by (intro map_of_is_SomeI) (auto simp: uop_dict_def t o_def)
  have macros: "macro_well_formed t m" if "m \<in> set (bd_macros b)" for m
  proof -
    have ok: "bound_macro_ok ?us m" using old(7) that by blast
    then have "\<forall>i\<in>set (m_uop_ids m). \<exists>u\<in>set ?us. u_id u = i \<and> u_parent_id u = m_id m"
      by (simp add: bound_macro_ok_def)
    then have "\<forall>i\<in>set (m_uop_ids m). \<exists>u. map_of (uop_dict t) i = Some u \<and> u_parent_id u = m_id m"
      using look by metis
    then show ?thesis using ok by (simp add: bound_macro_ok_def macro_well_formed_def)
  qed
  have uops: "uop_well_formed t u" if u: "u \<in> set ?us" for u
  proof -
    have ok: "bound_uop_ok u" "set (u_resource_choices u) \<subseteq> set (bd_resources b)"
        "\<forall>q. u_issue_after_uop u = Some q \<longrightarrow> q \<in> u_id ` set ?us"
      using old(6) u by blast+
    obtain k where "k < length ?us" "u = ?us ! k" using u by (auto simp: in_set_conv_nth)
    then have "set (u_dependencies u) \<subseteq> u_id ` set (take k ?us)" using old(4) by blast
    then have "set (u_dependencies u) \<subseteq> u_id ` set ?us" using set_take_subset [of k ?us] by blast
    then show ?thesis using ok old(1,2) u
      by (simp add: uop_well_formed_def bound_uop_ok_def t truthy_def split: option.splits)
  qed
  have "set (deps_of t (map u_id ?us ! k)) \<subseteq> set (take k (map u_id ?us))" if "k < length (map u_id ?us)" for k
    using that old(3,4) deps_of_uop [of t "?us ! k"] by (simp add: t take_map)
  then have "acyclic (depends (u_id ` set ?us) (deps_of t))"
    by (intro topological_acyclic [of "map u_id ?us"]) (use old(3) in auto)
  moreover have "dependency_edges t \<subseteq> depends (u_id ` set ?us) (deps_of t)"
    using deps_of_uop [of t] old(3) by (auto simp: dependency_edges_def depends_def t)
  ultimately have "acyclic (dependency_edges t)" by (rule acyclic_subset)
  then show ?thesis
    using ids old(1,3,8) macros uops by (simp add: well_formed_trace_def t)
qed

lemma bound_well_formed:
  assumes "binder_ready p" and "distinct (map (i_id \<circ> fst) entries)" and "bind_trace p version w entries = Inr t"
  shows "well_formed_trace t"
  using assms(3)
proof (rule bind_traceE)
  fix b resources
  assume b: "rfold (bind_instruction p) entries no_binding = Inr b" "keys resources = sort (bd_resources b)" and
    t: "t = \<lparr>bt_trace_version = 2, bt_profile_id = pf_id p, bt_profile_sha256 = pf_digest p,
       bt_ticks_per_cycle = pf_ticks_per_cycle p, bt_macros = bd_macros b, bt_uops = bd_uops b,
       bt_resources = resources, bt_workload = w, bt_source_trace = map fst entries\<rparr>"
  show ?thesis
    by (rule binding_well_formed [OF binding_invariant [OF assms(1,2) b(1)] assms(2)]) (simp_all add: t b(2))
qed

end
