(* ===== verification/XsaiDispatch.thy ===== *)
theory XsaiDispatch
  imports XsaiState Complex_Main
begin

text \<open>
  Dispatch of the XSAI engine: admission to the reorder buffer, the rename free lists and the
  dispatch domains, the assignment of entries to scheduler partitions by backtracking, and the
  draining of wide macro-ops over several cycles.
\<close>

section \<open>Partition assignment\<close>

text \<open>
  The constructor has checked that every choice names a partition, and the entries of a macro-op
  have distinct ids; the order of the choices compares occupancy ratios exactly.
\<close>

definition partition_room :: "(string, partition) dict \<Rightarrow> bool \<Rightarrow> (string, int) dict \<Rightarrow> (string, int) dict \<Rightarrow> string \<Rightarrow> bool" where
  "partition_room parts enforce occ enq p =
     (case map_of parts p of None \<Rightarrow> False
      | Some q \<Rightarrow> counter_get occ p < pa_entries q \<and> (\<not> enforce \<or> counter_get enq p < pa_enqueue_width q))"

definition occupancy_ratio :: "(string, partition) dict \<Rightarrow> (string, int) dict \<Rightarrow> string \<Rightarrow> rat" where
  "occupancy_ratio parts occ p =
     (case map_of parts p of None \<Rightarrow> 0 | Some q \<Rightarrow> of_int (counter_get occ p) / of_int (pa_entries q))"

definition eligible_partitions :: "(string, partition) dict \<Rightarrow> bool \<Rightarrow> (string, int) dict \<Rightarrow> (string, int) dict
    \<Rightarrow> execution_uop \<Rightarrow> string list" where
  "eligible_partitions parts enforce occ enq u =
     sort_key (\<lambda>p. (occupancy_ratio parts occ p, counter_get occ p, p))
       (filter (partition_room parts enforce occ enq) (u_scheduler_partition_choices u))"

fun assign :: "(string, partition) dict \<Rightarrow> bool \<Rightarrow> execution_uop list \<Rightarrow> (string, int) dict \<Rightarrow> (string, int) dict
    \<Rightarrow> (string, string) dict option"
  and try_choices :: "(string, partition) dict \<Rightarrow> bool \<Rightarrow> execution_uop \<Rightarrow> execution_uop list \<Rightarrow> (string, int) dict
    \<Rightarrow> (string, int) dict \<Rightarrow> string list \<Rightarrow> (string, string) dict option" where
  "assign parts enforce [] occ enq = Some []"
| "assign parts enforce (u # us) occ enq =
     try_choices parts enforce u us occ enq (eligible_partitions parts enforce occ enq u)"
| "try_choices parts enforce u us occ enq [] = None"
| "try_choices parts enforce u us occ enq (p # ps) =
     (case assign parts enforce us (counter_add occ p 1) (counter_add enq p 1) of
        Some result \<Rightarrow> Some ((u_id u, p) # result)
      | None \<Rightarrow> try_choices parts enforce u us occ enq ps)"

definition assignment_order :: "execution_uop list \<Rightarrow> execution_uop list" where
  "assignment_order us =
     sort_key (\<lambda>u. (length (u_scheduler_partition_choices u), u_sequence u))
       (filter (\<lambda>u. u_scheduler_partition_choices u \<noteq> []) us)"

definition plan_partition_assignment :: "xsai_env \<Rightarrow> xsai_state \<Rightarrow> (string, int) dict \<Rightarrow> bool \<Rightarrow> string list
    \<Rightarrow> (string, string) dict option qresult" where
  "plan_partition_assignment e s enqueues enforce ids =
     rbind (qlookup s ids) (\<lambda>us.
     Inr (assign (np_partitions (n_profile e)) enforce (assignment_order us) (q_partition_occupancy s) enqueues))"

section \<open>Dispatch units\<close>

definition dispatch_unit_costs :: "macro_op \<Rightarrow> int list" where
  "dispatch_unit_costs macro =
     (let n = int (length (m_uop_ids macro)); width = dispatch_width_units macro in
      map (\<lambda>index. ((int index + 1) * width) div n - (int index * width) div n) [0..<length (m_uop_ids macro)])"

text \<open>The largest prefix of the pending entries that fits the budget and the partitions.\<close>

fun chunk_from :: "xsai_env \<Rightarrow> xsai_state \<Rightarrow> (string, int) dict \<Rightarrow> int list \<Rightarrow> string list \<Rightarrow> int \<Rightarrow> int \<Rightarrow> nat
    \<Rightarrow> (string list \<times> (string, string) dict \<times> int) option qresult" where
  "chunk_from e s enqueues costs pending partial budget 0 = Inr None"
| "chunk_from e s enqueues costs pending partial budget (Suc n) =
     (let delta = sum_list (take (Suc n) costs) - partial in
      if delta < 0 \<or> delta > budget then chunk_from e s enqueues costs pending partial budget n
      else rbind (plan_partition_assignment e s enqueues True (take (Suc n) pending)) (\<lambda>assignment.
        case assignment of Some a \<Rightarrow> Inr (Some (take (Suc n) pending, a, delta))
        | None \<Rightarrow> chunk_from e s enqueues costs pending partial budget n))"

text \<open>The chunk and its assignment, or the units of a first entry that is wider than the budget.\<close>

definition select_dispatch_chunk :: "xsai_env \<Rightarrow> xsai_state \<Rightarrow> macro_op \<Rightarrow> string list \<Rightarrow> (string, int) dict \<Rightarrow> int \<Rightarrow> int
    \<Rightarrow> ((string list \<times> (string, string) dict \<times> int) option \<times> int \<times> bool) qresult" where
  "select_dispatch_chunk e s macro pending enqueues budget progress =
     (let costs = dispatch_unit_costs macro;
          first_index = length (takeWhile (\<lambda>i. i \<noteq> hd pending) (m_uop_ids macro));
          partial = progress - sum_list (take first_index costs);
          rest = drop first_index costs in
      rbind (chunk_from e s enqueues rest pending partial budget (length pending)) (\<lambda>chunk.
      case chunk of Some c \<Rightarrow> Inr (Some c, 0, False)
      | None \<Rightarrow>
          (case rest of [] \<Rightarrow> Inl XIndexError
           | first_cost # _ \<Rightarrow>
               if first_cost - partial > budget \<and> budget > 0 then Inr (None, budget, True)
               else Inr (None, 0, False))))"

section \<open>Admission\<close>

definition uses_legacy_vector_scheduler :: "xsai_state \<Rightarrow> macro_op \<Rightarrow> bool qresult" where
  "uses_legacy_vector_scheduler s macro =
     (if \<not> m_uses_vector_scheduler macro then Inr False
      else rbind (qlookup s (m_uop_ids macro)) (\<lambda>us.
        Inr (\<exists>u\<in>set us. u_kind u \<in> set VECTOR_RESOURCE_KINDS \<and> u_scheduler_partition_choices u = [])))"

definition rename_blocker :: "xsai_env \<Rightarrow> macro_op \<Rightarrow> (string, int) dict \<Rightarrow> xsai_state \<Rightarrow> (xsai_state \<times> string option) qresult" where
  "rename_blocker e macro cycle_usage s =
     (let rn = np_rename (n_profile e); allocations = m_rename_allocations macro;
          block = (\<lambda>r. (s\<lparr>q_rename_blockers := counter_add (q_rename_blockers s) r 1\<rparr>, Some r)) in
      if \<not> rn_enabled rn \<or> allocations = [] then Inr (s, None)
      else
        let unknown = sort (filter (\<lambda>name. name \<notin> set (keys (q_rename_free s))) (keys allocations)) in
        rbind (rguard (unknown = []) (UnknownFreeList (m_id macro) unknown)) (\<lambda>_.
        if sum_list (map snd cycle_usage) + sum_list (map snd allocations) > rn_allocation_width rn
        then Inr (block ''rename_allocation_width'')
        else (case filter (\<lambda>(name, demand). counter_get (q_rename_free s) name - demand < rn_guard_entries rn) allocations of
            [] \<Rightarrow> Inr (s, None)
          | (name, _) # _ \<Rightarrow> Inr (block (''rename_free_list:'' @ name)))))"

text \<open>The first dispatch domain without room for the macro-op.\<close>

fun full_domain :: "xsai_env \<Rightarrow> macro_op \<Rightarrow> (string, int) dict \<Rightarrow> string list \<Rightarrow> string option qresult" where
  "full_domain e macro usage [] = Inr None"
| "full_domain e macro usage (d # ds) =
     (let demand = (case map_of (m_dispatch_domain_demands macro) d of None \<Rightarrow> 1 | Some n \<Rightarrow> n) in
      case map_of (np_dispatch_domains (n_profile e)) d of
        None \<Rightarrow> Inl (UnknownDispatchDomain (m_id macro) d)
      | Some capacity \<Rightarrow>
          if counter_get usage d + demand > capacity then Inr (Some d) else full_domain e macro usage ds)"

definition admission_blocker :: "xsai_env \<Rightarrow> macro_op \<Rightarrow> (string, int) dict \<Rightarrow> (string, int) dict \<Rightarrow> xsai_state
    \<Rightarrow> (xsai_state \<times> string option) qresult" where
  "admission_blocker e macro domain_usage rename_usage s =
     (let p = n_profile e in
      if q_rob_occupancy s + rob_entry_count macro > np_rob_entries p then Inr (s, Some ''rob_full'')
      else
        rbind (full_domain e macro domain_usage (m_dispatch_domains macro)) (\<lambda>full.
        case full of
          Some d \<Rightarrow> Inr (qput_macro (macro\<lparr>m_dispatch_blocker_domain := Some d\<rparr>) s, Some ''dispatch_domain_full'')
        | None \<Rightarrow>
            rbind (rename_blocker e macro rename_usage s) (\<lambda>(s, reason).
            if reason \<noteq> None then Inr (s, reason)
            else
              rbind (uses_legacy_vector_scheduler s macro) (\<lambda>legacy.
              if legacy \<and> q_vector_occupancy s + of_bool (m_uses_vector_scheduler macro) > np_vector_scheduler_entries p
              then Inr (s, Some ''vector_scheduler_full'')
              else if m_uses_load_queue macro \<and> q_load_occupancy s \<ge> np_load_queue_entries p
              then Inr (s, Some ''load_queue_full'')
              else if m_uses_store_queue macro \<and> q_store_occupancy s \<ge> np_store_queue_entries p
              then Inr (s, Some ''store_queue_full'')
              else Inr (s, None)))))"

definition xdispatch_blocker :: "xsai_env \<Rightarrow> macro_op \<Rightarrow> (string, string) dict option \<Rightarrow> (string, int) dict
    \<Rightarrow> (string, int) dict \<Rightarrow> bool \<Rightarrow> bool \<Rightarrow> string list option \<Rightarrow> xsai_state \<Rightarrow> (xsai_state \<times> string option) qresult" where
  "xdispatch_blocker e macro assignment domain_usage rename_usage admitted check_partition pending s =
     rbind (if admitted then Inr (s, None) else admission_blocker e macro domain_usage rename_usage s) (\<lambda>(s, reason).
     if reason \<noteq> None then Inr (s, reason)
     else if \<not> check_partition then Inr (s, None)
     else (case assignment of Some _ \<Rightarrow> Inr (s, None)
       | None \<Rightarrow>
           rbind (plan_partition_assignment e s [] False (case pending of None \<Rightarrow> m_uop_ids macro | Some ids \<Rightarrow> ids))
             (\<lambda>plan. Inr (s, Some (if plan = None then ''scheduler_partition_full''
               else ''scheduler_partition_enqueue_width'')))))"

definition record_dispatch_blocker :: "string \<Rightarrow> int \<Rightarrow> string \<Rightarrow> xsai_state \<Rightarrow> xsai_state qresult" where
  "record_dispatch_blocker macro_id now reason s =
     rbind (qget (q_macros s) macro_id) (\<lambda>macro.
     let s = s\<lparr>q_stalls := counter_add (q_stalls s) reason 1\<rparr>;
         macro = macro\<lparr>m_dispatch_blocker := Some reason, m_dispatch_blocker_count := m_dispatch_blocker_count macro + 1\<rparr> in
     if reason = ''dispatch_domain_full''
     then (case m_dispatch_blocker_domain macro of None \<Rightarrow> Inl BlockerWithoutDomain
       | Some d \<Rightarrow> Inr (qlog (XBlockedEvent now macro reason (Some d))
           (qput_macro macro (s\<lparr>q_domain_blockers := counter_add (q_domain_blockers s) d 1\<rparr>))))
     else
       let macro = macro\<lparr>m_dispatch_blocker_domain := None\<rparr> in
       Inr (qlog (XBlockedEvent now macro reason None) (qput_macro macro s)))"

section \<open>One cycle of dispatch\<close>

record dispatch_cycle =
  cy_dispatched :: int
  cy_enqueues :: "(string, int) dict"
  cy_domains :: "(string, int) dict"
  cy_renames :: "(string, int) dict"

definition allocate_rename :: "string \<times> int \<Rightarrow> xsai_state \<times> dispatch_cycle \<Rightarrow> (xsai_state \<times> dispatch_cycle) qresult" where
  "allocate_rename entry st =
     (case (entry, st) of ((name, demand), (s, c)) \<Rightarrow>
      rbind (qget (q_rename_free s) name) (\<lambda>free.
      Inr (s\<lparr>q_rename_free := AList.update name (free - demand) (q_rename_free s),
             q_rename_allocation_tokens := q_rename_allocation_tokens s + demand\<rparr>,
           c\<lparr>cy_renames := counter_add (cy_renames c) name demand\<rparr>)))"

definition take_domain :: "macro_op \<Rightarrow> string \<Rightarrow> xsai_state \<times> dispatch_cycle \<Rightarrow> xsai_state \<times> dispatch_cycle" where
  "take_domain macro d st =
     (case st of (s, c) \<Rightarrow>
      let demand = (case map_of (m_dispatch_domain_demands macro) d of None \<Rightarrow> 1 | Some n \<Rightarrow> n) in
      (s\<lparr>q_domain_tokens := counter_add (q_domain_tokens s) d demand\<rparr>,
       c\<lparr>cy_domains := counter_add (cy_domains c) d demand\<rparr>))"

definition admit_macro :: "xsai_env \<Rightarrow> string \<Rightarrow> int \<Rightarrow> xsai_state \<times> dispatch_cycle \<Rightarrow> (xsai_state \<times> dispatch_cycle) qresult" where
  "admit_macro e macro_id now st =
     (case st of (s, c) \<Rightarrow>
      rbind (qget (q_macros s) macro_id) (\<lambda>macro.
      rbind (uses_legacy_vector_scheduler s macro) (\<lambda>legacy.
      let s = qput_macro (macro\<lparr>m_dispatch_tick := Some now\<rparr>) s;
          s = s\<lparr>q_rob := q_rob s @ [macro_id],
            q_rob_occupancy := q_rob_occupancy s + rob_entry_count macro,
            q_vector_occupancy := q_vector_occupancy s + of_bool legacy,
            q_load_occupancy := q_load_occupancy s + of_bool (m_uses_load_queue macro),
            q_store_occupancy := q_store_occupancy s + of_bool (m_uses_store_queue macro)\<rparr>;
          st = fold (take_domain macro) (m_dispatch_domains macro) (s, c) in
      if rn_enabled (np_rename (n_profile e)) then rfold allocate_rename (m_rename_allocations macro) st else Inr st)))"

definition xdispatch_uop :: "int \<Rightarrow> (string, string) dict \<Rightarrow> string \<Rightarrow> xsai_state \<times> dispatch_cycle
    \<Rightarrow> (xsai_state \<times> dispatch_cycle) qresult" where
  "xdispatch_uop now assignment uop_id st =
     (case st of (s, c) \<Rightarrow>
      rbind (qget (q_uops s) uop_id) (\<lambda>uop.
      let part = map_of assignment uop_id; uop = uop\<lparr>u_dispatch_tick := Some now, u_scheduler_partition := part\<rparr>;
          s = qput_uop uop s in
      rbind (case part of None \<Rightarrow> Inr (s, c)
        | Some p \<Rightarrow> rbind (qget (q_partition_occupancy s) p) (\<lambda>n.
            let key = ''scheduler_partition:'' @ p in
            Inr (s\<lparr>q_partition_occupancy := AList.update p (n + 1) (q_partition_occupancy s),
                   q_peaks := AList.update key (max (counter_get (q_peaks s) key) (n + 1)) (q_peaks s)\<rparr>,
                 c\<lparr>cy_enqueues := counter_add (cy_enqueues c) p 1\<rparr>))) (\<lambda>(s, c).
      Inr (qlog (XUopEvent ''dispatch'' now uop) (s\<lparr>q_unissued := insert_id uop_id (q_unissued s)\<rparr>), c))))"

text \<open>The units of a step are added to the progress of the macro-op and to the cycle.\<close>

definition account :: "string \<Rightarrow> int \<Rightarrow> xsai_state \<times> dispatch_cycle \<Rightarrow> xsai_state \<times> dispatch_cycle" where
  "account macro_id delta st =
     (case st of (s, c) \<Rightarrow>
      (s\<lparr>q_unit_progress := counter_add (q_unit_progress s) macro_id delta\<rparr>, c\<lparr>cy_dispatched := cy_dispatched c + delta\<rparr>))"

text \<open>A chunk enters its partitions; the loop goes on only when the whole macro-op has been dispatched.\<close>

definition dispatch_chunk :: "xsai_env \<Rightarrow> int \<Rightarrow> macro_op \<Rightarrow> bool \<Rightarrow> string list \<Rightarrow> (string, string) dict \<Rightarrow> int
    \<Rightarrow> xsai_state \<times> dispatch_cycle \<Rightarrow> (xsai_state \<times> dispatch_cycle \<times> bool) qresult" where
  "dispatch_chunk e now macro admitted chunk assignment delta st =
     (case st of (s, c) \<Rightarrow>
      rbind (xdispatch_blocker e macro (Some assignment) (cy_domains c) (cy_renames c) admitted True None s) (\<lambda>(s, reason).
      case reason of Some r \<Rightarrow> rbind (record_dispatch_blocker (m_id macro) now r s) (\<lambda>s. Inr (s, c, False))
      | None \<Rightarrow>
          rbind (if admitted then Inr (s, c) else admit_macro e (m_id macro) now (s, c)) (\<lambda>st.
          rbind (rfold (xdispatch_uop now assignment) chunk (account (m_id macro) delta st)) (\<lambda>(s, c).
          rbind (qlookup s (m_uop_ids macro)) (\<lambda>us.
          if \<forall>u\<in>set us. u_dispatch_tick u \<noteq> None
          then rbind (rguard (counter_get (q_unit_progress s) (m_id macro) = dispatch_width_units macro)
              (DispatchAccounting (m_id macro))) (\<lambda>_.
            Inr (s\<lparr>q_next_dispatch := Suc (q_next_dispatch s)\<rparr>, c, True))
          else Inr (s, c, False))))))"

text \<open>No chunk: part of a wide first entry is decoded, or the reason is recorded.\<close>

definition dispatch_partial :: "xsai_env \<Rightarrow> int \<Rightarrow> macro_op \<Rightarrow> bool \<Rightarrow> string list \<Rightarrow> int \<Rightarrow> bool
    \<Rightarrow> xsai_state \<times> dispatch_cycle \<Rightarrow> (xsai_state \<times> dispatch_cycle \<times> bool) qresult" where
  "dispatch_partial e now macro admitted pending delta budget_limited st =
     (case st of (s, c) \<Rightarrow>
      rbind (if budget_limited
          then xdispatch_blocker e macro (Some []) (cy_domains c) (cy_renames c) admitted False None s
          else xdispatch_blocker e macro None (cy_domains c) (cy_renames c) admitted True (Some pending) s) (\<lambda>(s, reason).
      case reason of Some r \<Rightarrow> rbind (record_dispatch_blocker (m_id macro) now r s) (\<lambda>s. Inr (s, c, False))
      | None \<Rightarrow>
          if budget_limited
          then rbind (if admitted then Inr (s, c) else admit_macro e (m_id macro) now (s, c)) (\<lambda>st.
            case account (m_id macro) delta st of (s, c) \<Rightarrow> Inr (s, c, False))
          else Inr (s, c, False)))"

definition dispatch_step :: "xsai_env \<Rightarrow> int \<Rightarrow> macro_op \<Rightarrow> xsai_state \<times> dispatch_cycle
    \<Rightarrow> (xsai_state \<times> dispatch_cycle \<times> bool) qresult" where
  "dispatch_step e now macro st =
     (case st of (s, c) \<Rightarrow>
      rbind (qlookup s (m_uop_ids macro)) (\<lambda>us.
      let pending = map fst (filter (\<lambda>(i, u). u_dispatch_tick u = None) (zip (m_uop_ids macro) us)) in
      if pending = [] then Inr (s\<lparr>q_next_dispatch := Suc (q_next_dispatch s)\<rparr>, c, True)
      else
        let width = np_dispatch_width (n_profile e); admitted = (m_dispatch_tick macro \<noteq> None);
            progress = counter_get (q_unit_progress s) (m_id macro); remaining = width - cy_dispatched c;
            units = dispatch_width_units macro; fresh = (\<not> admitted \<and> progress = 0) in
        if fresh \<and> units \<le> width \<and> units > remaining then Inr (s, c, False)
        else
          rbind (if fresh \<and> units \<le> remaining then plan_partition_assignment e s (cy_enqueues c) True pending else Inr None)
            (\<lambda>atomic.
          case atomic of Some a \<Rightarrow> dispatch_chunk e now macro admitted pending a units (s, c)
          | None \<Rightarrow>
              rbind (select_dispatch_chunk e s macro pending (cy_enqueues c) remaining progress) (\<lambda>(chunk, delta, limited).
              case chunk of Some (ids, a, d) \<Rightarrow> dispatch_chunk e now macro admitted ids a d (s, c)
              | None \<Rightarrow> dispatch_partial e now macro admitted pending delta limited (s, c)))))"

text \<open>
  The loop of \<open>_dispatch\<close> walks the macro-ops from \<open>next_dispatch\<close> on: a step that lets it go on has
  advanced \<open>next_dispatch\<close> by one.
\<close>

fun xdispatch_loop :: "xsai_env \<Rightarrow> int \<Rightarrow> string list \<Rightarrow> xsai_state \<times> dispatch_cycle \<Rightarrow> xsai_state qresult" where
  "xdispatch_loop e now [] st = Inr (fst st)"
| "xdispatch_loop e now (i # is) st =
     (if \<not> cy_dispatched (snd st) < np_dispatch_width (n_profile e) then Inr (fst st)
      else
        rbind (qget (q_macros (fst st)) i) (\<lambda>macro.
        rbind (dispatch_step e now macro st) (\<lambda>(s, c, go_on).
        if go_on then xdispatch_loop e now is (s, c) else Inr s)))"

definition empty_cycle :: dispatch_cycle where
  "empty_cycle = \<lparr>cy_dispatched = 0, cy_enqueues = [], cy_domains = [], cy_renames = []\<rparr>"

definition xdispatch :: "xsai_env \<Rightarrow> int \<Rightarrow> xsai_state \<Rightarrow> xsai_state qresult" where
  "xdispatch e now s = xdispatch_loop e now (drop (q_next_dispatch s) (n_macro_order e)) (s, empty_cycle)"

end
