(* ===== verification/XsaiIssue.thy ===== *)
theory XsaiIssue
  imports XsaiDispatch "HOL-Library.Option_ord"
begin

text \<open>
  Issue of the XSAI engine: what blocks a dispatched entry, the execution path it takes (functional
  unit lane, execution unit, vector read and completion tokens) and what issuing it reserves.
\<close>

section \<open>Tokens per architectural cycle\<close>

definition cycle_of :: "xsai_env \<Rightarrow> int \<Rightarrow> int qresult" where
  "cycle_of e tick = (if n_tpc e = 0 then Inl XZeroDivision else Inr (tick div n_tpc e))"

definition next_architectural_cycle_tick :: "xsai_env \<Rightarrow> int \<Rightarrow> int qresult" where
  "next_architectural_cycle_tick e tick = rbind (cycle_of e tick) (\<lambda>c. Inr ((c + 1) * n_tpc e))"

definition token_available :: "xsai_env \<Rightarrow> (string, (int, int) dict) dict \<Rightarrow> (string, int) dict \<Rightarrow> string \<Rightarrow> int \<Rightarrow> bool qresult" where
  "token_available e reservations capacities domain tick =
     rbind (cycle_of e tick) (\<lambda>cycle.
     rbind (qget reservations domain) (\<lambda>used.
     rbind (qget capacities domain) (\<lambda>capacity. Inr (counter_get used cycle < capacity))))"

definition vector_read_token_available :: "xsai_env \<Rightarrow> xsai_state \<Rightarrow> string \<Rightarrow> int \<Rightarrow> bool qresult" where
  "vector_read_token_available e s domain tick =
     token_available e (q_read_reservations s) (n_read_capacity e) domain tick"

definition completion_token_available :: "xsai_env \<Rightarrow> xsai_state \<Rightarrow> string \<Rightarrow> int \<Rightarrow> bool qresult" where
  "completion_token_available e s domain tick =
     token_available e (q_completion_reservations s) (n_completion_capacity e) domain tick"

definition reserve_vector_read_domain :: "xsai_env \<Rightarrow> string \<Rightarrow> int \<Rightarrow> xsai_state \<Rightarrow> xsai_state qresult" where
  "reserve_vector_read_domain e domain tick s =
     rbind (vector_read_token_available e s domain tick) (\<lambda>free.
     rbind (rguard free (ReadTokenUnavailable domain)) (\<lambda>_.
     rbind (cycle_of e tick) (\<lambda>cycle.
     rbind (qget (q_read_reservations s) domain) (\<lambda>used.
     Inr (s\<lparr>q_read_reservations := AList.update domain (counter_add used cycle 1) (q_read_reservations s)\<rparr>)))))"

text \<open>The loop of \<open>_reserve_completion_domain\<close>; \<open>None\<close> when it does not end.\<close>

partial_function (option) free_tick_from :: "int \<Rightarrow> (int, int) dict \<Rightarrow> int \<Rightarrow> int \<Rightarrow> int option" where
  [code]: "free_tick_from tpc used capacity tick =
     (if counter_get used (tick div tpc) < capacity then Some tick
      else free_tick_from tpc used capacity ((tick div tpc + 1) * tpc))"

definition reserve_completion_domain :: "xsai_env \<Rightarrow> string \<Rightarrow> int \<Rightarrow> xsai_state \<Rightarrow> (xsai_state \<times> int) qresult" where
  "reserve_completion_domain e domain tick s =
     rbind (cycle_of e tick) (\<lambda>_.
     rbind (qget (q_completion_reservations s) domain) (\<lambda>used.
     rbind (qget (n_completion_capacity e) domain) (\<lambda>capacity.
     case free_tick_from (n_tpc e) used capacity tick of
       None \<Rightarrow> Inl (NoCompletionCycle domain)
     | Some free \<Rightarrow> Inr (s\<lparr>q_completion_reservations :=
         AList.update domain (counter_add used (free div n_tpc e) 1) (q_completion_reservations s)\<rparr>, free))))"

section \<open>Execution paths\<close>

definition eligible_execution_units :: "xsai_env \<Rightarrow> execution_uop \<Rightarrow> string list qresult" where
  "eligible_execution_units e u =
     (case u_scheduler_partition u of None \<Rightarrow> Inr (u_execution_unit_choices u)
      | Some p \<Rightarrow>
          rbind (rmap (\<lambda>i. rbind (qget (np_units (n_profile e)) i) (\<lambda>unit. Inr (eu_partition unit = p, i)))
            (u_execution_unit_choices u)) (\<lambda>marked.
          Inr (map snd (filter fst marked))))"

definition candidate_units :: "xsai_env \<Rightarrow> execution_uop \<Rightarrow> string option list qresult" where
  "candidate_units e u =
     (if u_execution_unit_choices u = [] then Inr [None]
      else rbind (eligible_execution_units e u) (\<lambda>units. Inr (map Some units)))"

definition completion_domain_for :: "execution_uop \<Rightarrow> execution_unit option \<Rightarrow> string option" where
  "completion_domain_for u unit =
     (if u_requires_completion_token u then (case unit of None \<Rightarrow> None | Some x \<Rightarrow> eu_writeback_domain x) else None)"

definition vector_read_domain_for :: "execution_uop \<Rightarrow> execution_unit option \<Rightarrow> string option" where
  "vector_read_domain_for u unit =
     (if u_requires_vector_read_token u then (case unit of None \<Rightarrow> None | Some x \<Rightarrow> eu_read_domain x) else None)"

text \<open>A path: when its lane is free, the resource and lane, and the unit and domains it uses.\<close>

type_synonym path = "int \<times> string \<times> nat \<times> string option \<times> string option \<times> string option"

definition unit_ready :: "xsai_env \<Rightarrow> xsai_state \<Rightarrow> int \<Rightarrow> string \<Rightarrow> string option \<Rightarrow> (bool \<times> execution_unit option) qresult" where
  "unit_ready e s now resource unit_id =
     (case unit_id of None \<Rightarrow> Inr (True, None)
      | Some i \<Rightarrow>
          rbind (qget (np_units (n_profile e)) i) (\<lambda>unit.
          if resource \<notin> set (eu_functional_units unit) then Inr (False, Some unit)
          else rbind (qget (q_unit_free s) i) (\<lambda>free. Inr (\<not> free > now, Some unit))))"

definition domain_open :: "bool \<Rightarrow> string option \<Rightarrow> (string \<Rightarrow> bool qresult) \<Rightarrow> bool qresult" where
  "domain_open check domain available =
     (if check then (case domain of None \<Rightarrow> Inr True | Some d \<Rightarrow> available d) else Inr True)"

definition unit_path :: "xsai_env \<Rightarrow> xsai_state \<Rightarrow> execution_uop \<Rightarrow> int \<Rightarrow> bool \<Rightarrow> bool \<Rightarrow> string \<Rightarrow> nat \<times> int \<Rightarrow> string option
    \<Rightarrow> path list qresult" where
  "unit_path e s u now check_completion check_read resource lane unit_id =
     rbind (unit_ready e s now resource unit_id) (\<lambda>(ready, unit).
     if \<not> ready then Inr []
     else
       let rd = vector_read_domain_for u unit; cd = completion_domain_for u unit in
       rbind (domain_open check_read rd (\<lambda>d. vector_read_token_available e s d now)) (\<lambda>read_ok.
       if \<not> read_ok then Inr []
       else rbind (domain_open check_completion cd (\<lambda>d. completion_token_available e s d (now + u_latency_ticks u)))
         (\<lambda>completion_ok.
         Inr (if completion_ok then [(snd lane, resource, fst lane, unit_id, rd, cd)] else []))))"

definition execution_candidates :: "xsai_env \<Rightarrow> xsai_state \<Rightarrow> execution_uop \<Rightarrow> int \<Rightarrow> bool \<Rightarrow> bool \<Rightarrow> path list qresult" where
  "execution_candidates e s u now check_completion check_read =
     rbind (candidate_units e u) (\<lambda>units.
     rbind (rmap (\<lambda>resource. rbind (qget (q_resource_free s) resource) (\<lambda>free.
         rbind (rmap (\<lambda>lane. rbind (rmap (unit_path e s u now check_completion check_read resource lane) units)
             (\<lambda>ps. Inr (concat ps)))
           (filter (\<lambda>(lane, tick). \<not> tick > now) (enumerate 0 free))) (\<lambda>ps. Inr (concat ps))))
       (u_resource_choices u)) (\<lambda>ps. Inr (concat ps)))"

definition select_execution :: "xsai_env \<Rightarrow> xsai_state \<Rightarrow> execution_uop \<Rightarrow> int \<Rightarrow> path qresult" where
  "select_execution e s u now =
     rbind (execution_candidates e s u now True True) (\<lambda>choices.
     case choices of [] \<Rightarrow> Inl (PathUnavailable (u_id u)) | c # cs \<Rightarrow> Inr (min_of c cs))"

definition next_execution_ready_tick :: "xsai_env \<Rightarrow> xsai_state \<Rightarrow> execution_uop \<Rightarrow> int \<Rightarrow> int qresult" where
  "next_execution_ready_tick e s u now =
     rbind (candidate_units e u) (\<lambda>units.
     rbind (rmap (\<lambda>resource. rbind (qget (q_resource_free s) resource) (\<lambda>free. rbind (qmin free) (\<lambda>resource_tick.
         rmap (\<lambda>unit_id. case unit_id of None \<Rightarrow> Inr [resource_tick]
           | Some i \<Rightarrow> rbind (qget (np_units (n_profile e)) i) (\<lambda>unit.
               if resource \<in> set (eu_functional_units unit)
               then rbind (qget (q_unit_free s) i) (\<lambda>t. Inr [max resource_tick t]) else Inr [])) units)))
       (u_resource_choices u)) (\<lambda>ticks.
     case filter (\<lambda>t. t > now) (concat (concat ticks)) of [] \<Rightarrow> Inr (now + 1) | t # ts \<Rightarrow> Inr (min_of t ts)))"

section \<open>Issue domains and memory-compute groups\<close>

definition xissue_domain_demand :: "execution_uop \<Rightarrow> string \<Rightarrow> int" where
  "xissue_domain_demand u d = (case map_of (u_issue_domain_demands u) d of None \<Rightarrow> 1 | Some n \<Rightarrow> n)"

text \<open>\<open>sorted(free_ticks)[demand - 1]\<close>: index \<open>-1\<close> is the last element.\<close>

definition xissue_domain_ready_tick :: "xsai_state \<Rightarrow> execution_uop \<Rightarrow> string \<Rightarrow> int qresult" where
  "xissue_domain_ready_tick s u d =
     rbind (qget (q_issue_domain_free s) d) (\<lambda>free.
     let demand = xissue_domain_demand u d in
     if demand > int (length free) then Inl (XDemandExceedsDomain (u_id u) demand d (length free))
     else (case py_index (sort free) (demand - 1) of None \<Rightarrow> Inl XIndexError | Some i \<Rightarrow> Inr (sort free ! i)))"

definition xreserve_domain :: "execution_uop \<Rightarrow> int \<Rightarrow> string \<Rightarrow> xsai_state \<Rightarrow> xsai_state qresult" where
  "xreserve_domain u now d s =
     rbind (qget (q_issue_domain_free s) d) (\<lambda>free.
     let demand = xissue_domain_demand u d;
         order = sort_key (\<lambda>lane. (free ! lane, lane)) [0..<length free];
         lanes = (if 0 \<le> demand then take (nat demand) order else take (length order - nat (- demand)) order) in
     rbind (rguard (\<forall>lane\<in>set lanes. \<not> free ! lane > now) (XDomainTokenUnavailable (u_id u))) (\<lambda>_.
     Inr (s\<lparr>q_issue_domain_free :=
       AList.update d (fold (\<lambda>lane f. f[lane := now + u_occupancy_ticks u]) lanes free) (q_issue_domain_free s)\<rparr>)))"

definition xreserve_issue_domains :: "execution_uop \<Rightarrow> int \<Rightarrow> xsai_state \<Rightarrow> xsai_state qresult" where
  "xreserve_issue_domains u now s = rfold (xreserve_domain u now) (u_issue_domains u) s"

definition xoverlap_blocked :: "xsai_env \<Rightarrow> xsai_state \<Rightarrow> execution_uop \<Rightarrow> bool" where
  "xoverlap_blocked e s u \<longleftrightarrow>
     n_overlap_enabled e \<and> u_kind u = ''load_data'' \<and> u_parent_id u \<in> set (keys (n_groups e)) \<and>
     u_parent_id u \<notin> set (q_pending_groups s) \<and>
     int (length (q_pending_groups s)) \<ge> np_overlap_max_pending (n_profile e)"

definition xupdate_groups :: "xsai_env \<Rightarrow> execution_uop \<Rightarrow> xsai_state \<Rightarrow> xsai_state qresult" where
  "xupdate_groups e u s =
     (if \<not> n_overlap_enabled e then Inr s
      else (case map_of (n_groups e) (u_parent_id u) of None \<Rightarrow> Inr s
        | Some compute_ids \<Rightarrow>
            let s = (if u_kind u = ''load_data''
                  then s\<lparr>q_pending_groups := insert_id (u_parent_id u) (q_pending_groups s)\<rparr> else s) in
            if u_id u \<notin> set compute_ids then Inr s
            else rbind (qlookup s compute_ids) (\<lambda>us.
              Inr (if \<forall>x\<in>set us. u_issue_tick x \<noteq> None
                then s\<lparr>q_pending_groups := removeAll (u_parent_id u) (q_pending_groups s)\<rparr> else s))))"

section \<open>What blocks an entry\<close>

definition min_known :: "int list \<Rightarrow> int option" where
  "min_known ts = (case ts of [] \<Rightarrow> None | t # ts \<Rightarrow> Some (min_of t ts))"

definition xdependency_ready_tick :: "xsai_state \<Rightarrow> execution_uop \<Rightarrow> int qresult" where
  "xdependency_ready_tick s u =
     rbind (qlookup s (u_dependencies u)) (\<lambda>ds.
     Inr (max_of (or_zero (u_dispatch_tick u)) (map (\<lambda>d. or_zero (u_complete_tick d)) ds)))"

definition xdependency_check :: "xsai_state \<Rightarrow> execution_uop \<Rightarrow> int \<Rightarrow> verdict option qresult" where
  "xdependency_check s u now =
     rbind (qlookup s (u_dependencies u)) (\<lambda>ds.
     let incomplete = filter (\<lambda>d. u_complete_tick d = None) ds in
     if incomplete \<noteq> []
     then Inr (Some (Some (
            if \<exists>d\<in>set incomplete. u_id d \<in> set (u_vector_state_dependencies u) then ''vector_state_dependency''
            else if \<exists>d\<in>set incomplete. u_id d \<in> set (u_old_destination_dependencies u) then ''old_destination_dependency''
            else ''dependency''),
          min_known (List.map_filter (\<lambda>d. map_option (\<lambda>t. t + u_latency_ticks d) (u_issue_tick d)) incomplete)))
     else rbind (xdependency_ready_tick s u) (\<lambda>ready.
       Inr (if ready > now then Some (Some ''dependency'', Some ready) else None)))"

definition load_visibility_check :: "xsai_env \<Rightarrow> xsai_state \<Rightarrow> execution_uop \<Rightarrow> int \<Rightarrow> verdict option qresult" where
  "load_visibility_check e s u now =
     (if u_id u \<notin> set (pl_load_visibility (n_plan e)) then Inr None
      else rbind (qlookup s (u_vector_state_dependencies u)) (\<lambda>ds.
        if ds = [] \<or> (\<exists>d\<in>set ds. u_complete_tick d = None) then Inr None
        else rbind (qmax (map (\<lambda>d. or_zero (u_complete_tick d)) ds)) (\<lambda>t.
          let ready = t + ep_load_only_visibility_ticks (np_epochs (n_profile e)) in
          Inr (if ready > now then Some (Some ''xsai_vector_state_load_visibility'', Some ready) else None))))"

definition epoch_close_check :: "xsai_env \<Rightarrow> xsai_state \<Rightarrow> execution_uop \<Rightarrow> int \<Rightarrow> verdict option qresult" where
  "epoch_close_check e s u now =
     (case map_of (pl_close (n_plan e)) (u_id u) of None \<Rightarrow> Inr None
      | Some (terminal_id, offset) \<Rightarrow>
          rbind (qget (q_uops s) terminal_id) (\<lambda>terminal.
          let ready = (case u_complete_tick terminal of Some t \<Rightarrow> Some (t + offset)
            | None \<Rightarrow> map_option (\<lambda>t. t + u_latency_ticks terminal + offset) (u_issue_tick terminal)) in
          Inr (if (case ready of None \<Rightarrow> True | Some t \<Rightarrow> t > now)
            then Some (Some ''xsai_vector_epoch_completion'', ready) else None)))"

definition mixed_epoch_check :: "xsai_env \<Rightarrow> xsai_state \<Rightarrow> execution_uop \<Rightarrow> verdict option qresult" where
  "mixed_epoch_check e s u =
     (if u_id u \<notin> set (keys (pl_mixed_terminal (n_plan e)))
         \<or> int (length (q_mixed_active s)) < ep_mixed_store_reduction_capacity (np_epochs (n_profile e))
      then Inr None
      else rbind (qlookup s (q_mixed_active s)) (\<lambda>ts.
        Inr (Some (Some ''xsai_mixed_epoch_capacity'',
          min_known (List.map_filter (\<lambda>t. map_option (\<lambda>n. n + u_latency_ticks t) (u_issue_tick t)) ts)))))"

definition vector_epoch_blocker :: "xsai_env \<Rightarrow> xsai_state \<Rightarrow> execution_uop \<Rightarrow> int \<Rightarrow> verdict option qresult" where
  "vector_epoch_blocker e s u now =
     (if \<not> ep_enabled (np_epochs (n_profile e)) then Inr None
      else
        rbind (load_visibility_check e s u now) (\<lambda>v.
        if v \<noteq> None then Inr v
        else rbind (epoch_close_check e s u now) (\<lambda>v. if v \<noteq> None then Inr v else mixed_epoch_check e s u)))"

definition open_vector_epoch :: "xsai_env \<Rightarrow> execution_uop \<Rightarrow> xsai_state \<Rightarrow> xsai_state" where
  "open_vector_epoch e u s =
     (case map_of (pl_mixed_terminal (n_plan e)) (u_id u) of None \<Rightarrow> s
      | Some terminal \<Rightarrow> s\<lparr>q_mixed_active := insert_id terminal (q_mixed_active s)\<rparr>)"

definition xpart_check :: "xsai_state \<Rightarrow> execution_uop \<Rightarrow> int \<Rightarrow> verdict option qresult" where
  "xpart_check s u now =
     (case truthy (u_issue_after_uop u) of None \<Rightarrow> Inr None
      | Some p \<Rightarrow> rbind (qget (q_uops s) p) (\<lambda>previous.
          Inr (case u_issue_tick previous of None \<Rightarrow> Some (Some ''part_order'', None)
            | Some t \<Rightarrow> if t + u_issue_gap_ticks u > now then Some (Some ''part_gap'', Some (t + u_issue_gap_ticks u))
                else None)))"

definition xinterval_check :: "xsai_state \<Rightarrow> execution_uop \<Rightarrow> int \<Rightarrow> verdict option" where
  "xinterval_check s u now =
     (case map_of (q_last_class s) (u_scheduling_class u) of None \<Rightarrow> None
      | Some t \<Rightarrow> if t + u_issue_interval_ticks u > now then Some (Some ''issue_interval'', Some (t + u_issue_interval_ticks u))
          else None)"

definition lane_minima :: "xsai_state \<Rightarrow> execution_uop \<Rightarrow> int list qresult" where
  "lane_minima s u = rmap (\<lambda>r. rbind (qget (q_resource_free s) r) qmin) (u_resource_choices u)"

definition xresource_check :: "xsai_state \<Rightarrow> execution_uop \<Rightarrow> int \<Rightarrow> verdict option qresult" where
  "xresource_check s u now =
     rbind (lane_minima s u) (\<lambda>ticks.
     if \<exists>t\<in>set ticks. t \<le> now then Inr None
     else rbind (qmin ticks) (\<lambda>t. Inr (Some (Some ''resource_busy'', Some t))))"

definition unit_check :: "xsai_env \<Rightarrow> xsai_state \<Rightarrow> execution_uop \<Rightarrow> int \<Rightarrow> verdict option qresult" where
  "unit_check e s u now =
     (if u_execution_unit_choices u = [] then Inr None
      else rbind (eligible_execution_units e u) (\<lambda>units.
        rbind (rguard (units \<noteq> []) (NoExecutionUnit (u_id u))) (\<lambda>_.
        rbind (rmap (qget (q_unit_free s)) units) (\<lambda>ticks.
        if \<exists>t\<in>set ticks. t \<le> now then Inr None
        else rbind (qmin ticks) (\<lambda>t. Inr (Some (Some ''execution_unit_busy'', Some t)))))))"

text \<open>When the token of an access in flight is released.\<close>

definition inflight_release :: "vector_memory_policy \<Rightarrow> int \<Rightarrow> execution_uop \<Rightarrow> int option" where
  "inflight_release p now u =
     (if service_ticks p u \<noteq> None then None
      else Some (case u_complete_tick u of Some t \<Rightarrow> t
        | None \<Rightarrow> (case u_issue_tick u of Some t \<Rightarrow> t | None \<Rightarrow> now) + u_latency_ticks u))"

definition service_check :: "xsai_env \<Rightarrow> xsai_state \<Rightarrow> execution_uop \<Rightarrow> int \<Rightarrow> verdict option qresult" where
  "service_check e s u now =
     (let p = np_vector_memory (n_profile e); kind = vector_memory_access_kind u in
      rbind (qget (q_inflight s) kind) (\<lambda>inflight.
      case map_of (vm_service_capacity p) kind of None \<Rightarrow> Inr None
      | Some capacity \<Rightarrow>
          if int (length inflight) < capacity then Inr None
          else
            rbind (qlookup s inflight) (\<lambda>us.
            rbind (qmin (map fst (filter (\<lambda>(_, _, i). i \<in> set inflight) (q_service_heap s)) @
              List.map_filter (inflight_release p now) us)) (\<lambda>earliest.
            rbind (if earliest \<le> now then next_architectural_cycle_tick e now else Inr earliest) (\<lambda>t.
            Inr (Some (Some (''vector_memory_'' @ kind @ ''_service_busy''), Some t)))))))"

text \<open>An earlier vector access that is ready but has not issued.\<close>

definition order_check :: "xsai_env \<Rightarrow> xsai_state \<Rightarrow> execution_uop \<Rightarrow> verdict option qresult" where
  "order_check e s u =
     (let order = vm_issue_order (np_vector_memory (n_profile e)) in
      if order \<notin> {''oldest'', ''oldest_same_kind''} then Inr None
      else
        rbind (rmap (\<lambda>c. rbind (qlookup s (u_dependencies c)) (\<lambda>ds. Inr (\<forall>d\<in>set ds. u_complete_tick d \<noteq> None)))
          (filter (\<lambda>c. u_sequence c < u_sequence u \<and> u_id c \<in> set (q_unissued s) \<and> is_vector_memory (n_kind_by_id e) c \<and>
             (order = ''oldest'' \<or> u_kind c = u_kind u)) (map snd (q_uops s)))) (\<lambda>ready.
        Inr (if True \<in> set ready then Some (Some (''vector_memory_'' @ order), None) else None)))"

definition vector_memory_blocker :: "xsai_env \<Rightarrow> xsai_state \<Rightarrow> execution_uop \<Rightarrow> int \<Rightarrow> verdict option qresult" where
  "vector_memory_blocker e s u now =
     (if \<not> is_vector_memory (n_kind_by_id e) u then Inr None
      else
        rbind (case vm_flow_split (np_vector_memory (n_profile e)) of None \<Rightarrow> Inr None
          | Some _ \<Rightarrow> rbind (qget (q_split_free s) (vector_memory_access_kind u)) (\<lambda>lanes. rbind (qmin lanes) (\<lambda>t.
              Inr (if t > now then Some (Some ''vector_memory_split_issue_busy'', Some t) else None)))) (\<lambda>v.
        if v \<noteq> None then Inr v
        else rbind (service_check e s u now) (\<lambda>v. if v \<noteq> None then Inr v else order_check e s u)))"

definition qlift_mem :: "mem_error + 'a \<Rightarrow> 'a qresult" where
  "qlift_mem m = (case m of Inl x \<Rightarrow> Inl (XMemoryFailure x) | Inr a \<Rightarrow> Inr a)"

definition xmemory_check :: "xsai_env \<Rightarrow> execution_uop \<Rightarrow> int \<Rightarrow> xsai_state \<Rightarrow> (xsai_state \<times> verdict option) qresult" where
  "xmemory_check e u now s =
     (if \<not> is_data_kind (u_kind u) then Inr (s, None)
      else
        rbind (vector_memory_blocker e s u now) (\<lambda>v.
        if v \<noteq> None then Inr (s, v)
        else rbind (qlift_mem (blocker (q_memory s) (u_memory u) now)) (\<lambda>(memory, reason, earliest).
          Inr (s\<lparr>q_memory := memory\<rparr>, map_option (\<lambda>r. (Some r, Some earliest)) reason))))"

definition xdomain_check :: "xsai_state \<Rightarrow> execution_uop \<Rightarrow> int \<Rightarrow> verdict option qresult" where
  "xdomain_check s u now =
     rbind (rmap (xissue_domain_ready_tick s u) (u_issue_domains u)) (\<lambda>ticks.
     if \<exists>t\<in>set ticks. t > now then rbind (qmax ticks) (\<lambda>t. Inr (Some (Some ''issue_domain_busy'', Some t)))
     else Inr None)"

text \<open>The last stage: some path must be free with its read and completion tokens.\<close>

definition path_check :: "xsai_env \<Rightarrow> xsai_state \<Rightarrow> execution_uop \<Rightarrow> int \<Rightarrow> verdict qresult" where
  "path_check e s u now =
     rbind (execution_candidates e s u now False True) (\<lambda>read_eligible.
     rbind (if read_eligible = [] then execution_candidates e s u now False False else Inr []) (\<lambda>without_read.
     if without_read \<noteq> []
     then rbind (next_architectural_cycle_tick e now) (\<lambda>t. Inr (Some ''vector_read_domain_busy'', Some t))
     else
       rbind (execution_candidates e s u now True True) (\<lambda>candidates.
       if candidates \<noteq> [] then Inr (None, Some now)
       else
         rbind (execution_candidates e s u now False True) (\<lambda>without_completion.
         if without_completion \<noteq> []
         then rbind (next_architectural_cycle_tick e now) (\<lambda>t. Inr (Some ''completion_domain_busy'', Some t))
         else rbind (next_execution_ready_tick e s u now) (\<lambda>t. Inr (Some ''execution_unit_busy'', Some t))))))"

text \<open>\<open>stage v rest\<close>: a stage that blocks ends the check.\<close>

definition stage :: "xsai_state \<Rightarrow> verdict option qresult \<Rightarrow> (xsai_state \<times> verdict) qresult \<Rightarrow> (xsai_state \<times> verdict) qresult" where
  "stage s check rest = rbind check (\<lambda>v. case v of Some x \<Rightarrow> Inr (s, x) | None \<Rightarrow> rest)"

definition xissue_blocker :: "xsai_env \<Rightarrow> execution_uop \<Rightarrow> int \<Rightarrow> xsai_state \<Rightarrow> (xsai_state \<times> verdict) qresult" where
  "xissue_blocker e u now s =
     stage s (xdependency_check s u now)
      (rbind (vector_epoch_blocker e s u now) (\<lambda>epoch.
       case epoch of Some (reason, earliest) \<Rightarrow>
         Inr (s\<lparr>q_epoch_blockers := counter_add (q_epoch_blockers s) (case reason of None \<Rightarrow> [] | Some r \<Rightarrow> r) 1\<rparr>,
           reason, earliest)
       | None \<Rightarrow>
           stage s (xpart_check s u now)
            (if xoverlap_blocked e s u then Inr (s, Some ''memory_compute_overlap_limit'', None)
             else
               stage s (Inr (xinterval_check s u now))
                (stage s (xresource_check s u now)
                  (stage s (unit_check e s u now)
                    (rbind (xmemory_check e u now s) (\<lambda>(s', v).
                     stage s' (Inr v)
                      (stage s' (xdomain_check s' u now)
                        (rbind (path_check e s' u now) (\<lambda>v. Inr (s', v)))))))))))"

section \<open>Issuing an entry\<close>

text \<open>The memory access of a data entry; \<open>u\<close> is the entry with its issue fields set.\<close>

definition track_flow :: "xsai_env \<Rightarrow> execution_uop \<Rightarrow> int \<Rightarrow> xsai_state \<Rightarrow> xsai_state qresult" where
  "track_flow e u now s =
     (let p = np_vector_memory (n_profile e); kind = vector_memory_access_kind u in
      rbind (qget (q_inflight s) kind) (\<lambda>inflight.
      rbind (reserve_split_issue p u now (s\<lparr>q_inflight := AList.update kind (insert_id (u_id u) inflight) (q_inflight s)\<rparr>))
        (\<lambda>s.
      Inr (case service_ticks p u of None \<Rightarrow> s
        | Some hold \<Rightarrow>
            if hold = 0
            then s\<lparr>q_inflight := AList.update kind (removeAll (u_id u) (insert_id (u_id u) inflight)) (q_inflight s)\<rparr>
            else s\<lparr>q_service_heap := heappush (now + hold, u_sequence u, u_id u) (q_service_heap s)\<rparr>))))"

definition xaccess_memory :: "xsai_env \<Rightarrow> execution_uop \<Rightarrow> int \<Rightarrow> xsai_state \<Rightarrow> (execution_uop \<times> xsai_state) qresult" where
  "xaccess_memory e u now s =
     (if \<not> is_data_kind (u_kind u) then Inr (u, s)
      else
        rbind (qlift_mem (access (q_memory s) (u_memory u) now)) (\<lambda>(memory, a).
        let u = u\<lparr>u_memory_level := Some (ma_level a), u_latency_ticks := max (u_latency_ticks u) (ma_latency_ticks a)\<rparr>;
            s = s\<lparr>q_memory := memory\<rparr> in
        if \<not> is_vector_memory (n_kind_by_id e) u then Inr (u, s)
        else
          let u = (if u_kind u = ''store_data''
                then u\<lparr>u_latency_ticks := max (u_latency_ticks u) (vm_store_completion_ticks (np_vector_memory (n_profile e)))\<rparr>
                else u) in
          rbind (track_flow e u now s) (\<lambda>s. Inr (u, s))))"

definition occupy_path :: "execution_uop \<Rightarrow> int \<Rightarrow> string \<Rightarrow> nat \<Rightarrow> string option \<Rightarrow> xsai_state \<Rightarrow> xsai_state qresult" where
  "occupy_path u now resource lane unit_id s =
     rbind (qget (q_resource_free s) resource) (\<lambda>free.
     rbind (rguard (lane < length free) XIndexError) (\<lambda>_.
     let until = now + u_occupancy_ticks u;
         s = s\<lparr>q_resource_free := AList.update resource (free[lane := until]) (q_resource_free s)\<rparr> in
     Inr (case unit_id of None \<Rightarrow> s | Some i \<Rightarrow> s\<lparr>q_unit_free := AList.update i until (q_unit_free s)\<rparr>)))"

definition leave_partition :: "execution_uop \<Rightarrow> xsai_state \<Rightarrow> xsai_state qresult" where
  "leave_partition u s =
     (case u_scheduler_partition u of None \<Rightarrow> Inr s
      | Some p \<Rightarrow> rbind (qget (q_partition_occupancy s) p) (\<lambda>n.
          rbind (rguard (0 \<le> n - 1) (NegativeOccupancy p)) (\<lambda>_.
          Inr (s\<lparr>q_partition_occupancy := AList.update p (n - 1) (q_partition_occupancy s)\<rparr>))))"

definition leave_vector_scheduler :: "execution_uop \<Rightarrow> xsai_state \<Rightarrow> xsai_state qresult" where
  "leave_vector_scheduler u s =
     (if u_kind u \<notin> set VECTOR_RESOURCE_KINDS then Inr s
      else
        rbind (qget (q_macros s) (u_parent_id u)) (\<lambda>parent.
        rbind (uses_legacy_vector_scheduler s parent) (\<lambda>legacy.
        if \<not> legacy then Inr s
        else rbind (qlookup s (filter (\<lambda>i. i \<noteq> u_id u) (m_uop_ids parent))) (\<lambda>us.
          Inr (if \<exists>x\<in>set us. u_kind x \<in> set VECTOR_RESOURCE_KINDS \<and> u_issue_tick x \<noteq> None then s
            else s\<lparr>q_vector_occupancy := q_vector_occupancy s - 1\<rparr>)))))"

definition xschedule_completion :: "xsai_env \<Rightarrow> execution_uop \<Rightarrow> int \<Rightarrow> string option \<Rightarrow> int \<Rightarrow> xsai_state \<Rightarrow> xsai_state qresult" where
  "xschedule_completion e u now completion_domain ready s =
     rbind (case completion_domain of None \<Rightarrow> Inr (s, now + u_latency_ticks u)
       | Some d \<Rightarrow> reserve_completion_domain e d (now + u_latency_ticks u) s) (\<lambda>(s, tick).
     let u = u\<lparr>u_latency_ticks := tick - now\<rparr>;
         s = qput_uop u s;
         s = s\<lparr>q_heap := heappush (tick, u_sequence u, u_id u) (q_heap s)\<rparr>;
         s = qlog (XUopEvent ''issue'' now u) (qlog (XUopEvent ''ready'' ready u) s) in
     Inr (if n_in_order e then s\<lparr>q_issue_index := Suc (q_issue_index s)\<rparr> else s))"

definition xissue_uop :: "xsai_env \<Rightarrow> execution_uop \<Rightarrow> int \<Rightarrow> xsai_state \<Rightarrow> xsai_state qresult" where
  "xissue_uop e u now s =
     rbind (select_execution e s u now) (\<lambda>(_, resource, lane, unit_id, read_domain, completion_domain).
     rbind (xdependency_ready_tick s u) (\<lambda>ready.
     rbind (rguard (u_id u \<in> set (q_unissued s)) (XKeyError (u_id u))) (\<lambda>_.
     let s = open_vector_epoch e u (s\<lparr>q_unissued := remove1 (u_id u) (q_unissued s)\<rparr>);
         u = u\<lparr>u_ready_tick := Some ready, u_issue_tick := Some now, u_resource := Some resource,
           u_resource_lane := Some lane, u_execution_unit := unit_id, u_vector_read_domain := read_domain,
           u_completion_domain := completion_domain\<rparr> in
     rbind (xaccess_memory e u now s) (\<lambda>(u, s).
     rbind (occupy_path u now resource lane unit_id (qput_uop u s)) (\<lambda>s.
     rbind (leave_partition u s) (\<lambda>s.
     rbind (xreserve_issue_domains u now (s\<lparr>q_last_class := AList.update (u_scheduling_class u) now (q_last_class s)\<rparr>)) (\<lambda>s.
     rbind (case read_domain of None \<Rightarrow> Inr s | Some d \<Rightarrow> reserve_vector_read_domain e d now s) (\<lambda>s.
     rbind (xupdate_groups e u s) (\<lambda>s.
     rbind (leave_vector_scheduler u s) (\<lambda>s.
     xschedule_completion e u now completion_domain ready s))))))))))"

definition xnote_stall :: "string \<Rightarrow> execution_uop \<Rightarrow> xsai_state \<Rightarrow> xsai_state" where
  "xnote_stall reason u s =
     qput_uop (u\<lparr>u_stall_reason := Some reason, u_stall_reasons := counter_add (u_stall_reasons u) reason 1\<rparr>) s"

definition xissue_candidates :: "xsai_env \<Rightarrow> xsai_state \<Rightarrow> string list qresult" where
  "xissue_candidates e s =
     (if n_in_order e
      then Inr (if q_issue_index s \<ge> length (n_uop_order e) then []
        else filter (\<lambda>i. i \<in> set (q_unissued s)) [n_uop_order e ! q_issue_index s])
      else rbind (qlookup s (q_unissued s)) (\<lambda>us. Inr (map u_id (sort_key u_sequence us))))"

fun xissue_loop :: "xsai_env \<Rightarrow> int \<Rightarrow> string list \<Rightarrow> xsai_state \<Rightarrow> bool \<Rightarrow> (xsai_state \<times> bool) qresult" where
  "xissue_loop e now [] s issued = Inr (s, issued)"
| "xissue_loop e now (i # is) s issued =
     rbind (qget (q_uops s) i) (\<lambda>u.
     rbind (xissue_blocker e u now s) (\<lambda>(s1, reason, earliest).
     case reason of
       Some r \<Rightarrow> if n_in_order e then Inr (xnote_stall r u s1, issued) else xissue_loop e now is (xnote_stall r u s1) issued
     | None \<Rightarrow> rbind (xissue_uop e u now s1) (\<lambda>s2. xissue_loop e now is s2 True)))"

definition xissue_once :: "xsai_env \<Rightarrow> int \<Rightarrow> xsai_state \<Rightarrow> (xsai_state \<times> bool) qresult" where
  "xissue_once e now s = rbind (xissue_candidates e s) (\<lambda>ids. xissue_loop e now ids s False)"

end
