(* ===== verification/XsaiRun.thy ===== *)
theory XsaiRun
  imports XsaiIssue
begin

text \<open>
  The life of an XSAI run: construction and its topology checks, completion and the release of
  memory flows and rename registers, retirement, the choice of the next tick, the event loop with
  its iteration guard and the summary.

  The memory-compute groups, the check of issue domains and the dependency critical path are the
  code of the Zen 4 engine, so its definitions are used here.
\<close>

section \<open>Construction\<close>

definition add_domains :: "(string \<Rightarrow> xsai_error) \<Rightarrow> (string, int) dict \<Rightarrow> (string, int) dict \<Rightarrow> (string, int) dict qresult" where
  "add_domains duplicate domains known =
     rfold (\<lambda>(d, capacity) known. rbind (rguard (d \<notin> set (keys known)) (duplicate d)) (\<lambda>_.
       Inr (known @ [(d, capacity)]))) domains known"

definition collect_domains :: "register_file list \<Rightarrow> ((string, int) dict \<times> (string, int) dict) qresult" where
  "collect_domains files =
     rfold (\<lambda>f (reads, writes).
       rbind (add_domains DuplicateReadDomain (rf_read_domains f) reads) (\<lambda>reads.
       rbind (add_domains DuplicateCompletionDomain (rf_writeback_domains f) writes) (\<lambda>writes.
       Inr (reads, writes)))) files ([], [])"

definition absent :: "string list \<Rightarrow> string list \<Rightarrow> string list" where
  "absent xs known = sort (remdups (filter (\<lambda>x. x \<notin> set known) xs))"

definition known_domain :: "(string, int) dict \<Rightarrow> string option \<Rightarrow> bool" where
  "known_domain capacities domain = (case domain of None \<Rightarrow> False | Some d \<Rightarrow> d \<in> set (keys capacities))"

definition check_unit :: "(string, int) dict \<Rightarrow> (string, int) dict \<Rightarrow> execution_uop \<Rightarrow> string \<times> execution_unit \<Rightarrow> unit qresult" where
  "check_unit reads writes u entry =
     (case entry of (unit_id, unit) \<Rightarrow>
      rbind (rguard (set (u_resource_choices u) \<inter> set (eu_functional_units unit) \<noteq> {}) (NoFunctionalResource (u_id u) unit_id)) (\<lambda>_.
      rbind (rguard (u_requires_completion_token u \<longrightarrow> known_domain writes (eu_writeback_domain unit))
        (MissingCompletionDomain (u_id u) unit_id)) (\<lambda>_.
      rguard (u_requires_vector_read_token u \<longrightarrow> known_domain reads (eu_read_domain unit))
        (MissingReadDomain (u_id u) unit_id))))"

definition check_topology :: "xsai_profile \<Rightarrow> (string, int) dict \<Rightarrow> (string, int) dict \<Rightarrow> execution_uop \<Rightarrow> unit qresult" where
  "check_topology p reads writes u =
     (let partitions = absent (u_scheduler_partition_choices u) (keys (np_partitions p));
          units = absent (u_execution_unit_choices u) (keys (np_units p)) in
      rbind (rguard (partitions = []) (UnknownPartitions (u_id u) partitions)) (\<lambda>_.
      rbind (rguard (units = []) (UnknownUnits (u_id u) units)) (\<lambda>_.
      rbind (rmap (\<lambda>i. rbind (qget (np_units p) i) (\<lambda>unit. Inr (i, unit))) (u_execution_unit_choices u)) (\<lambda>entries.
      rbind (rguard (set (u_scheduler_partition_choices u) = set (map (eu_partition \<circ> snd) entries))
        (PartitionMismatch (u_id u))) (\<lambda>_.
      rall (check_unit reads writes u) entries)))))"

definition qlift :: "('e \<Rightarrow> xsai_error) \<Rightarrow> 'e + 'a \<Rightarrow> 'a qresult" where
  "qlift wrap m = (case m of Inl x \<Rightarrow> Inl (wrap x) | Inr a \<Rightarrow> Inr a)"

text \<open>
  The backend trace and the trace that is simulated; \<open>source_version\<close> is
  \<open>trace.source_trace.get("trace_version")\<close>.
\<close>

definition backend_view :: "bound_trace \<Rightarrow> int option \<Rightarrow> bool \<Rightarrow> xsai_profile \<Rightarrow> (backend_trace \<times> bound_trace) qresult" where
  "backend_view t source_version expand p =
     qlift XBackendFailure (if expand \<and> source_version = Some 2
       then rbind (make_expander t (np_id p) (np_register_width p)) (\<lambda>b.
         rbind (materialize_xsai_trace t b) (\<lambda>t'. Inr (b, t')))
       else rbind (passthrough_backend_trace t) (\<lambda>b. Inr (b, t)))"

definition split_lanes :: "vector_memory_policy \<Rightarrow> string \<Rightarrow> string \<times> int list" where
  "split_lanes policy kind =
     (kind, replicate (nat (case map_of (vm_split_lanes policy) kind of None \<Rightarrow> 1 | Some n \<Rightarrow> n)) 0)"

definition initial_state :: "bound_trace \<Rightarrow> xsai_profile \<Rightarrow> memory_hierarchy \<Rightarrow> (string, int) dict \<Rightarrow> (string, int) dict \<Rightarrow> xsai_state" where
  "initial_state t p memory reads writes =
     \<lparr>q_uops = map (\<lambda>u. (u_id u, u)) (bt_uops t), q_macros = map (\<lambda>m. (m_id m, m)) (bt_macros t),
      q_memory = memory, q_rob = [], q_unissued = [], q_heap = [],
      q_resource_free = map (\<lambda>(i, r). (i, replicate (r_capacity r) 0)) (bt_resources t),
      q_last_class = [], q_partition_occupancy = map (\<lambda>(i, _). (i, 0)) (np_partitions p),
      q_unit_free = map (\<lambda>(i, _). (i, 0)) (np_units p),
      q_read_reservations = map (\<lambda>(d, _). (d, [])) reads,
      q_completion_reservations = map (\<lambda>(d, _). (d, [])) writes,
      q_domain_tokens = [], q_domain_blockers = [], q_rename_free = rn_free_lists (np_rename p),
      q_rename_pending = [], q_rename_allocation_tokens = 0, q_rename_release_tokens = 0,
      q_rename_blockers = [],
      q_issue_domain_free = map (\<lambda>(d, capacity). (d, replicate (nat capacity) 0)) (np_issue_domains p),
      q_inflight = [(''load'', []), (''store'', [])], q_service_heap = [],
      q_split_free = [split_lanes (np_vector_memory p) ''load'', split_lanes (np_vector_memory p) ''store''],
      q_flow_counts = [], q_mixed_active = [], q_epoch_blockers = [], q_pending_groups = [],
      q_next_dispatch = 0, q_unit_progress = [], q_issue_index = 0, q_rob_occupancy = 0,
      q_vector_occupancy = 0, q_load_occupancy = 0, q_store_occupancy = 0, q_peaks = [], q_stalls = [],
      q_events = []\<rparr>"

definition make_xengine :: "bound_trace \<Rightarrow> int option \<Rightarrow> bool \<Rightarrow> string \<Rightarrow> xsai_profile \<Rightarrow> string \<Rightarrow> cache_mode \<Rightarrow> bool option
    \<Rightarrow> (xsai_env \<times> xsai_state) qresult" where
  "make_xengine t source_version expand backend_id p model mode limit =
     rbind (rguard (model \<in> {''out_of_order'', ''in_order''}) (XUnknownModel model)) (\<lambda>_.
     rbind (qlift XInvalidTrace (validate_bound_trace t)) (\<lambda>_.
     rbind (backend_view t source_version expand p) (\<lambda>(view, t).
     rbind (qlift_mem (make_hierarchy (np_memory p) (bt_source_trace t) mode)) (\<lambda>memory.
     rbind (collect_domains (np_register_files p)) (\<lambda>(reads, writes).
     rbind (rall (check_topology p reads writes) (bt_uops t)) (\<lambda>_.
     let s = initial_state t p memory reads writes;
         unknown = unknown_domains t (q_issue_domain_free s);
         kinds = semantic_kind_by_id (bt_source_trace t) in
     rbind (rguard (unknown = []) (XUnknownIssueDomains unknown)) (\<lambda>_.
     rbind (build_epoch_plan (np_epochs p) kinds (q_uops s)) (\<lambda>plan.
     rbind (qlift XGroupFailure (discover_groups kinds (np_overlap_kinds p) (q_uops s) (bt_macros t))) (\<lambda>groups.
     Inr (\<lparr>n_backend_id = backend_id, n_backend_trace = view, n_profile = p, n_in_order = (model = ''in_order''),
           n_tpc = bt_ticks_per_cycle t, n_macro_order = map m_id (bt_macros t),
           n_uop_order = map u_id (bt_uops t), n_read_capacity = reads, n_completion_capacity = writes,
           n_overlap_enabled = (case limit of None \<Rightarrow> np_overlap_enabled p | Some b \<Rightarrow> b),
           n_kind_by_id = kinds, n_groups = groups, n_plan = plan\<rparr>, s))))))))))"

section \<open>Completion and release\<close>

definition xfinish_parent :: "string \<Rightarrow> xsai_state \<Rightarrow> xsai_state qresult" where
  "xfinish_parent parent_id s =
     rbind (qget (q_macros s) parent_id) (\<lambda>parent.
     rbind (qlookup s (m_uop_ids parent)) (\<lambda>us.
     if \<exists>u\<in>set us. u_complete_tick u = None then Inr s
     else rbind (qmax (map (\<lambda>u. or_zero (u_complete_tick u)) us)) (\<lambda>tick.
       Inr (qput_macro (parent\<lparr>m_complete_tick := Some tick\<rparr>) s))))"

definition drop_inflight :: "string \<Rightarrow> string \<Rightarrow> xsai_state \<Rightarrow> xsai_state qresult" where
  "drop_inflight kind uop_id s =
     rbind (qget (q_inflight s) kind) (\<lambda>inflight.
     Inr (s\<lparr>q_inflight := AList.update kind (removeAll uop_id inflight) (q_inflight s)\<rparr>))"

definition xcomplete_uop :: "xsai_env \<Rightarrow> int \<Rightarrow> execution_uop \<Rightarrow> xsai_state \<Rightarrow> xsai_state qresult" where
  "xcomplete_uop e tick u s =
     (let u = u\<lparr>u_complete_tick := Some tick\<rparr>; s = qput_uop u s;
          s = s\<lparr>q_mixed_active := removeAll (u_id u) (q_mixed_active s)\<rparr> in
      rbind (if service_ticks (np_vector_memory (n_profile e)) u = None
          then drop_inflight (vector_memory_access_kind u) (u_id u) s else Inr s) (\<lambda>s.
      xfinish_parent (u_parent_id u) (qlog (XUopEvent ''complete'' tick u) s)))"

fun xcomplete_from :: "xsai_env \<Rightarrow> int \<Rightarrow> (int \<times> int \<times> string) list \<Rightarrow> xsai_state \<Rightarrow> bool \<Rightarrow> (xsai_state \<times> bool) qresult" where
  "xcomplete_from e now [] s changed = Inr (s, changed)"
| "xcomplete_from e now ((tick, sequence, uop_id) # rest) s changed =
     (if tick > now then Inr (s, changed)
      else let s = s\<lparr>q_heap := rest\<rparr> in
        rbind (qget (q_uops s) uop_id) (\<lambda>u.
        if u_complete_tick u \<noteq> None then xcomplete_from e now rest s changed
        else rbind (xcomplete_uop e tick u s) (\<lambda>s. xcomplete_from e now rest s True)))"

definition xcomplete :: "xsai_env \<Rightarrow> int \<Rightarrow> xsai_state \<Rightarrow> (xsai_state \<times> bool) qresult" where
  "xcomplete e now s = xcomplete_from e now (q_heap s) s False"

fun release_flows_from :: "int \<Rightarrow> (int \<times> int \<times> string) list \<Rightarrow> xsai_state \<Rightarrow> xsai_state qresult" where
  "release_flows_from now [] s = Inr s"
| "release_flows_from now ((tick, sequence, uop_id) # rest) s =
     (if tick > now then Inr s
      else
        rbind (qget (q_uops s) uop_id) (\<lambda>u.
        rbind (drop_inflight (vector_memory_access_kind u) uop_id (s\<lparr>q_service_heap := rest\<rparr>)) (release_flows_from now rest)))"

definition release_vector_memory_flows :: "int \<Rightarrow> xsai_state \<Rightarrow> xsai_state qresult" where
  "release_vector_memory_flows now s = release_flows_from now (q_service_heap s) s"

text \<open>One free list of a released macro-op gets back what the release width of the cycle still allows.\<close>

definition return_entry :: "string \<times> int \<Rightarrow> xsai_state \<times> int \<times> (string \<times> int) list
    \<Rightarrow> (xsai_state \<times> int \<times> (string \<times> int) list) qresult" where
  "return_entry entry st =
     (case (entry, st) of ((name, held), s, remaining, leftover) \<Rightarrow>
      rbind (qget (q_rename_free s) name) (\<lambda>free.
      let returned = min held remaining in
      Inr (s\<lparr>q_rename_free := AList.update name (free + returned) (q_rename_free s),
             q_rename_release_tokens := q_rename_release_tokens s + returned\<rparr>,
           remaining - returned,
           if held > returned then leftover @ [(name, held - returned)] else leftover)))"

text \<open>The pending releases are a heap by tick and sequence number, kept sorted.\<close>

definition push_release :: "int \<times> int \<times> (string \<times> int) list \<Rightarrow> (int \<times> int \<times> (string \<times> int) list) list
    \<Rightarrow> (int \<times> int \<times> (string \<times> int) list) list" where
  "push_release x h = insort_key (\<lambda>(tick, sequence, _). (tick, sequence)) x h"

fun release_rename_from :: "int \<Rightarrow> int \<Rightarrow> (int \<times> int \<times> (string \<times> int) list) list \<Rightarrow> xsai_state \<Rightarrow> xsai_state qresult" where
  "release_rename_from now remaining [] s = Inr s"
| "release_rename_from now remaining ((tick, sequence, allocations) # rest) s =
     (if tick > now \<or> remaining \<le> 0 then Inr s
      else
        rbind (rfold return_entry allocations (s\<lparr>q_rename_pending := rest\<rparr>, remaining, [])) (\<lambda>(s, remaining, leftover).
        if leftover \<noteq> [] then Inr (s\<lparr>q_rename_pending := push_release (tick, sequence, leftover) rest\<rparr>)
        else release_rename_from now remaining rest s))"

definition release_rename :: "xsai_env \<Rightarrow> int \<Rightarrow> xsai_state \<Rightarrow> xsai_state qresult" where
  "release_rename e now s =
     (if \<not> rn_enabled (np_rename (n_profile e)) then Inr s
      else release_rename_from now (rn_release_width (np_rename (n_profile e))) (q_rename_pending s) s)"

section \<open>Retirement\<close>

definition xleave_rob :: "xsai_env \<Rightarrow> int \<Rightarrow> macro_op \<Rightarrow> string list \<Rightarrow> xsai_state \<Rightarrow> xsai_state" where
  "xleave_rob e now macro rest s =
     (let rn = np_rename (n_profile e); macro = macro\<lparr>m_retire_tick := Some now\<rparr>;
          s = qput_macro macro (s\<lparr>q_rob := rest\<rparr>);
          s = s\<lparr>q_rob_occupancy := q_rob_occupancy s - rob_entry_count macro,
            q_load_occupancy := q_load_occupancy s - of_bool (m_uses_load_queue macro),
            q_store_occupancy := q_store_occupancy s - of_bool (m_uses_store_queue macro)\<rparr>;
          s = (if rn_enabled rn \<and> m_rename_allocations macro \<noteq> []
            then s\<lparr>q_rename_pending := push_release (now + rn_release_delay_ticks rn + rn_availability_delay_ticks rn,
              m_sequence macro, m_rename_allocations macro) (q_rename_pending s)\<rparr> else s) in
      qlog (XRetireEvent now macro) s)"

fun xretire_from :: "xsai_env \<Rightarrow> int \<Rightarrow> int \<Rightarrow> string list \<Rightarrow> xsai_state \<Rightarrow> xsai_state qresult" where
  "xretire_from e now retired [] s = Inr s"
| "xretire_from e now retired (i # rest) s =
     (let width = np_retire_width (n_profile e) in
      if \<not> retired < width then Inr s
      else rbind (qget (q_macros s) i) (\<lambda>macro.
        if (case m_complete_tick macro of None \<Rightarrow> True | Some t \<Rightarrow> t > now) then Inr s
        else if retired + m_retire_macro_ops macro > width then Inr s
        else xretire_from e now (retired + m_retire_macro_ops macro) rest (xleave_rob e now macro rest s)))"

definition xretire :: "xsai_env \<Rightarrow> int \<Rightarrow> xsai_state \<Rightarrow> xsai_state qresult" where
  "xretire e now s = xretire_from e now 0 (q_rob s) s"

end
