(* ===== verification/XsaiFrame.thy ===== *)
theory XsaiFrame
  imports XsaiRun
begin

text \<open>
  What each step of issue leaves alone.  \<open>core\<close> collects the tables, queues, counters and token
  books the invariants speak about; most steps of issue only touch lanes, memory and statistics.
\<close>

definition core :: "xsai_state \<Rightarrow> _" where
  "core s = (q_uops s, q_macros s, (q_rob s, q_unissued s, q_heap s, q_next_dispatch s), q_partition_occupancy s,
     (q_read_reservations s, q_completion_reservations s), (q_rename_free s, q_rename_pending s),
     (q_rob_occupancy s, q_load_occupancy s, q_store_occupancy s))"

lemma core_updates [simp]:
  "core (s\<lparr>q_memory := h\<rparr>) = core s" "core (s\<lparr>q_epoch_blockers := a\<rparr>) = core s"
  "core (s\<lparr>q_mixed_active := b\<rparr>) = core s" "core (s\<lparr>q_flow_counts := c\<rparr>) = core s"
  "core (s\<lparr>q_split_free := d\<rparr>) = core s" "core (s\<lparr>q_inflight := f\<rparr>) = core s"
  "core (s\<lparr>q_service_heap := g\<rparr>) = core s" "core (s\<lparr>q_resource_free := i\<rparr>) = core s"
  "core (s\<lparr>q_unit_free := j\<rparr>) = core s" "core (s\<lparr>q_issue_domain_free := k\<rparr>) = core s"
  "core (s\<lparr>q_pending_groups := l\<rparr>) = core s" "core (s\<lparr>q_vector_occupancy := m\<rparr>) = core s"
  "core (s\<lparr>q_last_class := n\<rparr>) = core s" "core (s\<lparr>q_issue_index := o'\<rparr>) = core s"
  "core (s\<lparr>q_peaks := p\<rparr>) = core s" "core (s\<lparr>q_stalls := q\<rparr>) = core s"
  "core (s\<lparr>q_domain_tokens := e\<rparr>) = core s" "core (s\<lparr>q_rename_allocation_tokens := w\<rparr>) = core s"
  "core (s\<lparr>q_rename_blockers := t\<rparr>) = core s" "core (s\<lparr>q_domain_blockers := v\<rparr>) = core s"
  "core (s\<lparr>q_unit_progress := y\<rparr>) = core s" "core (s\<lparr>q_rename_release_tokens := w\<rparr>) = core s"
  "core (qlog x s) = core s"
  by (simp_all add: core_def qlog_def)

text \<open>\<open>to_core c m\<close>: the core of the state is \<open>c\<close> whenever \<open>m\<close> returns.\<close>

abbreviation to_core :: "_ \<Rightarrow> xsai_state qresult \<Rightarrow> bool" where
  "to_core c m \<equiv> wp (\<lambda>_. True) (\<lambda>s'. core s' = c) m"

abbreviation to_core2 :: "_ \<Rightarrow> (xsai_state \<times> 'a) qresult \<Rightarrow> bool" where
  "to_core2 c m \<equiv> wp (\<lambda>_. True) (\<lambda>r. core (fst r) = c) m"

lemma stage_core: "core s = c \<Longrightarrow> to_core2 c rest \<Longrightarrow> to_core2 c (stage s check rest)"
  unfolding stage_def by (intro wp_rules) simp_all

lemma xmemory_check_core: "core s = c \<Longrightarrow> to_core2 c (xmemory_check e u now s)"
  unfolding xmemory_check_def by (intro wp_rules) simp_all

lemma xissue_blocker_core: "core s = c \<Longrightarrow> to_core2 c (xissue_blocker e u now s)"
  unfolding xissue_blocker_def
  by (intro stage_core wp_bindI [OF xmemory_check_core] wp_rules) simp_all

lemma open_vector_epoch_core [simp]: "core (open_vector_epoch e u s) = core s"
  by (simp add: open_vector_epoch_def split: option.splits)

lemma reserve_split_issue_core: "core s = c \<Longrightarrow> to_core c (reserve_split_issue p u now s)"
  unfolding reserve_split_issue_def Let_def by (intro wp_rules) simp_all

lemma track_flow_core: "core s = c \<Longrightarrow> to_core c (track_flow e u now s)"
  unfolding track_flow_def Let_def
  by (intro wp_bindI [OF reserve_split_issue_core] wp_rules) (auto split: option.splits)

lemma xaccess_memory_core: "core s = c \<Longrightarrow> wp (\<lambda>_. True) (\<lambda>r. core (snd r) = c) (xaccess_memory e u now s)"
  unfolding xaccess_memory_def Let_def
  by (intro wp_bindI [OF track_flow_core] wp_rules) simp_all

lemma occupy_path_core: "core s = c \<Longrightarrow> to_core c (occupy_path u now r l i s)"
  unfolding occupy_path_def Let_def by (intro wp_rules) (simp_all split: option.splits)

lemma xreserve_domain_core: "core s = c \<Longrightarrow> to_core c (xreserve_domain u now d s)"
  unfolding xreserve_domain_def Let_def by (intro wp_rules) simp_all

lemma xreserve_issue_domains_core: "core s = c \<Longrightarrow> to_core c (xreserve_issue_domains u now s)"
  unfolding xreserve_issue_domains_def by (rule wp_rfold) (simp_all add: xreserve_domain_core)

lemma xupdate_groups_core: "core s = c \<Longrightarrow> to_core c (xupdate_groups e u s)"
  unfolding xupdate_groups_def Let_def by (intro wp_rules) simp_all

lemma leave_vector_scheduler_core: "core s = c \<Longrightarrow> to_core c (leave_vector_scheduler u s)"
  unfolding leave_vector_scheduler_def by (intro wp_rules) simp_all

lemma drop_inflight_core: "core s = c \<Longrightarrow> to_core c (drop_inflight k i s)"
  unfolding drop_inflight_def by (intro wp_rules) simp_all

lemma leave_partition_cases:
  "leave_partition u s = Inr s' \<Longrightarrow>
     (u_scheduler_partition u = None \<and> s' = s) \<or>
     (\<exists>p n. u_scheduler_partition u = Some p \<and> map_of (q_partition_occupancy s) p = Some n \<and> 0 < n \<and>
        s' = s\<lparr>q_partition_occupancy := AList.update p (n - 1) (q_partition_occupancy s)\<rparr>)"
  by (auto simp: leave_partition_def rbind_eq_Inr_iff split: option.splits)

section \<open>Issuing an entry\<close>

lemma update_twice [simp]: "AList.update k w (AList.update k v d) = AList.update k w d"
  by (induction d) auto

text \<open>The entry as it is after it took the path and its memory access was timed.\<close>

definition as_issued :: "execution_uop \<Rightarrow> int \<Rightarrow> int \<Rightarrow> path \<Rightarrow> string option \<Rightarrow> int \<Rightarrow> execution_uop" where
  "as_issued u now ready path level latency =
     (case path of (_, resource, lane, unit_id, read_domain, completion_domain) \<Rightarrow>
      u\<lparr>u_ready_tick := Some ready, u_issue_tick := Some now, u_resource := Some resource,
        u_resource_lane := Some lane, u_execution_unit := unit_id, u_vector_read_domain := read_domain,
        u_completion_domain := completion_domain, u_memory_level := level, u_latency_ticks := latency\<rparr>)"

definition booked :: "(string, int) dict \<Rightarrow> (string, (int, int) dict) dict \<Rightarrow> string option \<Rightarrow> (string, (int, int) dict) dict \<Rightarrow> bool" where
  "booked capacities r domain r' \<longleftrightarrow>
     (case domain of None \<Rightarrow> r' = r
      | Some d \<Rightarrow> \<exists>used capacity cycle. map_of r d = Some used \<and> map_of capacities d = Some capacity \<and>
          counter_get used cycle < capacity \<and> r' = AList.update d (counter_add used cycle 1) r)"

definition left_partition :: "(string, int) dict \<Rightarrow> string option \<Rightarrow> (string, int) dict \<Rightarrow> bool" where
  "left_partition occ choice occ' \<longleftrightarrow>
     (case choice of None \<Rightarrow> occ' = occ
      | Some p \<Rightarrow> \<exists>n. map_of occ p = Some n \<and> 0 < n \<and> occ' = AList.update p (n - 1) occ)"

text \<open>What issuing \<open>u\<close> at \<open>now\<close> makes of the core of the state.\<close>

definition issued_from :: "xsai_env \<Rightarrow> execution_uop \<Rightarrow> int \<Rightarrow> xsai_state \<Rightarrow> xsai_state \<Rightarrow> bool" where
  "issued_from e u now s s' \<longleftrightarrow>
     (\<exists>path ready level latency occ reads writes.
        select_execution e s u now = Inr path \<and> xdependency_ready_tick s u = Inr ready \<and>
        u_id u \<in> set (q_unissued s) \<and> left_partition (q_partition_occupancy s) (u_scheduler_partition u) occ \<and>
        booked (n_read_capacity e) (q_read_reservations s) (fst (snd (snd (snd (snd path))))) reads \<and>
        booked (n_completion_capacity e) (q_completion_reservations s) (snd (snd (snd (snd (snd path))))) writes \<and>
        core s' = (AList.update (u_id u) (as_issued u now ready path level latency) (q_uops s), q_macros s,
          (q_rob s, remove1 (u_id u) (q_unissued s), heappush (now + latency, u_sequence u, u_id u) (q_heap s),
           q_next_dispatch s), occ, (reads, writes), (q_rename_free s, q_rename_pending s),
          (q_rob_occupancy s, q_load_occupancy s, q_store_occupancy s)))"

subsection \<open>The first cycle with a completion token\<close>

lemma free_tick_from_unfold:
  "counter_get used (tick div tpc) < capacity \<Longrightarrow> free_tick_from tpc used capacity tick = Some tick"
  "\<not> counter_get used (tick div tpc) < capacity \<Longrightarrow>
     free_tick_from tpc used capacity tick = free_tick_from tpc used capacity ((tick div tpc + 1) * tpc)"
  by (subst free_tick_from.simps, simp)+

lemma free_tick_from_free:
  assumes "free_tick_from tpc used capacity tick = Some t"
  shows "counter_get used (t div tpc) < capacity"
  using assms
  by (rule free_tick_from.raw_induct [rotated]) (auto split: if_splits)

lemma counter_get_key: "counter_get c k \<noteq> 0 \<Longrightarrow> k \<in> set (keys c)"
  by (auto simp: counter_get_def keys_map_of split: option.splits)

lemma free_tick_from_returns:
  assumes "0 < tpc" "0 < capacity"
  shows "\<exists>t. free_tick_from tpc used capacity tick = Some t \<and> tick \<le> t \<and> (t = tick \<or> t mod tpc = 0) \<and>
     counter_get used (t div tpc) < capacity \<and>
     (\<forall>c. tick div tpc \<le> c \<and> c < t div tpc \<longrightarrow> capacity \<le> counter_get used c)"
proof (induction "card {k \<in> set (keys used). tick div tpc \<le> k}" arbitrary: tick rule: less_induct)
  case less
  show ?case
  proof (cases "counter_get used (tick div tpc) < capacity")
    case True
    then show ?thesis by (auto simp: free_tick_from_unfold)
  next
    case False
    let ?next = "(tick div tpc + 1) * tpc"
    have cyc: "?next div tpc = tick div tpc + 1" using assms(1) by simp
    have "tick = (tick div tpc) * tpc + tick mod tpc" by simp
    then have later: "tick < ?next"
      using pos_mod_bound [OF assms(1), of tick] by (simp only: distrib_right mult_1)
    have "tick div tpc \<in> set (keys used)" using False assms(2) by (intro counter_get_key) simp
    then have "tick div tpc \<in> {k \<in> set (keys used). tick div tpc \<le> k} - {k \<in> set (keys used). ?next div tpc \<le> k}"
      unfolding cyc by simp
    moreover have "{k \<in> set (keys used). ?next div tpc \<le> k} \<subseteq> {k \<in> set (keys used). tick div tpc \<le> k}"
      unfolding cyc by auto
    ultimately have "{k \<in> set (keys used). ?next div tpc \<le> k} \<subset> {k \<in> set (keys used). tick div tpc \<le> k}"
      by blast
    then have "card {k \<in> set (keys used). ?next div tpc \<le> k} < card {k \<in> set (keys used). tick div tpc \<le> k}"
      by (rule psubset_card_mono [rotated]) simp
    from less [OF this] obtain t where t: "free_tick_from tpc used capacity ?next = Some t" "?next \<le> t"
        "t = ?next \<or> t mod tpc = 0" "counter_get used (t div tpc) < capacity"
        "\<forall>c. ?next div tpc \<le> c \<and> c < t div tpc \<longrightarrow> capacity \<le> counter_get used c" by (elim exE conjE)
    have "t mod tpc = 0" using t(3) by auto
    moreover have "\<forall>c. tick div tpc \<le> c \<and> c < t div tpc \<longrightarrow> capacity \<le> counter_get used c"
    proof (intro allI impI)
      fix c assume "tick div tpc \<le> c \<and> c < t div tpc"
      then show "capacity \<le> counter_get used c"
        using t(5) False unfolding cyc by (cases "c = tick div tpc") auto
    qed
    ultimately show ?thesis using t later False by (auto simp: free_tick_from_unfold)
  qed
qed

lemma bookedI:
  "map_of r d = Some used \<Longrightarrow> map_of capacities d = Some capacity \<Longrightarrow> counter_get used cycle < capacity \<Longrightarrow>
     booked capacities r (Some d) (AList.update d (counter_add used cycle 1) r)"
  by (auto simp: booked_def)

lemma reserve_completion_cases:
  assumes "reserve_completion_domain e d tick s = Inr (s', t)"
  obtains writes where "booked (n_completion_capacity e) (q_completion_reservations s) (Some d) writes"
    "s' = s\<lparr>q_completion_reservations := writes\<rparr>"
proof -
  obtain used capacity where 1: "map_of (q_completion_reservations s) d = Some used"
      "map_of (n_completion_capacity e) d = Some capacity" "free_tick_from (n_tpc e) used capacity tick = Some t"
      "s' = s\<lparr>q_completion_reservations := AList.update d (counter_add used (t div n_tpc e) 1) (q_completion_reservations s)\<rparr>"
    using assms by (auto simp: reserve_completion_domain_def rbind_eq_Inr_iff split: option.splits)
  show thesis
    by (rule that [OF bookedI [OF 1(1,2) free_tick_from_free [OF 1(3)]] 1(4)])
qed

lemma reserve_read_cases:
  assumes "reserve_vector_read_domain e d tick s = Inr s'"
  obtains reads where "booked (n_read_capacity e) (q_read_reservations s) (Some d) reads"
    "s' = s\<lparr>q_read_reservations := reads\<rparr>"
proof -
  obtain used capacity cycle where 1: "map_of (q_read_reservations s) d = Some used"
      "map_of (n_read_capacity e) d = Some capacity" "counter_get used cycle < capacity"
      "s' = s\<lparr>q_read_reservations := AList.update d (counter_add used cycle 1) (q_read_reservations s)\<rparr>"
    using assms
    by (auto simp: reserve_vector_read_domain_def vector_read_token_available_def token_available_def rbind_eq_Inr_iff)
  show thesis by (rule that [OF bookedI [OF 1(1-3)] 1(4)])
qed

subsection \<open>The effect of issuing\<close>

lemma xaccess_memory_entry:
  "xaccess_memory e u now s = Inr (u', s') \<Longrightarrow> u' = u\<lparr>u_memory_level := u_memory_level u', u_latency_ticks := u_latency_ticks u'\<rparr>"
  by (auto simp: xaccess_memory_def rbind_eq_Inr_iff Let_def split: if_splits)

lemma leave_partition_core:
  assumes "leave_partition u s = Inr s'"
  obtains occ where "left_partition (q_partition_occupancy s) (u_scheduler_partition u) occ"
    "s' = s\<lparr>q_partition_occupancy := occ\<rparr>"
proof -
  have "s = s\<lparr>q_partition_occupancy := q_partition_occupancy s\<rparr>" by simp
  with leave_partition_cases [OF assms] show thesis by (auto simp: left_partition_def intro: that)
qed

lemma xschedule_completion_cases:
  assumes "xschedule_completion e u now cd ready s = Inr s'"
  obtains writes tick where "booked (n_completion_capacity e) (q_completion_reservations s) cd writes"
     "core s' = core (qput_uop (u\<lparr>u_latency_ticks := tick - now\<rparr>) (s\<lparr>q_completion_reservations := writes,
        q_heap := heappush (tick, u_sequence u, u_id u) (q_heap s)\<rparr>))"
proof -
  obtain s8 tick where s8: "(case cd of None \<Rightarrow> Inr (s, now + u_latency_ticks u)
     | Some d \<Rightarrow> reserve_completion_domain e d (now + u_latency_ticks u) s) = Inr (s8, tick)"
    using assms unfolding xschedule_completion_def rbind_eq_Inr_iff by fast
  have s': "core s' = core (qput_uop (u\<lparr>u_latency_ticks := tick - now\<rparr>)
      (s8\<lparr>q_heap := heappush (tick, u_sequence u, u_id u) (q_heap s8)\<rparr>))"
    using assms unfolding xschedule_completion_def s8
    by (auto simp: Let_def core_def qlog_def qput_uop_def split: if_splits)
  show thesis
  proof (cases cd)
    case None
    then show thesis using that [of "q_completion_reservations s" tick] s8 s' by (simp add: booked_def)
  next
    case (Some d)
    with s8 have "reserve_completion_domain e d (now + u_latency_ticks u) s = Inr (s8, tick)" by simp
    then obtain writes where "booked (n_completion_capacity e) (q_completion_reservations s) (Some d) writes"
        "s8 = s\<lparr>q_completion_reservations := writes\<rparr>" by (rule reserve_completion_cases)
    then show thesis using that s' Some by simp
  qed
qed

lemma select_and_book:
  assumes "xissue_uop e u now s = Inr s'"
  shows "issued_from e u now s s'"
proof -
  obtain free resource lane unit_id rd cd where sel: "select_execution e s u now = Inr (free, resource, lane, unit_id, rd, cd)"
    using assms by (auto simp: xissue_uop_def rbind_eq_Inr_iff)
  then obtain ready where ready: "xdependency_ready_tick s u = Inr ready" and mem: "u_id u \<in> set (q_unissued s)"
    using assms by (auto simp: xissue_uop_def rbind_eq_Inr_iff)
  define u0 where "u0 = u\<lparr>u_ready_tick := Some ready, u_issue_tick := Some now, u_resource := Some resource,
           u_resource_lane := Some lane, u_execution_unit := unit_id, u_vector_read_domain := rd,
           u_completion_domain := cd\<rparr>"
  define s0 where "s0 = open_vector_epoch e u (s\<lparr>q_unissued := remove1 (u_id u) (q_unissued s)\<rparr>)"
  obtain u1 s1 s2 s3 s4 s5 s6 s7 where
      1: "xaccess_memory e u0 now s0 = Inr (u1, s1)" and
      2: "occupy_path u1 now resource lane unit_id (qput_uop u1 s1) = Inr s2" and
      3: "leave_partition u1 s2 = Inr s3" and
      4: "xreserve_issue_domains u1 now (s3\<lparr>q_last_class := AList.update (u_scheduling_class u1) now (q_last_class s3)\<rparr>) = Inr s4" and
      5: "(case rd of None \<Rightarrow> Inr s4 | Some d \<Rightarrow> reserve_vector_read_domain e d now s4) = Inr s5" and
      6: "xupdate_groups e u1 s5 = Inr s6" and
      7: "leave_vector_scheduler u1 s6 = Inr s7" and
      8: "xschedule_completion e u1 now cd ready s7 = Inr s'"
    using assms sel ready mem
    by (auto simp: xissue_uop_def rbind_eq_Inr_iff u0_def s0_def Let_def split: prod.splits)
  obtain level latency1 where u1: "u1 = u0\<lparr>u_memory_level := level, u_latency_ticks := latency1\<rparr>"
    using xaccess_memory_entry [OF 1] by blast
  have c1: "core s1 = core s0"
    using wp_Inr_eqD [OF xaccess_memory_core [OF refl] 1] by simp
  have c2: "core s2 = core (qput_uop u1 s1)" by (rule wp_Inr_eqD [OF occupy_path_core [OF refl] 2])
  obtain occ where occ: "left_partition (q_partition_occupancy s2) (u_scheduler_partition u1) occ"
      and s3: "s3 = s2\<lparr>q_partition_occupancy := occ\<rparr>" by (rule leave_partition_core [OF 3])
  have c4: "core s4 = core s3" using wp_Inr_eqD [OF xreserve_issue_domains_core [OF refl] 4] by simp
  obtain reads where reads: "booked (n_read_capacity e) (q_read_reservations s4) rd reads"
      and s5: "s5 = s4\<lparr>q_read_reservations := reads\<rparr>"
  proof (cases rd)
    case None
    then show thesis using that [of "q_read_reservations s4"] 5 by (simp add: booked_def)
  next
    case (Some d)
    with 5 have "reserve_vector_read_domain e d now s4 = Inr s5" by simp
    then obtain reads where "booked (n_read_capacity e) (q_read_reservations s4) (Some d) reads"
        "s5 = s4\<lparr>q_read_reservations := reads\<rparr>" by (rule reserve_read_cases)
    then show thesis using that Some by simp
  qed
  have c7: "core s7 = core s5" 
    using wp_Inr_eqD [OF xupdate_groups_core [OF refl] 6] wp_Inr_eqD [OF leave_vector_scheduler_core [OF refl] 7] by simp
  obtain writes tick where writes: "booked (n_completion_capacity e) (q_completion_reservations s7) cd writes" and
     s': "core s' = core (qput_uop (u1\<lparr>u_latency_ticks := tick - now\<rparr>) (s7\<lparr>q_completion_reservations := writes,
        q_heap := heappush (tick, u_sequence u1, u_id u1) (q_heap s7)\<rparr>))"
    by (rule xschedule_completion_cases [OF 8])
  have s0: "core s0 = core (s\<lparr>q_unissued := remove1 (u_id u) (q_unissued s)\<rparr>)" by (simp add: s0_def)
  let ?u = "as_issued u now ready (free, resource, lane, unit_id, rd, cd) level (tick - now)"
  have u: "u1\<lparr>u_latency_ticks := tick - now\<rparr> = ?u" "u_id u1 = u_id u" "u_sequence u1 = u_sequence u"
      "u_scheduler_partition u1 = u_scheduler_partition u" "u_id ?u = u_id u"
    by (simp_all add: u1 u0_def as_issued_def)
  have "core s' = (AList.update (u_id u) ?u (q_uops s), q_macros s,
          (q_rob s, remove1 (u_id u) (q_unissued s), heappush (now + (tick - now), u_sequence u, u_id u) (q_heap s),
           q_next_dispatch s), occ, (reads, writes), (q_rename_free s, q_rename_pending s),
          (q_rob_occupancy s, q_load_occupancy s, q_store_occupancy s))"
    using s' c7 s5 c4 s3 c2 c1 s0 u by (simp add: core_def qput_uop_def)
  moreover have "left_partition (q_partition_occupancy s) (u_scheduler_partition u) occ"
    using occ c2 c1 s0 u by (simp add: core_def qput_uop_def)
  moreover have "booked (n_read_capacity e) (q_read_reservations s) rd reads"
    using reads c4 s3 c2 c1 s0 by (simp add: core_def qput_uop_def)
  moreover have "booked (n_completion_capacity e) (q_completion_reservations s) cd writes"
    using writes c7 s5 c4 s3 c2 c1 s0 by (simp add: core_def qput_uop_def)
  ultimately show ?thesis
    unfolding issued_from_def using sel ready mem
    by (intro exI [of _ "(free, resource, lane, unit_id, rd, cd)"] exI [of _ ready] exI [of _ level]
        exI [of _ "tick - now"] exI [of _ occ] exI [of _ reads] exI [of _ writes]) simp
qed

end
