(* ===== verification/XsaiLoop.thy ===== *)
theory XsaiLoop
  imports XsaiFrame
begin

text \<open>
  The event loop of the XSAI engine: the issue fixed point, which ends because every issue takes an
  entry out of the waiting set and every completion one off the heap, the next tick, the peaks, the
  run with the code's own iteration guard and the summary.
\<close>

section \<open>The issue fixed point\<close>

definition pending_work :: "xsai_state \<Rightarrow> nat" where
  "pending_work s = 2 * length (q_unissued s) + length (q_heap s)"

lemma core_pending_work: "core s' = core s \<Longrightarrow> pending_work s' = pending_work s"
  by (simp add: core_def pending_work_def)

text \<open>\<open>t\<close> is the tick at which the last entry of the macro-op completes.\<close>

definition last_completion :: "(string, execution_uop) dict \<Rightarrow> macro_op \<Rightarrow> int \<Rightarrow> bool" where
  "last_completion uops m t \<longleftrightarrow>
     (\<forall>j\<in>set (m_uop_ids m). \<exists>v c. map_of uops j = Some v \<and> u_complete_tick v = Some c \<and> c \<le> t) \<and>
     (\<exists>j\<in>set (m_uop_ids m). \<exists>v. map_of uops j = Some v \<and> u_complete_tick v = Some t)"

lemma xfinish_parent_shape:
  assumes "xfinish_parent p s = Inr s'"
  shows "s' = s \<or> (\<exists>m t. map_of (q_macros s) p = Some m \<and> last_completion (q_uops s) m t \<and>
     s' = qput_macro (m\<lparr>m_complete_tick := Some t\<rparr>) s)"
proof -
  obtain m us where m: "map_of (q_macros s) p = Some m" and us: "qlookup s (m_uop_ids m) = Inr us"
      and r: "(if \<exists>u\<in>set us. u_complete_tick u = None then Inr s
        else rbind (qmax (map (\<lambda>u. or_zero (u_complete_tick u)) us)) (\<lambda>tick.
          Inr (qput_macro (m\<lparr>m_complete_tick := Some tick\<rparr>) s))) = Inr s'"
    using assms by (auto simp: xfinish_parent_def rbind_eq_Inr_iff)
  show ?thesis
  proof (cases "\<exists>u\<in>set us. u_complete_tick u = None")
    case False
    then obtain t where q: "qmax (map (\<lambda>u. or_zero (u_complete_tick u)) us) = Inr t"
        and s': "s' = qput_macro (m\<lparr>m_complete_tick := Some t\<rparr>) s"
      using r unfolding if_not_P [OF False] by (auto simp: rbind_eq_Inr_iff)
    obtain x xs where us_eq: "us = x # xs" and t: "t = max_of (or_zero (u_complete_tick x)) (map (\<lambda>u. or_zero (u_complete_tick u)) xs)"
      using q by (cases us) (auto simp: qmax_def)
    have l: "list_all2 (\<lambda>i u. map_of (q_uops s) i = Some u) (m_uop_ids m) us" using us by (simp add: qlookup_def rmap_Inr_iff)
    have le: "or_zero (u_complete_tick u) \<le> t" if "u \<in> set us" for u
      unfolding t by (rule max_of_ge) (use that us_eq in auto)
    have mem: "\<exists>u\<in>set us. t = or_zero (u_complete_tick u)"
      using max_of_mem [of "or_zero (u_complete_tick x)" "map (\<lambda>u. or_zero (u_complete_tick u)) xs"] by (auto simp: t us_eq)
    have "\<exists>v c. map_of (q_uops s) j = Some v \<and> u_complete_tick v = Some c \<and> c \<le> t" if j: "j \<in> set (m_uop_ids m)" for j
    proof -
      obtain k where k: "k < length us" "j = m_uop_ids m ! k"
        using j list_all2_lengthD [OF l] by (auto simp: in_set_conv_nth)
      then have "map_of (q_uops s) j = Some (us ! k)" "us ! k \<in> set us" using list_all2_nthD2 [OF l k(1)] by simp_all
      then show ?thesis using False le [of "us ! k"] by (auto simp: or_zero_def split: option.splits)
    qed
    moreover have "\<exists>j\<in>set (m_uop_ids m). \<exists>v. map_of (q_uops s) j = Some v \<and> u_complete_tick v = Some t"
    proof -
      obtain k where k: "k < length us" "t = or_zero (u_complete_tick (us ! k))" using mem by (auto simp: in_set_conv_nth)
      then have "map_of (q_uops s) (m_uop_ids m ! k) = Some (us ! k)" "m_uop_ids m ! k \<in> set (m_uop_ids m)"
        using list_all2_nthD2 [OF l k(1)] list_all2_lengthD [OF l] by simp_all
      moreover have "u_complete_tick (us ! k) = Some t" using False k by (auto simp: or_zero_def split: option.splits)
      ultimately show ?thesis by blast
    qed
    ultimately show ?thesis using m s' by (auto simp: last_completion_def)
  qed (use r in auto)
qed

text \<open>What completing an entry changes of the core: its entry, and the entry of its macro-op.\<close>

definition completed_from :: "int \<Rightarrow> execution_uop \<Rightarrow> xsai_state \<Rightarrow> xsai_state \<Rightarrow> bool" where
  "completed_from tick u s s' \<longleftrightarrow> (\<exists>macros.
     (macros = q_macros s \<or> (\<exists>m t. map_of (q_macros s) (u_parent_id u) = Some m \<and>
        last_completion (AList.update (u_id u) (u\<lparr>u_complete_tick := Some tick\<rparr>) (q_uops s)) m t \<and>
        macros = AList.update (m_id m) (m\<lparr>m_complete_tick := Some t\<rparr>) (q_macros s))) \<and>
     core s' = core (s\<lparr>q_uops := AList.update (u_id u) (u\<lparr>u_complete_tick := Some tick\<rparr>) (q_uops s), q_macros := macros\<rparr>))"

lemma xcomplete_uop_from:
  assumes "xcomplete_uop e tick u s = Inr s'"
  shows "completed_from tick u s s'"
proof -
  let ?u = "u\<lparr>u_complete_tick := Some tick\<rparr>"
  define s1 where "s1 = (qput_uop ?u s)\<lparr>q_mixed_active := removeAll (u_id ?u) (q_mixed_active (qput_uop ?u s))\<rparr>"
  obtain s2 where
      1: "(if service_ticks (np_vector_memory (n_profile e)) ?u = None
          then drop_inflight (vector_memory_access_kind ?u) (u_id ?u) s1 else Inr s1) = Inr s2" and
      2: "xfinish_parent (u_parent_id ?u) (qlog (XUopEvent ''complete'' tick ?u) s2) = Inr s'"
    using assms unfolding xcomplete_uop_def Let_def rbind_eq_Inr_iff s1_def by blast
  have c: "core s2 = core s1"
    using 1 wp_Inr_eqD [OF drop_inflight_core [OF refl]] by (auto split: if_splits)
  then have "q_uops s2 = AList.update (u_id u) ?u (q_uops s)" by (simp add: core_def s1_def qput_uop_def)
  then show ?thesis
    using xfinish_parent_shape [OF 2] c
    unfolding completed_from_def
    by (elim disjE exE conjE) (force simp: core_def s1_def qput_uop_def qput_macro_def qlog_def)+
qed

lemma completed_pending_work: "completed_from tick u s s' \<Longrightarrow> pending_work s' = pending_work s"
  by (auto simp: completed_from_def core_def pending_work_def)

lemma xcomplete_from_shrinks:
  "xcomplete_from e now h s changed = Inr (s', changed') \<Longrightarrow> q_heap s = h \<Longrightarrow>
     pending_work s' \<le> pending_work s \<and> (changed' \<longrightarrow> changed \<or> pending_work s' < pending_work s)"
proof (induction e now h s changed rule: xcomplete_from.induct)
  case (2 e now tick sequence uop_id rest s changed)
  let ?s = "s\<lparr>q_heap := rest\<rparr>"
  have p: "pending_work ?s < pending_work s" using 2(4) by (simp add: pending_work_def)
  show ?case
  proof (cases "tick > now")
    case True
    then show ?thesis using 2(3) by simp
  next
    case False
    then obtain u where u: "map_of (q_uops s) uop_id = Some u"
      using 2(3) by (auto simp: rbind_eq_Inr_iff Let_def)
    show ?thesis
    proof (cases "u_complete_tick u = None")
      case True
      then obtain s1 where s1: "xcomplete_uop e tick u ?s = Inr s1"
          and r: "xcomplete_from e now rest s1 True = Inr (s', changed')"
        using 2(3) False u by (auto simp: rbind_eq_Inr_iff fetch_def Let_def)
      note f = xcomplete_uop_from [OF s1]
      then have "q_heap s1 = rest" by (auto simp: completed_from_def core_def)
      with 2(2) [OF False refl _ _ _ r] completed_pending_work [OF f] p s1 u True
      show ?thesis by (auto simp: fetch_def)
    next
      case already: False
      then have "xcomplete_from e now rest ?s changed = Inr (s', changed')"
        using 2(3) False u by (auto simp: rbind_eq_Inr_iff fetch_def Let_def)
      with 2(1) [OF False refl _ already this] p u show ?thesis by (auto simp: fetch_def)
    qed
  qed
qed simp

lemma xcomplete_shrinks:
  "xcomplete e now s = Inr (s', changed) \<Longrightarrow>
     pending_work s' \<le> pending_work s \<and> (changed \<longrightarrow> pending_work s' < pending_work s)"
  by (auto simp: xcomplete_def dest: xcomplete_from_shrinks)

lemma issued_pending_work:
  assumes "issued_from e u now s s'"
  shows "pending_work s' < pending_work s"
proof -
  have "u_id u \<in> set (q_unissued s)" "q_unissued s' = remove1 (u_id u) (q_unissued s)"
      "length (q_heap s') = Suc (length (q_heap s))"
    using assms by (auto simp: issued_from_def core_def)
  then show ?thesis 
    by (cases "length (q_unissued s)") (auto simp: pending_work_def length_remove1)
qed

lemma note_stall_pending_work [simp]: "pending_work (xnote_stall r u s) = pending_work s"
  by (simp add: pending_work_def xnote_stall_def qput_uop_def)

lemma xissue_loop_shrinks:
  "xissue_loop e now ids s issued = Inr (s', issued') \<Longrightarrow>
     pending_work s' \<le> pending_work s \<and> (issued' \<longrightarrow> issued \<or> pending_work s' < pending_work s)"
proof (induction ids arbitrary: s issued)
  case (Cons i ids)
  obtain u s1 reason earliest where u: "map_of (q_uops s) i = Some u"
      and b: "xissue_blocker e u now s = Inr (s1, reason, earliest)"
    using Cons.prems by (auto simp: rbind_eq_Inr_iff)
  have p: "pending_work s1 = pending_work s"
    using wp_Inr_eqD [OF xissue_blocker_core [OF refl] b] by (intro core_pending_work) simp
  show ?case
  proof (cases reason)
    case (Some r)
    then have "(if n_in_order e then Inr (xnote_stall r u s1, issued) else xissue_loop e now ids (xnote_stall r u s1) issued) = Inr (s', issued')"
      using Cons.prems u b by (simp add: fetch_def)
    then show ?thesis using Cons.IH [of "xnote_stall r u s1" issued] p by (auto split: if_splits)
  next
    case None
    then obtain s2 where s2: "xissue_uop e u now s1 = Inr s2" "xissue_loop e now ids s2 True = Inr (s', issued')"
      using Cons.prems u b by (auto simp: fetch_def rbind_eq_Inr_iff)
    show ?thesis
      using issued_pending_work [OF select_and_book [OF s2(1)]] Cons.IH [OF s2(2)] p by auto
  qed
qed simp

function xissue_fixed_point :: "xsai_env \<Rightarrow> int \<Rightarrow> xsai_state \<Rightarrow> xsai_state qresult" where
  "xissue_fixed_point e now s =
     rbind (xcomplete e now s) (\<lambda>(s1, changed).
     rbind (xissue_once e now s1) (\<lambda>(s2, issued).
     if \<not> changed \<and> \<not> issued then Inr s2 else xissue_fixed_point e now s2))"
  by pat_completeness auto
termination
proof (relation "measure (\<lambda>(e, now, s). pending_work s)", goal_cases)
  case (2 e now s p s1 changed q s2 issued)
  have "xcomplete e now s = Inr (s1, changed)" using 2 by simp
  note c = xcomplete_shrinks [OF this]
  obtain candidates where "xissue_loop e now candidates s1 False = Inr (s2, issued)"
    using 2 by (auto simp: xissue_once_def rbind_eq_Inr_iff)
  note i = xissue_loop_shrinks [OF this]
  from c i 2 show ?case by auto
qed simp

declare xissue_fixed_point.simps [simp del]

section \<open>The next tick\<close>

definition xuop_event_ticks :: "xsai_state \<Rightarrow> execution_uop \<Rightarrow> int \<Rightarrow> int list qresult" where
  "xuop_event_ticks s u now =
     rbind (rmap (\<lambda>r. rbind (qget (q_resource_free s) r) qmin) (u_resource_choices u)) (\<lambda>resources.
     let interval = (case map_of (q_last_class s) (u_scheduling_class u) of None \<Rightarrow> []
           | Some t \<Rightarrow> [t + u_issue_interval_ticks u]) in
     rbind (rmap (xissue_domain_ready_tick s u) (u_issue_domains u)) (\<lambda>domains.
     Inr (later now resources @ later now interval @ later now domains)))"

text \<open>Asking what blocks a candidate may retire memory state and counts an epoch blocker once more.\<close>

fun xblocker_ticks :: "xsai_env \<Rightarrow> int \<Rightarrow> string list \<Rightarrow> xsai_state \<Rightarrow> (xsai_state \<times> int list) qresult" where
  "xblocker_ticks e now [] s = Inr (s, [])"
| "xblocker_ticks e now (i # is) s =
     rbind (qget (q_uops s) i) (\<lambda>u.
     rbind (xissue_blocker e u now s) (\<lambda>(s, reason, earliest).
     rbind (xuop_event_ticks s u now) (\<lambda>ticks.
     rbind (xblocker_ticks e now is s) (\<lambda>(s, rest).
     Inr (s, (case earliest of None \<Rightarrow> [] | Some t \<Rightarrow> later now [t]) @ ticks @ rest)))))"

definition heap_ticks :: "xsai_env \<Rightarrow> int \<Rightarrow> xsai_state \<Rightarrow> int list qresult" where
  "heap_ticks e now s =
     (let completion = (case q_heap s of [] \<Rightarrow> [] | (t, _, _) # _ \<Rightarrow> [t]);
          service = (case q_service_heap s of [] \<Rightarrow> [] | (t, _, _) # _ \<Rightarrow> [t]) in
      rbind (next_architectural_cycle_tick e now) (\<lambda>next_cycle.
      let rename = (case q_rename_pending s of [] \<Rightarrow> [] | (t, _, _) # _ \<Rightarrow> [if t > now then t else next_cycle]);
          cycle = (if q_next_dispatch s < length (n_macro_order e) \<or> q_rob s \<noteq> [] then [next_cycle] else []) in
      Inr (completion @ service @ rename @ cycle)))"

definition xnext_event_tick :: "xsai_env \<Rightarrow> int \<Rightarrow> xsai_state \<Rightarrow> (xsai_state \<times> int) qresult" where
  "xnext_event_tick e now s =
     rbind (heap_ticks e now s) (\<lambda>fixed.
     rbind (xissue_candidates e s) (\<lambda>candidates.
     rbind (xblocker_ticks e now candidates s) (\<lambda>(s, ticks).
     case fixed @ ticks of
       [] \<Rightarrow> Inl (XDeadlock (take 8 (filter (\<lambda>i. i \<in> set (q_unissued s)) (n_uop_order e))))
     | t # ts \<Rightarrow> Inr (s, min_of t ts))))"

section \<open>The run\<close>

definition vector_compute_occupancy :: "xsai_env \<Rightarrow> xsai_state \<Rightarrow> int qresult" where
  "vector_compute_occupancy e s =
     rbind (rmap (\<lambda>(p, n). rbind (qget (np_partitions (n_profile e)) p) (\<lambda>q.
       Inr (if pa_kind q = ''vector_compute'' then n else 0))) (q_partition_occupancy s)) (\<lambda>ns. Inr (sum_list ns))"

definition xrecord_peaks :: "xsai_env \<Rightarrow> xsai_state \<Rightarrow> xsai_state qresult" where
  "xrecord_peaks e s =
     rbind (vector_compute_occupancy e s) (\<lambda>vector.
     let peaks = peak ''memory_compute_pending_groups'' (int (length (q_pending_groups s)))
           (peak ''store_queue'' (q_store_occupancy s) (peak ''load_queue'' (q_load_occupancy s)
             (peak ''vector_scheduler'' (q_vector_occupancy s + vector) (peak ''rob'' (q_rob_occupancy s) (q_peaks s)))));
         peaks = fold (\<lambda>(kind, inflight). peak (''vector_memory_inflight_'' @ kind) (int (length inflight))) (q_inflight s) peaks in
     Inr (s\<lparr>q_peaks := peak ''mixed_vector_epochs'' (int (length (q_mixed_active s))) peaks\<rparr>))"

definition xfinished :: "xsai_env \<Rightarrow> xsai_state \<Rightarrow> bool" where
  "xfinished e s \<longleftrightarrow> length (n_macro_order e) \<le> q_next_dispatch s \<and> q_rob s = []"

definition xrun_phases :: "xsai_env \<Rightarrow> int \<Rightarrow> xsai_state \<Rightarrow> xsai_state qresult" where
  "xrun_phases e now s =
     rbind (xcomplete e now s) (\<lambda>(s, _).
     rbind (release_vector_memory_flows now s) (\<lambda>s.
     rbind (release_rename e now s) (\<lambda>s.
     if n_tpc e = 0 then Inl XZeroDivision
     else
       let boundary = (now mod n_tpc e = 0) in
       rbind (if boundary then xdispatch e now s else Inr s) (\<lambda>s.
       rbind (xissue_fixed_point e now s) (\<lambda>s.
       rbind (xcomplete e now s) (\<lambda>(s, _).
       rbind (if boundary then xretire e now s else Inr s) (\<lambda>s.
       xrecord_peaks e s)))))))"

fun xrun_loop :: "xsai_env \<Rightarrow> nat \<Rightarrow> int \<Rightarrow> xsai_state \<Rightarrow> (xsai_state \<times> int) qresult" where
  "xrun_loop e fuel now s =
     (if xfinished e s then Inr (s, now)
      else (case fuel of 0 \<Rightarrow> Inl XNotConverged
        | Suc fuel' \<Rightarrow>
            rbind (xrun_phases e now s) (\<lambda>s1.
            if xfinished e s1 then Inr (s1, now)
            else rbind (xnext_event_tick e now s1) (\<lambda>(s2, next_tick).
              if next_tick \<le> now then Inl (XNoForwardProgress now)
              else xrun_loop e fuel' next_tick s2))))"

declare xrun_loop.simps [simp del]

text \<open>The guard raises in iteration \<open>limit + 1\<close>.\<close>

definition xiteration_limit :: "xsai_env \<Rightarrow> nat" where
  "xiteration_limit e = max 10000 (length (n_uop_order e) * 100)"

section \<open>The summary\<close>

record domain_stats =
  ds_capacity :: int
  ds_tokens :: int
  ds_blocked :: int

record rename_summary =
  rs_enabled :: bool
  rs_initial_free :: "(string \<times> int) list"
  rs_remaining_free :: "(string \<times> int) list"
  rs_peak_allocated :: "(string \<times> int) list"
  rs_allocation_tokens :: int
  rs_release_tokens :: int
  rs_blockers :: "(string \<times> int) list"

record xsai_summary =
  xs_dynamic_macro_ops :: int
  xs_execution_uops :: int
  xs_dispatch_units :: int
  xs_rob_entries_allocated :: int
  xs_retired_macro_ops :: int
  xs_peaks :: "(string \<times> int) list"
  xs_peak_partitions :: "(string \<times> int) list"
  xs_critical_path_ticks :: int
  xs_dispatch_stalls :: "(string \<times> int) list"
  xs_domain_capacities :: "(string \<times> int) list"
  xs_domain_usage :: "(string \<times> int) list"
  xs_domain_blockers :: "(string \<times> int) list"
  xs_domain_stats :: "(string \<times> domain_stats) list"
  xs_rename :: rename_summary
  xs_issue_blockers :: "(string \<times> int) list"
  xs_resource_issues :: "(string \<times> int) list"
  xs_unit_issues :: "(string \<times> int) list"
  xs_read_domain_reads :: "(string \<times> int) list"
  xs_completion_domain_writes :: "(string \<times> int) list"
  xs_cache_line_accesses :: "(string, int) dict"
  xs_overlap_enabled :: bool
  xs_overlap_max_pending :: int
  xs_overlap_kinds :: "string list"
  xs_eligible_groups :: nat
  xs_vector_memory :: vector_memory_policy
  xs_flow_counts :: "(int \<times> int) list"
  xs_epochs :: epoch_policy
  xs_close_edges :: nat
  xs_load_visibility_uops :: nat
  xs_mixed_terminals :: nat
  xs_epoch_blockers :: "(string \<times> int) list"
  xs_backend :: "(nat \<times> (string \<times> int) list) option"

definition xsummary_peaks :: "string list" where
  "xsummary_peaks = [''rob'', ''vector_scheduler'', ''load_queue'', ''store_queue'', ''memory_compute_pending_groups'',
     ''vector_memory_inflight_load'', ''vector_memory_inflight_store'', ''mixed_vector_epochs'']"

text \<open>\<open>sorted(Counter(f(x) for x in xs if f(x)).items())\<close>.\<close>

definition usage_counts :: "('a \<Rightarrow> string option) \<Rightarrow> 'a list \<Rightarrow> (string \<times> int) list" where
  "usage_counts f xs = sort (fold (\<lambda>r d. counter_add d r 1) (List.map_filter (\<lambda>x. truthy (f x)) xs) [])"

definition rename_summary_of :: "xsai_env \<Rightarrow> xsai_state \<Rightarrow> rename_summary" where
  "rename_summary_of e s =
     (let initial = rn_free_lists (np_rename (n_profile e)) in
      \<lparr>rs_enabled = rn_enabled (np_rename (n_profile e)), rs_initial_free = sort initial,
       rs_remaining_free = sort (q_rename_free s),
       rs_peak_allocated = map (\<lambda>(name, n). (name, n - counter_get (q_rename_free s) name)) (sort initial),
       rs_allocation_tokens = q_rename_allocation_tokens s, rs_release_tokens = q_rename_release_tokens s,
       rs_blockers = sort (q_rename_blockers s)\<rparr>)"

definition xsummarize :: "xsai_env \<Rightarrow> xsai_state \<Rightarrow> xsai_summary qresult" where
  "xsummarize e s =
     rbind (qlookup s (n_uop_order e)) (\<lambda>us.
     rbind (rmap (qget (q_macros s)) (n_macro_order e)) (\<lambda>ms.
     rbind (qlift XGroupFailure (critical_path_ticks us)) (\<lambda>path.
     let p = n_profile e; domains = sort (np_dispatch_domains p) in
     Inr \<lparr>xs_dynamic_macro_ops = int (length ms), xs_execution_uops = int (length us),
       xs_dispatch_units = sum_list (map dispatch_width_units ms),
       xs_rob_entries_allocated = sum_list (map rob_entry_count ms),
       xs_retired_macro_ops = sum_list (map m_retire_macro_ops ms),
       xs_peaks = map (\<lambda>k. (k, counter_get (q_peaks s) k)) xsummary_peaks,
       xs_peak_partitions = map (\<lambda>(i, _). (i, counter_get (q_peaks s) (''scheduler_partition:'' @ i))) (np_partitions p),
       xs_critical_path_ticks = path, xs_dispatch_stalls = sort (q_stalls s),
       xs_domain_capacities = domains, xs_domain_usage = sort (q_domain_tokens s),
       xs_domain_blockers = sort (q_domain_blockers s),
       xs_domain_stats = map (\<lambda>(d, n). (d, \<lparr>ds_capacity = n, ds_tokens = counter_get (q_domain_tokens s) d,
         ds_blocked = counter_get (q_domain_blockers s) d\<rparr>)) domains,
       xs_rename = rename_summary_of e s,
       xs_issue_blockers = sort (fold (\<lambda>u d. add_counters d (u_stall_reasons u)) us []),
       xs_resource_issues = usage_counts u_resource us, xs_unit_issues = usage_counts u_execution_unit us,
       xs_read_domain_reads = usage_counts u_vector_read_domain us,
       xs_completion_domain_writes = usage_counts u_completion_domain us,
       xs_cache_line_accesses = mh_hits (q_memory s),
       xs_overlap_enabled = n_overlap_enabled e, xs_overlap_max_pending = np_overlap_max_pending p,
       xs_overlap_kinds = sort (remdups (np_overlap_kinds p)), xs_eligible_groups = length (n_groups e),
       xs_vector_memory = np_vector_memory p, xs_flow_counts = sort (q_flow_counts s),
       xs_epochs = np_epochs p, xs_close_edges = length (pl_close (n_plan e)),
       xs_load_visibility_uops = length (pl_load_visibility (n_plan e)),
       xs_mixed_terminals = length (pl_mixed_terminal (n_plan e)),
       xs_epoch_blockers = sort (q_epoch_blockers s),
       xs_backend = (if n_backend_id e = ''xsai-rvv''
         then Some (scheduler_slot_count (n_backend_trace e),
           usage_counts (\<lambda>b. Some (xb_role b)) (xt_backend_uops (n_backend_trace e)))
         else None)\<rparr>)))"

record xsai_result =
  xr_backend :: string
  xr_in_order :: bool
  xr_ticks_per_cycle :: int
  xr_total_ticks :: int
  xr_events :: "xsai_event list"
  xr_summary :: xsai_summary
  xr_state :: xsai_state

definition xrun :: "xsai_env \<Rightarrow> xsai_state \<Rightarrow> xsai_result qresult" where
  "xrun e s =
     rbind (xrun_loop e (xiteration_limit e) 0 s) (\<lambda>(s', total).
     rbind (xsummarize e s') (\<lambda>summary.
     if n_tpc e = 0 then Inl XZeroDivision
     else Inr \<lparr>xr_backend = n_backend_id e, xr_in_order = n_in_order e, xr_ticks_per_cycle = n_tpc e,
       xr_total_ticks = total, xr_events = q_events s', xr_summary = summary, xr_state = s'\<rparr>))"

definition xsimulate :: "bound_trace \<Rightarrow> int option \<Rightarrow> xsai_profile \<Rightarrow> string \<Rightarrow> cache_mode \<Rightarrow> bool option \<Rightarrow> xsai_result qresult" where
  "xsimulate t source_version p model mode limit =
     rbind (make_xengine t source_version True ''xsai-rvv'' p model mode limit) (\<lambda>(e, s). xrun e s)"

definition generic_token_run :: "bound_trace \<Rightarrow> int option \<Rightarrow> xsai_profile \<Rightarrow> string \<Rightarrow> cache_mode \<Rightarrow> bool option
    \<Rightarrow> xsai_result qresult" where
  "generic_token_run t source_version p model mode limit =
     rbind (make_xengine t source_version False ''generic-token'' p model mode limit) (\<lambda>(e, s). xrun e s)"

end
