(* ===== verification/XsaiAssign.thy ===== *)
theory XsaiAssign
  imports XsaiDispatch
begin

text \<open>
  The backtracking assignment of entries to scheduler partitions finds an assignment exactly when
  one exists, and what it finds fits the partitions.
\<close>

definition assignment_fits :: "(string, partition) dict \<Rightarrow> bool \<Rightarrow> execution_uop list \<Rightarrow> (string, int) dict \<Rightarrow> (string, int) dict
    \<Rightarrow> string list \<Rightarrow> bool" where
  "assignment_fits parts enforce us occ enq ps \<longleftrightarrow>
     list_all2 (\<lambda>u p. p \<in> set (u_scheduler_partition_choices u)) us ps \<and>
     (\<forall>p\<in>set ps. \<exists>q. map_of parts p = Some q \<and> counter_get occ p + int (count_list ps p) \<le> pa_entries q \<and>
        (enforce \<longrightarrow> counter_get enq p + int (count_list ps p) \<le> pa_enqueue_width q))"

lemma counter_get_add_if: "counter_get (counter_add d k n) j = counter_get d j + (if j = k then n else 0)"
  by (simp add: counter_get_def counter_add_def)

lemma counter_add_known: "map_of d k = Some n \<Longrightarrow> counter_add d k x = AList.update k (n + x) d"
  by (simp add: counter_add_def counter_get_def)

lemma assignment_fits_Nil [simp]: "assignment_fits parts enforce [] occ enq ps \<longleftrightarrow> ps = []"
  by (auto simp: assignment_fits_def)

lemma assignment_fits_Cons:
  "assignment_fits parts enforce (u # us) occ enq ps \<longleftrightarrow>
     (\<exists>p ps'. ps = p # ps' \<and> p \<in> set (u_scheduler_partition_choices u) \<and> partition_room parts enforce occ enq p \<and>
        assignment_fits parts enforce us (counter_add occ p 1) (counter_add enq p 1) ps')"
  (is "?L \<longleftrightarrow> ?R")
proof
  assume L: ?L
  then obtain p ps' where ps: "ps = p # ps'" by (cases ps) (auto simp: assignment_fits_def)
  have room: "\<exists>q. map_of parts x = Some q \<and> counter_get occ x + int (count_list ps x) \<le> pa_entries q \<and>
      (enforce \<longrightarrow> counter_get enq x + int (count_list ps x) \<le> pa_enqueue_width q)" if "x \<in> set ps" for x
    using L that by (simp add: assignment_fits_def)
  have "partition_room parts enforce occ enq p"
    using room [of p] by (auto simp: ps partition_room_def)
  moreover have "assignment_fits parts enforce us (counter_add occ p 1) (counter_add enq p 1) ps'"
    using L room by (fastforce simp: assignment_fits_def ps counter_get_add_if)
  ultimately show ?R using L by (auto simp: assignment_fits_def ps)
next
  assume ?R
  then obtain p ps' where ps: "ps = p # ps'" and p: "p \<in> set (u_scheduler_partition_choices u)"
      and r: "partition_room parts enforce occ enq p"
      and f: "assignment_fits parts enforce us (counter_add occ p 1) (counter_add enq p 1) ps'" by blast
  have "\<exists>q. map_of parts x = Some q \<and> counter_get occ x + int (count_list ps x) \<le> pa_entries q \<and>
      (enforce \<longrightarrow> counter_get enq x + int (count_list ps x) \<le> pa_enqueue_width q)" if "x \<in> set ps" for x
  proof (cases "x \<in> set ps'")
    case True
    then show ?thesis using f by (fastforce simp: assignment_fits_def ps counter_get_add_if)
  next
    case False
    then show ?thesis using that r by (auto simp: ps partition_room_def count_list_0_iff split: option.splits)
  qed
  then show ?L using f p by (simp add: assignment_fits_def ps)
qed

lemma set_eligible_partitions:
  "set (eligible_partitions parts enforce occ enq u) =
     {p \<in> set (u_scheduler_partition_choices u). partition_room parts enforce occ enq p}"
  by (auto simp: eligible_partitions_def)

lemma assign_try_correct:
  "(case assign parts enforce us occ enq of
      Some r \<Rightarrow> assignment_fits parts enforce us occ enq (map snd r) \<and> map fst r = map u_id us
    | None \<Rightarrow> \<forall>ps. \<not> assignment_fits parts enforce us occ enq ps)"
  "(case try_choices parts enforce u us occ enq ps of
      Some r \<Rightarrow> (\<exists>p r'. r = (u_id u, p) # r' \<and> p \<in> set ps \<and> map fst r' = map u_id us \<and>
        assignment_fits parts enforce us (counter_add occ p 1) (counter_add enq p 1) (map snd r'))
    | None \<Rightarrow> \<forall>p\<in>set ps. \<forall>qs. \<not> assignment_fits parts enforce us (counter_add occ p 1) (counter_add enq p 1) qs)"
proof (induction parts enforce us occ enq and parts enforce u us occ enq ps rule: assign_try_choices.induct)
  case (2 parts enforce u us occ enq)
  let ?e = "eligible_partitions parts enforce occ enq u"
  show ?case
  proof (cases "try_choices parts enforce u us occ enq ?e")
    case None
    then show ?thesis using 2 by (auto simp: assignment_fits_Cons set_eligible_partitions)
  next
    case (Some r)
    then obtain p r' where "r = (u_id u, p) # r'" "p \<in> set ?e" "map fst r' = map u_id us"
        "assignment_fits parts enforce us (counter_add occ p 1) (counter_add enq p 1) (map snd r')" using 2 by auto
    then show ?thesis using Some by (auto simp: assignment_fits_Cons set_eligible_partitions)
  qed
next
  case (4 parts enforce u us occ enq p ps)
  show ?case
  proof (cases "assign parts enforce us (counter_add occ p 1) (counter_add enq p 1)")
    case None
    then show ?thesis using 4(1) 4(2) [OF None] by (auto split: option.splits)
  next
    case (Some r)
    then show ?thesis using 4(1) by auto
  qed
qed simp_all

lemma assign_sound: "assign parts enforce us occ enq = Some r \<Longrightarrow> assignment_fits parts enforce us occ enq (map snd r) \<and> map fst r = map u_id us"
  using assign_try_correct(1) [of parts enforce us occ enq] by simp

lemma assign_complete: "assignment_fits parts enforce us occ enq ps \<Longrightarrow> assign parts enforce us occ enq \<noteq> None"
  using assign_try_correct(1) [of parts enforce us occ enq]
  by (cases "assign parts enforce us occ enq") auto

end
