(* ===== verification/XsaiMachine.thy ===== *)
theory XsaiMachine
  imports XsaiLoop XsaiAssign
begin

text \<open>
  The abstract machine of the XSAI engine: every operation of the event loop is a sequence of the
  steps of \<open>xstep\<close>, which say what may change in the core of the state and under which guard.
\<close>

section \<open>Steps\<close>

abbreviation xuop_at :: "xsai_state \<Rightarrow> string \<Rightarrow> execution_uop option" where
  "xuop_at s \<equiv> map_of (q_uops s)"

abbreviation xmacro_at :: "xsai_state \<Rightarrow> string \<Rightarrow> macro_op option" where
  "xmacro_at s \<equiv> map_of (q_macros s)"

text \<open>Registers taken from the free lists by a macro-op.\<close>

definition take_registers :: "(string \<times> int) list \<Rightarrow> (string, int) dict \<Rightarrow> (string, int) dict" where
  "take_registers allocations free = fold (\<lambda>(name, n) f. counter_add f name (- n)) allocations free"

definition admissible :: "xsai_env \<Rightarrow> xsai_state \<Rightarrow> macro_op \<Rightarrow> bool" where
  "admissible e s m \<longleftrightarrow>
     (let p = n_profile e; rn = np_rename p in
      q_rob_occupancy s + rob_entry_count m \<le> np_rob_entries p \<and>
      (m_uses_load_queue m \<longrightarrow> q_load_occupancy s < np_load_queue_entries p) \<and>
      (m_uses_store_queue m \<longrightarrow> q_store_occupancy s < np_store_queue_entries p) \<and>
      (rn_enabled rn \<longrightarrow> (\<forall>(name, n)\<in>set (m_rename_allocations m).
         name \<in> set (keys (q_rename_free s)) \<and> rn_guard_entries rn \<le> counter_get (q_rename_free s) name - n)))"

definition admitted_from :: "xsai_env \<Rightarrow> int \<Rightarrow> macro_op \<Rightarrow> xsai_state \<Rightarrow> xsai_state \<Rightarrow> bool" where
  "admitted_from e now m s s' \<longleftrightarrow>
     core s' = core (s\<lparr>q_macros := AList.update (m_id m) (m\<lparr>m_dispatch_tick := Some now\<rparr>) (q_macros s),
       q_rob := q_rob s @ [m_id m], q_rob_occupancy := q_rob_occupancy s + rob_entry_count m,
       q_load_occupancy := q_load_occupancy s + of_bool (m_uses_load_queue m),
       q_store_occupancy := q_store_occupancy s + of_bool (m_uses_store_queue m),
       q_rename_free := (if rn_enabled (np_rename (n_profile e)) then take_registers (m_rename_allocations m) (q_rename_free s)
         else q_rename_free s)\<rparr>)"

definition partition_open :: "xsai_env \<Rightarrow> xsai_state \<Rightarrow> string \<Rightarrow> bool" where
  "partition_open e s p \<longleftrightarrow> (\<exists>q n. map_of (np_partitions (n_profile e)) p = Some q \<and>
     map_of (q_partition_occupancy s) p = Some n \<and> n < pa_entries q)"

definition enqueued_from :: "int \<Rightarrow> execution_uop \<Rightarrow> string option \<Rightarrow> xsai_state \<Rightarrow> xsai_state \<Rightarrow> bool" where
  "enqueued_from now u choice s s' \<longleftrightarrow>
     core s' = core (s\<lparr>q_uops := AList.update (u_id u) (u\<lparr>u_dispatch_tick := Some now, u_scheduler_partition := choice\<rparr>) (q_uops s),
       q_unissued := insert_id (u_id u) (q_unissued s),
       q_partition_occupancy := (case choice of None \<Rightarrow> q_partition_occupancy s
         | Some p \<Rightarrow> counter_add (q_partition_occupancy s) p 1)\<rparr>)"

text \<open>Dispatch is in program order: the macro-op at \<open>next_dispatch\<close>, and only entries of admitted macro-ops.\<close>

definition next_macro :: "xsai_env \<Rightarrow> xsai_state \<Rightarrow> macro_op \<Rightarrow> bool" where
  "next_macro e s m \<longleftrightarrow> q_next_dispatch s < length (n_macro_order e) \<and>
     n_macro_order e ! q_next_dispatch s = m_id m \<and> xmacro_at s (m_id m) = Some m"

definition xadmitted :: "xsai_state \<Rightarrow> string \<Rightarrow> bool" where
  "xadmitted s i \<longleftrightarrow> (\<exists>m. xmacro_at s i = Some m \<and> m_dispatch_tick m \<noteq> None)"

inductive xstep :: "xsai_env \<Rightarrow> int \<times> xsai_state \<Rightarrow> int \<times> xsai_state \<Rightarrow> bool" for e where
  XFrame: "core s' = core s \<Longrightarrow> xstep e (now, s) (now, s')"
| XStall: "xuop_at s (u_id u) = Some u \<Longrightarrow>
     core s' = core (qput_uop (u\<lparr>u_stall_reason := a, u_stall_reasons := b\<rparr>) s) \<Longrightarrow> xstep e (now, s) (now, s')"
| XNote: "xmacro_at s (m_id m) = Some m \<Longrightarrow>
     core s' = core (qput_macro (m\<lparr>m_dispatch_blocker := a, m_dispatch_blocker_count := b, m_dispatch_blocker_domain := c\<rparr>) s)
       \<Longrightarrow> xstep e (now, s) (now, s')"
| XSkip: "q_heap s = (t, q, i) # rest \<Longrightarrow> xuop_at s i = Some u \<Longrightarrow> u_complete_tick u \<noteq> None \<Longrightarrow>
     core s' = core (s\<lparr>q_heap := rest\<rparr>) \<Longrightarrow> xstep e (now, s) (now, s')"
| XComplete: "q_heap s = (t, q, u_id u) # rest \<Longrightarrow> t \<le> now \<Longrightarrow> xuop_at s (u_id u) = Some u \<Longrightarrow> u_complete_tick u = None \<Longrightarrow>
     completed_from t u (s\<lparr>q_heap := rest\<rparr>) s' \<Longrightarrow> xstep e (now, s) (now, s')"
| XIssue: "xuop_at s (u_id u) = Some u \<Longrightarrow> xdependency_check s u now = Inr None \<Longrightarrow> issued_from e u now s s' \<Longrightarrow>
     xstep e (now, s) (now, s')"
| XAdmit: "next_macro e s m \<Longrightarrow> m_dispatch_tick m = None \<Longrightarrow> admissible e s m \<Longrightarrow>
     admitted_from e now m s s' \<Longrightarrow> xstep e (now, s) (now, s')"
| XEnqueue: "xuop_at s (u_id u) = Some u \<Longrightarrow> u_dispatch_tick u = None \<Longrightarrow> xadmitted s (u_parent_id u) \<Longrightarrow>
     (case choice of None \<Rightarrow> True | Some p \<Rightarrow> partition_open e s p) \<Longrightarrow>
     enqueued_from now u choice s s' \<Longrightarrow> xstep e (now, s) (now, s')"
| XNext: "next_macro e s m \<Longrightarrow> m_dispatch_tick m \<noteq> None \<Longrightarrow> core s' = core (s\<lparr>q_next_dispatch := Suc (q_next_dispatch s)\<rparr>) \<Longrightarrow> xstep e (now, s) (now, s')"
| XRetire: "q_rob s = m_id m # rest \<Longrightarrow> xmacro_at s (m_id m) = Some m \<Longrightarrow> m_complete_tick m = Some c \<Longrightarrow> c \<le> now \<Longrightarrow>
     core s' = core (xleave_rob e now m rest s) \<Longrightarrow> xstep e (now, s) (now, s')"
| XRelease: "q_rename_pending s = (t, q, allocations) # rest \<Longrightarrow> t \<le> now \<Longrightarrow> 0 < remaining \<Longrightarrow>
     rfold return_entry allocations (s\<lparr>q_rename_pending := rest\<rparr>, remaining, []) = Inr (s1, remaining', leftover) \<Longrightarrow>
     core s' = core (s1\<lparr>q_rename_pending := (if leftover \<noteq> [] then push_release (t, q, leftover) rest else rest)\<rparr>) \<Longrightarrow>
     xstep e (now, s) (now, s')"
| XAdvance: "now < now' \<Longrightarrow> xstep e (now, s) (now', s)"

inductive_cases xstepE: "xstep e (now, s) (now', s')"

abbreviation xsteps :: "xsai_env \<Rightarrow> int \<times> xsai_state \<Rightarrow> int \<times> xsai_state \<Rightarrow> bool" where
  "xsteps e \<equiv> (xstep e)\<^sup>*\<^sup>*"

abbreviation xruns :: "xsai_env \<Rightarrow> int \<Rightarrow> xsai_state \<Rightarrow> xsai_state qresult \<Rightarrow> bool" where
  "xruns e now s m \<equiv> wp (\<lambda>_. True) (\<lambda>s'. xsteps e (now, s) (now, s')) m"

section \<open>Static fields and tables\<close>

text \<open>The fields of a record no step changes: those a run does not fill in.\<close>

definition uop_static :: "execution_uop \<Rightarrow> execution_uop" where
  "uop_static u = (reset_uop u)\<lparr>u_latency_ticks := 0\<rparr>"

definition macro_static :: "macro_op \<Rightarrow> macro_op" where
  "macro_static m = m\<lparr>m_dispatch_tick := None, m_complete_tick := None, m_retire_tick := None,
     m_dispatch_blocker := None, m_dispatch_blocker_domain := None, m_dispatch_blocker_count := 0\<rparr>"

lemma uop_static_fields:
  "uop_static u = uop_static v \<Longrightarrow> u_id u = u_id v \<and> u_sequence u = u_sequence v \<and> u_parent_id u = u_parent_id v \<and>
     u_dependencies u = u_dependencies v \<and> u_scheduler_partition_choices u = u_scheduler_partition_choices v"
  by (auto simp: uop_static_def reset_uop_def dest: arg_cong [where f = u_id] arg_cong [where f = u_sequence]
      arg_cong [where f = u_parent_id] arg_cong [where f = u_dependencies] arg_cong [where f = u_scheduler_partition_choices])

lemma macro_static_field:
  assumes "macro_static m = macro_static n" and "\<And>x. f (macro_static x) = f x"
  shows "f m = f n"
  using assms(2) [of m] assms(2) [of n] assms(1) by simp

lemma macro_static_fields:
  assumes "macro_static m = macro_static n"
  shows "m_id m = m_id n" "m_uop_ids m = m_uop_ids n" "m_rename_allocations m = m_rename_allocations n"
    "rob_entry_count m = rob_entry_count n" "m_uses_load_queue m = m_uses_load_queue n"
    "m_uses_store_queue m = m_uses_store_queue n" "m_sequence m = m_sequence n"
  by (rule macro_static_field [OF assms]; simp add: macro_static_def rob_entry_count_def split: option.splits)+

lemma update_static:
  "map_of d k = Some v \<Longrightarrow> f v' = f v \<Longrightarrow> map_option f (map_of (AList.update k v' d) i) = map_option f (map_of d i)"
  by (simp add: update_conv')

definition same_static :: "xsai_state \<Rightarrow> xsai_state \<Rightarrow> bool" where
  "same_static s s' \<longleftrightarrow> (\<forall>i. map_option uop_static (xuop_at s' i) = map_option uop_static (xuop_at s i)) \<and>
     (\<forall>i. map_option macro_static (xmacro_at s' i) = map_option macro_static (xmacro_at s i))"

lemma same_xstatic_refl [simp]: "same_static s s"
  by (simp add: same_static_def)

lemma same_xstatic_trans [trans]: "same_static s s' \<Longrightarrow> same_static s' s'' \<Longrightarrow> same_static s s''"
  by (simp add: same_static_def)

lemma same_static_uop:
  assumes "same_static s s'"
  shows "xuop_at s i = Some u \<Longrightarrow> \<exists>u'. xuop_at s' i = Some u' \<and> uop_static u' = uop_static u"
    and "xuop_at s' i = Some v' \<Longrightarrow> \<exists>v. xuop_at s i = Some v \<and> uop_static v' = uop_static v"
proof -
  have "map_option uop_static (xuop_at s' i) = map_option uop_static (xuop_at s i)"
    using assms by (simp add: same_static_def)
  then show "xuop_at s i = Some u \<Longrightarrow> \<exists>u'. xuop_at s' i = Some u' \<and> uop_static u' = uop_static u"
    and "xuop_at s' i = Some v' \<Longrightarrow> \<exists>v. xuop_at s i = Some v \<and> uop_static v' = uop_static v"
    by (cases "xuop_at s' i"; cases "xuop_at s i"; simp)+
qed

lemma same_static_macro:
  assumes "same_static s s'"
  shows "xmacro_at s i = Some m \<Longrightarrow> \<exists>m'. xmacro_at s' i = Some m' \<and> macro_static m' = macro_static m"
    and "xmacro_at s' i = Some n' \<Longrightarrow> \<exists>n. xmacro_at s i = Some n \<and> macro_static n' = macro_static n"
proof -
  have "map_option macro_static (xmacro_at s' i) = map_option macro_static (xmacro_at s i)"
    using assms by (simp add: same_static_def)
  then show "xmacro_at s i = Some m \<Longrightarrow> \<exists>m'. xmacro_at s' i = Some m' \<and> macro_static m' = macro_static m"
    and "xmacro_at s' i = Some n' \<Longrightarrow> \<exists>n. xmacro_at s i = Some n \<and> macro_static n' = macro_static n"
    by (cases "xmacro_at s' i"; cases "xmacro_at s i"; simp)+
qed

text \<open>
  Every record is filed under its id; the entries of a macro-op are distinct, there is one, and they
  name it as their parent.
\<close>

definition tables_ok :: "xsai_state \<Rightarrow> bool" where
  "tables_ok s \<longleftrightarrow> (\<forall>i u. xuop_at s i = Some u \<longrightarrow> u_id u = i) \<and>
     (\<forall>i m. xmacro_at s i = Some m \<longrightarrow> m_id m = i \<and> distinct (m_uop_ids m) \<and> m_uop_ids m \<noteq> [] \<and>
        (\<forall>j\<in>set (m_uop_ids m). \<exists>u. xuop_at s j = Some u \<and> u_parent_id u = i))"

lemma tables_ok_heap [simp]: "tables_ok (s\<lparr>q_heap := h\<rparr>) = tables_ok s"
  by (simp add: tables_ok_def)

lemma tables_okD:
  "tables_ok s \<Longrightarrow> xuop_at s i = Some u \<Longrightarrow> u_id u = i"
  "tables_ok s \<Longrightarrow> xmacro_at s i = Some m \<Longrightarrow> m_id m = i"
  "tables_ok s \<Longrightarrow> xmacro_at s i = Some m \<Longrightarrow> distinct (m_uop_ids m)"
  "tables_ok s \<Longrightarrow> xmacro_at s i = Some m \<Longrightarrow> m_uop_ids m \<noteq> []"
  "tables_ok s \<Longrightarrow> xmacro_at s i = Some m \<Longrightarrow> j \<in> set (m_uop_ids m) \<Longrightarrow> \<exists>u. xuop_at s j = Some u \<and> u_parent_id u = i"
  by (auto simp: tables_ok_def)

lemma tables_ok_static:
  assumes "same_static s s'" and "tables_ok s"
  shows "tables_ok s'"
proof -
  have "u_id u = i" if u: "xuop_at s' i = Some u" for i u
  proof -
    obtain v where "xuop_at s i = Some v" "uop_static u = uop_static v" using same_static_uop(2) [OF assms(1) u] by blast
    then show ?thesis using tables_okD(1) [OF assms(2), of i v] uop_static_fields [of u v] by simp
  qed
  moreover have "m_id m = i \<and> distinct (m_uop_ids m) \<and> m_uop_ids m \<noteq> [] \<and>
      (\<forall>j\<in>set (m_uop_ids m). \<exists>u. xuop_at s' j = Some u \<and> u_parent_id u = i)" if m: "xmacro_at s' i = Some m" for i m
  proof -
    obtain n where n: "xmacro_at s i = Some n" "macro_static m = macro_static n" using same_static_macro(2) [OF assms(1) m] by blast
    have "\<exists>u. xuop_at s' j = Some u \<and> u_parent_id u = i" if "j \<in> set (m_uop_ids n)" for j
    proof -
      obtain v where v: "xuop_at s j = Some v" "u_parent_id v = i" using tables_okD(5) [OF assms(2) n(1) \<open>j \<in> _\<close>] by blast
      obtain u where "xuop_at s' j = Some u" "uop_static u = uop_static v" using same_static_uop(1) [OF assms(1) v(1)] by blast
      then show ?thesis using v(2) uop_static_fields [of u v] by auto
    qed
    then show ?thesis using n tables_okD(2-4) [OF assms(2) n(1)] macro_static_fields(1,2) [OF n(2)] by simp
  qed
  ultimately show ?thesis by (simp add: tables_ok_def)
qed

lemma return_entry_core:
  "return_entry a (s, r, l) = Inr (s', r', l') \<Longrightarrow> \<exists>free. core s' = core (s\<lparr>q_rename_free := free\<rparr>)"
  by (cases a) (auto simp: return_entry_def rbind_eq_Inr_iff Let_def core_def)

lemma return_entries_core:
  "rfold return_entry allocations (s, r, l) = Inr (s', r', l') \<Longrightarrow> \<exists>free. core s' = core (s\<lparr>q_rename_free := free\<rparr>)"
proof (induction allocations arbitrary: s r l)
  case Nil
  then show ?case by (auto simp: core_def)
next
  case (Cons a as)
  obtain s1 r1 l1 where 1: "return_entry a (s, r, l) = Inr (s1, r1, l1)" and 2: "rfold return_entry as (s1, r1, l1) = Inr (s', r', l')"
    using Cons.prems by (auto simp: rbind_eq_Inr_iff)
  from return_entry_core [OF 1] Cons.IH [OF 2] show ?case by (auto simp: core_def)
qed

lemma uop_static_updates [simp]:
  "uop_static (u\<lparr>u_stall_reason := a\<rparr>) = uop_static u" "uop_static (u\<lparr>u_stall_reasons := b\<rparr>) = uop_static u"
  "uop_static (u\<lparr>u_complete_tick := c\<rparr>) = uop_static u" "uop_static (u\<lparr>u_dispatch_tick := c\<rparr>) = uop_static u"
  "uop_static (u\<lparr>u_scheduler_partition := a\<rparr>) = uop_static u" "uop_static (as_issued u now ready path level latency) = uop_static u"
  by (simp_all add: uop_static_def reset_uop_def as_issued_def split: prod.splits)

lemma macro_static_updates [simp]:
  "macro_static (m\<lparr>m_dispatch_tick := a\<rparr>) = macro_static m" "macro_static (m\<lparr>m_complete_tick := a\<rparr>) = macro_static m"
  "macro_static (m\<lparr>m_retire_tick := a\<rparr>) = macro_static m" "macro_static (m\<lparr>m_dispatch_blocker := b\<rparr>) = macro_static m"
  "macro_static (m\<lparr>m_dispatch_blocker_domain := b\<rparr>) = macro_static m"
  "macro_static (m\<lparr>m_dispatch_blocker_count := c\<rparr>) = macro_static m"
  by (simp_all add: macro_static_def)

lemma same_static_put:
  "q_uops t = AList.update k u' (q_uops s) \<Longrightarrow> xuop_at s k = Some u \<Longrightarrow> uop_static u' = uop_static u \<Longrightarrow>
     q_macros t = q_macros s \<Longrightarrow> same_static s t"
  "q_macros t = AList.update l m' (q_macros s) \<Longrightarrow> xmacro_at s l = Some m \<Longrightarrow> macro_static m' = macro_static m \<Longrightarrow>
     q_uops t = q_uops s \<Longrightarrow> same_static s t"
  "q_uops t = q_uops s \<Longrightarrow> q_macros t = q_macros s \<Longrightarrow> same_static s t"
  by (simp_all add: same_static_def update_static)

lemma completed_static:
  assumes "completed_from t u s s'" and "xuop_at s (u_id u) = Some u" and "tables_ok s"
  shows "same_static s s'"
proof -
  obtain macros where
     m: "macros = q_macros s \<or> (\<exists>m t. xmacro_at s (u_parent_id u) = Some m \<and>
        macros = AList.update (m_id m) (m\<lparr>m_complete_tick := Some t\<rparr>) (q_macros s))" and
     c: "q_uops s' = AList.update (u_id u) (u\<lparr>u_complete_tick := Some t\<rparr>) (q_uops s)" "q_macros s' = macros"
    using assms(1) by (auto simp: completed_from_def core_def)
  have "same_static s (s\<lparr>q_macros := macros\<rparr>)"
    using m
  proof (elim disjE exE conjE)
    fix m x assume "xmacro_at s (u_parent_id u) = Some m"
      and "macros = AList.update (m_id m) (m\<lparr>m_complete_tick := Some x\<rparr>) (q_macros s)"
    then show ?thesis using tables_okD(2) [OF assms(3)]
      by (intro same_static_put(2) [of _ "m_id m" "m\<lparr>m_complete_tick := Some x\<rparr>" _ m]) simp_all
  qed (simp add: same_static_put(3))
  also have "same_static (s\<lparr>q_macros := macros\<rparr>) s'"
    by (rule same_static_put(1) [of _ "u_id u" "u\<lparr>u_complete_tick := Some t\<rparr>"]) (simp_all add: c assms(2))
  finally show ?thesis .
qed

lemma coreD:
  assumes "core s' = core s"
  shows "q_uops s' = q_uops s" "q_macros s' = q_macros s" "q_rob s' = q_rob s" "q_unissued s' = q_unissued s"
    "q_heap s' = q_heap s" "q_next_dispatch s' = q_next_dispatch s" "q_partition_occupancy s' = q_partition_occupancy s"
    "q_read_reservations s' = q_read_reservations s" "q_completion_reservations s' = q_completion_reservations s"
    "q_rename_free s' = q_rename_free s" "q_rename_pending s' = q_rename_pending s"
    "q_rob_occupancy s' = q_rob_occupancy s" "q_load_occupancy s' = q_load_occupancy s"
    "q_store_occupancy s' = q_store_occupancy s"
  using assms by (simp_all add: core_def)

lemma coreI:
  "q_uops s' = q_uops s \<Longrightarrow> q_macros s' = q_macros s \<Longrightarrow> q_rob s' = q_rob s \<Longrightarrow> q_unissued s' = q_unissued s \<Longrightarrow>
   q_heap s' = q_heap s \<Longrightarrow> q_next_dispatch s' = q_next_dispatch s \<Longrightarrow> q_partition_occupancy s' = q_partition_occupancy s \<Longrightarrow>
   q_read_reservations s' = q_read_reservations s \<Longrightarrow> q_completion_reservations s' = q_completion_reservations s \<Longrightarrow>
   q_rename_free s' = q_rename_free s \<Longrightarrow> q_rename_pending s' = q_rename_pending s \<Longrightarrow>
   q_rob_occupancy s' = q_rob_occupancy s \<Longrightarrow> q_load_occupancy s' = q_load_occupancy s \<Longrightarrow>
   q_store_occupancy s' = q_store_occupancy s \<Longrightarrow> core s' = core s"
  by (simp add: core_def)

lemma issued_fromE:
  assumes "issued_from e u now s s'"
  obtains path ready level latency where
    "select_execution e s u now = Inr path" "xdependency_ready_tick s u = Inr ready" "u_id u \<in> set (q_unissued s)"
    "q_uops s' = AList.update (u_id u) (as_issued u now ready path level latency) (q_uops s)"
    "q_unissued s' = remove1 (u_id u) (q_unissued s)"
    "q_heap s' = heappush (now + latency, u_sequence u, u_id u) (q_heap s)"
    "left_partition (q_partition_occupancy s) (u_scheduler_partition u) (q_partition_occupancy s')"
    "booked (n_read_capacity e) (q_read_reservations s) (fst (snd (snd (snd (snd path))))) (q_read_reservations s')"
    "booked (n_completion_capacity e) (q_completion_reservations s) (snd (snd (snd (snd (snd path))))) (q_completion_reservations s')"
    "q_macros s' = q_macros s" "q_rob s' = q_rob s" "q_next_dispatch s' = q_next_dispatch s"
    "q_rename_free s' = q_rename_free s" "q_rename_pending s' = q_rename_pending s"
    "q_rob_occupancy s' = q_rob_occupancy s" "q_load_occupancy s' = q_load_occupancy s"
    "q_store_occupancy s' = q_store_occupancy s"
  using assms unfolding issued_from_def core_def prod.inject
  by (elim exE conjE) (rule that, assumption+, simp_all)

lemmas step_effects = qput_uop_def qput_macro_def qlog_def admitted_from_def enqueued_from_def xleave_rob_def Let_def

lemma same_static_step:
  assumes "xstep e (now, s) (now', s')" and "tables_ok s"
  shows "same_static s s'"
  using assms(1)
proof (elim xstepE, goal_cases)
  case 1
  show ?case by (rule same_static_put(3) [OF coreD(1,2) [OF 1(2)]])
next
  case (2 u a b)
  have "q_uops s' = AList.update (u_id u) (u\<lparr>u_stall_reason := b, u_stall_reasons := a\<rparr>) (q_uops s)" "q_macros s' = q_macros s"
    using coreD(1,2) [OF 2(3)] by (simp_all add: step_effects)
  from same_static_put(1) [OF this(1) 2(2) _ this(2)] show ?case by simp
next
  case (3 m a b c)
  have "q_macros s' = AList.update (m_id m) (m\<lparr>m_dispatch_blocker := c, m_dispatch_blocker_count := b, m_dispatch_blocker_domain := a\<rparr>) (q_macros s)"
      "q_uops s' = q_uops s"
    using coreD(1,2) [OF 3(3)] by (simp_all add: step_effects)
  from same_static_put(2) [OF this(1) 3(2) _ this(2)] show ?case by simp
next
  case (4 t q i rest u)
  show ?case by (rule same_static_put(3)) (use coreD(1,2) [OF 4(4)] in simp_all)
next
  case (5 t q u rest)
  have "same_static (s\<lparr>q_heap := rest\<rparr>) s'"
    by (rule completed_static [of t u]) (use 5 assms(2) in simp_all)
  then show ?case by (simp add: same_static_def)
next
  case (6 u)
  from 6(4) obtain u' where "uop_static u' = uop_static u" "q_uops s' = AList.update (u_id u) u' (q_uops s)" "q_macros s' = q_macros s"
    by (rule issued_fromE) (metis uop_static_updates(6))
  from same_static_put(1) [OF this(2) 6(2) this(1) this(3)] show ?case .
next
  case (7 m)
  have "q_macros s' = AList.update (m_id m) (m\<lparr>m_dispatch_tick := Some now\<rparr>) (q_macros s)" "q_uops s' = q_uops s"
    using coreD(1,2) [OF 7(5) [unfolded admitted_from_def]] by (simp_all add: step_effects)
  moreover have "xmacro_at s (m_id m) = Some m" using 7(2) by (simp add: next_macro_def)
  ultimately show ?case using same_static_put(2) [of s' "m_id m" "m\<lparr>m_dispatch_tick := Some now\<rparr>" s m] by simp
next
  case (8 u choice)
  have "q_uops s' = AList.update (u_id u) (u\<lparr>u_dispatch_tick := Some now, u_scheduler_partition := choice\<rparr>) (q_uops s)"
      "q_macros s' = q_macros s"
    using coreD(1,2) [OF 8(6) [unfolded enqueued_from_def]] by (simp_all add: step_effects)
  from same_static_put(1) [OF this(1) 8(2) _ this(2)] show ?case by simp
next
  case (9 m y)
  show ?case by (rule same_static_put(3)) (use coreD(1,2) [OF 9(3)] in simp_all)
next
  case (10 m rest c)
  have "q_macros s' = AList.update (m_id m) (m\<lparr>m_retire_tick := Some now\<rparr>) (q_macros s)" "q_uops s' = q_uops s"
    using coreD(1,2) [OF 10(6)] by (simp_all add: step_effects)
  from same_static_put(2) [OF this(1) 10(3) _ this(2)] show ?case by simp
next
  case (11 t q allocations rest remaining s1 remaining' leftover)
  then obtain free where "core s1 = core (s\<lparr>q_rename_pending := rest, q_rename_free := free\<rparr>)" using return_entries_core [OF 11(5)] by auto
  note c = coreD(1,2) [OF this] and d = coreD(1,2) [OF 11(6)]
  show ?case by (rule same_static_put(3)) (use c d in simp_all)
next
  case 12
  then show ?case by simp
qed

lemma tables_ok_step: "xstep e (now, s) (now', s') \<Longrightarrow> tables_ok s \<Longrightarrow> tables_ok s'"
  using same_static_step tables_ok_static by blast

lemma tables_ok_steps: "xsteps e (now, s) (now', s') \<Longrightarrow> tables_ok s \<Longrightarrow> tables_ok s'"
  by (induction rule: rtranclp_induct2) (auto dest: tables_ok_step)

end
