(* ===== verification/XsaiSteps.thy ===== *)
theory XsaiSteps
  imports XsaiMachine
begin

text \<open>
  Every operation of the event loop runs as steps of \<open>xstep\<close>: issue, completion, release of flows
  and registers, retirement, dispatch, one pass of the loop and the whole loop.
\<close>

lemma xsteps_frame: "core s' = core s \<Longrightarrow> xsteps e (now, s) (now, s')"
  by (rule r_into_rtranclp) (rule XFrame)

lemma xsteps_step: "xstep e (now, s) (now, s') \<Longrightarrow> xsteps e (now, s') (now, s'') \<Longrightarrow> xsteps e (now, s) (now, s'')"
  by (rule converse_rtranclp_into_rtranclp)

lemma xsteps_core: "core s' = core s \<Longrightarrow> xsteps e (now, s') (now, s'') \<Longrightarrow> xsteps e (now, s) (now, s'')"
  by (rule xsteps_step [OF XFrame])

section \<open>Issue\<close>

lemma stage_simps [simp]:
  "stage s (Inr (Some x)) rest = Inr (s, x)" "stage s (Inr None) rest = rest" "stage s (Inl err) rest = Inl err"
  by (simp_all add: stage_def)

lemma xdependency_check_reason:
  "xdependency_check s u now = Inr (Some (reason, earliest)) \<Longrightarrow> reason \<noteq> None"
  by (auto simp: xdependency_check_def rbind_eq_Inr_iff Let_def split: if_splits)

lemma blocker_None:
  assumes "xissue_blocker e u now s = Inr (s', None, earliest)"
  shows "xdependency_check s u now = Inr None"
proof (cases "xdependency_check s u now")
  case (Inl err)
  then show ?thesis using assms by (simp add: xissue_blocker_def)
next
  case (Inr v)
  show ?thesis
  proof (cases v)
    case None
    then show ?thesis using Inr by simp
  next
    case (Some x)
    obtain reason t where x: "x = (reason, t)" by (cases x)
    from xdependency_check_reason [OF Inr [unfolded Some x]] show ?thesis
      using assms Inr Some x by (simp add: xissue_blocker_def)
  qed
qed

lemma xdependency_check_core:
  assumes "core s' = core s"
  shows "xdependency_check s' u now = xdependency_check s u now"
proof -
  have l: "qlookup s' ids = qlookup s ids" for ids by (simp add: qlookup_def coreD(1) [OF assms])
  have r: "xdependency_ready_tick s' u = xdependency_ready_tick s u" by (simp add: xdependency_ready_tick_def l)
  show ?thesis unfolding xdependency_check_def l r ..
qed

lemma xnote_stall_step:
  assumes "xuop_at s (u_id u) = Some u"
  shows "xstep e (now, s) (now, xnote_stall r u s)"
  by (rule XStall [OF assms]) (simp add: xnote_stall_def)

lemma xissue_loop_run:
  assumes "tables_ok s"
  shows "wp (\<lambda>_. True) (\<lambda>r. xsteps e (now, s) (now, fst r)) (xissue_loop e now ids s issued)"
  using assms
proof (induction ids arbitrary: s issued)
  case (Cons i ids)
  show ?case
  proof (rule wpI)
    fix r assume r: "xissue_loop e now (i # ids) s issued = Inr r"
    obtain u s1 reason earliest where u: "xuop_at s i = Some u"
        and b: "xissue_blocker e u now s = Inr (s1, reason, earliest)"
      using r by (auto simp: rbind_eq_Inr_iff)
    have c: "core s1 = core s"
      using wp_Inr_eqD [OF xissue_blocker_core [OF refl] b] by simp
    have t: "tables_ok s1" using Cons.prems tables_ok_steps [OF xsteps_frame [OF c]] by simp
    have u1: "xuop_at s1 (u_id u) = Some u" using u tables_okD(1) [OF Cons.prems u] coreD(1) [OF c] by simp
    show "xsteps e (now, s) (now, fst r)"
    proof (cases reason)
      case (Some a)
      let ?s = "xnote_stall a u s1"
      have st: "xsteps e (now, s) (now, ?s)"
        by (rule xsteps_core [OF c r_into_rtranclp]) (rule xnote_stall_step [OF u1])
      have "fst r = ?s \<or> xissue_loop e now ids ?s issued = Inr r"
        using r u b Some by (auto simp: fetch_def split: if_splits)
      moreover have "xsteps e (now, ?s) (now, fst r)" if "xissue_loop e now ids ?s issued = Inr r"
        using wp_Inr_eqD [OF Cons.IH that] tables_ok_steps [OF st Cons.prems] by simp
      ultimately show ?thesis using st by auto
    next
      case None
      obtain s2 where s2: "xissue_uop e u now s1 = Inr s2" "xissue_loop e now ids s2 True = Inr r"
        using r u b None by (auto simp: fetch_def rbind_eq_Inr_iff)
      have "xdependency_check s1 u now = Inr None"
        using blocker_None [OF b [unfolded None]] xdependency_check_core [OF c] by simp
      then have "xstep e (now, s1) (now, s2)" by (rule XIssue [OF u1 _ select_and_book [OF s2(1)]])
      then have st: "xsteps e (now, s) (now, s2)" by (rule xsteps_core [OF c r_into_rtranclp])
      then show ?thesis using wp_Inr_eqD [OF Cons.IH s2(2)] tables_ok_steps [OF st Cons.prems] by simp
    qed
  qed simp
qed simp

section \<open>Completion\<close>

lemma xcomplete_from_run:
  assumes "tables_ok s" and "q_heap s = h"
  shows "wp (\<lambda>_. True) (\<lambda>r. xsteps e (now, s) (now, fst r)) (xcomplete_from e now h s changed)"
  using assms
proof (induction h arbitrary: s changed)
  case (Cons x rest)
  obtain t q i where x: "x = (t, q, i)" by (cases x)
  let ?s = "s\<lparr>q_heap := rest\<rparr>"
  show ?case
  proof (rule wpI)
    fix r assume r: "xcomplete_from e now (x # rest) s changed = Inr r"
    show "xsteps e (now, s) (now, fst r)"
    proof (cases "t > now")
      case True
      then show ?thesis using r x by auto
    next
      case False
      then obtain u where u: "xuop_at s i = Some u" using r x by (auto simp: rbind_eq_Inr_iff Let_def)
      have i: "i = u_id u" using tables_okD(1) [OF Cons.prems(1) u] by simp
      have h: "q_heap s = (t, q, i) # rest" using Cons.prems(2) x by simp
      show ?thesis
      proof (cases "u_complete_tick u = None")
        case True
        then obtain s1 where s1: "xcomplete_uop e t u ?s = Inr s1" "xcomplete_from e now rest s1 True = Inr r"
          using r x False u by (auto simp: rbind_eq_Inr_iff fetch_def Let_def)
        note f = xcomplete_uop_from [OF s1(1)]
        have "xstep e (now, s) (now, s1)"
          by (rule XComplete [OF h [unfolded i] _ u [unfolded i] True f]) (use False in simp)
        then have st: "xsteps e (now, s) (now, s1)" by (rule r_into_rtranclp)
        have "q_heap s1 = rest" using f by (auto simp: completed_from_def core_def)
        with st show ?thesis
          using wp_Inr_eqD [OF Cons.IH s1(2)] tables_ok_steps [OF st Cons.prems(1)] by simp
      next
        case known: False
        then have r': "xcomplete_from e now rest ?s changed = Inr r"
          using r x False u by (auto simp: rbind_eq_Inr_iff fetch_def Let_def)
        have "xstep e (now, s) (now, ?s)" by (rule XSkip [OF h u known refl])
        then have st: "xsteps e (now, s) (now, ?s)" by (rule r_into_rtranclp)
        then show ?thesis using wp_Inr_eqD [OF Cons.IH r'] tables_ok_steps [OF st Cons.prems(1)] by simp
      qed
    qed
  qed simp
qed simp

lemma xcomplete_run: "tables_ok s \<Longrightarrow> wp (\<lambda>_. True) (\<lambda>r. xsteps e (now, s) (now, fst r)) (xcomplete e now s)"
  unfolding xcomplete_def by (rule xcomplete_from_run) simp_all

lemma xissue_fixed_point_run:
  assumes "tables_ok s" and "xissue_fixed_point e now s = Inr s'"
  shows "xsteps e (now, s) (now, s')"
  using assms
proof (induction e now s rule: xissue_fixed_point.induct)
  case (1 e now s)
  obtain s1 changed s2 issued where c: "xcomplete e now s = Inr (s1, changed)" and i: "xissue_once e now s1 = Inr (s2, issued)"
      and rest: "(if \<not> changed \<and> \<not> issued then Inr s2 else xissue_fixed_point e now s2) = Inr s'"
    using 1(3) by (subst (asm) xissue_fixed_point.simps) (auto simp: rbind_eq_Inr_iff)
  have s1: "xsteps e (now, s) (now, s1)" using wp_Inr_eqD [OF xcomplete_run [OF 1(2)] c] by simp
  obtain ids where ids: "xissue_loop e now ids s1 False = Inr (s2, issued)"
    using i by (auto simp: xissue_once_def rbind_eq_Inr_iff)
  have "xsteps e (now, s1) (now, s2)"
    using wp_Inr_eqD [OF xissue_loop_run [OF tables_ok_steps [OF s1 1(2)]] ids] by simp
  with s1 have s2: "xsteps e (now, s) (now, s2)" by (rule rtranclp_trans)
  show ?case
  proof (cases "\<not> changed \<and> \<not> issued")
    case False
    have "xissue_fixed_point e now s2 = Inr s'" using rest unfolding if_not_P [OF False] .
    from 1(1) [OF c refl i refl False tables_ok_steps [OF s2 1(2)] this] s2
    show ?thesis by (rule rtranclp_trans [rotated])
  qed (use rest s2 in simp)
qed

section \<open>Release and retirement\<close>

lemma release_flows_run:
  "core s = c \<Longrightarrow> to_core c (release_flows_from now h s)"
proof (induction h arbitrary: s)
  case (Cons x h)
  obtain t q i where x: "x = (t, q, i)" by (cases x)
  have "to_core c (rbind (drop_inflight k i (s\<lparr>q_service_heap := h\<rparr>)) (release_flows_from now h))" for k
    by (rule wp_bindI [OF drop_inflight_core]) (use Cons in simp_all)
  note step = this
  show ?case unfolding x release_flows_from.simps by (intro wp_ifI wp_InrI Cons.prems wp_skipI step)
qed simp

lemma release_rename_from_run:
  "q_rename_pending s = h \<Longrightarrow> xruns e now s (release_rename_from now remaining h s)"
proof (induction h arbitrary: s remaining)
  case (Cons x rest)
  obtain t q allocations where x: "x = (t, q, allocations)" by (cases x)
  show ?case
  proof (rule wpI)
    fix s' assume r: "release_rename_from now remaining (x # rest) s = Inr s'"
    show "xsteps e (now, s) (now, s')"
    proof (cases "t > now \<or> remaining \<le> 0")
      case True
      then show ?thesis using r x by auto
    next
      case False
      then obtain s1 remaining1 leftover where
          f: "rfold return_entry allocations (s\<lparr>q_rename_pending := rest\<rparr>, remaining, []) = Inr (s1, remaining1, leftover)" and
          g: "(if leftover \<noteq> [] then Inr (s1\<lparr>q_rename_pending := push_release (t, q, leftover) rest\<rparr>)
            else release_rename_from now remaining1 rest s1) = Inr s'"
        using r x by (auto simp: rbind_eq_Inr_iff)
      have h: "q_rename_pending s = (t, q, allocations) # rest" using Cons.prems x by simp
      have p1: "q_rename_pending s1 = rest" using return_entries_core [OF f] by (auto simp: core_def)
      have st: "xstep e (now, s) (now, s2)"
        if "core s2 = core (s1\<lparr>q_rename_pending := (if leftover \<noteq> [] then push_release (t, q, leftover) rest else rest)\<rparr>)" for s2
        by (rule XRelease [OF h _ _ f that]) (use False in simp_all)
      show ?thesis
      proof (cases "leftover = []")
        case True
        have "s1\<lparr>q_rename_pending := rest\<rparr> = s1" using p1 by simp
        with True have "xstep e (now, s) (now, s1)" by (intro st) simp
        moreover have "xsteps e (now, s1) (now, s')"
          using wp_Inr_eqD [OF Cons.IH [OF p1]] g True by auto
        ultimately show ?thesis by (rule xsteps_step)
      next
        case False
        then show ?thesis using g by (auto intro!: r_into_rtranclp st)
      qed
    qed
  qed simp
qed simp

lemma release_rename_run: "xruns e now s (release_rename e now s)"
  unfolding release_rename_def by (simp add: release_rename_from_run)

lemma xretire_from_run:
  "tables_ok s \<Longrightarrow> q_rob s = h \<Longrightarrow> xruns e now s (xretire_from e now retired h s)"
proof (induction h arbitrary: s retired)
  case (Cons i rest)
  show ?case
  proof (rule wpI)
    fix s' assume r: "xretire_from e now retired (i # rest) s = Inr s'"
    show "xsteps e (now, s) (now, s')"
    proof (cases "s' = s")
      case False
      then obtain m c where m: "xmacro_at s i = Some m" "m_complete_tick m = Some c" "c \<le> now"
          and r': "xretire_from e now (retired + m_retire_macro_ops m) rest (xleave_rob e now m rest s) = Inr s'"
        using r by (auto simp: Let_def rbind_eq_Inr_iff split: if_splits option.splits)
      have i: "i = m_id m" using tables_okD(2) [OF Cons.prems(1) m(1)] by simp
      have "xstep e (now, s) (now, xleave_rob e now m rest s)"
        using Cons.prems(2) m unfolding i by (intro XRetire [OF _ _ m(2,3) refl]) auto
      then have st: "xsteps e (now, s) (now, xleave_rob e now m rest s)" by (rule r_into_rtranclp)
      have "q_rob (xleave_rob e now m rest s) = rest" by (simp add: xleave_rob_def Let_def qlog_def qput_macro_def)
      then show ?thesis using wp_Inr_eqD [OF Cons.IH r'] tables_ok_steps [OF st Cons.prems(1)] st by simp
    qed simp
  qed simp
qed simp

lemma xretire_run: "tables_ok s \<Longrightarrow> xruns e now s (xretire e now s)"
  unfolding xretire_def by (rule xretire_from_run) simp_all

section \<open>Peaks and the next tick\<close>

lemma xrecord_peaks_core: "to_core (core s) (xrecord_peaks e s)"
  unfolding xrecord_peaks_def Let_def by (intro wp_rules) simp

lemma xblocker_ticks_core: "core s = c \<Longrightarrow> to_core2 c (xblocker_ticks e now ids s)"
proof (induction ids arbitrary: s)
  case (Cons i ids)
  show ?case
    unfolding xblocker_ticks.simps
    by (intro wp_bindI [OF xissue_blocker_core [OF Cons.prems]] wp_bindI [OF Cons.IH] wp_prodI wp_InrI wp_skipI) simp_all
qed simp

lemma xnext_event_core: "to_core2 (core s) (xnext_event_tick e now s)"
  unfolding xnext_event_tick_def
  by (intro wp_bindI [OF xblocker_ticks_core [OF refl]] wp_prodI wp_skipI) (simp split: list.splits)

end
