(* ===== verification/XsaiOrder.thy ===== *)
theory XsaiOrder
  imports XsaiMachine
begin

text \<open>
  Program order in the XSAI machine: macro-ops are admitted and retired in trace order, the reorder
  buffer holds the ones in between, only entries of admitted macro-ops are enqueued, a macro-op
  completes with its last entry and retires no earlier than that.
\<close>

section \<open>What a step does to the macro-ops\<close>

definition macro_ticks :: "macro_op \<Rightarrow> int option \<times> int option \<times> int option" where
  "macro_ticks m = (m_dispatch_tick m, m_complete_tick m, m_retire_tick m)"

definition macros_same :: "xsai_state \<Rightarrow> xsai_state \<Rightarrow> bool" where
  "macros_same s s' \<longleftrightarrow> q_rob s' = q_rob s \<and> q_next_dispatch s' = q_next_dispatch s \<and>
     (\<forall>i. map_option macro_ticks (xmacro_at s' i) = map_option macro_ticks (xmacro_at s i))"

definition order_change :: "xsai_env \<Rightarrow> int \<Rightarrow> xsai_state \<Rightarrow> xsai_state \<Rightarrow> bool" where
  "order_change e now s s' \<longleftrightarrow> macros_same s s' \<or>
     (\<exists>m t. xmacro_at s (m_id m) = Some m \<and> last_completion (q_uops s') m t \<and>
        q_macros s' = AList.update (m_id m) (m\<lparr>m_complete_tick := Some t\<rparr>) (q_macros s) \<and>
        q_rob s' = q_rob s \<and> q_next_dispatch s' = q_next_dispatch s) \<or>
     (\<exists>m. next_macro e s m \<and> m_dispatch_tick m = None \<and>
        q_macros s' = AList.update (m_id m) (m\<lparr>m_dispatch_tick := Some now\<rparr>) (q_macros s) \<and>
        q_rob s' = q_rob s @ [m_id m] \<and> q_next_dispatch s' = q_next_dispatch s) \<or>
     (\<exists>m. next_macro e s m \<and> m_dispatch_tick m \<noteq> None \<and> q_macros s' = q_macros s \<and> q_rob s' = q_rob s \<and>
        q_next_dispatch s' = Suc (q_next_dispatch s)) \<or>
     (\<exists>m c. xmacro_at s (m_id m) = Some m \<and> m_complete_tick m = Some c \<and> c \<le> now \<and> q_rob s = m_id m # q_rob s' \<and>
        q_macros s' = AList.update (m_id m) (m\<lparr>m_retire_tick := Some now\<rparr>) (q_macros s) \<and>
        q_next_dispatch s' = q_next_dispatch s)"

lemma macros_same_tables:
  "q_macros s' = q_macros s \<Longrightarrow> q_rob s' = q_rob s \<Longrightarrow> q_next_dispatch s' = q_next_dispatch s \<Longrightarrow> order_change e now s s'"
  by (simp add: order_change_def macros_same_def)

lemma xstep_order:
  assumes "xstep e (now, s) (now', s')" and tab: "tables_ok s"
  shows "order_change e now s s'"
  using assms(1)
proof (elim xstepE, goal_cases)
  case 1
  show ?case by (rule macros_same_tables) (simp_all add: coreD [OF 1(2)])
next
  case (2 u a b)
  show ?case by (rule macros_same_tables) (simp_all add: coreD [OF 2(3)] step_effects)
next
  case (3 m a b c)
  have "q_macros s' = AList.update (m_id m) (m\<lparr>m_dispatch_blocker := c, m_dispatch_blocker_count := b, m_dispatch_blocker_domain := a\<rparr>) (q_macros s)"
      "q_rob s' = q_rob s" "q_next_dispatch s' = q_next_dispatch s"
    using coreD [OF 3(3)] by (simp_all add: step_effects)
  then have "macros_same s s'"
    using update_static [OF 3(2), of macro_ticks] by (simp add: macros_same_def macro_ticks_def)
  then show ?case by (simp add: order_change_def)
next
  case (4 t q i rest u)
  show ?case by (rule macros_same_tables) (simp_all add: coreD [OF 4(4)])
next
  case (5 t q u rest)
  obtain macros where m: "macros = q_macros s \<or> (\<exists>m t'. xmacro_at s (u_parent_id u) = Some m \<and> last_completion (q_uops s') m t' \<and>
        macros = AList.update (m_id m) (m\<lparr>m_complete_tick := Some t'\<rparr>) (q_macros s))"
      and c: "q_macros s' = macros" "q_rob s' = q_rob s" "q_next_dispatch s' = q_next_dispatch s"
    using 5(6) by (auto simp: completed_from_def core_def)
  from m show ?case
  proof (elim disjE exE conjE)
    fix m t' assume "xmacro_at s (u_parent_id u) = Some m" "last_completion (q_uops s') m t'"
      "macros = AList.update (m_id m) (m\<lparr>m_complete_tick := Some t'\<rparr>) (q_macros s)"
    then show ?thesis using c tables_okD(2) [OF tab] unfolding order_change_def by metis
  qed (use c in \<open>simp add: macros_same_tables\<close>)
next
  case (6 u)
  from 6(4) show ?case by (rule issued_fromE) (simp add: macros_same_tables)
next
  case (7 m)
  show ?case using 7(2,3) coreD [OF 7(5) [unfolded admitted_from_def]] by (auto simp: order_change_def)
next
  case (8 u choice)
  show ?case by (rule macros_same_tables) (simp_all add: coreD [OF 8(6) [unfolded enqueued_from_def]])
next
  case (9 m y)
  show ?case using 9(2,4) coreD [OF 9(3)] by (auto simp: order_change_def)
next
  case (10 m rest c)
  show ?case using 10(2-5) coreD [OF 10(6)] by (auto simp: order_change_def step_effects)
next
  case (11 t q allocations rest remaining s1 remaining' leftover)
  then obtain free where "core s1 = core (s\<lparr>q_rename_pending := rest, q_rename_free := free\<rparr>)" using return_entries_core [OF 11(5)] by auto
  note c = coreD [OF this] coreD [OF 11(6)]
  show ?case by (rule macros_same_tables) (simp_all add: c)
next
  case 12
  then show ?case by (simp add: macros_same_tables)
qed

section \<open>What a step does to the entries\<close>

text \<open>Completion ticks stay, and an entry gets a dispatch tick only when its macro-op has one.\<close>

definition entry_change :: "xsai_state \<Rightarrow> xsai_state \<Rightarrow> bool" where
  "entry_change s s' \<longleftrightarrow> (\<forall>i u'. xuop_at s' i = Some u' \<longrightarrow> (\<exists>u. xuop_at s i = Some u \<and>
     (\<forall>c. u_complete_tick u = Some c \<longrightarrow> u_complete_tick u' = Some c) \<and>
     (u_dispatch_tick u' = u_dispatch_tick u \<or> xadmitted s (u_parent_id u))))"

lemma entry_changeD:
  "entry_change s s' \<Longrightarrow> xuop_at s' i = Some u' \<Longrightarrow> \<exists>u. xuop_at s i = Some u \<and>
     (\<forall>c. u_complete_tick u = Some c \<longrightarrow> u_complete_tick u' = Some c) \<and>
     (u_dispatch_tick u' = u_dispatch_tick u \<or> xadmitted s (u_parent_id u))"
  unfolding entry_change_def by blast

lemma entry_change_put:
  assumes "q_uops s' = AList.update k v' (q_uops s)" and "xuop_at s k = Some v"
    and "\<And>c. u_complete_tick v = Some c \<Longrightarrow> u_complete_tick v' = Some c"
    and "u_dispatch_tick v' = u_dispatch_tick v \<or> xadmitted s (u_parent_id v)"
  shows "entry_change s s'"
  using assms by (auto simp: entry_change_def update_conv')

lemma entry_change_same: "q_uops s' = q_uops s \<Longrightarrow> entry_change s s'"
  by (simp add: entry_change_def)

lemma xstep_entries:
  assumes "xstep e (now, s) (now', s')"
  shows "entry_change s s'"
  using assms
proof (elim xstepE, goal_cases)
  case 1
  show ?case by (rule entry_change_same) (simp add: coreD [OF 1(2)])
next
  case (2 u a b)
  show ?case by (rule entry_change_put [where k = "u_id u" and v = u and v' = "u\<lparr>u_stall_reason := b, u_stall_reasons := a\<rparr>"])
      (use 2 coreD(1) [OF 2(3)] in \<open>simp_all add: qput_uop_def\<close>)
next
  case (3 m a b c)
  show ?case by (rule entry_change_same) (simp add: coreD [OF 3(3)] qput_macro_def)
next
  case (4 t q i rest u)
  show ?case by (rule entry_change_same) (simp add: coreD [OF 4(4)])
next
  case (5 t q u rest)
  then show ?case
    by (intro entry_change_put [where k = "u_id u" and v = u and v' = "u\<lparr>u_complete_tick := Some t\<rparr>"])
      (auto simp: completed_from_def core_def)
next
  case (6 u)
  have same: "u_complete_tick (as_issued u now ready path level latency) = u_complete_tick u"
      "u_dispatch_tick (as_issued u now ready path level latency) = u_dispatch_tick u" for ready path level latency
    by (simp_all add: as_issued_def split: prod.splits)
  obtain u' where "q_uops s' = AList.update (u_id u) u' (q_uops s)" "u_complete_tick u' = u_complete_tick u"
      "u_dispatch_tick u' = u_dispatch_tick u"
    using 6(4) by (rule issued_fromE) (metis same)
  with 6(2) show ?case by (intro entry_change_put [where k = "u_id u" and v = u]) auto
next
  case (7 m)
  show ?case by (rule entry_change_same) (simp add: coreD [OF 7(5) [unfolded admitted_from_def]])
next
  case (8 u choice)
  show ?case
    by (rule entry_change_put [where k = "u_id u" and v = u and v' = "u\<lparr>u_dispatch_tick := Some now, u_scheduler_partition := choice\<rparr>"])
      (use 8 coreD(1) [OF 8(6) [unfolded enqueued_from_def]] in simp_all)
next
  case (9 m y)
  show ?case by (rule entry_change_same) (simp add: coreD [OF 9(3)])
next
  case (10 m rest c)
  show ?case by (rule entry_change_same) (simp add: coreD [OF 10(6)] step_effects)
next
  case (11 t q allocations rest remaining s1 remaining' leftover)
  then obtain free where "core s1 = core (s\<lparr>q_rename_pending := rest, q_rename_free := free\<rparr>)" using return_entries_core [OF 11(5)] by auto
  from coreD(1) [OF 11(6)] coreD(1) [OF this] show ?case by (intro entry_change_same) simp
next
  case 12
  then show ?case by (simp add: entry_change_same)
qed

section \<open>Admission before dispatch\<close>

definition admitted_ok :: "xsai_state \<Rightarrow> bool" where
  "admitted_ok s \<longleftrightarrow> (\<forall>i u. xuop_at s i = Some u \<longrightarrow> u_dispatch_tick u \<noteq> None \<longrightarrow> xadmitted s (u_parent_id u))"

lemma xadmitted_step:
  assumes "order_change e now s s'" and "xadmitted s i"
  shows "xadmitted s' i"
proof -
  obtain m where m: "xmacro_at s i = Some m" "m_dispatch_tick m \<noteq> None" using assms(2) by (auto simp: xadmitted_def)
  have put: "xadmitted s' i" if "q_macros s' = AList.update k n' (q_macros s)" "xmacro_at s k = Some n"
      "m_dispatch_tick n \<noteq> None \<longrightarrow> m_dispatch_tick n' \<noteq> None" for k n n'
    using that m by (auto simp: xadmitted_def update_conv')
  show ?thesis
    using assms(1) unfolding order_change_def
  proof (elim disjE exE conjE)
    assume "macros_same s s'"
    then have "map_option macro_ticks (xmacro_at s' i) = map_option macro_ticks (xmacro_at s i)" by (simp add: macros_same_def)
    then show ?thesis using m by (auto simp: xadmitted_def macro_ticks_def)
  next
    fix n t assume "xmacro_at s (m_id n) = Some n" "q_macros s' = AList.update (m_id n) (n\<lparr>m_complete_tick := Some t\<rparr>) (q_macros s)"
    then show ?thesis by (intro put [of "m_id n" "n\<lparr>m_complete_tick := Some t\<rparr>" n]) simp_all
  next
    fix n assume "next_macro e s n" "q_macros s' = AList.update (m_id n) (n\<lparr>m_dispatch_tick := Some now\<rparr>) (q_macros s)"
    then show ?thesis by (intro put [of "m_id n" "n\<lparr>m_dispatch_tick := Some now\<rparr>" n]) (simp_all add: next_macro_def)
  next
    fix n assume "q_macros s' = q_macros s"
    then show ?thesis using m by (simp add: xadmitted_def)
  next
    fix n c assume "xmacro_at s (m_id n) = Some n" "q_macros s' = AList.update (m_id n) (n\<lparr>m_retire_tick := Some now\<rparr>) (q_macros s)"
    then show ?thesis by (intro put [of "m_id n" "n\<lparr>m_retire_tick := Some now\<rparr>" n]) simp_all
  qed
qed

lemma admitted_ok_step:
  assumes st: "xstep e (now, s) (now', s')" and tab: "tables_ok s" and inv: "admitted_ok s"
  shows "admitted_ok s'"
  unfolding admitted_ok_def
proof (intro allI impI)
  fix i u' assume u': "xuop_at s' i = Some u'" "u_dispatch_tick u' \<noteq> None"
  obtain u where u: "xuop_at s i = Some u" "u_dispatch_tick u' = u_dispatch_tick u \<or> xadmitted s (u_parent_id u)"
    using entry_changeD [OF xstep_entries [OF st] u'(1)] by blast
  have "u_parent_id u' = u_parent_id u"
  proof -
    obtain v where "xuop_at s' i = Some v" "uop_static v = uop_static u"
      using same_static_uop(1) [OF same_static_step [OF st tab] u(1)] by blast
    then show ?thesis using u'(1) uop_static_fields [of v u] by simp
  qed
  moreover have "u_dispatch_tick u \<noteq> None \<Longrightarrow> xadmitted s (u_parent_id u)"
    using inv u(1) unfolding admitted_ok_def by blast
  then have "xadmitted s (u_parent_id u)" using u(2) u'(2) by metis
  ultimately show "xadmitted s' (u_parent_id u')" using xadmitted_step [OF xstep_order [OF st tab]] by simp
qed

lemma admitted_ok_steps: "xsteps e (now, s) (now', s') \<Longrightarrow> tables_ok s \<Longrightarrow> admitted_ok s \<Longrightarrow> admitted_ok s'"
  by (induction rule: rtranclp_induct2) (auto dest: admitted_ok_step tables_ok_steps)

section \<open>Program order\<close>

text \<open>The first \<open>n\<close> macro-ops of the trace have a tick \<open>f\<close>, none of the others, and the ticks do not decrease.\<close>

definition in_order :: "(macro_op \<Rightarrow> int option) \<Rightarrow> xsai_env \<Rightarrow> int \<Rightarrow> xsai_state \<Rightarrow> nat \<Rightarrow> bool" where
  "in_order f e now s n \<longleftrightarrow>
     (\<forall>j<length (n_macro_order e). \<exists>m. xmacro_at s (n_macro_order e ! j) = Some m \<and> (f m \<noteq> None \<longleftrightarrow> j < n) \<and>
        (\<forall>t. f m = Some t \<longrightarrow> t \<le> now)) \<and>
     (\<forall>i j m m' t t'. i < j \<longrightarrow> j < length (n_macro_order e) \<longrightarrow> xmacro_at s (n_macro_order e ! i) = Some m \<longrightarrow>
        xmacro_at s (n_macro_order e ! j) = Some m' \<longrightarrow> f m = Some t \<longrightarrow> f m' = Some t' \<longrightarrow> t \<le> t')"

lemma in_orderD:
  assumes "in_order f e now s n"
  shows "j < length (n_macro_order e) \<Longrightarrow> \<exists>m. xmacro_at s (n_macro_order e ! j) = Some m \<and> (f m \<noteq> None \<longleftrightarrow> j < n) \<and>
       (\<forall>t. f m = Some t \<longrightarrow> t \<le> now)"
    and "i < j \<Longrightarrow> j < length (n_macro_order e) \<Longrightarrow> xmacro_at s (n_macro_order e ! i) = Some m \<Longrightarrow>
       xmacro_at s (n_macro_order e ! j) = Some m' \<Longrightarrow> f m = Some t \<Longrightarrow> f m' = Some t' \<Longrightarrow> t \<le> t'"
  by (rule conjunct1 [OF assms [unfolded in_order_def], rule_format], assumption)
    (rule conjunct2 [OF assms [unfolded in_order_def], rule_format])

lemma in_order_later: "in_order f e now s n \<Longrightarrow> now \<le> now' \<Longrightarrow> in_order f e now' s n"
  unfolding in_order_def by (meson order.trans)

lemma in_order_same:
  assumes "\<And>i. map_option f (xmacro_at s' i) = map_option f (xmacro_at s i)" and "in_order f e now s n"
  shows "in_order f e now s' n"
proof -
  have fwd: "\<exists>m'. xmacro_at s' i = Some m' \<and> f m' = f m" if m: "xmacro_at s i = Some m" for i m
    using assms(1) [of i] unfolding m by (cases "xmacro_at s' i") simp_all
  have bwd: "\<exists>m. xmacro_at s i = Some m \<and> f m = f m'" if m': "xmacro_at s' i = Some m'" for i m'
    using assms(1) [of i] unfolding m' by (cases "xmacro_at s i") simp_all
  let ?o = "n_macro_order e"
  have "\<exists>m. xmacro_at s' (?o ! j) = Some m \<and> (f m \<noteq> None \<longleftrightarrow> j < n) \<and> (\<forall>t. f m = Some t \<longrightarrow> t \<le> now)" if j: "j < length ?o" for j
  proof -
    obtain m where m: "xmacro_at s (?o ! j) = Some m" "f m \<noteq> None \<longleftrightarrow> j < n" "\<forall>t. f m = Some t \<longrightarrow> t \<le> now"
      using in_orderD(1) [OF assms(2) j] by blast
    obtain m' where "xmacro_at s' (?o ! j) = Some m'" "f m' = f m" using fwd [OF m(1)] by blast
    then show ?thesis using m(2,3) by (intro exI [of _ m']) simp
  qed
  moreover have "t \<le> t'" if ij: "i < j" "j < length ?o" "xmacro_at s' (?o ! i) = Some x" "xmacro_at s' (?o ! j) = Some y"
      "f x = Some t" "f y = Some t'" for i j x y t t'
  proof -
    obtain x0 y0 where "xmacro_at s (?o ! i) = Some x0" "f x0 = Some t" "xmacro_at s (?o ! j) = Some y0" "f y0 = Some t'"
      using bwd [OF ij(3)] bwd [OF ij(4)] ij(5,6) by auto
    then show ?thesis using in_orderD(2) [OF assms(2) ij(1,2)] by blast
  qed
  ultimately show ?thesis unfolding in_order_def by blast
qed

lemma in_order_put:
  assumes inv: "in_order f e now s n" and n: "n < length (n_macro_order e)" "n_macro_order e ! n = i"
    and d: "distinct (n_macro_order e)" and q: "q_macros s' = AList.update i m' (q_macros s)" and m': "f m' = Some now"
  shows "in_order f e now s' (Suc n)"
proof -
  let ?o = "n_macro_order e"
  have at: "xmacro_at s' (?o ! j) = (if j = n then Some m' else xmacro_at s (?o ! j))" if "j < length ?o" for j
    using that n d by (auto simp: q update_conv' nth_eq_iff_index_eq)
  have old: "\<exists>m. xmacro_at s (?o ! j) = Some m \<and> (f m \<noteq> None \<longleftrightarrow> j < n) \<and> (\<forall>t. f m = Some t \<longrightarrow> t \<le> now)" if "j < length ?o" for j
    by (rule in_orderD(1) [OF inv that])
  have "\<exists>m. xmacro_at s' (?o ! j) = Some m \<and> (f m \<noteq> None \<longleftrightarrow> j < Suc n) \<and> (\<forall>t. f m = Some t \<longrightarrow> t \<le> now)" if "j < length ?o" for j
    using old [OF that] at [OF that] m' by (cases "j = n") auto
  moreover have "t \<le> t'"
    if ij: "i < j" "j < length ?o" and x: "xmacro_at s' (?o ! i) = Some x" "f x = Some t"
      and y: "xmacro_at s' (?o ! j) = Some y" "f y = Some t'" for i j x y t t'
  proof (cases "j \<le> n")
    case True
    have x': "xmacro_at s (?o ! i) = Some x" using at [of i] x ij True by simp
    then have le: "t \<le> now" using old [of i] ij x by auto
    show ?thesis
    proof (cases "j = n")
      case True
      then show ?thesis using at [of j] y m' le ij by simp
    next
      case False
      then show ?thesis using in_orderD(2) [OF inv ij x' _ x(2) y(2)] y(1) at [of j] ij by simp
    qed
  next
    case False
    then have "xmacro_at s (?o ! j) = Some y" using at [of j] y ij by simp
    then show ?thesis using old [of j] ij y False by auto
  qed
  ultimately show ?thesis unfolding in_order_def by blast
qed

text \<open>
  \<open>n\<close> macro-ops have been admitted and \<open>k\<close> of them retired; the reorder buffer holds the rest.  The
  last of the admitted ones may still have entries to dispatch.
\<close>

definition order_inv :: "xsai_env \<Rightarrow> int \<Rightarrow> xsai_state \<Rightarrow> bool" where
  "order_inv e now s \<longleftrightarrow> (\<exists>k n. k \<le> n \<and> n \<le> length (n_macro_order e) \<and> q_rob s = drop k (take n (n_macro_order e)) \<and>
     (n = q_next_dispatch s \<or> n = Suc (q_next_dispatch s)) \<and>
     in_order m_dispatch_tick e now s n \<and> in_order m_retire_tick e now s k)"

lemma order_inv_step:
  assumes c: "order_change e now s s'" and inv: "order_inv e now s" and d: "distinct (n_macro_order e)"
  shows "order_inv e now s'"
proof -
  let ?o = "n_macro_order e"
  obtain k n where kn: "k \<le> n" "n \<le> length ?o" "q_rob s = drop k (take n ?o)" "n = q_next_dispatch s \<or> n = Suc (q_next_dispatch s)"
      and od: "in_order m_dispatch_tick e now s n" and ret: "in_order m_retire_tick e now s k"
    using inv by (auto simp: order_inv_def)
  have put: "in_order f e now s' j" if "in_order f e now s j" "xmacro_at s i = Some m"
      "q_macros s' = AList.update i m' (q_macros s)" "f m' = f m" for f j i m m'
    by (rule in_order_same [OF _ that(1)]) (simp only: that(3) update_static [OF that(2,4)])
  show ?thesis
    using c unfolding order_change_def
  proof (elim disjE exE conjE)
    assume same: "macros_same s s'"
    then have ticks: "map_option macro_ticks (xmacro_at s' i) = map_option macro_ticks (xmacro_at s i)" for i
      by (simp add: macros_same_def)
    have "map_option m_dispatch_tick (xmacro_at s' i) = map_option m_dispatch_tick (xmacro_at s i)"
        "map_option m_retire_tick (xmacro_at s' i) = map_option m_retire_tick (xmacro_at s i)" for i
      using ticks [of i] by (cases "xmacro_at s' i"; cases "xmacro_at s i"; simp add: macro_ticks_def)+
    then have "in_order m_dispatch_tick e now s' n" "in_order m_retire_tick e now s' k"
      by (blast intro: in_order_same [OF _ od] in_order_same [OF _ ret])+
    then show ?thesis using kn same unfolding order_inv_def macros_same_def by auto
  next
    fix m t assume m: "xmacro_at s (m_id m) = Some m" "q_rob s' = q_rob s" "q_next_dispatch s' = q_next_dispatch s"
      "q_macros s' = AList.update (m_id m) (m\<lparr>m_complete_tick := Some t\<rparr>) (q_macros s)"
    have "in_order m_dispatch_tick e now s' n" "in_order m_retire_tick e now s' k"
      by (rule put [OF od m(1,4)], simp) (rule put [OF ret m(1,4)], simp)
    then show ?thesis using kn m unfolding order_inv_def by auto
  next
    fix m assume m: "next_macro e s m" "m_dispatch_tick m = None"
      "q_macros s' = AList.update (m_id m) (m\<lparr>m_dispatch_tick := Some now\<rparr>) (q_macros s)"
      "q_rob s' = q_rob s @ [m_id m]" "q_next_dispatch s' = q_next_dispatch s"
    have nx: "q_next_dispatch s < length ?o" "?o ! q_next_dispatch s = m_id m" "xmacro_at s (m_id m) = Some m"
      using m(1) by (simp_all add: next_macro_def)
    have "\<not> q_next_dispatch s < n" using in_orderD(1) [OF od nx(1)] nx(2,3) m(2) by auto
    then have n: "n = q_next_dispatch s" using kn(4) by auto
    have "in_order m_dispatch_tick e now s' (Suc n)"
      by (rule in_order_put [OF od _ _ d m(3)]) (use nx n in simp_all)
    moreover have "in_order m_retire_tick e now s' k" by (rule put [OF ret nx(3) m(3)]) simp
    moreover have "q_rob s' = drop k (take (Suc n) ?o)" using kn(1,3) nx n m(4) by (simp add: take_Suc_conv_app_nth)
    ultimately show ?thesis unfolding order_inv_def
      by (intro exI [of _ k] exI [of _ "Suc n"]) (use kn n nx m(5) in auto)
  next
    fix m assume m: "next_macro e s m" "m_dispatch_tick m \<noteq> None" "q_macros s' = q_macros s" "q_rob s' = q_rob s"
      "q_next_dispatch s' = Suc (q_next_dispatch s)"
    have nx: "q_next_dispatch s < length ?o" "?o ! q_next_dispatch s = m_id m" "xmacro_at s (m_id m) = Some m"
      using m(1) by (simp_all add: next_macro_def)
    have "q_next_dispatch s < n" using in_orderD(1) [OF od nx(1)] nx(2,3) m(2) by auto
    then have "n = q_next_dispatch s'" using kn(4) m(5) by auto
    moreover have "in_order m_dispatch_tick e now s' n" "in_order m_retire_tick e now s' k"
      using od ret m(3) by (auto intro: in_order_same)
    ultimately show ?thesis using kn m unfolding order_inv_def by auto
  next
    fix m c assume m: "xmacro_at s (m_id m) = Some m" "q_rob s = m_id m # q_rob s'" "q_next_dispatch s' = q_next_dispatch s"
      "q_macros s' = AList.update (m_id m) (m\<lparr>m_retire_tick := Some now\<rparr>) (q_macros s)"
    have k: "k < n" "k < length ?o" "?o ! k = m_id m" "q_rob s' = drop (Suc k) (take n ?o)"
    proof -
      have "k < n" using kn m(2) by (cases "k < n") auto
      then have "drop k (take n ?o) = ?o ! k # drop (Suc k) (take n ?o)"
        using kn(2) Cons_nth_drop_Suc [of k "take n ?o"] by simp
      with \<open>k < n\<close> kn(2,3) m(2) show "k < n" "k < length ?o" "?o ! k = m_id m" "q_rob s' = drop (Suc k) (take n ?o)" by auto
    qed
    have "in_order m_retire_tick e now s' (Suc k)"
      by (rule in_order_put [OF ret k(2,3) d m(4)]) simp
    moreover have "in_order m_dispatch_tick e now s' n" by (rule put [OF od m(1,4)]) simp
    ultimately show ?thesis unfolding order_inv_def
      by (intro exI [of _ "Suc k"] exI [of _ n]) (use kn k m(3) in auto)
  qed
qed

section \<open>Completion before retirement\<close>

definition retire_inv :: "xsai_state \<Rightarrow> bool" where
  "retire_inv s \<longleftrightarrow> (\<forall>i m. xmacro_at s i = Some m \<longrightarrow>
     (\<forall>c. m_complete_tick m = Some c \<longrightarrow> last_completion (q_uops s) m c) \<and>
     (\<forall>r. m_retire_tick m = Some r \<longrightarrow> (\<exists>c. m_complete_tick m = Some c \<and> c \<le> r)))"

lemma last_completion_kept:
  assumes ch: "entry_change s s'" and static: "same_static s s'" and "last_completion (q_uops s) m t" and ids: "m_uop_ids m' = m_uop_ids m"
  shows "last_completion (q_uops s') m' t"
proof -
  have kept: "\<exists>v'. xuop_at s' j = Some v' \<and> u_complete_tick v' = Some c" if at: "xuop_at s j = Some v" "u_complete_tick v = Some c" for j v c
  proof -
    obtain v' where v': "xuop_at s' j = Some v'" using same_static_uop(1) [OF static at(1)] by blast
    with entry_changeD [OF ch v'] at show ?thesis by auto
  qed
  show ?thesis using assms(3) unfolding last_completion_def ids by (meson kept)
qed

lemma last_completion_unique: "last_completion uops m t \<Longrightarrow> last_completion uops m t' \<Longrightarrow> t = t'"
  unfolding last_completion_def by (metis option.inject order.antisym)

lemma retire_inv_step:
  assumes st: "xstep e (now, s) (now', s')" and tab: "tables_ok s" and inv: "retire_inv s"
  shows "retire_inv s'"
proof -
  note static = same_static_step [OF st tab] and ch = xstep_entries [OF st]
  have ids: "m_uop_ids m' = m_uop_ids m" if at: "xmacro_at s i = Some m" "xmacro_at s' i = Some m'" for i m m'
  proof -
    obtain n where "xmacro_at s' i = Some n" "macro_static n = macro_static m" using same_static_macro(1) [OF static at(1)] by blast
    then show ?thesis using at(2) macro_static_fields(2) [of n m] by simp
  qed
  define ok :: "xsai_state \<Rightarrow> macro_op \<Rightarrow> bool" where "ok s m \<longleftrightarrow> (\<forall>c. m_complete_tick m = Some c \<longrightarrow> last_completion (q_uops s) m c) \<and>
     (\<forall>r. m_retire_tick m = Some r \<longrightarrow> (\<exists>c. m_complete_tick m = Some c \<and> c \<le> r))" for s m
  have inv: "ok s m" if "xmacro_at s i = Some m" for i m using inv that by (simp add: retire_inv_def ok_def)
  have keep: "ok s' m'" if "xmacro_at s i = Some m" "xmacro_at s' i = Some m'" "macro_ticks m' = macro_ticks m" for i m m'
    using inv [OF that(1)] that(3) last_completion_kept [OF ch static _ ids [OF that(1,2)]]
    by (auto simp: ok_def macro_ticks_def)
  have put: "ok s' x" if x: "xmacro_at s' i = Some x" and q: "q_macros s' = AList.update (m_id m) m' (q_macros s)"
      "xmacro_at s (m_id m) = Some m" "ok s' m'" for i x m m'
  proof (cases "i = m_id m")
    case False
    then have "xmacro_at s i = Some x" using x q(1) by (simp add: update_conv')
    then show ?thesis using keep x by blast
  qed (use x q in \<open>simp add: update_conv'\<close>)
  have "ok s' x" if x: "xmacro_at s' i = Some x" for i x
    using xstep_order [OF st tab] unfolding order_change_def
  proof (elim disjE exE conjE)
    assume "macros_same s s'"
    then have "map_option macro_ticks (xmacro_at s' i) = map_option macro_ticks (xmacro_at s i)" by (simp add: macros_same_def)
    with x obtain m where "xmacro_at s i = Some m" "macro_ticks x = macro_ticks m" by (cases "xmacro_at s i") auto
    then show ?thesis using keep x by blast
  next
    fix m t assume m: "xmacro_at s (m_id m) = Some m" "last_completion (q_uops s') m t"
      "q_macros s' = AList.update (m_id m) (m\<lparr>m_complete_tick := Some t\<rparr>) (q_macros s)"
    have "c = t" if "m_complete_tick m = Some c" for c
      using last_completion_kept [OF ch static _ refl] inv [OF m(1)] that m(2) last_completion_unique unfolding ok_def by blast
    then have "ok s' (m\<lparr>m_complete_tick := Some t\<rparr>)"
      using m(2) inv [OF m(1)] by (auto simp: ok_def last_completion_def)
    then show ?thesis by (rule put [OF x m(3,1)])
  next
    fix m assume m: "next_macro e s m" "q_macros s' = AList.update (m_id m) (m\<lparr>m_dispatch_tick := Some now\<rparr>) (q_macros s)"
    then have k: "xmacro_at s (m_id m) = Some m" by (simp add: next_macro_def)
    have "ok s' (m\<lparr>m_dispatch_tick := Some now\<rparr>)"
      using inv [OF k] last_completion_kept [OF ch static] by (auto simp: ok_def)
    then show ?thesis by (rule put [OF x m(2) k])
  next
    fix m assume "q_macros s' = q_macros s"
    then show ?thesis using keep [of i x x] x by simp
  next
    fix m c assume m: "xmacro_at s (m_id m) = Some m" "m_complete_tick m = Some c" "c \<le> now"
      "q_macros s' = AList.update (m_id m) (m\<lparr>m_retire_tick := Some now\<rparr>) (q_macros s)"
    have "ok s' (m\<lparr>m_retire_tick := Some now\<rparr>)"
      using inv [OF m(1)] m(2,3) last_completion_kept [OF ch static] by (auto simp: ok_def)
    then show ?thesis by (rule put [OF x m(4,1)])
  qed
  then show ?thesis by (simp add: retire_inv_def ok_def)
qed

end
