(* ===== verification/XsaiDispatchSteps.thy ===== *)
theory XsaiDispatchSteps
  imports XsaiSteps XsaiOrder
begin

text \<open>
  Dispatch as steps of the machine: what passes the blocker is admissible, what the planner returns
  leaves room in every partition it uses, and a whole cycle of dispatch is a sequence of admissions
  and single enqueues.
\<close>

section \<open>The planned partitions have room\<close>

text \<open>\<open>a\<close> assigns entries of \<open>ids\<close>, and every partition it names has room for all of them.\<close>

definition planned :: "xsai_env \<Rightarrow> xsai_state \<Rightarrow> string list \<Rightarrow> (string, string) dict \<Rightarrow> bool" where
  "planned e s ids a \<longleftrightarrow> (\<forall>i\<in>set ids. \<forall>p. map_of a i = Some p \<longrightarrow>
     (\<exists>q. map_of (np_partitions (n_profile e)) p = Some q \<and>
       counter_get (q_partition_occupancy s) p + int (length (filter (\<lambda>j. map_of a j = Some p) ids)) \<le> pa_entries q))"

lemma count_assigned:
  assumes "distinct (map fst a)" and "distinct ids"
  shows "length (filter (\<lambda>j. map_of a j = Some p) ids) \<le> count_list (map snd a) p"
proof -
  have "length (filter (\<lambda>j. map_of a j = Some p) ids) = card (set (filter (\<lambda>j. map_of a j = Some p) ids))"
    by (rule distinct_card [symmetric]) (simp add: assms(2))
  also have "\<dots> \<le> card (fst ` set (filter (\<lambda>x. snd x = p) a))"
    by (intro card_mono) (force dest: map_of_SomeD)+
  also have "\<dots> \<le> length (filter (\<lambda>x. snd x = p) a)"
    by (rule order.trans [OF card_image_le card_length]) simp
  also have "\<dots> = count_list (map snd a) p" by (induction a) auto
  finally show ?thesis .
qed

lemma plan_planned:
  assumes tab: "tables_ok s" and d: "distinct ids"
    and plan: "plan_partition_assignment e s enq True ids = Inr (Some a)"
  shows "planned e s ids a"
proof -
  obtain us where us: "qlookup s ids = Inr us"
      and a: "assign (np_partitions (n_profile e)) True (assignment_order us) (q_partition_occupancy s) enq = Some a"
    using plan by (auto simp: plan_partition_assignment_def rbind_eq_Inr_iff)
  have l: "list_all2 (\<lambda>i u. xuop_at s i = Some u) ids us" using us by (simp add: qlookup_def rmap_Inr_iff)
  have ids: "map u_id us = ids"
    using l by (induction rule: list_all2_induct) (use tables_okD(1) [OF tab] in auto)
  have "distinct us" using d unfolding ids [symmetric] by (simp add: distinct_map)
  moreover have "inj_on u_id (set us)" using d unfolding ids [symmetric] by (simp add: distinct_map)
  ultimately have "distinct (map u_id (assignment_order us))"
    unfolding assignment_order_def distinct_map by (auto intro: inj_on_subset)
  then have da: "distinct (map fst a)" using assign_sound [OF a] by simp
  have room: "\<exists>q. map_of (np_partitions (n_profile e)) p = Some q \<and>
      counter_get (q_partition_occupancy s) p + int (count_list (map snd a) p) \<le> pa_entries q" if "p \<in> set (map snd a)" for p
    using assign_sound [OF a] that unfolding assignment_fits_def by blast
  show ?thesis
    unfolding planned_def
  proof (intro ballI allI impI)
    fix i p assume "map_of a i = Some p"
    then have "p \<in> set (map snd a)" by (force dest: map_of_SomeD)
    from room [OF this] count_assigned [OF da d, of p]
    show "\<exists>q. map_of (np_partitions (n_profile e)) p = Some q \<and>
       counter_get (q_partition_occupancy s) p + int (length (filter (\<lambda>j. map_of a j = Some p) ids)) \<le> pa_entries q"
      by fastforce
  qed
qed

section \<open>Enqueuing a chunk\<close>

lemma xdispatch_uop_enqueues:
  assumes "xdispatch_uop now a i (s, c) = Inr (s', c')" and "xuop_at s i = Some u" and "u_id u = i"
  shows "enqueued_from now u (map_of a i) s s' \<and> (\<forall>p. map_of a i = Some p \<longrightarrow> map_of (q_partition_occupancy s) p \<noteq> None)"
proof (cases "map_of a i")
  case None
  then show ?thesis using assms
    by (auto simp: xdispatch_uop_def enqueued_from_def qput_uop_def Let_def rbind_eq_Inr_iff fetch_def)
next
  case (Some p)
  then obtain n where "map_of (q_partition_occupancy s) p = Some n"
    using assms by (auto simp: xdispatch_uop_def qput_uop_def Let_def rbind_eq_Inr_iff fetch_def split: option.splits)
  with Some show ?thesis using assms
    by (auto simp: xdispatch_uop_def enqueued_from_def qput_uop_def Let_def rbind_eq_Inr_iff fetch_def counter_add_known core_def qlog_def)
qed

lemma enqueue_run:
  assumes "tables_ok s" and "distinct ids" and "planned e s ids a"
    and "\<forall>i\<in>set ids. \<forall>u. xuop_at s i = Some u \<longrightarrow> u_dispatch_tick u = None \<and> xadmitted s (u_parent_id u)"
  shows "wp (\<lambda>_. True) (\<lambda>r. xsteps e (now, s) (now, fst r) \<and> q_macros (fst r) = q_macros s \<and>
     q_next_dispatch (fst r) = q_next_dispatch s) (rfold (xdispatch_uop now a) ids (s, c))"
  using assms
proof (induction ids arbitrary: s c)
  case (Cons i ids)
  show ?case
  proof (rule wpI)
    fix r assume r: "rfold (xdispatch_uop now a) (i # ids) (s, c) = Inr r"
    then obtain s1 c1 where 1: "xdispatch_uop now a i (s, c) = Inr (s1, c1)"
        and 2: "rfold (xdispatch_uop now a) ids (s1, c1) = Inr r"
      by (auto simp: rbind_eq_Inr_iff)
    obtain u where u: "xuop_at s i = Some u" using 1 by (auto simp: xdispatch_uop_def rbind_eq_Inr_iff)
    have i: "u_id u = i" using tables_okD(1) [OF Cons.prems(1) u] .
    note q = xdispatch_uop_enqueues [OF 1 u i]
    have same: "q_macros s1 = q_macros s" "q_next_dispatch s1 = q_next_dispatch s"
      using q by (simp_all add: enqueued_from_def core_def)
    have room: "counter_get (q_partition_occupancy s) p + int (length (filter (\<lambda>j. map_of a j = Some p) (i # ids))) \<le> pa_entries x"
      if "map_of a j = Some p" "j \<in> set (i # ids)" "map_of (np_partitions (n_profile e)) p = Some x" for j p x
      using Cons.prems(3) that unfolding planned_def by fastforce
    have "case map_of a i of None \<Rightarrow> True | Some p \<Rightarrow> partition_open e s p"
    proof (cases "map_of a i")
      case (Some p)
      then obtain x n where "map_of (np_partitions (n_profile e)) p = Some x" "map_of (q_partition_occupancy s) p = Some n"
        using Cons.prems(3) q unfolding planned_def by fastforce
      then show ?thesis using room [OF Some] Some by (auto simp: partition_open_def counter_get_def)
    qed simp
    then have "xstep e (now, s) (now, s1)"
      using u q Cons.prems(4) i by (intro XEnqueue [where u = u and choice = "map_of a i"]) auto
    then have st: "xsteps e (now, s) (now, s1)" by (rule r_into_rtranclp)
    have occ: "q_partition_occupancy s1 = (case map_of a i of None \<Rightarrow> q_partition_occupancy s
         | Some p \<Rightarrow> counter_add (q_partition_occupancy s) p 1)"
      and uops: "xuop_at s1 j = xuop_at s j" if "j \<noteq> i" for j
      using q that i by (auto simp: enqueued_from_def core_def)
    have "planned e s1 ids a"
      unfolding planned_def
    proof (intro ballI allI impI)
      fix j p assume j: "j \<in> set ids" "map_of a j = Some p"
      then obtain x where x: "map_of (np_partitions (n_profile e)) p = Some x"
        using Cons.prems(3) unfolding planned_def by fastforce
      have ji: "j \<noteq> i" using j Cons.prems(2) by auto
      show "\<exists>q. map_of (np_partitions (n_profile e)) p = Some q \<and>
         counter_get (q_partition_occupancy s1) p + int (length (filter (\<lambda>j. map_of a j = Some p) ids)) \<le> pa_entries q"
        using room [OF j(2) _ x] j(1) x occ [OF ji]
        by (cases "map_of a i") (auto simp: counter_get_add_if)
    qed
    moreover have "\<forall>j\<in>set ids. \<forall>u. xuop_at s1 j = Some u \<longrightarrow> u_dispatch_tick u = None \<and> xadmitted s1 (u_parent_id u)"
    proof (intro ballI allI impI)
      fix j u assume j: "j \<in> set ids" "xuop_at s1 j = Some u"
      then have "j \<noteq> i" using Cons.prems(2) by auto
      from uops [OF this] j show "u_dispatch_tick u = None \<and> xadmitted s1 (u_parent_id u)"
        using Cons.prems(4) by (simp add: xadmitted_def same)
    qed
    ultimately show "xsteps e (now, s) (now, fst r) \<and> q_macros (fst r) = q_macros s \<and> q_next_dispatch (fst r) = q_next_dispatch s"
      using wp_Inr_eqD [OF Cons.IH 2] st tables_ok_steps [OF st Cons.prems(1)] Cons.prems(2) same
      by (auto intro: rtranclp_trans)
  qed simp
qed simp

section \<open>Admission\<close>

lemma allocate_core:
  "rfold allocate_rename allocations (s, c) = Inr (s', c') \<Longrightarrow>
     core s' = core (s\<lparr>q_rename_free := take_registers allocations (q_rename_free s)\<rparr>)"
proof (induction allocations arbitrary: s c)
  case Nil
  then show ?case by (simp add: take_registers_def)
next
  case (Cons x xs)
  obtain name n where x: "x = (name, n)" by (cases x)
  obtain s1 c1 where 1: "allocate_rename x (s, c) = Inr (s1, c1)" and 2: "rfold allocate_rename xs (s1, c1) = Inr (s', c')"
    using Cons.prems by (auto simp: rbind_eq_Inr_iff)
  have "core s1 = core (s\<lparr>q_rename_free := counter_add (q_rename_free s) name (- n)\<rparr>)"
    using 1 x by (auto simp: allocate_rename_def rbind_eq_Inr_iff counter_add_known core_def)
  with Cons.IH [OF 2] x show ?case by (simp add: core_def take_registers_def)
qed

lemma take_domains_core: "fold (take_domain m) ds (s, c) = (s', c') \<Longrightarrow> core s' = core s"
proof (induction ds arbitrary: s c)
  case (Cons d ds)
  obtain s1 c1 where 1: "take_domain m d (s, c) = (s1, c1)" by (cases "take_domain m d (s, c)")
  then have "core s1 = core s" by (auto simp: take_domain_def Let_def)
  with Cons.IH [of s1 c1] Cons.prems 1 show ?case by simp
qed simp

lemma admit_from:
  assumes "admit_macro e i now (s, c) = Inr (s', c')" and "xmacro_at s i = Some m" and "m_id m = i"
  shows "admitted_from e now m s s'"
proof -
  obtain s1 c1 where 1: "core s1 = core (s\<lparr>q_macros := AList.update i (m\<lparr>m_dispatch_tick := Some now\<rparr>) (q_macros s),
       q_rob := q_rob s @ [i], q_rob_occupancy := q_rob_occupancy s + rob_entry_count m,
       q_load_occupancy := q_load_occupancy s + of_bool (m_uses_load_queue m),
       q_store_occupancy := q_store_occupancy s + of_bool (m_uses_store_queue m)\<rparr>)"
      and 2: "(if rn_enabled (np_rename (n_profile e)) then rfold allocate_rename (m_rename_allocations m) (s1, c1)
        else Inr (s1, c1)) = Inr (s', c')"
  proof -
    obtain legacy where l: "uses_legacy_vector_scheduler s m = Inr legacy"
      using assms by (auto simp: admit_macro_def rbind_eq_Inr_iff fetch_def)
    define s0 where "s0 = (qput_macro (m\<lparr>m_dispatch_tick := Some now\<rparr>) s)
      \<lparr>q_rob := q_rob s @ [i], q_rob_occupancy := q_rob_occupancy s + rob_entry_count m,
       q_vector_occupancy := q_vector_occupancy s + of_bool legacy,
       q_load_occupancy := q_load_occupancy s + of_bool (m_uses_load_queue m),
       q_store_occupancy := q_store_occupancy s + of_bool (m_uses_store_queue m)\<rparr>"
    obtain s1 c1 where d: "fold (take_domain m) (m_dispatch_domains m) (s0, c) = (s1, c1)"
      by (cases "fold (take_domain m) (m_dispatch_domains m) (s0, c)")
    show thesis
    proof (rule that)
      show "core s1 = core (s\<lparr>q_macros := AList.update i (m\<lparr>m_dispatch_tick := Some now\<rparr>) (q_macros s),
       q_rob := q_rob s @ [i], q_rob_occupancy := q_rob_occupancy s + rob_entry_count m,
       q_load_occupancy := q_load_occupancy s + of_bool (m_uses_load_queue m),
       q_store_occupancy := q_store_occupancy s + of_bool (m_uses_store_queue m)\<rparr>)"
        using take_domains_core [OF d] assms(3) by (simp add: s0_def core_def qput_macro_def)
      show "(if rn_enabled (np_rename (n_profile e)) then rfold allocate_rename (m_rename_allocations m) (s1, c1)
        else Inr (s1, c1)) = Inr (s', c')"
        using assms(1,2) l d
        by (cases "rn_enabled (np_rename (n_profile e))") (simp_all add: admit_macro_def fetch_def Let_def s0_def qput_macro_def)
    qed
  qed
  show ?thesis
  proof (cases "rn_enabled (np_rename (n_profile e))")
    case True
    then show ?thesis using allocate_core [of "m_rename_allocations m" s1 c1 s' c'] 1 2 assms(3)
      by (simp add: admitted_from_def core_def)
  next
    case False
    then show ?thesis using 1 2 assms(3) by (simp add: admitted_from_def core_def)
  qed
qed

section \<open>Blockers\<close>

lemma rename_blocker_None:
  assumes "rename_blocker e m usage s = Inr (s', None)"
  shows "s' = s \<and> (rn_enabled (np_rename (n_profile e)) \<longrightarrow> (\<forall>(name, n)\<in>set (m_rename_allocations m).
     name \<in> set (keys (q_rename_free s)) \<and> rn_guard_entries (np_rename (n_profile e)) \<le> counter_get (q_rename_free s) name - n))"
proof (cases "rn_enabled (np_rename (n_profile e)) \<and> m_rename_allocations m \<noteq> []")
  case False
  then show ?thesis using assms by (auto simp: rename_blocker_def)
next
  case True
  let ?full = "filter (\<lambda>(name, demand). counter_get (q_rename_free s) name - demand < rn_guard_entries (np_rename (n_profile e))) (m_rename_allocations m)"
  have "sort (filter (\<lambda>name. name \<notin> set (keys (q_rename_free s))) (keys (m_rename_allocations m))) = []"
    and f: "?full = []" "s' = s"
    using assms True by (auto simp: rename_blocker_def Let_def rbind_eq_Inr_iff split: if_splits list.splits)
  then have "set (filter (\<lambda>name. name \<notin> set (keys (q_rename_free s))) (keys (m_rename_allocations m))) = {}"
    by (metis set_sort set_empty)
  then have "\<forall>x\<in>set (m_rename_allocations m). fst x \<in> set (keys (q_rename_free s))" by (auto simp: keys_def)
  then show ?thesis using f by (fastforce simp: filter_empty_conv)
qed

lemma rename_blocker_core: "core s = c \<Longrightarrow> to_core2 c (rename_blocker e m usage s)"
  unfolding rename_blocker_def Let_def
  by (intro wp_ifI wp_InrI wp_skipI) (simp_all split: list.splits prod.splits)

lemma admission_blocker_None:
  assumes "admission_blocker e m domains renames s = Inr (s', None)"
  shows "s' = s \<and> admissible e s m"
proof -
  have rob: "\<not> q_rob_occupancy s + rob_entry_count m > np_rob_entries (n_profile e)"
    using assms by (auto simp: admission_blocker_def Let_def)
  then obtain full where full: "full_domain e m domains (m_dispatch_domains m) = Inr full"
    using assms by (auto simp: admission_blocker_def Let_def rbind_eq_Inr_iff)
  have "full = None" using assms rob full by (cases full) (auto simp: admission_blocker_def Let_def)
  with full assms rob obtain s1 reason where r: "rename_blocker e m renames s = Inr (s1, reason)"
    by (auto simp: admission_blocker_def Let_def rbind_eq_Inr_iff)
  have "reason = None" using assms rob full \<open>full = None\<close> r by (auto simp: admission_blocker_def Let_def split: if_splits)
  note n = rename_blocker_None [OF r [unfolded this]]
  show ?thesis
    using assms rob full \<open>full = None\<close> r \<open>reason = None\<close> n
    by (auto simp: admission_blocker_def admissible_def Let_def rbind_eq_Inr_iff split: if_splits)
qed

text \<open>A blocker that gives a reason leaves the core alone or notes a dispatch domain.\<close>

lemma admission_blocker_runs:
  assumes "xmacro_at s (m_id m) = Some m" and "tables_ok s"
  shows "wp (\<lambda>_. True) (\<lambda>r. xsteps e (now, s) (now, fst r)) (admission_blocker e m domains renames s)"
proof -
  have note_domain: "xsteps e (now, s) (now, qput_macro (m\<lparr>m_dispatch_blocker_domain := Some d\<rparr>) s)" for d
    by (rule r_into_rtranclp)
      (rule XNote [OF assms(1), where a = "m_dispatch_blocker m" and b = "m_dispatch_blocker_count m" and c = "Some d"], simp)
  show ?thesis
    unfolding admission_blocker_def Let_def
    by (intro wp_bindI [OF rename_blocker_core [OF refl]] wp_ifI wp_InrI wp_optionI wp_prodI wp_skipI)
      (auto intro: note_domain xsteps_frame)
qed

lemma xdispatch_blocker_None:
  assumes "xdispatch_blocker e m assignment domains renames admitted check pending s = Inr (s', None)"
  shows "s' = s \<and> (\<not> admitted \<longrightarrow> admissible e s m)"
proof -
  obtain s1 reason where r: "(if admitted then Inr (s, None) else admission_blocker e m domains renames s) = Inr (s1, reason)"
    using assms by (auto simp: xdispatch_blocker_def rbind_eq_Inr_iff)
  have n: "reason = None" using assms r by (auto simp: xdispatch_blocker_def split: if_splits)
  have "s' = s1" using assms r n
    by (auto simp: xdispatch_blocker_def rbind_eq_Inr_iff split: if_splits option.splits)
  then show ?thesis using r n admission_blocker_None [of e m domains renames s s1] by (auto split: if_splits)
qed

lemma xdispatch_blocker_runs:
  assumes "xmacro_at s (m_id m) = Some m" and "tables_ok s"
  shows "wp (\<lambda>_. True) (\<lambda>r. xsteps e (now, s) (now, fst r))
     (xdispatch_blocker e m assignment domains renames admitted check pending s)"
proof -
  have "wp (\<lambda>_. True) (\<lambda>r. xsteps e (now, s) (now, fst r))
      (if admitted then Inr (s, None) else admission_blocker e m domains renames s)"
    using admission_blocker_runs [OF assms] by simp
  then show ?thesis
    unfolding xdispatch_blocker_def
    by (rule wp_bindI) (intro wp_rules wp_ifI wp_InrI wp_optionI wp_prodI wp_skipI; simp)
qed

lemma record_dispatch_blocker_runs:
  assumes "tables_ok s"
  shows "xruns e now s (record_dispatch_blocker i now reason s)"
proof (rule wpI)
  fix s' assume r: "record_dispatch_blocker i now reason s = Inr s'"
  then obtain m where m: "xmacro_at s i = Some m" by (auto simp: record_dispatch_blocker_def rbind_eq_Inr_iff)
  have i: "m_id m = i" using tables_okD(2) [OF assms m] .
  obtain d where "core s' = core (qput_macro (m\<lparr>m_dispatch_blocker := Some reason,
      m_dispatch_blocker_count := m_dispatch_blocker_count m + 1, m_dispatch_blocker_domain := d\<rparr>) s)"
  proof (cases "reason = ''dispatch_domain_full''")
    case True
    then obtain d where d: "m_dispatch_blocker_domain m = Some d"
      using r m by (auto simp: record_dispatch_blocker_def fetch_def Let_def split: option.splits)
    have same: "m\<lparr>m_dispatch_blocker := x, m_dispatch_blocker_count := y, m_dispatch_blocker_domain := Some d\<rparr> =
        m\<lparr>m_dispatch_blocker := x, m_dispatch_blocker_count := y\<rparr>" for x y
      using d by (cases m) simp
    show thesis
      by (rule that [of "Some d"])
        (use r m d True in \<open>auto simp: record_dispatch_blocker_def fetch_def Let_def same core_def qput_macro_def qlog_def\<close>)
  next
    case False
    then show thesis
      using that [of None] r m
      by (auto simp: record_dispatch_blocker_def fetch_def Let_def core_def qput_macro_def qlog_def)
  qed
  then have "xstep e (now, s) (now, s')" using m i by (intro XNote [where m = m]) auto
  then show "xsteps e (now, s) (now, s')" by (rule r_into_rtranclp)
qed simp

section \<open>A cycle of dispatch\<close>

abbreviation advancing :: "xsai_env \<Rightarrow> int \<Rightarrow> xsai_state \<Rightarrow> (xsai_state \<times> 'a \<times> bool) qresult \<Rightarrow> bool" where
  "advancing e now s m \<equiv> wp (\<lambda>_. True) (\<lambda>r. xsteps e (now, s) (now, fst r) \<and>
     (snd (snd r) \<longrightarrow> q_next_dispatch (fst r) = Suc (q_next_dispatch s))) m"

abbreviation stepping :: "xsai_env \<Rightarrow> int \<Rightarrow> xsai_state \<Rightarrow> (xsai_state \<times> 'a) qresult \<Rightarrow> bool" where
  "stepping e now s m \<equiv> wp (\<lambda>_. True) (\<lambda>r. xsteps e (now, s) (now, fst r)) m"

lemma xstepsD: "xsteps e (now, s) (now, s') \<Longrightarrow> tables_ok s \<Longrightarrow> tables_ok s'"
  by (rule tables_ok_steps)

text \<open>A blocked step records its reason.\<close>

lemma blocked_runs:
  assumes "tables_ok s" and "xsteps e (now, s) (now, s1)"
  shows "advancing e now s (rbind (record_dispatch_blocker i now r s1) (\<lambda>s. Inr (s, c, False)))"
proof (rule wp_bindI [OF record_dispatch_blocker_runs])
  fix s2 assume "xsteps e (now, s1) (now, s2)"
  with assms(2) show "advancing e now s (Inr (s2, c, False))" by (auto intro: rtranclp_trans)
qed (rule tables_ok_steps [OF assms(2,1)])

lemma admit_runs:
  assumes "next_macro e s m" and "admitted = (m_dispatch_tick m \<noteq> None)"
    and "\<not> admitted \<longrightarrow> admissible e s m"
    and "(if admitted then Inr (s, c) else admit_macro e (m_id m) now (s, c)) = Inr (s', c')"
  shows "xsteps e (now, s) (now, s') \<and> q_uops s' = q_uops s \<and> q_partition_occupancy s' = q_partition_occupancy s \<and>
     xadmitted s' (m_id m) \<and> q_next_dispatch s' = q_next_dispatch s"
proof (cases admitted)
  case True
  then show ?thesis using assms by (auto simp: xadmitted_def next_macro_def)
next
  case False
  have m: "xmacro_at s (m_id m) = Some m" using assms(1) by (simp add: next_macro_def)
  have a: "admitted_from e now m s s'" using False admit_from [OF _ m refl] assms(4) by simp
  have "xstep e (now, s) (now, s')" using assms False a by (intro XAdmit [where m = m]) auto
  then show ?thesis using a by (auto simp: admitted_from_def core_def xadmitted_def update_conv')
qed

text \<open>The walk goes on past an admitted macro-op.\<close>

lemma next_step:
  assumes "tables_ok s" and "q_next_dispatch s < length (n_macro_order e)" and "xadmitted s (n_macro_order e ! q_next_dispatch s)"
    and "core s' = core (s\<lparr>q_next_dispatch := Suc (q_next_dispatch s)\<rparr>)"
  shows "xsteps e (now, s) (now, s')"
proof -
  obtain m where m: "xmacro_at s (n_macro_order e ! q_next_dispatch s) = Some m" "m_dispatch_tick m \<noteq> None"
    using assms(3) by (auto simp: xadmitted_def)
  have "next_macro e s m" using m(1) tables_okD(2) [OF assms(1) m(1)] assms(2) by (simp add: next_macro_def)
  then show ?thesis using m(2) assms(4) by (intro r_into_rtranclp XNext)
qed

lemma dispatch_chunk_runs:
  assumes tab: "tables_ok s" and nx: "next_macro e s m" and admitted: "admitted = (m_dispatch_tick m \<noteq> None)"
    and d: "distinct chunk" and p: "planned e s chunk a"
    and fresh: "\<forall>i\<in>set chunk. \<forall>u. xuop_at s i = Some u \<longrightarrow> u_dispatch_tick u = None \<and> u_parent_id u = m_id m"
  shows "advancing e now s (dispatch_chunk e now m admitted chunk a delta (s, c))"
proof (rule wpI)
  have m: "xmacro_at s (m_id m) = Some m" using nx by (simp add: next_macro_def)
  fix r assume r: "dispatch_chunk e now m admitted chunk a delta (s, c) = Inr r"
  obtain s1 reason where b: "xdispatch_blocker e m (Some a) (cy_domains c) (cy_renames c) admitted True None s = Inr (s1, reason)"
    using r by (auto simp: dispatch_chunk_def rbind_eq_Inr_iff)
  have st1: "xsteps e (now, s) (now, s1)" using wp_Inr_eqD [OF xdispatch_blocker_runs [OF m tab] b] by simp
  show "xsteps e (now, s) (now, fst r) \<and> (snd (snd r) \<longrightarrow> q_next_dispatch (fst r) = Suc (q_next_dispatch s))"
  proof (cases reason)
    case (Some x)
    then have "rbind (record_dispatch_blocker (m_id m) now x s1) (\<lambda>s. Inr (s, c, False)) = Inr r"
      using r b by (simp add: dispatch_chunk_def)
    from wp_Inr_eqD [OF blocked_runs [OF tab st1] this] show ?thesis .
  next
    case None
    note n = xdispatch_blocker_None [OF b [unfolded None]]
    have s1: "s1 = s" using n by simp
    obtain s2 c2 s3 c3 where
        2: "(if admitted then Inr (s, c) else admit_macro e (m_id m) now (s, c)) = Inr (s2, c2)" and
        3: "rfold (xdispatch_uop now a) chunk (account (m_id m) delta (s2, c2)) = Inr (s3, c3)" and
        4: "core (fst r) = core s3 \<and> \<not> snd (snd r) \<or> core (fst r) = core (s3\<lparr>q_next_dispatch := Suc (q_next_dispatch s3)\<rparr>)"
      using r b None s1 by (auto simp: dispatch_chunk_def rbind_eq_Inr_iff split: if_splits)
    have ad: "xsteps e (now, s) (now, s2)" "q_uops s2 = q_uops s" "q_partition_occupancy s2 = q_partition_occupancy s"
        "xadmitted s2 (m_id m)" "q_next_dispatch s2 = q_next_dispatch s"
      using admit_runs [OF nx admitted _ 2] n by auto
    obtain s2' c2' where acc: "account (m_id m) delta (s2, c2) = (s2', c2')" and c2': "core s2' = core s2"
      by (simp add: account_def)
    have st2: "xsteps e (now, s) (now, s2')" using ad(1) xsteps_frame [OF c2'] by (rule rtranclp_trans)
    have adm: "xadmitted s2' (m_id m)" using ad(4) coreD(2) [OF c2'] by (simp add: xadmitted_def)
    have "planned e s2' chunk a" using p coreD(7) [OF c2'] ad(3) by (simp add: planned_def)
    moreover have "\<forall>i\<in>set chunk. \<forall>u. xuop_at s2' i = Some u \<longrightarrow> u_dispatch_tick u = None \<and> xadmitted s2' (u_parent_id u)"
      using fresh coreD(1) [OF c2'] ad(2) adm by simp
    ultimately have 5: "xsteps e (now, s2') (now, s3)" "q_macros s3 = q_macros s2'" "q_next_dispatch s3 = q_next_dispatch s2'"
      using wp_Inr_eqD [OF enqueue_run [OF tables_ok_steps [OF st2 tab] d] 3 [unfolded acc]] by simp_all
    from st2 5(1) have st3: "xsteps e (now, s) (now, s3)" by (rule rtranclp_trans)
    have q: "q_next_dispatch s3 = q_next_dispatch s" using 5(3) ad(5) coreD(6) [OF c2'] by simp
    have "xsteps e (now, s3) (now, fst r)" if "core (fst r) = core (s3\<lparr>q_next_dispatch := Suc (q_next_dispatch s3)\<rparr>)"
      by (rule next_step [OF tables_ok_steps [OF st3 tab] _ _ that])
        (use nx q adm 5(2) in \<open>simp_all add: next_macro_def xadmitted_def\<close>)
    then have "xsteps e (now, s3) (now, fst r)" using 4 xsteps_frame by blast
    moreover have "snd (snd r) \<longrightarrow> q_next_dispatch (fst r) = Suc (q_next_dispatch s)"
      using 4 coreD(6) [of "fst r"] q by fastforce
    ultimately show ?thesis using st3 by (auto intro: rtranclp_trans)
  qed
qed simp

lemma dispatch_partial_runs:
  assumes tab: "tables_ok s" and nx: "next_macro e s m" and admitted: "admitted = (m_dispatch_tick m \<noteq> None)"
  shows "advancing e now s (dispatch_partial e now m admitted pending delta limited (s, c))"
proof (rule wpI)
  have m: "xmacro_at s (m_id m) = Some m" using nx by (simp add: next_macro_def)
  fix r assume r: "dispatch_partial e now m admitted pending delta limited (s, c) = Inr r"
  let ?b = "if limited then xdispatch_blocker e m (Some []) (cy_domains c) (cy_renames c) admitted False None s
          else xdispatch_blocker e m None (cy_domains c) (cy_renames c) admitted True (Some pending) s"
  obtain s1 reason where b: "?b = Inr (s1, reason)"
    using r by (auto simp: dispatch_partial_def rbind_eq_Inr_iff)
  have "stepping e now s ?b" using xdispatch_blocker_runs [OF m tab] by simp
  from wp_Inr_eqD [OF this b] have st1: "xsteps e (now, s) (now, s1)" by simp
  show "xsteps e (now, s) (now, fst r) \<and> (snd (snd r) \<longrightarrow> q_next_dispatch (fst r) = Suc (q_next_dispatch s))"
  proof (cases reason)
    case (Some x)
    then have "rbind (record_dispatch_blocker (m_id m) now x s1) (\<lambda>s. Inr (s, c, False)) = Inr r"
      using r b by (simp add: dispatch_partial_def split: if_splits)
    from wp_Inr_eqD [OF blocked_runs [OF tab st1] this] show ?thesis .
  next
    case None
    have n: "s1 = s \<and> (\<not> admitted \<longrightarrow> admissible e s m)"
      using b None xdispatch_blocker_None [of e m _ "cy_domains c" "cy_renames c" admitted _ _ s s1] by (auto split: if_splits)
    show ?thesis
    proof (cases limited)
      case False
      then show ?thesis using r b None st1 by (auto simp: dispatch_partial_def)
    next
      case True
      obtain s2 c2 where 2: "(if admitted then Inr (s, c) else admit_macro e (m_id m) now (s, c)) = Inr (s2, c2)"
          and 3: "core (fst r) = core s2" "\<not> snd (snd r)"
        using r b None n True by (auto simp: dispatch_partial_def rbind_eq_Inr_iff account_def)
      have "xsteps e (now, s) (now, s2)" using admit_runs [OF nx admitted _ 2] n by simp
      then have "xsteps e (now, s) (now, fst r)" using xsteps_frame [OF 3(1)] by (rule rtranclp_trans)
      then show ?thesis using 3(2) by simp
    qed
  qed
qed simp

lemma chunk_from_planned:
  "chunk_from e s enq costs pending partial budget n = Inr (Some (ids, a, d)) \<Longrightarrow>
     \<exists>k. ids = take k pending \<and> plan_partition_assignment e s enq True ids = Inr (Some a)"
  by (induction n) (auto simp: Let_def rbind_eq_Inr_iff split: if_splits option.splits)

lemma dispatch_step_runs:
  assumes tab: "tables_ok s" and nx: "next_macro e s m" and ok: "admitted_ok s"
  shows "advancing e now s (dispatch_step e now m (s, c))"
proof (rule wpI)
  have m: "xmacro_at s (m_id m) = Some m" using nx by (simp add: next_macro_def)
  fix r assume r: "dispatch_step e now m (s, c) = Inr r"
  obtain us where us: "qlookup s (m_uop_ids m) = Inr us" using r by (auto simp: dispatch_step_def rbind_eq_Inr_iff)
  define pending where "pending = map fst (filter (\<lambda>(i, u). u_dispatch_tick u = None) (zip (m_uop_ids m) us))"
  have l: "list_all2 (\<lambda>i u. xuop_at s i = Some u) (m_uop_ids m) us" using us by (simp add: qlookup_def rmap_Inr_iff)
  have dp: "distinct pending"
  proof -
    have "distinct (map fst (zip (m_uop_ids m) us))"
      using tables_okD(3) [OF tab m] l by (simp add: list_all2_lengthD)
    then show ?thesis unfolding pending_def by (rule distinct_map_filter)
  qed
  have fresh: "u_dispatch_tick u = None \<and> u_parent_id u = m_id m" if "i \<in> set pending" "xuop_at s i = Some u" for i u
  proof -
    have "i \<in> set (m_uop_ids m)" using that(1) unfolding pending_def by (auto dest: set_zip_leftD)
    moreover have "u_dispatch_tick u = None" using that l unfolding pending_def by (auto simp: list_all2_iff)
    ultimately show ?thesis using tables_okD(5) [OF tab m] that(2) by fastforce
  qed
  have chunk: "advancing e now s (dispatch_chunk e now m (m_dispatch_tick m \<noteq> None) ids a d (s, c))"
    if "ids = take k pending" "plan_partition_assignment e s enq True ids = Inr (Some a)" for ids a d k enq
  proof (rule dispatch_chunk_runs [OF tab nx refl])
    show d: "distinct ids" using dp that(1) by simp
    show "planned e s ids a" by (rule plan_planned [OF tab d that(2)])
    show "\<forall>i\<in>set ids. \<forall>u. xuop_at s i = Some u \<longrightarrow> u_dispatch_tick u = None \<and> u_parent_id u = m_id m"
      using fresh that(1) set_take_subset [of k pending] by blast
  qed
  let ?units = "dispatch_width_units m"
  define remaining where "remaining = np_dispatch_width (n_profile e) - cy_dispatched c"
  define progress where "progress = counter_get (q_unit_progress s) (m_id m)"
  let ?fresh = "\<not> m_dispatch_tick m \<noteq> None \<and> progress = 0"
  have eq: "(if pending = [] then Inr (s\<lparr>q_next_dispatch := Suc (q_next_dispatch s)\<rparr>, c, True)
     else if ?fresh \<and> ?units \<le> np_dispatch_width (n_profile e) \<and> ?units > remaining then Inr (s, c, False)
     else rbind (if ?fresh \<and> ?units \<le> remaining then plan_partition_assignment e s (cy_enqueues c) True pending else Inr None)
        (\<lambda>atomic. case atomic of Some a \<Rightarrow> dispatch_chunk e now m (m_dispatch_tick m \<noteq> None) pending a ?units (s, c)
          | None \<Rightarrow>
              rbind (select_dispatch_chunk e s m pending (cy_enqueues c) remaining progress) (\<lambda>(chunk, delta, limited).
              case chunk of Some (ids, a, d) \<Rightarrow> dispatch_chunk e now m (m_dispatch_tick m \<noteq> None) ids a d (s, c)
              | None \<Rightarrow> dispatch_partial e now m (m_dispatch_tick m \<noteq> None) pending delta limited (s, c)))) = Inr r"
    using r unfolding dispatch_step_def prod.case us rbind_simps Let_def pending_def remaining_def progress_def .
  show "xsteps e (now, s) (now, fst r) \<and> (snd (snd r) \<longrightarrow> q_next_dispatch (fst r) = Suc (q_next_dispatch s))"
  proof (cases "pending = []")
    case True
    have "us \<noteq> []" using tables_okD(4) [OF tab m] list_all2_lengthD [OF l] by auto
    then have first: "xuop_at s (m_uop_ids m ! 0) = Some (us ! 0)" "m_uop_ids m ! 0 \<in> set (m_uop_ids m)"
        "(m_uop_ids m ! 0, us ! 0) \<in> set (zip (m_uop_ids m) us)"
      using list_all2_nthD2 [OF l, of 0] list_all2_lengthD [OF l] by (auto simp: in_set_zip intro!: exI [of _ 0])
    then have "u_dispatch_tick (us ! 0) \<noteq> None" "u_parent_id (us ! 0) = m_id m"
      using True tables_okD(5) [OF tab m first(2)] by (auto simp: pending_def filter_empty_conv)
    then have "xadmitted s (m_id m)" using ok first(1) unfolding admitted_ok_def by metis
    moreover have "fst r = s\<lparr>q_next_dispatch := Suc (q_next_dispatch s)\<rparr>" using eq True by auto
    ultimately show ?thesis using next_step [OF tab] nx by (auto simp: next_macro_def)
  next
    case False
    note eq1 = eq [unfolded if_not_P [OF False]]
    show ?thesis
    proof (cases "?fresh \<and> ?units \<le> np_dispatch_width (n_profile e) \<and> ?units > remaining")
      case True
      then show ?thesis using eq1 unfolding if_P [OF True] by auto
    next
      case wide: False
      obtain atomic where
          at: "(if ?fresh \<and> ?units \<le> remaining then plan_partition_assignment e s (cy_enqueues c) True pending else Inr None) = Inr atomic" and
          rest: "(case atomic of Some a \<Rightarrow> dispatch_chunk e now m (m_dispatch_tick m \<noteq> None) pending a ?units (s, c)
          | None \<Rightarrow>
              rbind (select_dispatch_chunk e s m pending (cy_enqueues c) remaining progress) (\<lambda>(chunk, delta, limited).
              case chunk of Some (ids, a, d) \<Rightarrow> dispatch_chunk e now m (m_dispatch_tick m \<noteq> None) ids a d (s, c)
              | None \<Rightarrow> dispatch_partial e now m (m_dispatch_tick m \<noteq> None) pending delta limited (s, c))) = Inr r"
        using eq1 unfolding if_not_P [OF wide] rbind_eq_Inr_iff by blast
      show ?thesis
      proof (cases atomic)
        case (Some a)
        then have "plan_partition_assignment e s (cy_enqueues c) True pending = Inr (Some a)" using at by (auto split: if_splits)
        then have "advancing e now s (dispatch_chunk e now m (m_dispatch_tick m \<noteq> None) pending a ?units (s, c))"
          by (intro chunk [of _ "length pending"]) simp_all
        from wp_Inr_eqD [OF this] show ?thesis using rest Some by simp
      next
        case None
        then obtain picked delta limited where
            sel: "select_dispatch_chunk e s m pending (cy_enqueues c) remaining progress = Inr (picked, delta, limited)" and
            go: "(case picked of Some (ids, a, d) \<Rightarrow> dispatch_chunk e now m (m_dispatch_tick m \<noteq> None) ids a d (s, c)
              | None \<Rightarrow> dispatch_partial e now m (m_dispatch_tick m \<noteq> None) pending delta limited (s, c)) = Inr r"
          using rest by (auto simp: rbind_eq_Inr_iff)
        show ?thesis
        proof (cases picked)
          case None
          then show ?thesis using wp_Inr_eqD [OF dispatch_partial_runs [OF tab nx refl]] go by simp
        next
          case (Some x)
          obtain ids a d where x: "x = (ids, a, d)" by (cases x)
          obtain costs partial n where "chunk_from e s (cy_enqueues c) costs pending partial remaining n = Inr (Some (ids, a, d))"
            using sel Some x by (auto simp: select_dispatch_chunk_def Let_def rbind_eq_Inr_iff split: option.splits list.splits if_splits)
          from chunk_from_planned [OF this] obtain k where "ids = take k pending"
              "plan_partition_assignment e s (cy_enqueues c) True ids = Inr (Some a)" by blast
          from wp_Inr_eqD [OF chunk [OF this]] go Some x show ?thesis by simp
        qed
      qed
    qed
  qed
qed simp

lemma xdispatch_loop_runs:
  assumes "tables_ok s" and "admitted_ok s" and "ids = drop (q_next_dispatch s) (n_macro_order e)"
  shows "xruns e now s (xdispatch_loop e now ids (s, c))"
  using assms
proof (induction ids arbitrary: s c)
  case (Cons i ids)
  show ?case
  proof (rule wpI)
    fix s' assume r: "xdispatch_loop e now (i # ids) (s, c) = Inr s'"
    show "xsteps e (now, s) (now, s')"
    proof (cases "cy_dispatched c < np_dispatch_width (n_profile e)")
      case False
      then show ?thesis using r by simp
    next
      case True
      then obtain m s1 c1 go_on where m: "xmacro_at s i = Some m"
          and st: "dispatch_step e now m (s, c) = Inr (s1, c1, go_on)"
          and rest: "(if go_on then xdispatch_loop e now ids (s1, c1) else Inr s1) = Inr s'"
        using r by (auto simp: rbind_eq_Inr_iff)
      have len: "q_next_dispatch s < length (n_macro_order e)" using Cons.prems(3) by (metis drop_all list.distinct(1) not_le)
      have "n_macro_order e ! q_next_dispatch s # drop (Suc (q_next_dispatch s)) (n_macro_order e) = i # ids"
        unfolding Cons.prems(3) by (rule Cons_nth_drop_Suc [OF len])
      then have i: "n_macro_order e ! q_next_dispatch s = i" "drop (Suc (q_next_dispatch s)) (n_macro_order e) = ids"
        by simp_all
      have "next_macro e s m" using m tables_okD(2) [OF Cons.prems(1) m] len i by (simp add: next_macro_def)
      from wp_Inr_eqD [OF dispatch_step_runs [OF Cons.prems(1) this Cons.prems(2)] st]
      have st1: "xsteps e (now, s) (now, s1)" "go_on \<Longrightarrow> q_next_dispatch s1 = Suc (q_next_dispatch s)" by simp_all
      have "xsteps e (now, s1) (now, s')"
      proof (cases go_on)
        case True
        have "ids = drop (q_next_dispatch s1) (n_macro_order e)" using st1(2) True i by simp
        from wp_Inr_eqD [OF Cons.IH [OF tables_ok_steps [OF st1(1) Cons.prems(1)]
            admitted_ok_steps [OF st1(1) Cons.prems(1,2)] this]] rest True show ?thesis by simp
      qed (use rest in simp)
      with st1(1) show ?thesis by (rule rtranclp_trans)
    qed
  qed simp
qed simp

section \<open>A pass of the loop and the run\<close>

lemma xdispatch_run: "tables_ok s \<Longrightarrow> admitted_ok s \<Longrightarrow> xruns e now s (xdispatch e now s)"
  unfolding xdispatch_def by (rule xdispatch_loop_runs) simp_all

lemma xrun_phases_runs:
  assumes tab: "tables_ok s" and ok: "admitted_ok s" and r: "xrun_phases e now s = Inr s'"
  shows "xsteps e (now, s) (now, s')"
proof -
  obtain s1 b1 where 1: "xcomplete e now s = Inr (s1, b1)" using r by (auto simp: xrun_phases_def rbind_eq_Inr_iff)
  then obtain s2 where 2: "release_vector_memory_flows now s1 = Inr s2" using r by (auto simp: xrun_phases_def rbind_eq_Inr_iff)
  then obtain s3 where 3: "release_rename e now s2 = Inr s3" using r 1 by (auto simp: xrun_phases_def rbind_eq_Inr_iff)
  obtain s4 s5 s6 b6 s7 where
      4: "(if now mod n_tpc e = 0 then xdispatch e now s3 else Inr s3) = Inr s4" and
      5: "xissue_fixed_point e now s4 = Inr s5" and 6: "xcomplete e now s5 = Inr (s6, b6)" and
      7: "(if now mod n_tpc e = 0 then xretire e now s6 else Inr s6) = Inr s7" and 8: "xrecord_peaks e s7 = Inr s'"
    using r 1 2 3 by (auto simp: xrun_phases_def rbind_eq_Inr_iff Let_def split: if_splits)
  have a1: "xsteps e (now, s) (now, s1)" using wp_Inr_eqD [OF xcomplete_run [OF tab] 1] by simp
  have c2: "core s2 = core s1" using 2 wp_Inr_eqD [OF release_flows_run [OF refl]] by (auto simp: release_vector_memory_flows_def)
  have a2: "xsteps e (now, s) (now, s2)" using a1 xsteps_frame [OF c2] by (rule rtranclp_trans)
  have a3: "xsteps e (now, s) (now, s3)" using a2 wp_Inr_eqD [OF release_rename_run 3] by (rule rtranclp_trans)
  note t3 = tables_ok_steps [OF a3 tab]
  have "xsteps e (now, s3) (now, s4)"
    using 4 wp_Inr_eqD [OF xdispatch_run [OF t3 admitted_ok_steps [OF a3 tab ok]]] by (auto split: if_splits)
  with a3 have a4: "xsteps e (now, s) (now, s4)" by (rule rtranclp_trans)
  have a5: "xsteps e (now, s) (now, s5)"
    using a4 xissue_fixed_point_run [OF tables_ok_steps [OF a4 tab] 5] by (rule rtranclp_trans)
  have "xsteps e (now, s5) (now, s6)" using wp_Inr_eqD [OF xcomplete_run [OF tables_ok_steps [OF a5 tab]] 6] by simp
  with a5 have a6: "xsteps e (now, s) (now, s6)" by (rule rtranclp_trans)
  have "xsteps e (now, s6) (now, s7)"
    using 7 wp_Inr_eqD [OF xretire_run [OF tables_ok_steps [OF a6 tab]]] by (auto split: if_splits)
  with a6 have a7: "xsteps e (now, s) (now, s7)" by (rule rtranclp_trans)
  then show ?thesis using xsteps_frame [OF wp_Inr_eqD [OF xrecord_peaks_core 8]] by (rule rtranclp_trans)
qed

lemma xrun_loop_runs:
  assumes "tables_ok s" and "admitted_ok s" and "xrun_loop e fuel now s = Inr (s', final)"
  shows "xsteps e (now, s) (final, s') \<and> xfinished e s'"
  using assms
proof (induction fuel arbitrary: now s)
  case 0
  then show ?case by (subst (asm) xrun_loop.simps) (auto split: if_splits)
next
  case (Suc fuel)
  show ?case
  proof (cases "xfinished e s")
    case True
    then show ?thesis using Suc.prems(3) by (subst (asm) xrun_loop.simps) auto
  next
    case False
    then obtain s1 where 1: "xrun_phases e now s = Inr s1"
        and 2: "(if xfinished e s1 then Inr (s1, now)
            else rbind (xnext_event_tick e now s1) (\<lambda>(s2, next_tick).
              if next_tick \<le> now then Inl (XNoForwardProgress now)
              else xrun_loop e fuel next_tick s2)) = Inr (s', final)"
      using Suc.prems(3) by (subst (asm) xrun_loop.simps) (auto simp: rbind_eq_Inr_iff)
    note a1 = xrun_phases_runs [OF Suc.prems(1,2) 1]
    show ?thesis
    proof (cases "xfinished e s1")
      case True
      then show ?thesis using a1 2 by auto
    next
      case False
      then obtain s2 t where 3: "xnext_event_tick e now s1 = Inr (s2, t)" "now < t"
          and 4: "xrun_loop e fuel t s2 = Inr (s', final)"
        using 2 by (auto simp: rbind_eq_Inr_iff split: if_splits)
      have "core s2 = core s1" using wp_Inr_eqD [OF xnext_event_core 3(1)] by simp
      with a1 have "xsteps e (now, s) (now, s2)" by (rule rtranclp_trans [OF _ xsteps_frame])
      also have "xsteps e (now, s2) (t, s2)" using 3(2) by (intro r_into_rtranclp XAdvance)
      finally have a2: "xsteps e (now, s) (t, s2)" .
      from Suc.IH [OF tables_ok_steps [OF a2 Suc.prems(1)] admitted_ok_steps [OF a2 Suc.prems(1,2)] 4] a2 show ?thesis by (auto intro: rtranclp_trans)
    qed
  qed
qed

end
