(* ===== verification/XsaiInvariants.thy ===== *)
theory XsaiInvariants
  imports XsaiMachine
begin

text \<open>
  What every step of the XSAI machine keeps: the token books of the read and completion domains stay
  within their capacities, the queue counters are sums over the reorder buffer, rename registers are
  neither created nor lost, every scheduler partition counts the entries that wait in it, and issued
  entries respect their dependencies.
\<close>

section \<open>Token books\<close>

definition books_ok :: "(string, int) dict \<Rightarrow> (string, (int, int) dict) dict \<Rightarrow> bool" where
  "books_ok capacities r \<longleftrightarrow> (\<forall>d used. map_of r d = Some used \<longrightarrow>
     (\<forall>cycle. counter_get used cycle \<le> max 0 (counter_get capacities d)))"

lemma books_ok_booked:
  assumes "books_ok capacities r" and "booked capacities r domain r'"
  shows "books_ok capacities r'"
proof (cases domain)
  case None
  then show ?thesis using assms by (simp add: booked_def)
next
  case (Some d)
  then obtain used capacity cycle where b: "map_of r d = Some used" "map_of capacities d = Some capacity"
      "counter_get used cycle < capacity" "r' = AList.update d (counter_add used cycle 1) r"
    using assms(2) by (auto simp: booked_def)
  have cap: "counter_get capacities d = capacity" using b(2) by (simp add: counter_get_def)
  show ?thesis
    unfolding books_ok_def
  proof (intro allI impI)
    fix x v y assume v: "map_of r' x = Some v"
    have old: "counter_get used y \<le> max 0 (counter_get capacities d)"
      using assms(1) b(1) by (auto simp: books_ok_def)
    show "counter_get v y \<le> max 0 (counter_get capacities x)"
    proof (cases "x = d")
      case True
      then have "v = counter_add used cycle 1" using v b(4) by (simp add: update_conv')
      then show ?thesis using True old b(3) cap by (auto simp: counter_get_add_if)
    next
      case False
      then have "map_of r x = Some v" using v b(4) by (simp add: update_conv')
      then show ?thesis using assms(1) by (simp add: books_ok_def)
    qed
  qed
qed

definition token_inv :: "xsai_env \<Rightarrow> xsai_state \<Rightarrow> bool" where
  "token_inv e s \<longleftrightarrow> books_ok (n_read_capacity e) (q_read_reservations s) \<and>
     books_ok (n_completion_capacity e) (q_completion_reservations s)"

text \<open>Only issue touches the books.\<close>

lemma xstep_books:
  assumes "xstep e (now, s) (now', s')"
  shows "(q_read_reservations s' = q_read_reservations s \<and> q_completion_reservations s' = q_completion_reservations s) \<or>
     (\<exists>u. issued_from e u now s s')"
  using assms
proof (elim xstepE, goal_cases)
  case 1
  show ?case using coreD(8,9) [OF 1(2)] by simp
next
  case (2 u a b)
  show ?case using coreD(8,9) [OF 2(3)] by (simp add: qput_uop_def)
next
  case (3 m a b c)
  show ?case using coreD(8,9) [OF 3(3)] by (simp add: qput_macro_def)
next
  case (4 t q i rest u)
  show ?case using coreD(8,9) [OF 4(4)] by simp
next
  case (5 t q u rest)
  show ?case using 5(6) by (auto simp: completed_from_def core_def)
next
  case (6 u)
  then show ?case by blast
next
  case (7 m)
  show ?case using coreD(8,9) [OF 7(5) [unfolded admitted_from_def]] by simp
next
  case (8 u choice)
  show ?case using coreD(8,9) [OF 8(6) [unfolded enqueued_from_def]] by simp
next
  case (9 m y)
  show ?case using coreD(8,9) [OF 9(3)] by simp
next
  case (10 m rest c)
  show ?case using coreD(8,9) [OF 10(6)] by (simp add: step_effects)
next
  case (11 t q allocations rest remaining s1 remaining' leftover)
  then obtain free where "core s1 = core (s\<lparr>q_rename_pending := rest, q_rename_free := free\<rparr>)" using return_entries_core [OF 11(5)] by auto
  from coreD(8,9) [OF this] coreD(8,9) [OF 11(6)] show ?case by simp
next
  case 12
  then show ?case by simp
qed

lemma token_inv_step: "xstep e (now, s) (now', s') \<Longrightarrow> token_inv e s \<Longrightarrow> token_inv e s'"
  using xstep_books books_ok_booked unfolding token_inv_def by (metis issued_fromE)

section \<open>Sums over the reorder buffer\<close>

definition xrob_sum :: "xsai_state \<Rightarrow> (macro_op \<Rightarrow> int) \<Rightarrow> int" where
  "xrob_sum s f = sum_list (map (\<lambda>i. case xmacro_at s i of None \<Rightarrow> 0 | Some m \<Rightarrow> f m) (q_rob s))"

definition held :: "string \<Rightarrow> (string \<times> int) list \<Rightarrow> int" where
  "held name allocations = sum_list (map snd (filter (\<lambda>(k, _). k = name) allocations))"

definition pending_held :: "xsai_state \<Rightarrow> string \<Rightarrow> int" where
  "pending_held s name = sum_list (map (\<lambda>(_, _, allocations). held name allocations) (q_rename_pending s))"

text \<open>A view of a macro-op that only its static fields determine.\<close>

definition static_view :: "(macro_op \<Rightarrow> 'a) \<Rightarrow> bool" where
  "static_view f \<longleftrightarrow> (\<forall>m. f (macro_static m) = f m)"

lemma static_viewD: "static_view f \<Longrightarrow> macro_static m = macro_static n \<Longrightarrow> f m = f n"
  unfolding static_view_def by metis

lemma static_views [simp]:
  "static_view rob_entry_count" "static_view (\<lambda>m. of_bool (m_uses_load_queue m) :: int)"
  "static_view (\<lambda>m. of_bool (m_uses_store_queue m) :: int)" "static_view (\<lambda>m. held name (m_rename_allocations m))"
  by (simp_all add: static_view_def macro_static_def rob_entry_count_def split: option.splits)

lemma view_at:
  assumes "same_static s s'" and "static_view f"
  shows "(case xmacro_at s' i of None \<Rightarrow> z | Some m \<Rightarrow> f m) = (case xmacro_at s i of None \<Rightarrow> z | Some m \<Rightarrow> f m)"
proof -
  have "map_option macro_static (xmacro_at s' i) = map_option macro_static (xmacro_at s i)"
    using assms(1) by (simp add: same_static_def)
  then show ?thesis
    by (cases "xmacro_at s' i"; cases "xmacro_at s i") (auto dest: static_viewD [OF assms(2)])
qed

lemma xrob_sum_static:
  assumes "same_static s s'" and "static_view f"
  shows "xrob_sum s' f = sum_list (map (\<lambda>i. case xmacro_at s i of None \<Rightarrow> 0 | Some m \<Rightarrow> f m) (q_rob s'))"
  unfolding xrob_sum_def using view_at [OF assms] by simp

text \<open>How a step changes the reorder buffer, the counters and the free lists.\<close>

definition retired_pending :: "xsai_env \<Rightarrow> int \<Rightarrow> macro_op \<Rightarrow> (int \<times> int \<times> (string \<times> int) list) list
    \<Rightarrow> (int \<times> int \<times> (string \<times> int) list) list" where
  "retired_pending e now m h =
     (let rn = np_rename (n_profile e) in
      if rn_enabled rn \<and> m_rename_allocations m \<noteq> []
      then push_release (now + rn_release_delay_ticks rn + rn_availability_delay_ticks rn, m_sequence m, m_rename_allocations m) h
      else h)"

definition rename_same :: "xsai_state \<Rightarrow> xsai_state \<Rightarrow> bool" where
  "rename_same s s' \<longleftrightarrow> q_rename_free s' = q_rename_free s \<and> q_rename_pending s' = q_rename_pending s"

definition queues_same :: "xsai_state \<Rightarrow> xsai_state \<Rightarrow> bool" where
  "queues_same s s' \<longleftrightarrow> q_rob s' = q_rob s \<and> q_rob_occupancy s' = q_rob_occupancy s \<and>
     q_load_occupancy s' = q_load_occupancy s \<and> q_store_occupancy s' = q_store_occupancy s"

definition queue_change :: "xsai_env \<Rightarrow> int \<Rightarrow> xsai_state \<Rightarrow> xsai_state \<Rightarrow> bool" where
  "queue_change e now s s' \<longleftrightarrow>
     (queues_same s s' \<and> rename_same s s') \<or>
     (\<exists>m. xmacro_at s (m_id m) = Some m \<and> admissible e s m \<and> q_rob s' = q_rob s @ [m_id m] \<and>
        q_rob_occupancy s' = q_rob_occupancy s + rob_entry_count m \<and>
        q_load_occupancy s' = q_load_occupancy s + of_bool (m_uses_load_queue m) \<and>
        q_store_occupancy s' = q_store_occupancy s + of_bool (m_uses_store_queue m) \<and>
        q_rename_free s' = (if rn_enabled (np_rename (n_profile e)) then take_registers (m_rename_allocations m) (q_rename_free s)
          else q_rename_free s) \<and> q_rename_pending s' = q_rename_pending s) \<or>
     (\<exists>m rest. xmacro_at s (m_id m) = Some m \<and> q_rob s = m_id m # rest \<and> q_rob s' = rest \<and>
        q_rob_occupancy s' = q_rob_occupancy s - rob_entry_count m \<and>
        q_load_occupancy s' = q_load_occupancy s - of_bool (m_uses_load_queue m) \<and>
        q_store_occupancy s' = q_store_occupancy s - of_bool (m_uses_store_queue m) \<and>
        q_rename_free s' = q_rename_free s \<and> q_rename_pending s' = retired_pending e now m (q_rename_pending s)) \<or>
     (\<exists>t q allocations rest remaining s1 remaining' leftover. queues_same s s' \<and>
        q_rename_pending s = (t, q, allocations) # rest \<and> 0 < remaining \<and>
        rfold return_entry allocations (s\<lparr>q_rename_pending := rest\<rparr>, remaining, []) = Inr (s1, remaining', leftover) \<and>
        q_rename_free s' = q_rename_free s1 \<and>
        q_rename_pending s' = (if leftover \<noteq> [] then push_release (t, q, leftover) rest else rest))"

lemma queue_change_same: "core s' = core t \<Longrightarrow> queues_same s t \<Longrightarrow> rename_same s t \<Longrightarrow> queue_change e now s s'"
  by (simp add: queue_change_def queues_same_def rename_same_def core_def)

lemma xstep_queues:
  assumes "xstep e (now, s) (now', s')"
  shows "queue_change e now s s'"
  using assms
proof (elim xstepE, goal_cases)
  case 1
  show ?case by (rule queue_change_same [OF 1(2)]) (simp_all add: queues_same_def rename_same_def)
next
  case (2 u a b)
  show ?case by (rule queue_change_same [OF 2(3)]) (simp_all add: queues_same_def rename_same_def qput_uop_def)
next
  case (3 m a b c)
  show ?case by (rule queue_change_same [OF 3(3)]) (simp_all add: queues_same_def rename_same_def qput_macro_def)
next
  case (4 t q i rest u)
  show ?case by (rule queue_change_same [OF 4(4)]) (simp_all add: queues_same_def rename_same_def)
next
  case (5 t q u rest)
  then obtain macros where "core s' = core (s\<lparr>q_heap := rest, q_uops := AList.update (u_id u) (u\<lparr>u_complete_tick := Some t\<rparr>) (q_uops s),
      q_macros := macros\<rparr>)"
    by (auto simp: completed_from_def core_def)
  then show ?case by (rule queue_change_same) (simp_all add: queues_same_def rename_same_def)
next
  case (6 u)
  from 6(4) have "queues_same s s' \<and> rename_same s s'"
    by (rule issued_fromE) (simp add: queues_same_def rename_same_def)
  then show ?case by (simp add: queue_change_def)
next
  case (7 m)
  note c = coreD [OF 7(5) [unfolded admitted_from_def]]
  show ?case unfolding queue_change_def
    by (rule disjI2, rule disjI1, rule exI [of _ m]) (use 7(2,4) c in \<open>simp add: next_macro_def\<close>)
next
  case (8 u choice)
  show ?case by (rule queue_change_same [OF 8(6) [unfolded enqueued_from_def]]) (simp_all add: queues_same_def rename_same_def)
next
  case (9 m y)
  show ?case by (rule queue_change_same [OF 9(3)]) (simp_all add: queues_same_def rename_same_def)
next
  case (10 m rest c)
  have r: "rob_entry_count (m\<lparr>m_retire_tick := Some now\<rparr>) = rob_entry_count m"
    by (simp add: rob_entry_count_def split: option.splits)
  note c = coreD [OF 10(6)]
  show ?case unfolding queue_change_def
    by (rule disjI2, rule disjI2, rule disjI1, rule exI [of _ m], rule exI [of _ rest])
      (use 10(2,3) c in \<open>simp add: step_effects retired_pending_def r\<close>)
next
  case (11 t q allocations rest remaining s1 remaining' leftover)
  then obtain free where f: "core s1 = core (s\<lparr>q_rename_pending := rest, q_rename_free := free\<rparr>)" using return_entries_core [OF 11(5)] by auto
  have "queues_same s s'" using coreD [OF f] coreD [OF 11(6)] by (simp add: queues_same_def)
  then show ?case unfolding queue_change_def
    using 11 coreD(10,11) [OF 11(6)] by (intro disjI2) (intro exI conjI, assumption+, simp_all)
next
  case 12
  then show ?case by (simp add: queue_change_def queues_same_def rename_same_def)
qed

section \<open>Queue counters\<close>

definition queue_inv :: "xsai_env \<Rightarrow> xsai_state \<Rightarrow> bool" where
  "queue_inv e s \<longleftrightarrow>
     q_rob_occupancy s = xrob_sum s rob_entry_count \<and>
     q_load_occupancy s = xrob_sum s (\<lambda>m. of_bool (m_uses_load_queue m)) \<and>
     q_store_occupancy s = xrob_sum s (\<lambda>m. of_bool (m_uses_store_queue m)) \<and>
     q_rob_occupancy s \<le> max 0 (np_rob_entries (n_profile e)) \<and>
     q_load_occupancy s \<le> max 0 (np_load_queue_entries (n_profile e)) \<and>
     q_store_occupancy s \<le> max 0 (np_store_queue_entries (n_profile e))"

text \<open>Counts of a macro-op are not negative, its rename demands name every list once.\<close>

definition counts_ok :: "xsai_state \<Rightarrow> bool" where
  "counts_ok s \<longleftrightarrow> (\<forall>i m. xmacro_at s i = Some m \<longrightarrow> 0 \<le> rob_entry_count m \<and>
     distinct (keys (m_rename_allocations m)) \<and> (\<forall>(name, n)\<in>set (m_rename_allocations m). 0 \<le> n))"

lemma counts_ok_static:
  assumes "same_static s s'" and "counts_ok s"
  shows "counts_ok s'"
  unfolding counts_ok_def
proof (intro allI impI)
  fix i m assume "xmacro_at s' i = Some m"
  then obtain n where n: "xmacro_at s i = Some n" "macro_static m = macro_static n"
    using same_static_macro(2) [OF assms(1)] by blast
  show "0 \<le> rob_entry_count m \<and> distinct (keys (m_rename_allocations m)) \<and> (\<forall>(name, n)\<in>set (m_rename_allocations m). 0 \<le> n)"
    using assms(2) n(1) unfolding counts_ok_def macro_static_fields(3,4) [OF n(2)] by blast
qed

lemma xrob_sum_change:
  assumes "same_static s s'" and "static_view f"
  shows "q_rob s' = q_rob s \<Longrightarrow> xrob_sum s' f = xrob_sum s f"
    and "xmacro_at s i = Some m \<Longrightarrow> q_rob s' = q_rob s @ [i] \<Longrightarrow> xrob_sum s' f = xrob_sum s f + f m"
    and "xmacro_at s i = Some m \<Longrightarrow> q_rob s = i # q_rob s' \<Longrightarrow> xrob_sum s' f = xrob_sum s f - f m"
  using xrob_sum_static [OF assms] by (simp_all add: xrob_sum_def)

lemma queue_inv_step:
  assumes st: "same_static s s'" and c: "queue_change e now s s'" and counts: "counts_ok s" and inv: "queue_inv e s"
  shows "queue_inv e s'"
proof -
  note sums = xrob_sum_change [OF st static_views(1)] xrob_sum_change [OF st static_views(2)] xrob_sum_change [OF st static_views(3)]
  show ?thesis
    using c unfolding queue_change_def
  proof (elim disjE exE conjE, goal_cases)
    case 1
    then show ?thesis using inv sums(1,4,7) by (simp add: queue_inv_def queues_same_def)
  next
    case (2 m)
    then show ?thesis using inv sums(2,5,8) [OF 2(1) 2(3)]
      by (auto simp: queue_inv_def admissible_def Let_def of_bool_def)
  next
    case (3 m rest)
    have r: "q_rob s = m_id m # q_rob s'" using 3(2,3) by simp
    have "0 \<le> rob_entry_count m" using counts 3(1) by (auto simp: counts_ok_def)
    then show ?thesis using inv sums(3,6,9) [OF 3(1) r] 3(4-6)
      by (auto simp: queue_inv_def of_bool_def)
  next
    case (4 t q allocations rest remaining s1 remaining' leftover)
    then show ?thesis using inv sums(1,4,7) by (simp add: queue_inv_def queues_same_def)
  qed
qed

section \<open>Rename registers\<close>

lemma held_simps [simp]:
  "held name [] = 0" "held name ((k, n) # xs) = (if k = name then n else 0) + held name xs"
  "held name (xs @ ys) = held name xs + held name ys"
  by (simp_all add: held_def)

lemma held_nonneg: "\<forall>(k, n)\<in>set xs. 0 \<le> n \<Longrightarrow> 0 \<le> held name xs"
  by (induction xs) auto

lemma held_absent: "name \<notin> set (keys xs) \<Longrightarrow> held name xs = 0"
  by (induction xs) (auto simp: keys_def)

lemma held_single: "distinct (keys xs) \<Longrightarrow> (name, n) \<in> set xs \<Longrightarrow> held name xs = n"
  by (induction xs) (auto simp: keys_def held_absent [unfolded keys_def] image_iff)

lemma take_registers_get: "counter_get (take_registers xs free) name = counter_get free name - held name xs"
  by (induction xs arbitrary: free) (auto simp: take_registers_def counter_get_add_if)

lemma pending_held_push: "sum_list (map (\<lambda>(_, _, a). held name a) (push_release (t, q, x) h)) =
    held name x + sum_list (map (\<lambda>(_, _, a). held name a) h)"
  by (induction h) (auto simp: push_release_def)

lemma set_push_release [simp]: "set (push_release x h) = insert x (set h)"
  by (simp add: push_release_def set_insort_key)

lemma return_entries_held:
  "rfold return_entry xs (s, r, l) = Inr (s', r', l') \<Longrightarrow>
     counter_get (q_rename_free s') name + held name l' = counter_get (q_rename_free s) name + held name xs + held name l"
proof (induction xs arbitrary: s r l)
  case (Cons x xs)
  obtain k n where x: "x = (k, n)" by (cases x)
  obtain s1 r1 l1 where 1: "return_entry x (s, r, l) = Inr (s1, r1, l1)" and 2: "rfold return_entry xs (s1, r1, l1) = Inr (s', r', l')"
    using Cons.prems by (auto simp: rbind_eq_Inr_iff)
  have "counter_get (q_rename_free s1) name + held name l1 = counter_get (q_rename_free s) name + (if k = name then n else 0) + held name l"
    using 1 unfolding x return_entry_def by (auto simp: rbind_eq_Inr_iff Let_def counter_get_def split: if_splits)
  with Cons.IH [OF 2] x show ?case by simp
qed simp

lemma return_entries_grow:
  assumes "rfold return_entry xs (s, r, l) = Inr (s', r', l')" and "0 \<le> r" and "\<forall>(k, n)\<in>set xs. 0 \<le> n" and "\<forall>(k, n)\<in>set l. 0 \<le> n"
  shows "counter_get (q_rename_free s) name \<le> counter_get (q_rename_free s') name \<and> (\<forall>(k, n)\<in>set l'. 0 \<le> n)"
  using assms
proof (induction xs arbitrary: s r l)
  case (Cons x xs)
  obtain k n where x: "x = (k, n)" by (cases x)
  obtain s1 r1 l1 where 1: "return_entry x (s, r, l) = Inr (s1, r1, l1)" and 2: "rfold return_entry xs (s1, r1, l1) = Inr (s', r', l')"
    using Cons.prems(1) by (auto simp: rbind_eq_Inr_iff)
  have "0 \<le> n" using Cons.prems(3) x by auto
  then have "0 \<le> r1" "counter_get (q_rename_free s) name \<le> counter_get (q_rename_free s1) name" "\<forall>(k, n)\<in>set l1. 0 \<le> n"
    using 1 Cons.prems(2,4) unfolding x return_entry_def
    by (auto simp: rbind_eq_Inr_iff Let_def counter_get_def split: if_splits)
  with Cons.IH [OF 2] Cons.prems(3) show ?case by fastforce
qed simp

definition rename_inv :: "xsai_env \<Rightarrow> xsai_state \<Rightarrow> bool" where
  "rename_inv e s \<longleftrightarrow> (let rn = np_rename (n_profile e) in
     if rn_enabled rn
     then (\<forall>name. counter_get (q_rename_free s) name + xrob_sum s (\<lambda>m. held name (m_rename_allocations m)) + pending_held s name =
          counter_get (rn_free_lists rn) name) \<and>
        (\<forall>name. min (rn_guard_entries rn) (counter_get (rn_free_lists rn) name) \<le> counter_get (q_rename_free s) name) \<and>
        (\<forall>(_, _, allocations)\<in>set (q_rename_pending s). \<forall>(_, n)\<in>set allocations. 0 \<le> n)
     else q_rename_free s = rn_free_lists rn)"

lemma rename_inv_step:
  assumes st: "same_static s s'" and c: "queue_change e now s s'" and counts: "counts_ok s" and inv: "rename_inv e s"
    and off: "\<not> rn_enabled (np_rename (n_profile e)) \<longrightarrow> q_rename_pending s = []"
  shows "rename_inv e s'" and "\<not> rn_enabled (np_rename (n_profile e)) \<longrightarrow> q_rename_pending s' = []"
proof -
  let ?rn = "np_rename (n_profile e)"
  have sums: "q_rob s' = q_rob s \<Longrightarrow> xrob_sum s' (\<lambda>m. held name (m_rename_allocations m)) = xrob_sum s (\<lambda>m. held name (m_rename_allocations m))"
    "xmacro_at s i = Some m \<Longrightarrow> q_rob s' = q_rob s @ [i] \<Longrightarrow>
       xrob_sum s' (\<lambda>m. held name (m_rename_allocations m)) = xrob_sum s (\<lambda>m. held name (m_rename_allocations m)) + held name (m_rename_allocations m)"
    "xmacro_at s i = Some m \<Longrightarrow> q_rob s = i # q_rob s' \<Longrightarrow>
       xrob_sum s' (\<lambda>m. held name (m_rename_allocations m)) = xrob_sum s (\<lambda>m. held name (m_rename_allocations m)) - held name (m_rename_allocations m)"
    for name i m
    by (rule xrob_sum_change [OF st static_views(4)]; assumption)+
  have "rename_inv e s' \<and> (\<not> rn_enabled ?rn \<longrightarrow> q_rename_pending s' = [])"
    using c unfolding queue_change_def
  proof (elim disjE exE conjE, goal_cases)
    case 1
    then have "pending_held s' name = pending_held s name" for name by (simp add: rename_same_def pending_held_def)
    with 1 show ?thesis using inv off sums(1)
      by (simp add: rename_inv_def queues_same_def rename_same_def Let_def)
  next
    case (2 m)
    show ?thesis
    proof (cases "rn_enabled ?rn")
      case True
      have free: "counter_get (q_rename_free s') name = counter_get (q_rename_free s) name - held name (m_rename_allocations m)" for name
        using 2(7) True by (simp add: take_registers_get)
      have "min (rn_guard_entries ?rn) (counter_get (rn_free_lists ?rn) name) \<le> counter_get (q_rename_free s') name" for name
      proof (cases "name \<in> set (keys (m_rename_allocations m))")
        case False
        then show ?thesis using inv True free [of name] by (simp add: rename_inv_def held_absent Let_def)
      next
        case known: True
        then obtain n where n: "(name, n) \<in> set (m_rename_allocations m)" by (auto simp: keys_def)
        have "distinct (keys (m_rename_allocations m))" using counts 2(1) by (auto simp: counts_ok_def)
        then have "held name (m_rename_allocations m) = n" using n by (rule held_single)
        moreover have "rn_guard_entries ?rn \<le> counter_get (q_rename_free s) name - n"
          using 2(2) True n by (auto simp: admissible_def Let_def)
        ultimately show ?thesis using free [of name] by simp
      qed
      moreover have "pending_held s' name = pending_held s name" for name using 2(8) by (simp add: pending_held_def)
      ultimately show ?thesis
        using inv True free sums(2) [OF 2(1) 2(3)] 2(8) by (simp add: rename_inv_def Let_def)
    next
      case False
      then show ?thesis using inv off 2(7,8) by (simp add: rename_inv_def)
    qed
  next
    case (3 m rest)
    have r: "q_rob s = m_id m # q_rob s'" using 3(2,3) by simp
    show ?thesis
    proof (cases "rn_enabled ?rn")
      case True
      have "pending_held s' name = held name (m_rename_allocations m) + pending_held s name" for name
        using 3(8) True by (simp add: pending_held_def retired_pending_def Let_def pending_held_push)
      moreover have "\<forall>(_, _, allocations)\<in>set (q_rename_pending s'). \<forall>(_, n)\<in>set allocations. 0 \<le> n"
        using inv True 3(8) counts 3(1) by (auto simp: rename_inv_def Let_def retired_pending_def counts_ok_def split: if_splits)
      ultimately show ?thesis
        using inv True 3(7) sums(3) [OF 3(1) r] by (simp add: rename_inv_def Let_def add.assoc)
    next
      case False
      then show ?thesis using inv off 3(7,8) by (simp add: rename_inv_def retired_pending_def Let_def)
    qed
  next
    case (4 t q allocations rest remaining s1 remaining' leftover)
    have on: "rn_enabled ?rn" using off 4(2) by auto
    have nonneg: "\<forall>(k, n)\<in>set allocations. 0 \<le> n" using inv on 4(2) by (auto simp: rename_inv_def Let_def)
    note h = return_entries_held [OF 4(4)] and g = return_entries_grow [OF 4(4) _ nonneg]
    have pend: "pending_held s' name = held name leftover + sum_list (map (\<lambda>(_, _, a). held name a) rest)" for name
      using 4(6) by (simp add: pending_held_def pending_held_push)
    have "pending_held s name = held name allocations + sum_list (map (\<lambda>(_, _, a). held name a) rest)" for name
      using 4(2) by (simp add: pending_held_def)
    then have balance: "counter_get (q_rename_free s') name + pending_held s' name = counter_get (q_rename_free s) name + pending_held s name" for name
      using h [of name] 4(5) pend [of name] by simp
    have grow: "counter_get (q_rename_free s) name \<le> counter_get (q_rename_free s') name" for name
      using g [of name] 4(3,5) by simp
    have counts': "\<forall>(_, _, allocations)\<in>set (q_rename_pending s'). \<forall>(_, n)\<in>set allocations. 0 \<le> n"
    proof -
      have "set (q_rename_pending s') \<subseteq> insert (t, q, leftover) (set (q_rename_pending s))" using 4(2,6) by auto
      moreover have "\<forall>(k, n)\<in>set leftover. 0 \<le> n" using g 4(3) by simp
      ultimately show ?thesis using inv on by (fastforce simp: rename_inv_def Let_def)
    qed
    have "counter_get (q_rename_free s') name + xrob_sum s' (\<lambda>m. held name (m_rename_allocations m)) + pending_held s' name =
          counter_get (rn_free_lists ?rn) name" for name
    proof -
      have "counter_get (q_rename_free s) name + xrob_sum s (\<lambda>m. held name (m_rename_allocations m)) + pending_held s name =
          counter_get (rn_free_lists ?rn) name" using inv on by (simp add: rename_inv_def Let_def)
      then show ?thesis using balance [of name] sums(1) [of name] 4(1) by (simp add: queues_same_def)
    qed
    moreover have "min (rn_guard_entries ?rn) (counter_get (rn_free_lists ?rn) name) \<le> counter_get (q_rename_free s') name" for name
      by (rule order.trans [OF _ grow]) (use inv on in \<open>simp add: rename_inv_def Let_def\<close>)
    ultimately show ?thesis using on counts' by (simp add: rename_inv_def Let_def)
  qed
  then show "rename_inv e s'" and "\<not> rn_enabled ?rn \<longrightarrow> q_rename_pending s' = []" by simp_all
qed

section \<open>Scheduler partitions\<close>

text \<open>The entries that wait in a partition: dispatched to it and not issued.\<close>

definition waiting_in :: "xsai_state \<Rightarrow> string \<Rightarrow> string list" where
  "waiting_in s p = filter (\<lambda>i. case xuop_at s i of None \<Rightarrow> False | Some u \<Rightarrow> u_scheduler_partition u = Some p) (q_unissued s)"

definition partition_inv :: "xsai_env \<Rightarrow> xsai_state \<Rightarrow> bool" where
  "partition_inv e s \<longleftrightarrow> distinct (q_unissued s) \<and>
     (\<forall>i u. xuop_at s i = Some u \<longrightarrow> u_dispatch_tick u = None \<longrightarrow> i \<notin> set (q_unissued s)) \<and>
     (\<forall>p n. map_of (q_partition_occupancy s) p = Some n \<longrightarrow> n = int (length (waiting_in s p)) \<and>
        (\<forall>q. map_of (np_partitions (n_profile e)) p = Some q \<longrightarrow> n \<le> max 0 (pa_entries q)))"

text \<open>Steps that neither dispatch nor issue keep the waiting set and where its entries wait.\<close>

definition waiting_same :: "xsai_state \<Rightarrow> xsai_state \<Rightarrow> bool" where
  "waiting_same s s' \<longleftrightarrow> q_unissued s' = q_unissued s \<and> q_partition_occupancy s' = q_partition_occupancy s \<and>
     (\<forall>i. map_option (\<lambda>u. (u_dispatch_tick u, u_scheduler_partition u)) (xuop_at s' i) =
        map_option (\<lambda>u. (u_dispatch_tick u, u_scheduler_partition u)) (xuop_at s i))"

lemma waiting_same_inv:
  assumes w: "waiting_same s s'" and inv: "partition_inv e s"
  shows "partition_inv e s'"
proof -
  have u: "map_option (\<lambda>u. (u_dispatch_tick u, u_scheduler_partition u)) (xuop_at s' i) =
        map_option (\<lambda>u. (u_dispatch_tick u, u_scheduler_partition u)) (xuop_at s i)" for i
    using w by (simp add: waiting_same_def)
  have "(case xuop_at s' i of None \<Rightarrow> False | Some u \<Rightarrow> u_scheduler_partition u = Some p) =
      (case xuop_at s i of None \<Rightarrow> False | Some u \<Rightarrow> u_scheduler_partition u = Some p)" for i p
    using u [of i] by (cases "xuop_at s' i"; cases "xuop_at s i") auto
  then have "waiting_in s' p = waiting_in s p" for p
    using w by (simp add: waiting_in_def waiting_same_def)
  moreover have "\<exists>v. xuop_at s i = Some v \<and> u_dispatch_tick v = u_dispatch_tick x" if "xuop_at s' i = Some x" for i x
    using u [of i] that by (cases "xuop_at s i") auto
  ultimately show ?thesis using inv w unfolding partition_inv_def waiting_same_def by (metis (no_types, lifting))
qed

lemma waiting_same_put:
  assumes "q_unissued s' = q_unissued s" and "q_partition_occupancy s' = q_partition_occupancy s"
    and "q_uops s' = AList.update k v' (q_uops s)" and "xuop_at s k = Some v"
    and "u_dispatch_tick v' = u_dispatch_tick v" and "u_scheduler_partition v' = u_scheduler_partition v"
  shows "waiting_same s s'"
  using assms update_static [of "q_uops s" k v "\<lambda>u. (u_dispatch_tick u, u_scheduler_partition u)" v']
  by (simp add: waiting_same_def)

lemma waiting_same_tables:
  "q_unissued s' = q_unissued s \<Longrightarrow> q_partition_occupancy s' = q_partition_occupancy s \<Longrightarrow> q_uops s' = q_uops s \<Longrightarrow> waiting_same s s'"
  by (simp add: waiting_same_def)

lemma xstep_waiting:
  assumes "xstep e (now, s) (now', s')"
  shows "waiting_same s s' \<or>
     (\<exists>u. xuop_at s (u_id u) = Some u \<and> issued_from e u now s s') \<or>
     (\<exists>u choice. xuop_at s (u_id u) = Some u \<and> u_dispatch_tick u = None \<and>
        (case choice of None \<Rightarrow> True | Some p \<Rightarrow> partition_open e s p) \<and> enqueued_from now u choice s s')"
  using assms
proof (elim xstepE, goal_cases)
  case 1
  note c = coreD [OF 1(2)]
  show ?case by (rule disjI1, rule waiting_same_tables) (simp_all add: c)
next
  case (2 u a b)
  note c = coreD [OF 2(3)]
  have "waiting_same s s'"
    by (rule waiting_same_put [where k = "u_id u" and v = u and v' = "u\<lparr>u_stall_reason := b, u_stall_reasons := a\<rparr>"])
      (use 2 c in \<open>simp_all add: qput_uop_def\<close>)
  then show ?case ..
next
  case (3 m a b c)
  note c = coreD [OF 3(3)]
  show ?case by (rule disjI1, rule waiting_same_tables) (simp_all add: c qput_macro_def)
next
  case (4 t q i rest u)
  note c = coreD [OF 4(4)]
  show ?case by (rule disjI1, rule waiting_same_tables) (simp_all add: c)
next
  case (5 t q u rest)
  then have "waiting_same s s'"
    by (intro waiting_same_put [where k = "u_id u" and v = u and v' = "u\<lparr>u_complete_tick := Some t\<rparr>"])
      (auto simp: completed_from_def core_def)
  then show ?case ..
next
  case (6 u)
  then show ?case by blast
next
  case (7 m)
  note c = coreD [OF 7(5) [unfolded admitted_from_def]]
  show ?case by (rule disjI1, rule waiting_same_tables) (simp_all add: c)
next
  case (8 u choice)
  then show ?case by blast
next
  case (9 m y)
  note c = coreD [OF 9(3)]
  show ?case by (rule disjI1, rule waiting_same_tables) (simp_all add: c)
next
  case (10 m rest c)
  note c = coreD [OF 10(6)]
  show ?case by (rule disjI1, rule waiting_same_tables) (simp_all add: c step_effects)
next
  case (11 t q allocations rest remaining s1 remaining' leftover)
  then obtain free where "core s1 = core (s\<lparr>q_rename_pending := rest, q_rename_free := free\<rparr>)" using return_entries_core [OF 11(5)] by auto
  note c = coreD [OF this] coreD [OF 11(6)]
  show ?case by (rule disjI1, rule waiting_same_tables) (simp_all add: c)
next
  case 12
  then show ?case by (simp add: waiting_same_def)
qed

lemma remove1_filter: "distinct xs \<Longrightarrow> remove1 x xs = filter (\<lambda>y. y \<noteq> x) xs"
  by (simp add: distinct_remove1_removeAll removeAll_filter_not_eq) (rule filter_cong, auto)

lemma as_issued_waits:
  "u_scheduler_partition (as_issued u now ready path level latency) = u_scheduler_partition u"
  "u_dispatch_tick (as_issued u now ready path level latency) = u_dispatch_tick u"
  by (simp_all add: as_issued_def split: prod.splits)

lemma issue_partition_inv:
  assumes u: "xuop_at s (u_id u) = Some u" and i: "issued_from e u now s s'" and inv: "partition_inv e s"
  shows "partition_inv e s'"
proof -
  obtain u' where u': "q_uops s' = AList.update (u_id u) u' (q_uops s)" "u_scheduler_partition u' = u_scheduler_partition u"
      "u_dispatch_tick u' = u_dispatch_tick u" and mem: "u_id u \<in> set (q_unissued s)"
      and un: "q_unissued s' = remove1 (u_id u) (q_unissued s)"
      and left: "left_partition (q_partition_occupancy s) (u_scheduler_partition u) (q_partition_occupancy s')"
    using i by (rule issued_fromE) (metis as_issued_waits)
  have d: "distinct (q_unissued s)" using inv by (simp add: partition_inv_def)
  have at: "xuop_at s' j = (if j = u_id u then Some u' else xuop_at s j)" for j using u'(1) by (simp add: update_conv')
  have w: "waiting_in s' p = filter (\<lambda>j. j \<noteq> u_id u) (waiting_in s p)" for p
    unfolding waiting_in_def un remove1_filter [OF d] filter_filter by (rule filter_cong) (auto simp: at)
  have len: "length (filter (\<lambda>j. j \<noteq> u_id u) (waiting_in s p)) = length (waiting_in s p) - (if u_scheduler_partition u = Some p then 1 else 0)" for p
  proof -
    have "distinct (waiting_in s p)" using d by (simp add: waiting_in_def)
    from remove1_filter [OF this, of "u_id u", symmetric]
    have "length (filter (\<lambda>j. j \<noteq> u_id u) (waiting_in s p)) =
        length (waiting_in s p) - (if u_id u \<in> set (waiting_in s p) then 1 else 0)"
      by (simp add: length_remove1)
    moreover have "u_id u \<in> set (waiting_in s p) \<longleftrightarrow> u_scheduler_partition u = Some p"
      using mem u by (simp add: waiting_in_def)
    ultimately show ?thesis by simp
  qed
  have occ: "n = int (length (waiting_in s' p)) \<and> (\<forall>q. map_of (np_partitions (n_profile e)) p = Some q \<longrightarrow> n \<le> max 0 (pa_entries q))"
    if n: "map_of (q_partition_occupancy s') p = Some n" for p n
  proof (cases "u_scheduler_partition u = Some p")
    case True
    then obtain n0 where n0: "map_of (q_partition_occupancy s) p = Some n0" "0 < n0" "n = n0 - 1"
      using left n by (auto simp: left_partition_def update_conv')
    then have "n0 = int (length (waiting_in s p))" "\<forall>q. map_of (np_partitions (n_profile e)) p = Some q \<longrightarrow> n0 \<le> max 0 (pa_entries q)"
      using inv by (auto simp: partition_inv_def)
    then show ?thesis using n0 True unfolding w len by (cases "waiting_in s p") auto
  next
    case False
    then have "map_of (q_partition_occupancy s) p = Some n"
      using left n by (auto simp: left_partition_def update_conv' split: option.splits)
    then show ?thesis using inv False unfolding w len by (simp add: partition_inv_def)
  qed
  have "j \<notin> set (q_unissued s')" if "xuop_at s' j = Some v" "u_dispatch_tick v = None" for j v
    using inv that u u'(3) d unfolding partition_inv_def at un by (auto split: if_splits)
  then show ?thesis using occ d un unfolding partition_inv_def by simp
qed

lemma enqueue_partition_inv:
  assumes u: "xuop_at s (u_id u) = Some u" and fresh: "u_dispatch_tick u = None"
    and room: "case choice of None \<Rightarrow> True | Some p \<Rightarrow> partition_open e s p"
    and q: "enqueued_from now u choice s s'" and inv: "partition_inv e s"
  shows "partition_inv e s'"
proof -
  note c = coreD [OF q [unfolded enqueued_from_def]]
  let ?u = "u\<lparr>u_dispatch_tick := Some now, u_scheduler_partition := choice\<rparr>"
  have out: "u_id u \<notin> set (q_unissued s)" using inv u fresh by (auto simp: partition_inv_def)
  have un: "q_unissued s' = q_unissued s @ [u_id u]" using c(4) out by (simp add: insert_id_def)
  have at: "xuop_at s' j = (if j = u_id u then Some ?u else xuop_at s j)" for j using c(1) by (simp add: update_conv')
  have w: "waiting_in s' p = waiting_in s p @ (if choice = Some p then [u_id u] else [])" for p
  proof -
    have "filter (\<lambda>i. case xuop_at s' i of None \<Rightarrow> False | Some u \<Rightarrow> u_scheduler_partition u = Some p) (q_unissued s) =
        waiting_in s p"
      unfolding waiting_in_def using out by (intro filter_cong) (auto simp: at)
    then show ?thesis by (simp add: waiting_in_def [of s'] un at)
  qed
  have occ: "n = int (length (waiting_in s' p)) \<and> (\<forall>q. map_of (np_partitions (n_profile e)) p = Some q \<longrightarrow> n \<le> max 0 (pa_entries q))"
    if n: "map_of (q_partition_occupancy s') p = Some n" for p n
  proof (cases "choice = Some p")
    case True
    then obtain x n0 where x: "map_of (np_partitions (n_profile e)) p = Some x" "map_of (q_partition_occupancy s) p = Some n0"
        "n0 < pa_entries x" using room by (auto simp: partition_open_def)
    then have "n = n0 + 1" using c(7) True n by (simp add: counter_add_known update_conv')
    moreover have "n0 = int (length (waiting_in s p))" using inv x(2) by (auto simp: partition_inv_def)
    ultimately show ?thesis using True x w by simp
  next
    case False
    then have "map_of (q_partition_occupancy s) p = Some n"
      using c(7) n by (auto simp: counter_add_def update_conv' split: option.splits)
    then show ?thesis using inv False w by (simp add: partition_inv_def)
  qed
  have "j \<notin> set (q_unissued s')" if "xuop_at s' j = Some v" "u_dispatch_tick v = None" for j v
    using inv that unfolding partition_inv_def at un by (auto split: if_splits)
  then show ?thesis using occ inv un out unfolding partition_inv_def by simp
qed

lemma partition_inv_step: "xstep e (now, s) (now', s') \<Longrightarrow> partition_inv e s \<Longrightarrow> partition_inv e s'"
  by (drule xstep_waiting)
    (elim disjE exE conjE, blast intro: waiting_same_inv, blast intro: issue_partition_inv, blast intro: enqueue_partition_inv)

section \<open>The schedule\<close>

definition completed_by :: "xsai_state \<Rightarrow> string \<Rightarrow> int \<Rightarrow> bool" where
  "completed_by s j t \<longleftrightarrow> (case xuop_at s j of None \<Rightarrow> False
     | Some v \<Rightarrow> (case u_complete_tick v of None \<Rightarrow> False | Some c \<Rightarrow> c \<le> t))"

text \<open>The times of an entry at \<open>now\<close>.\<close>

definition times_ok :: "int \<Rightarrow> xsai_state \<Rightarrow> execution_uop \<Rightarrow> bool" where
  "times_ok now s u \<longleftrightarrow>
     (\<forall>t. u_issue_tick u = Some t \<longrightarrow> t \<le> now \<and> (\<exists>d r. u_dispatch_tick u = Some d \<and> u_ready_tick u = Some r \<and>
        d \<le> r \<and> r \<le> t \<and> (\<forall>j\<in>set (u_dependencies u). completed_by s j r))) \<and>
     (\<forall>c. u_complete_tick u = Some c \<longrightarrow> c \<le> now \<and> (\<exists>t. u_issue_tick u = Some t \<and> c = t + u_latency_ticks u))"

definition schedule_inv :: "int \<Rightarrow> xsai_state \<Rightarrow> bool" where
  "schedule_inv now s \<longleftrightarrow>
     (\<forall>i u. xuop_at s i = Some u \<longrightarrow> times_ok now s u) \<and>
     (\<forall>i\<in>set (q_unissued s). \<forall>u. xuop_at s i = Some u \<longrightarrow> u_issue_tick u = None \<and> u_dispatch_tick u \<noteq> None) \<and>
     (\<forall>(c, _, i)\<in>set (q_heap s). \<exists>u t. xuop_at s i = Some u \<and> u_complete_tick u = None \<and> u_issue_tick u = Some t \<and>
        c = t + u_latency_ticks u) \<and>
     distinct (map (snd \<circ> snd) (q_heap s)) \<and>
     (\<forall>i u. xuop_at s i = Some u \<longrightarrow> u_dispatch_tick u = None \<longrightarrow> u_issue_tick u = None)"

text \<open>The fields of an entry the schedule is about.\<close>

definition timing :: "execution_uop \<Rightarrow> _" where
  "timing u = (u_dispatch_tick u, u_ready_tick u, u_issue_tick u, u_complete_tick u, u_latency_ticks u, u_dependencies u)"

definition timing_same :: "xsai_state \<Rightarrow> xsai_state \<Rightarrow> bool" where
  "timing_same s s' \<longleftrightarrow> q_unissued s' = q_unissued s \<and> (\<forall>i. map_option timing (xuop_at s' i) = map_option timing (xuop_at s i)) \<and>
     q_heap s' = q_heap s"

lemma completed_by_timing:
  assumes "map_option timing (xuop_at s' j) = map_option timing (xuop_at s j)"
  shows "completed_by s' j t = completed_by s j t"
  using assms by (cases "xuop_at s' j"; cases "xuop_at s j") (auto simp: completed_by_def timing_def)

lemma timing_eqD:
  "timing u = timing v \<Longrightarrow> u_dispatch_tick u = u_dispatch_tick v \<and> u_ready_tick u = u_ready_tick v \<and> u_issue_tick u = u_issue_tick v \<and>
     u_complete_tick u = u_complete_tick v \<and> u_latency_ticks u = u_latency_ticks v \<and> u_dependencies u = u_dependencies v"
  by (simp add: timing_def)

lemma timing_at:
  assumes "map_option timing (xuop_at s' i) = map_option timing (xuop_at s i)"
  shows "xuop_at s' i = Some u' \<Longrightarrow> \<exists>u. xuop_at s i = Some u \<and> timing u' = timing u"
    and "xuop_at s i = Some v \<Longrightarrow> \<exists>v'. xuop_at s' i = Some v' \<and> timing v' = timing v"
  using assms by (cases "xuop_at s' i"; cases "xuop_at s i"; simp)+

lemma timing_same_inv:
  assumes t: "timing_same s s'" and inv: "schedule_inv now s"
  shows "schedule_inv now s'"
proof -
  have at: "map_option timing (xuop_at s' i) = map_option timing (xuop_at s i)" for i using t by (simp add: timing_same_def)
  note cb = completed_by_timing [OF at]
  have 1: "times_ok now s' u'" if u': "xuop_at s' i = Some u'" for i u'
  proof -
    obtain u where u: "xuop_at s i = Some u" "timing u' = timing u" using timing_at(1) [OF at u'] by blast
    have "times_ok now s u" using inv u(1) by (simp add: schedule_inv_def)
    then show ?thesis using timing_eqD [OF u(2)] by (simp add: times_ok_def cb)
  qed
  have 2: "u_issue_tick u' = None \<and> u_dispatch_tick u' \<noteq> None" if i: "i \<in> set (q_unissued s')" and u': "xuop_at s' i = Some u'" for i u'
  proof -
    obtain u where u: "xuop_at s i = Some u" "timing u' = timing u" using timing_at(1) [OF at u'] by blast
    have "i \<in> set (q_unissued s)" using i t by (simp add: timing_same_def)
    then have "u_issue_tick u = None \<and> u_dispatch_tick u \<noteq> None" using inv u(1) unfolding schedule_inv_def by blast
    then show ?thesis using timing_eqD [OF u(2)] by simp
  qed
  have 3: "\<exists>u t. xuop_at s' i = Some u \<and> u_complete_tick u = None \<and> u_issue_tick u = Some t \<and> c = t + u_latency_ticks u"
    if h: "(c, q, i) \<in> set (q_heap s')" for c q i
  proof -
    have "(c, q, i) \<in> set (q_heap s)" using h t by (simp add: timing_same_def)
    then obtain u t where u: "xuop_at s i = Some u" "u_complete_tick u = None" "u_issue_tick u = Some t" "c = t + u_latency_ticks u"
      using inv unfolding schedule_inv_def by fastforce
    obtain u' where u': "xuop_at s' i = Some u'" "timing u' = timing u" using timing_at(2) [OF at u(1)] by blast
    then show ?thesis using u timing_eqD [OF u'(2)] by simp
  qed
  have 4: "u_issue_tick u' = None" if u': "xuop_at s' i = Some u'" and d: "u_dispatch_tick u' = None" for i u'
  proof -
    obtain u where u: "xuop_at s i = Some u" "timing u' = timing u" using timing_at(1) [OF at u'] by blast
    then show ?thesis using inv d timing_eqD [OF u(2)] unfolding schedule_inv_def by auto
  qed
  have 5: "distinct (map (snd \<circ> snd) (q_heap s'))" using inv t by (simp add: schedule_inv_def timing_same_def)
  show ?thesis
    unfolding schedule_inv_def case_prod_unfold
  proof (intro conjI allI impI ballI)
    fix x assume "x \<in> set (q_heap s')"
    then show "\<exists>u t. xuop_at s' (snd (snd x)) = Some u \<and> u_complete_tick u = None \<and> u_issue_tick u = Some t \<and> fst x = t + u_latency_ticks u"
      using 3 [of "fst x" "fst (snd x)" "snd (snd x)"] by simp
  qed (use 1 2 4 5 in \<open>blast+\<close>)
qed

lemma timing_same_put:
  assumes "q_unissued s' = q_unissued s" and "q_heap s' = q_heap s" and "q_uops s' = AList.update k v' (q_uops s)"
    and "xuop_at s k = Some v" and "timing v' = timing v"
  shows "timing_same s s'"
  using assms update_static [of "q_uops s" k v timing v'] by (simp add: timing_same_def)

lemma timing_same_tables:
  "q_unissued s' = q_unissued s \<Longrightarrow> q_heap s' = q_heap s \<Longrightarrow> q_uops s' = q_uops s \<Longrightarrow> timing_same s s'"
  by (simp add: timing_same_def)

text \<open>The steps that change the schedule.\<close>

definition schedule_change :: "xsai_env \<Rightarrow> int \<Rightarrow> xsai_state \<Rightarrow> xsai_state \<Rightarrow> bool" where
  "schedule_change e now s s' \<longleftrightarrow> timing_same s s' \<or>
     (\<exists>t q i rest u. q_heap s = (t, q, i) # rest \<and> xuop_at s i = Some u \<and> u_complete_tick u \<noteq> None \<and>
        q_heap s' = rest \<and> q_uops s' = q_uops s \<and> q_unissued s' = q_unissued s) \<or>
     (\<exists>t q rest u. q_heap s = (t, q, u_id u) # rest \<and> t \<le> now \<and> xuop_at s (u_id u) = Some u \<and> u_complete_tick u = None \<and>
        q_heap s' = rest \<and> q_uops s' = AList.update (u_id u) (u\<lparr>u_complete_tick := Some t\<rparr>) (q_uops s) \<and> q_unissued s' = q_unissued s) \<or>
     (\<exists>u. xuop_at s (u_id u) = Some u \<and> xdependency_check s u now = Inr None \<and> issued_from e u now s s') \<or>
     (\<exists>u choice. xuop_at s (u_id u) = Some u \<and> u_dispatch_tick u = None \<and> enqueued_from now u choice s s')"

lemma schedule_change_same: "timing_same s s' \<Longrightarrow> schedule_change e now s s'"
  by (simp add: schedule_change_def)

lemma xstep_schedule:
  assumes "xstep e (now, s) (now', s')"
  shows "schedule_change e now s s'"
  using assms
proof (elim xstepE, goal_cases)
  case 1
  note c = coreD [OF 1(2)]
  show ?case by (rule schedule_change_same, rule timing_same_tables) (simp_all add: c)
next
  case (2 u a b)
  note c = coreD [OF 2(3)]
  show ?case
    by (rule schedule_change_same, rule timing_same_put [where k = "u_id u" and v = u and v' = "u\<lparr>u_stall_reason := b, u_stall_reasons := a\<rparr>"])
      (use 2 c in \<open>simp_all add: qput_uop_def timing_def\<close>)
next
  case (3 m a b c)
  note c = coreD [OF 3(3)]
  show ?case by (rule schedule_change_same, rule timing_same_tables) (simp_all add: c qput_macro_def)
next
  case (4 t q i rest u)
  note c = coreD [OF 4(4)]
  show ?case unfolding schedule_change_def
    by (rule disjI2, rule disjI1, rule exI [of _ t], rule exI [of _ q], rule exI [of _ i], rule exI [of _ rest], rule exI [of _ u])
      (use 4 c in simp)
next
  case (5 t q u rest)
  have c: "q_heap s' = rest" "q_uops s' = AList.update (u_id u) (u\<lparr>u_complete_tick := Some t\<rparr>) (q_uops s)" "q_unissued s' = q_unissued s"
    using 5(6) by (auto simp: completed_from_def core_def)
  show ?case unfolding schedule_change_def
    by (rule disjI2, rule disjI2, rule disjI1, rule exI [of _ t], rule exI [of _ q], rule exI [of _ rest], rule exI [of _ u])
      (use 5(2-5) c in simp)
next
  case (6 u)
  then show ?case unfolding schedule_change_def by blast
next
  case (7 m)
  note c = coreD [OF 7(5) [unfolded admitted_from_def]]
  show ?case by (rule schedule_change_same, rule timing_same_tables) (simp_all add: c)
next
  case (8 u choice)
  then show ?case unfolding schedule_change_def by blast
next
  case (9 m y)
  note c = coreD [OF 9(3)]
  show ?case by (rule schedule_change_same, rule timing_same_tables) (simp_all add: c)
next
  case (10 m rest c)
  note c = coreD [OF 10(6)]
  show ?case by (rule schedule_change_same, rule timing_same_tables) (simp_all add: c step_effects)
next
  case (11 t q allocations rest remaining s1 remaining' leftover)
  then obtain free where "core s1 = core (s\<lparr>q_rename_pending := rest, q_rename_free := free\<rparr>)" using return_entries_core [OF 11(5)] by auto
  note c = coreD [OF this] coreD [OF 11(6)]
  show ?case by (rule schedule_change_same, rule timing_same_tables) (simp_all add: c)
next
  case 12
  then show ?case by (simp add: schedule_change_def timing_same_def)
qed

lemma times_ok_mono:
  assumes "times_ok now s u" and "now \<le> now'" and "\<And>j t. completed_by s j t \<Longrightarrow> completed_by s' j t"
  shows "times_ok now' s' u"
  using assms unfolding times_ok_def by (meson order.trans)

lemma schedule_inv_later: "schedule_inv now s \<Longrightarrow> now \<le> now' \<Longrightarrow> schedule_inv now' s"
  unfolding schedule_inv_def using times_ok_mono [of now s _ now' s] by blast

text \<open>One entry changes; it was not complete before.\<close>

lemma schedule_inv_put:
  assumes inv: "schedule_inv now s" and k: "xuop_at s k = Some u" "u_complete_tick u = None"
    and uops: "q_uops s' = AList.update k u' (q_uops s)"
    and new: "times_ok now s' u'" "u_dispatch_tick u' = None \<longrightarrow> u_issue_tick u' = None"
    and un: "\<forall>i\<in>set (q_unissued s'). (i = k \<longrightarrow> u_issue_tick u' = None \<and> u_dispatch_tick u' \<noteq> None) \<and> (i \<noteq> k \<longrightarrow> i \<in> set (q_unissued s))"
    and heap: "\<forall>(c, q, i)\<in>set (q_heap s'). (i = k \<longrightarrow> u_complete_tick u' = None \<and> (\<exists>t. u_issue_tick u' = Some t \<and> c = t + u_latency_ticks u')) \<and>
       (i \<noteq> k \<longrightarrow> (c, q, i) \<in> set (q_heap s))"
    and d: "distinct (map (snd \<circ> snd) (q_heap s'))"
  shows "schedule_inv now s'"
proof -
  have at: "xuop_at s' j = (if j = k then Some u' else xuop_at s j)" for j using uops by (simp add: update_conv')
  have cb: "completed_by s j t \<Longrightarrow> completed_by s' j t" for j t
    using k by (auto simp: completed_by_def at)
  have "times_ok now s' v" if "xuop_at s' i = Some v" for i v
  proof (cases "i = k")
    case False
    then have "times_ok now s v" using inv that by (simp add: schedule_inv_def at)
    then show ?thesis by (rule times_ok_mono) (simp_all add: cb)
  qed (use that new at in simp)
  moreover have "u_issue_tick v = None \<and> u_dispatch_tick v \<noteq> None" if "i \<in> set (q_unissued s')" "xuop_at s' i = Some v" for i v
  proof (cases "i = k")
    case False
    then have "i \<in> set (q_unissued s)" "xuop_at s i = Some v" using un that at by auto
    then show ?thesis using inv unfolding schedule_inv_def by blast
  qed (use that un at in auto)
  moreover have "u_issue_tick v = None" if "xuop_at s' i = Some v" "u_dispatch_tick v = None" for i v
  proof (cases "i = k")
    case False
    then show ?thesis using that inv at unfolding schedule_inv_def by auto
  qed (use that new at in auto)
  moreover have "\<exists>u t. xuop_at s' i = Some u \<and> u_complete_tick u = None \<and> u_issue_tick u = Some t \<and> c = t + u_latency_ticks u"
    if h: "(c, q, i) \<in> set (q_heap s')" for c q i
  proof (cases "i = k")
    case True
    then show ?thesis using heap h at by auto
  next
    case False
    then have "(c, q, i) \<in> set (q_heap s)" using heap h by auto
    then show ?thesis using inv False at unfolding schedule_inv_def by fastforce
  qed
  ultimately show ?thesis using d unfolding schedule_inv_def by auto
qed

lemma xdependency_ready:
  assumes "xdependency_check s u now = Inr None" and "xdependency_ready_tick s u = Inr ready"
  shows "ready \<le> now \<and> or_zero (u_dispatch_tick u) \<le> ready \<and> (\<forall>j\<in>set (u_dependencies u). completed_by s j ready)"
proof -
  obtain ds where ds: "qlookup s (u_dependencies u) = Inr ds"
      and ready: "ready = max_of (or_zero (u_dispatch_tick u)) (map (\<lambda>d. or_zero (u_complete_tick d)) ds)"
    using assms(2) by (auto simp: xdependency_ready_tick_def rbind_eq_Inr_iff)
  have l: "list_all2 (\<lambda>i u. xuop_at s i = Some u) (u_dependencies u) ds" using ds by (simp add: qlookup_def rmap_Inr_iff)
  have "filter (\<lambda>d. u_complete_tick d = None) ds = []" and now: "ready \<le> now"
    using assms ds by (auto simp: xdependency_check_def rbind_eq_Inr_iff Let_def split: if_splits)
  then have complete: "u_complete_tick d \<noteq> None" if "d \<in> set ds" for d using that by (auto simp: filter_empty_conv)
  have "completed_by s j ready" if j: "j \<in> set (u_dependencies u)" for j
  proof -
    obtain d where d: "d \<in> set ds" "xuop_at s j = Some d"
    proof -
      obtain i where "i < length (u_dependencies u)" "u_dependencies u ! i = j" using j by (auto simp: in_set_conv_nth)
      then show thesis using that [of "ds ! i"] list_all2_nthD [OF l] list_all2_lengthD [OF l] by auto
    qed
    obtain c where c: "u_complete_tick d = Some c" using complete [OF d(1)] by blast
    have "or_zero (u_complete_tick d) \<le> ready" unfolding ready by (rule max_of_ge) (use d in simp)
    then show ?thesis using d c by (simp add: completed_by_def or_zero_def)
  qed
  moreover have "or_zero (u_dispatch_tick u) \<le> ready" unfolding ready by (rule max_of_ge) simp
  ultimately show ?thesis using now by simp
qed

lemma distinct_heappush: "distinct (map (snd \<circ> snd) (heappush (t, q, i) h)) \<longleftrightarrow> i \<notin> (snd \<circ> snd) ` set h \<and> distinct (map (snd \<circ> snd) h)"
proof -
  have "mset (map (snd \<circ> snd) (heappush (t, q, i) h)) = mset (map (snd \<circ> snd) ((t, q, i) # h))"
    by (simp add: heappush_def)
  then have "distinct (map (snd \<circ> snd) (heappush (t, q, i) h)) = distinct (map (snd \<circ> snd) ((t, q, i) # h))"
    by (rule mset_eq_imp_distinct_iff)
  then show ?thesis by simp
qed

lemma schedule_inv_step:
  assumes "schedule_change e now s s'" and inv: "schedule_inv now s" and un: "distinct (q_unissued s)"
  shows "schedule_inv now s'"
  using assms(1) unfolding schedule_change_def
proof (elim disjE exE conjE, goal_cases)
  case 1
  then show ?case using timing_same_inv inv by blast
next
  case (2 t q i rest u)
  then show ?case using inv unfolding schedule_inv_def by fastforce
next
  case (3 t q rest u)
  obtain t0 where t0: "u_issue_tick u = Some t0" "t = t0 + u_latency_ticks u"
    using inv 3(1,3) unfolding schedule_inv_def by fastforce
  have d: "distinct (map (snd \<circ> snd) (q_heap s))" using inv by (simp add: schedule_inv_def)
  have old: "times_ok now s u" using inv 3(3) by (simp add: schedule_inv_def)
  have at: "xuop_at s' j = (if j = u_id u then Some (u\<lparr>u_complete_tick := Some t\<rparr>) else xuop_at s j)" for j
    using 3(6) by (simp add: update_conv')
  have cb: "completed_by s j x \<Longrightarrow> completed_by s' j x" for j x using 3(3,4) by (auto simp: completed_by_def at)
  show ?case
  proof (rule schedule_inv_put [OF inv 3(3,4,6)])
    show "times_ok now s' (u\<lparr>u_complete_tick := Some t\<rparr>)"
      using old t0 3(2) cb by (auto simp: times_ok_def)
    show "u_dispatch_tick (u\<lparr>u_complete_tick := Some t\<rparr>) = None \<longrightarrow> u_issue_tick (u\<lparr>u_complete_tick := Some t\<rparr>) = None"
      using inv 3(3) unfolding schedule_inv_def by simp
    show "\<forall>i\<in>set (q_unissued s'). (i = u_id u \<longrightarrow> u_issue_tick (u\<lparr>u_complete_tick := Some t\<rparr>) = None \<and>
        u_dispatch_tick (u\<lparr>u_complete_tick := Some t\<rparr>) \<noteq> None) \<and> (i \<noteq> u_id u \<longrightarrow> i \<in> set (q_unissued s))"
      using inv 3(3,7) unfolding schedule_inv_def by simp
    show "\<forall>(c, q, i)\<in>set (q_heap s'). (i = u_id u \<longrightarrow> u_complete_tick (u\<lparr>u_complete_tick := Some t\<rparr>) = None \<and>
         (\<exists>ta. u_issue_tick (u\<lparr>u_complete_tick := Some t\<rparr>) = Some ta \<and> c = ta + u_latency_ticks (u\<lparr>u_complete_tick := Some t\<rparr>))) \<and>
       (i \<noteq> u_id u \<longrightarrow> (c, q, i) \<in> set (q_heap s))"
      using d unfolding 3(1,5) by force
    show "distinct (map (snd \<circ> snd) (q_heap s'))" using d unfolding 3(1,5) by simp
  qed
next
  case (4 u)
  obtain path ready level latency where
      i: "xdependency_ready_tick s u = Inr ready" "u_id u \<in> set (q_unissued s)"
      "q_uops s' = AList.update (u_id u) (as_issued u now ready path level latency) (q_uops s)"
      "q_unissued s' = remove1 (u_id u) (q_unissued s)"
      "q_heap s' = heappush (now + latency, u_sequence u, u_id u) (q_heap s)"
    using 4(3) by (rule issued_fromE)
  let ?u = "as_issued u now ready path level latency"
  have f: "u_dispatch_tick ?u = u_dispatch_tick u" "u_ready_tick ?u = Some ready" "u_issue_tick ?u = Some now"
      "u_complete_tick ?u = u_complete_tick u" "u_latency_ticks ?u = latency" "u_dependencies ?u = u_dependencies u"
    by (simp_all add: as_issued_def split: prod.splits)
  have waits: "u_issue_tick u = None" "u_dispatch_tick u \<noteq> None"
    using inv i(2) 4(1) unfolding schedule_inv_def by blast+
  have fresh: "u_complete_tick u = None"
  proof -
    have "times_ok now s u" using inv 4(1) by (simp add: schedule_inv_def)
    then show ?thesis using waits(1) by (cases "u_complete_tick u") (auto simp: times_ok_def)
  qed
  obtain d where d: "u_dispatch_tick u = Some d" using waits(2) by blast
  note r = xdependency_ready [OF 4(2) i(1)]
  have at: "xuop_at s' j = (if j = u_id u then Some ?u else xuop_at s j)" for j using i(3) by (simp add: update_conv')
  have cb: "completed_by s j x \<Longrightarrow> completed_by s' j x" for j x using 4(1) fresh by (auto simp: completed_by_def at)
  have out: "u_id u \<notin> (snd \<circ> snd) ` set (q_heap s)"
    using inv 4(1) waits(1) unfolding schedule_inv_def by fastforce
  show ?case
  proof (rule schedule_inv_put [OF inv 4(1) fresh i(3)])
    show "times_ok now s' ?u" using r d cb by (auto simp: times_ok_def f fresh or_zero_def)
    show "u_dispatch_tick ?u = None \<longrightarrow> u_issue_tick ?u = None" using d by (simp add: f)
    show "\<forall>j\<in>set (q_unissued s'). (j = u_id u \<longrightarrow> u_issue_tick ?u = None \<and> u_dispatch_tick ?u \<noteq> None) \<and>
        (j \<noteq> u_id u \<longrightarrow> j \<in> set (q_unissued s))"
      unfolding i(4) using un by auto
    show "\<forall>(c, q, j)\<in>set (q_heap s'). (j = u_id u \<longrightarrow> u_complete_tick ?u = None \<and>
         (\<exists>t. u_issue_tick ?u = Some t \<and> c = t + u_latency_ticks ?u)) \<and> (j \<noteq> u_id u \<longrightarrow> (c, q, j) \<in> set (q_heap s))"
      unfolding i(5) using out by (force simp: f fresh)
    show "distinct (map (snd \<circ> snd) (q_heap s'))"
      unfolding i(5) distinct_heappush using out inv by (simp add: schedule_inv_def)
  qed
next
  case (5 u choice)
  note c = coreD [OF 5(3) [unfolded enqueued_from_def]]
  let ?u = "u\<lparr>u_dispatch_tick := Some now, u_scheduler_partition := choice\<rparr>"
  have c': "q_uops s' = AList.update (u_id u) ?u (q_uops s)" "q_heap s' = q_heap s" "q_unissued s' = insert_id (u_id u) (q_unissued s)"
    using c by simp_all
  have issue: "u_issue_tick u = None" using inv 5(1,2) unfolding schedule_inv_def by blast
  have fresh: "u_complete_tick u = None"
  proof -
    have "times_ok now s u" using inv 5(1) by (simp add: schedule_inv_def)
    then show ?thesis using issue by (cases "u_complete_tick u") (auto simp: times_ok_def)
  qed
  have out: "u_id u \<notin> (snd \<circ> snd) ` set (q_heap s)"
    using inv 5(1) issue unfolding schedule_inv_def by fastforce
  show ?case
  proof (rule schedule_inv_put [OF inv 5(1) fresh c'(1)])
    show "times_ok now s' ?u" using issue fresh by (simp add: times_ok_def)
    show "u_dispatch_tick ?u = None \<longrightarrow> u_issue_tick ?u = None" by simp
    show "\<forall>j\<in>set (q_unissued s'). (j = u_id u \<longrightarrow> u_issue_tick ?u = None \<and> u_dispatch_tick ?u \<noteq> None) \<and>
        (j \<noteq> u_id u \<longrightarrow> j \<in> set (q_unissued s))"
      using issue by (auto simp: c'(3) insert_id_def)
    show "\<forall>(c, q, j)\<in>set (q_heap s'). (j = u_id u \<longrightarrow> u_complete_tick ?u = None \<and>
         (\<exists>t. u_issue_tick ?u = Some t \<and> c = t + u_latency_ticks ?u)) \<and> (j \<noteq> u_id u \<longrightarrow> (c, q, j) \<in> set (q_heap s))"
      unfolding c'(2) using out by force
    show "distinct (map (snd \<circ> snd) (q_heap s'))" unfolding c'(2) using inv by (simp add: schedule_inv_def)
  qed
qed

end
