(* ===== verification/XsaiReach.thy ===== *)
theory XsaiReach
  imports XsaiDispatchSteps XsaiInvariants
begin

text \<open>
  The states an XSAI run reaches: the operations of the event loop, the fact that each of them is a
  sequence of steps of the abstract machine, and the invariants that therefore hold in every state
  between two operations, from the state the constructor builds on.
\<close>

section \<open>The operations of the loop\<close>

text \<open>
  One operation of \<open>run\<close> as the code performs it: the phases of a pass, and the choice of the next
  tick.  One macro-op of a dispatch cycle and one issue of a candidate that nothing blocks are
  operations too, so that the states inside the two longest phases are covered.
\<close>

inductive xoperation :: "xsai_env \<Rightarrow> int \<times> xsai_state \<Rightarrow> int \<times> xsai_state \<Rightarrow> bool" for e where
  OpComplete: "xcomplete e now s = Inr (s', changed) \<Longrightarrow> xoperation e (now, s) (now, s')"
| OpFlows: "release_vector_memory_flows now s = Inr s' \<Longrightarrow> xoperation e (now, s) (now, s')"
| OpRename: "release_rename e now s = Inr s' \<Longrightarrow> xoperation e (now, s) (now, s')"
| OpDispatch: "xdispatch e now s = Inr s' \<Longrightarrow> xoperation e (now, s) (now, s')"
| OpDispatchMacro: "q_next_dispatch s < length (n_macro_order e) \<Longrightarrow>
     xmacro_at s (n_macro_order e ! q_next_dispatch s) = Some m \<Longrightarrow>
     dispatch_step e now m (s, c) = Inr (s', c', go_on) \<Longrightarrow> xoperation e (now, s) (now, s')"
| OpIssue: "xuop_at s i = Some u \<Longrightarrow> xissue_blocker e u now s = Inr (s1, None, earliest) \<Longrightarrow>
     xissue_uop e u now s1 = Inr s' \<Longrightarrow> xoperation e (now, s) (now, s')"
| OpIssueAll: "xissue_fixed_point e now s = Inr s' \<Longrightarrow> xoperation e (now, s) (now, s')"
| OpRetire: "xretire e now s = Inr s' \<Longrightarrow> xoperation e (now, s) (now, s')"
| OpPeaks: "xrecord_peaks e s = Inr s' \<Longrightarrow> xoperation e (now, s) (now, s')"
| OpNext: "xnext_event_tick e now s = Inr (s', now') \<Longrightarrow> now < now' \<Longrightarrow> xoperation e (now, s) (now', s')"

inductive_cases xoperationE: "xoperation e (now, s) (now', s')"

abbreviation xoperations :: "xsai_env \<Rightarrow> int \<times> xsai_state \<Rightarrow> int \<times> xsai_state \<Rightarrow> bool" where
  "xoperations e \<equiv> (xoperation e)\<^sup>*\<^sup>*"

lemma xissue_one_steps:
  assumes "tables_ok s" and "xuop_at s i = Some u" and "xissue_blocker e u now s = Inr (s1, None, earliest)"
    and "xissue_uop e u now s1 = Inr s'"
  shows "xsteps e (now, s) (now, s')"
proof -
  have "xissue_loop e now [i] s False = Inr (s', True)" using assms by (simp add: fetch_def)
  from wp_Inr_eqD [OF xissue_loop_run [OF assms(1)] this] show ?thesis by simp
qed

lemma xoperation_steps:
  assumes "xoperation e (now, s) (now', s')" and tab: "tables_ok s" and ok: "admitted_ok s"
  shows "xsteps e (now, s) (now', s')"
  using assms(1)
proof (elim xoperationE, goal_cases)
  case (1 changed)
  then show ?case using wp_Inr_eqD [OF xcomplete_run [OF tab]] by fastforce
next
  case 2
  then have "core s' = core s" using wp_Inr_eqD [OF release_flows_run [OF refl]] by (auto simp: release_vector_memory_flows_def)
  then show ?case using 2 by (simp add: xsteps_frame)
next
  case 3
  then show ?case using wp_Inr_eqD [OF release_rename_run] by simp
next
  case 4
  then show ?case using wp_Inr_eqD [OF xdispatch_run [OF tab ok]] by simp
next
  case (5 m c c' go_on)
  have "next_macro e s m" using 5(2,3) tables_okD(2) [OF tab 5(3)] by (simp add: next_macro_def)
  from wp_Inr_eqD [OF dispatch_step_runs [OF tab this ok] 5(4)] show ?case using 5(1) by simp
next
  case (6 i u s1 earliest)
  then show ?case using xissue_one_steps [OF tab] by blast
next
  case 7
  then show ?case using xissue_fixed_point_run [OF tab] by simp
next
  case 8
  then show ?case using wp_Inr_eqD [OF xretire_run [OF tab]] by simp
next
  case 9
  then show ?case using xsteps_frame [OF wp_Inr_eqD [OF xrecord_peaks_core]] by simp
next
  case 10
  have "core s' = core s" using wp_Inr_eqD [OF xnext_event_core 10(1)] by simp
  then have "xsteps e (now, s) (now, s')" by (rule xsteps_frame)
  also have "xsteps e (now, s') (now', s')" using 10(2) by (intro r_into_rtranclp XAdvance)
  finally show ?case .
qed

lemma xoperations_steps:
  "xoperations e (now, s) (now', s') \<Longrightarrow> tables_ok s \<Longrightarrow> admitted_ok s \<Longrightarrow> xsteps e (now, s) (now', s')"
proof (induction rule: rtranclp_induct2)
  case (step now1 s1 now2 s2)
  then have st: "xsteps e (now, s) (now1, s1)" by blast
  from xoperation_steps [OF step(2) tables_ok_steps [OF st] admitted_ok_steps [OF st]] step.prems st
  show ?case by (auto intro: rtranclp_trans)
qed simp

text \<open>A pass of the loop and the whole run are operations.\<close>

lemma xrun_phases_operations:
  assumes "xrun_phases e now s = Inr s'"
  shows "xoperations e (now, s) (now, s')"
proof -
  note defs = xrun_phases_def rbind_eq_Inr_iff
  obtain s1 b1 where 1: "xcomplete e now s = Inr (s1, b1)" using assms by (auto simp: defs)
  then obtain s2 where 2: "release_vector_memory_flows now s1 = Inr s2" using assms by (auto simp: defs)
  then obtain s3 where 3: "release_rename e now s2 = Inr s3" using assms 1 by (auto simp: defs)
  obtain s4 s5 s6 b6 s7 where
      4: "(if now mod n_tpc e = 0 then xdispatch e now s3 else Inr s3) = Inr s4" and
      5: "xissue_fixed_point e now s4 = Inr s5" and 6: "xcomplete e now s5 = Inr (s6, b6)" and
      7: "(if now mod n_tpc e = 0 then xretire e now s6 else Inr s6) = Inr s7" and 8: "xrecord_peaks e s7 = Inr s'"
    using assms 1 2 3 by (auto simp: defs Let_def split: if_splits)
  have d: "xoperations e (now, s3) (now, s4)" using 4 by (auto intro: OpDispatch split: if_splits)
  have r: "xoperations e (now, s6) (now, s7)" using 7 by (auto intro: OpRetire split: if_splits)
  have "xoperations e (now, s) (now, s3)"
    using OpComplete [OF 1] OpFlows [OF 2] OpRename [OF 3] by (meson rtranclp.rtrancl_into_rtrancl rtranclp.rtrancl_refl)
  also note d
  also have "xoperations e (now, s4) (now, s6)"
    using OpIssueAll [OF 5] OpComplete [OF 6] by (meson rtranclp.rtrancl_into_rtrancl rtranclp.rtrancl_refl)
  also note r
  also have "xoperations e (now, s7) (now, s')" using OpPeaks [OF 8] by blast
  finally show ?thesis .
qed

lemma xrun_loop_operations:
  "xrun_loop e fuel now s = Inr (s', final) \<Longrightarrow> xoperations e (now, s) (final, s') \<and> xfinished e s'"
proof (induction fuel arbitrary: now s)
  case 0
  then show ?case by (subst (asm) xrun_loop.simps) (auto split: if_splits)
next
  case (Suc fuel)
  show ?case
  proof (cases "xfinished e s")
    case True
    then show ?thesis using Suc.prems by (subst (asm) xrun_loop.simps) auto
  next
    case False
    then obtain s1 where 1: "xrun_phases e now s = Inr s1"
        and 2: "(if xfinished e s1 then Inr (s1, now)
            else rbind (xnext_event_tick e now s1) (\<lambda>(s2, next_tick).
              if next_tick \<le> now then Inl (XNoForwardProgress now)
              else xrun_loop e fuel next_tick s2)) = Inr (s', final)"
      using Suc.prems by (subst (asm) xrun_loop.simps) (auto simp: rbind_eq_Inr_iff)
    note a1 = xrun_phases_operations [OF 1]
    show ?thesis
    proof (cases "xfinished e s1")
      case True
      then show ?thesis using a1 2 by auto
    next
      case False
      then obtain s2 t where 3: "xnext_event_tick e now s1 = Inr (s2, t)" "now < t"
          and 4: "xrun_loop e fuel t s2 = Inr (s', final)"
        using 2 by (auto simp: rbind_eq_Inr_iff split: if_splits)
      have "xoperations e (now, s) (t, s2)" using a1 OpNext [OF 3] by (rule rtranclp.rtrancl_into_rtrancl)
      with Suc.IH [OF 4] show ?thesis by (auto intro: rtranclp_trans)
    qed
  qed
qed

section \<open>Where a run starts\<close>

text \<open>What the binder and the expander deliver: fresh records, counts that are not negative.\<close>

definition xsai_workload :: "xsai_state \<Rightarrow> bool" where
  "xsai_workload s \<longleftrightarrow>
     list_all (\<lambda>(_, u). u_dispatch_tick u = None \<and> u_issue_tick u = None \<and> u_complete_tick u = None) (q_uops s) \<and>
     list_all (\<lambda>(_, m). m_dispatch_tick m = None \<and> m_complete_tick m = None \<and> m_retire_tick m = None \<and>
       distinct (m_uop_ids m) \<and> 0 \<le> rob_entry_count m \<and> distinct (keys (m_rename_allocations m)) \<and>
       list_all (\<lambda>(_, n). 0 \<le> n) (m_rename_allocations m)) (q_macros s)"

definition xsai_starts :: "bound_trace \<Rightarrow> int option \<Rightarrow> bool \<Rightarrow> string \<Rightarrow> xsai_profile \<Rightarrow> string \<Rightarrow> cache_mode \<Rightarrow> bool option
    \<Rightarrow> xsai_env \<Rightarrow> xsai_state \<Rightarrow> bool" where
  "xsai_starts t version expand backend p model mode limit e s \<longleftrightarrow>
     make_xengine t version expand backend p model mode limit = Inr (e, s) \<and> xsai_workload s"

text \<open>A state the engine built from the trace is in after operations of the loop.\<close>

definition xsai_reaches :: "bound_trace \<Rightarrow> int option \<Rightarrow> bool \<Rightarrow> string \<Rightarrow> xsai_profile \<Rightarrow> string \<Rightarrow> cache_mode \<Rightarrow> bool option
    \<Rightarrow> xsai_env \<Rightarrow> int \<Rightarrow> xsai_state \<Rightarrow> bool" where
  "xsai_reaches t version expand backend p model mode limit e now s' \<longleftrightarrow>
     (\<exists>s. xsai_starts t version expand backend p model mode limit e s \<and> xoperations e (0, s) (now, s'))"

lemma backend_view_well_formed:
  assumes "backend_view t version expand p = Inr (view, t')" and "well_formed_trace t"
  shows "well_formed_trace t'" "map m_id (bt_macros t') = map m_id (bt_macros t)"
proof -
  have "well_formed_trace t' \<and> map m_id (bt_macros t') = map m_id (bt_macros t)"
  proof (cases "expand \<and> version = Some 2")
    case False
    then show ?thesis using assms by (auto simp: backend_view_def qlift_def rbind_eq_Inr_iff split: sum.splits)
  next
    case True
    then obtain b where "materialize_xsai_trace t b = Inr t'"
      using assms(1) by (auto simp: backend_view_def qlift_def rbind_eq_Inr_iff split: sum.splits)
    then obtain uops macros where m: "rmap (materialize_macro b) (bt_macros t) = Inr macros"
        and c: "checked_trace (t\<lparr>bt_macros := macros, bt_uops := uops\<rparr>) = Inr ()" and t': "t' = t\<lparr>bt_macros := macros, bt_uops := uops\<rparr>"
      by (auto simp: materialize_xsai_trace_def rbind_eq_Inr_iff Let_def)
    have "list_all2 (\<lambda>s m. m_id m = m_id s) (bt_macros t) macros"
      using m unfolding rmap_Inr_iff by (rule list_all2_mono) (auto simp: materialize_macro_def rbind_eq_Inr_iff)
    then have "map m_id macros = map m_id (bt_macros t)" by (induction rule: list_all2_induct) simp_all
    moreover have "well_formed_trace t'" using c validate_iff [of t'] unfolding checked_trace_def t'
      by (auto split: sum.splits)
    ultimately show ?thesis by (simp add: t')
  qed
  then show "well_formed_trace t'" "map m_id (bt_macros t') = map m_id (bt_macros t)" by blast+
qed

lemma qlift_Inr: "qlift wrap m = Inr x \<longleftrightarrow> m = Inr x"
  by (simp add: qlift_def split: sum.split)

lemma make_xengine_start:
  assumes "make_xengine t version expand backend p model mode limit = Inr (e, s)"
  obtains t' memory reads writes where "s = initial_state t' p memory reads writes" "n_profile e = p"
     "n_read_capacity e = reads" "n_completion_capacity e = writes" "n_macro_order e = map m_id (bt_macros t')"
     "well_formed_trace t'" "map m_id (bt_macros t') = map m_id (bt_macros t)"
proof -
  obtain view t' memory reads writes where 1: "validate_bound_trace t = Inr ()" "backend_view t version expand p = Inr (view, t')"
      "s = initial_state t' p memory reads writes" "n_profile e = p" "n_read_capacity e = reads" "n_completion_capacity e = writes"
      "n_macro_order e = map m_id (bt_macros t')"
    using assms unfolding make_xengine_def Let_def rbind_eq_Inr_iff
    by (elim exE conjE) (auto simp: rbind_eq_Inr_iff qlift_Inr split: prod.splits)
  have "well_formed_trace t" using 1(1) validate_iff [of t] by simp
  note view = backend_view_well_formed [OF 1(2) this]
  show thesis by (rule that [OF 1(3-7) view])
qed

section \<open>The invariants\<close>

definition xinv :: "xsai_env \<Rightarrow> int \<Rightarrow> xsai_state \<Rightarrow> bool" where
  "xinv e now s \<longleftrightarrow> tables_ok s \<and> counts_ok s \<and> token_inv e s \<and> queue_inv e s \<and> rename_inv e s \<and>
     (\<not> rn_enabled (np_rename (n_profile e)) \<longrightarrow> q_rename_pending s = []) \<and> partition_inv e s \<and> schedule_inv now s \<and>
     admitted_ok s \<and> distinct (n_macro_order e) \<and> order_inv e now s \<and> retire_inv s"

lemma xstep_time: "xstep e (now, s) (now', s') \<Longrightarrow> now \<le> now'"
  by (elim xstepE) simp_all

lemma order_inv_later: "order_inv e now s \<Longrightarrow> now \<le> now' \<Longrightarrow> order_inv e now' s"
  unfolding order_inv_def using in_order_later by blast

lemma xinv_step:
  assumes st: "xstep e (now, s) (now', s')" and inv: "xinv e now s"
  shows "xinv e now' s'"
proof -
  have tab: "tables_ok s" and d: "distinct (q_unissued s)" using inv by (simp_all add: xinv_def partition_inv_def)
  note static = same_static_step [OF st tab]
  have "tables_ok s'" by (rule tables_ok_static [OF static tab])
  moreover have "counts_ok s'" using counts_ok_static [OF static] inv by (simp add: xinv_def)
  moreover have "token_inv e s'" using token_inv_step [OF st] inv by (simp add: xinv_def)
  moreover have "queue_inv e s'" using queue_inv_step [OF static xstep_queues [OF st]] inv by (simp add: xinv_def)
  moreover have "rename_inv e s'" "\<not> rn_enabled (np_rename (n_profile e)) \<longrightarrow> q_rename_pending s' = []"
    using rename_inv_step [OF static xstep_queues [OF st]] inv unfolding xinv_def by blast+
  moreover have "partition_inv e s'" using partition_inv_step [OF st] inv by (simp add: xinv_def)
  moreover have "schedule_inv now s'" using schedule_inv_step [OF xstep_schedule [OF st] _ d] inv by (simp add: xinv_def)
  then have "schedule_inv now' s'" by (rule schedule_inv_later) (rule xstep_time [OF st])
  moreover have "admitted_ok s'" using admitted_ok_step [OF st tab] inv by (simp add: xinv_def)
  moreover have "order_inv e now s'" using order_inv_step [OF xstep_order [OF st tab]] inv by (simp add: xinv_def)
  then have "order_inv e now' s'" by (rule order_inv_later) (rule xstep_time [OF st])
  moreover have "retire_inv s'" using retire_inv_step [OF st tab] inv by (simp add: xinv_def)
  ultimately show ?thesis using inv by (simp add: xinv_def)
qed

lemma xinv_steps: "xsteps e (now, s) (now', s') \<Longrightarrow> xinv e now s \<Longrightarrow> xinv e now' s'"
  by (induction rule: rtranclp_induct2) (auto dest: xinv_step)

lemma xinv_operations: "xoperations e (now, s) (now', s') \<Longrightarrow> xinv e now s \<Longrightarrow> xinv e now' s'"
  using xinv_steps xoperations_steps unfolding xinv_def by blast

lemma map_of_keyed: "map_of (map (\<lambda>x. (f x, x)) xs) i = Some x \<Longrightarrow> f x = i"
  by (auto dest!: map_of_SomeD)

lemma map_of_constant: "map_of (map (\<lambda>(d, _). (d, c)) xs) i = Some x \<Longrightarrow> x = c"
  by (auto dest!: map_of_SomeD)

lemma initial_tables:
  assumes s: "s = initial_state t p memory reads writes" and wf: "well_formed_trace t" and w: "xsai_workload s"
  shows "tables_ok s"
  unfolding tables_ok_def
proof (intro conjI allI impI)
  fix i u assume "xuop_at s i = Some u"
  then show "u_id u = i" by (auto simp: s initial_state_def dest: map_of_keyed)
next
  fix i m assume m: "xmacro_at s i = Some m"
  then show i: "m_id m = i" by (auto simp: s initial_state_def dest: map_of_keyed)
  have "m \<in> set (bt_macros t)" using map_of_SomeD [OF m] by (auto simp: s initial_state_def)
  then have "macro_well_formed t m" using wf by (simp add: well_formed_trace_def)
  then show "m_uop_ids m \<noteq> []" "\<forall>j\<in>set (m_uop_ids m). \<exists>u. xuop_at s j = Some u \<and> u_parent_id u = i"
    using i by (simp_all add: macro_well_formed_def s initial_state_def uop_dict_def)
  show "distinct (m_uop_ids m)" using w map_of_SomeD [OF m] by (auto simp: xsai_workload_def list_all_iff)
qed

lemma initial_order:
  assumes s: "s = initial_state t p memory reads writes" and o: "n_macro_order e = map m_id (bt_macros t)" and wf: "well_formed_trace t"
    and f: "\<And>i m. xmacro_at s i = Some m \<Longrightarrow> f m = None"
  shows "in_order f e 0 s 0"
proof -
  have "\<exists>m. xmacro_at s (n_macro_order e ! j) = Some m" if "j < length (n_macro_order e)" for j
  proof -
    have "distinct (map m_id (bt_macros t))" using wf by (simp add: well_formed_trace_def)
    then have "distinct (map fst (map (\<lambda>m. (m_id m, m)) (bt_macros t)))" by (simp add: o_def)
    moreover have "(m_id (bt_macros t ! j), bt_macros t ! j) \<in> set (map (\<lambda>m. (m_id m, m)) (bt_macros t))"
      using that by (simp add: o)
    ultimately have "map_of (map (\<lambda>m. (m_id m, m)) (bt_macros t)) (m_id (bt_macros t ! j)) = Some (bt_macros t ! j)"
      by (rule map_of_is_SomeI)
    then show ?thesis using that by (simp add: s initial_state_def o)
  qed
  with f show ?thesis unfolding in_order_def by fastforce
qed

lemma start_xinv:
  assumes "xsai_starts t version expand backend p model mode limit e s"
  shows "xinv e 0 s"
proof -
  have "make_xengine t version expand backend p model mode limit = Inr (e, s)" and w: "xsai_workload s"
    using assms by (simp_all add: xsai_starts_def)
  from make_xengine_start [OF this(1)] obtain t' memory reads writes where s: "s = initial_state t' p memory reads writes"
      and e: "n_profile e = p" "n_read_capacity e = reads" "n_completion_capacity e = writes"
      and o: "n_macro_order e = map m_id (bt_macros t')" and wf: "well_formed_trace t'" .
  have uw: "u_dispatch_tick u = None \<and> u_issue_tick u = None \<and> u_complete_tick u = None" if "xuop_at s i = Some u" for i u
    using w map_of_SomeD [OF that] by (auto simp: xsai_workload_def list_all_iff)
  have mw: "m_dispatch_tick m = None \<and> m_complete_tick m = None \<and> m_retire_tick m = None \<and> 0 \<le> rob_entry_count m \<and>
      distinct (keys (m_rename_allocations m)) \<and> (\<forall>(_, n)\<in>set (m_rename_allocations m). 0 \<le> n)" if "xmacro_at s i = Some m" for i m
    using w map_of_SomeD [OF that] by (auto simp: xsai_workload_def list_all_iff)
  have "tables_ok s" by (rule initial_tables [OF s wf w])
  moreover have "counts_ok s" using mw unfolding counts_ok_def by blast
  moreover have "token_inv e s"
    by (auto simp: token_inv_def books_ok_def s initial_state_def counter_get_def dest!: map_of_constant)
  moreover have "queue_inv e s" by (simp add: queue_inv_def s initial_state_def xrob_sum_def)
  moreover have "rename_inv e s"
    by (simp add: rename_inv_def s initial_state_def xrob_sum_def pending_held_def e)
  moreover have "q_rename_pending s = []" by (simp add: s initial_state_def)
  moreover have "partition_inv e s"
    by (auto simp: partition_inv_def s initial_state_def waiting_in_def dest!: map_of_constant)
  moreover have "schedule_inv 0 s"
    using uw by (auto simp: schedule_inv_def times_ok_def) (simp_all add: s initial_state_def)
  moreover have "admitted_ok s" using uw by (simp add: admitted_ok_def)
  moreover have "distinct (n_macro_order e)" using wf by (simp add: o well_formed_trace_def)
  moreover have "in_order m_dispatch_tick e 0 s 0" "in_order m_retire_tick e 0 s 0"
    using mw by (blast intro: initial_order [OF s o wf])+
  then have "order_inv e 0 s" unfolding order_inv_def by (intro exI [of _ 0]) (simp add: s initial_state_def)
  moreover have "retire_inv s" using mw by (simp add: retire_inv_def)
  ultimately show ?thesis by (simp add: xinv_def)
qed

lemma xsai_reaches_inv: "xsai_reaches t version expand backend p model mode limit e now s \<Longrightarrow> xinv e now s"
  unfolding xsai_reaches_def using start_xinv xinv_operations by blast

lemma xrun_reaches:
  assumes "xsai_starts t version expand backend p model mode limit e s" and "xrun_loop e fuel 0 s = Inr (s', final)"
  shows "xsai_reaches t version expand backend p model mode limit e final s'" "xfinished e s'"
  using assms(1) xrun_loop_operations [OF assms(2)] unfolding xsai_reaches_def by blast+

section \<open>The end of a run\<close>

text \<open>The macro-op \<open>i\<close> has retired, no earlier than its last entry completed; every entry was dispatched, issued and completed.\<close>

definition macro_retired :: "xsai_state \<Rightarrow> int \<Rightarrow> string \<Rightarrow> bool" where
  "macro_retired s final i \<longleftrightarrow> (\<exists>m d c r. xmacro_at s i = Some m \<and> m_dispatch_tick m = Some d \<and>
     m_complete_tick m = Some c \<and> m_retire_tick m = Some r \<and> c \<le> r \<and> r \<le> final \<and> m_uop_ids m \<noteq> [] \<and>
     (\<forall>j\<in>set (m_uop_ids m). \<exists>u du k cu. xuop_at s j = Some u \<and> u_dispatch_tick u = Some du \<and> u_issue_tick u = Some k \<and>
        u_complete_tick u = Some cu \<and> du \<le> k \<and> cu = k + u_latency_ticks u \<and> cu \<le> c))"

lemma finished_retired:
  assumes inv: "xinv e final s" and fin: "xfinished e s" and i: "i \<in> set (n_macro_order e)"
  shows "macro_retired s final i"
proof -
  let ?o = "n_macro_order e"
  obtain k n where kn: "k \<le> n" "n \<le> length ?o" "q_rob s = drop k (take n ?o)" "n = q_next_dispatch s \<or> n = Suc (q_next_dispatch s)"
      and od: "in_order m_dispatch_tick e final s n" and ret: "in_order m_retire_tick e final s k"
    using inv by (auto simp: xinv_def order_inv_def)
  have "length ?o \<le> n" "q_rob s = []" using fin kn(4) by (auto simp: xfinished_def)
  then have k: "k = length ?o" "n = length ?o" using kn by auto
  obtain j where j: "j < length ?o" "?o ! j = i" using i by (auto simp: in_set_conv_nth)
  obtain m d r where m: "xmacro_at s i = Some m" "m_dispatch_tick m = Some d" "m_retire_tick m = Some r" "r \<le> final"
    using in_orderD(1) [OF od j(1)] in_orderD(1) [OF ret j(1)] j k by auto
  obtain c where c: "m_complete_tick m = Some c" "c \<le> r" "last_completion (q_uops s) m c"
    using inv m unfolding xinv_def retire_inv_def by blast
  have "\<exists>u du k cu. xuop_at s x = Some u \<and> u_dispatch_tick u = Some du \<and> u_issue_tick u = Some k \<and>
        u_complete_tick u = Some cu \<and> du \<le> k \<and> cu = k + u_latency_ticks u \<and> cu \<le> c" if x: "x \<in> set (m_uop_ids m)" for x
  proof -
    obtain u cu where u: "xuop_at s x = Some u" "u_complete_tick u = Some cu" "cu \<le> c"
      using c(3) x unfolding last_completion_def by blast
    have "times_ok final s u" using inv u(1) by (simp add: xinv_def schedule_inv_def)
    then show ?thesis using u unfolding times_ok_def by fastforce
  qed
  moreover have "m_uop_ids m \<noteq> []" using inv tables_okD(4) [OF _ m(1)] by (simp add: xinv_def)
  ultimately show ?thesis using m c unfolding macro_retired_def by blast
qed

text \<open>Admission and retirement follow the order of the trace.\<close>

definition program_ordered :: "xsai_env \<Rightarrow> xsai_state \<Rightarrow> (macro_op \<Rightarrow> int option) \<Rightarrow> bool" where
  "program_ordered e s f \<longleftrightarrow> (\<forall>i j m m' t t'. i < j \<longrightarrow> j < length (n_macro_order e) \<longrightarrow>
     xmacro_at s (n_macro_order e ! i) = Some m \<longrightarrow> xmacro_at s (n_macro_order e ! j) = Some m' \<longrightarrow>
     f m' = Some t' \<longrightarrow> f m \<noteq> None \<and> (f m = Some t \<longrightarrow> t \<le> t'))"

lemma xinv_ordered:
  assumes "xinv e now s"
  shows "program_ordered e s m_dispatch_tick" "program_ordered e s m_retire_tick"
proof -
  have "program_ordered e s f" if f: "in_order f e now s n" for f n
    unfolding program_ordered_def
  proof (intro allI impI conjI)
    fix i j m m' t t' assume a: "i < j" "j < length (n_macro_order e)" "xmacro_at s (n_macro_order e ! i) = Some m"
      "xmacro_at s (n_macro_order e ! j) = Some m'" "f m' = Some t'"
    show "f m \<noteq> None" using in_orderD(1) [OF f a(2)] in_orderD(1) [OF f, of i] a by auto
    show "t \<le> t'" if "f m = Some t" using in_orderD(2) [OF f a(1-4) that a(5)] .
  qed
  then show "program_ordered e s m_dispatch_tick" "program_ordered e s m_retire_tick"
    using assms unfolding xinv_def order_inv_def by blast+
qed

end
