(* ===== verification/XsaiProperties.thy ===== *)
theory XsaiProperties
  imports XsaiReach MemoryInvariants
begin

text \<open>
  What the XSAI engine guarantees: the partition assignment is exact, completion arbitration ends,
  in every state the operations of the event loop reach the capacities hold, rename registers are
  conserved and the schedule respects dependencies, and a run that returns has retired the whole
  trace in program order.
\<close>

section \<open>An example\<close>

definition xdemo_profile :: xsai_profile where
  "xdemo_profile =
     \<lparr>np_id = ''demo'', np_dispatch_width = 2, np_retire_width = 2, np_rob_entries = 4,
      np_vector_scheduler_entries = 4, np_load_queue_entries = 4, np_store_queue_entries = 4,
      np_register_width = 128, np_partitions = [(''vq'', \<lparr>pa_entries = 2, pa_enqueue_width = 1, pa_kind = ''vector_compute''\<rparr>)],
      np_units = [(''vfu'', \<lparr>eu_partition = ''vq'', eu_functional_units = [''fma''], eu_read_domain = Some ''vrd'',
        eu_writeback_domain = Some ''vwb''\<rparr>)],
      np_register_files = [\<lparr>rf_read_domains = [(''vrd'', 1)], rf_writeback_domains = [(''vwb'', 1)]\<rparr>],
      np_dispatch_domains = [],
      np_rename = \<lparr>rn_enabled = True, rn_free_lists = [(''vrf'', 4)], rn_allocation_width = 2, rn_release_width = 1,
        rn_release_delay_ticks = 0, rn_availability_delay_ticks = 0, rn_guard_entries = 1\<rparr>,
      np_issue_domains = [(''port'', 2)], np_overlap_enabled = True, np_overlap_max_pending = 1, np_overlap_kinds = [''fma''],
      np_vector_memory = \<lparr>vm_issue_order = ''oldest'', vm_store_completion_ticks = 0, vm_split_lanes = [],
        vm_service_capacity = [], vm_service_ticks = None, vm_flow_split = None\<rparr>,
      np_epochs = \<lparr>ep_enabled = False, ep_load_only_visibility_ticks = 0, ep_multi_load_drain_ticks = 0,
        ep_chained_compute_drain_ticks = 0, ep_parallel_reduction_overlap_ticks = 0, ep_mixed_store_reduction_capacity = 1\<rparr>,
      np_memory = demo_profile\<rparr>"

definition xdemo_fma :: "string \<Rightarrow> int \<Rightarrow> string \<Rightarrow> string list \<Rightarrow> execution_uop" where
  "xdemo_fma i sequence parent deps =
     blank_uop\<lparr>u_id := i, u_sequence := sequence, u_parent_id := parent, u_kind := ''vector_fp'', u_scheduling_class := ''fma'',
       u_latency_ticks := 4, u_resource_choices := [''fma''], u_issue_domains := [''port''], u_dependencies := deps,
       u_scheduler_partition_choices := [''vq''], u_execution_unit_choices := [''vfu''],
       u_requires_completion_token := True, u_requires_vector_read_token := True\<rparr>"

definition xdemo_trace :: bound_trace where
  "xdemo_trace = \<lparr>bt_trace_version = 1, bt_profile_id = ''demo'', bt_profile_sha256 = '''', bt_ticks_per_cycle = 2,
     bt_macros = [blank_macro\<lparr>m_id := ''m0'', m_uop_ids := [''f''], m_rename_allocations := [(''vrf'', 1)]\<rparr>,
       blank_macro\<lparr>m_id := ''m1'', m_sequence := 1, m_uop_ids := [''g''], m_rename_allocations := [(''vrf'', 1)]\<rparr>],
     bt_uops = [xdemo_fma ''f'' 0 ''m0'' [], xdemo_fma ''g'' 1 ''m1'' [''f'']],
     bt_resources = [(''fma'', \<lparr>r_id = ''fma'', r_capacity = 1, r_bytes_per_cycle = None\<rparr>)],
     bt_workload = JNull, bt_source_trace = []\<rparr>"

definition xdemo_start :: "xsai_env \<times> xsai_state" where
  "xdemo_start = (case make_xengine xdemo_trace None False ''generic-token'' xdemo_profile ''out_of_order'' Cold None of
     Inl _ \<Rightarrow> undefined | Inr x \<Rightarrow> x)"

abbreviation xdemo_env :: xsai_env where "xdemo_env \<equiv> fst xdemo_start"
abbreviation xdemo_state :: xsai_state where "xdemo_state \<equiv> snd xdemo_start"

definition xdemo_run :: "xsai_state \<times> int" where
  "xdemo_run = (case xrun_loop xdemo_env 20 0 xdemo_state of Inl _ \<Rightarrow> undefined | Inr x \<Rightarrow> x)"

abbreviation xdemo_end :: xsai_state where "xdemo_end \<equiv> fst xdemo_run"

text \<open>What the witnesses read of the run, evaluated once.\<close>

definition xdemo_seen :: "xsai_env \<Rightarrow> xsai_state \<Rightarrow> bool" where
  "xdemo_seen e s \<longleftrightarrow> n_tpc e = 2 \<and> map_of (n_completion_capacity e) ''vwb'' = Some 1 \<and>
     map_of (q_completion_reservations s) ''vwb'' = Some [(2, 1), (4, 1)] \<and>
     (case reserve_completion_domain e ''vwb'' 4 s of Inl _ \<Rightarrow> False | Inr (_, t) \<Rightarrow> t = 6) \<and>
     (case xuop_at s ''g'' of None \<Rightarrow> False
      | Some u \<Rightarrow> u_dependencies u = [''f''] \<and> u_issue_tick u = Some 4 \<and> u_complete_tick u = Some 8)"

lemma xdemo_evaluated:
  "(case make_xengine xdemo_trace None False ''generic-token'' xdemo_profile ''out_of_order'' Cold None of Inl _ \<Rightarrow> False
    | Inr (e, s) \<Rightarrow> xsai_workload s \<and> (case xrun_loop e 20 0 s of Inl _ \<Rightarrow> False | Inr (s', n) \<Rightarrow> n = 8 \<and> xdemo_seen e s'))"
  by code_simp

lemma xdemo_engine:
  "make_xengine xdemo_trace None False ''generic-token'' xdemo_profile ''out_of_order'' Cold None = Inr (xdemo_env, xdemo_state)"
  using xdemo_evaluated by (auto simp: xdemo_start_def split: sum.splits)

lemma xdemo_facts: "xsai_workload xdemo_state" "xrun_loop xdemo_env 20 0 xdemo_state = Inr (xdemo_end, 8)" "xdemo_seen xdemo_env xdemo_end"
proof -
  have "xsai_workload xdemo_state \<and> (case xrun_loop xdemo_env 20 0 xdemo_state of Inl _ \<Rightarrow> False | Inr (s', n) \<Rightarrow> n = 8 \<and> xdemo_seen xdemo_env s')"
    using xdemo_evaluated unfolding xdemo_engine by (simp only: sum.case prod.case)
  then show "xsai_workload xdemo_state" "xrun_loop xdemo_env 20 0 xdemo_state = Inr (xdemo_end, 8)" "xdemo_seen xdemo_env xdemo_end"
    by (auto simp: xdemo_run_def split: sum.splits)
qed

lemma xdemo_starts:
  "xsai_starts xdemo_trace None False ''generic-token'' xdemo_profile ''out_of_order'' Cold None xdemo_env xdemo_state"
  using xdemo_facts(1) by (simp add: xsai_starts_def xdemo_engine)

lemma xdemo_reaches_end:
  "xsai_reaches xdemo_trace None False ''generic-token'' xdemo_profile ''out_of_order'' Cold None xdemo_env 8 xdemo_end"
  using xrun_reaches [OF xdemo_starts xdemo_facts(2)] by blast

lemma xdemo_profile_of: "n_profile xdemo_env = xdemo_profile"
  using make_xengine_start [OF xdemo_engine] by blast

section \<open>Properties\<close>

text \<open>
  C29. Partition assignment is exact: the backtracking search over the entries of a macro-op returns
  an assignment, of the entries in order and within the free slots and enqueue widths of the
  partitions, exactly when one exists; it answers that there is none only when there is none.
\<close>

theorem partition_assignment_exact:
  "case assign parts enforce us occ enq of
     Some r \<Rightarrow> assignment_fits parts enforce us occ enq (map snd r) \<and> map fst r = map u_id us
   | None \<Rightarrow> \<not> (\<exists>ps. assignment_fits parts enforce us occ enq ps)"
  using assign_try_correct(1) [of parts enforce us occ enq] by (auto split: option.splits)

text \<open>
  C30. Completion arbitration ends: for a domain with a capacity the search for a free completion
  token returns, at the latency tick itself or at the first tick of a later cycle, the first cycle
  from there on with a free token, and books it; every earlier cycle is full.
\<close>

theorem reserve_completion_returns:
  assumes "0 < n_tpc e" and "map_of (q_completion_reservations s) d = Some used"
    and "map_of (n_completion_capacity e) d = Some capacity" and "0 < capacity"
  shows "\<exists>t. reserve_completion_domain e d tick s = Inr (s\<lparr>q_completion_reservations :=
       AList.update d (counter_add used (t div n_tpc e) 1) (q_completion_reservations s)\<rparr>, t) \<and>
     tick \<le> t \<and> (t = tick \<or> t mod n_tpc e = 0) \<and> counter_get used (t div n_tpc e) < capacity \<and>
     (\<forall>c. tick div n_tpc e \<le> c \<and> c < t div n_tpc e \<longrightarrow> capacity \<le> counter_get used c)"
proof -
  from free_tick_from_returns [OF assms(1,4), of used tick] obtain t where t: "free_tick_from (n_tpc e) used capacity tick = Some t" "tick \<le> t"
      "t = tick \<or> t mod n_tpc e = 0" "counter_get used (t div n_tpc e) < capacity"
      "\<forall>c. tick div n_tpc e \<le> c \<and> c < t div n_tpc e \<longrightarrow> capacity \<le> counter_get used c"
    by (elim exE conjE)
  have n: "n_tpc e \<noteq> 0" using assms(1) by simp
  have "reserve_completion_domain e d tick s = Inr (s\<lparr>q_completion_reservations :=
      AList.update d (counter_add used (t div n_tpc e) 1) (q_completion_reservations s)\<rparr>, t)"
    by (simp only: reserve_completion_domain_def cycle_of_def n if_False rbind_simps assms(2,3) t(1) fetch_def option.case)
  then show ?thesis using t by (intro exI [of _ t] conjI)
qed

text \<open>
  C31. Rename registers are conserved: in every state the operations of the loop reach, the free
  registers of a list, those held by the macro-ops of the reorder buffer and those waiting for release
  add up to the size of the list, and allocation never takes a list below its guard.
\<close>

theorem rename_registers_conserved:
  assumes "xsai_reaches t version expand backend p model mode limit e now s" and "rn_enabled (np_rename (n_profile e))"
  shows "counter_get (q_rename_free s) name + xrob_sum s (\<lambda>m. held name (m_rename_allocations m)) + pending_held s name =
       counter_get (rn_free_lists (np_rename (n_profile e))) name \<and>
     min (rn_guard_entries (np_rename (n_profile e))) (counter_get (rn_free_lists (np_rename (n_profile e))) name)
       \<le> counter_get (q_rename_free s) name"
proof -
  have "rename_inv e s" using xsai_reaches_inv [OF assms(1)] by (simp add: xinv_def)
  then show ?thesis using assms(2) unfolding rename_inv_def Let_def by simp
qed

text \<open>
  C32. Capacities: in every state the operations of the loop reach, the reorder buffer, load queue and
  store queue hold what their macro-ops occupy and no more than the profile has, the occupancy of a
  scheduler partition is the number of entries waiting in it and fits it, and no cycle of a read or
  completion domain is booked beyond its tokens.
\<close>

theorem xsai_capacities:
  assumes "xsai_reaches t version expand backend p model mode limit e now s"
  shows "q_rob_occupancy s = xrob_sum s rob_entry_count \<and> q_rob_occupancy s \<le> max 0 (np_rob_entries (n_profile e)) \<and>
    q_load_occupancy s = xrob_sum s (\<lambda>m. of_bool (m_uses_load_queue m)) \<and>
    q_load_occupancy s \<le> max 0 (np_load_queue_entries (n_profile e)) \<and>
    q_store_occupancy s = xrob_sum s (\<lambda>m. of_bool (m_uses_store_queue m)) \<and>
    q_store_occupancy s \<le> max 0 (np_store_queue_entries (n_profile e)) \<and>
    (\<forall>name n. map_of (q_partition_occupancy s) name = Some n \<longrightarrow> n = int (length (waiting_in s name)) \<and>
       (\<forall>q. map_of (np_partitions (n_profile e)) name = Some q \<longrightarrow> n \<le> max 0 (pa_entries q))) \<and>
    (\<forall>d used c. map_of (q_read_reservations s) d = Some used \<longrightarrow>
       counter_get used c \<le> max 0 (counter_get (n_read_capacity e) d)) \<and>
    (\<forall>d used c. map_of (q_completion_reservations s) d = Some used \<longrightarrow>
       counter_get used c \<le> max 0 (counter_get (n_completion_capacity e) d))"
  using xsai_reaches_inv [OF assms] unfolding xinv_def queue_inv_def partition_inv_def token_inv_def books_ok_def by blast

text \<open>
  C33. The schedule: in every state the operations of the loop reach, an issued entry was dispatched,
  became ready and issued in that order and not in the future, every dependency had completed when it
  became ready, and an entry completes at its issue plus its latency, which arbitration for the
  completion token has lengthened.
\<close>

theorem xsai_schedule:
  assumes "xsai_reaches t version expand backend p model mode limit e now s" and "xuop_at s i = Some u"
  shows "(\<forall>k. u_issue_tick u = Some k \<longrightarrow> k \<le> now \<and> (\<exists>d r. u_dispatch_tick u = Some d \<and> u_ready_tick u = Some r \<and>
        d \<le> r \<and> r \<le> k \<and> (\<forall>j\<in>set (u_dependencies u). completed_by s j r))) \<and>
     (\<forall>c. u_complete_tick u = Some c \<longrightarrow> c \<le> now \<and> (\<exists>k. u_issue_tick u = Some k \<and> c = k + u_latency_ticks u))"
proof -
  have "schedule_inv now s" using xsai_reaches_inv [OF assms(1)] by (simp add: xinv_def)
  then have "times_ok now s u" using assms(2) unfolding schedule_inv_def by blast
  then show ?thesis by (simp add: times_ok_def)
qed

text \<open>
  C34. A run that returns has run the whole trace: it went through steps of the abstract machine only,
  each with its guard; every macro-op of the trace was admitted and retired, no earlier than it
  completed, and every entry of it was dispatched, issued and completed by then; and macro-ops were
  admitted and retired in the order of the trace.
\<close>

theorem xsai_run_refines:
  assumes "xsai_starts t version expand backend p model mode limit e s" and "xrun_loop e fuel 0 s = Inr (s', final)"
  shows "xsteps e (0, s) (final, s') \<and> n_macro_order e = map m_id (bt_macros t) \<and>
    (\<forall>x\<in>set (bt_macros t). macro_retired s' final (m_id x)) \<and>
    program_ordered e s' m_dispatch_tick \<and> program_ordered e s' m_retire_tick"
proof -
  note inv = xsai_reaches_inv [OF xrun_reaches(1) [OF assms]] and fin = xrun_reaches(2) [OF assms]
  have "xinv e 0 s" by (rule start_xinv [OF assms(1)])
  then have "xsteps e (0, s) (final, s')"
    using xoperations_steps [OF conjunct1 [OF xrun_loop_operations [OF assms(2)]]] by (simp add: xinv_def)
  moreover have order: "n_macro_order e = map m_id (bt_macros t)"
    using assms(1) unfolding xsai_starts_def by (auto elim: make_xengine_start)
  moreover have "macro_retired s' final (m_id x)" if "x \<in> set (bt_macros t)" for x
    by (rule finished_retired [OF inv fin]) (use order that in simp)
  ultimately show ?thesis using xinv_ordered [OF inv] by blast
qed

section \<open>Witnesses\<close>

theorem reserve_completion_returns_witness:
  "\<exists>t. (\<exists>s. reserve_completion_domain xdemo_env ''vwb'' 4 xdemo_end = Inr (s, t)) \<and> t = 6"
proof -
  have "0 < n_tpc xdemo_env" "map_of (q_completion_reservations xdemo_end) ''vwb'' = Some [(2, 1), (4, 1)]"
      "map_of (n_completion_capacity xdemo_env) ''vwb'' = Some 1" "(0::int) < 1"
    using xdemo_facts(3) by (simp_all add: xdemo_seen_def)
  from reserve_completion_returns [OF this, of 4]
  obtain s t where "reserve_completion_domain xdemo_env ''vwb'' 4 xdemo_end = Inr (s, t)" by blast
  then show ?thesis using xdemo_facts(3) by (auto simp: xdemo_seen_def)
qed

theorem rename_registers_conserved_witness:
  "counter_get (q_rename_free xdemo_end) ''vrf'' + xrob_sum xdemo_end (\<lambda>m. held ''vrf'' (m_rename_allocations m)) +
     pending_held xdemo_end ''vrf'' = 4 \<and> 1 \<le> counter_get (q_rename_free xdemo_end) ''vrf''"
  using rename_registers_conserved [OF xdemo_reaches_end, of "''vrf''"]
  by (simp add: xdemo_profile_of) (simp add: xdemo_profile_def counter_get_def)

theorem xsai_capacities_witness:
  "q_rob_occupancy xdemo_end \<le> 4 \<and> q_load_occupancy xdemo_end \<le> 4 \<and> q_store_occupancy xdemo_end \<le> 4"
  using xsai_capacities [OF xdemo_reaches_end] by (simp add: xdemo_profile_of) (simp add: xdemo_profile_def)

lemma xdemo_issued:
  "\<exists>u. xuop_at xdemo_end ''g'' = Some u \<and> u_dependencies u = [''f''] \<and> u_issue_tick u = Some 4 \<and> u_complete_tick u = Some 8"
  using xdemo_facts(3) by (auto simp: xdemo_seen_def split: option.splits)

theorem xsai_schedule_witness:
  "\<exists>u r. xuop_at xdemo_end ''g'' = Some u \<and> u_ready_tick u = Some r \<and> r \<le> 4 \<and> completed_by xdemo_end ''f'' r \<and>
     4 + u_latency_ticks u = 8"
proof -
  obtain u where u: "xuop_at xdemo_end ''g'' = Some u" "u_dependencies u = [''f'']" "u_issue_tick u = Some 4"
      "u_complete_tick u = Some 8" using xdemo_issued by blast
  from xsai_schedule [OF xdemo_reaches_end u(1)] u show ?thesis by auto
qed

theorem xsai_run_refines_witness:
  "macro_retired xdemo_end 8 ''m0'' \<and> macro_retired xdemo_end 8 ''m1'' \<and> program_ordered xdemo_env xdemo_end m_retire_tick"
  using xsai_run_refines [OF xdemo_starts xdemo_facts(2)] by (simp add: xdemo_trace_def)

end
