(* ===== verification/BindEngine.thy ===== *)
theory BindEngine
  imports BindTrace Zen4Properties XsaiProperties XsaiTrace
begin

text \<open>
  From the binder to the engines: a bound trace satisfies what the Zen 4 engine and the XSAI engine
  ask of their workload.
\<close>

section \<open>Where a bound uop comes from\<close>

text \<open>The uop was bound for this entry of this expansion and then linked.\<close>

definition bound_from :: "profile \<Rightarrow> (instruction \<times> bind_hints) list \<Rightarrow> execution_uop \<Rightarrow> bind_context \<Rightarrow> expanded \<Rightarrow> bool" where
  "bound_from p entries u c x \<longleftrightarrow>
     (\<exists>i h n xs k w results pairs. (i, h) \<in> set entries \<and> bind_context_of p i h n = Inr (c, xs) \<and> x \<in> set xs \<and>
        bind_uop p c (k, x) = Inr w \<and> link_uop p c results pairs (x, w) = Inr u)"

lemma bound_from_step:
  assumes "bind_instruction p (i, h) b = Inr b'" and "u \<in> set (bd_uops b')" and "(i, h) \<in> set entries"
  shows "u \<in> set (bd_uops b) \<or> (\<exists>c x. bound_from p entries u c x)"
proof -
  obtain c xs us vs m where ctx: "bind_context_of p i h (length (bd_uops b)) = Inr (c, xs)" and
      bound: "rmap (bind_uop p c) (List.enumerate 0 xs) = Inr us" and
      linked: "rmap (link_uop p c (bd_results b) (zip xs us)) (zip xs us) = Inr vs" and
      b': "bd_uops b' = bd_uops b @ vs"
    using assms(1) unfolding bind_instruction_def Let_def by (auto simp: rbind_eq_Inr_iff)
  show ?thesis
  proof (cases "u \<in> set (bd_uops b)")
    case False
    then have "u \<in> set vs" using assms(2) b' by simp
    then obtain k where k: "k < length vs" "u = vs ! k" by (auto simp: in_set_conv_nth)
    have len: "length us = length xs" "length vs = length xs"
      using bound linked unfolding rmap_Inr_iff by (auto dest!: list_all2_lengthD)
    have "bind_uop p c (k, xs ! k) = Inr (us ! k)"
      using bound k len unfolding rmap_Inr_iff by (auto simp: list_all2_conv_all_nth nth_enumerate_eq)
    moreover have "link_uop p c (bd_results b) (zip xs us) (xs ! k, us ! k) = Inr u"
      using linked k len unfolding rmap_Inr_iff by (auto simp: list_all2_conv_all_nth)
    moreover have "xs ! k \<in> set xs" using k(1) len by simp
    ultimately show ?thesis using ctx assms(3) unfolding bound_from_def by blast
  qed simp
qed

lemma bound_from:
  assumes "rfold (bind_instruction p) entries no_binding = Inr b" and "u \<in> set (bd_uops b)"
  shows "\<exists>c x. bound_from p entries u c x"
proof -
  have "rfold (bind_instruction p) es no_binding = Inr b \<Longrightarrow> set es \<subseteq> set entries \<Longrightarrow> u \<in> set (bd_uops b) \<Longrightarrow>
      \<exists>c x. bound_from p entries u c x" for es
  proof (induction es arbitrary: b rule: rev_induct)
    case (snoc e es)
    obtain i h where e: "e = (i, h)" by (cases e)
    from snoc.prems(1) obtain b1 where b1: "rfold (bind_instruction p) es no_binding = Inr b1" "bind_instruction p (i, h) b1 = Inr b"
      by (auto simp: rfold_append rbind_eq_Inr_iff e)
    have "(i, h) \<in> set entries" using snoc.prems(2) e by simp
    from bound_from_step [OF b1(2) snoc.prems(3) this] snoc.IH [OF b1(1)] snoc.prems(2) show ?case by auto
  qed (simp add: no_binding_def)
  then show ?thesis using assms by blast
qed

text \<open>Its entry is one of the recipe or a preparation entry of the profile.\<close>

definition entry_of :: "profile \<Rightarrow> recipe \<Rightarrow> recipe_uop \<Rightarrow> recipe_uop \<Rightarrow> bool" where
  "entry_of p r e v \<longleftrightarrow> v \<in> set (rc_uops r) \<union> set (profile_preps p) \<and> ru_kind e = ru_kind v \<and>
     ru_issue_domains e = ru_issue_domains v \<and> ru_issue_domain_demands e = ru_issue_domain_demands v \<and>
     ru_resource_choices e = ru_resource_choices v"

lemma entry_origin:
  assumes run: "bind_context_of p i h n = Inr (c, xs)" and ready: "binder_ready p" and x: "x \<in> set xs"
  shows "\<exists>key path v. find_profile_recipe p i h = Inr (key, bx_recipe c, path) \<and> entry_of p (bx_recipe c) (ex_entry x) v"
proof -
  obtain key r path bindings dynamic where find: "find_profile_recipe p i h = Inr (key, r, path)" and
      dyn: "(if rc_decomposition r \<noteq> None then Inr None else backend_vector_decomposition p i h) = Inr dynamic" and
      xs: "(case dynamic of None \<Rightarrow> expand_static path r | Some d \<Rightarrow> Inr (expand_dynamic path r d)) = Inr xs" and
      c: "bx_recipe c = r"
    by (rule bind_context_ofE [OF run])
  have ne: "rc_uops r \<noteq> []" using recipe_found [OF find ready] by (simp add: recipe_ready_def)
  obtain k where k: "k < length xs" "x = xs ! k" using x by (auto simp: in_set_conv_nth)
  have "\<exists>v. entry_of p r (ex_entry x) v"
  proof (cases dynamic)
    case None
    then have "expand_static path r = Inr xs" using xs by simp
    from expand_static_nth [OF this] k have "entry_of p r (ex_entry x) (rc_uops r ! k)" by (simp add: entry_of_def)
    then show ?thesis by blast
  next
    case (Some d)
    then have xs: "xs = expand_dynamic path r d" and dec: "backend_vector_decomposition p i h = Inr (Some d)"
      using xs dyn by (auto split: if_splits)
    note nth = expand_dynamic_nth [where r = r and d = d and path = path, folded xs]
    show ?thesis
    proof (cases "prep_length d \<le> k")
      case True
      let ?v = "rc_uops r ! ((k - prep_length d) mod length (rc_uops r))"
      have "?v \<in> set (rc_uops r)" using ne by simp
      then have "entry_of p r (ex_entry x) ?v" using nth(3) [OF True k(1)] k(2) by (simp add: entry_of_def)
      then show ?thesis by blast
    next
      case False
      then obtain q where q: "dy_prep d = Some q" "ex_entry x = q" using nth(2) [of k] k(2) by auto
      from decomposition_prep(2) [OF dec q(1)] show ?thesis by (auto simp: entry_of_def q(2))
    qed
  qed
  then show ?thesis using find c by blast
qed

section \<open>The Zen 4 workload\<close>

text \<open>
  The Zen 4 engine reads the same profile: its issue domains are those of the profile, whose recipes
  the constructor has validated against them.  The schema asks for a capacity of at least one.
\<close>

definition engine_domains :: "profile \<Rightarrow> (string, int) dict \<Rightarrow> bool" where
  "engine_domains p domains \<longleftrightarrow> list_all (\<lambda>(d, _). case map_of (pf_issue_domains p) d of None \<Rightarrow> False
     | Some e \<Rightarrow> (case map_of domains d of None \<Rightarrow> False | Some c \<Rightarrow> de_capacity e = Whole c)) domains"

definition lanes_ready :: "profile \<Rightarrow> bool" where
  "lanes_ready p \<longleftrightarrow> list_all (\<lambda>(_, r). at_least_one (re_capacity r)) (pf_resources p) \<and>
     (case pf_fit p of None \<Rightarrow> True | Some f \<Rightarrow> list_all (\<lambda>(_, r). at_least_one (re_capacity r)) (sf_resources f))"

text \<open>Preparation entries are not checked against the issue domains by the constructor.\<close>

definition preps_plain :: "profile \<Rightarrow> bool" where
  "preps_plain p \<longleftrightarrow> list_all (\<lambda>q. ru_issue_domains q = [] \<and> \<not> is_memory_kind (ru_kind q)) (profile_preps p)"

text \<open>An instruction whose recipe accesses memory carries a reference.\<close>

definition memory_ready :: "profile \<Rightarrow> instruction \<times> bind_hints \<Rightarrow> bool" where
  "memory_ready p entry \<longleftrightarrow> (case find_profile_recipe p (fst entry) (snd entry) of Inl _ \<Rightarrow> True
     | Inr (_, r, _) \<Rightarrow> list_all (\<lambda>u. is_memory_kind (ru_kind u) \<longrightarrow>
         (case i_memory (fst entry) of None \<Rightarrow> False | Some m \<Rightarrow> mr_access m = ''load'' \<or> mr_access m = ''store'')) (rc_uops r))"

definition zen4_fits :: "profile \<Rightarrow> zen4_profile \<Rightarrow> (instruction \<times> bind_hints) list \<Rightarrow> bool" where
  "zen4_fits p q entries \<longleftrightarrow> 0 < pf_ticks_per_cycle p \<and> profile_ok (zp_memory q) \<and>
     fits_below (zp_memory q) (trace_lines (map fst entries)) \<and> validate_issue_domains p = Inr () \<and>
     engine_domains p (zp_issue_domains q) \<and> lanes_ready p \<and> preps_plain p \<and> list_all (memory_ready p) entries"

lemma checked_demand:
  assumes "check_uop_domains domains recipe_id u = Inr ()" and "d \<in> set (ru_issue_domains u)" and "map_of domains d = Some e"
    and "de_capacity e = Whole c"
  shows "(case map_of (ru_issue_domain_demands u) d of None \<Rightarrow> 1 | Some n \<Rightarrow> n) \<in> {1..c}"
proof -
  have "check_demand recipe_id (ru_id u) domains (ru_issue_domain_demands u) d = Inr ()"
    using assms(1,2) by (auto simp: check_uop_domains_def Let_def rbind_eq_Inr_iff)
  then show ?thesis using assms(3,4) by (simp add: check_demand_def rbind_eq_Inr_iff exceeds_def Let_def)
qed

lemma found_recipe:
  assumes "find_profile_recipe p i h = Inr (key, r, path)"
  shows "(key, r) \<in> set (pf_recipes p) \<or> (\<forall>u\<in>set (rc_uops r). ru_issue_domains u = [])"
proof (cases "map_of (pf_recipes p) key")
  case None
  then have "fallback_recipe p (instruction_kinds i) key = Inr r"
    using assms by (auto simp: find_profile_recipe_def Let_def rbind_eq_Inr_iff split: option.splits)
  then show ?thesis by (auto simp: fallback_recipe_def split: option.splits list.splits if_splits)
next
  case (Some r')
  then have "r' = r" using assms by (auto simp: find_profile_recipe_def Let_def rbind_eq_Inr_iff split: option.splits)
  then show ?thesis using map_of_SomeD [OF Some] by simp
qed

lemma map_of_domain_demands:
  "d \<in> set ds \<Longrightarrow> map_of (domain_demands ds n) d = Some (case map_of n d of None \<Rightarrow> 1 | Some k \<Rightarrow> k)"
  by (simp add: domain_demands_def map_of_map_restrict)

lemma bound_resource_lanes:
  assumes "bind_resource p r = Inr (r', x)" and "lanes_ready p"
  shows "0 < r_capacity x"
proof -
  have read: "0 < r_capacity x" if "read_resource r e path = Inr (r', x)" "at_least_one (re_capacity e)" for e path
    using that at_least_oneD by (fastforce simp: read_resource_def rbind_eq_Inr_iff)
  show ?thesis
  proof (cases "map_of (pf_resources p) r")
    case (Some e)
    then have "at_least_one (re_capacity e)" using assms(2) by (auto simp: lanes_ready_def list_all_iff dest!: map_of_SomeD)
    then show ?thesis using assms(1) read Some by (simp add: bind_resource_def Let_def)
  next
    case None
    then obtain f e where "pf_fit p = Some f" "map_of (sf_resources f) r = Some e"
      using assms(1) by (auto simp: bind_resource_def Let_def split: option.splits)
    moreover from this have "at_least_one (re_capacity e)"
      using assms(2) by (auto simp: lanes_ready_def list_all_iff dest!: map_of_SomeD)
    ultimately show ?thesis using assms(1) read None by (simp add: bind_resource_def Let_def)
  qed
qed

lemma bound_memory:
  assumes "uop_memory p c x = Inr m" and "i_memory (bx_instruction c) = Some r" and "is_memory_kind (ru_kind (ex_entry x))"
  shows "\<exists>m'. m = Some m' \<and> mr_access m' = mr_access r"
proof (cases "bx_dynamic c")
  case None
  then have "m = Some r" using assms by (auto simp: uop_memory_def is_memory_kind_def)
  then show ?thesis by simp
next
  case (Some d)
  then show ?thesis using assms by (auto simp: uop_memory_def is_memory_kind_def memory_part_def Let_def rbind_eq_Inr_iff)
qed

lemma bound_zen4_uop:
  assumes org: "bound_from p entries u c x" and ok: "bound_uop_ok u" and ready: "binder_ready p" and fits: "zen4_fits p q entries"
    and res: "rmap (bind_resource p) (sort (bd_resources b)) = Inr (bt_resources t)"
  shows "zen4_uop t q u"
proof -
  obtain i h n xs k w results pairs where f: "(i, h) \<in> set entries" "bind_context_of p i h n = Inr (c, xs)" "x \<in> set xs"
      "bind_uop p c (k, x) = Inr w" "link_uop p c results pairs (x, w) = Inr u"
    using org unfolding bound_from_def by blast
  obtain lcl ext state old previous gap where u: "u = w\<lparr>u_dependencies := insert_all old (insert_all state (insert_all ext (insert_all lcl []))),
       u_vector_state_dependencies := insert_all state [], u_old_destination_dependencies := insert_all old [],
       u_issue_after_uop := previous, u_issue_gap_ticks := gap\<rparr>"
    by (rule link_uopE [OF f(5)])
  note w = bind_uop_fields [OF f(4)]
  obtain key path v where find: "find_profile_recipe p i h = Inr (key, bx_recipe c, path)" and v: "entry_of p (bx_recipe c) (ex_entry x) v"
    using entry_origin [OF f(2) ready f(3)] by blast
  have lanes: "0 < r_capacity y" if y: "map_of (bt_resources t) r = Some y" for r y
  proof -
    have "(r, y) \<in> set (bt_resources t)" using y by (rule map_of_SomeD)
    then obtain r' where "bind_resource p r' = Inr (r, y)"
      using res unfolding rmap_Inr_iff by (auto simp: list_all2_conv_all_nth in_set_conv_nth)
    then show ?thesis using bound_resource_lanes fits by (simp add: zen4_fits_def)
  qed
  have demands: "1 \<le> issue_domain_demand u d \<and> issue_domain_demand u d \<le> c'" 
    if d: "d \<in> set (u_issue_domains u)" and c': "map_of (zp_issue_domains q) d = Some c'" for d c'
  proof -
    have dx: "d \<in> set (ru_issue_domains v)" using d v by (simp add: u w(7) entry_of_def)
    then have "v \<in> set (rc_uops (bx_recipe c))"
      using v fits by (auto simp: entry_of_def zen4_fits_def preps_plain_def list_all_iff)
    moreover have "(key, bx_recipe c) \<in> set (pf_recipes p)"
      using found_recipe [OF find] calculation dx by (metis empty_iff empty_set)
    ultimately have "check_uop_domains (pf_issue_domains p) key v = Inr ()"
      using fits by (auto simp: zen4_fits_def validate_issue_domains_def)
    moreover obtain e where "map_of (pf_issue_domains p) d = Some e" "de_capacity e = Whole c'"
      using fits map_of_SomeD [OF c'] c' by (auto simp: zen4_fits_def engine_domains_def list_all_iff split: option.splits)
    ultimately have "(case map_of (ru_issue_domain_demands v) d of None \<Rightarrow> 1 | Some n \<Rightarrow> n) \<in> {1..c'}"
      using checked_demand dx by blast
    then show ?thesis using d v by (simp add: issue_domain_demand_def u w(7,8) map_of_domain_demands entry_of_def)
  qed
  have memory: "\<exists>m. u_memory u = Some m \<and> access_kind m" if kind: "is_memory_kind (u_kind u)"
  proof -
    have kv: "is_memory_kind (ru_kind v)" "is_memory_kind (ru_kind (ex_entry x))" using kind v by (simp_all add: u w(5) entry_of_def)
    then have "v \<in> set (rc_uops (bx_recipe c))"
      using v fits by (auto simp: entry_of_def zen4_fits_def preps_plain_def list_all_iff)
    moreover have "memory_ready p (i, h)" using fits f(1) by (auto simp: zen4_fits_def list_all_iff)
    ultimately obtain r where r: "i_memory i = Some r" "mr_access r = ''load'' \<or> mr_access r = ''store''"
      using kv(1) find by (auto simp: memory_ready_def list_all_iff split: option.splits)
    have "i_memory (bx_instruction c) = Some r" using r(1) context_ready(1) [OF f(2) ready] by simp
    from bound_memory [OF w(14) this kv(2)] r(2) show ?thesis by (auto simp: u access_kind_def)
  qed
  show ?thesis unfolding zen4_uop_def
    using ok lanes demands memory by (simp add: bound_uop_ok_def)
qed

lemma bound_zen4_workload:
  assumes "binder_ready p" and "distinct (map (i_id \<circ> fst) entries)" and "bind_trace p version w entries = Inr t"
    and fits: "zen4_fits p q entries"
  shows "zen4_workload t q"
  using assms(3)
proof (rule bind_traceE)
  fix b resources
  assume b: "rfold (bind_instruction p) entries no_binding = Inr b" "rmap (bind_resource p) (sort (bd_resources b)) = Inr resources" and
    t: "t = \<lparr>bt_trace_version = 2, bt_profile_id = pf_id p, bt_profile_sha256 = pf_digest p,
       bt_ticks_per_cycle = pf_ticks_per_cycle p, bt_macros = bd_macros b, bt_uops = bd_uops b,
       bt_resources = resources, bt_workload = w, bt_source_trace = map fst entries\<rparr>"
  have inv: "binding_inv (map (i_id \<circ> fst) entries) b" by (rule binding_invariant [OF assms(1,2) b(1)])
  have res: "rmap (bind_resource p) (sort (bd_resources b)) = Inr (bt_resources t)" using b(2) by (simp add: t)
  have "zen4_uop t q u" if u: "u \<in> set (bd_uops b)" for u
  proof -
    obtain c x where "bound_from p entries u c x" using bound_from [OF b(1) u] by blast
    moreover have "bound_uop_ok u" using inv u unfolding binding_inv_def by blast
    ultimately show ?thesis using bound_zen4_uop [OF _ _ assms(1) fits res] by blast
  qed
  moreover have "zen4_macro t m" if "m \<in> set (bd_macros b)" for m
  proof -
    have "bound_macro_ok (bd_uops b) m" using inv that unfolding binding_inv_def by - (elim conjE, blast)
    then show ?thesis by (simp add: bound_macro_ok_def zen4_macro_def t)
  qed
  ultimately show ?thesis using fits by (simp add: zen4_workload_def zen4_fits_def t)
qed

section \<open>The XSAI workload\<close>

definition fresh_uop :: "execution_uop \<Rightarrow> bool" where
  "fresh_uop u \<longleftrightarrow> u_dispatch_tick u = None \<and> u_issue_tick u = None \<and> u_complete_tick u = None"

definition sized_macro :: "macro_op \<Rightarrow> bool" where
  "sized_macro m \<longleftrightarrow> m_dispatch_tick m = None \<and> m_complete_tick m = None \<and> m_retire_tick m = None \<and> distinct (m_uop_ids m) \<and> 0 \<le> rob_entry_count m \<and> distinct (keys (m_rename_allocations m)) \<and>
     (\<forall>d\<in>set (m_rename_allocations m). 0 \<le> snd d)"

lemma idle_fresh: "idle_uop u \<Longrightarrow> fresh_uop u"
proof -
  assume "idle_uop u"
  then have "reset_uop u = u" by (simp add: idle_uop_def)
  moreover have "fresh_uop (reset_uop u)" by (simp add: fresh_uop_def reset_uop_def)
  ultimately show "fresh_uop u" by simp
qed

lemma bound_trace_fresh:
  assumes "binder_ready p" and "distinct (map (i_id \<circ> fst) entries)" and "bind_trace p version w entries = Inr t"
  shows "(\<forall>u\<in>set (bt_uops t). fresh_uop u) \<and> (\<forall>m\<in>set (bt_macros t). sized_macro m \<and> m_rob_entries m \<noteq> None)"
  using assms(3)
proof (rule bind_traceE)
  fix b resources
  assume b: "rfold (bind_instruction p) entries no_binding = Inr b" and
    t: "t = \<lparr>bt_trace_version = 2, bt_profile_id = pf_id p, bt_profile_sha256 = pf_digest p,
       bt_ticks_per_cycle = pf_ticks_per_cycle p, bt_macros = bd_macros b, bt_uops = bd_uops b,
       bt_resources = resources, bt_workload = w, bt_source_trace = map fst entries\<rparr>"
  have inv: "binding_inv (map (i_id \<circ> fst) entries) b" by (rule binding_invariant [OF assms(1,2) b])
  have "fresh_uop u" if "u \<in> set (bd_uops b)" for u
  proof -
    have "bound_uop_ok u" using inv that unfolding binding_inv_def by blast
    then show ?thesis by (simp add: bound_uop_ok_def fresh_uop_def)
  qed
  moreover have "sized_macro m \<and> m_rob_entries m \<noteq> None" if "m \<in> set (bd_macros b)" for m
  proof -
    have "bound_macro_ok (bd_uops b) m" using inv that unfolding binding_inv_def by - (elim conjE, blast)
    then have m: "distinct (m_uop_ids m)" "1 \<le> rob_entry_count m" "distinct (keys (m_rename_allocations m))"
        "\<forall>d\<in>set (m_rename_allocations m). 1 \<le> snd d" "m_rob_entries m \<noteq> None"
        "m_dispatch_tick m = None" "m_complete_tick m = None" "m_retire_tick m = None"
      unfolding bound_macro_ok_def by blast+
    have "\<forall>d\<in>set (m_rename_allocations m). 0 \<le> snd d" using m(4) by force
    then show ?thesis using m by (simp add: sized_macro_def)
  qed
  ultimately show ?thesis by (simp add: t)
qed

lemma materialized_fresh:
  assumes run: "make_expander t profile_id w = Inr b" "materialize_xsai_trace t b = Inr r" and wf: "well_formed_trace t"
    and t: "\<forall>m\<in>set (bt_macros t). sized_macro m \<and> m_rob_entries m \<noteq> None"
  shows "(\<forall>u\<in>set (bt_uops r). fresh_uop u) \<and> (\<forall>m\<in>set (bt_macros r). sized_macro m)"
proof -
  obtain uops macros where m: "rmap (materialize_uop t (owner_by_execution b)) (enumerate 0 (xt_backend_uops b)) = Inr uops"
    "rmap (materialize_macro b) (bt_macros t) = Inr macros" "r = t\<lparr>bt_macros := macros, bt_uops := uops\<rparr>" "well_formed_trace r"
    using run(2) by (auto simp: materialize_xsai_trace_def rbind_eq_Inr_iff Let_def)
  have dist: "distinct (map u_id (bt_uops t))" using wf by (simp add: well_formed_trace_def)
  have each: "fresh_uop (uops ! k) \<and> u_id (uops ! k) = xb_id (xt_backend_uops b ! k)" if "k < length uops" for k
  proof -
    have "materialize_uop t (owner_by_execution b) (k, xt_backend_uops b ! k) = Inr (uops ! k)"
      using m(1) that by (auto simp: rmap_Inr_iff list_all2_conv_all_nth nth_enumerate_eq)
    from materialize_uop_run [OF this dist] show ?thesis using idle_fresh by blast
  qed
  obtain pending where p: "done_ok t w (bt_macros t) pending (owners pending) (xt_macro_uop_ids b)"
    "rmap (finish_entry (owners pending)) pending = Inr (xt_backend_uops b)"
    by (rule expandedE [OF run(1)])
  have "map u_id uops = map xb_id (xt_backend_uops b)"
    using each m(1) by (auto simp: rmap_Inr_iff list_all2_conv_all_nth intro: nth_equalityI)
  then have ids: "distinct (map xp_id pending)"
    using m(3,4) finish_maps(1) [OF p(2)] by (simp add: well_formed_trace_def)
  have "sized_macro m'" if mem: "m' \<in> set macros" for m'
  proof -
    obtain i where i: "i < length macros" "m' = macros ! i" using mem by (auto simp: in_set_conv_nth)
    then have "bt_macros t ! i \<in> set (bt_macros t)" "materialize_macro b (bt_macros t ! i) = Inr m'"
      using m(2) by (auto simp: rmap_Inr_iff list_all2_conv_all_nth)
    then obtain s where s: "s \<in> set (bt_macros t)" "materialize_macro b s = Inr m'" by blast
    have "map_of (xt_macro_uop_ids b) (m_id s) = Some (map xp_id (entries_of pending (m_id s)))"
      using p(1) s(1) by (simp add: done_ok_def)
    then have "m_uop_ids m' = map xp_id (entries_of pending (m_id s))" "m_rob_entries m' = m_rob_entries s"
        "m_rename_allocations m' = m_rename_allocations s" "m_dispatch_tick m' = None" "m_complete_tick m' = None" "m_retire_tick m' = None"
      using s(2) by (auto simp: materialize_macro_def rbind_eq_Inr_iff)
    moreover have "distinct (map xp_id (entries_of pending (m_id s)))"
      using ids unfolding entries_of_def by (rule distinct_map_filter)
    ultimately show ?thesis using t s(1) by (auto simp: sized_macro_def rob_entry_count_def)
  qed
  then show ?thesis using each by (auto simp: m(3) in_set_conv_nth)
qed

lemma bound_xsai_starts:
  assumes "binder_ready p" and "distinct (map (i_id \<circ> fst) entries)" and "bind_trace p version w entries = Inr t"
    and engine: "make_xengine t source_version expand backend q model mode limit = Inr (e, s)"
  shows "xsai_starts t source_version expand backend q model mode limit e s"
proof -
  obtain view t' memory reads writes where v: "backend_view t source_version expand q = Inr (view, t')" and
      s: "s = initial_state t' q memory reads writes"
    using engine unfolding make_xengine_def Let_def by (auto simp: rbind_eq_Inr_iff)
  note fresh = bound_trace_fresh [OF assms(1-3)]
  have wf: "well_formed_trace t" by (rule bound_well_formed [OF assms(1-3)])
  have "(\<forall>u\<in>set (bt_uops t'). fresh_uop u) \<and> (\<forall>m\<in>set (bt_macros t'). sized_macro m)"
  proof (cases "expand \<and> source_version = Some 2")
    case True
    then obtain b where "make_expander t (np_id q) (np_register_width q) = Inr b" "materialize_xsai_trace t b = Inr t'"
      using v by (auto simp: backend_view_def qlift_def rbind_eq_Inr_iff split: sum.splits)
    then show ?thesis using materialized_fresh wf fresh by blast
  next
    case False
    then have "t' = t" using v by (auto simp: backend_view_def qlift_def rbind_eq_Inr_iff split: sum.splits)
    then show ?thesis using fresh by blast
  qed
  then have "xsai_workload s"
    by (simp add: xsai_workload_def s initial_state_def list_all_iff fresh_uop_def sized_macro_def case_prod_unfold)
  then show ?thesis using engine by (simp add: xsai_starts_def)
qed

end
