(* ===== verification/BindProperties.thy ===== *)
theory BindProperties
  imports BindEngine
begin

text \<open>
  What the profile and the binder guarantee: the tick unit is exact, the parts of a vector access tile
  it, and a bound trace passes the validator and runs in both engines.
\<close>

section \<open>The tick unit\<close>

text \<open>The decimal numbers of the profile data, as \<open>(m, k)\<close> for \<open>m\<close> times ten to \<open>-k\<close>.\<close>

fun json_decimals :: "json \<Rightarrow> (int \<times> nat) list" where
  "json_decimals (JFloat m k) = [(m, k)]"
| "json_decimals (JList xs) = concat (map json_decimals xs)"
| "json_decimals (JObj fs) = concat (map (\<lambda>f. json_decimals (snd f)) fs)"
| "json_decimals _ = []"

text \<open>The transfer of \<open>width\<close> bytes takes a whole number of ticks, \<open>t\<close> ticks making a cycle.\<close>

definition whole_transfer :: "int \<Rightarrow> parameter \<Rightarrow> int \<Rightarrow> bool" where
  "whole_transfer t v width = (case v of Measure \<Rightarrow> True | Whole n \<Rightarrow> n dvd width * t | Decimal m k \<Rightarrow> m dvd width * 10 ^ k * t)"

definition whole_ticks :: "profile \<Rightarrow> int \<Rightarrow> bool" where
  "whole_ticks p t \<longleftrightarrow> (\<forall>(m, k)\<in>set (json_decimals (pf_data p)). 10 ^ k dvd m * t) \<and>
     (\<forall>v\<in>set (bandwidths p). \<forall>width\<in>{4, 16, 32, 64}. whole_transfer t v width)"

lemma reduced_dvd:
  assumes "b \<noteq> (0::int)"
  shows "b div gcd a b dvd t \<longleftrightarrow> b dvd a * t"
proof -
  define g where "g = gcd a b"
  have g: "g \<noteq> 0" using assms by (simp add: g_def)
  obtain a' b' where ab: "a = a' * g" "b = b' * g" "coprime a' b'"
    using gcd_coprime_exists [of a b] g unfolding g_def by metis
  have "b div g = b'" using g ab(2) by simp
  moreover have "b dvd a * t \<longleftrightarrow> b' dvd a' * t" using g by (simp add: ab(1,2) mult.assoc mult.commute [of g] mult.left_commute)
  ultimately show ?thesis using ab(3) by (simp add: g_def [symmetric] coprime_dvd_mult_right_iff coprime_commute)
qed

lemma fold_lcm_dvd: "fold lcm ns (a::int) dvd t \<longleftrightarrow> a dvd t \<and> (\<forall>n\<in>set ns. n dvd t)"
  by (induction ns arbitrary: a) auto

lemma json_denominators_dvd: "(\<forall>n\<in>set (json_denominators j). n dvd t) \<longleftrightarrow> (\<forall>(m, k)\<in>set (json_decimals j). 10 ^ k dvd m * t)"
proof (induction j rule: json_denominators.induct)
  case (2 m k)
  then show ?case using reduced_dvd [of "10 ^ k" m t] by simp
next
  case (3 xs)
  then show ?case by auto
next
  case (4 fs)
  then show ?case by auto
qed simp_all

lemma transfer_denominator_dvd:
  assumes "transfer_denominator v width = Inr d"
  shows "d dvd t \<longleftrightarrow> whole_transfer t v width" and "0 < d"
proof -
  have pos: "0 < \<bar>n\<bar> div gcd a n" if "n \<noteq> 0" for n a :: int
  proof -
    have "gcd a n \<le> \<bar>n\<bar>" using that by (intro zdvd_imp_le) simp_all
    moreover have "0 < gcd a n" using that by simp
    ultimately
    show ?thesis by (simp add: pos_imp_zdiv_pos_iff)
  qed
  have abs: "\<bar>n\<bar> div gcd a n dvd t \<longleftrightarrow> n dvd a * t" if "n \<noteq> 0" for n a
    using reduced_dvd [of "\<bar>n\<bar>" a t] that by simp
  show "d dvd t \<longleftrightarrow> whole_transfer t v width"
    using assms abs by (cases v) (auto simp: transfer_denominator_def whole_transfer_def split: if_splits)
  show "0 < d" using assms pos by (cases v) (auto simp: transfer_denominator_def split: if_splits)
qed

lemma json_denominators_positive: "\<forall>n\<in>set (json_denominators j). 0 < n"
proof (induction j rule: json_denominators.induct)
  case (2 m k)
  have "gcd m (10 ^ k) \<le> (10::int) ^ k" by (simp add: gcd_le2_int)
  then show ?case by (simp add: pos_imp_zdiv_pos_iff)
qed auto

lemma fold_lcm_positive: "0 < (a::int) \<Longrightarrow> \<forall>n\<in>set ns. 0 < n \<Longrightarrow> 0 < fold lcm ns a"
  by (induction ns arbitrary: a) (auto simp: lcm_pos_int)

text \<open>
  C35. The tick unit is exact and minimal: the ticks per cycle the constructor computes are positive,
  and a number of ticks per cycle turns every number of the profile data into a whole number of ticks
  and every transfer of 4, 16, 32 and 64 bytes over a bandwidth of the profile into a whole number of
  ticks exactly when it is a multiple of them.
\<close>

theorem tick_unit_exact:
  assumes "compute_ticks_per_cycle p = Inr tpc"
  shows "0 < tpc \<and> (\<forall>t. tpc dvd t \<longleftrightarrow> whole_ticks p t)"
proof -
  let ?jobs = "concat (map (\<lambda>v. map (Pair v) [4, 16, 32, 64]) (bandwidths p))"
  obtain ds where ds: "rmap (\<lambda>(v, width). transfer_denominator v width) ?jobs = Inr ds" and
      tpc: "tpc = fold lcm (json_denominators (pf_data p) @ ds) 1"
    using assms by (auto simp: compute_ticks_per_cycle_def rbind_eq_Inr_iff)
  have all: "list_all2 (\<lambda>(v, width) d. 0 < d \<and> (\<forall>t. d dvd t \<longleftrightarrow> whole_transfer t v width)) ?jobs ds"
    using ds unfolding rmap_Inr_iff by (rule list_all2_mono) (auto dest: transfer_denominator_dvd)
  then have "(\<forall>d\<in>set ds. 0 < d) \<and> (\<forall>t. (\<forall>d\<in>set ds. d dvd t) \<longleftrightarrow> (\<forall>(v, width)\<in>set ?jobs. whole_transfer t v width))"
    by (induction rule: list_all2_induct) auto
  then have d: "\<forall>d\<in>set ds. 0 < d" "\<And>t. (\<forall>d\<in>set ds. d dvd t) \<longleftrightarrow> (\<forall>v\<in>set (bandwidths p). \<forall>width\<in>{4, 16, 32, 64}. whole_transfer t v width)"
    by auto
  have "0 < tpc" unfolding tpc by (rule fold_lcm_positive) (use d(1) json_denominators_positive in auto)
  moreover have "tpc dvd t \<longleftrightarrow> whole_ticks p t" for t
    unfolding tpc fold_lcm_dvd set_append ball_Un json_denominators_dvd d(2) whole_ticks_def by simp
  ultimately show ?thesis by blast
qed

section \<open>Parts of an access\<close>

lemma upto_int: "[0..int n - 1] = map int [0..<n]"
  by (induction n) (simp_all add: upto_rec2)

lemma upto_blocks:
  assumes "0 < (w::int)"
  shows "concat (map (\<lambda>k. [a + int k * w..a + int k * w + w - 1]) [0..<n]) = [a..a + int n * w - 1]"
proof (induction n)
  case (Suc n)
  have "[a..a + int (Suc n) * w - 1] = [a..a + int n * w - 1] @ [a + int n * w..a + int n * w + w - 1]"
    using upto_split1 [of a "a + int n * w" "a + int n * w + w - 1"] upto_split2 [of a "a + int n * w - 1" "a + int n * w + w - 1"] assms
    by (simp add: algebra_simps)
  then show ?case using Suc by simp
qed simp

text \<open>How many parts an access needs, and that the last one is the only short one.\<close>

lemma ceil_div_bounds:
  assumes "0 < (w::int)" and "n = ceil_div (8 * b) (8 * w)"
  shows "(n - 1) * w < b" "b \<le> n * w"
proof -
  have n: "n = - ((- b) div w)" using assms by (simp add: ceil_div_def flip: mult_minus_right)
  define q r where "q = (- b) div w" and "r = (- b) mod w"
  have "q * w + r = - b" unfolding q_def r_def by (rule div_mult_mod_eq)
  moreover have "0 \<le> r" "r < w" using assms(1) by (simp_all add: r_def)
  moreover have "n = - q" using n by (simp add: q_def)
  ultimately show "(n - 1) * w < b" "b \<le> n * w" by (simp_all add: algebra_simps)
qed

lemma line_range:
  assumes "0 < (l::int)" and "a \<le> b"
  shows "{a div l..b div l} = (\<lambda>x. x div l) ` {a..b}"
proof
  show "{a div l..b div l} \<subseteq> (\<lambda>x. x div l) ` {a..b}"
  proof
    fix q assume q: "q \<in> {a div l..b div l}"
    let ?x = "max a (q * l)"
    have "?x \<le> b" using assms q by (simp add: max_def) (metis div_mult_mod_eq le_add_same_cancel1 pos_mod_sign mult_right_mono order_trans less_imp_le)
    moreover have "?x div l = q"
    proof (cases "q * l \<le> a")
      case True
      then have "q \<le> a div l" using assms(1) by (simp add: zdiv_mono1 [of "q * l" a l, simplified])
      then show ?thesis using q True by (simp add: max_def)
    qed (use assms in simp)
    moreover have "a \<le> ?x" by simp
    ultimately show "q \<in> (\<lambda>x. x div l) ` {a..b}" by (metis atLeastAtMost_iff image_eqI)
  qed
  show "(\<lambda>x. x div l) ` {a..b} \<subseteq> {a div l..b div l}" using assms(1) by (auto intro: zdiv_mono1)
qed

lemma dynamic_count:
  assumes "vector_part_count (PartRule ''dynamic'') i state (8 * w) category path = Inr n" and "i_memory i = Some m"
    and "0 < w" and "0 < mr_bytes m"
  shows "(n - 1) * w < mr_bytes m" "mr_bytes m \<le> n * w" "1 \<le> n"
proof -
  have n: "n = max 1 (ceil_div (8 * mr_bytes m) (8 * w))"
    using assms(1-3) by (simp add: vector_part_count_def rbind_eq_Inr_iff mult.commute)
  note ceil = ceil_div_bounds [OF assms(3) refl, of "mr_bytes m"]
  have "1 \<le> ceil_div (8 * mr_bytes m) (8 * w)"
  proof (rule ccontr)
    assume "\<not> 1 \<le> ceil_div (8 * mr_bytes m) (8 * w)"
    then have "ceil_div (8 * mr_bytes m) (8 * w) * w \<le> 0" using assms(3) by (intro mult_nonpos_nonneg) simp_all
    then show False using ceil(2) assms(4) by linarith
  qed
  then show "(n - 1) * w < mr_bytes m" "mr_bytes m \<le> n * w" "1 \<le> n" using ceil n by simp_all
qed

text \<open>The part at \<open>k\<close> for registers of \<open>w\<close> bytes.\<close>

definition access_part :: "profile \<Rightarrow> mem_ref \<Rightarrow> int \<Rightarrow> int \<Rightarrow> int \<Rightarrow> mem_ref" where
  "access_part p m n w k =
     (let s = k * w; c = min w (mr_bytes m - s); a = mr_address m + s in
      m\<lparr>mr_address := a, mr_offset := mr_offset m + s, mr_bytes := c,
        mr_cache_lines := [a div pf_line_bytes p..(a + c - 1) div pf_line_bytes p],
        mr_flow_index := Some k, mr_flow_count := Some n\<rparr>)"

definition part_range :: "mem_ref \<Rightarrow> int list" where
  "part_range r = [mr_address r..mr_address r + mr_bytes r - 1]"

lemma access_part_fields:
  "mr_address (access_part p m n w k) = mr_address m + k * w" "mr_bytes (access_part p m n w k) = min w (mr_bytes m - k * w)"
  by (simp_all add: access_part_def Let_def)

lemma access_part_moves:
  assumes "0 < pf_line_bytes p" and "0 < w" and "k * w < mr_bytes m"
  shows "memory_part p m k n (8 * w) = Inr (access_part p m n w k)"
    and "0 < mr_bytes (access_part p m n w k) \<and> mr_bytes (access_part p m n w k) \<le> w"
    and "set (mr_cache_lines (access_part p m n w k)) = (\<lambda>a. a div pf_line_bytes p) ` set (part_range (access_part p m n w k))"
proof -
  let ?r = "access_part p m n w k"
  show "memory_part p m k n (8 * w) = Inr ?r" using assms by (simp add: memory_part_def access_part_def Let_def)
  show pos: "0 < mr_bytes ?r \<and> mr_bytes ?r \<le> w" using assms by (simp add: access_part_fields)
  have "set (mr_cache_lines ?r) = {mr_address ?r div pf_line_bytes p..(mr_address ?r + mr_bytes ?r - 1) div pf_line_bytes p}"
    by (simp add: access_part_def Let_def)
  then show "set (mr_cache_lines ?r) = (\<lambda>a. a div pf_line_bytes p) ` set (part_range ?r)"
    using line_range [OF assms(1), of "mr_address ?r" "mr_address ?r + mr_bytes ?r - 1"] pos by (simp add: part_range_def)
qed

lemma access_parts_tile:
  assumes w: "0 < w" and b: "(int N) * w < mr_bytes m" "mr_bytes m \<le> (int N + 1) * w"
  shows "concat (map part_range (map (access_part p m n w) [0..int N])) = [mr_address m..mr_address m + mr_bytes m - 1]"
proof -
  let ?part = "access_part p m n w" and ?a = "mr_address m"
  have full: "part_range (?part (int k)) = [?a + int k * w..?a + int k * w + w - 1]" if "k < N" for k
  proof -
    have "(int k + 1) * w \<le> int N * w" using that w by (intro mult_right_mono) simp_all
    then have "w \<le> mr_bytes m - int k * w" using b(1) by (simp add: algebra_simps)
    then show ?thesis by (simp add: part_range_def access_part_fields min_def)
  qed
  have last: "part_range (?part (int N)) = [?a + int N * w..?a + mr_bytes m - 1]"
    using b by (simp add: part_range_def access_part_fields min_def algebra_simps)
  have "concat (map (part_range \<circ> ?part \<circ> int) [0..<N]) = concat (map (\<lambda>k. [?a + int k * w..?a + int k * w + w - 1]) [0..<N])"
    by (rule arg_cong [where f = concat], rule map_cong) (simp_all add: full)
  also have "\<dots> = [?a..?a + int N * w - 1]" by (rule upto_blocks [OF w])
  finally have "concat (map part_range (map ?part [0..int N])) = [?a..?a + int N * w - 1] @ [?a + int N * w..?a + mr_bytes m - 1]"
    using upto_rec2 [of 0 "int N"] by (simp add: upto_int last o_def)
  also have "\<dots> = [?a..?a + mr_bytes m - 1]"
    using upto_split1 [of ?a "?a + int N * w" "?a + mr_bytes m - 1"] b(1) w by simp
  finally show ?thesis .
qed

text \<open>
  C36. Vector parts tile a memory access: with a register width of whole bytes, the parts the dynamic
  rule counts for an access that is not empty are all bound, they cover its bytes in order without a
  gap or an overlap, each moves at least one byte and at most a register, and its cache lines are
  those its bytes touch.
\<close>

theorem memory_parts_tile:
  assumes count: "vector_part_count (PartRule ''dynamic'') i state width category path = Inr n" and m: "i_memory i = Some m"
    and width: "0 < width" "width mod 8 = 0" and line: "0 < pf_line_bytes p" and bytes: "0 < mr_bytes m"
  shows "\<exists>parts. rmap (\<lambda>k. memory_part p m k n width) [0..n - 1] = Inr parts \<and>
     concat (map (\<lambda>r. [mr_address r..mr_address r + mr_bytes r - 1]) parts) = [mr_address m..mr_address m + mr_bytes m - 1] \<and>
     (\<forall>r\<in>set parts. 0 < mr_bytes r \<and> mr_bytes r \<le> width div 8 \<and>
        set (mr_cache_lines r) = (\<lambda>a. a div pf_line_bytes p) ` {mr_address r..mr_address r + mr_bytes r - 1})"
proof -
  define w where "w = width div 8"
  have w: "width = 8 * w" "0 < w" using width by (auto simp: w_def)
  note b = dynamic_count [OF count [unfolded w(1)] m w(2) bytes]
  define N where "N = nat (n - 1)"
  then have N: "n - 1 = int N" "n = int N + 1" using b(3) by simp_all
  have some: "k * w < mr_bytes m" if "k \<in> set [0..n - 1]" for k
  proof -
    have "k * w \<le> (n - 1) * w" using that w(2) by (intro mult_right_mono) simp_all
    then show ?thesis using b(1) by linarith
  qed
  have tile: "concat (map part_range (map (access_part p m n w) [0..n - 1])) = [mr_address m..mr_address m + mr_bytes m - 1]"
    unfolding N(1) by (rule access_parts_tile [OF w(2)]) (use b(1,2) N in simp_all)
  have run: "rmap (\<lambda>k. memory_part p m k n width) [0..n - 1] = Inr (map (access_part p m n w) [0..n - 1])"
    unfolding w(1) by (rule rmap_total) (rule access_part_moves(1) [OF line w(2) some])
  note each = access_part_moves(2,3) [OF line w(2) some]
  show ?thesis
  proof (intro exI [of _ "map (access_part p m n w) [0..n - 1]"] conjI ballI)
    show "concat (map (\<lambda>r. [mr_address r..mr_address r + mr_bytes r - 1]) (map (access_part p m n w) [0..n - 1])) =
        [mr_address m..mr_address m + mr_bytes m - 1]"
      using tile by (simp only: part_range_def [abs_def])
  qed (use run each in \<open>auto simp: w(1) part_range_def\<close>)
qed

section \<open>The validator\<close>

text \<open>
  C37. The binder feeds the validator: on a profile that keeps the constraints of the schema and lists
  the entries of a recipe in dependency order, and for instructions with distinct ids, every trace the
  binder returns passes the validator, its dependency graph is acyclic, and it has one macro-op per
  instruction, in order.
\<close>

theorem bound_trace_valid:
  assumes "binder_ready p" and "distinct (map (i_id \<circ> fst) entries)" and "bind_trace p version w entries = Inr t"
  shows "validate_bound_trace t = Inr () \<and> acyclic (dependency_edges t) \<and> map m_id (bt_macros t) = map (i_id \<circ> fst) entries"
proof -
  have wf: "well_formed_trace t" by (rule bound_well_formed [OF assms])
  have "map m_id (bt_macros t) = map (i_id \<circ> fst) entries"
    by (rule bind_traceE [OF assms(3)]) (use binding_invariant [OF assms(1,2)] in \<open>simp add: binding_inv_def\<close>)
  with wf validate_iff [of t] show ?thesis by (simp add: well_formed_trace_def)
qed

section \<open>From the binder to the engines\<close>

text \<open>
  C38. From the binder to the end of a Zen 4 run: the engine built from a bound trace raises nothing but
  the iteration guard, and when it returns every uop was dispatched, became ready, issued and completed
  in that order after its dependencies, and every macro-op retired after its last uop. The profile and
  the instructions must fit the engine (\<open>zen4_fits\<close>): a positive tick unit, a well-formed memory profile
  whose levels hold the lines of the trace, issue domains that pass the profile's validation and are
  those of the engine, at least one lane per resource, preparation uops without domains, and memory
  accesses of known kind.
\<close>

theorem zen4_end_to_end:
  assumes "binder_ready p" and "distinct (map (i_id \<circ> fst) entries)" and "bind_trace p version w entries = Inr t"
    and "zen4_fits p q entries" and "make_engine t q model mode limit = Inr (e, s)"
  shows "case run_loop e fuel 0 s of Inl x \<Rightarrow> x = NotConverged
    | Inr (s', final) \<Rightarrow> zsteps e (0, s) (final, s') \<and> finished e s' \<and>
        (\<forall>i u. uop_at s' i = Some u \<longrightarrow> (\<exists>d r k c. u_dispatch_tick u = Some d \<and> u_ready_tick u = Some r \<and>
           u_issue_tick u = Some k \<and> u_complete_tick u = Some c \<and> d \<le> r \<and> r \<le> k \<and> c \<le> final \<and> deps_done s' u r)) \<and>
        (\<forall>i m. macro_at s' i = Some m \<longrightarrow> (\<exists>c r. m_complete_tick m = Some c \<and> m_retire_tick m = Some r \<and>
           c \<le> r \<and> r \<le> final \<and> c = Max (complete_at s' ` set (m_uop_ids m))))"
proof -
  have ok: "zen4_workload t q" by (rule bound_zen4_workload [OF assms(1-4)])
  have "run_loop e fuel 0 s = Inl NotConverged \<or> (\<exists>s' final. run_loop e fuel 0 s = Inr (s', final) \<and>
      zsteps e (0, s) (final, s') \<and> finished e s' \<and> 0 \<le> final)"
    by (rule run_loop_run [OF start_safe [OF assms(5) ok]])
  then show ?thesis
  proof (elim disjE exE conjE)
    fix s' final
    assume r: "run_loop e fuel 0 s = Inr (s', final)" and st: "zsteps e (0, s) (final, s')" and fin: "finished e s'"
    have "zinv e (final, s')" using zsafeD(1) [OF engine_reaches_safe [OF run_reaches(1) [OF assms(5) ok r] ok]] .
    from finished_uop [OF this fin] finished_macro [OF this fin] show ?thesis by (simp add: r st fin) blast
  qed simp
qed

text \<open>
  C39. From the binder to the end of an XSAI run, with or without the expansion into scheduler slots:
  an engine built from a bound trace starts as the invariants ask, so when a run returns every
  macro-op of the bound trace has retired, no earlier than its last entry completed, every entry of
  it was dispatched, issued and completed, and no entry became ready before its dependencies had
  completed. After every operation on the way the reorder buffer holds what its macro-ops ask and no
  more than it has, and each scheduler partition holds the entries that wait in it and no more than
  it has.
\<close>

theorem xsai_end_to_end:
  assumes "binder_ready p" and "distinct (map (i_id \<circ> fst) entries)" and "bind_trace p version w entries = Inr t"
    and "make_xengine t source_version expand backend q model mode limit = Inr (e, s)" and "xrun_loop e fuel 0 s = Inr (s', final)"
  shows "(\<forall>x\<in>set (bt_macros t). macro_retired s' final (m_id x)) \<and>
    (\<forall>i u k. xuop_at s' i = Some u \<longrightarrow> u_issue_tick u = Some k \<longrightarrow> (\<exists>d r. u_dispatch_tick u = Some d \<and>
       u_ready_tick u = Some r \<and> d \<le> r \<and> r \<le> k \<and> (\<forall>j\<in>set (u_dependencies u). completed_by s' j r))) \<and>
    xoperations e (0, s) (final, s') \<and>
    (\<forall>now s1. xoperations e (0, s) (now, s1) \<longrightarrow>
       q_rob_occupancy s1 = xrob_sum s1 rob_entry_count \<and> q_rob_occupancy s1 \<le> max 0 (np_rob_entries (n_profile e)) \<and>
       (\<forall>partition n. map_of (q_partition_occupancy s1) partition = Some n \<longrightarrow> n = int (length (waiting_in s1 partition)) \<and>
          (\<forall>c. map_of (np_partitions (n_profile e)) partition = Some c \<longrightarrow> n \<le> max 0 (pa_entries c))))"
proof -
  have st: "xsai_starts t source_version expand backend q model mode limit e s" by (rule bound_xsai_starts [OF assms(1-4)])
  have inv: "xinv e now s1" if "xoperations e (0, s) (now, s1)" for now s1
    by (rule xinv_operations [OF that start_xinv [OF st]])
  have run: "xoperations e (0, s) (final, s')" "xfinished e s'" using xrun_loop_operations [OF assms(5)] by blast+
  have "n_macro_order e = map m_id (bt_macros t)" using assms(4) by (auto elim: make_xengine_start)
  then have "\<forall>x\<in>set (bt_macros t). macro_retired s' final (m_id x)"
    using finished_retired [OF inv [OF run(1)] run(2)] by simp
  moreover have "times_ok final s' u" if "xuop_at s' i = Some u" for i u
    using inv [OF run(1)] that unfolding xinv_def schedule_inv_def by blast
  moreover have "queue_inv e s1" "partition_inv e s1" if "xoperations e (0, s) (now, s1)" for now s1
    using inv [OF that] by (simp_all add: xinv_def)
  ultimately show ?thesis using run(1) unfolding times_ok_def queue_inv_def partition_inv_def by blast
qed

section \<open>Topology\<close>

text \<open>The engine reads its units and partitions from the profile.\<close>

definition engine_topology :: "profile \<Rightarrow> xsai_profile \<Rightarrow> bool" where
  "engine_topology p q \<longleftrightarrow> np_units q = be_units (backend_of p) \<and>
     set (keys (np_partitions q)) = set (map pt_id (be_partitions (backend_of p)))"

lemma topology_partitions:
  assumes "validate_backend_topology p = Inr ()" and "(i, x) \<in> set (be_units (backend_of p))"
  shows "eu_partition x \<in> set (map pt_id (be_partitions (backend_of p)))"
proof (cases "pf_backend p")
  case (Some b)
  then have b: "backend_of p = b" by (simp add: backend_of_def)
  have "rall (check_unit_entry (map pt_id (be_partitions b)) (keys (pf_resources p))) (be_units b) = Inr ()"
    using assms(1) unfolding validate_backend_topology_def Let_def Some option.case by (auto simp: rbind_eq_Inr_iff)
  then have "check_unit_entry (map pt_id (be_partitions b)) (keys (pf_resources p)) (i, x) = Inr ()"
    using assms(2) unfolding b rall_Inr_iff by blast
  then show ?thesis by (simp add: check_unit_entry_def rbind_eq_Inr_iff b)
qed (use assms(2) in \<open>simp add: backend_of_def\<close>)

lemma bound_choices:
  assumes org: "bound_from p entries u c x"
  shows "u_execution_unit_choices u = execution_unit_choices p (u_resource_choices u)"
    "scheduler_partitions p (u_execution_unit_choices u) = Inr (u_scheduler_partition_choices u)"
proof -
  obtain k w results pairs where f: "bind_uop p c (k, x) = Inr w" "link_uop p c results pairs (x, w) = Inr u"
    using org unfolding bound_from_def by blast
  have same: "u_execution_unit_choices u = u_execution_unit_choices w" "u_resource_choices u = u_resource_choices w"
      "u_scheduler_partition_choices u = u_scheduler_partition_choices w"
    by (rule link_uopE [OF f(2)]; simp)+
  have "scheduler_partitions p (u_execution_unit_choices w) = Inr (u_scheduler_partition_choices w)"
    using f(1) unfolding bind_uop_def Let_def by (auto simp: rbind_eq_Inr_iff)
  then show "u_execution_unit_choices u = execution_unit_choices p (u_resource_choices u)"
    "scheduler_partitions p (u_execution_unit_choices u) = Inr (u_scheduler_partition_choices u)"
    using bind_uop_fields(6,9) [OF f(1)] by (simp_all add: same)
qed

lemma rall_InlD: "rall f xs = Inl e \<Longrightarrow> \<exists>x\<in>set xs. f x = Inl e"
  by (induction xs) (auto simp: rbind_eq_Inl_iff)

lemma checked_units:
  assumes topology: "validate_backend_topology p = Inr ()" "engine_topology p q" "distinct (keys (be_units (backend_of p)))"
    and u: "u_execution_unit_choices u = execution_unit_choices p (u_resource_choices u)"
      "scheduler_partitions p (u_execution_unit_choices u) = Inr (u_scheduler_partition_choices u)"
  shows "check_topology q reads writes u = rall (check_unit reads writes u)
      (filter (\<lambda>(_, x). set (u_resource_choices u) \<inter> set (eu_functional_units x) \<noteq> {}) (be_units (backend_of p)))"
proof -
  let ?units = "be_units (backend_of p)"
  let ?chosen = "filter (\<lambda>(_, x). set (u_resource_choices u) \<inter> set (eu_functional_units x) \<noteq> {}) ?units"
  have units: "np_units q = ?units" using topology(2) by (simp add: engine_topology_def)
  have ids: "u_execution_unit_choices u = map fst ?chosen" using u(1) by (simp add: execution_unit_choices_def)
  have at: "map_of ?units (fst x) = Some (snd x)" if "x \<in> set ?chosen" for x
    using that topology(3) by (intro map_of_is_SomeI) (auto simp: keys_def)
  have "rmap (fetch PKeyError ?units) (map fst ?chosen) = Inr (map snd ?chosen)"
    unfolding rmap_Inr_iff list_all2_map1 list_all2_map2 by (rule list.rel_refl_strong) (simp add: at del: set_filter)
  then have parts: "u_scheduler_partition_choices u = ordered_unique (map (eu_partition \<circ> snd) ?chosen)"
    using u(2) by (simp add: scheduler_partitions_def ids)
  have entries: "rmap (\<lambda>i. rbind (qget (np_units q) i) (\<lambda>x. Inr (i, x))) (map fst ?chosen) = Inr ?chosen"
    unfolding rmap_Inr_iff list_all2_map1 units by (rule list.rel_refl_strong) (simp add: at fetch_def del: set_filter)
  have known: "\<forall>x\<in>set ?chosen. eu_partition (snd x) \<in> set (keys (np_partitions q))"
    using topology_partitions [OF topology(1)] topology(2) by (auto simp: engine_topology_def)
  have none: "absent (u_scheduler_partition_choices u) (keys (np_partitions q)) = []"
    using known by (auto simp: absent_def parts filter_empty_conv)
  have none': "absent (map fst ?chosen) (keys ?units) = []" by (auto simp: absent_def filter_empty_conv keys_def)
  have same: "set (u_scheduler_partition_choices u) = set (map (eu_partition \<circ> snd) ?chosen)" by (simp add: parts)
  show ?thesis
    unfolding check_topology_def Let_def ids entries
    by (simp only: units none none' same rguard_simps rbind_simps simp_thms)
qed

text \<open>
  C40. The topology the binder chooses is the one the engine has: on a validated topology the engine
  that reads the profile finds every partition and unit of a bound uop, in agreement with each other
  and with the resources of the uop, so its check can only miss a port domain: a completion domain of a
  uop that needs a completion token or a read domain of one that needs a read token.
\<close>

theorem bound_topology_known:
  assumes "binder_ready p" and "bind_trace p version w entries = Inr t" and "u \<in> set (bt_uops t)"
    and "validate_backend_topology p = Inr ()" and "engine_topology p q" and "check_topology q reads writes u = Inl x"
  shows "\<exists>i. (x = MissingCompletionDomain (u_id u) i \<and> u_requires_completion_token u) \<or>
    (x = MissingReadDomain (u_id u) i \<and> u_requires_vector_read_token u)"
proof -
  obtain c e where org: "bound_from p entries u c e"
    by (rule bind_traceE [OF assms(2)]) (use bound_from assms(3) in force)
  have units: "distinct (keys (be_units (backend_of p)))" using assms(1) by (simp add: binder_ready_def)
  from assms(6) obtain i unit where "(i, unit) \<in> set (be_units (backend_of p))"
      "set (u_resource_choices u) \<inter> set (eu_functional_units unit) \<noteq> {}" "check_unit reads writes u (i, unit) = Inl x"
    unfolding checked_units [OF assms(4,5) units bound_choices [OF org]] by (fastforce dest!: rall_InlD)
  then show ?thesis by (auto simp: check_unit_def rbind_eq_Inl_iff split: if_splits)
qed

section \<open>An example\<close>

definition bdemo_uop :: "string \<Rightarrow> string \<Rightarrow> parameter \<Rightarrow> string \<Rightarrow> recipe_uop" where
  "bdemo_uop name kind latency resource =
     \<lparr>ru_id = name, ru_kind = kind, ru_latency_cycles = latency, ru_issue_interval_cycles = Whole 1,
      ru_occupancy_cycles = Whole 1, ru_resource_choices = [resource], ru_issue_domains = [], ru_issue_domain_demands = [],
      ru_rename_allocations = [], ru_depends_on = [], ru_part_index = None, ru_profile_path = None, ru_external_registers = None\<rparr>"

definition bdemo_recipe :: "recipe_uop list \<Rightarrow> recipe" where
  "bdemo_recipe us = \<lparr>rc_decoded_macro_ops = Whole 1, rc_retire_macro_ops = Whole 1, rc_dispatch_domains = [],
     rc_dispatch_domain_demands = [], rc_decomposition = None, rc_rename_allocations = [], rc_uops = us\<rparr>"

definition bdemo_backend :: backend where
  "bdemo_backend = \<lparr>be_execution_model = ''zen4'', be_accounting = [], be_dispatch_domains = [],
     be_partitions = [\<lparr>pt_id = ''vq'', pt_kind = ''vector_compute'', pt_entries = Whole 2, pt_enqueue_width = Whole 1,
       pt_execution_units = [''vfu'']\<rparr>],
     be_units = [(''vfu'', \<lparr>eu_partition = ''vq'', eu_functional_units = [''fma''], eu_read_domain = Some ''vrd'',
       eu_writeback_domain = Some ''vwb''\<rparr>)],
     be_register_files = [\<lparr>rg_read_domains = [(''vrd'', \<lparr>pd_port_count = Whole 1, pd_arbitration_capacity = Whole 1,
         pd_execution_units = [''vfu'']\<rparr>)],
       rg_writeback_domains = [(''vwb'', \<lparr>pd_port_count = Whole 1, pd_arbitration_capacity = Whole 1,
         pd_execution_units = [''vfu'']\<rparr>)]\<rparr>],
     be_vector_memory = default_vector_memory, be_rename = None, be_dependency = None, be_epochs = None,
     be_decomposition = None\<rparr>"

definition bdemo_level :: "int \<Rightarrow> bandwidth_entry" where
  "bdemo_level latency = \<lparr>bw_latency_cycles = Whole latency, bw_read_bytes_per_cycle = Whole 4, bw_write_bytes_per_cycle = Whole 4\<rparr>"

definition bdemo :: profile where
  "bdemo = \<lparr>pf_id = ''demo'', pf_digest = ''0'', pf_data = JObj [(''latency_cycles'', JFloat 15 1)], pf_max_vector_bits = 256,
     pf_vector_length_bits = None, pf_pipeline = [(''vector_scheduler_entries'', Whole 2)],
     pf_resources = [(''agu'', \<lparr>re_capacity = Whole 1, re_bytes_per_cycle = None\<rparr>),
       (''fma'', \<lparr>re_capacity = Whole 1, re_bytes_per_cycle = None\<rparr>)],
     pf_issue_domains = [(''port'', \<lparr>de_capacity = Whole 2, de_evidence = []\<rparr>)], pf_backend = Some bdemo_backend,
     pf_overlap = None,
     pf_recipes = [(''vle:'', bdemo_recipe [bdemo_uop ''load'' ''load_data'' (Whole 0) ''agu'']),
       (''vfma:vector,vector'', bdemo_recipe [(bdemo_uop ''fma'' ''vector_fp'' (Decimal 15 1) ''fma'')
          \<lparr>ru_issue_domains := [''port''], ru_rename_allocations := [(''vrf'', Whole 1)]\<rparr>])],
     pf_fit = None, pf_line_bytes = 64, pf_levels = [(''l1d'', bdemo_level 4)], pf_dram = bdemo_level 100,
     pf_sources = [], pf_evidence = [], pf_ticks_per_cycle = 2, pf_unresolved = []\<rparr>"

definition bdemo_semantic :: "string \<Rightarrow> semantic_uop" where
  "bdemo_semantic kind = \<lparr>s_local_id = ''a'', s_kind = kind, s_depends_on_local = [], s_reads_old_destination = False,
     s_old_destination_registers = None\<rparr>"

definition bdemo_entries :: "(instruction \<times> bind_hints) list" where
  "bdemo_entries =
     [(blank_instruction\<lparr>i_id := ''i0'', i_mnemonic := ''vle'', i_form := [], i_register_writes := [''v2''],
         i_memory := Some (demo_ref [7]), i_semantic_uops := [bdemo_semantic ''vector_load'']\<rparr>, no_hints),
      (blank_instruction\<lparr>i_id := ''i1'', i_sequence := 1, i_mnemonic := ''vfma'', i_form := [], i_operands := [''v1'', ''v2''],
         i_register_reads := [''v1'', ''v2''], i_register_writes := [''v1''], i_register_dependencies := [(''v2'', ''i0'')],
         i_semantic_uops := [bdemo_semantic ''vector_fp_fma'']\<rparr>, no_hints)]"

definition bdemo_load :: execution_uop where
  "bdemo_load = blank_uop\<lparr>u_id := ''i0.e0'', u_parent_id := ''i0'', u_mnemonic := ''vle'', u_semantic_kinds := [''vector_load''],
     u_kind := ''load_data'', u_scheduling_class := ''vle::load'', u_latency_ticks := 0, u_issue_interval_ticks := 2, u_occupancy_ticks := 2,
     u_resource_choices := [''agu''], u_requires_completion_token := True, u_semantic_ids := [semantic_id ''i0'' ''a''],
     u_memory := Some (demo_ref [7])\<rparr>"

definition bdemo_fma :: execution_uop where
  "bdemo_fma = blank_uop\<lparr>u_id := ''i1.e0'', u_sequence := 1, u_parent_id := ''i1'', u_parent_sequence := 1, u_mnemonic := ''vfma'',
     u_semantic_kinds := [''vector_fp_fma''], u_kind := ''vector_fp'', u_scheduling_class := ''vfma:vector,vector:fma'',
     u_latency_ticks := 3, u_issue_interval_ticks := 2, u_occupancy_ticks := 2, u_resource_choices := [''fma''],
     u_issue_domains := [''port''], u_issue_domain_demands := [(''port'', 1)], u_rename_allocations := [(''vrf'', 1)],
     u_scheduler_partition_choices := [''vq''], u_execution_unit_choices := [''vfu''], u_requires_completion_token := True,
     u_requires_vector_read_token := True, u_semantic_ids := [semantic_id ''i1'' ''a''], u_dependencies := [''i0.e0'']\<rparr>"

definition bdemo_trace :: bound_trace where
  "bdemo_trace = \<lparr>bt_trace_version = 2, bt_profile_id = ''demo'', bt_profile_sha256 = ''0'', bt_ticks_per_cycle = 2,
     bt_macros = [blank_macro\<lparr>m_id := ''i0'', m_mnemonic := ''vle'', m_uop_ids := [''i0.e0''], m_uses_load_queue := True,
         m_dispatch_units := Some 1, m_rob_entries := Some 1\<rparr>,
       blank_macro\<lparr>m_id := ''i1'', m_sequence := 1, m_mnemonic := ''vfma'', m_uop_ids := [''i1.e0''],
         m_uses_vector_scheduler := True, m_rename_allocations := [(''vrf'', 1)], m_dispatch_units := Some 1,
         m_rob_entries := Some 1\<rparr>],
     bt_uops = [bdemo_load, bdemo_fma],
     bt_resources = [(''agu'', \<lparr>r_id = ''agu'', r_capacity = 1, r_bytes_per_cycle = None\<rparr>),
       (''fma'', \<lparr>r_id = ''fma'', r_capacity = 1, r_bytes_per_cycle = None\<rparr>)],
     bt_workload = JNull, bt_source_trace = map fst bdemo_entries\<rparr>"

lemma bdemo_ready: "binder_ready bdemo" by code_simp

lemma bdemo_ids: "distinct (map (i_id \<circ> fst) bdemo_entries)" by code_simp

lemma bdemo_bound: "bind_trace bdemo (Some 2) JNull bdemo_entries = Inr bdemo_trace" by code_simp

theorem tick_unit_exact_witness: "whole_ticks bdemo 4 \<and> \<not> whole_ticks bdemo 3"
proof -
  have "compute_ticks_per_cycle bdemo = Inr 2" by code_simp
  from conjunct2 [OF tick_unit_exact [OF this]] have "\<forall>t. 2 dvd t \<longleftrightarrow> whole_ticks bdemo t" .
  moreover have "2 dvd (4::int)" "\<not> 2 dvd (3::int)" by simp_all
  ultimately show ?thesis by blast
qed

definition bdemo_access :: instruction where
  "bdemo_access = blank_instruction\<lparr>i_memory := Some ((demo_ref [])\<lparr>mr_address := 100, mr_bytes := 40\<rparr>)\<rparr>"

definition bdemo_state :: vector_state where
  "bdemo_state = \<lparr>vs_vlen_bits = 128, vs_sew_bits = Some 32, vs_lmul = Some ''m4'', vs_vlmax = None, vs_vl = None,
     vs_tail_policy = None, vs_mask_policy = None\<rparr>"

theorem memory_parts_tile_witness:
  "\<exists>parts. rmap (\<lambda>k. memory_part bdemo ((demo_ref [])\<lparr>mr_address := 100, mr_bytes := 40\<rparr>) k 3 128) [0..2] = Inr parts \<and>
     concat (map (\<lambda>r. [mr_address r..mr_address r + mr_bytes r - 1]) parts) = [100..139]"
proof -
  have "vector_part_count (PartRule ''dynamic'') bdemo_access bdemo_state 128 [] [] = Inr 3" by code_simp
  moreover have "i_memory bdemo_access = Some ((demo_ref [])\<lparr>mr_address := 100, mr_bytes := 40\<rparr>)" by (simp add: bdemo_access_def)
  moreover have "0 < pf_line_bytes bdemo" by (simp add: bdemo_def)
  ultimately have "\<exists>parts. rmap (\<lambda>k. memory_part bdemo ((demo_ref [])\<lparr>mr_address := 100, mr_bytes := 40\<rparr>) k 3 128) [0..3 - 1] = Inr parts \<and>
     concat (map (\<lambda>r. [mr_address r..mr_address r + mr_bytes r - 1]) parts) = [100..100 + 40 - 1]"
    using memory_parts_tile [of bdemo_access bdemo_state 128 "[]" "[]" 3 "(demo_ref [])\<lparr>mr_address := 100, mr_bytes := 40\<rparr>" bdemo]
    by auto
  then show ?thesis by simp
qed

theorem bound_trace_valid_witness: "validate_bound_trace bdemo_trace = Inr () \<and> map m_id (bt_macros bdemo_trace) = [''i0'', ''i1'']"
  using bound_trace_valid [OF bdemo_ready bdemo_ids bdemo_bound] by (simp add: bdemo_entries_def)

definition bdemo_zen4 :: zen4_profile where
  "bdemo_zen4 = demo_zen4\<lparr>zp_overlap_enabled := False\<rparr>"

definition bdemo_zstart :: "zen4_env \<times> zen4_state" where
  "bdemo_zstart = (case make_engine bdemo_trace bdemo_zen4 ''out_of_order'' HotL1 None of Inl _ \<Rightarrow> undefined | Inr x \<Rightarrow> x)"

lemma bdemo_zengine: "make_engine bdemo_trace bdemo_zen4 ''out_of_order'' HotL1 None = Inr (fst bdemo_zstart, snd bdemo_zstart)"
proof -
  have "(case make_engine bdemo_trace bdemo_zen4 ''out_of_order'' HotL1 None of Inl _ \<Rightarrow> False | Inr _ \<Rightarrow> True)" by code_simp
  then show ?thesis by (auto simp: bdemo_zstart_def split: sum.splits)
qed

lemma bdemo_lines: "trace_lines (map fst bdemo_entries) = [7]" by code_simp

lemma bdemo_fits: "zen4_fits bdemo bdemo_zen4 bdemo_entries"
proof -
  have "fits_below demo_profile [7]"
    by (simp add: fits_below_def fits_def demo_profile_def keys_def make_cache_def can_hold_def less_Suc_eq numeral_2_eq_2
        Let_def counter_get_add)
  moreover have "validate_issue_domains bdemo = Inr ()" "engine_domains bdemo [(''port'', 2)]" "lanes_ready bdemo" "preps_plain bdemo"
      "list_all (memory_ready bdemo) bdemo_entries" by code_simp+
  moreover have "0 < pf_ticks_per_cycle bdemo" by (simp add: bdemo_def)
  ultimately show ?thesis using demo_profile_ok bdemo_lines
    by (simp add: zen4_fits_def bdemo_zen4_def demo_zen4_def)
qed

theorem zen4_end_to_end_witness:
  "\<exists>s final. run_loop (fst bdemo_zstart) 20 0 (snd bdemo_zstart) = Inr (s, final) \<and> finished (fst bdemo_zstart) s \<and>
     (\<exists>u. uop_at s ''i1.e0'' = Some u \<and> (\<exists>r. u_ready_tick u = Some r \<and> deps_done s u r))"
proof -
  have "(case run_loop (fst bdemo_zstart) 20 0 (snd bdemo_zstart) of Inl _ \<Rightarrow> False
    | Inr (s, _) \<Rightarrow> uop_at s ''i1.e0'' \<noteq> None)" by code_simp
  then obtain s final u where r: "run_loop (fst bdemo_zstart) 20 0 (snd bdemo_zstart) = Inr (s, final)" "uop_at s ''i1.e0'' = Some u"
    by (auto split: sum.splits)
  from zen4_end_to_end [OF bdemo_ready bdemo_ids bdemo_bound bdemo_fits bdemo_zengine, of 20]
  have "finished (fst bdemo_zstart) s \<and> (\<exists>r. u_ready_tick u = Some r \<and> deps_done s u r)"
    unfolding r(1) sum.case prod.case using r(2) by blast
  then show ?thesis using r by blast
qed

definition bdemo_xstart :: "xsai_env \<times> xsai_state" where
  "bdemo_xstart = (case make_xengine bdemo_trace (Some 2) False ''generic-token'' xdemo_profile ''out_of_order'' HotL1 None of
     Inl _ \<Rightarrow> undefined | Inr x \<Rightarrow> x)"

lemma bdemo_xengine:
  "make_xengine bdemo_trace (Some 2) False ''generic-token'' xdemo_profile ''out_of_order'' HotL1 None =
     Inr (fst bdemo_xstart, snd bdemo_xstart)"
proof -
  have "(case make_xengine bdemo_trace (Some 2) False ''generic-token'' xdemo_profile ''out_of_order'' HotL1 None of
      Inl _ \<Rightarrow> False | Inr _ \<Rightarrow> True)" by code_simp
  then show ?thesis by (auto simp: bdemo_xstart_def split: sum.splits)
qed

theorem xsai_end_to_end_witness:
  "\<exists>s final. xrun_loop (fst bdemo_xstart) 8 0 (snd bdemo_xstart) = Inr (s, final) \<and>
     bt_macros bdemo_trace \<noteq> [] \<and> (\<forall>x\<in>set (bt_macros bdemo_trace). macro_retired s final (m_id x)) \<and>
     q_rob_occupancy s \<le> max 0 (np_rob_entries (n_profile (fst bdemo_xstart)))"
proof -
  have "(case xrun_loop (fst bdemo_xstart) 8 0 (snd bdemo_xstart) of Inl _ \<Rightarrow> False | Inr _ \<Rightarrow> bt_macros bdemo_trace \<noteq> [])" by code_simp
  then obtain s final where r: "xrun_loop (fst bdemo_xstart) 8 0 (snd bdemo_xstart) = Inr (s, final)" "bt_macros bdemo_trace \<noteq> []"
    by (auto split: sum.splits)
  from xsai_end_to_end [OF bdemo_ready bdemo_ids bdemo_bound bdemo_xengine r(1)] r show ?thesis by blast
qed

theorem bound_topology_known_witness:
  "\<exists>u x i. u \<in> set (bt_uops bdemo_trace) \<and> check_topology xdemo_profile [] [(''vwb'', 1)] u = Inl x \<and>
     x = MissingReadDomain (u_id u) i"
proof -
  have "length (bt_uops bdemo_trace) = 2 \<and> (case check_topology xdemo_profile [] [(''vwb'', 1)] (bt_uops bdemo_trace ! 1) of
      Inl (MissingReadDomain _ _) \<Rightarrow> True | _ \<Rightarrow> False)" by code_simp
  then obtain i j where x: "check_topology xdemo_profile [] [(''vwb'', 1)] (bt_uops bdemo_trace ! 1) = Inl (MissingReadDomain i j)" and
      u: "bt_uops bdemo_trace ! 1 \<in> set (bt_uops bdemo_trace)"
    by (auto split: sum.splits xsai_error.splits)
  have v: "validate_backend_topology bdemo = Inr ()" by code_simp
  have e: "engine_topology bdemo xdemo_profile"
    by (simp add: engine_topology_def bdemo_def bdemo_backend_def backend_of_def xdemo_profile_def keys_def)
  from bound_topology_known [OF bdemo_ready bdemo_bound u v e x] x u show ?thesis by auto
qed

end
