(* ===== verification/Spec2Isabelle.thy ===== *)
theory Spec2Isabelle
  imports Zen4Properties Zen4Groups X86Scalar X86Trace RvvTrace RvvVector XsaiTrace BindProperties
begin

text \<open>
  A verification development for the timing simulator of \<open>src/softmax_sim_avx512\<close>, the program
  that predicts the cycles of a vector kernel on a Zen 4 or a XiangShan (XSAI) core.

  \<^bold>\<open>The program.\<close>  A frontend reads the assembly of a kernel, interprets its scalar part and produces a
  dynamic trace: one instruction per executed item, with operands, memory references and links to the
  last writers of what it reads.  The profile of a core, a YAML file, gives each instruction a recipe of
  execution uops.  \<open>Profile.bind\<close> joins the two into a bound trace of macro-ops and execution uops.
  \<open>validate_bound_trace\<close> is the gate every engine passes it through; an engine then dispatches, issues,
  completes and retires it tick by tick, asking the memory hierarchy when an access may start and when
  its data arrive.  The paths below are under \<open>src/softmax_sim_avx512/src\<close>.

  \<^bold>\<open>Theories and sources.\<close>
  \<^item> \<open>Prelude\<close>: results as sums (\<open>rbind\<close>, \<open>rmap\<close>, \<open>rall\<close>, \<open>rfold\<close>), dictionaries as association lists in
    insertion order, counters, binary heaps as sorted lists, and the \<open>wp\<close> rules the proofs share.
    \<open>PyText\<close>: the string operations and integer literals of Python the code uses.
  \<^item> \<open>TraceModel\<close>: \<open>simulator/model.py\<close>, the dataclasses.  \<open>TraceCheck\<close>: \<open>simulator/trace.py\<close>; the validator
    accepts exactly the well-formed traces with an acyclic dependency graph.
  \<^item> \<open>Cache\<close>, \<open>Memory\<close>: \<open>simulator/memory.py\<close>, the set-associative cache and the hierarchy with pending
    fills, bandwidth and outstanding misses.  \<open>MemoryInvariants\<close>: its invariant, the lines a retired fill
    brings in, the meaning of an access after a free blocker, inclusion, progress of a blocked access.
  \<^item> \<open>Semantic\<close>: \<open>simulator/semantic.py\<close>, which execution entry implements which semantic uop.
  \<^item> \<open>X86\<close>, \<open>X86Scalar\<close>, \<open>X86Trace\<close>: \<open>frontends/x86.py\<close>; the scalar interpreter against 64-bit words, the links
    of the dynamic trace.  \<open>Rvv\<close>, \<open>RvvTrace\<close>, \<open>RvvVector\<close>: \<open>frontends/rvv.py\<close>, with \<open>vsetvli\<close>, register
    groups and the registers each mnemonic reads and writes.  \<open>TraceLinks\<close>: the last-writer tables both frontends keep.
  \<^item> \<open>ProfileData\<close>, \<open>ProfileCheck\<close>: \<open>simulator/profile.py\<close>, the records, the tick unit, the normalized policies
    and the validations of the constructor.  \<open>BindText\<close>, \<open>Bind\<close>: operand classes, recipe keys, vector parts and
    \<open>Profile.bind\<close>.  \<open>BindSteps\<close>, \<open>BindTrace\<close>, \<open>BindEngine\<close>, \<open>BindProperties\<close>: the invariant of the binder and its
    composition with the validator and both engines.
  \<^item> \<open>Zen4\<close>: \<open>backend/zen4.py\<close>, the whole engine.  \<open>Zen4Invariants\<close> states the invariants and an abstract
    machine \<open>zstep\<close>; \<open>Zen4Steps\<close>, \<open>Zen4Run\<close> and \<open>Zen4Start\<close> show that the code takes its steps only, starts in
    the invariant and raises nothing but the iteration guard; \<open>Zen4Properties\<close> and \<open>Zen4Groups\<close> draw the
    consequences.
  \<^item> \<open>XsaiExpand\<close>, \<open>XsaiSlots\<close>, \<open>XsaiTrace\<close>: \<open>backend/xsai.py\<close>, the expansion into scheduler slots.  \<open>XsaiState\<close>,
    \<open>XsaiDispatch\<close>, \<open>XsaiIssue\<close>, \<open>XsaiRun\<close>, \<open>XsaiLoop\<close>: its engine in the order of the code.  \<open>XsaiAssign\<close>: the
    backtracking partition assignment.  \<open>XsaiFrame\<close>, \<open>XsaiMachine\<close>, \<open>XsaiSteps\<close>, \<open>XsaiOrder\<close>,
    \<open>XsaiDispatchSteps\<close>: an abstract machine \<open>xstep\<close> with one rule per kind of change and its guard, and the
    proof that every operation of the code takes its steps only.  \<open>XsaiInvariants\<close>: the invariants of that
    machine (port and completion tokens, queues, rename registers, partitions, schedule, program order).
    \<open>XsaiReach\<close>: the operations of the event loop as the code performs them (\<open>xoperation\<close>) and the invariants
    in every state they reach; \<open>XsaiProperties\<close> states what follows for these states and for a finished run.
    The properties speak of the code's operations, and the guards of \<open>xstep\<close> are what the code is shown to check.

  \<^bold>\<open>Conventions.\<close>  A Python exception is the \<open>Inl\<close> of a sum with one constructor per error; a look-up that
  raises \<open>KeyError\<close> is \<open>fetch\<close> with that error.  A dictionary is an association list with distinct keys, a set
  is the list of its elements, and where the code sorts a set the model does.  Integers are unbounded, as
  in Python; registers of the interpreted programs are 64-bit, and the theorems about them say so over
  \<open>64 word\<close>.  Ticks are integers: \<open>ticks_per_cycle\<close> is the least common denominator of the profile, and
  \<open>tick_unit_exact\<close> shows it is exact and least.  A profile parameter is \<open>Measure\<close>, the placeholder for a value
  not measured yet, an integer or a decimal number.

  \<^bold>\<open>Termination.\<close>  The run loops carry the code's own iteration guard as fuel, \<open>max(10000, 100 * uops)\<close>
  iterations, and raise the code's error when it is exhausted.  Inside an iteration every loop is shown to
  end: the completion and issue loops by the number of uops not yet issued or completed, the search for a
  completion token by the reservations that lie ahead (\<open>reserve_completion_returns\<close>), the sweep of the
  validator by the edges left, and the frontends by the item count the code itself limits.

  \<^bold>\<open>What is assumed of the input.\<close>  \<open>zen4_workload\<close> and \<open>xsai_workload\<close> say that the records are fresh and
  their demands fit; \<open>BindEngine\<close> derives both from the binder, for a profile with the constraints of
  \<open>schemas/profile.schema.json\<close> whose recipes list their entries in dependency order (\<open>binder_ready\<close>) and a
  trace with distinct instruction ids.  That entries come in dependency order is not checked when a
  profile is loaded; a recipe that breaks it is caught by the validator.

  \<^bold>\<open>Not modelled.\<close>  Reading and hashing the YAML profile and applying the JSON schema (\<open>load_profile\<close>), the
  command line (\<open>simulator/cli.py\<close>, \<open>simulator/engine.py\<close>, \<open>utils\<close>), the report of \<open>simulator/semantic_view.py\<close> and the
  writers of \<open>simulator/export.py\<close>: they transport or format what the modelled parts compute.  The scripts
  around measurements (\<open>xsai\<close>, \<open>kernel\<close>, \<open>gbench-test\<close>, \<open>amd_profile_benchmark\<close>) run external programs and
  tabulate their output.  Floating point occurs where ticks are divided by the ticks per cycle for a
  report, where the model keeps ticks, and in the occupancy ratio of a partition, which is compared exactly.
\<close>

end
